(* ===== verification/Prelude.thy ===== *)
theory Prelude
  imports Main "HOL-Library.Word" "HOL-Library.Char_ord"
begin

text \<open>
  Shared vocabulary of the development: machine types, C buffers and strings, the explicit
  faults of the C abstract machine, and the generic lemmas the component theories use.

  A C function of the gateway that can leave the defined behaviour of C (a read or write out of
  the bounds of an allocation, a null dereference, a failed assertion, a loop that never ends)
  returns a value of type \<open>fault + 'a\<close>: \<open>Inl\<close> names the fault, \<open>Inr\<close> carries the result of the
  defined executions.
\<close>

unbundle bit_operations_syntax

section \<open>Machine types\<close>

type_synonym byte = "8 word"
type_synonym u32 = "32 word"

text \<open>A \<open>char *\<close> that may be \<open>NULL\<close>; the characters before the terminating NUL.\<close>
type_synonym cstr = "string option"

section \<open>Faults of the C abstract machine\<close>

datatype fault =
    Read_oob        \<comment> \<open>read outside an allocation\<close>
  | Write_oob       \<comment> \<open>write outside an allocation\<close>
  | Null_deref      \<comment> \<open>null pointer handed to a function that dereferences it\<close>
  | Assert_failed   \<comment> \<open>an \<open>assert\<close> of the source fails\<close>
  | Uninit_read     \<comment> \<open>an automatic variable is read before it is written\<close>
  | Use_after_free  \<comment> \<open>a pointer to freed memory is used\<close>
  | Wrong_type      \<comment> \<open>memory is read, written or called as a type it does not hold\<close>

type_synonym 'a run = "fault + 'a"

fun rbind :: "'a run \<Rightarrow> ('a \<Rightarrow> 'b run) \<Rightarrow> 'b run" where
  "rbind (Inl e) f = Inl e"
| "rbind (Inr x) f = f x"

fun is_ok :: "'e + 'a \<Rightarrow> bool" where
  "is_ok (Inl e) = False"
| "is_ok (Inr x) = True"

lemma is_ok_iff: "is_ok r \<longleftrightarrow> (\<exists>x. r = Inr x)"
  by (cases r) auto

lemma rbind_Inr_iff [simp]: "rbind m f = Inr y \<longleftrightarrow> (\<exists>x. m = Inr x \<and> f x = Inr y)"
  by (cases m) auto

text \<open>A defined result of a step that goes on by the case of what it got.\<close>
named_theorems run_cases

lemma rbind_case_sum [run_cases]:
  "rbind m (case_sum f g) = Inr r \<longleftrightarrow>
    (\<exists>e. m = Inr (Inl e) \<and> f e = Inr r) \<or> (\<exists>x. m = Inr (Inr x) \<and> g x = Inr r)"
  by (cases m; cases "projr m") auto

lemma rbind_case_option [run_cases]:
  "rbind m (case_option f g) = Inr r \<longleftrightarrow>
    (m = Inr None \<and> f = Inr r) \<or> (\<exists>x. m = Inr (Some x) \<and> g x = Inr r)"
  by (cases m; cases "projr m") auto

lemma rbind_case_prod [run_cases]:
  "rbind m (case_prod f) = Inr r \<longleftrightarrow> (\<exists>a b. m = Inr (a, b) \<and> f a b = Inr r)"
  by (cases m) auto

lemma case_sum_result [run_cases]:
  "case_sum f g b = Inr r \<longleftrightarrow> (\<exists>e. b = Inl e \<and> f e = Inr r) \<or> (\<exists>x. b = Inr x \<and> g x = Inr r)"
  by (cases b) auto

lemma case_option_result [run_cases]:
  "case_option f g b = Inr r \<longleftrightarrow> (b = None \<and> f = Inr r) \<or> (\<exists>x. b = Some x \<and> g x = Inr r)"
  by (cases b) auto

section \<open>Allocated buffers\<close>

definition bread :: "'a list \<Rightarrow> nat \<Rightarrow> 'a run" where
  "bread buf i = (if i < length buf then Inr (buf ! i) else Inl Read_oob)"

definition bwrite :: "'a list \<Rightarrow> nat \<Rightarrow> 'a \<Rightarrow> 'a list run" where
  "bwrite buf i v = (if i < length buf then Inr (buf[i := v]) else Inl Write_oob)"

lemma bread_in [simp]: "i < length buf \<Longrightarrow> bread buf i = Inr (buf ! i)"
  by (simp add: bread_def)

lemma bwrite_in [simp]: "i < length buf \<Longrightarrow> bwrite buf i v = Inr (buf[i := v])"
  by (simp add: bwrite_def)

lemma bwrite_oob [simp]: "length buf \<le> i \<Longrightarrow> bwrite buf i v = Inl Write_oob"
  by (simp add: bwrite_def)

lemma bwrite_length: "bwrite buf i v = Inr buf' \<Longrightarrow> length buf' = length buf"
  by (auto simp: bwrite_def split: if_splits)

section \<open>Characters and bytes\<close>

definition byte_of :: "char \<Rightarrow> byte" where
  "byte_of c = word_of_nat (of_char c)"

definition chr :: "byte \<Rightarrow> char" where
  "chr b = char_of (unat b)"

lemma chr_byte_of [simp]: "chr (byte_of c) = c"
proof -
  have "(of_char c :: nat) < 256" by simp
  hence "unat (word_of_nat (of_char c) :: byte) = of_char c"
    by (simp add: unsigned_of_nat take_bit_nat_eq_self)
  thus ?thesis by (simp add: chr_def byte_of_def)
qed

lemma byte_of_chr [simp]: "byte_of (chr b) = b"
proof -
  have "unat b < 256" using unsigned_less [of b, where ?'a=nat] by simp
  hence "of_char (char_of (unat b)) = unat b" by simp
  thus ?thesis by (simp add: byte_of_def chr_def)
qed

lemma byte_of_inject [simp]: "byte_of c = byte_of d \<longleftrightarrow> c = d"
  by (metis chr_byte_of)

lemma chr_inject [simp]: "chr a = chr b \<longleftrightarrow> a = b"
  by (metis byte_of_chr)

section \<open>Bit-level facts on octets\<close>

lemma masks: "(0x03::byte) = mask 2" "(0x0F::byte) = mask 4" "(0x3F::byte) = mask 6"
  by (simp_all add: mask_eq_exp_minus_1)
lemma sub_back: "2 \<le> n \<Longrightarrow> Suc (Suc (n - 2)) = n" "4 \<le> n \<Longrightarrow> Suc (Suc (Suc (Suc (n - 4)))) = n"
  by simp_all

lemmas byte_bits = masks take_bit_eq_mask [symmetric] bit_simps sub_back

lemma lt64: "(\<And>n. 6 \<le> n \<Longrightarrow> \<not> bit w n) \<Longrightarrow> w < (64::byte)"
proof -
  assume *: "\<And>n. 6 \<le> n \<Longrightarrow> \<not> bit w n"
  have "w AND mask 6 = w"
    by (rule bit_word_eqI) (simp add: bit_simps, metis * leI)
  with and_mask_less_size [of 6 w] show ?thesis by (simp add: word_size)
qed
section \<open>C strings\<close>

text \<open>The string a \<open>char *\<close> denotes: everything before the first NUL of its buffer.\<close>
definition c_string :: "byte list \<Rightarrow> string" where
  "c_string bs = map chr (takeWhile (\<lambda>b. b \<noteq> 0) bs)"

text \<open>A string without NUL, which is what a \<open>char *\<close> can carry.\<close>
definition no_nul :: "string \<Rightarrow> bool" where
  "no_nul s \<longleftrightarrow> CHR 0x00 \<notin> set s"

text \<open>Reading a C string by index: the terminating NUL is readable, anything after it is not.\<close>
definition cread :: "string \<Rightarrow> nat \<Rightarrow> char run" where
  "cread s i = (if i < length s then Inr (s ! i)
                else if i = length s then Inr (CHR 0x00) else Inl Read_oob)"

lemma cread_in [simp]: "i < length s \<Longrightarrow> cread s i = Inr (s ! i)"
  by (simp add: cread_def)

lemma cread_end [simp]: "cread s (length s) = Inr (CHR 0x00)"
  by (simp add: cread_def)

definition is_digit :: "char \<Rightarrow> bool" where
  "is_digit c \<longleftrightarrow> CHR ''0'' \<le> c \<and> c \<le> CHR ''9''"

section \<open>Encoder/decoder pairs\<close>

text \<open>
  The contract of the textual codecs of the gateway (base64, hexadecimal, the enumerations of the
  RSMP fields): decoding what was encoded gives the value back, on the values the encoder
  supports.
\<close>
locale codec =
  fixes enc :: "'a \<Rightarrow> 'b"
    and dec :: "'b \<Rightarrow> 'a option"
    and ok :: "'a \<Rightarrow> bool"
  assumes dec_enc: "ok x \<Longrightarrow> dec (enc x) = Some x"
begin

lemma enc_inj: "inj_on enc (Collect ok)"
  by (rule inj_onI) (metis dec_enc mem_Collect_eq option.inject)

lemma enc_eq_iff: "ok x \<Longrightarrow> ok y \<Longrightarrow> enc x = enc y \<longleftrightarrow> x = y"
  using enc_inj by (auto dest: inj_onD)

lemma dec_enc_list: "list_all ok xs \<Longrightarrow> map (dec \<circ> enc) xs = map Some xs"
  by (induction xs) (auto simp: dec_enc)

end

end
