(* ===== verification/Base64.thy ===== *)
theory Base64
  imports Prelude
begin

text \<open>
  Model of \<open>crypt/base64.c\<close>.  The encoder walks the input by groups of three octets and appends
  four characters; the decoder walks the text by groups of four characters and writes into a
  buffer allocated from the length of the text and its trailing \<open>=\<close> characters.  The reads
  \<open>input[input_length - 1]\<close> and the writes into the buffer are checked accesses here, so the
  empty text (which the source reads at index -1) is a fault and the absence of a buffer overrun
  is a theorem.
\<close>

section \<open>Alphabet\<close>

definition base64_chars :: string where
  "base64_chars = ''ABCDEFGHIJKLMNOPQRSTUVWXYZabcdefghijklmnopqrstuvwxyz0123456789+/''"

definition b64_char :: "byte \<Rightarrow> char" where
  "b64_char w = base64_chars ! unat w"

text \<open>The search loop of the decoder: index of the last matching letter, 0 when there is none.\<close>
definition b64_index :: "char \<Rightarrow> byte" where
  "b64_index c = fold (\<lambda>k acc. if base64_chars ! k = c then word_of_nat k else acc) [0..<64] 0"

section \<open>Encoder\<close>

text \<open>One turn of the encoding loop at position \<open>i\<close>.\<close>
definition b64_quartet :: "byte list \<Rightarrow> nat \<Rightarrow> string" where
  "b64_quartet input i =
    (let octet1 = input ! i;
         octet2 = (if i + 1 < length input then input ! (i + 1) else 0);
         octet3 = (if i + 2 < length input then input ! (i + 2) else 0)
     in [b64_char (drop_bit 2 octet1),
         b64_char (push_bit 4 (octet1 AND 0x03) OR drop_bit 4 octet2),
         (if i + 1 < length input then b64_char (push_bit 2 (octet2 AND 0x0F) OR drop_bit 6 octet3)
          else CHR ''=''),
         (if i + 2 < length input then b64_char (octet3 AND 0x3F) else CHR ''='')])"

function b64_encode_from :: "byte list \<Rightarrow> nat \<Rightarrow> string" where
  "b64_encode_from input i =
    (if i < length input then b64_quartet input i @ b64_encode_from input (i + 3) else [])"
  by pat_completeness auto
termination by (relation "measure (\<lambda>(input, i). length input - i)") auto

declare b64_encode_from.simps [simp del]

definition base64_encode :: "byte list \<Rightarrow> string" where
  "base64_encode input = b64_encode_from input 0"

section \<open>Decoder\<close>

text \<open>The size given to \<open>calloc\<close>; \<open>None\<close> is the read at index -1 of an empty text.\<close>
definition b64_decoded_length :: "string \<Rightarrow> nat run" where
  "b64_decoded_length s =
    (let n = length s; d = (n div 4) * 3
     in if n = 0 then Inl Read_oob
        else if s ! (n - 1) = CHR ''='' then
          (if s ! (n - 2) = CHR ''='' then Inr (d - 2) else Inr (d - 1))
        else Inr d)"

text \<open>One turn of the decoding loop: up to three checked writes at \<open>j\<close>.\<close>
definition b64_block :: "string \<Rightarrow> nat \<Rightarrow> nat \<Rightarrow> byte list \<Rightarrow> byte list run" where
  "b64_block s i j buf =
    (let char3 = s ! (i + 2); char4 = s ! (i + 3);
         index1 = b64_index (s ! i); index2 = b64_index (s ! (i + 1));
         index3 = b64_index char3; index4 = b64_index char4
     in rbind (bwrite buf j (push_bit 2 index1 OR drop_bit 4 index2)) (\<lambda>buf1.
        rbind (if char3 \<noteq> CHR ''=''
               then bwrite buf1 (j + 1) (push_bit 4 (index2 AND 0x0F) OR drop_bit 2 index3)
               else Inr buf1) (\<lambda>buf2.
        if char4 \<noteq> CHR ''=''
        then bwrite buf2 (j + 2) (push_bit 6 (index3 AND 0x03) OR index4)
        else Inr buf2)))"

function b64_decode_from :: "string \<Rightarrow> nat \<Rightarrow> nat \<Rightarrow> byte list \<Rightarrow> byte list run" where
  "b64_decode_from s i j buf =
    (if i < length s
     then rbind (b64_block s i j buf) (b64_decode_from s (i + 4) (j + 3))
     else Inr buf)"
  by pat_completeness auto
termination by (relation "measure (\<lambda>(s, i, j, buf). length s - i)") auto

declare b64_decode_from.simps [simp del]

text \<open>\<open>Inr None\<close> is the return value -1 (length not a multiple of four).\<close>
definition base64_decode :: "string \<Rightarrow> byte list option run" where
  "base64_decode s =
    (if length s mod 4 \<noteq> 0 then Inr None
     else rbind (b64_decoded_length s) (\<lambda>n.
          rbind (b64_decode_from s 0 0 (replicate n 0)) (\<lambda>buf. Inr (Some buf))))"

section \<open>Reference functions\<close>

text \<open>The encoding by structural recursion on the input.\<close>
fun b64_ref :: "byte list \<Rightarrow> string" where
  "b64_ref [] = []"
| "b64_ref [a] = b64_quartet [a] 0"
| "b64_ref [a, b] = b64_quartet [a, b] 0"
| "b64_ref (a # b # c # rest) = b64_quartet [a, b, c] 0 @ b64_ref rest"

text \<open>The three octets a group of four characters stands for; a \<open>=\<close> leaves the octet zero.\<close>
definition b64_triple :: "char \<Rightarrow> char \<Rightarrow> char \<Rightarrow> char \<Rightarrow> byte list" where
  "b64_triple c1 c2 c3 c4 =
    [push_bit 2 (b64_index c1) OR drop_bit 4 (b64_index c2),
     if c3 = CHR ''='' then 0
     else push_bit 4 (b64_index c2 AND 0x0F) OR drop_bit 2 (b64_index c3),
     if c4 = CHR ''='' then 0 else push_bit 6 (b64_index c3 AND 0x03) OR b64_index c4]"

fun b64_octets :: "string \<Rightarrow> byte list" where
  "b64_octets (c1 # c2 # c3 # c4 # rest) = b64_triple c1 c2 c3 c4 @ b64_octets rest"
| "b64_octets _ = []"

text \<open>The zero octets the last group of the decoder leaves behind the input.\<close>
definition pad3 :: "byte list \<Rightarrow> byte list" where
  "pad3 bs = replicate ((3 - length bs mod 3) mod 3) 0"

section \<open>Lemmas\<close>

lemma word6_index: "w < 64 \<Longrightarrow> b64_index (b64_char w) = w"
proof -
  assume "w < 64"
  hence *: "unat w < 64" by (simp add: word_less_nat_alt)
  have "\<forall>k\<in>set [0..<64]. b64_index (base64_chars ! k) = word_of_nat k" by code_simp
  with * have "b64_index (base64_chars ! unat w) = word_of_nat (unat w)" by auto
  thus ?thesis by (simp add: b64_char_def)
qed
lemma sextets:
  fixes a b c :: byte
  shows "drop_bit 2 a < 64" "push_bit 4 (a AND 0x03) OR drop_bit 4 b < 64"
   "push_bit 2 (b AND 0x0F) OR drop_bit 6 c < 64" "c AND 0x3F < 64"
  by (rule lt64, auto simp: byte_bits dest: bit_imp_le_length)+
lemma join1: "push_bit 2 (drop_bit 2 a) OR drop_bit 4 (push_bit 4 (a AND 0x03) OR drop_bit 4 b) = (a::byte)"
  by (rule bit_word_eqI) (auto simp: byte_bits not_less, metis leI sub_back(1))
lemma join2: "push_bit 4 ((push_bit 4 (a AND 0x03) OR drop_bit 4 b) AND 0x0F)
  OR drop_bit 2 (push_bit 2 (b AND 0x0F) OR drop_bit 6 c) = (b::byte)"
  apply (rule bit_word_eqI) apply (auto simp: byte_bits)
  done
lemma join3: "push_bit 6 ((push_bit 2 (b AND 0x0F) OR drop_bit 6 c) AND 0x03) OR (c AND 0x3F) = (c::byte)"
  apply (rule bit_word_eqI) apply (auto simp: byte_bits)
  done

lemma b64_quartet_drop:
  "i + k < length input \<Longrightarrow> b64_quartet input (i + k) = b64_quartet (drop i input) k"
  by (simp add: b64_quartet_def Let_def add.assoc less_diff_conv add.commute add.left_commute)

lemma b64_encode_from_ref: "b64_encode_from input i = b64_ref (drop i input)"
proof (induction input i rule: b64_encode_from.induct)
  case (1 input i)
  show ?case
  proof (cases "i < length input")
    case False
    thus ?thesis by (simp add: b64_encode_from.simps)
  next
    case True
    let ?d = "drop i input"
    have step: "b64_encode_from input i = b64_quartet ?d 0 @ b64_ref (drop 3 ?d)"
      using 1 True b64_quartet_drop [of i 0 input]
      by (simp add: b64_encode_from.simps [of input i] add.commute)
    have "?d \<noteq> []" using True by simp
    hence "b64_quartet ?d 0 @ b64_ref (drop 3 ?d) = b64_ref ?d"
      by (cases ?d rule: b64_ref.cases) (auto simp: b64_quartet_def Let_def)
    with step show ?thesis by simp
  qed
qed

lemma base64_encode_ref: "base64_encode input = b64_ref input"
  by (simp add: base64_encode_def b64_encode_from_ref)

lemma length_b64_quartet [simp]: "length (b64_quartet xs i) = 4"
  by (simp add: b64_quartet_def Let_def)

lemma length_b64_ref: "length (b64_ref bs) = 4 * ((length bs + 2) div 3)"
proof (induction bs rule: b64_ref.induct)
  case (4 a b c rest)
  have "length (b64_ref (a # b # c # rest)) = 4 + 4 * ((length rest + 2) div 3)"
    using 4 by simp
  also have "\<dots> = 4 * ((length (a # b # c # rest) + 2) div 3)" by simp presburger
  finally show ?case .
qed simp_all

lemma length_b64_octets: "length (b64_octets s) = 3 * (length s div 4)"
  by (induction s rule: b64_octets.induct) (simp_all add: b64_triple_def, presburger)

lemma b64_char_not_pad [simp]: "w < 64 \<Longrightarrow> b64_char w \<noteq> CHR ''=''"
proof -
  assume "w < 64"
  hence "unat w < 64" by (simp add: word_less_nat_alt)
  moreover have "\<forall>k\<in>set [0..<64]. base64_chars ! k \<noteq> CHR ''=''" by code_simp
  ultimately show ?thesis by (simp add: b64_char_def)
qed

lemma b64_triple_quartet:
  "b64_triple (b64_char (drop_bit 2 a)) (b64_char (push_bit 4 (a AND 0x03) OR drop_bit 4 b))
     (b64_char (push_bit 2 (b AND 0x0F) OR drop_bit 6 c)) (b64_char (c AND 0x3F)) = [a, b, c]"
  by (simp only: b64_triple_def sextets word6_index b64_char_not_pad if_False join1 join2 join3 simp_thms)


lemma b64_octets_ref: "b64_octets (b64_ref bs) = bs @ pad3 bs"
proof (induction bs rule: b64_ref.induct)
  case (2 a)
  have "push_bit 2 (drop_bit 2 a) OR drop_bit 4 (push_bit 4 (a AND 0x03)) = a"
    using join1 [of a 0] by simp
  thus ?case
    using sextets(1) [of a] sextets(2) [of a 0]
    by (simp add: numeral_2_eq_2 b64_quartet_def b64_triple_def pad3_def word6_index del: push_bit_and)
next
  case (3 a b)
  have "push_bit 4 ((push_bit 4 (a AND 0x03) OR drop_bit 4 b) AND 0x0F)
        OR drop_bit 2 (push_bit 2 (b AND 0x0F)) = b"
    using join2 [of a b 0] by simp
  thus ?case
    using sextets(1) [of a] sextets(2) [of a b] sextets(3) [of b 0] join1 [of a b]
    by (simp add: b64_quartet_def b64_triple_def pad3_def word6_index del: push_bit_and)
next
  case (4 a b c rest)
  have "pad3 (a # b # c # rest) = pad3 rest" by (simp add: pad3_def)
  with 4 show ?case
    by (simp add: b64_quartet_def Let_def del: push_bit_and)
      (simp only: b64_triple_quartet append.simps)
qed (simp add: pad3_def)



lemma b64_block_write:
  assumes l: "length acc = j" and n: "j + 1 \<le> n" and n2: "s ! (i + 2) \<noteq> CHR ''='' \<Longrightarrow> j + 2 \<le> n"
    and n3: "s ! (i + 3) \<noteq> CHR ''='' \<Longrightarrow> j + 3 \<le> n"
  shows "b64_block s i j (take n (acc @ 0 # 0 # 0 # zs)) =
    Inr (take n (acc @ b64_triple (s ! i) (s ! (i + 1)) (s ! (i + 2)) (s ! (i + 3)) @ zs))"
  using assms
  by (auto simp: b64_block_def Let_def b64_triple_def take_update_swap [symmetric] list_update_append
      numeral_2_eq_2 numeral_3_eq_3)

lemma b64_decoded_length_le:
  assumes "b64_decoded_length s = Inr n" "length s mod 4 = 0" "i mod 4 = 0" "i < length s"
  shows "3 * (i div 4) + 1 \<le> n"
    "s ! (i + 2) \<noteq> CHR ''='' \<Longrightarrow> 3 * (i div 4) + 2 \<le> n"
    "s ! (i + 3) \<noteq> CHR ''='' \<Longrightarrow> 3 * (i div 4) + 3 \<le> n"
proof -
  obtain q r where q: "i = 4 * q" and r: "length s = 4 * r" "q < r"
    using assms(2-4) by (metis mod_0_imp_dvd dvdE mult_less_cancel1)
  have cases: "q + 1 < r \<or> i + 4 = length s" using q r by linarith
  have n: "n \<ge> 3 * r - 2" "s ! (4 * r - 1) \<noteq> CHR ''='' \<Longrightarrow> n = 3 * r"
     "s ! (4 * r - 2) \<noteq> CHR ''='' \<Longrightarrow> n \<ge> 3 * r - 1"
    using assms(1) r by (auto simp: b64_decoded_length_def Let_def split: if_splits)
  show "3 * (i div 4) + 1 \<le> n" using n(1) q r by simp
  show "s ! (i + 2) \<noteq> CHR ''='' \<Longrightarrow> 3 * (i div 4) + 2 \<le> n"
    using cases
  proof
    assume "i + 4 = length s" and c: "s ! (i + 2) \<noteq> CHR ''=''"
    hence "i + 2 = 4 * r - 2" using r by simp
    with c n(3) q r show ?thesis by simp
  qed (use n(1) q in simp)
  show "s ! (i + 3) \<noteq> CHR ''='' \<Longrightarrow> 3 * (i div 4) + 3 \<le> n"
    using cases
  proof
    assume "i + 4 = length s" and c: "s ! (i + 3) \<noteq> CHR ''=''"
    hence "i + 3 = 4 * r - 1" using r by simp
    with c n(2) q r show ?thesis by simp
  qed (use n(1) q in simp)
qed

lemma drop_four:
  "i + 4 \<le> length s \<Longrightarrow> drop i s = s ! i # s ! (i + 1) # s ! (i + 2) # s ! (i + 3) # drop (i + 4) s"
  by (simp add: Cons_nth_drop_Suc numeral_eq_Suc)

lemma b64_decode_from_octets:
  assumes "b64_decoded_length s = Inr n" "length s mod 4 = 0"
  shows "i mod 4 = 0 \<Longrightarrow> i \<le> length s \<Longrightarrow> length acc = 3 * (i div 4) \<Longrightarrow>
    b64_decode_from s i (3 * (i div 4)) (take n (acc @ replicate (3 * ((length s - i) div 4)) 0)) =
    Inr (take n (acc @ b64_octets (drop i s)))"
proof (induction "length s - i" arbitrary: i acc rule: less_induct)
  case less
  show ?case
  proof (cases "i < length s")
    case False
    thus ?thesis using less.prems by (simp add: b64_decode_from.simps)
  next
    case True
    have i4: "i + 4 \<le> length s" using True less.prems assms(2) by presburger
    let ?m = "(length s - (i + 4)) div 4"
    have m: "(length s - i) div 4 = Suc ?m" using i4 by simp
    let ?t = "b64_triple (s ! i) (s ! (i + 1)) (s ! (i + 2)) (s ! (i + 3))"
    have rep: "replicate (3 * ((length s - i) div 4)) 0 = 0 # 0 # 0 # replicate (3 * ?m) (0::byte)"
      unfolding m by (simp add: numeral_3_eq_3)
    have blk: "b64_block s i (3 * (i div 4)) (take n (acc @ 0 # 0 # 0 # replicate (3 * ?m) 0)) =
       Inr (take n (acc @ ?t @ replicate (3 * ?m) 0))"
      using b64_block_write [OF less.prems(3)] b64_decoded_length_le [OF assms less.prems(1) True]
      by blast
    have t3: "length ?t = 3" by (simp add: b64_triple_def)
    have j: "3 * (i div 4) + 3 = 3 * ((i + 4) div 4)" by presburger
    have "b64_decode_from s (i + 4) (3 * ((i + 4) div 4)) (take n ((acc @ ?t) @ replicate (3 * ?m) 0))
       = Inr (take n ((acc @ ?t) @ b64_octets (drop (i + 4) s)))"
      by (rule less.hyps) (use True i4 less.prems t3 in auto)
    thus ?thesis
      using True by (simp only: b64_decode_from.simps [of s i] if_True rep blk rbind.simps j
          drop_four [OF i4] b64_octets.simps append_assoc)
  qed
qed

lemma b64_decoded_length_ok: "s \<noteq> [] \<Longrightarrow> \<exists>n. b64_decoded_length s = Inr n"
  by (auto simp: b64_decoded_length_def Let_def)

lemma b64_decoded_length_max: "b64_decoded_length s = Inr n \<Longrightarrow> n \<le> 3 * (length s div 4)"
  by (auto simp: b64_decoded_length_def Let_def split: if_splits)

text \<open>What the decoder computes, on every text.\<close>
lemma base64_decode_octets:
  "base64_decode s =
    (if length s mod 4 \<noteq> 0 then Inr None
     else rbind (b64_decoded_length s) (\<lambda>n. Inr (Some (take n (b64_octets s)))))"
proof (cases "length s mod 4 = 0 \<and> s \<noteq> []")
  case True
  then obtain n where n: "b64_decoded_length s = Inr n" using b64_decoded_length_ok by blast
  have "replicate n 0 = take n ([] @ replicate (3 * ((length s - 0) div 4)) (0::byte))"
    using b64_decoded_length_max [OF n] by (simp add: min_def)
  hence "b64_decode_from s 0 0 (replicate n 0) = Inr (take n (b64_octets s))"
    using b64_decode_from_octets [OF n, of 0 "[]"] True by simp
  thus ?thesis using True n by (simp add: base64_decode_def)
qed (auto simp: base64_decode_def b64_decoded_length_def)


lemma b64_decoded_length_append:
  assumes "length q = 4" "b64_decoded_length s = Inr n" "length s mod 4 = 0"
  shows "b64_decoded_length (q @ s) = Inr (n + 3)"
proof -
  have ne: "length s \<noteq> 0" using assms(2) by (auto simp: b64_decoded_length_def)
  with assms(3) have "length s \<ge> 4" by presburger
  moreover have "(length s + 4) div 4 * 3 = length s div 4 * 3 + 3" by presburger
  ultimately show ?thesis
    using assms ne by (auto simp: b64_decoded_length_def Let_def nth_append split: if_splits)
qed

lemma b64_decoded_length_ref:
  "bs \<noteq> [] \<Longrightarrow> b64_decoded_length (b64_ref bs) = Inr (length bs)"
proof (induction bs rule: b64_ref.induct)
  case (2 a)
  thus ?case by (simp add: b64_quartet_def b64_decoded_length_def)
next
  case (3 a b)
  have "b64_char (push_bit 2 (b AND 0x0F)) \<noteq> CHR ''=''" using sextets(3) [of b 0] by simp
  thus ?case by (simp add: b64_quartet_def b64_decoded_length_def del: push_bit_and)
next
  case (4 a b c rest)
  have c: "b64_char (c AND 0x3F) \<noteq> CHR ''=''" using sextets(4) by simp
  show ?case
  proof (cases "rest = []")
    case True
    thus ?thesis using c by (simp add: b64_quartet_def b64_decoded_length_def)
  next
    case False
    hence "b64_decoded_length (b64_ref rest) = Inr (length rest)" using 4 by simp
    from b64_decoded_length_append [OF _ this, of "b64_quartet [a, b, c] 0"]
    show ?thesis by (simp add: length_b64_ref)
  qed
qed simp

section \<open>The codec interface\<close>

text \<open>The defined, successful results of the decoder.\<close>
definition base64_value :: "string \<Rightarrow> byte list option" where
  "base64_value s = (case base64_decode s of Inr r \<Rightarrow> r | Inl _ \<Rightarrow> None)"

interpretation b64: codec base64_encode base64_value "\<lambda>bs. bs \<noteq> []"
  by unfold_locales (simp add: base64_value_def base64_decode_octets base64_encode_ref
      length_b64_ref b64_decoded_length_ref b64_octets_ref)

section \<open>Properties\<close>

text \<open>C33. Decoding the base64 text of a non-empty buffer gives the buffer back, padding
  included.\<close>
theorem base64_roundtrip:
  "bs \<noteq> [] \<Longrightarrow> base64_decode (base64_encode bs) = Inr (Some bs)"
  by (simp add: base64_decode_octets base64_encode_ref length_b64_ref b64_decoded_length_ref
      b64_octets_ref)

theorem base64_roundtrip_witness:
  "base64_decode (base64_encode [82, 83, 77, 80]) = Inr (Some [82, 83, 77, 80])"
  by (rule base64_roundtrip) simp

text \<open>The result of the decoder on every text: the read before the buffer on the empty text,
  the error return when the length is not a multiple of four, and otherwise (whatever the
  characters, no write ever leaves the allocation) the octets of the groups cut to the length
  announced by the padding.\<close>
lemma base64_decode_total:
  "base64_decode s =
    (if s = [] then Inl Read_oob
     else if length s mod 4 \<noteq> 0 then Inr None
     else Inr (Some (take (length s div 4 * 3 -
            (if last s = CHR ''='' then if s ! (length s - 2) = CHR ''='' then 2 else 1 else 0))
            (b64_octets s))))"
  by (simp add: base64_decode_octets b64_decoded_length_def Let_def last_conv_nth)

end
