(* ===== verification/Bcd.thy ===== *)
theory Bcd
  imports Prelude
begin

text \<open>
  Model of \<open>crypt/bcd.c\<close>: hexadecimal text, with an optional separator between the octets.  The
  decoder allocates \<open>strlen / 2\<close> octets and walks the text by pairs, skipping one character
  after a pair when it is not a hexadecimal digit.  Its writes into the allocation and its reads
  of the text are checked accesses.
\<close>

section \<open>Half octets\<close>

definition isxdigit :: "char \<Rightarrow> bool" where
  "isxdigit c \<longleftrightarrow> is_digit c \<or> CHR ''a'' \<le> c \<and> c \<le> CHR ''f'' \<or> CHR ''A'' \<le> c \<and> c \<le> CHR ''F''"

definition c2a :: "byte \<Rightarrow> char" where
  "c2a c = (let d = c AND 0x0F
            in if d < 0x0A then chr (byte_of (CHR ''0'') + d)
               else chr (byte_of (CHR ''A'') + d - 0x0A))"

definition a2c :: "char \<Rightarrow> byte" where
  "a2c c = (if CHR ''0'' \<le> c \<and> c \<le> CHR ''9'' then byte_of c - byte_of (CHR ''0'')
            else if CHR ''a'' \<le> c \<and> c \<le> CHR ''f'' then 0x0A + byte_of c - byte_of (CHR ''a'')
            else if CHR ''A'' \<le> c \<and> c \<le> CHR ''F'' then 0x0A + byte_of c - byte_of (CHR ''A'')
            else 0)"

section \<open>Encoder\<close>

definition bcd_use_sep :: "char \<Rightarrow> bool" where
  "bcd_use_sep sep \<longleftrightarrow> sep \<noteq> CHR 0x00 \<and> \<not> isxdigit sep"

text \<open>
  The buffer is filled with a separator after every octet and its last cell is overwritten by the
  NUL, so the text is the buffer without its last cell.
\<close>
definition bcd_encode_sep :: "byte list \<Rightarrow> char \<Rightarrow> cstr" where
  "bcd_encode_sep buf sep =
    (if buf = [] then None
     else if bcd_use_sep sep
     then Some (butlast (concat (map (\<lambda>b. [c2a (drop_bit 4 b), c2a (b AND 0x0F), sep]) buf)))
     else Some (concat (map (\<lambda>b. [c2a (drop_bit 4 b), c2a (b AND 0x0F)]) buf)))"

section \<open>Decoder\<close>

function bcd_decode_loop :: "string \<Rightarrow> nat \<Rightarrow> nat \<Rightarrow> byte list \<Rightarrow> byte list run" where
  "bcd_decode_loop buf i lout out =
    (if i < length buf
     then rbind (bwrite out lout (push_bit 4 (a2c (buf ! i)) AND 0xF0)) (\<lambda>out1.
          rbind (cread buf (i + 1)) (\<lambda>c.
          rbind (bwrite out1 lout (out1 ! lout OR a2c c)) (\<lambda>out2.
          rbind (cread buf (i + 2)) (\<lambda>d.
            if isxdigit d then bcd_decode_loop buf (i + 2) (lout + 1) out2
            else bcd_decode_loop buf (i + 3) (lout + 1) out2))))
     else Inr (take lout out))"
  by pat_completeness auto
termination by (relation "measure (\<lambda>(buf, i, lout, out). length buf - i)") auto

declare bcd_decode_loop.simps [simp del]

text \<open>\<open>Inr None\<close> is the \<open>NULL\<close> result.\<close>
definition bcd_decode :: "cstr \<Rightarrow> byte list option run" where
  "bcd_decode buf =
    (case buf of
       None \<Rightarrow> Inr None
     | Some s \<Rightarrow>
         if length s > 1 \<and> isxdigit (s ! 0) \<and> isxdigit (s ! 1)
         then rbind (bcd_decode_loop s 0 0 (replicate (length s div 2) 0)) (\<lambda>out. Inr (Some out))
         else Inr None)"

section \<open>Reference function\<close>

text \<open>The decoder on the remaining text, with the room left in the allocation.\<close>
fun bcd_ref :: "nat \<Rightarrow> string \<Rightarrow> byte list run" where
  "bcd_ref cap [] = Inr []"
| "bcd_ref cap [a] = (if cap = 0 then Inl Write_oob else Inl Read_oob)"
| "bcd_ref cap [a, b] = (if cap = 0 then Inl Write_oob
     else Inr [push_bit 4 (a2c a) AND 0xF0 OR a2c b])"
| "bcd_ref cap (a # b # c # rest) = (if cap = 0 then Inl Write_oob
     else rbind (bcd_ref (cap - 1) (if isxdigit c then c # rest else rest))
            (\<lambda>out. Inr ((push_bit 4 (a2c a) AND 0xF0 OR a2c b) # out)))"

text \<open>The octets of an even number of hexadecimal digits.\<close>
fun bcd_pairs :: "string \<Rightarrow> byte list" where
  "bcd_pairs (a # b # rest) = (push_bit 4 (a2c a) AND 0xF0 OR a2c b) # bcd_pairs rest"
| "bcd_pairs _ = []"

section \<open>Lemmas\<close>

lemma isxdigit_NUL [simp]: "\<not> isxdigit (CHR 0x00)"
  by code_simp

lemma nibble_cases:
  assumes "w < (16::byte)"
  shows "w \<in> set (map word_of_nat [0..<16])"
proof -
  from assms have "unat w < 16" by (simp add: word_less_nat_alt)
  moreover have "w = word_of_nat (unat w)" by simp
  ultimately show ?thesis by (simp only: set_map set_upt) (metis atLeast0LessThan imageI lessThan_iff)
qed

lemma a2c_c2a: "w < 16 \<Longrightarrow> a2c (c2a w) = w"
proof -
  have "\<forall>w\<in>set (map word_of_nat [0..<16]). a2c (c2a w) = w" by code_simp
  thus "w < 16 \<Longrightarrow> a2c (c2a w) = w" using nibble_cases by blast
qed

lemma isxdigit_c2a: "w < 16 \<Longrightarrow> isxdigit (c2a w)"
proof -
  have "\<forall>w\<in>set (map word_of_nat [0..<16]). isxdigit (c2a w)" by code_simp
  thus "w < 16 \<Longrightarrow> isxdigit (c2a w)" using nibble_cases by blast
qed

lemma lt16: "(\<And>n. 4 \<le> n \<Longrightarrow> \<not> bit w n) \<Longrightarrow> w < (16::byte)"
proof -
  assume *: "\<And>n. 4 \<le> n \<Longrightarrow> \<not> bit w n"
  have "w AND mask 4 = w"
    by (rule bit_word_eqI) (simp add: bit_simps, metis * leI)
  with and_mask_less_size [of 4 w] show ?thesis by (simp add: word_size)
qed

lemma nibbles:
  fixes b :: byte
  shows "drop_bit 4 b < 16" "b AND 0x0F < 16"
  by (rule lt16, auto simp: byte_bits dest: bit_imp_le_length)+

lemma nibble_join: "push_bit 4 (drop_bit 4 b) AND 0xF0 OR (b AND 0x0F) = (b::byte)"
proof -
  have *: "(0xF0::byte) = push_bit 4 (mask 4)" by (simp add: mask_eq_exp_minus_1)
  have high: "drop_bit 4 b AND mask 4 = drop_bit 4 b"
    by (rule bit_word_eqI) (auto simp: bit_simps dest: bit_imp_le_length)
  have "push_bit 4 (drop_bit 4 b) AND 0xF0 = push_bit 4 (drop_bit 4 b)"
    unfolding * by (simp only: push_bit_and [symmetric] high)
  moreover have "push_bit 4 (drop_bit 4 b) OR take_bit 4 b = b"
    by (rule bit_word_eqI) (auto simp: bit_simps not_less sub_back(2))
  ultimately show ?thesis by (simp add: masks take_bit_eq_mask)
qed

lemmas octet_hex = a2c_c2a [OF nibbles(1)] a2c_c2a [OF nibbles(2)] isxdigit_c2a [OF nibbles(1)]
  isxdigit_c2a [OF nibbles(2)] nibble_join


lemma map_butlast_ne: "xs \<noteq> [] \<Longrightarrow> butlast (concat (map f (x # xs))) = f x @ butlast (concat (map f xs))"
  if "\<And>x. f x \<noteq> []"
  using that by (cases xs) (auto simp: butlast_append)

lemma bcd_ref_plain:
  "length bs \<le> cap \<Longrightarrow>
   bcd_ref cap (concat (map (\<lambda>b. [c2a (drop_bit 4 b), c2a (b AND 0x0F)]) bs)) = Inr bs"
proof (induction bs arbitrary: cap)
  case (Cons b bs)
  thus ?case by (cases bs) (auto simp: octet_hex simp del: and.assoc)
qed simp

lemma bcd_ref_sep:
  assumes "\<not> isxdigit sep"
  shows "bs \<noteq> [] \<Longrightarrow> length bs \<le> cap \<Longrightarrow>
   bcd_ref cap (butlast (concat (map (\<lambda>b. [c2a (drop_bit 4 b), c2a (b AND 0x0F), sep]) bs))) = Inr bs"
proof (induction bs arbitrary: cap)
  case (Cons b bs)
  show ?case
  proof (cases "bs = []")
    case True
    thus ?thesis using Cons.prems by (simp add: octet_hex)
  next
    case False
    let ?f = "\<lambda>b. [c2a (drop_bit 4 b), c2a (b AND 0x0F), sep]"
    have "butlast (concat (map ?f (b # bs))) = ?f b @ butlast (concat (map ?f bs))"
      by (rule map_butlast_ne) (auto simp: False)
    moreover have "bcd_ref (cap - 1) (butlast (concat (map ?f bs))) = Inr bs"
      using Cons False by simp
    ultimately show ?thesis using assms Cons.prems by (simp add: octet_hex)
  qed
qed simp

lemma bcd_ref_0: "xs \<noteq> [] \<Longrightarrow> bcd_ref 0 xs = Inl Write_oob"
  by (cases "(0::nat, xs)" rule: bcd_ref.cases) auto

lemma bcd_decode_loop_ref:
  "lout \<le> length out \<Longrightarrow>
   bcd_decode_loop buf i lout out =
     rbind (bcd_ref (length out - lout) (drop i buf)) (\<lambda>r. Inr (take lout out @ r))"
proof (induction buf i lout out rule: bcd_decode_loop.induct)
  case (1 buf i lout out)
  let ?v = "push_bit 4 (a2c (buf ! i)) AND 0xF0"
  show ?case
  proof (cases "i < length buf \<and> lout < length out")
    case False
    thus ?thesis using "1.prems" by (auto simp: bcd_decode_loop.simps [of buf i] bcd_ref_0)
  next
    case True
    hence step: "bcd_decode_loop buf i lout out =
      rbind (cread buf (i + 1)) (\<lambda>c. rbind (cread buf (i + 2)) (\<lambda>d.
        bcd_decode_loop buf (if isxdigit d then i + 2 else i + 3) (Suc lout) (out[lout := ?v OR a2c c])))"
      by (simp cong: if_cong add: bcd_decode_loop.simps [of buf i] if_distrib [of "\<lambda>k. bcd_decode_loop buf k l z" for l z])
    have tk: "take (lout + 1) (out[lout := v]) = take lout out @ [v]" for v
      using True by (simp add: take_Suc_conv_app_nth)
    consider "i + 1 = length buf" | "i + 2 = length buf" | "i + 3 \<le> length buf"
      using True by linarith
    thus ?thesis
    proof cases
      case 1
      hence "drop i buf = [buf ! i]" by (metis True Cons_nth_drop_Suc Suc_eq_plus1 drop_all order_refl)
      moreover have "cread buf (i + 1) = Inr (CHR 0x00)" "cread buf (i + 2) = Inl Read_oob"
        using 1 by (auto simp: cread_def)
      ultimately show ?thesis using True unfolding step by simp
    next
      case 2
      hence "drop i buf = [buf ! i, buf ! (i + 1)]"
        by (simp flip: Cons_nth_drop_Suc)
      moreover have "cread buf (i + 1) = Inr (buf ! (i + 1))" "cread buf (i + 2) = Inr (CHR 0x00)"
        using 2 by (auto simp: cread_def)
      moreover have "bcd_decode_loop buf (i + 3) (lout + 1) z = Inr (take (lout + 1) z)" for z
        using 2 by (simp add: bcd_decode_loop.simps)
      ultimately show ?thesis using True 2 tk unfolding step by simp
    next
      case 3
      let ?c = "buf ! (i + 2)"
      have d: "drop i buf = buf ! i # buf ! (i + 1) # ?c # drop (i + 3) buf"
        using 3 by (simp add: Cons_nth_drop_Suc numeral_eq_Suc)
      have d2: "drop (i + 2) buf = ?c # drop (i + 3) buf"
        using 3 by (simp add: Cons_nth_drop_Suc numeral_eq_Suc)
      let ?out = "out[lout := ?v OR a2c (buf ! (i + 1))]"
      have ih: "bcd_decode_loop buf k (lout + 1) ?out =
          rbind (bcd_ref (length out - (lout + 1)) (drop k buf)) (\<lambda>r. Inr (take (lout + 1) ?out @ r))"
        if "k = (if isxdigit ?c then i + 2 else i + 3)" for k
        using True "1.IH" that by (cases "isxdigit ?c") simp_all
      have "bcd_decode_loop buf i lout out =
          bcd_decode_loop buf (if isxdigit ?c then i + 2 else i + 3) (lout + 1) ?out"
        using 3 unfolding step by simp
      also have "\<dots> = rbind (bcd_ref (length out - lout) (drop i buf)) (\<lambda>r. Inr (take lout out @ r))"
        unfolding ih [OF refl] d tk using True d2
        by (cases "bcd_ref (length out - (lout + 1)) (if isxdigit ?c then ?c # drop (i + 3) buf else drop (i + 3) buf)")
          (auto split: if_splits)
      finally show ?thesis .
    qed
  qed
qed


lemma bcd_decode_ref:
  "bcd_decode (Some s) =
    (if length s > 1 \<and> isxdigit (s ! 0) \<and> isxdigit (s ! 1)
     then rbind (bcd_ref (length s div 2) s) (\<lambda>out. Inr (Some out)) else Inr None)"
  by (cases "bcd_ref (length s div 2) s") (simp_all add: bcd_decode_def bcd_decode_loop_ref)

lemma length_bcd_sep:
  "length (butlast (concat (map (\<lambda>b. [c2a (drop_bit 4 b), c2a (b AND 0x0F), sep]) bs))) = 3 * length bs - 1"
  by (induction bs) auto

lemma length_bcd_plain:
  "length (concat (map (\<lambda>b. [c2a (drop_bit 4 b), c2a (b AND 0x0F)]) bs)) = 2 * length bs"
  by (induction bs) auto

lemma bcd_roundtrip_general:
  assumes "buf \<noteq> []"
  shows "bcd_decode (bcd_encode_sep buf sep) = Inr (Some buf)"
proof -
  obtain b bs where buf: "buf = b # bs" using assms by (cases buf) auto
  let ?f = "\<lambda>b. [c2a (drop_bit 4 b), c2a (b AND 0x0F), sep]"
  have first: "butlast (concat (map ?f buf)) =
      c2a (drop_bit 4 b) # c2a (b AND 0x0F) # butlast (sep # concat (map ?f bs))"
    by (simp add: buf)
  show ?thesis
  proof (cases "bcd_use_sep sep")
    case True
    have "bcd_ref ((3 * length buf - 1) div 2) (butlast (concat (map ?f buf))) = Inr buf"
      using True assms by (intro bcd_ref_sep) (auto simp: bcd_use_sep_def buf)
    thus ?thesis
      using True assms
      by (simp only: bcd_encode_sep_def bcd_decode_ref length_bcd_sep if_True if_False)
        (simp add: first buf isxdigit_c2a nibbles)
  next
    case False
    have "bcd_ref (2 * length buf div 2) (concat (map (\<lambda>b. [c2a (drop_bit 4 b), c2a (b AND 0x0F)]) buf)) = Inr buf"
      by (rule bcd_ref_plain) simp
    thus ?thesis
      using False assms
      by (simp only: bcd_encode_sep_def bcd_decode_ref length_bcd_plain if_False)
        (simp add: buf isxdigit_c2a nibbles)
  qed
qed

lemma bcd_ref_hex:
  "list_all isxdigit s \<Longrightarrow>
   bcd_ref (length s div 2) s = (if odd (length s) then Inl Write_oob else Inr (bcd_pairs s))"
proof (induction s rule: induct_list012)
  case (3 a b s)
  thus ?case by (cases s) auto
qed auto

section \<open>The codec interface\<close>

text \<open>The defined results of the decoder.\<close>
definition bcd_value :: "cstr \<Rightarrow> byte list option" where
  "bcd_value s = (case bcd_decode s of Inr r \<Rightarrow> r | Inl _ \<Rightarrow> None)"

interpretation bcd: codec "\<lambda>buf. bcd_encode_sep buf sep" bcd_value "\<lambda>buf. buf \<noteq> []" for sep
  by unfold_locales (simp add: bcd_value_def bcd_roundtrip_general)

section \<open>Properties\<close>

text \<open>Encoding a non-empty buffer in hexadecimal and decoding the text gives the buffer back,
  for every separator, printable or not, hexadecimal digit or not, and without any access outside
  the allocation.\<close>
lemma bcd_roundtrip:
  "buf \<noteq> [] \<Longrightarrow> bcd_decode (bcd_encode_sep buf sep) = Inr (Some buf)"
  by (rule bcd_roundtrip_general)

lemma bcd_roundtrip_witness:
  "bcd_decode (bcd_encode_sep [0x00, 0xAF, 0x7E] (CHR '':'')) = Inr (Some [0x00, 0xAF, 0x7E])"
  by (rule bcd_roundtrip) simp

text \<open>On a text of at least two hexadecimal digits the decoder returns one octet per pair of
  digits when their number is even, and writes one octet past its allocation of \<open>strlen / 2\<close>
  octets when it is odd.\<close>
lemma bcd_decode_hex_text:
  assumes "1 < length s" and "list_all isxdigit s"
  shows "bcd_decode (Some s) =
    (if odd (length s) then Inl Write_oob else Inr (Some (bcd_pairs s)))"
proof -
  obtain a b t where s: "s = a # b # t" using assms(1) by (cases s; cases "tl s") auto
  have "isxdigit (s ! 0)" "isxdigit (s ! 1)" using assms(2) by (simp_all add: s)
  thus ?thesis using assms(1) by (simp only: bcd_decode_ref bcd_ref_hex [OF assms(2)]) simp
qed

lemma bcd_decode_hex_text_witness:
  "bcd_decode (Some ''a1B2'') = Inr (Some [0xA1, 0xB2]) \<and> bcd_decode (Some ''a1B'') = Inl Write_oob"
proof
  have "bcd_decode (Some ''a1B2'') = Inr (Some (bcd_pairs ''a1B2''))"
    by (subst bcd_decode_hex_text) code_simp+
  moreover have "bcd_pairs ''a1B2'' = [0xA1, 0xB2]" by code_simp
  ultimately show "bcd_decode (Some ''a1B2'') = Inr (Some [0xA1, 0xB2])" by simp
  show "bcd_decode (Some ''a1B'') = Inl Write_oob"
    by (subst bcd_decode_hex_text) code_simp+
qed

end
