(* ===== verification/Errcode.thy ===== *)
theory Errcode
  imports Prelude
begin

text \<open>
  Model of \<open>errcode/errcode.h\<close> and \<open>errcode/errcode.c\<close>: the 32-bit error codes (family in the high
  half, number in the low half), the tables of messages and the lookup \<open>rsmp_errcode2str\<close> with
  its bound check.  The tables are indexed by the number without the family; the bound stored
  beside them is the end marker of the family, family bits included.
\<close>

section \<open>Families and codes\<close>

definition family_mask :: u32 where
  "family_mask = 0xFFFF0000"

definition errcode_family :: "u32 \<Rightarrow> u32" where
  "errcode_family e = drop_bit 16 (e AND family_mask)"

definition errcode_value :: "u32 \<Rightarrow> u32 \<Rightarrow> u32" where
  "errcode_value f e = push_bit 16 f OR (e AND NOT family_mask)"

datatype family =
  FGen | FJson | FSxl | FCyber | FWdog | FAuth | FCipher | FTransport

fun family_no :: "family \<Rightarrow> u32" where
  "family_no FGen = 0"
| "family_no FJson = 1"
| "family_no FSxl = 2"
| "family_no FCyber = 3"
| "family_no FWdog = 4"
| "family_no FAuth = 5"
| "family_no FCipher = 6"
| "family_no FTransport = 7"

text \<open>The enumeration, each family in the order of the source, end markers left out.\<close>
datatype errcode =
    E_no_error | E_generic | E_config | E_decode | E_encode
  | J_no_error | J_generic | J_unknown_msg | J_notfound | J_decode | J_parse | J_no_header | J_encode
  | S_no_error | S_generic | S_unknown_cmd | S_not_available_cmd | S_no_arg_cmd
  | C_no_error | C_generic | C_flux
  | W_no_error | W_no_response | W_no_receive | W_failure
  | A_no_error | A_failing_input | A_unknown | A_failure | A_no_secret | A_outdated
  | K_no_error | K_keygen | K_decrypt | K_encrypt
  | T_no_error | T_generic | T_connection | T_listener

definition err_family :: "errcode \<Rightarrow> family" where
  "err_family e = (case e of
     E_no_error \<Rightarrow> FGen | E_generic \<Rightarrow> FGen | E_config \<Rightarrow> FGen | E_decode \<Rightarrow> FGen | E_encode \<Rightarrow> FGen
   | J_no_error \<Rightarrow> FJson | J_generic \<Rightarrow> FJson | J_unknown_msg \<Rightarrow> FJson | J_notfound \<Rightarrow> FJson
   | J_decode \<Rightarrow> FJson | J_parse \<Rightarrow> FJson | J_no_header \<Rightarrow> FJson | J_encode \<Rightarrow> FJson
   | S_no_error \<Rightarrow> FSxl | S_generic \<Rightarrow> FSxl | S_unknown_cmd \<Rightarrow> FSxl | S_not_available_cmd \<Rightarrow> FSxl
   | S_no_arg_cmd \<Rightarrow> FSxl
   | C_no_error \<Rightarrow> FCyber | C_generic \<Rightarrow> FCyber | C_flux \<Rightarrow> FCyber
   | W_no_error \<Rightarrow> FWdog | W_no_response \<Rightarrow> FWdog | W_no_receive \<Rightarrow> FWdog | W_failure \<Rightarrow> FWdog
   | A_no_error \<Rightarrow> FAuth | A_failing_input \<Rightarrow> FAuth | A_unknown \<Rightarrow> FAuth | A_failure \<Rightarrow> FAuth
   | A_no_secret \<Rightarrow> FAuth | A_outdated \<Rightarrow> FAuth
   | K_no_error \<Rightarrow> FCipher | K_keygen \<Rightarrow> FCipher | K_decrypt \<Rightarrow> FCipher | K_encrypt \<Rightarrow> FCipher
   | T_no_error \<Rightarrow> FTransport | T_generic \<Rightarrow> FTransport | T_connection \<Rightarrow> FTransport
   | T_listener \<Rightarrow> FTransport)"

definition err_number :: "errcode \<Rightarrow> u32" where
  "err_number e = (case e of
     E_no_error \<Rightarrow> 0 | E_generic \<Rightarrow> 1 | E_config \<Rightarrow> 2 | E_decode \<Rightarrow> 3 | E_encode \<Rightarrow> 4
   | J_no_error \<Rightarrow> 0 | J_generic \<Rightarrow> 1 | J_unknown_msg \<Rightarrow> 2 | J_notfound \<Rightarrow> 3
   | J_decode \<Rightarrow> 4 | J_parse \<Rightarrow> 5 | J_no_header \<Rightarrow> 6 | J_encode \<Rightarrow> 7
   | S_no_error \<Rightarrow> 0 | S_generic \<Rightarrow> 1 | S_unknown_cmd \<Rightarrow> 2 | S_not_available_cmd \<Rightarrow> 3
   | S_no_arg_cmd \<Rightarrow> 4
   | C_no_error \<Rightarrow> 0 | C_generic \<Rightarrow> 1 | C_flux \<Rightarrow> 2
   | W_no_error \<Rightarrow> 0 | W_no_response \<Rightarrow> 1 | W_no_receive \<Rightarrow> 2 | W_failure \<Rightarrow> 3
   | A_no_error \<Rightarrow> 0 | A_failing_input \<Rightarrow> 1 | A_unknown \<Rightarrow> 2 | A_failure \<Rightarrow> 3
   | A_no_secret \<Rightarrow> 4 | A_outdated \<Rightarrow> 5
   | K_no_error \<Rightarrow> 0 | K_keygen \<Rightarrow> 1 | K_decrypt \<Rightarrow> 2 | K_encrypt \<Rightarrow> 3
   | T_no_error \<Rightarrow> 0 | T_generic \<Rightarrow> 1 | T_connection \<Rightarrow> 2 | T_listener \<Rightarrow> 3)"

definition err_code :: "errcode \<Rightarrow> u32" where
  "err_code e = errcode_value (family_no (err_family e)) (err_number e)"

text \<open>The end markers \<open>_rsmp_errcod_<family>_end_\<close>, family bits included.\<close>
fun family_end :: "family \<Rightarrow> u32" where
  "family_end FGen = err_code E_encode + 1"
| "family_end FJson = err_code J_encode + 1"
| "family_end FSxl = err_code S_no_arg_cmd + 1"
| "family_end FCyber = err_code C_flux + 1"
| "family_end FWdog = err_code W_failure + 1"
| "family_end FAuth = err_code A_outdated + 1"
| "family_end FCipher = err_code K_encrypt + 1"
| "family_end FTransport = err_code T_listener + 1"

section \<open>Tables of messages\<close>

definition gen_libs :: "cstr list" where
  "gen_libs = [Some ''gen/no error'', Some ''gen/error'', Some ''gen/config'',
    Some ''gen/decode error'', Some ''gen/encode error'']"

definition json_libs :: "cstr list" where
  "json_libs = [Some ''json/no error'', Some ''json/error'', Some ''json/message rsmp inconnu'',
    Some ''json/object json not found'', Some ''json/decode error'', Some ''json/parse failure'',
    Some ''json/no header'', Some ''json/encode error'']"

definition sxl_libs :: "cstr list" where
  "sxl_libs = [Some ''sxl/no error'', Some ''sxl/error'', Some ''sxl/unknown command'',
    Some ''sxl/unavailable command'', Some ''sxl/command without arg'']"

definition cyber_libs :: "cstr list" where
  "cyber_libs = [Some ''cyber/no error'', Some ''cyber/error'',
    Some ''cyber/error on communication flux'']"

definition wdog_libs :: "cstr list" where
  "wdog_libs = [Some ''wdog/no error'', Some ''wdog/watchdog sent without response'',
    Some ''wdog/no watchdog received for a while'',
    Some ''wdog/watchdog failure, close flux requested'']"

text \<open>The initialiser has no entry for \<open>failing_input\<close>: index 1 stays \<open>NULL\<close>.\<close>
definition auth_libs :: "cstr list" where
  "auth_libs = [Some ''auth/no error'', None, Some ''auth/login unknown'',
    Some ''auth/authentification failure'', Some ''auth/no secret found'',
    Some ''auth/timestamp failure'']"

definition cipher_libs :: "cstr list" where
  "cipher_libs = [Some ''cipher/no error'', Some ''cipher/key generation failure'',
    Some ''cipher/decrypt failure'', Some ''cipher/encrypt failure'']"

text \<open>
  \<open>_errcode_libs\<close>: the bound and the table of each family.  The array has one cell per family and
  no initialiser for the transport family, whose bound is therefore 0.
\<close>
definition errcode_libs :: "(u32 \<times> cstr list) list" where
  "errcode_libs =
    [(family_end FGen, gen_libs), (family_end FJson, json_libs), (family_end FSxl, sxl_libs),
     (family_end FCyber, cyber_libs), (family_end FWdog, wdog_libs), (family_end FAuth, auth_libs),
     (family_end FCipher, cipher_libs), (0, [])]"

definition errcode2str :: "u32 \<Rightarrow> cstr run" where
  "errcode2str errcode =
    (if errcode = 0 then Inr (Some ''no error'')
     else let f = errcode_family errcode; e = errcode AND NOT family_mask
          in if unat f < length errcode_libs \<and> e < fst (errcode_libs ! unat f)
             then bread (snd (errcode_libs ! unat f)) (unat e)
             else Inr (Some ''unknown error code''))"

text \<open>Every constant of the enumeration.\<close>
definition all_codes :: "errcode list" where
  "all_codes =
    [E_no_error, E_generic, E_config, E_decode, E_encode,
     J_no_error, J_generic, J_unknown_msg, J_notfound, J_decode, J_parse, J_no_header, J_encode,
     S_no_error, S_generic, S_unknown_cmd, S_not_available_cmd, S_no_arg_cmd,
     C_no_error, C_generic, C_flux, W_no_error, W_no_response, W_no_receive, W_failure,
     A_no_error, A_failing_input, A_unknown, A_failure, A_no_secret, A_outdated,
     K_no_error, K_keygen, K_decrypt, K_encrypt,
     T_no_error, T_generic, T_connection, T_listener]"

section \<open>Lemmas\<close>

lemmas err_code_eval = err_code_def errcode_value_def errcode_family_def family_mask_def
  err_family_def err_number_def push_bit_eq_mult

lemma family_end_eval:
  "family_end FGen = 5" "family_end FJson = 0x10008" "family_end FSxl = 0x20005"
  "family_end FCyber = 0x30003" "family_end FWdog = 0x40004" "family_end FAuth = 0x50006"
  "family_end FCipher = 0x60004"
  by (simp_all add: err_code_eval)

lemma errcode_number_bound: "(e :: u32) AND NOT family_mask < 0x10000"
proof -
  have "NOT family_mask = mask 16" by (simp add: family_mask_def mask_eq_exp_minus_1)
  thus ?thesis using and_mask_less_size [of 16 e] by (simp add: word_size)
qed

lemma errcode_number_max: "unat ((e :: u32) AND NOT family_mask) < 65536"
  using errcode_number_bound [of e] by (simp add: word_less_nat_alt)

lemmas libs_defs = gen_libs_def json_libs_def sxl_libs_def cyber_libs_def wdog_libs_def
  auth_libs_def cipher_libs_def

lemma errcode_libs_eval:
  "errcode_libs = [(5, gen_libs), (0x10008, json_libs), (0x20005, sxl_libs), (0x30003, cyber_libs),
     (0x40004, wdog_libs), (0x50006, auth_libs), (0x60004, cipher_libs), (0, [])]"
  by (simp only: errcode_libs_def family_end_eval)

lemma errcode_bound_vacuous:
  assumes "0 < f" "f < 7"
  shows "(e :: u32) AND NOT family_mask < fst (errcode_libs ! f)"
proof -
  have "f \<in> {1, 2, 3, 4, 5, 6}" using assms by auto
  hence "0x10000 \<le> fst (errcode_libs ! f)" by (auto simp: errcode_libs_eval)
  with errcode_number_bound [of e] show ?thesis by (rule less_le_trans)
qed

lemma all_codes [simp]: "e \<in> set all_codes"
  by (cases e) (simp_all add: all_codes_def)

lemma inj_err_code: "inj err_code"
proof -
  have "map (unat \<circ> err_code) all_codes =
     [0..<5] @ map ((+) 0x10000) [0..<8] @ map ((+) 0x20000) [0..<5] @ map ((+) 0x30000) [0..<3] @
     map ((+) 0x40000) [0..<4] @ map ((+) 0x50000) [0..<6] @ map ((+) 0x60000) [0..<4] @
     map ((+) 0x70000) [0..<4]"
    by (simp add: all_codes_def err_code_eval upt_rec)
  hence "distinct (map (unat \<circ> err_code) all_codes)"
    by (simp only:) (auto simp: distinct_map)
  hence "inj_on err_code (set all_codes)"
    by (auto simp: distinct_map intro: inj_on_imageI2)
  thus ?thesis by (rule inj_on_subset) auto
qed

lemma err_code_parts:
  "errcode_family (err_code e) = family_no (err_family e)"
  "err_code e AND NOT family_mask = err_number e"
  by (cases e; simp add: err_code_eval)+

lemma err_code_message:
  "errcode2str (err_code e) \<in> {Inr None, Inr (Some ''unknown error code'')} \<longleftrightarrow>
   e = A_failing_input \<or> err_family e = FTransport"
  by (cases e; simp add: errcode2str_def err_code_eval errcode_libs_eval libs_defs bread_def)

section \<open>Properties\<close>

text \<open>The message found for every 32-bit error code.  For the generic family and for codes
  inside the tables the lookup is right; for a number past the table of any of the six other
  families the bound check (made against the end marker with its family bits) does not reject it
  and the table is read out of bounds; the transport family has no table at all.\<close>
lemma errcode2str_all_codes:
  "errcode2str e =
    (let f = unat (errcode_family e); n = unat (e AND NOT family_mask);
         libs = snd (errcode_libs ! f)
     in if e = 0 then Inr (Some ''no error'')
        else if 7 \<le> f then Inr (Some ''unknown error code'')
        else if n < length libs then Inr (libs ! n)
        else if f = 0 then Inr (Some ''unknown error code'')
        else Inl Read_oob)"
proof -
  let ?f = "unat (errcode_family e)"
  consider "?f = 0" | "0 < ?f" "?f < 7" | "?f = 7" | "8 \<le> ?f" by linarith
  thus ?thesis
  proof cases
    case 1
    thus ?thesis
      by (auto simp: errcode2str_def Let_def errcode_libs_eval gen_libs_def word_less_nat_alt)
  next
    case 2
    have "?f < length errcode_libs" using 2 by (simp add: errcode_libs_eval)
    thus ?thesis using 2 errcode_bound_vacuous [OF 2, of e]
      by (simp add: errcode2str_def Let_def bread_def)
  qed (simp_all add: errcode2str_def Let_def errcode_libs_eval)
qed

text \<open>The codes of the enumeration are pairwise distinct, carry their family in the high half
  and their number in the low half, and every one of them, the transport codes and
  \<open>failing_input\<close> apart, has a message of its own table.\<close>
lemma err_code_layout:
  "inj err_code \<and> errcode_family (err_code e) = family_no (err_family e) \<and>
   err_code e AND NOT family_mask = err_number e \<and>
   (errcode2str (err_code e) \<in> {Inr None, Inr (Some ''unknown error code'')} \<longleftrightarrow>
      e = A_failing_input \<or> err_family e = FTransport)"
  by (intro conjI inj_err_code err_code_parts err_code_message)

end
