(* ===== verification/LdcList.thy ===== *)
theory LdcList
  imports Prelude
begin

text \<open>
  Model of \<open>sync/ldc-mutex.c\<close>: a doubly linked circular list under a recursive mutex, with a
  counter \<open>no\<close> kept beside it.  The nodes are the elements from \<open>root.next\<close> on.  Every
  operation holds the mutex from its first to its last access, so an operation is one step.  The
  counter is a \<open>size_t\<close> and wraps.

  The chaining primitives \<open>ldcInsert\<close> and \<open>ldcInsertCompar\<close> belong to the external library
  \<open>lstdblcyc\<close>: the insertion is the parameter \<open>ins\<close> of the operations that insert.  What the
  counter needs is that an insertion adds exactly one node (\<open>inserts_one\<close>); what the message queue
  needs is the documented FIFO use of the list (\<open>inserts_last\<close>).
\<close>

section \<open>State\<close>

record 'a ldc =
  l_items :: "'a list"
  l_no :: "64 word"

definition ldc_mutex_initialize :: "'a ldc" where
  "ldc_mutex_initialize = \<lparr> l_items = [], l_no = 0 \<rparr>"

section \<open>The external insertion\<close>

definition inserts_one :: "('a list \<Rightarrow> 'a \<Rightarrow> 'a list) \<Rightarrow> bool" where
  "inserts_one ins \<longleftrightarrow> (\<forall>xs x. \<exists>ys zs. xs = ys @ zs \<and> ins xs x = ys @ x # zs)"

definition inserts_last :: "('a list \<Rightarrow> 'a \<Rightarrow> 'a list) \<Rightarrow> bool" where
  "inserts_last ins \<longleftrightarrow> (\<forall>xs x. ins xs x = xs @ [x])"

section \<open>Operations\<close>

text \<open>\<open>item == NULL\<close> leaves the list alone.\<close>
definition ldc_mutex_insert_cmp ::
  "('a list \<Rightarrow> 'a \<Rightarrow> 'a list) \<Rightarrow> 'a ldc \<Rightarrow> 'a option \<Rightarrow> 'a ldc \<times> 'a option" where
  "ldc_mutex_insert_cmp ins l item =
    (case item of
       None \<Rightarrow> (l, None)
     | Some x \<Rightarrow> (l\<lparr> l_items := ins (l_items l) x, l_no := l_no l + 1 \<rparr>, Some x))"

text \<open>\<open>is_key\<close> stands for \<open>cmp_key(...) == 0\<close>.\<close>
definition ldc_mutex_find :: "'a ldc \<Rightarrow> ('a \<Rightarrow> bool) \<Rightarrow> 'a option" where
  "ldc_mutex_find l is_key = find is_key (l_items l)"

text \<open>Unlinking one node.\<close>
fun ldc_unlink :: "('a \<Rightarrow> bool) \<Rightarrow> 'a list \<Rightarrow> 'a list" where
  "ldc_unlink is_key [] = []"
| "ldc_unlink is_key (x # xs) = (if is_key x then xs else x # ldc_unlink is_key xs)"

text \<open>
  The node found is unlinked before the call back runs.  The call back returns a node and
  whether this node is linked nowhere (\<open>ldcIsEmpty\<close>), in which case it is inserted.
\<close>
definition ldc_mutex_search ::
  "('a list \<Rightarrow> 'a \<Rightarrow> 'a list) \<Rightarrow> 'a ldc \<Rightarrow> ('a \<Rightarrow> bool) \<Rightarrow> ('a option \<Rightarrow> ('a \<times> bool) option) \<Rightarrow>
   'a ldc \<times> 'a option" where
  "ldc_mutex_search ins l is_key update =
    (let item = find is_key (l_items l);
         l1 = (case item of
                 None \<Rightarrow> l
               | Some _ \<Rightarrow> l\<lparr> l_items := ldc_unlink is_key (l_items l), l_no := l_no l - 1 \<rparr>)
     in case update item of
          None \<Rightarrow> (l1, None)
        | Some (x, unlinked) \<Rightarrow>
            (if unlinked then fst (ldc_mutex_insert_cmp ins l1 (Some x)) else l1, Some x))"

definition ldc_mutex_extract :: "'a ldc \<Rightarrow> 'a ldc \<times> 'a option" where
  "ldc_mutex_extract l =
    (case l_items l of
       [] \<Rightarrow> (l, None)
     | x # xs \<Rightarrow> (l\<lparr> l_items := xs, l_no := l_no l - 1 \<rparr>, Some x))"

text \<open>The node is unlinked and the counter is left as it is.\<close>
definition ldc_mutex_extract_by_key :: "'a ldc \<Rightarrow> ('a \<Rightarrow> bool) \<Rightarrow> 'a ldc \<times> 'a option" where
  "ldc_mutex_extract_by_key l is_key =
    (case ldc_mutex_find l is_key of
       None \<Rightarrow> (l, None)
     | Some x \<Rightarrow> (l\<lparr> l_items := ldc_unlink is_key (l_items l) \<rparr>, Some x))"

text \<open>The call back is run on every node, from the first to the last.\<close>
definition ldc_mutex_flush ::
  "'a ldc \<Rightarrow> ('s \<Rightarrow> 'a \<Rightarrow> 's) \<Rightarrow> 's \<Rightarrow> 'a ldc \<times> 's \<times> 64 word" where
  "ldc_mutex_flush l cb s = (l\<lparr> l_items := [], l_no := 0 \<rparr>, foldl cb s (l_items l), l_no l)"

text \<open>The call backs \<open>ldc_mutex_free\<close> runs before the list disappears.\<close>
definition ldc_mutex_free :: "'a ldc \<Rightarrow> ('s \<Rightarrow> 'a \<Rightarrow> 's) \<Rightarrow> 's \<Rightarrow> 's" where
  "ldc_mutex_free l cb s = foldl cb s (l_items l)"

text \<open>The loop stops after the first call back that returns 0, which is not counted.\<close>
fun ldc_foreach_loop :: "('s \<Rightarrow> 'a \<Rightarrow> 's \<times> bool) \<Rightarrow> 's \<Rightarrow> 'a list \<Rightarrow> 's \<times> nat" where
  "ldc_foreach_loop cb s [] = (s, 0)"
| "ldc_foreach_loop cb s (x # xs) =
    (let (s1, go) = cb s x
     in if \<not> go then (s1, 0)
        else let (s2, n) = ldc_foreach_loop cb s1 xs in (s2, n + 1))"

definition ldc_mutex_foreach :: "'a ldc \<Rightarrow> ('s \<Rightarrow> 'a \<Rightarrow> 's \<times> bool) \<Rightarrow> 's \<Rightarrow> 's \<times> nat" where
  "ldc_mutex_foreach l cb s = ldc_foreach_loop cb s (l_items l)"

definition ldc_mutex_no :: "'a ldc \<Rightarrow> 64 word" where
  "ldc_mutex_no l = l_no l"

definition ldc_mutex_suppress :: "'a ldc \<Rightarrow> 'a \<Rightarrow> 'a ldc" where
  "ldc_mutex_suppress l item = l\<lparr> l_items := remove1 item (l_items l), l_no := l_no l - 1 \<rparr>"

definition ldc_mutex_is_in :: "'a ldc \<Rightarrow> 'a \<Rightarrow> bool" where
  "ldc_mutex_is_in l item \<longleftrightarrow> list_ex (\<lambda>n. n = item) (l_items l)"

section \<open>The counter\<close>

text \<open>The counter is the number of nodes.\<close>
definition ldc_ok :: "'a ldc \<Rightarrow> bool" where
  "ldc_ok l \<longleftrightarrow> l_no l = word_of_nat (length (l_items l))"

section \<open>Lemmas\<close>

lemma inserts_last_one: "inserts_last ins \<Longrightarrow> inserts_one ins"
  unfolding inserts_last_def inserts_one_def by (metis append_Nil2)

lemma inserts_one_length [simp]: "inserts_one ins \<Longrightarrow> length (ins xs x) = Suc (length xs)"
proof -
  assume "inserts_one ins"
  then obtain ys zs where "xs = ys @ zs" "ins xs x = ys @ x # zs"
    unfolding inserts_one_def by blast
  thus ?thesis by simp
qed

lemma inserts_one_set: "inserts_one ins \<Longrightarrow> set (ins xs x) = insert x (set xs)"
proof -
  assume "inserts_one ins"
  then obtain ys zs where "xs = ys @ zs" "ins xs x = ys @ x # zs"
    unfolding inserts_one_def by blast
  thus ?thesis by simp
qed

lemma length_unlink:
  "find is_key xs = Some x \<Longrightarrow> length xs = Suc (length (ldc_unlink is_key xs))"
  by (induction xs) (auto split: if_splits)

lemma set_unlink: "set (ldc_unlink is_key xs) \<subseteq> set xs"
  by (induction xs) auto

lemma unlink_append:
  "find is_key xs = Some x \<Longrightarrow>
   \<exists>ys zs. xs = ys @ x # zs \<and> ldc_unlink is_key xs = ys @ zs \<and> is_key x \<and> list_all (\<lambda>y. \<not> is_key y) ys"
proof (induction xs)
  case (Cons a xs)
  show ?case
  proof (cases "is_key a")
    case True
    thus ?thesis using Cons.prems by (intro exI [of _ "[]"] exI [of _ xs]) auto
  next
    case False
    then obtain ys zs where "xs = ys @ x # zs \<and> ldc_unlink is_key xs = ys @ zs \<and> is_key x \<and>
        list_all (\<lambda>y. \<not> is_key y) ys"
      using Cons by auto
    thus ?thesis using False by (intro exI [of _ "a # ys"] exI [of _ zs]) auto
  qed
qed simp

lemma ldc_ok_initialize [simp]: "ldc_ok ldc_mutex_initialize"
  by (simp add: ldc_ok_def ldc_mutex_initialize_def)

lemma ldc_ok_insert [simp]:
  "inserts_one ins \<Longrightarrow> ldc_ok l \<Longrightarrow> ldc_ok (fst (ldc_mutex_insert_cmp ins l item))"
  by (auto simp: ldc_ok_def ldc_mutex_insert_cmp_def split: option.split)

lemma ldc_ok_extract [simp]: "ldc_ok l \<Longrightarrow> ldc_ok (fst (ldc_mutex_extract l))"
  by (auto simp: ldc_ok_def ldc_mutex_extract_def split: list.split)

lemma ldc_ok_search:
  assumes "inserts_one ins" "ldc_ok l"
  shows "ldc_ok (fst (ldc_mutex_search ins l is_key update))"
proof -
  let ?item = "find is_key (l_items l)"
  let ?l1 = "case ?item of None \<Rightarrow> l
    | Some _ \<Rightarrow> l\<lparr> l_items := ldc_unlink is_key (l_items l), l_no := l_no l - 1 \<rparr>"
  have "ldc_ok ?l1"
    using assms(2) length_unlink [of is_key "l_items l"]
    by (auto simp: ldc_ok_def split: option.split)
  thus ?thesis
    using assms(1) by (auto simp: ldc_mutex_search_def Let_def split: option.split)
qed

lemma ldc_ok_flush [simp]: "ldc_ok (fst (ldc_mutex_flush l cb s))"
  by (simp add: ldc_ok_def ldc_mutex_flush_def)

lemma ldc_ok_suppress: "ldc_ok l \<Longrightarrow> item \<in> set (l_items l) \<Longrightarrow> ldc_ok (ldc_mutex_suppress l item)"
proof -
  assume "ldc_ok l" "item \<in> set (l_items l)"
  moreover from this obtain n where "length (l_items l) = Suc n" by (cases "l_items l") auto
  ultimately show ?thesis by (simp add: ldc_ok_def ldc_mutex_suppress_def length_remove1)
qed

lemma ldc_foreach_takeWhile:
  "snd (ldc_foreach_loop (\<lambda>s x. (f s x, p x)) s xs) = length (takeWhile p xs)"
  by (induction xs arbitrary: s) (auto simp: case_prod_unfold Let_def)

section \<open>Properties\<close>

text \<open>The counter of a list stays equal to the number of its nodes through insertion,
  search with update, head extraction and flush, whatever the order the external library inserts
  in; suppression keeps it exactly for a node of the list.\<close>
lemma ldc_count_invariant:
  assumes "inserts_one ins" and "ldc_ok l"
  shows "ldc_ok (fst (ldc_mutex_insert_cmp ins l item)) \<and>
    ldc_ok (fst (ldc_mutex_search ins l is_key update)) \<and>
    ldc_ok (fst (ldc_mutex_extract l)) \<and>
    ldc_ok (fst (ldc_mutex_flush l cb s)) \<and>
    snd (snd (ldc_mutex_flush l cb s)) = word_of_nat (length (l_items l)) \<and>
    (ldc_ok (ldc_mutex_suppress l x) \<longleftrightarrow> x \<in> set (l_items l))"
proof -
  have "x \<in> set (l_items l)" if "ldc_ok (ldc_mutex_suppress l x)"
  proof (rule ccontr)
    assume "x \<notin> set (l_items l)"
    with that assms(2) have "l_no l - 1 = l_no l"
      by (simp add: ldc_ok_def ldc_mutex_suppress_def remove1_idem)
    thus False by simp
  qed
  moreover have "snd (snd (ldc_mutex_flush l cb s)) = word_of_nat (length (l_items l))"
    using assms(2) by (simp add: ldc_mutex_flush_def ldc_ok_def)
  ultimately show ?thesis using assms ldc_ok_search ldc_ok_suppress by auto
qed

lemma ldc_count_invariant_witness:
  "ldc_ok (fst (ldc_mutex_search (\<lambda>xs x. xs @ [x]) \<lparr> l_items = [3, 5, 8 :: nat], l_no = 3 \<rparr> (\<lambda>n. n = 5)
     (\<lambda>_. Some (9, True))))"
proof -
  have "inserts_one (\<lambda>xs x. xs @ [x :: nat])"
    by (rule inserts_last_one) (simp add: inserts_last_def)
  moreover have "ldc_ok \<lparr> l_items = [3, 5, 8 :: nat], l_no = 3 \<rparr>" by (simp add: ldc_ok_def)
  ultimately show ?thesis by (rule ldc_count_invariant [THEN conjunct2, THEN conjunct1])
qed

text \<open>Extraction by key returns the first node that matches and unlinks this node alone, but
  the counter is left as it was: the list it leaves is consistent only when no node was found.\<close>
lemma ldc_extract_by_key_drift:
  assumes "ldc_ok l"
  shows "(ldc_ok (fst (ldc_mutex_extract_by_key l is_key)) \<longleftrightarrow> find is_key (l_items l) = None) \<and>
    l_no (fst (ldc_mutex_extract_by_key l is_key)) = l_no l \<and>
    (case find is_key (l_items l) of
       None \<Rightarrow> ldc_mutex_extract_by_key l is_key = (l, None)
     | Some x \<Rightarrow> snd (ldc_mutex_extract_by_key l is_key) = Some x \<and>
         (\<exists>ys zs. l_items l = ys @ x # zs \<and> list_all (\<lambda>y. \<not> is_key y) ys \<and>
            l_items (fst (ldc_mutex_extract_by_key l is_key)) = ys @ zs))"
proof (cases "find is_key (l_items l)")
  case None
  thus ?thesis using assms by (simp add: ldc_mutex_extract_by_key_def ldc_mutex_find_def)
next
  case (Some x)
  obtain ys zs where yz: "l_items l = ys @ x # zs" "ldc_unlink is_key (l_items l) = ys @ zs"
      "list_all (\<lambda>y. \<not> is_key y) ys"
    using unlink_append [OF Some] by blast
  have "l_no l = word_of_nat (length (ys @ zs)) + 1" using assms yz(1) by (simp add: ldc_ok_def)
  hence "l_no l \<noteq> word_of_nat (length (ys @ zs))" by simp
  thus ?thesis using Some yz
    by (auto simp: ldc_mutex_extract_by_key_def ldc_mutex_find_def ldc_ok_def)
qed

lemma ldc_extract_by_key_drift_witness:
  "\<not> ldc_ok (fst (ldc_mutex_extract_by_key \<lparr> l_items = [3, 5, 8 :: nat], l_no = 3 \<rparr> (\<lambda>n. n = 5)))"
proof -
  have "ldc_ok \<lparr> l_items = [3, 5, 8 :: nat], l_no = 3 \<rparr>" by (simp add: ldc_ok_def)
  from ldc_extract_by_key_drift [OF this, of "\<lambda>n. n = 5"] show ?thesis by simp
qed

end
