(* ===== verification/MsgQueue.thy ===== *)
theory MsgQueue
  imports LdcList "HOL-Library.Multiset"
begin

text \<open>
  Model of \<open>sync/queue.c\<close>: message queues made of a list, a counting semaphore and a pool of
  recycled entries (\<open>_unused_msg\<close>) shared by all the queues of the process.  A queue operation
  takes the pool and the queue and returns both.  Payloads are allocations: a message carries its
  payload or \<open>None\<close> for \<open>NULL\<close>.  The outcome of \<open>calloc\<close> is an argument of the operations that
  allocate.  A pull that would block is the result \<open>None\<close>: with a zero semaphore
  \<open>semaphore_wait\<close> does not return 0 within its timeout.
\<close>

section \<open>Messages and queues\<close>

record msg =
  m_buf :: "byte list option"
  m_length :: nat
  m_prio :: u32
  m_encrypt :: bool
  m_mark :: "nat option"
  m_attrib :: "nat option"

record queue =
  qlist :: "msg ldc"
  qsem :: nat

type_synonym pool = "msg ldc"

definition queue_priv_new :: queue where
  "queue_priv_new = \<lparr> qlist = ldc_mutex_initialize, qsem = 0 \<rparr>"

section \<open>Entries\<close>

text \<open>The payload an entry gets: dropped when the length is 0, shared or copied otherwise.\<close>
definition msg_payload :: "msg \<Rightarrow> byte list option" where
  "msg_payload m = (if m_length m = 0 then None else m_buf m)"

text \<open>
  An entry comes from the pool when there is one there, from \<open>calloc\<close> otherwise; when the copy of
  the payload cannot be allocated the entry is freed.
\<close>
definition queue_msg_new :: "pool \<Rightarrow> bool \<Rightarrow> bool \<Rightarrow> msg \<Rightarrow> bool \<Rightarrow> pool \<times> msg option" where
  "queue_msg_new pool entry_ok copy_ok m clone =
    (let (pool1, item) = ldc_mutex_extract pool
     in if item = None \<and> \<not> entry_ok then (pool1, None)
        else if m_length m = 0 \<or> m_buf m = None then (pool1, Some (m\<lparr> m_buf := None \<rparr>))
        else if \<not> clone then (pool1, Some m)
        else if copy_ok then (pool1, Some (m\<lparr> m_buf := map_option (take (m_length m)) (m_buf m) \<rparr>))
        else (pool1, None))"

definition queue_msg_recycle ::
  "(msg list \<Rightarrow> msg \<Rightarrow> msg list) \<Rightarrow> pool \<Rightarrow> msg \<Rightarrow> pool" where
  "queue_msg_recycle ins pool m =
    fst (ldc_mutex_insert_cmp ins pool (Some
      (m\<lparr> m_buf := None, m_length := 0, m_encrypt := True, m_prio := 0, m_mark := None \<rparr>)))"

section \<open>Queue operations\<close>

definition queue_push ::
  "(msg list \<Rightarrow> msg \<Rightarrow> msg list) \<Rightarrow> pool \<Rightarrow> queue \<Rightarrow> bool \<Rightarrow> bool \<Rightarrow> msg \<Rightarrow> bool \<Rightarrow>
   pool \<times> queue \<times> int" where
  "queue_push ins pool q entry_ok copy_ok m clone =
    (let (pool1, item) = queue_msg_new pool entry_ok copy_ok m clone
     in case item of
          None \<Rightarrow> (pool1, q, -1)
        | Some x \<Rightarrow>
            (pool1, q\<lparr> qlist := fst (ldc_mutex_insert_cmp ins (qlist q) (Some x)),
                      qsem := qsem q + 1 \<rparr>, 0))"

text \<open>\<open>None\<close> as message is the return value -1; the boolean is false when the wait failed.\<close>
definition queue_pull ::
  "(msg list \<Rightarrow> msg \<Rightarrow> msg list) \<Rightarrow> pool \<Rightarrow> queue \<Rightarrow> pool \<times> queue \<times> msg option" where
  "queue_pull ins pool q =
    (if qsem q = 0 then (pool, q, None)
     else let q1 = q\<lparr> qsem := qsem q - 1 \<rparr>; (l, item) = ldc_mutex_extract (qlist q1)
          in case item of
               None \<Rightarrow> (pool, q1\<lparr> qlist := l \<rparr>, None)
             | Some x \<Rightarrow> (queue_msg_recycle ins pool x, q1\<lparr> qlist := l \<rparr>, Some x))"

text \<open>The entries of a queue go to the pool, those of the pool itself are freed.\<close>
definition queue_msg_list_flush ::
  "(msg list \<Rightarrow> msg \<Rightarrow> msg list) \<Rightarrow> pool \<Rightarrow> msg ldc \<Rightarrow> pool \<times> msg ldc \<times> 64 word" where
  "queue_msg_list_flush ins pool l =
    (let (l1, pool1, n) = ldc_mutex_flush l (queue_msg_recycle ins) pool in (pool1, l1, n))"

definition queue_flush ::
  "(msg list \<Rightarrow> msg \<Rightarrow> msg list) \<Rightarrow> pool \<Rightarrow> queue \<Rightarrow> pool \<times> queue \<times> 64 word" where
  "queue_flush ins pool q =
    (let (pool1, l, n) = queue_msg_list_flush ins pool (qlist q)
     in (pool1, q\<lparr> qlist := l, qsem := 0 \<rparr>, n))"

definition queue_no :: "queue \<Rightarrow> 64 word" where
  "queue_no q = ldc_mutex_no (qlist q)"

text \<open>\<open>__free\<close> flushes, then \<open>queue_priv_free\<close> flushes again; the queue is gone, the pool
  remains.\<close>
definition queue_free :: "(msg list \<Rightarrow> msg \<Rightarrow> msg list) \<Rightarrow> pool \<Rightarrow> queue \<Rightarrow> pool" where
  "queue_free ins pool q =
    (let (pool1, q1, _) = queue_flush ins pool q
     in fst (queue_msg_list_flush ins pool1 (qlist q1)))"

definition queue_destroy :: "pool \<Rightarrow> pool" where
  "queue_destroy pool = fst (ldc_mutex_flush pool (\<lambda>u _. u) ())"

section \<open>Pairs of queues\<close>

text \<open>
  A pair holds two queue pointers, each with a flag telling that the pair allocated the queue.
  The queues live in a store indexed by their address; \<open>fresh\<close> is the address \<open>calloc\<close> returns
  next, or \<open>None\<close> when it fails.
\<close>
record world =
  wpool :: pool
  wstore :: "nat \<Rightarrow> queue option"

type_synonym inout = "(nat option \<times> bool) \<times> (nat option \<times> bool)"

definition inout_slot :: "world \<Rightarrow> nat option \<Rightarrow> nat option \<Rightarrow> world \<times> (nat option \<times> bool)" where
  "inout_slot w q fresh =
    (case q of
       Some a \<Rightarrow> (w, (Some a, False))
     | None \<Rightarrow>
         (case fresh of
            None \<Rightarrow> (w, (None, True))
          | Some a \<Rightarrow> (w\<lparr> wstore := (wstore w)(a \<mapsto> queue_priv_new) \<rparr>, (Some a, True))))"

definition free_slot :: "(msg list \<Rightarrow> msg \<Rightarrow> msg list) \<Rightarrow> world \<Rightarrow> nat option \<times> bool \<Rightarrow> world" where
  "free_slot ins w slot =
    (case slot of
       (Some a, True) \<Rightarrow>
         (case wstore w a of
            Some q \<Rightarrow> w\<lparr> wpool := queue_free ins (wpool w) q, wstore := (wstore w)(a := None) \<rparr>
          | None \<Rightarrow> w)
     | _ \<Rightarrow> w)"

definition flush_slot :: "(msg list \<Rightarrow> msg \<Rightarrow> msg list) \<Rightarrow> world \<Rightarrow> nat option \<times> bool \<Rightarrow> world" where
  "flush_slot ins w slot =
    (case fst slot of
       None \<Rightarrow> w
     | Some a \<Rightarrow>
         (case wstore w a of
            Some q \<Rightarrow> (let (p, q1, _) = queue_flush ins (wpool w) q
                       in w\<lparr> wpool := p, wstore := (wstore w)(a \<mapsto> q1) \<rparr>)
          | None \<Rightarrow> w))"

text \<open>On an allocation failure the queues the pair allocated are freed again.\<close>
definition queue_inout_init ::
  "(msg list \<Rightarrow> msg \<Rightarrow> msg list) \<Rightarrow> world \<Rightarrow> nat option \<Rightarrow> nat option \<Rightarrow> nat option \<Rightarrow> nat option \<Rightarrow>
   world \<times> inout \<times> int" where
  "queue_inout_init ins w q0 q1 fresh0 fresh1 =
    (let (w0, s0) = inout_slot w q0 fresh0;
         (w1, s1) = inout_slot w0 q1 fresh1;
         ret = (if fst s0 = None \<or> fst s1 = None then -1 else 0)
     in if ret \<noteq> 0 then (free_slot ins (free_slot ins w1 s0) s1, (s0, s1), ret)
        else (w1, (s0, s1), 0))"

definition queue_inout_flush :: "(msg list \<Rightarrow> msg \<Rightarrow> msg list) \<Rightarrow> world \<Rightarrow> inout \<Rightarrow> world" where
  "queue_inout_flush ins w qs = flush_slot ins (flush_slot ins w (fst qs)) (snd qs)"

definition queue_inout_free_queue :: "(msg list \<Rightarrow> msg \<Rightarrow> msg list) \<Rightarrow> world \<Rightarrow> inout \<Rightarrow> world" where
  "queue_inout_free_queue ins w qs =
    free_slot ins (free_slot ins (queue_inout_flush ins w qs) (fst qs)) (snd qs)"

text \<open>The queues are flushed; the structure is freed, the queues are not.\<close>
definition queue_inout_free :: "(msg list \<Rightarrow> msg \<Rightarrow> msg list) \<Rightarrow> world \<Rightarrow> inout \<Rightarrow> world" where
  "queue_inout_free ins w qs = queue_inout_flush ins w qs"

definition queue_inout_clone ::
  "(msg list \<Rightarrow> msg \<Rightarrow> msg list) \<Rightarrow> world \<Rightarrow> inout \<Rightarrow> nat option \<Rightarrow> nat option \<Rightarrow> world \<times> inout \<times> int" where
  "queue_inout_clone ins w src fresh0 fresh1 =
    queue_inout_init ins w (fst (fst src)) (fst (snd src)) fresh0 fresh1"

section \<open>Invariant\<close>

text \<open>The semaphore counts the messages waiting, and so does the counter of the list.\<close>
definition queue_ok :: "queue \<Rightarrow> bool" where
  "queue_ok q \<longleftrightarrow> ldc_ok (qlist q) \<and> qsem q = length (l_items (qlist q))"

text \<open>The messages waiting, in the order they will be pulled.\<close>
definition queue_abs :: "queue \<Rightarrow> msg list" where
  "queue_abs q = l_items (qlist q)"

text \<open>What a consumer gets for a message pushed.\<close>
definition msg_delivered :: "bool \<Rightarrow> msg \<Rightarrow> msg" where
  "msg_delivered clone m =
    (if m_length m = 0 \<or> m_buf m = None then m\<lparr> m_buf := None \<rparr>
     else if clone then m\<lparr> m_buf := map_option (take (m_length m)) (m_buf m) \<rparr> else m)"

section \<open>The queue interface\<close>

text \<open>
  The contract of a queue as the tasks of the gateway use it: a push adds one message, a pull takes the one
  at the head, and says when there is none.
\<close>
locale message_store =
  fixes contents :: "'q \<Rightarrow> 'm list"
    and good :: "'q \<Rightarrow> bool"
    and put :: "'m \<Rightarrow> 'q \<Rightarrow> 'q"
    and take_one :: "'q \<Rightarrow> 'q \<times> 'm option"
    and seen :: "'m \<Rightarrow> 'm"
  assumes put_good: "good q \<Longrightarrow> good (put m q)"
    and put_mset: "good q \<Longrightarrow> mset (contents (put m q)) = add_mset (seen m) (mset (contents q))"
    and take_good: "good q \<Longrightarrow> good (fst (take_one q))"
    and take_contents: "good q \<Longrightarrow> contents (fst (take_one q)) = tl (contents q)"
    and take_result: "good q \<Longrightarrow>
      snd (take_one q) = (if contents q = [] then None else Some (hd (contents q)))"
begin

lemma puts_good: "good q \<Longrightarrow> good (fold put ms q)"
  by (induction ms arbitrary: q) (auto simp: put_good)

lemma puts_mset: "good q \<Longrightarrow> mset (contents (fold put ms q)) = mset (map seen ms) + mset (contents q)"
  by (induction ms arbitrary: q) (auto simp: put_good put_mset)

lemma takes_results:
  "good q \<Longrightarrow> n \<le> length (contents q) \<Longrightarrow>
   map (\<lambda>k. snd (take_one (((\<lambda>q. fst (take_one q)) ^^ k) q))) [0..<n] =
   map Some (take n (contents q))"
proof (induction n arbitrary: q)
  case (Suc n)
  let ?f = "\<lambda>q. fst (take_one q)"
  obtain m ms where c: "contents q = m # ms" using Suc.prems(2) by (cases "contents q") auto
  have "map (\<lambda>k. snd (take_one ((?f ^^ k) (?f q)))) [0..<n] = map Some (take n (contents (?f q)))"
    using Suc c by (intro Suc.IH) (auto simp: take_good take_contents)
  moreover have "[0..<Suc n] = 0 # map Suc [0..<n]" by (simp add: map_Suc_upt upt_conv_Cons)
  ultimately show ?case
    using Suc.prems(1) c by (simp add: take_contents take_result funpow_Suc_right comp_def del: upt_Suc funpow.simps)
qed simp

lemma takes_good: "good q \<Longrightarrow> good (((\<lambda>q. fst (take_one q)) ^^ n) q)"
  by (induction n) (auto simp: take_good)

lemma takes_contents: "good q \<Longrightarrow> contents (((\<lambda>q. fst (take_one q)) ^^ n) q) = drop n (contents q)"
  by (induction n) (auto simp: takes_good take_contents tl_drop drop_Suc)

text \<open>Everything pushed on an empty queue comes out once, and then there is nothing more.\<close>
lemma puts_then_takes:
  assumes "good q" "contents q = []"
  shows "map (\<lambda>k. snd (take_one (((\<lambda>q. fst (take_one q)) ^^ k) (fold put ms q)))) [0..<length ms] =
      map Some (contents (fold put ms q))"
    and "mset (contents (fold put ms q)) = mset (map seen ms)"
    and "snd (take_one (((\<lambda>q. fst (take_one q)) ^^ length ms) (fold put ms q))) = None"
proof -
  let ?q = "fold put ms q"
  show m: "mset (contents ?q) = mset (map seen ms)" using puts_mset [OF assms(1), of ms] assms(2) by simp
  have l: "length (contents ?q) = length ms" using arg_cong [OF m, of size] by simp
  show "map (\<lambda>k. snd (take_one (((\<lambda>q. fst (take_one q)) ^^ k) ?q))) [0..<length ms] = map Some (contents ?q)"
    using takes_results [OF puts_good [OF assms(1)], of "length ms" ms] l by simp
  show "snd (take_one (((\<lambda>q. fst (take_one q)) ^^ length ms) ?q)) = None"
    using l by (simp add: take_result takes_good puts_good assms(1) takes_contents)
qed

end

text \<open>A queue whose pushes append: what was pushed first comes out first.\<close>
locale fifo = message_store +
  assumes put_contents: "good q \<Longrightarrow> contents (put m q) = contents q @ [seen m]"
begin

lemma puts_contents: "good q \<Longrightarrow> contents (fold put ms q) = contents q @ map seen ms"
  by (induction ms arbitrary: q) (auto simp: put_good put_contents)

end

section \<open>Lemmas\<close>

lemma queue_ok_new [simp]: "queue_ok queue_priv_new"
  by (simp add: queue_ok_def queue_priv_new_def) (simp add: ldc_mutex_initialize_def)

lemma queue_push_ok:
  "inserts_one ins \<Longrightarrow> queue_ok q \<Longrightarrow> queue_ok (fst (snd (queue_push ins pool q e c m clone)))"
  by (auto simp: queue_push_def queue_ok_def case_prod_unfold Let_def ldc_mutex_insert_cmp_def
      ldc_ok_def split: option.split)

lemma queue_pull_ok:
  "queue_ok q \<Longrightarrow> queue_ok (fst (snd (queue_pull ins pool q)))"
  by (auto simp: queue_pull_def queue_ok_def case_prod_unfold Let_def ldc_mutex_extract_def
      ldc_ok_def split: option.split list.split)

lemma queue_flush_ok: "queue_ok (fst (snd (queue_flush ins pool q)))"
  by (simp add: queue_flush_def queue_msg_list_flush_def queue_ok_def case_prod_unfold Let_def
      ldc_mutex_flush_def ldc_ok_def)

lemma queue_push_abs:
  "inserts_last ins \<Longrightarrow>
   queue_abs (fst (snd (queue_push ins pool q True True m clone))) = queue_abs q @ [msg_delivered clone m]"
  by (auto simp: queue_push_def queue_msg_new_def queue_abs_def case_prod_unfold Let_def
      ldc_mutex_insert_cmp_def inserts_last_def msg_delivered_def)

lemma queue_pull_result:
  "queue_ok q \<Longrightarrow> snd (snd (queue_pull ins pool q)) =
     (if queue_abs q = [] then None else Some (hd (queue_abs q)))"
  by (auto simp: queue_pull_def queue_ok_def queue_abs_def case_prod_unfold Let_def
      ldc_mutex_extract_def split: list.split)

lemma queue_pull_abs:
  "queue_ok q \<Longrightarrow> queue_abs (fst (snd (queue_pull ins pool q))) = tl (queue_abs q)"
  by (auto simp: queue_pull_def queue_ok_def queue_abs_def case_prod_unfold Let_def
      ldc_mutex_extract_def split: list.split)


section \<open>The queue and its contracts\<close>

text \<open>Push and pull on the pair of the pool and the queue, with allocations that succeed.  The insertion is that
  of the list library, called without a comparison.\<close>
definition q_put ::
  "(msg list \<Rightarrow> msg \<Rightarrow> msg list) \<Rightarrow> bool \<Rightarrow> msg \<Rightarrow> pool \<times> queue \<Rightarrow> pool \<times> queue" where
  "q_put ins clone m = (\<lambda>(pool, q). let (pool1, q1, _) = queue_push ins pool q True True m clone in (pool1, q1))"

definition q_take :: "(msg list \<Rightarrow> msg \<Rightarrow> msg list) \<Rightarrow> pool \<times> queue \<Rightarrow> (pool \<times> queue) \<times> msg option" where
  "q_take ins = (\<lambda>(pool, q). let (pool1, q1, m) = queue_pull ins pool q in ((pool1, q1), m))"

lemma inserts_one_mset: "inserts_one ins \<Longrightarrow> mset (ins xs x) = add_mset x (mset xs)"
proof -
  assume "inserts_one ins"
  then obtain ys zs where "xs = ys @ zs" "ins xs x = ys @ x # zs" unfolding inserts_one_def by blast
  thus ?thesis by simp
qed

lemma queue_push_mset:
  "inserts_one ins \<Longrightarrow> mset (queue_abs (fst (snd (queue_push ins pool q True True m clone)))) =
    add_mset (msg_delivered clone m) (mset (queue_abs q))"
  by (auto simp: queue_push_def queue_msg_new_def queue_abs_def case_prod_unfold Let_def
      ldc_mutex_insert_cmp_def inserts_one_mset msg_delivered_def)

lemma append_inserts_last [simp]: "inserts_last (\<lambda>xs x. xs @ [x])"
  by (simp add: inserts_last_def)

text \<open>With any insertion of one node the queue keeps every message; with the documented insertion at the end
  it is first in, first out.\<close>
interpretation mq: message_store "\<lambda>pq. queue_abs (snd pq)" "\<lambda>pq. inserts_one ins \<and> queue_ok (snd pq)"
  "q_put ins clone" "q_take ins" "msg_delivered clone" for ins clone
  by unfold_locales (simp_all add: q_put_def q_take_def case_prod_unfold Let_def queue_push_ok queue_push_mset
      queue_pull_ok queue_pull_abs queue_pull_result)

interpretation mq_fifo: fifo "\<lambda>pq. queue_abs (snd pq)" "\<lambda>pq. inserts_last ins \<and> queue_ok (snd pq)"
  "q_put ins clone" "q_take ins" "msg_delivered clone" for ins clone
proof (unfold_locales, goal_cases)
  case (6 q m)
  thus ?case by (simp add: q_put_def case_prod_unfold Let_def queue_push_abs)
qed (simp_all add: inserts_last_one mq.put_good [of ins] mq.put_mset [of ins] mq.take_good [of ins]
    mq.take_contents [of ins] mq.take_result [of ins] inserts_last_def)

section \<open>Properties\<close>

text \<open>Whatever the order of insertion of the list library and the outcome of the allocations,
  push, pull and flush keep the semaphore, the counter and the number of waiting messages equal;
  a push either queues one message and returns 0 or leaves the queue alone and returns -1, and a
  pull on a non-empty queue always yields a message.\<close>
lemma queue_semaphore_invariant:
  assumes "inserts_one ins" and "queue_ok q"
  shows "queue_ok (fst (snd (queue_push ins pool q e c m clone))) \<and>
    queue_ok (fst (snd (queue_pull ins pool q))) \<and>
    queue_ok (fst (snd (queue_flush ins pool q))) \<and>
    queue_no q = word_of_nat (qsem q) \<and>
    (let (_, q1, r) = queue_push ins pool q e c m clone
     in r = 0 \<and> qsem q1 = qsem q + 1 \<or> r = -1 \<and> q1 = q) \<and>
    (snd (snd (queue_pull ins pool q)) = None \<longleftrightarrow> queue_abs q = [])"
proof -
  have "queue_no q = word_of_nat (qsem q)"
    using assms(2) by (simp add: queue_no_def ldc_mutex_no_def queue_ok_def ldc_ok_def)
  moreover have "let (_, q1, r) = queue_push ins pool q e c m clone
     in r = 0 \<and> qsem q1 = qsem q + 1 \<or> r = -1 \<and> q1 = q"
    by (auto simp: queue_push_def case_prod_unfold Let_def split: option.split)
  ultimately show ?thesis
    using assms by (simp add: queue_push_ok queue_pull_ok queue_flush_ok queue_pull_result)
qed

lemma queue_semaphore_invariant_witness:
  "queue_ok (fst (snd (queue_push (\<lambda>xs x. x # xs) ldc_mutex_initialize queue_priv_new True True
     \<lparr> m_buf = Some [1], m_length = 1, m_prio = 0, m_encrypt = True, m_mark = None, m_attrib = None \<rparr> False)))"
proof -
  have "inserts_one (\<lambda>xs (x::msg). x # xs)"
    unfolding inserts_one_def by (metis append_Nil)
  from queue_semaphore_invariant [OF this queue_ok_new] show ?thesis by blast
qed

text \<open>C20. The messages pushed on a new queue are pulled once each, with the payload that was given, and then
  none is left, whatever the pool of recycled entries holds and wherever the list library puts a node.
  With the insertion at the end that \<open>ldc-mutex.h\<close> documents for a call without a comparison, which is the
  only one the queue makes, they come in the order of the pushes, and the priority of a message has no part
  in it.\<close>
theorem queue_fifo:
  assumes "inserts_one ins"
  shows "\<exists>ds. map (\<lambda>k. snd (q_take ins (((\<lambda>s. fst (q_take ins s)) ^^ k)
        (fold (q_put ins clone) ms (pool, queue_priv_new))))) [0..<length ms] = map Some ds \<and>
    snd (q_take ins (((\<lambda>s. fst (q_take ins s)) ^^ length ms) (fold (q_put ins clone) ms (pool, queue_priv_new)))) = None \<and>
    mset ds = mset (map (msg_delivered clone) ms) \<and>
    (inserts_last ins \<longrightarrow> ds = map (msg_delivered clone) ms)"
proof -
  have new: "queue_abs queue_priv_new = []"
    by (simp add: queue_abs_def queue_priv_new_def) (simp add: ldc_mutex_initialize_def)
  have g: "inserts_one ins \<and> queue_ok (snd (pool, queue_priv_new))" using assms by simp
  have e: "queue_abs (snd (pool, queue_priv_new)) = []" using new by simp
  note P = mq.puts_then_takes [where clone = clone and ms = ms, OF g e]
  have "queue_abs (snd (fold (q_put ins clone) ms (pool, queue_priv_new))) = map (msg_delivered clone) ms"
    if "inserts_last ins"
    using mq_fifo.puts_contents [of ins "(pool, queue_priv_new)" clone ms] that new by simp
  thus ?thesis using P by blast
qed

theorem queue_fifo_witness:
  "\<exists>ds. map (\<lambda>k. snd (q_take (\<lambda>xs x. xs @ [x]) (((\<lambda>s. fst (q_take (\<lambda>xs x. xs @ [x]) s)) ^^ k)
      (fold (q_put (\<lambda>xs x. xs @ [x]) True)
        [\<lparr> m_buf = Some [1], m_length = 1, m_prio = 0, m_encrypt = True, m_mark = None, m_attrib = None \<rparr>,
         \<lparr> m_buf = Some [2], m_length = 1, m_prio = 9, m_encrypt = True, m_mark = None, m_attrib = None \<rparr>]
        (ldc_mutex_initialize, queue_priv_new))))) [0..<2] = map Some ds \<and> map m_prio ds = [0, 9]"
proof -
  let ?ms = "[\<lparr> m_buf = Some [1], m_length = 1, m_prio = 0, m_encrypt = True, m_mark = None, m_attrib = None \<rparr>,
         \<lparr> m_buf = Some [2], m_length = 1, m_prio = 9, m_encrypt = True, m_mark = None, m_attrib = None \<rparr>] :: msg list"
  have one: "inserts_one (\<lambda>xs (x :: msg). xs @ [x])" by (rule inserts_last_one) simp
  have last: "inserts_last (\<lambda>xs (x :: msg). xs @ [x])" by simp
  have n: "length ?ms = 2" by simp
  have p: "map m_prio (map (msg_delivered True) ?ms) = [0, 9]" by (simp add: msg_delivered_def)
  from queue_fifo [OF one, of True ?ms ldc_mutex_initialize, unfolded n] last p show ?thesis by metis
qed

text \<open>A pair of queues made of two fresh queues: \<open>queue_inout_free_queue\<close> gives the store of
  queues back as it was, \<open>queue_inout_free\<close> leaves both queues allocated.\<close>
lemma queue_inout_free_leaks:
  assumes "a \<noteq> b" "wstore w a = None" "wstore w b = None"
  shows "(let (w1, qs, r) = queue_inout_init ins w None None (Some a) (Some b)
     in r = 0 \<and> wstore (queue_inout_free_queue ins w1 qs) = wstore w \<and>
        wstore (queue_inout_free ins w1 qs) a \<noteq> None \<and> wstore (queue_inout_free ins w1 qs) b \<noteq> None)"
  using assms
  by (auto simp: queue_inout_init_def queue_inout_free_queue_def queue_inout_free_def Let_def
      queue_inout_flush_def inout_slot_def flush_slot_def free_slot_def case_prod_unfold fun_eq_iff)

lemma queue_inout_free_leaks_witness:
  "let (w1, qs, r) = queue_inout_init (\<lambda>xs x. xs @ [x]) \<lparr> wpool = ldc_mutex_initialize, wstore = (\<lambda>_. None) \<rparr>
       None None (Some 1) (Some 2)
   in r = 0 \<and> wstore (queue_inout_free_queue (\<lambda>xs x. xs @ [x]) w1 qs) = (\<lambda>_. None) \<and>
      wstore (queue_inout_free (\<lambda>xs x. xs @ [x]) w1 qs) 1 \<noteq> None \<and>
      wstore (queue_inout_free (\<lambda>xs x. xs @ [x]) w1 qs) 2 \<noteq> None"
  using queue_inout_free_leaks [of 1 2 "\<lparr> wpool = ldc_mutex_initialize, wstore = (\<lambda>_. None) \<rparr>"] by simp

end
