(* ===== verification/Ciphers.thy ===== *)
theory Ciphers
  imports Base64 Bcd
begin

text \<open>
  Model of \<open>crypt/crypt.c\<close> and \<open>cipher/cipher.c\<close>: the AES frames (initialisation vector, GCM tag,
  ciphertext, the whole in base64), the derivation of keys and the table of the three ciphers
  with their enable flag.  The OpenSSL primitives are the parameter \<open>evp\<close>; what a frame relies on
  is \<open>evp_sound\<close>: decrypting what was encrypted with the same key, vector and tag gives the text
  back.  A failing \<open>malloc\<close> of a normal size is left out.
\<close>

section \<open>The external cryptography\<close>

datatype mode = AES128_CTR | AES256_CTR | AES256_GCM

fun is_gcm :: "mode \<Rightarrow> bool" where
  "is_gcm AES256_GCM = True"
| "is_gcm _ = False"

record evp =
  evp_ctx_new :: bool
  evp_encrypt :: "mode \<Rightarrow> byte list \<Rightarrow> byte list \<Rightarrow> byte list \<Rightarrow> (byte list \<times> byte list) option"
  evp_decrypt :: "mode \<Rightarrow> byte list \<Rightarrow> byte list \<Rightarrow> byte list \<Rightarrow> byte list option \<Rightarrow> byte list option"
  evp_set_tag :: "mode \<Rightarrow> bool"
  evp_pbkdf2 :: "byte list \<Rightarrow> byte list \<Rightarrow> nat \<Rightarrow> nat \<Rightarrow> byte list option"
  evp_random :: "nat \<Rightarrow> byte list"

definition evp_sound :: "evp \<Rightarrow> bool" where
  "evp_sound e \<longleftrightarrow>
    (\<forall>m key iv pt ct tag. evp_encrypt e m key iv pt = Some (ct, tag) \<longrightarrow>
       length tag = 16 \<and> evp_set_tag e m \<and>
       evp_decrypt e m key iv ct (if is_gcm m then Some tag else None) = Some pt) \<and>
    (\<forall>n. length (evp_random e n) = n)"

text \<open>Whether \<open>EVP_CIPHER_CTX_new\<close> gives a context: the result 0 of \<open>context_new\<close>.\<close>
definition cipher_aes_context_new :: "evp \<Rightarrow> bool" where
  "cipher_aes_context_new e = evp_ctx_new e"

section \<open>Frames\<close>

definition TAG_SIZE :: nat where "TAG_SIZE = 16"

definition get_ivi_size :: "mode \<Rightarrow> nat" where
  "get_ivi_size m = (if is_gcm m then 12 else 16)"

text \<open>\<open>Inr None\<close> is a non-zero return; the assertions on the arguments are the first guard.\<close>
definition encrypt_aes :: "evp \<Rightarrow> mode \<Rightarrow> byte list \<Rightarrow> byte list \<Rightarrow> cstr run" where
  "encrypt_aes e m input key =
    (if input = [] then Inl Assert_failed
     else let iv = evp_random e (get_ivi_size m)
          in case evp_encrypt e m key iv input of
               None \<Rightarrow> Inr None
             | Some (ct, tag) \<Rightarrow>
                 Inr (Some (base64_encode (iv @ (if is_gcm m then tag else []) @ ct))))"

text \<open>
  The return value of \<open>base64_decode\<close> is not tested: when it fails, the pointer the function goes
  on with was never written.  \<open>data_len\<close> is a \<open>size_t\<close>: on a GCM frame shorter than vector and
  tag it wraps and the allocation that follows fails.
\<close>
definition decrypt_aes :: "evp \<Rightarrow> mode \<Rightarrow> string \<Rightarrow> byte list \<Rightarrow> byte list option run" where
  "decrypt_aes e m in_b64 key =
    rbind (base64_decode in_b64) (\<lambda>data.
      case data of
        None \<Rightarrow> Inl Uninit_read
      | Some d \<Rightarrow>
          let n = get_ivi_size m; iv = take n d; rest = drop n d
          in if length d < n then Inl Read_oob
             else if is_gcm m
             then if length rest < TAG_SIZE then Inr None
                  else if \<not> evp_set_tag e m then Inr None
                  else Inr (evp_decrypt e m key iv (drop TAG_SIZE rest) (Some (take TAG_SIZE rest)))
             else if \<not> evp_set_tag e m then Inr None
             else Inr (evp_decrypt e m key iv rest None))"

section \<open>Key derivation\<close>

definition key_salt_text :: string where
  "key_salt_text = ''13BAC1F20AF1A5F08F9E962CD632B19B''"

text \<open>The salt is decoded once from its hexadecimal text, and asserted to be there.\<close>
definition cipher_key_gen :: "evp \<Rightarrow> byte list \<Rightarrow> nat \<Rightarrow> nat \<Rightarrow> byte list option run" where
  "cipher_key_gen e input iterations key_len =
    rbind (bcd_decode (Some key_salt_text)) (\<lambda>salt.
      case salt of
        None \<Rightarrow> Inl Assert_failed
      | Some s \<Rightarrow> if s = [] then Inl Assert_failed
                 else Inr (evp_pbkdf2 e input s iterations key_len))"

definition cipher_aes_key_gen :: "evp \<Rightarrow> byte list \<Rightarrow> nat \<Rightarrow> nat \<Rightarrow> byte list option run" where
  "cipher_aes_key_gen e input iterations key_len =
    (if key_len = 16 \<or> key_len = 32 then cipher_key_gen e input iterations key_len
     else Inl Assert_failed)"

section \<open>The table of ciphers\<close>

record cipher =
  c_lib :: string
  c_mode :: mode
  c_key_len :: nat
  c_enabled :: bool

definition cipher_aes128_ctr :: cipher where
  "cipher_aes128_ctr =
    \<lparr> c_lib = ''AES128CTR'', c_mode = AES128_CTR, c_key_len = 16, c_enabled = True \<rparr>"

definition cipher_aes256_ctr :: cipher where
  "cipher_aes256_ctr =
    \<lparr> c_lib = ''AES256CTR'', c_mode = AES256_CTR, c_key_len = 32, c_enabled = True \<rparr>"

definition cipher_aes256_gcm :: cipher where
  "cipher_aes256_gcm =
    \<lparr> c_lib = ''AES256GCM'', c_mode = AES256_GCM, c_key_len = 32, c_enabled = True \<rparr>"

text \<open>The methods of a cipher: each hands its OpenSSL algorithm and key length on.\<close>
definition c_encrypt :: "evp \<Rightarrow> cipher \<Rightarrow> byte list \<Rightarrow> byte list \<Rightarrow> cstr run" where
  "c_encrypt e c input key = encrypt_aes e (c_mode c) input key"

definition c_decrypt :: "evp \<Rightarrow> cipher \<Rightarrow> string \<Rightarrow> byte list \<Rightarrow> byte list option run" where
  "c_decrypt e c in_b64 key = decrypt_aes e (c_mode c) in_b64 key"

definition c_key_gen :: "evp \<Rightarrow> cipher \<Rightarrow> byte list \<Rightarrow> nat \<Rightarrow> byte list option run" where
  "c_key_gen e c input iterations = cipher_aes_key_gen e input iterations (c_key_len c)"

type_synonym cipher_table = "cipher list"

definition cipher_table0 :: cipher_table where
  "cipher_table0 = [cipher_aes128_ctr, cipher_aes256_ctr, cipher_aes256_gcm]"

definition cipher_get :: "cipher_table \<Rightarrow> nat \<Rightarrow> cipher option" where
  "cipher_get tab n = (if n < length tab then Some (tab ! n) else None)"

definition cipher_get_by_str :: "cipher_table \<Rightarrow> cstr \<Rightarrow> cipher option" where
  "cipher_get_by_str tab name =
    (case name of None \<Rightarrow> None | Some s \<Rightarrow> find (\<lambda>c. c_lib c = s) tab)"

fun set_enabled :: "string \<Rightarrow> bool \<Rightarrow> cipher_table \<Rightarrow> cipher_table" where
  "set_enabled s b [] = []"
| "set_enabled s b (c # cs) =
    (if c_lib c = s then c\<lparr> c_enabled := b \<rparr> # cs else c # set_enabled s b cs)"

definition cipher_let_enabled_by_str :: "cipher_table \<Rightarrow> cstr \<Rightarrow> bool \<Rightarrow> cipher_table \<times> bool" where
  "cipher_let_enabled_by_str tab name is_enabled =
    (case cipher_get_by_str tab name of
       None \<Rightarrow> (tab, False)
     | Some c \<Rightarrow> (set_enabled (c_lib c) is_enabled tab, True))"

definition cipher_foreach :: "cipher_table \<Rightarrow> ('s \<Rightarrow> cipher \<Rightarrow> 's) \<Rightarrow> 's \<Rightarrow> 's \<times> nat" where
  "cipher_foreach tab callback s = (foldl callback s tab, length tab)"

definition cipher_list_line :: "cipher \<Rightarrow> string" where
  "cipher_list_line c = CHR 0x09 # c_lib c @ (if c_enabled c then [] else '' --disabled--'') @ [CHR 0x0A]"

definition cipher_list :: "cipher_table \<Rightarrow> string \<times> nat" where
  "cipher_list tab =
    cipher_foreach tab (\<lambda>out c. out @ cipher_list_line c) (''List of ciphers:'' @ [CHR 0x0A])"

text \<open>What stays true of the table: the three ciphers in their order.\<close>
definition cipher_table_ok :: "cipher_table \<Rightarrow> bool" where
  "cipher_table_ok tab \<longleftrightarrow>
    map (\<lambda>c. (c_lib c, c_mode c, c_key_len c)) tab =
    map (\<lambda>c. (c_lib c, c_mode c, c_key_len c)) cipher_table0"

section \<open>Lemmas\<close>

lemma cipher_table_ok0 [simp]: "cipher_table_ok cipher_table0"
  by (simp add: cipher_table_ok_def)

lemma set_enabled_static [simp]:
  "map (\<lambda>c. (c_lib c, c_mode c, c_key_len c)) (set_enabled s b tab) =
   map (\<lambda>c. (c_lib c, c_mode c, c_key_len c)) tab"
  by (induction tab) auto

lemma find_set_enabled:
  "find (\<lambda>c. c_lib c = n) (set_enabled s b tab) =
   map_option (\<lambda>c. if n = s then c\<lparr> c_enabled := b \<rparr> else c) (find (\<lambda>c. c_lib c = n) tab)"
  by (induction tab) (auto simp: option.map_ident)

lemma cipher_get_by_str_lib: "cipher_get_by_str tab name = Some c \<Longrightarrow> name = Some (c_lib c)"
  by (auto simp: cipher_get_by_str_def find_Some_iff split: option.splits)

lemma cipher_let_enabled_ok:
  "cipher_table_ok tab \<Longrightarrow> cipher_table_ok (fst (cipher_let_enabled_by_str tab name b))"
  by (auto simp: cipher_let_enabled_by_str_def cipher_table_ok_def split: option.split)

lemma key_salt_octets:
  "bcd_decode (Some key_salt_text) = Inr (Some
    [0x13, 0xBA, 0xC1, 0xF2, 0x0A, 0xF1, 0xA5, 0xF0, 0x8F, 0x9E, 0x96, 0x2C, 0xD6, 0x32, 0xB1, 0x9B])"
proof -
  let ?t = "[0x13, 0xBA, 0xC1, 0xF2, 0x0A, 0xF1, 0xA5, 0xF0, 0x8F, 0x9E, 0x96, 0x2C, 0xD6, 0x32,
    0xB1, 0x9B] :: byte list"
  have "bcd_encode_sep ?t (CHR 0x00) = Some key_salt_text" by code_simp
  thus ?thesis using bcd_roundtrip_general [of ?t "CHR 0x00"] by simp
qed

lemma base64_decode_encode: "bs \<noteq> [] \<Longrightarrow> base64_decode (base64_encode bs) = Inr (Some bs)"
  using b64.dec_enc [of bs]
  by (auto simp: base64_value_def split: sum.splits)

text \<open>A concrete instance of the external cryptography, which sends the text as it is.\<close>
definition evp_plain :: evp where
  "evp_plain = \<lparr> evp_ctx_new = True, evp_encrypt = (\<lambda>m key iv pt. Some (pt, replicate 16 0)),
    evp_decrypt = (\<lambda>m key iv ct tag. Some ct), evp_set_tag = (\<lambda>m. True),
    evp_pbkdf2 = (\<lambda>input salt it n. Some (take n (input @ replicate n 0))),
    evp_random = (\<lambda>n. replicate n 0) \<rparr>"

lemma evp_sound_plain [simp]: "evp_sound evp_plain"
  by (simp add: evp_sound_def evp_plain_def)

lemma aes_frame_decrypts:
  assumes "evp_sound e" and "encrypt_aes e m input key = Inr (Some b64)"
  shows "decrypt_aes e m b64 key = Inr (Some input)"
proof -
  let ?iv = "evp_random e (get_ivi_size m)"
  obtain ct tag where enc: "evp_encrypt e m key ?iv input = Some (ct, tag)"
    and b64: "b64 = base64_encode (?iv @ (if is_gcm m then tag else []) @ ct)"
    using assms(2) by (auto simp: encrypt_aes_def Let_def split: if_splits option.splits)
  have len: "length ?iv = get_ivi_size m" using assms(1) by (simp add: evp_sound_def)
  have snd: "length tag = 16" "evp_set_tag e m"
      "evp_decrypt e m key ?iv ct (if is_gcm m then Some tag else None) = Some input"
    using assms(1) enc unfolding evp_sound_def by blast+
  have "get_ivi_size m \<noteq> 0" by (simp add: get_ivi_size_def)
  hence ne: "?iv \<noteq> []" using len by (metis list.size(3))
  show ?thesis
    using snd len ne by (cases "is_gcm m")
      (simp_all add: decrypt_aes_def b64 base64_decode_encode Let_def TAG_SIZE_def)
qed

section \<open>Properties\<close>

text \<open>C37. What a cipher of the table encrypts under a key, the same cipher decrypts under the same
  key to the same octets: the vector, the tag and the ciphertext are cut back at the places where
  the encryption put them.\<close>
theorem aes_frame_roundtrip:
  assumes "evp_sound e" and "encrypt_aes e m input key = Inr (Some b64)"
  shows "decrypt_aes e m b64 key = Inr (Some input)"
  using assms by (rule aes_frame_decrypts)

theorem aes_frame_roundtrip_witness:
  "decrypt_aes evp_plain AES256_GCM
     (base64_encode (replicate 12 0 @ replicate 16 0 @ [0x50, 0x4E])) [] = Inr (Some [0x50, 0x4E])"
  by (rule aes_frame_roundtrip [OF evp_sound_plain])
    (simp add: encrypt_aes_def evp_plain_def get_ivi_size_def)

text \<open>Decryption of any text received: a text whose length is not a multiple of four makes the
  function use an uninitialised pointer, an empty text or one that carries fewer octets than the
  vector makes it read out of bounds, and every other text gives a plain error or a result.\<close>
lemma decrypt_aes_outcomes:
  "(decrypt_aes e m s key = Inl Uninit_read \<longleftrightarrow> length s mod 4 \<noteq> 0) \<and>
   (decrypt_aes e m s key = Inl Read_oob \<longleftrightarrow>
      (case base64_decode s of Inr (Some d) \<Rightarrow> length d < get_ivi_size m | _ \<Rightarrow> s = [])) \<and>
   (case decrypt_aes e m s key of Inl f \<Rightarrow> f = Uninit_read \<or> f = Read_oob | Inr _ \<Rightarrow> True)"
proof (cases "length s mod 4 = 0 \<and> s \<noteq> []")
  case True
  then obtain d where "base64_decode s = Inr (Some d)"
    using b64_decoded_length_ok [of s] by (auto simp: base64_decode_octets)
  thus ?thesis using True by (auto simp: decrypt_aes_def Let_def)
next
  case False
  thus ?thesis
    by (cases "s = []") (auto simp: decrypt_aes_def base64_decode_octets b64_decoded_length_def)
qed

text \<open>The table keeps its three ciphers in their order whatever is enabled or disabled, and
  enabling or disabling by name changes the flag of the cipher of this name and of no other.\<close>
lemma cipher_enable_by_name:
  assumes "cipher_table_ok tab"
  shows "cipher_table_ok (fst (cipher_let_enabled_by_str tab (Some n) b)) \<and>
    cipher_get_by_str (fst (cipher_let_enabled_by_str tab (Some n) b)) (Some k) =
      map_option (\<lambda>c. if k = n then c\<lparr> c_enabled := b \<rparr> else c) (cipher_get_by_str tab (Some k)) \<and>
    (snd (cipher_let_enabled_by_str tab (Some n) b) \<longleftrightarrow>
      n = ''AES128CTR'' \<or> n = ''AES256CTR'' \<or> n = ''AES256GCM'')"
proof -
  have names: "map c_lib tab = [''AES128CTR'', ''AES256CTR'', ''AES256GCM'']"
  proof -
    have "map fst (map (\<lambda>c. (c_lib c, c_mode c, c_key_len c)) tab) =
      map fst (map (\<lambda>c. (c_lib c, c_mode c, c_key_len c)) cipher_table0)"
      using assms by (simp only: cipher_table_ok_def)
    thus ?thesis
      by (simp add: comp_def cipher_table0_def cipher_aes128_ctr_def cipher_aes256_ctr_def
          cipher_aes256_gcm_def)
  qed
  have "find (\<lambda>c. c_lib c = n) tab = None \<longleftrightarrow> n \<notin> set (map c_lib tab)"
    by (auto simp: find_None_iff)
  hence "(cipher_get_by_str tab (Some n) \<noteq> None) =
      (n = ''AES128CTR'' \<or> n = ''AES256CTR'' \<or> n = ''AES256GCM'')"
    unfolding names by (simp add: cipher_get_by_str_def)
  moreover have "cipher_get_by_str (fst (cipher_let_enabled_by_str tab (Some n) b)) (Some k) =
      map_option (\<lambda>c. if k = n then c\<lparr> c_enabled := b \<rparr> else c) (cipher_get_by_str tab (Some k))"
    using cipher_get_by_str_lib [of tab "Some n"]
    by (cases "cipher_get_by_str tab (Some n)")
      (auto simp: cipher_let_enabled_by_str_def find_set_enabled,
       (cases "k = n"; auto simp: cipher_get_by_str_def find_set_enabled option.map_ident)+)
  ultimately show ?thesis
    using assms by (auto simp: cipher_let_enabled_ok) (auto simp: cipher_let_enabled_by_str_def split: option.splits)
qed

lemma cipher_enable_by_name_witness:
  "map_option c_enabled (cipher_get_by_str
     (fst (cipher_let_enabled_by_str cipher_table0 (Some ''AES128CTR'') False)) (Some ''AES128CTR'')) = Some False"
  using cipher_enable_by_name [OF cipher_table_ok0, of "''AES128CTR''" False "''AES128CTR''"]
  by (simp add: cipher_get_by_str_def cipher_table0_def cipher_aes128_ctr_def)

end
