(* ===== verification/AuthPwd.thy ===== *)
theory AuthPwd
  imports Bcd
begin

text \<open>
  Model of \<open>auth/auth-pwd.c\<close> and of the compiled part of \<open>auth/auth-secret.c\<close>: passwords and
  secrets are a buffer and a length.  The textual form of a password in the data base file is
  either the clear text or \<open>$0$\<close> followed by hexadecimal digits.  Random octets are an argument:
  \<open>draw\<close> is the truncated value of \<open>erand48(xsubi) * 22\<close> and \<open>rnd\<close> what \<open>/dev/random\<close> gives.
\<close>

section \<open>Buffers with a length\<close>

record blob =
  bbuf :: "byte list option"
  blen :: nat

type_synonym auth_pwd = blob
type_synonym auth_secret = blob

definition auth_pwd_null :: auth_pwd where
  "auth_pwd_null = \<lparr> bbuf = None, blen = 0 \<rparr>"

definition blob_of :: "byte list \<Rightarrow> blob" where
  "blob_of bs = \<lparr> bbuf = Some bs, blen = length bs \<rparr>"

text \<open>A buffer that holds as many octets as its length says.\<close>
definition blob_ok :: "blob \<Rightarrow> bool" where
  "blob_ok b \<longleftrightarrow> (case bbuf b of None \<Rightarrow> True | Some bs \<Rightarrow> length bs = blen b)"

record rand =
  draw :: nat
  rnd :: "nat \<Rightarrow> byte list"

section \<open>Passwords\<close>

definition AUTH_PWD_LEN_MIN :: nat where "AUTH_PWD_LEN_MIN = 8"
definition AUTH_PWD_LEN_MAX :: nat where "AUTH_PWD_LEN_MAX = 256"

definition auth_pwd_len_get :: "rand \<Rightarrow> nat" where
  "auth_pwd_len_get r = AUTH_PWD_LEN_MIN + draw r"

definition auth_pwd_str_is_hex :: "string \<Rightarrow> bool" where
  "auth_pwd_str_is_hex str \<longleftrightarrow>
    \<not> odd (length str) \<and> \<not> length str < 2 * AUTH_PWD_LEN_MIN \<and> list_all isxdigit str"

text \<open>The buffer is dropped, the length stays.\<close>
definition auth_pwd_release :: "auth_pwd \<Rightarrow> auth_pwd" where
  "auth_pwd_release item = item\<lparr> bbuf := None \<rparr>"

definition auth_pwd_auto_set :: "rand \<Rightarrow> auth_pwd \<Rightarrow> auth_pwd" where
  "auth_pwd_auto_set r pwd =
    (auth_pwd_release pwd)\<lparr> blen := auth_pwd_len_get r, bbuf := Some (rnd r (auth_pwd_len_get r)) \<rparr>"

definition auth_pwd_set :: "rand \<Rightarrow> auth_pwd \<Rightarrow> byte list option \<Rightarrow> nat \<Rightarrow> auth_pwd" where
  "auth_pwd_set r pwd buf len =
    (case buf of
       None \<Rightarrow> auth_pwd_auto_set r pwd
     | Some bs \<Rightarrow> if len = 0 then auth_pwd_auto_set r pwd
                 else (auth_pwd_release pwd)\<lparr> blen := len, bbuf := Some (take len bs) \<rparr>)"

definition auth_pwd_cpy :: "rand \<Rightarrow> auth_pwd \<Rightarrow> auth_pwd \<Rightarrow> auth_pwd" where
  "auth_pwd_cpy r dest src = auth_pwd_set r dest (bbuf src) (blen src)"

text \<open>\<open>None\<close> is the \<open>NULL\<close> result, which leaves the password as it was.\<close>
definition auth_pwd_from_str_set :: "rand \<Rightarrow> auth_pwd \<Rightarrow> cstr \<Rightarrow> auth_pwd option" where
  "auth_pwd_from_str_set r pwd str =
    (case str of
       None \<Rightarrow> Some (auth_pwd_auto_set r pwd)
     | Some s \<Rightarrow> if length s < AUTH_PWD_LEN_MIN then None
                else Some (auth_pwd_set r pwd (Some (map byte_of s)) (length s)))"

definition auth_pwd_from_hex_set :: "rand \<Rightarrow> auth_pwd \<Rightarrow> cstr \<Rightarrow> auth_pwd option run" where
  "auth_pwd_from_hex_set r pwd str =
    (case str of
       None \<Rightarrow> Inr (Some (auth_pwd_auto_set r pwd))
     | Some s \<Rightarrow>
         if \<not> auth_pwd_str_is_hex s then Inr None
         else rbind (bcd_decode (Some s)) (\<lambda>out. Inr (Some (case out of
                None \<Rightarrow> (auth_pwd_release pwd)\<lparr> bbuf := None \<rparr>
              | Some bs \<Rightarrow> (auth_pwd_release pwd)\<lparr> bbuf := Some bs, blen := length bs \<rparr>))))"

definition auth_pwd_decode :: "rand \<Rightarrow> auth_pwd \<Rightarrow> string \<Rightarrow> auth_pwd option run" where
  "auth_pwd_decode r pwd str =
    (if length str > 2
     then if str ! 0 = CHR ''$'' \<and> str ! 2 = CHR ''$''
          then if str ! 1 = CHR ''0''
               then if length str > 3 \<and> str ! 3 = CHR ''*'' then Inr (Some (auth_pwd_release pwd))
                    else auth_pwd_from_hex_set r pwd (Some (drop 3 str))
               else Inr None
          else if length str \<ge> AUTH_PWD_LEN_MIN then Inr (auth_pwd_from_str_set r pwd (Some str))
          else Inr None
     else Inr None)"

text \<open>Whether \<open>auth_pwd_cmp\<close> returns 0 for two present passwords; \<open>memcmp\<close> gets both buffers when
  the lengths agree.\<close>
definition auth_pwd_same :: "auth_pwd \<Rightarrow> auth_pwd \<Rightarrow> bool run" where
  "auth_pwd_same p1 p2 =
    (if blen p1 \<noteq> blen p2 then Inr False
     else if blen p1 = 0 then Inr True
     else case (bbuf p1, bbuf p2) of
            (Some b1, Some b2) \<Rightarrow> Inr (take (blen p1) b1 = take (blen p2) b2)
          | _ \<Rightarrow> Inl Null_deref)"

section \<open>Hashes for the logs\<close>

text \<open>\<open>memfrob\<close> of the C library exchanges bits with the number 42.\<close>
definition memfrob :: "byte list \<Rightarrow> byte list" where
  "memfrob bs = map (\<lambda>b. b XOR 42) bs"

definition auth_pwd_hash2bdc :: "byte list \<Rightarrow> cstr \<times> nat" where
  "auth_pwd_hash2bdc out =
    (case bcd_encode_sep out (CHR 0x00) of
       Some bdc \<Rightarrow> (Some bdc, length bdc)
     | None \<Rightarrow> (None, 0))"

text \<open>The text for the logs; the first component is \<open>*out\<close>.\<close>
definition auth_pwd_hash_frob :: "auth_pwd \<Rightarrow> cstr \<times> nat" where
  "auth_pwd_hash_frob pwd =
    (case bbuf pwd of
       None \<Rightarrow> (None, 0)
     | Some bs \<Rightarrow> if blen pwd = 0 then (None, 0)
                 else auth_pwd_hash2bdc (memfrob (take (blen pwd) bs)))"

section \<open>Secrets\<close>

definition auth_secret_release :: "auth_secret \<Rightarrow> auth_secret" where
  "auth_secret_release item = \<lparr> bbuf = None, blen = 0 \<rparr>"

definition auth_secret_cpy :: "auth_secret \<Rightarrow> auth_secret option \<Rightarrow> auth_secret" where
  "auth_secret_cpy dest src =
    (case src of
       None \<Rightarrow> dest
     | Some s \<Rightarrow>
         let dest1 = auth_secret_release dest
         in if blen s \<noteq> 0 \<and> bbuf s \<noteq> None
            then dest1\<lparr> blen := blen s, bbuf := map_option (take (blen s)) (bbuf s) \<rparr> else dest1)"

definition auth_secret_swap :: "auth_secret \<Rightarrow> auth_secret \<Rightarrow> auth_secret \<times> auth_secret" where
  "auth_secret_swap s1 s2 =
    (let s3 = auth_secret_cpy \<lparr> bbuf = None, blen = 0 \<rparr> (Some s1);
         s1' = auth_secret_cpy s1 (Some s2);
         s2' = auth_secret_cpy s2 (Some s3)
     in (s1', s2'))"

section \<open>Lemmas\<close>

lemma bcd_plain_hex:
  "list_all isxdigit (concat (map (\<lambda>b. [c2a (drop_bit 4 b), c2a (b AND 0x0F)]) bs))"
  by (induction bs) (auto simp: octet_hex)

lemma bcd_encode_nul:
  "bs \<noteq> [] \<Longrightarrow> bcd_encode_sep bs (CHR 0x00) =
     Some (concat (map (\<lambda>b. [c2a (drop_bit 4 b), c2a (b AND 0x0F)]) bs))"
  by (simp add: bcd_encode_sep_def bcd_use_sep_def)

text \<open>The hexadecimal text of a long enough password is accepted and decodes to it.\<close>
lemma auth_pwd_from_hex_encode:
  assumes "AUTH_PWD_LEN_MIN \<le> length bs"
  shows "auth_pwd_from_hex_set r pwd (bcd_encode_sep bs (CHR 0x00)) = Inr (Some (blob_of bs))"
proof -
  have ne: "bs \<noteq> []" using assms by (auto simp: AUTH_PWD_LEN_MIN_def)
  obtain s where s: "bcd_encode_sep bs (CHR 0x00) = Some s" "list_all isxdigit s"
      "length s = 2 * length bs"
    using bcd_encode_nul [OF ne] bcd_plain_hex length_bcd_plain by blast
  have "auth_pwd_str_is_hex s" using s assms by (simp add: auth_pwd_str_is_hex_def)
  moreover have "bcd_decode (Some s) = Inr (Some bs)"
    using bcd_roundtrip_general [OF ne, of "CHR 0x00"] s(1) by simp
  ultimately show ?thesis
    by (simp add: auth_pwd_from_hex_set_def s(1) blob_of_def auth_pwd_release_def)
qed

lemma star_not_hex: "\<not> isxdigit (CHR ''*'')"
  by code_simp

lemma length_bcd_pairs: "length (bcd_pairs s) = length s div 2"
  by (induction s rule: bcd_pairs.induct) auto

lemma auth_pwd_from_hex_result:
  "auth_pwd_from_hex_set r pwd (Some s) =
    Inr (if auth_pwd_str_is_hex s then Some (blob_of (bcd_pairs s)) else None)"
proof (cases "auth_pwd_str_is_hex s")
  case hex: True
  obtain a b t where s: "s = a # b # t"
    using hex by (cases s; cases "tl s") (auto simp: auth_pwd_str_is_hex_def AUTH_PWD_LEN_MIN_def)
  have "bcd_ref (length s div 2) s = Inr (bcd_pairs s)"
    using hex bcd_ref_hex [of s] by (simp add: auth_pwd_str_is_hex_def)
  moreover have "isxdigit (s ! 0)" "isxdigit (s ! 1)" "1 < length s"
    using hex by (simp_all add: s auth_pwd_str_is_hex_def)
  ultimately have "bcd_decode (Some s) = Inr (Some (bcd_pairs s))"
    by (simp add: bcd_decode_ref del: bcd_ref.simps bcd_pairs.simps)
  thus ?thesis
    using hex by (simp add: auth_pwd_from_hex_set_def blob_of_def auth_pwd_release_def)
qed (simp add: auth_pwd_from_hex_set_def)

section \<open>Properties\<close>

text \<open>The text \<open>$0$<hexadecimal>\<close> the data base file carries for a password of at least eight
  octets decodes to this password, whatever octets it is made of.\<close>
lemma auth_pwd_text_roundtrip:
  assumes "AUTH_PWD_LEN_MIN \<le> length bs"
    and "bcd_encode_sep bs (CHR 0x00) = Some t"
  shows "auth_pwd_decode r pwd (''$0$'' @ t) = Inr (Some (blob_of bs))"
proof -
  have ne: "bs \<noteq> []" using assms(1) by (auto simp: AUTH_PWD_LEN_MIN_def)
  have t: "t = concat (map (\<lambda>b. [c2a (drop_bit 4 b), c2a (b AND 0x0F)]) bs)"
    using bcd_encode_nul [OF ne] assms(2) by simp
  have "list_all isxdigit t" by (simp only: t bcd_plain_hex)
  moreover have "0 < length t" using ne by (simp only: t length_bcd_plain) simp
  ultimately have "t ! 0 \<noteq> CHR ''*''" using star_not_hex by (auto simp: list_all_length)
  thus ?thesis
    using auth_pwd_from_hex_encode [OF assms(1), of r pwd] assms(2)
    by (simp add: auth_pwd_decode_def)
qed

lemma auth_pwd_text_roundtrip_witness:
  "auth_pwd_decode \<lparr> draw = 0, rnd = (\<lambda>n. replicate n 0) \<rparr> auth_pwd_null (''$0$'' @ ''7261696E626F7721'') =
     Inr (Some (blob_of [0x72, 0x61, 0x69, 0x6E, 0x62, 0x6F, 0x77, 0x21]))"
  by (rule auth_pwd_text_roundtrip) (simp add: AUTH_PWD_LEN_MIN_def, code_simp)

text \<open>Decoding the textual form of a password never leaves the defined behaviour of C (the
  hexadecimal digits are checked to be even in number before the decoder runs), and a decoded
  password is either a released one or at least eight octets long.\<close>
lemma auth_pwd_decode_safe:
  "\<exists>res. auth_pwd_decode r pwd str = Inr res \<and>
     (case res of None \<Rightarrow> True
      | Some q \<Rightarrow> bbuf q = None \<or> blob_ok q \<and> AUTH_PWD_LEN_MIN \<le> blen q)"
proof -
  have "case auth_pwd_from_str_set r pwd (Some s) of None \<Rightarrow> True
      | Some q \<Rightarrow> bbuf q = None \<or> blob_ok q \<and> AUTH_PWD_LEN_MIN \<le> blen q" for s
    by (auto simp: auth_pwd_from_str_set_def auth_pwd_set_def AUTH_PWD_LEN_MIN_def blob_ok_def)
  moreover have "\<exists>res. auth_pwd_from_hex_set r pwd (Some s) = Inr res \<and>
     (case res of None \<Rightarrow> True
      | Some q \<Rightarrow> bbuf q = None \<or> blob_ok q \<and> AUTH_PWD_LEN_MIN \<le> blen q)" for s
    by (auto simp: auth_pwd_from_hex_result auth_pwd_str_is_hex_def blob_of_def blob_ok_def
        length_bcd_pairs)
  ultimately show ?thesis
    by (auto simp: auth_pwd_decode_def auth_pwd_release_def)
qed

text \<open>Swapping two secrets exchanges them when both are either empty or filled consistently.\<close>
lemma auth_secret_swap_exchanges:
  "auth_secret_swap (case a of None \<Rightarrow> auth_pwd_null | Some x \<Rightarrow> blob_of (u # x))
     (case b of None \<Rightarrow> auth_pwd_null | Some y \<Rightarrow> blob_of (v # y)) =
   ((case b of None \<Rightarrow> auth_pwd_null | Some y \<Rightarrow> blob_of (v # y)),
    (case a of None \<Rightarrow> auth_pwd_null | Some x \<Rightarrow> blob_of (u # x)))"
  by (simp add: auth_secret_swap_def auth_secret_cpy_def auth_secret_release_def auth_pwd_null_def
      blob_of_def Let_def split: option.split)

end
