(* ===== verification/KeyedList.thy ===== *)
theory KeyedList
  imports LdcList
begin

text \<open>
  Lists of entries searched by a key from their head, the way the chained lists of the
  authentication base are walked: search, update of the entry found through its pointer,
  unlinking of the entry found, and insertion of an entry whose key is not there.
\<close>

section \<open>Operations\<close>

fun kupd :: "('a \<Rightarrow> bool) \<Rightarrow> ('a \<Rightarrow> 'a) \<Rightarrow> 'a list \<Rightarrow> 'a list" where
  "kupd p f [] = []"
| "kupd p f (x # xs) = (if p x then f x # xs else x # kupd p f xs)"

text \<open>Keys are unique.\<close>
definition kuniq :: "('a \<Rightarrow> 'k) \<Rightarrow> 'a list \<Rightarrow> bool" where
  "kuniq key xs \<longleftrightarrow> distinct (map key xs)"

text \<open>
  The insertion of the list library without a comparison: where the entry goes can depend on the
  length of the list only.
\<close>
definition ins_at :: "(nat \<Rightarrow> nat) \<Rightarrow> 'a list \<Rightarrow> 'a \<Rightarrow> 'a list" where
  "ins_at pos xs x = take (pos (length xs)) xs @ x # drop (pos (length xs)) xs"

section \<open>Lemmas\<close>

lemma inserts_one_ins_at [simp]: "inserts_one (ins_at pos)"
  unfolding inserts_one_def ins_at_def by (metis append_take_drop_id)

lemma find_key_Some: "find (\<lambda>x. key x = k) xs = Some y \<Longrightarrow> y \<in> set xs \<and> key y = k"
  by (auto simp: find_Some_iff)

lemma find_key_None: "find (\<lambda>x. key x = k) xs = None \<longleftrightarrow> k \<notin> key ` set xs"
  by (auto simp: find_None_iff)

lemma find_append:
  "find p (xs @ ys) = (case find p xs of None \<Rightarrow> find p ys | Some x \<Rightarrow> Some x)"
  by (induction xs) auto

lemma find_kupd:
  assumes "\<And>x. key (f x) = key x"
  shows "find (\<lambda>x. key x = k') (kupd (\<lambda>x. key x = k) f xs) =
    (if k' = k then map_option f (find (\<lambda>x. key x = k) xs) else find (\<lambda>x. key x = k') xs)"
  by (induction xs) (auto simp: assms)

lemma find_kupd_found:
  assumes "\<And>x. find (\<lambda>x. key x = k) xs = Some x \<Longrightarrow> key (f x) = k"
  shows "find (\<lambda>x. key x = k') (kupd (\<lambda>x. key x = k) f xs) =
    (if k' = k then map_option f (find (\<lambda>x. key x = k) xs) else find (\<lambda>x. key x = k') xs)"
  using assms by (induction xs) auto

lemma map_kupd: "(\<And>x. p x \<Longrightarrow> key (f x) = key x) \<Longrightarrow> map key (kupd p f xs) = map key xs"
  by (induction xs) auto

lemma kuniq_kupd: "(\<And>x. key (f x) = key x) \<Longrightarrow> kuniq key xs \<Longrightarrow> kuniq key (kupd p f xs)"
  by (simp add: kuniq_def map_kupd)

lemma set_kupd: "y \<in> set (kupd p f xs) \<Longrightarrow> y \<in> set xs \<or> (\<exists>x. find p xs = Some x \<and> y = f x)"
  by (induction xs) (auto split: if_splits)

lemma kupd_not_found: "find p xs = None \<Longrightarrow> kupd p f xs = xs"
  by (induction xs) (auto split: if_splits)

lemma find_ins:
  assumes "inserts_one ins" "find (\<lambda>x. key x = key y) xs = None"
  shows "find (\<lambda>x. key x = k) (ins xs y) = (if k = key y then Some y else find (\<lambda>x. key x = k) xs)"
proof -
  obtain as bs where "xs = as @ bs" "ins xs y = as @ y # bs"
    using assms(1) unfolding inserts_one_def by blast
  thus ?thesis using assms(2)
    by (auto simp: find_append split: option.splits)
qed

lemma kuniq_ins:
  assumes "inserts_one ins" "find (\<lambda>x. key x = key y) xs = None" "kuniq key xs"
  shows "kuniq key (ins xs y)"
proof -
  obtain as bs where "xs = as @ bs" "ins xs y = as @ y # bs"
    using assms(1) unfolding inserts_one_def by blast
  thus ?thesis using assms(2,3) by (auto simp: kuniq_def find_key_None)
qed

lemma find_unlink:
  assumes "kuniq key xs"
  shows "find (\<lambda>x. key x = k') (ldc_unlink (\<lambda>x. key x = k) xs) =
    (if k' = k then None else find (\<lambda>x. key x = k') xs)"
  using assms by (induction xs) (auto simp: kuniq_def find_key_None image_iff)

lemma kuniq_unlink: "kuniq key xs \<Longrightarrow> kuniq key (ldc_unlink p xs)"
proof (induction xs)
  case (Cons a xs)
  thus ?case using set_unlink [of p xs] by (auto simp: kuniq_def)
qed (simp add: kuniq_def)

lemma find_member:
  "kuniq key xs \<Longrightarrow> x \<in> set xs \<Longrightarrow> find (\<lambda>y. key y = key x) xs = Some x"
  by (induction xs) (auto simp: kuniq_def)

end
