(* ===== verification/AuthDb.thy ===== *)
theory AuthDb
  imports AuthPwd KeyedList
begin

text \<open>
  Model of \<open>auth/auth-basic.c\<close>: the authentication base, three levels of chained lists (data base,
  site, login), with its searches, insertions, deletions and walks.
  An entry has no address here: the pointer to an \<open>auth_t\<close> is the triple of its data base, site
  and login, which the invariant \<open>auth_dbs_ok\<close> makes unique.  The position of an insertion is the
  parameter \<open>pos\<close> (list library) and the clock the argument \<open>now\<close>.  The read-write locks have no
  counterpart.  The file of the base is in \<open>AuthFile\<close>, the secrets of an entry in \<open>AuthOps\<close>.
\<close>

section \<open>Entries\<close>

type_synonym horodate = "int \<times> int"

record auth_key =
  k_dbId :: cstr
  k_login :: cstr
  k_sId :: cstr

record auth =
  a_dbId :: string
  a_login :: string
  a_sId :: string
  a_active :: bool
  a_pwd :: auth_pwd
  a_timestamp :: horodate
  a_new_pwd_pending :: bool
  a_new_pwd :: auth_pwd
  a_secrets :: "(string \<times> auth_secret) list"

record sIds =
  s_sId :: string
  s_logins :: "auth list"

record db =
  d_dbId :: string
  d_sIds :: "sIds list"

type_synonym dbs = "db list"

definition auth_db_new :: "string \<Rightarrow> db" where
  "auth_db_new dbId = \<lparr> d_dbId = dbId, d_sIds = [] \<rparr>"

definition auth_sId_new :: "string \<Rightarrow> sIds" where
  "auth_sId_new sId = \<lparr> s_sId = sId, s_logins = [] \<rparr>"

definition auth_key_set :: "cstr \<Rightarrow> cstr \<Rightarrow> cstr \<Rightarrow> auth_key" where
  "auth_key_set dbId login sId = \<lparr> k_dbId = dbId, k_login = login, k_sId = sId \<rparr>"

text \<open>\<open>auth_db_is\<close>: the data base an entry says it belongs to.\<close>
definition auth_db_is :: "auth \<Rightarrow> string \<Rightarrow> bool" where
  "auth_db_is item dbId \<longleftrightarrow> a_dbId item = dbId"

section \<open>Searching\<close>

text \<open>\<open>auth_find\<close> with its three comparisons; a \<open>NULL\<close> key finds nothing.\<close>
definition auth_find :: "('a \<Rightarrow> string) \<Rightarrow> cstr \<Rightarrow> 'a list \<Rightarrow> 'a option" where
  "auth_find ident key xs =
    (case key of None \<Rightarrow> None | Some k \<Rightarrow> find (\<lambda>x. ident x = k) xs)"

definition auth_db_search :: "(nat \<Rightarrow> nat) \<Rightarrow> dbs \<Rightarrow> string \<Rightarrow> dbs" where
  "auth_db_search pos dbs dbId =
    (case auth_find d_dbId (Some dbId) dbs of
       None \<Rightarrow> ins_at pos dbs (auth_db_new dbId) | Some _ \<Rightarrow> dbs)"

definition auth_sId_search :: "(nat \<Rightarrow> nat) \<Rightarrow> sIds list \<Rightarrow> string \<Rightarrow> sIds list" where
  "auth_sId_search pos root sId =
    (case auth_find s_sId (Some sId) root of
       None \<Rightarrow> ins_at pos root (auth_sId_new sId) | Some _ \<Rightarrow> root)"

text \<open>The entry of a site of a data base, and its modification in place.\<close>
definition sIds_at :: "dbs \<Rightarrow> cstr \<Rightarrow> cstr \<Rightarrow> sIds option" where
  "sIds_at dbs dbId sId =
    (case auth_find d_dbId dbId dbs of
       None \<Rightarrow> None | Some d \<Rightarrow> auth_find s_sId sId (d_sIds d))"

definition upd_sIds :: "string \<Rightarrow> string \<Rightarrow> (sIds \<Rightarrow> sIds) \<Rightarrow> dbs \<Rightarrow> dbs" where
  "upd_sIds dbId sId f dbs =
    kupd (\<lambda>d. d_dbId d = dbId)
      (\<lambda>d. d\<lparr> d_sIds := kupd (\<lambda>s. s_sId s = sId) f (d_sIds d) \<rparr>) dbs"

text \<open>\<open>auth_db_search\<close> then \<open>auth_sId_search\<close>: the path to a site, created where it is missing.\<close>
definition auth_path :: "(nat \<Rightarrow> nat) \<Rightarrow> dbs \<Rightarrow> string \<Rightarrow> string \<Rightarrow> dbs" where
  "auth_path pos dbs dbId sId =
    kupd (\<lambda>d. d_dbId d = dbId) (\<lambda>d. d\<lparr> d_sIds := auth_sId_search pos (d_sIds d) sId \<rparr>)
      (auth_db_search pos dbs dbId)"

definition auth_login_find :: "dbs \<Rightarrow> cstr \<Rightarrow> cstr \<Rightarrow> cstr \<Rightarrow> auth option" where
  "auth_login_find dbs dbId sId login =
    (case sIds_at dbs dbId sId of None \<Rightarrow> None | Some s \<Rightarrow> auth_find a_login login (s_logins s))"

definition auth_login_insert :: "(nat \<Rightarrow> nat) \<Rightarrow> auth \<Rightarrow> sIds \<Rightarrow> sIds" where
  "auth_login_insert pos item s = s\<lparr> s_logins := ins_at pos (s_logins s) item \<rparr>"

definition auth_find_by_key :: "dbs \<Rightarrow> auth_key option \<Rightarrow> auth option" where
  "auth_find_by_key dbs key =
    (case key of None \<Rightarrow> None
     | Some k \<Rightarrow> auth_login_find dbs (k_dbId k) (k_sId k) (k_login k))"

section \<open>Insertion and deletion\<close>

text \<open>The boolean is false for the \<open>NULL\<close> result: the login exists already.\<close>
definition auth_insert :: "(nat \<Rightarrow> nat) \<Rightarrow> dbs \<Rightarrow> string \<Rightarrow> auth \<Rightarrow> dbs \<times> bool" where
  "auth_insert pos dbs dbId item =
    (let dbs1 = auth_path pos dbs dbId (a_sId item)
     in case auth_login_find dbs1 (Some dbId) (Some (a_sId item)) (Some (a_login item)) of
          None \<Rightarrow> (upd_sIds dbId (a_sId item) (auth_login_insert pos item) dbs1, True)
        | Some _ \<Rightarrow> (dbs1, False))"

definition auth_insert_or_update :: "(nat \<Rightarrow> nat) \<Rightarrow> dbs \<Rightarrow> string \<Rightarrow> auth \<Rightarrow> dbs" where
  "auth_insert_or_update pos dbs dbId item =
    (let dbs1 = auth_path pos dbs dbId (a_sId item)
     in upd_sIds dbId (a_sId item)
          (\<lambda>s. auth_login_insert pos item
                 (s\<lparr> s_logins := ldc_unlink (\<lambda>a. a_login a = a_login item) (s_logins s) \<rparr>)) dbs1)"

text \<open>A password given with a length of 0 or without a buffer is no password; an entry without
  one is never active.\<close>
definition auth_body ::
  "horodate \<Rightarrow> string \<Rightarrow> string \<Rightarrow> string \<Rightarrow> byte list option \<Rightarrow> nat \<Rightarrow> horodate option \<Rightarrow> bool \<Rightarrow>
   byte list option \<Rightarrow> nat \<Rightarrow> bool \<Rightarrow> auth" where
  "auth_body now dbId login sId pwd pwd_len ts active new_pwd new_pwd_len pending =
    (let mk = (\<lambda>buf len. case buf of
                 None \<Rightarrow> auth_pwd_null
               | Some bs \<Rightarrow> if len > 0 then \<lparr> bbuf = Some (take len bs), blen = len \<rparr> else auth_pwd_null);
         p = mk pwd pwd_len; np = mk new_pwd new_pwd_len
     in \<lparr> a_dbId = dbId, a_login = login, a_sId = sId,
          a_active = (if blen p \<noteq> 0 \<and> bbuf p \<noteq> None then active else False), a_pwd = p,
          a_timestamp = (case ts of Some t \<Rightarrow> t | None \<Rightarrow> now),
          a_new_pwd_pending = (if blen np \<noteq> 0 \<and> bbuf np \<noteq> None then pending else False),
          a_new_pwd = np, a_secrets = [] \<rparr>)"

text \<open>The entry is returned even when its insertion was refused.\<close>
definition auth_new :: "(nat \<Rightarrow> nat) \<Rightarrow> dbs \<Rightarrow> string \<Rightarrow> auth \<Rightarrow> (dbs \<times> auth) run" where
  "auth_new pos dbs dbId body =
    (if a_login body = [] \<or> a_sId body = [] then Inl Assert_failed
     else Inr (fst (auth_insert pos dbs dbId body), body))"

text \<open>A key with its three fields present and not empty.\<close>
definition key_full :: "auth_key \<Rightarrow> bool" where
  "key_full k \<longleftrightarrow>
    (case (k_dbId k, k_login k, k_sId k) of
       (Some d, Some l, Some s) \<Rightarrow> d \<noteq> [] \<and> l \<noteq> [] \<and> s \<noteq> [] | _ \<Rightarrow> False)"

definition auth_blank :: "horodate \<Rightarrow> auth_key \<Rightarrow> auth" where
  "auth_blank now k =
    auth_body now (the (k_dbId k)) (the (k_login k)) (the (k_sId k)) None 0 None False None 0 False"

definition auth_insert_by_key ::
  "(nat \<Rightarrow> nat) \<Rightarrow> horodate \<Rightarrow> dbs \<Rightarrow> auth_key \<Rightarrow> (dbs \<times> auth option) run" where
  "auth_insert_by_key pos now dbs key =
    (if \<not> key_full key then Inr (dbs, None)
     else let dbs1 = auth_path pos dbs (the (k_dbId key)) (the (k_sId key))
          in case auth_login_find dbs1 (k_dbId key) (k_sId key) (k_login key) of
               None \<Rightarrow> rbind (auth_new pos dbs1 (the (k_dbId key)) (auth_blank now key))
                          (\<lambda>(dbs2, a). Inr (dbs2, Some a))
             | Some _ \<Rightarrow> Inr (dbs1, None))"

definition auth_search_by_key ::
  "(nat \<Rightarrow> nat) \<Rightarrow> horodate \<Rightarrow> dbs \<Rightarrow> auth_key \<Rightarrow> (dbs \<times> auth option) run" where
  "auth_search_by_key pos now dbs key =
    (if \<not> key_full key then Inr (dbs, None)
     else let dbs1 = auth_path pos dbs (the (k_dbId key)) (the (k_sId key))
          in case auth_login_find dbs1 (k_dbId key) (k_sId key) (k_login key) of
               None \<Rightarrow> rbind (auth_new pos dbs1 (the (k_dbId key)) (auth_blank now key))
                          (\<lambda>(dbs2, a). Inr (dbs2, Some a))
             | Some a \<Rightarrow> Inr (dbs1, Some a))"

text \<open>Modification of an entry in place, and \<open>auth_free\<close> of an entry of the base.\<close>
definition upd_auth :: "string \<Rightarrow> string \<Rightarrow> string \<Rightarrow> (auth \<Rightarrow> auth) \<Rightarrow> dbs \<Rightarrow> dbs" where
  "upd_auth dbId sId login f dbs =
    upd_sIds dbId sId (\<lambda>s. s\<lparr> s_logins := kupd (\<lambda>a. a_login a = login) f (s_logins s) \<rparr>) dbs"

definition auth_free :: "dbs \<Rightarrow> string \<Rightarrow> string \<Rightarrow> string \<Rightarrow> dbs" where
  "auth_free dbs dbId sId login =
    upd_sIds dbId sId (\<lambda>s. s\<lparr> s_logins := ldc_unlink (\<lambda>a. a_login a = login) (s_logins s) \<rparr>) dbs"

definition auth_delete_by_key :: "dbs \<Rightarrow> auth_key option \<Rightarrow> dbs" where
  "auth_delete_by_key dbs key =
    (case auth_find_by_key dbs key of
       None \<Rightarrow> dbs
     | Some a \<Rightarrow> auth_free dbs (the (k_dbId (the key))) (the (k_sId (the key))) (a_login a))"

definition auth_db_purge :: "dbs \<Rightarrow> dbs" where
  "auth_db_purge dbs = []"

text \<open>The password of an entry is copied from a fresh copy of the buffer given (a random one when
  there is none), and dated.\<close>
definition auth_db_pwd_change :: "rand \<Rightarrow> rand \<Rightarrow> horodate \<Rightarrow> auth \<Rightarrow> byte list option \<Rightarrow> nat \<Rightarrow> auth" where
  "auth_db_pwd_change r1 r2 now a buf len =
    (let pwd = auth_pwd_set r1 auth_pwd_null buf len
     in a\<lparr> a_pwd := auth_pwd_cpy r2 (a_pwd a) pwd, a_timestamp := now \<rparr>)"

section \<open>Walks\<close>

text \<open>The walk of the logins of a site stops at the first call back that returns 0; the walks of
  the sites and of the data bases go on.\<close>
definition auth_foreach_login ::
  "('c \<Rightarrow> auth \<Rightarrow> 'c \<times> bool) \<Rightarrow> 'c \<Rightarrow> auth list \<Rightarrow> 'c \<times> nat" where
  "auth_foreach_login fct c logins = ldc_foreach_loop fct c logins"

fun auth_foreach_sIds ::
  "('c \<Rightarrow> auth \<Rightarrow> 'c \<times> bool) \<Rightarrow> 'c \<Rightarrow> sIds list \<Rightarrow> 'c \<times> nat" where
  "auth_foreach_sIds fct c [] = (c, 0)"
| "auth_foreach_sIds fct c (s # ss) =
    (let (c1, n) = auth_foreach_login fct c (s_logins s); (c2, m) = auth_foreach_sIds fct c1 ss
     in (c2, n + m))"

definition auth_foreach_sId ::
  "cstr \<Rightarrow> ('c \<Rightarrow> auth \<Rightarrow> 'c \<times> bool) \<Rightarrow> 'c \<Rightarrow> sIds list \<Rightarrow> 'c \<times> nat" where
  "auth_foreach_sId psId fct c root =
    (case psId of
       None \<Rightarrow> auth_foreach_sIds fct c root
     | Some k \<Rightarrow> (case auth_find s_sId (Some k) root of
                   None \<Rightarrow> (c, 0)
                 | Some s \<Rightarrow> auth_foreach_login fct c (s_logins s)))"

fun auth_foreach_dbs ::
  "cstr \<Rightarrow> ('c \<Rightarrow> auth \<Rightarrow> 'c \<times> bool) \<Rightarrow> 'c \<Rightarrow> dbs \<Rightarrow> 'c \<times> nat" where
  "auth_foreach_dbs sId fct c [] = (c, 0)"
| "auth_foreach_dbs sId fct c (d # ds) =
    (let (c1, n) = auth_foreach_sId sId fct c (d_sIds d); (c2, m) = auth_foreach_dbs sId fct c1 ds
     in (c2, n + m))"

definition auth_foreach ::
  "dbs \<Rightarrow> cstr \<Rightarrow> cstr \<Rightarrow> ('c \<Rightarrow> auth \<Rightarrow> 'c \<times> bool) \<Rightarrow> 'c \<Rightarrow> 'c \<times> nat" where
  "auth_foreach dbs dbId sId fct c =
    (case dbId of
       None \<Rightarrow> auth_foreach_dbs sId fct c dbs
     | Some k \<Rightarrow> (case auth_find d_dbId (Some k) dbs of
                   None \<Rightarrow> (c, 0)
                 | Some d \<Rightarrow> auth_foreach_sId sId fct c (d_sIds d)))"

text \<open>\<open>root.prev\<close> of a chain that is not empty is its last element.\<close>
definition last_of :: "'a list \<Rightarrow> 'a option" where
  "last_of xs = (if xs = [] then None else Some (last xs))"

definition auth_get_first :: "dbs \<Rightarrow> auth_key \<Rightarrow> auth option" where
  "auth_get_first dbs key =
    (case (case k_dbId key of None \<Rightarrow> last_of dbs | Some k \<Rightarrow> auth_find d_dbId (Some k) dbs) of
       None \<Rightarrow> None
     | Some d \<Rightarrow>
         (case (case k_sId key of None \<Rightarrow> last_of (d_sIds d)
                | Some k \<Rightarrow> auth_find s_sId (Some k) (d_sIds d)) of
            None \<Rightarrow> None
          | Some s \<Rightarrow> last_of (s_logins s)))"

text \<open>The successor in the circular list of the logins of a site, the head of the list skipped;
  \<open>NULL\<close> for the only login.\<close>
fun next_after :: "string \<Rightarrow> auth list \<Rightarrow> auth option" where
  "next_after login (a # b # rest) = (if a_login a = login then Some b else next_after login (b # rest))"
| "next_after login _ = None"

definition auth_get_next_from_auth :: "dbs \<Rightarrow> auth \<Rightarrow> auth option" where
  "auth_get_next_from_auth dbs a =
    (case sIds_at dbs (Some (a_dbId a)) (Some (a_sId a)) of
       None \<Rightarrow> None
     | Some s \<Rightarrow>
         (case next_after (a_login a) (s_logins s) of
            Some b \<Rightarrow> Some b
          | None \<Rightarrow> (case s_logins s of
                      [] \<Rightarrow> None
                    | h # _ \<Rightarrow> if a_login h = a_login a then None else Some h)))"

section \<open>Invariant\<close>

text \<open>The keys are unique at each of the three levels and an entry carries the names of the data
  base and of the site it is chained in.\<close>
definition logins_ok :: "string \<Rightarrow> sIds \<Rightarrow> bool" where
  "logins_ok dbId s \<longleftrightarrow>
    kuniq a_login (s_logins s) \<and>
    list_all (\<lambda>a. a_dbId a = dbId \<and> a_sId a = s_sId s) (s_logins s)"

definition db_ok :: "db \<Rightarrow> bool" where
  "db_ok d \<longleftrightarrow> kuniq s_sId (d_sIds d) \<and> list_all (logins_ok (d_dbId d)) (d_sIds d)"

definition auth_dbs_ok :: "dbs \<Rightarrow> bool" where
  "auth_dbs_ok dbs \<longleftrightarrow> kuniq d_dbId dbs \<and> list_all db_ok dbs"

text \<open>The entry of a data base, a site and a login.\<close>
definition auth_at :: "dbs \<Rightarrow> string \<times> string \<times> string \<Rightarrow> auth option" where
  "auth_at dbs k = auth_login_find dbs (Some (fst k)) (Some (fst (snd k))) (Some (snd (snd k)))"

definition auth_id :: "auth \<Rightarrow> string \<times> string \<times> string" where
  "auth_id a = (a_dbId a, a_sId a, a_login a)"

section \<open>The store interface\<close>

text \<open>
  What the coder and the session rely on: a store of entries by key, where an insertion never
  replaces an entry.
\<close>
locale keyed_store =
  fixes look :: "'m \<Rightarrow> 'k \<Rightarrow> 'v option"
    and add :: "'m \<Rightarrow> 'v \<Rightarrow> 'm \<times> bool"
    and del :: "'m \<Rightarrow> 'k \<Rightarrow> 'm"
    and ident :: "'v \<Rightarrow> 'k"
    and good :: "'m \<Rightarrow> bool"
  assumes add_good: "good m \<Longrightarrow> good (fst (add m v))"
    and del_good: "good m \<Longrightarrow> good (del m k)"
    and look_ident: "good m \<Longrightarrow> look m k = Some v \<Longrightarrow> ident v = k"
    and add_result: "good m \<Longrightarrow> snd (add m v) \<longleftrightarrow> look m (ident v) = None"
    and add_look: "good m \<Longrightarrow>
      look (fst (add m v)) k = (if k = ident v \<and> look m k = None then Some v else look m k)"
    and del_look: "good m \<Longrightarrow> look (del m k) k' = (if k' = k then None else look m k')"
begin

lemma adds_good: "good m \<Longrightarrow> good (foldl (\<lambda>m v. fst (add m v)) m vs)"
  by (induction vs arbitrary: m) (auto simp: add_good)

text \<open>Of several entries with the same key the one inserted first stays.\<close>
lemma adds_look:
  "good m \<Longrightarrow> look (foldl (\<lambda>m v. fst (add m v)) m vs) k =
    (case look m k of Some x \<Rightarrow> Some x | None \<Rightarrow> find (\<lambda>v. ident v = k) vs)"
proof (induction vs arbitrary: m)
  case (Cons v vs)
  thus ?case by (auto simp: add_good add_look split: option.split)
qed (simp split: option.split)

lemma add_del: "good m \<Longrightarrow> look m (ident v) = None \<Longrightarrow>
    look (del (fst (add m v)) (ident v)) k = look m k"
  by (simp add: add_good add_look del_look)

end

text \<open>A store in which a value can also take the place of the one under its key.\<close>
locale updatable_store = keyed_store +
  fixes put :: "'a \<Rightarrow> 'c \<Rightarrow> 'a"
  assumes put_good: "good m \<Longrightarrow> good (put m v)"
    and put_look: "good m \<Longrightarrow> look (put m v) k = (if k = ident v then Some v else look m k)"
begin

text \<open>Of several values with the same key the one put last stays.\<close>
lemma puts_look:
  "good m \<Longrightarrow> look (foldl put m vs) k =
    (case find (\<lambda>v. ident v = k) (rev vs) of Some x \<Rightarrow> Some x | None \<Rightarrow> look m k)"
proof (induction vs arbitrary: m rule: rev_induct)
  case (snoc v vs)
  have "good (foldl put m vs)" using snoc.prems by (induction vs rule: rev_induct) (auto simp: put_good)
  thus ?case using snoc by (simp add: put_look)
qed simp

end

section \<open>Lemmas\<close>

named_theorems auth_simps

lemma auth_find_Nil [simp]: "auth_find ident key [] = None"
  by (simp add: auth_find_def split: option.split)

lemma find_db_path [auth_simps]:
  "auth_find d_dbId (Some d') (auth_path pos dbs d s) =
    (if d' = d then Some (let x = (case auth_find d_dbId (Some d) dbs of None \<Rightarrow> auth_db_new d | Some x \<Rightarrow> x)
                          in x\<lparr> d_sIds := auth_sId_search pos (d_sIds x) s \<rparr>)
     else auth_find d_dbId (Some d') dbs)"
proof (cases "find (\<lambda>x. d_dbId x = d) dbs")
  case None
  hence "find (\<lambda>x. d_dbId x = k) (ins_at pos dbs (auth_db_new d)) =
      (if k = d then Some (auth_db_new d) else find (\<lambda>x. d_dbId x = k) dbs)" for k
    using find_ins [OF inserts_one_ins_at, of d_dbId "auth_db_new d" dbs k pos]
    by (simp add: auth_db_new_def)
  thus ?thesis using None
    by (simp add: auth_path_def auth_db_search_def auth_find_def find_kupd Let_def)
next
  case (Some x)
  thus ?thesis by (simp add: auth_path_def auth_db_search_def auth_find_def find_kupd Let_def)
qed

lemma find_sId_search [auth_simps]:
  "auth_find s_sId (Some s') (auth_sId_search pos ss s) =
    (if s' = s then Some (case auth_find s_sId (Some s) ss of None \<Rightarrow> auth_sId_new s | Some x \<Rightarrow> x)
     else auth_find s_sId (Some s') ss)"
proof (cases "find (\<lambda>x. s_sId x = s) ss")
  case None
  thus ?thesis
    using find_ins [OF inserts_one_ins_at, of s_sId "auth_sId_new s" ss s' pos]
    by (simp add: auth_sId_search_def auth_find_def auth_sId_new_def)
qed (simp add: auth_sId_search_def auth_find_def)

lemma sIds_at_path [auth_simps]:
  "sIds_at (auth_path pos dbs d s) (Some d') (Some s') =
    (if d' = d \<and> s' = s
     then Some (case sIds_at dbs (Some d) (Some s) of None \<Rightarrow> auth_sId_new s | Some x \<Rightarrow> x)
     else sIds_at dbs (Some d') (Some s'))"
proof (cases "auth_find d_dbId (Some d) dbs")
  case None
  thus ?thesis by (simp add: sIds_at_def auth_simps Let_def auth_db_new_def)
next
  case (Some y)
  thus ?thesis by (simp add: sIds_at_def auth_simps Let_def)
qed

lemma sIds_at_upd [auth_simps]:
  assumes "\<And>x. s_sId (f x) = s_sId x"
  shows "sIds_at (upd_sIds d s f dbs) (Some d') (Some s') =
    (if d' = d \<and> s' = s then map_option f (sIds_at dbs (Some d) (Some s))
     else sIds_at dbs (Some d') (Some s'))"
proof -
  have "find (\<lambda>x. d_dbId x = d') (upd_sIds d s f dbs) =
    (if d' = d then map_option (\<lambda>y. y\<lparr> d_sIds := kupd (\<lambda>x. s_sId x = s) f (d_sIds y) \<rparr>)
        (find (\<lambda>x. d_dbId x = d) dbs) else find (\<lambda>x. d_dbId x = d') dbs)"
    unfolding upd_sIds_def by (rule find_kupd) simp
  thus ?thesis
    by (auto simp: sIds_at_def auth_find_def find_kupd [where key = s_sId, OF assms] split: option.split)
qed

lemma auth_at_path [auth_simps]: "auth_at (auth_path pos dbs d s) k = auth_at dbs k"
  by (auto simp: auth_at_def auth_login_find_def sIds_at_path auth_sId_new_def auth_find_def
      split: option.split)

lemma sIds_name: "sIds_at dbs d (Some s) = Some x \<Longrightarrow> s_sId x = s"
  by (auto simp: sIds_at_def auth_find_def find_Some_iff split: option.splits)

lemma sIds_at_ok:
  assumes "auth_dbs_ok dbs" "sIds_at dbs (Some d) (Some s) = Some x"
  shows "logins_ok d x"
proof -
  from assms(2) obtain y where y: "find (\<lambda>z. d_dbId z = d) dbs = Some y"
      "find (\<lambda>z. s_sId z = s) (d_sIds y) = Some x"
    by (auto simp: sIds_at_def auth_find_def split: option.splits)
  have "y \<in> set dbs" "d_dbId y = d" "x \<in> set (d_sIds y)"
    using find_key_Some [OF y(1)] find_key_Some [OF y(2)] by auto
  thus ?thesis using assms(1) by (auto simp: auth_dbs_ok_def db_ok_def list_all_iff)
qed

lemma auth_at_ok: "auth_dbs_ok dbs \<Longrightarrow> auth_at dbs k = Some a \<Longrightarrow> auth_id a = k"
proof -
  assume ok: "auth_dbs_ok dbs" and a: "auth_at dbs k = Some a"
  obtain d s l where k: "k = (d, s, l)" by (cases k) auto
  from a obtain x where x: "sIds_at dbs (Some d) (Some s) = Some x"
      "find (\<lambda>z. a_login z = l) (s_logins x) = Some a"
    by (auto simp: auth_at_def auth_login_find_def auth_find_def k split: option.splits)
  have "a \<in> set (s_logins x)" "a_login a = l" using find_key_Some [OF x(2)] by auto
  thus ?thesis
    using sIds_at_ok [OF ok x(1)] sIds_name [OF x(1)] by (auto simp: auth_id_def k logins_ok_def list_all_iff)
qed

lemma db_ok_upd:
  assumes "\<And>x. s_sId (f x) = s_sId x"
    "\<And>x. find (\<lambda>x. s_sId x = s) (d_sIds y) = Some x \<Longrightarrow> logins_ok (d_dbId y) x \<Longrightarrow> logins_ok (d_dbId y) (f x)"
    "db_ok y"
  shows "db_ok (y\<lparr> d_sIds := kupd (\<lambda>x. s_sId x = s) f (d_sIds y) \<rparr>)"
proof -
  have "logins_ok (d_dbId y) x" if "x \<in> set (kupd (\<lambda>x. s_sId x = s) f (d_sIds y))" for x
  proof -
    consider "x \<in> set (d_sIds y)" | z where "find (\<lambda>x. s_sId x = s) (d_sIds y) = Some z" "x = f z"
      using set_kupd [OF \<open>x \<in> _\<close>] by blast
    thus ?thesis
      by cases (use assms find_key_Some in \<open>fastforce simp: db_ok_def list_all_iff\<close>)+
  qed
  thus ?thesis using assms(1,3) by (simp add: db_ok_def kuniq_kupd list_all_iff)
qed

lemma auth_dbs_ok_kupd:
  assumes "\<And>y. d_dbId (g y) = d_dbId y"
    "\<And>y. find (\<lambda>y. d_dbId y = d) dbs = Some y \<Longrightarrow> d_dbId y = d \<Longrightarrow> db_ok y \<Longrightarrow> db_ok (g y)"
    "auth_dbs_ok dbs"
  shows "auth_dbs_ok (kupd (\<lambda>y. d_dbId y = d) g dbs)"
proof -
  have "db_ok y" if "y \<in> set (kupd (\<lambda>y. d_dbId y = d) g dbs)" for y
  proof -
    consider "y \<in> set dbs" | z where "find (\<lambda>y. d_dbId y = d) dbs = Some z" "y = g z"
      using set_kupd [OF \<open>y \<in> _\<close>] by blast
    thus ?thesis
      by cases (use assms find_key_Some in \<open>fastforce simp: auth_dbs_ok_def list_all_iff\<close>)+
  qed
  thus ?thesis using assms(1,3) by (simp add: auth_dbs_ok_def kuniq_kupd list_all_iff)
qed

lemma auth_dbs_ok_upd:
  assumes "\<And>x. s_sId (f x) = s_sId x"
    "\<And>x. sIds_at dbs (Some d) (Some s) = Some x \<Longrightarrow> logins_ok d x \<Longrightarrow> logins_ok d (f x)"
    "auth_dbs_ok dbs"
  shows "auth_dbs_ok (upd_sIds d s f dbs)"
  unfolding upd_sIds_def
proof (rule auth_dbs_ok_kupd)
  fix y assume y: "find (\<lambda>y. d_dbId y = d) dbs = Some y" "d_dbId y = d" "db_ok y"
  show "db_ok (y\<lparr> d_sIds := kupd (\<lambda>x. s_sId x = s) f (d_sIds y) \<rparr>)"
    by (rule db_ok_upd) (use assms y in \<open>auto simp: sIds_at_def auth_find_def\<close>)
qed (use assms in simp_all)

lemma list_all_ins_at: "list_all P (ins_at pos xs x) \<longleftrightarrow> P x \<and> list_all P xs"
  using inserts_one_set [OF inserts_one_ins_at, of pos xs x] by (auto simp: list_all_iff)

lemma auth_dbs_ok_path: "auth_dbs_ok dbs \<Longrightarrow> auth_dbs_ok (auth_path pos dbs d s)"
proof -
  assume ok: "auth_dbs_ok dbs"
  have "auth_dbs_ok (auth_db_search pos dbs d)"
  proof (cases "find (\<lambda>x. d_dbId x = d) dbs")
    case None
    hence "find (\<lambda>x. d_dbId x = d_dbId (auth_db_new d)) dbs = None" by (simp add: auth_db_new_def)
    thus ?thesis using ok None
      by (auto simp: auth_db_search_def auth_find_def auth_dbs_ok_def list_all_ins_at
          intro: kuniq_ins) (simp add: db_ok_def auth_db_new_def kuniq_def)
  qed (use ok in \<open>simp add: auth_db_search_def auth_find_def\<close>)
  moreover have "db_ok (y\<lparr> d_sIds := auth_sId_search pos (d_sIds y) s \<rparr>)" if "db_ok y" for y
  proof (cases "find (\<lambda>x. s_sId x = s) (d_sIds y)")
    case None
    hence "find (\<lambda>x. s_sId x = s_sId (auth_sId_new s)) (d_sIds y) = None" by (simp add: auth_sId_new_def)
    thus ?thesis using that None
      by (auto simp: auth_sId_search_def auth_find_def db_ok_def list_all_ins_at intro: kuniq_ins)
        (simp add: logins_ok_def auth_sId_new_def kuniq_def)
  qed (use that in \<open>simp add: auth_sId_search_def auth_find_def\<close>)
  ultimately show ?thesis
    unfolding auth_path_def by (intro auth_dbs_ok_kupd) auto
qed
text \<open>Insertion of an entry under its own names.\<close>
definition auth_add :: "(nat \<Rightarrow> nat) \<Rightarrow> dbs \<Rightarrow> auth \<Rightarrow> dbs \<times> bool" where
  "auth_add pos dbs a = auth_insert pos dbs (a_dbId a) a"

definition key_of :: "string \<times> string \<times> string \<Rightarrow> auth_key" where
  "key_of k = auth_key_set (Some (fst k)) (Some (snd (snd k))) (Some (fst (snd k)))"

lemma auth_at_login: "auth_login_find dbs (Some d) (Some s) (Some l) = auth_at dbs (d, s, l)"
  by (simp add: auth_at_def)

lemma auth_find_by_key_at: "auth_find_by_key dbs (Some (key_of k)) = auth_at dbs k"
  by (simp add: auth_find_by_key_def key_of_def auth_key_set_def auth_at_def)

lemma sIds_at_path_same:
  "sIds_at (auth_path pos dbs d s) (Some d) (Some s) \<noteq> None"
  by (simp add: sIds_at_path)

lemma auth_at_insert:
  "auth_at (fst (auth_insert pos dbs d a)) k =
    (if k = (d, a_sId a, a_login a) \<and> auth_at dbs k = None then Some a else auth_at dbs k)"
proof (cases "auth_at dbs (d, a_sId a, a_login a)")
  case (Some b)
  thus ?thesis by (auto simp: auth_insert_def Let_def auth_at_login auth_at_path)
next
  case None
  let ?m = "auth_path pos dbs d (a_sId a)"
  have none: "auth_at ?m (d, a_sId a, a_login a) = None" using None by (simp add: auth_at_path)
  obtain x where x: "sIds_at ?m (Some d) (Some (a_sId a)) = Some x" using sIds_at_path_same by blast
  have free: "find (\<lambda>z. a_login z = a_login a) (s_logins x) = None"
    using none x by (simp add: auth_at_def auth_login_find_def auth_find_def)
  have "auth_at (upd_sIds d (a_sId a) (auth_login_insert pos a) ?m) k =
      (if k = (d, a_sId a, a_login a) then Some a else auth_at ?m k)"
    using x find_ins [OF inserts_one_ins_at free]
    by (cases k) (auto simp: auth_at_def auth_login_find_def sIds_at_upd auth_login_insert_def
        auth_find_def split: option.splits)
  thus ?thesis using None none
    by (simp add: auth_insert_def Let_def auth_at_login auth_at_path)
qed

lemma auth_insert_result: "snd (auth_insert pos dbs d a) \<longleftrightarrow> auth_at dbs (d, a_sId a, a_login a) = None"
  by (simp add: auth_insert_def Let_def auth_at_login auth_at_path split: option.split)

lemma auth_insert_ok:
  assumes "auth_dbs_ok dbs" "a_dbId a = d"
  shows "auth_dbs_ok (fst (auth_insert pos dbs d a))"
proof (cases "auth_at dbs (d, a_sId a, a_login a)")
  case None
  let ?m = "auth_path pos dbs d (a_sId a)"
  have "auth_at ?m (d, a_sId a, a_login a) = None" using None by (simp add: auth_at_path)
  hence free: "find (\<lambda>z. a_login z = a_login a) (s_logins x) = None"
    if "sIds_at ?m (Some d) (Some (a_sId a)) = Some x" for x
    using that by (simp add: auth_at_def auth_login_find_def auth_find_def)
  have "auth_dbs_ok (upd_sIds d (a_sId a) (auth_login_insert pos a) ?m)"
  proof (rule auth_dbs_ok_upd)
    fix x assume x: "sIds_at ?m (Some d) (Some (a_sId a)) = Some x" "logins_ok d x"
    show "logins_ok d (auth_login_insert pos a x)"
      using x(2) assms(2) sIds_name [OF x(1)] kuniq_ins [OF inserts_one_ins_at free [OF x(1)]]
      by (simp add: logins_ok_def auth_login_insert_def list_all_ins_at)
  qed (simp_all add: auth_login_insert_def auth_dbs_ok_path assms(1))
  thus ?thesis using None by (simp add: auth_insert_def Let_def auth_at_login auth_at_path)
qed (use auth_dbs_ok_path [OF assms(1)] in \<open>simp add: auth_insert_def Let_def auth_at_login auth_at_path\<close>)

lemma kuniq_kupd_found:
  "kuniq key xs \<Longrightarrow> (\<And>x. find (\<lambda>x. key x = k) xs = Some x \<Longrightarrow> key (f x) = k) \<Longrightarrow>
   kuniq key (kupd (\<lambda>x. key x = k) f xs)"
proof -
  assume u: "kuniq key xs" and f: "\<And>x. find (\<lambda>x. key x = k) xs = Some x \<Longrightarrow> key (f x) = k"
  have "map key (kupd (\<lambda>x. key x = k) f xs) = map key xs" using f by (induction xs) auto
  thus ?thesis using u by (simp add: kuniq_def)
qed

text \<open>Modification in place of an entry whose names the modification keeps.\<close>
lemma logins_ok_map:
  assumes "\<And>b. find (\<lambda>a. a_login a = l) (s_logins x) = Some b \<Longrightarrow> auth_id (f b) = (d, s_sId x, l)"
    "logins_ok d x"
  shows "logins_ok d (x\<lparr> s_logins := kupd (\<lambda>a. a_login a = l) f (s_logins x) \<rparr>)"
proof -
  have "a_dbId b = d \<and> a_sId b = s_sId x" if "b \<in> set (kupd (\<lambda>a. a_login a = l) f (s_logins x))" for b
    using set_kupd [OF that] assms by (auto simp: logins_ok_def list_all_iff auth_id_def)
  moreover have "kuniq a_login (kupd (\<lambda>a. a_login a = l) f (s_logins x))"
    by (rule kuniq_kupd_found) (use assms in \<open>auto simp: logins_ok_def auth_id_def\<close>)
  ultimately show ?thesis by (simp add: logins_ok_def list_all_iff)
qed

lemma upd_auth_ok:
  assumes "\<And>b. auth_at dbs (d, s, l) = Some b \<Longrightarrow> auth_id (f b) = (d, s, l)" "auth_dbs_ok dbs"
  shows "auth_dbs_ok (upd_auth d s l f dbs)"
  unfolding upd_auth_def
proof (rule auth_dbs_ok_upd)
  fix x assume x: "sIds_at dbs (Some d) (Some s) = Some x" "logins_ok d x"
  show "logins_ok d (x\<lparr> s_logins := kupd (\<lambda>a. a_login a = l) f (s_logins x) \<rparr>)"
    by (rule logins_ok_map)
      (use assms(1) x sIds_name [OF x(1)] in \<open>auto simp: auth_at_def auth_login_find_def auth_find_def\<close>)
qed (simp_all add: assms(2))

lemma auth_at_upd_auth:
  assumes "\<And>b. auth_at dbs (d, s, l) = Some b \<Longrightarrow> a_login (f b) = l"
  shows "auth_at (upd_auth d s l f dbs) k =
    (if k = (d, s, l) then map_option f (auth_at dbs k) else auth_at dbs k)"
proof (cases "sIds_at dbs (Some d) (Some s)")
  case (Some x)
  have "a_login (f b) = l" if "find (\<lambda>a. a_login a = l) (s_logins x) = Some b" for b
    using assms Some that by (simp add: auth_at_def auth_login_find_def auth_find_def)
  thus ?thesis using Some
    by (cases k) (auto simp: auth_at_def auth_login_find_def upd_auth_def sIds_at_upd auth_find_def
      find_kupd_found [where key = a_login] split: option.split)
qed (cases k, auto simp: auth_at_def auth_login_find_def upd_auth_def sIds_at_upd)

lemma auth_free_ok: "auth_dbs_ok dbs \<Longrightarrow> auth_dbs_ok (auth_free dbs d s l)"
  unfolding auth_free_def
proof (rule auth_dbs_ok_upd)
  fix x assume "logins_ok d x"
  thus "logins_ok d (x\<lparr> s_logins := ldc_unlink (\<lambda>a. a_login a = l) (s_logins x) \<rparr>)"
    using set_unlink [of "\<lambda>a. a_login a = l" "s_logins x"]
    by (auto simp: logins_ok_def kuniq_unlink list_all_iff)
qed simp_all

lemma auth_at_free:
  assumes "auth_dbs_ok dbs"
  shows "auth_at (auth_free dbs d s l) k = (if k = (d, s, l) then None else auth_at dbs k)"
proof -
  have "kuniq a_login (s_logins x)" if "sIds_at dbs (Some d) (Some s) = Some x" for x
    using sIds_at_ok [OF assms that] by (simp add: logins_ok_def)
  thus ?thesis
    by (cases k) (auto simp: auth_at_def auth_login_find_def auth_free_def sIds_at_upd auth_find_def
        find_unlink split: option.split)
qed

lemma auth_delete_at:
  assumes "auth_dbs_ok dbs"
  shows "auth_dbs_ok (auth_delete_by_key dbs (Some (key_of k)))"
    and "auth_at (auth_delete_by_key dbs (Some (key_of k))) k' = (if k' = k then None else auth_at dbs k')"
proof -
  obtain d s l where k: "k = (d, s, l)" by (cases k) auto
  have *: "auth_delete_by_key dbs (Some (key_of k)) =
     (case auth_at dbs k of None \<Rightarrow> dbs | Some a \<Rightarrow> auth_free dbs d s (a_login a))"
    by (simp only: auth_delete_by_key_def auth_find_by_key_at option.sel)
      (simp add: key_of_def auth_key_set_def k split: option.split)
  have "a_login a = l" if "auth_at dbs k = Some a" for a
    using auth_at_ok [OF assms that] by (simp add: auth_id_def k)
  hence "auth_delete_by_key dbs (Some (key_of k)) =
     (case auth_at dbs k of None \<Rightarrow> dbs | Some a \<Rightarrow> auth_free dbs d s l)"
    unfolding * by (simp split: option.split)
  thus "auth_dbs_ok (auth_delete_by_key dbs (Some (key_of k)))"
    and "auth_at (auth_delete_by_key dbs (Some (key_of k))) k' = (if k' = k then None else auth_at dbs k')"
    using assms by (simp_all add: auth_free_ok auth_at_free k split: option.split)
qed

interpretation auth: keyed_store auth_at "auth_add pos" "\<lambda>m k. auth_delete_by_key m (Some (key_of k))"
  auth_id auth_dbs_ok for pos
proof (unfold_locales, goal_cases)
  case (3 m k v)
  thus ?case by (rule auth_at_ok)
qed (auto simp: auth_add_def auth_insert_ok auth_at_insert auth_insert_result auth_delete_at auth_id_def)

lemma logins_ok_replace:
  assumes "logins_ok d x" "a_dbId a = d" "a_sId a = s_sId x"
  shows "logins_ok d (auth_login_insert pos a
    (x\<lparr> s_logins := ldc_unlink (\<lambda>b. a_login b = a_login a) (s_logins x) \<rparr>))"
proof -
  let ?ls = "ldc_unlink (\<lambda>b. a_login b = a_login a) (s_logins x)"
  have u: "kuniq a_login (s_logins x)" using assms(1) by (simp add: logins_ok_def)
  have "kuniq a_login (ins_at pos ?ls a)"
    by (rule kuniq_ins) (simp_all add: find_unlink [OF u] kuniq_unlink [OF u])
  moreover have "list_all (\<lambda>b. a_dbId b = d \<and> a_sId b = s_sId x) ?ls"
    using assms(1) set_unlink [of "\<lambda>b. a_login b = a_login a" "s_logins x"]
    unfolding logins_ok_def list_all_iff by blast
  ultimately show ?thesis
    using assms(2,3) by (simp add: logins_ok_def auth_login_insert_def list_all_ins_at)
qed

lemma auth_insert_or_update_ok:
  assumes "auth_dbs_ok dbs" "a_dbId a = d"
  shows "auth_dbs_ok (auth_insert_or_update pos dbs d a)"
  unfolding auth_insert_or_update_def Let_def
proof (rule auth_dbs_ok_upd)
  fix x assume x: "sIds_at (auth_path pos dbs d (a_sId a)) (Some d) (Some (a_sId a)) = Some x"
    "logins_ok d x"
  show "logins_ok d (auth_login_insert pos a
      (x\<lparr> s_logins := ldc_unlink (\<lambda>b. a_login b = a_login a) (s_logins x) \<rparr>))"
    by (rule logins_ok_replace [OF x(2) assms(2)]) (simp add: sIds_name [OF x(1)])
next
  show "auth_dbs_ok (auth_path pos dbs d (a_sId a))" by (rule auth_dbs_ok_path [OF assms(1)])
qed (simp add: auth_login_insert_def)

lemma auth_insert_or_update_at:
  assumes "auth_dbs_ok dbs"
  shows "auth_at (auth_insert_or_update pos dbs d a) k =
    (if k = (d, a_sId a, a_login a) then Some a else auth_at dbs k)"
proof -
  let ?m = "auth_path pos dbs d (a_sId a)"
  let ?f = "\<lambda>s. auth_login_insert pos a (s\<lparr> s_logins := ldc_unlink (\<lambda>z. a_login z = a_login a) (s_logins s) \<rparr>)"
  obtain x where x: "sIds_at ?m (Some d) (Some (a_sId a)) = Some x" using sIds_at_path_same by blast
  have u: "kuniq a_login (s_logins x)"
    using sIds_at_ok [OF auth_dbs_ok_path [OF assms] x] by (simp add: logins_ok_def)
  let ?ls = "ldc_unlink (\<lambda>z. a_login z = a_login a) (s_logins x)"
  have free: "find (\<lambda>z. a_login z = a_login a) ?ls = None" by (simp add: find_unlink [OF u])
  have "auth_at (upd_sIds d (a_sId a) ?f ?m) k =
      (if k = (d, a_sId a, a_login a) then Some a else auth_at ?m k)"
    using x find_ins [OF inserts_one_ins_at free] find_unlink [OF u]
    by (cases k) (auto simp: auth_at_def auth_login_find_def sIds_at_upd auth_login_insert_def
        auth_find_def split: option.splits)
  thus ?thesis by (simp add: auth_insert_or_update_def Let_def auth_at_path)
qed

interpretation auth_put: updatable_store auth_at "auth_add pos" "\<lambda>m k. auth_delete_by_key m (Some (key_of k))"
  auth_id auth_dbs_ok "\<lambda>m a. auth_insert_or_update pos m (a_dbId a) a" for pos
  by unfold_locales (simp_all add: auth_insert_or_update_ok auth_insert_or_update_at auth_id_def)

lemma auth_blank_ids: "key_full k \<Longrightarrow> Some (a_dbId (auth_blank now k)) = k_dbId k \<and>
    Some (a_sId (auth_blank now k)) = k_sId k \<and> Some (a_login (auth_blank now k)) = k_login k \<and>
    a_login (auth_blank now k) \<noteq> [] \<and> a_sId (auth_blank now k) \<noteq> []"
  by (auto simp: auth_blank_def auth_body_def key_full_def Let_def split: option.splits)

text \<open>Find or create: total on every key, and on a full key the entry is there afterwards.\<close>
lemma auth_search_by_key_result:
  assumes "key_full key"
  shows "\<exists>dbs1 a. auth_search_by_key pos now dbs key = Inr (dbs1, Some a) \<and>
    (let k = (the (k_dbId key), the (k_sId key), the (k_login key))
     in a = (case auth_at dbs k of Some b \<Rightarrow> b | None \<Rightarrow> auth_blank now key) \<and>
        (\<forall>k'. auth_at dbs1 k' = (if k' = k then Some a else auth_at dbs k')) \<and>
        (auth_dbs_ok dbs \<longrightarrow> auth_dbs_ok dbs1))"
proof -
  obtain d s l where k: "k_dbId key = Some d" "k_sId key = Some s" "k_login key = Some l"
    using assms by (auto simp: key_full_def split: option.splits)
  have b: "a_dbId (auth_blank now key) = d" "a_sId (auth_blank now key) = s"
      "a_login (auth_blank now key) = l" "l \<noteq> []" "s \<noteq> []"
    using auth_blank_ids [OF assms, of now] assms by (auto simp: k key_full_def)
  show ?thesis
  proof (cases "auth_at dbs (d, s, l)")
    case None
    thus ?thesis using assms b
      by (auto simp: auth_search_by_key_def Let_def k auth_at_login auth_at_path auth_new_def
          auth_at_insert auth_insert_ok auth_dbs_ok_path)
  next
    case (Some a)
    thus ?thesis using assms
      by (auto simp: auth_search_by_key_def Let_def k auth_at_login auth_at_path auth_dbs_ok_path)
  qed
qed

section \<open>Properties\<close>

text \<open>C14. The authentication base is a map keyed by data base, site and login: inserting an entry
  makes it found under its key when the key was free and changes no other lookup, a refused
  insertion changes none at all, replacing an entry puts the new one under its key, free or not, and
  deleting a key removes this key; neither changes another lookup, and the keys stay unique.\<close>
theorem auth_base_is_a_map:
  assumes "auth_dbs_ok dbs"
  shows "auth_at (fst (auth_add pos dbs a)) k =
      (if k = auth_id a \<and> auth_at dbs k = None then Some a else auth_at dbs k) \<and>
    (snd (auth_add pos dbs a) \<longleftrightarrow> auth_at dbs (auth_id a) = None) \<and>
    auth_at (auth_delete_by_key dbs (Some (key_of k))) k' = (if k' = k then None else auth_at dbs k') \<and>
    auth_dbs_ok (fst (auth_add pos dbs a)) \<and> auth_dbs_ok (auth_delete_by_key dbs (Some (key_of k))) \<and>
    auth_dbs_ok (auth_insert_or_update pos dbs (a_dbId a) a) \<and>
    auth_at (auth_insert_or_update pos dbs (a_dbId a) a) k = (if k = auth_id a then Some a else auth_at dbs k)"
  using auth.add_look [OF assms] auth.add_result [OF assms] auth.del_look [OF assms]
    auth.add_good [OF assms] auth.del_good [OF assms] auth_put.put_good [OF assms] auth_put.put_look [OF assms]
  by simp

theorem auth_base_is_a_map_witness:
  "auth_at (fst (auth_add (\<lambda>n. n) [] (auth_blank (0, 0) (auth_key_set (Some ''to'') (Some ''bob'') (Some ''S1'')))))
     (''to'', ''S1'', ''bob'') \<noteq> None"
proof -
  have "auth_dbs_ok []" by (simp add: auth_dbs_ok_def kuniq_def)
  note auth_base_is_a_map [OF this, THEN conjunct1,
      of "\<lambda>n. n" "auth_blank (0, 0) (auth_key_set (Some ''to'') (Some ''bob'') (Some ''S1''))"
         "(''to'', ''S1'', ''bob'')"]
  thus ?thesis
    by (simp add: auth_id_def auth_blank_def auth_key_set_def auth_body_def Let_def)
qed

text \<open>Loading entries one after the other keeps, for each key, the entry the base had, or else
  the first one loaded under this key: later duplicates never replace it.\<close>
lemma auth_first_insertion_wins:
  assumes "auth_dbs_ok dbs"
  shows "auth_at (foldl (\<lambda>m a. fst (auth_add pos m a)) dbs as) k =
    (case auth_at dbs k of Some x \<Rightarrow> Some x | None \<Rightarrow> find (\<lambda>a. auth_id a = k) as)"
  using auth.adds_look [OF assms] .

lemma auth_first_insertion_wins_witness:
  "auth_at (foldl (\<lambda>m a. fst (auth_add (\<lambda>n. 0) m a)) []
      [auth_body (0, 0) ''to'' ''bob'' ''S1'' (Some [1]) 1 None True None 0 False,
       auth_body (9, 9) ''to'' ''bob'' ''S1'' (Some [2]) 1 None True None 0 False]) (''to'', ''S1'', ''bob'') =
   Some (auth_body (0, 0) ''to'' ''bob'' ''S1'' (Some [1]) 1 None True None 0 False)"
proof -
  have "auth_dbs_ok []" by (simp add: auth_dbs_ok_def kuniq_def)
  moreover have "auth_at [] k = None" for k
    by (simp add: auth_at_def auth_login_find_def sIds_at_def)
  ultimately show ?thesis
    by (subst auth_first_insertion_wins) (simp_all add: auth_id_def auth_body_def Let_def)
qed

end
