(* ===== verification/AuthFile.thy ===== *)
theory AuthFile
  imports AuthDb
begin

text \<open>
  Model of the saving and loading of the authentication base (\<open>auth_write\<close>, \<open>auth_db_serialize\<close>,
  \<open>auth_unserialize_from_file\<close> of \<open>auth/auth-basic.c\<close>, \<open>auth/auth-db.c\<close>).  A line holds nine
  columns separated by semicolons.  The text of a date (\<open>fmt\<close>), the reading of a date (\<open>parse\<close>)
  and the cutting of a line into columns (\<open>dp\<close>, the function \<open>decodeparam\<close> of \<open>ioprintf\<close>) are
  parameters.  A file that cannot be opened or mapped is \<open>None\<close>.
\<close>

section \<open>Writing\<close>

fun dec_string :: "nat \<Rightarrow> string" where
  "dec_string n = (if n < 10 then [char_of (48 + n)] else dec_string (n div 10) @ [char_of (48 + n mod 10)])"

declare dec_string.simps [simp del]

text \<open>The column of a password: \<open>$0$\<close> and its hexadecimal text, or a star.\<close>
definition pwd_column :: "bool \<Rightarrow> auth_pwd \<Rightarrow> string" where
  "pwd_column wanted p =
    (let txt = (if wanted \<and> blen p \<noteq> 0
                then (case bbuf p of Some bs \<Rightarrow> bcd_encode_sep (take (blen p) bs) (CHR 0x00) | None \<Rightarrow> None)
                else None)
     in case txt of Some t \<Rightarrow> ''$0$'' @ t | None \<Rightarrow> ''*'')"

definition auth_columns :: "(horodate \<Rightarrow> string) \<Rightarrow> nat \<Rightarrow> auth \<Rightarrow> string list" where
  "auth_columns fmt n a =
    [dec_string n, a_dbId a, a_login a, a_sId a, pwd_column True (a_pwd a),
     (if a_active a then ''1'' else ''0''), fmt (a_timestamp a),
     pwd_column (a_new_pwd_pending a) (a_new_pwd a),
     (if a_new_pwd_pending a then ''1'' else ''0'')]"

fun join_columns :: "string list \<Rightarrow> string" where
  "join_columns [] = []"
| "join_columns [c] = c"
| "join_columns (c # cs) = c @ CHR '';'' # join_columns cs"

text \<open>The context is the text written so far and the line number.\<close>
definition auth_write :: "(horodate \<Rightarrow> string) \<Rightarrow> string \<times> nat \<Rightarrow> auth \<Rightarrow> (string \<times> nat) \<times> bool" where
  "auth_write fmt c a =
    ((fst c @ join_columns (auth_columns fmt (snd c + 1) a) @ [CHR 0x0A], snd c + 1), True)"

definition auth_db_serialize :: "(horodate \<Rightarrow> string) \<Rightarrow> dbs \<Rightarrow> (string \<times> nat) \<times> nat" where
  "auth_db_serialize fmt dbs = auth_foreach dbs None None (auth_write fmt) ([], 0)"

text \<open>A file that is there is not cut when it is opened: what was behind the new text stays.\<close>
definition overwrite :: "cstr \<Rightarrow> string \<Rightarrow> string" where
  "overwrite old text = (case old of None \<Rightarrow> text | Some s \<Rightarrow> text @ drop (length text) s)"

text \<open>The file afterwards; the result of the write is never stored: the function returns -1 in every case.\<close>
definition auth_serialize_to_file :: "(horodate \<Rightarrow> string) \<Rightarrow> dbs \<Rightarrow> cstr \<Rightarrow> bool \<Rightarrow> cstr \<times> int" where
  "auth_serialize_to_file fmt dbs old can_open =
    (if can_open then (Some (overwrite old (fst (fst (auth_db_serialize fmt dbs)))), -1) else (old, -1))"

section \<open>Loading\<close>

text \<open>\<open>strtok_r\<close> with the newline: the non-empty pieces.\<close>
definition file_lines :: "string \<Rightarrow> string list" where
  "file_lines s =
    (let step = (\<lambda>c acc. if c = CHR 0x0A then [] # acc
                         else case acc of [] \<Rightarrow> [[c]] | w # ws \<Rightarrow> (c # w) # ws)
     in filter (\<lambda>w. w \<noteq> []) (foldr step s [[]]))"

text \<open>\<open>isdigit(*s) && atoi(s)\<close>.\<close>
definition flag_column :: "string \<Rightarrow> bool" where
  "flag_column s \<longleftrightarrow> (case s of [] \<Rightarrow> False
     | c # _ \<Rightarrow> is_digit c \<and> list_ex (\<lambda>d. d \<noteq> CHR ''0'') (takeWhile is_digit s))"

definition auth_check_db :: "string \<Rightarrow> bool" where
  "auth_check_db d \<longleftrightarrow> d = ''from'' \<or> d = ''to''"

definition line_timestamp :: "(string \<Rightarrow> horodate) \<Rightarrow> string \<Rightarrow> horodate" where
  "line_timestamp parse col = (if length col \<ge> 19 then parse col else (0, 0))"

text \<open>A password read from the file replaces the one of the entry when it differs.\<close>
definition pwd_replace :: "rand \<Rightarrow> auth_pwd \<Rightarrow> auth_pwd \<Rightarrow> auth_pwd run" where
  "pwd_replace r old new =
    rbind (auth_pwd_same old new) (\<lambda>same. Inr (if same then old else auth_pwd_cpy r old new))"

text \<open>The columns \<open>new_pwd\<close> and \<open>new_one_pending\<close>, read on full lines only.\<close>
definition line_pending :: "rand \<Rightarrow> string list \<Rightarrow> auth \<Rightarrow> auth run" where
  "line_pending r argv a =
    (if length argv = 9 \<and> flag_column (argv ! 8)
     then rbind (auth_pwd_decode r auth_pwd_null (argv ! 7)) (\<lambda>np.
            case np of
              None \<Rightarrow> Inr a
            | Some q \<Rightarrow> rbind (pwd_replace r (a_new_pwd a) q) (\<lambda>p.
                Inr (a\<lparr> a_new_pwd := p, a_new_pwd_pending := True \<rparr>)))
     else Inr a)"

text \<open>What the line does to its entry; the column \<open>active\<close> is not read.\<close>
definition line_entry :: "rand \<Rightarrow> string list \<Rightarrow> auth_pwd \<Rightarrow> horodate \<Rightarrow> auth \<Rightarrow> auth run" where
  "line_entry r argv pwd ts a =
    rbind (line_pending r argv a) (\<lambda>a1.
    rbind (pwd_replace r (a_pwd a1) pwd) (\<lambda>p.
      Inr (a1\<lparr> a_pwd := p, a_active := True, a_timestamp := ts \<rparr>)))"

text \<open>One line: the base afterwards and whether an entry was loaded.\<close>
definition load_line ::
  "(nat \<Rightarrow> nat) \<Rightarrow> rand \<Rightarrow> (string \<Rightarrow> horodate) \<Rightarrow> horodate \<Rightarrow> dbs \<Rightarrow> string list \<Rightarrow> (dbs \<times> bool) run" where
  "load_line pos r parse now dbs argv =
    (if length argv < 7 \<or> \<not> auth_check_db (argv ! 1) then Inr (dbs, False)
     else let ts = line_timestamp parse (argv ! 6)
          in if fst ts < 0 \<or> snd ts < 0 then Inr (dbs, False)
             else rbind (auth_pwd_decode r auth_pwd_null (argv ! 4)) (\<lambda>pwd.
               case pwd of
                 None \<Rightarrow> Inr (dbs, False)
               | Some p \<Rightarrow>
                   rbind (auth_search_by_key pos now dbs
                     (auth_key_set (Some (argv ! 1)) (Some (argv ! 2)) (Some (argv ! 3)))) (\<lambda>(dbs1, item).
                   case item of
                     None \<Rightarrow> Inr (dbs1, False)
                   | Some a \<Rightarrow>
                       rbind (line_entry r argv p ts a) (\<lambda>a1.
                         Inr (upd_auth (argv ! 1) (argv ! 3) (argv ! 2) (\<lambda>_. a1) dbs1, True)))))"

fun load_lines ::
  "(nat \<Rightarrow> nat) \<Rightarrow> rand \<Rightarrow> (string \<Rightarrow> horodate) \<Rightarrow> (string \<Rightarrow> string list) \<Rightarrow> horodate \<Rightarrow>
   string list \<Rightarrow> dbs \<Rightarrow> int \<Rightarrow> (dbs \<times> int) run" where
  "load_lines pos r parse dp now [] dbs ret = Inr (dbs, ret)"
| "load_lines pos r parse dp now (l # ls) dbs ret =
    rbind (load_line pos r parse now dbs (dp l)) (\<lambda>(dbs1, ok).
      load_lines pos r parse dp now ls dbs1 (if ok then ret + 1 else ret))"

text \<open>The text is taken as a C string from a mapping of the file: only a last page that is not full has a NUL
  behind the text.\<close>
definition PAGE_SIZE :: nat where "PAGE_SIZE = 4096"

definition auth_unserialize_from_file ::
  "(nat \<Rightarrow> nat) \<Rightarrow> rand \<Rightarrow> (string \<Rightarrow> horodate) \<Rightarrow> (string \<Rightarrow> string list) \<Rightarrow> horodate \<Rightarrow>
   string option \<Rightarrow> dbs \<Rightarrow> (dbs \<times> int) run" where
  "auth_unserialize_from_file pos r parse dp now file dbs =
    (case file of
       None \<Rightarrow> Inr (dbs, -1)
     | Some [] \<Rightarrow> Inr (dbs, -1)
     | Some s \<Rightarrow>
         if length s mod PAGE_SIZE = 0 then Inl Read_oob
         else load_lines pos r parse dp now (file_lines s) dbs 0)"

section \<open>Lemmas\<close>

text \<open>The documented behaviour of the cutting of a line the loading relies on.\<close>
definition cuts_columns :: "(string \<Rightarrow> string list) \<Rightarrow> bool" where
  "cuts_columns dp \<longleftrightarrow>
    (\<forall>cs. cs \<noteq> [] \<and> (\<forall>c\<in>set cs. c \<noteq> [] \<and> CHR '';'' \<notin> set c) \<longrightarrow> dp (join_columns cs) = cs)"

lemma pwd_replace_null:
  "1 \<le> length bs \<Longrightarrow> pwd_replace r auth_pwd_null (blob_of bs) = Inr (blob_of bs)"
  by (cases bs) (simp_all add: pwd_replace_def auth_pwd_same_def auth_pwd_null_def blob_of_def
      auth_pwd_cpy_def auth_pwd_set_def auth_pwd_release_def)

lemma pwd_column_decode:
  assumes "AUTH_PWD_LEN_MIN \<le> length bs"
  shows "auth_pwd_decode r pwd (pwd_column True (blob_of bs)) = Inr (Some (blob_of bs))"
proof -
  have ne: "bs \<noteq> []" using assms by (auto simp: AUTH_PWD_LEN_MIN_def)
  then obtain t where t: "bcd_encode_sep bs (CHR 0x00) = Some t" using bcd_encode_nul by blast
  have h: "list_all isxdigit t" "t \<noteq> []"
    using bcd_encode_nul [OF ne] t bcd_plain_hex [of bs] length_bcd_plain [of bs] ne by auto
  hence "t ! 0 \<noteq> CHR ''*''" using star_not_hex by (cases t) auto
  thus ?thesis
    using auth_pwd_from_hex_encode [OF assms, of r pwd] t ne
    by (simp add: pwd_column_def blob_of_def [of bs] Let_def auth_pwd_decode_def)
qed

lemma pwd_column_star: "bbuf p = None \<Longrightarrow> pwd_column w p = ''*''"
  by (simp add: pwd_column_def Let_def)

lemma auth_pwd_decode_star [simp]: "auth_pwd_decode r pwd ''*'' = Inr None"
  by (simp add: auth_pwd_decode_def)


text \<open>The entry a line gives back: active, and with its pending password only.\<close>
definition reloaded :: "auth \<Rightarrow> auth" where
  "reloaded a = a\<lparr> a_active := True, a_secrets := [],
     a_new_pwd := (if a_new_pwd_pending a then a_new_pwd a else auth_pwd_null) \<rparr>"

text \<open>An entry a file can carry: names, passwords and dates the loading accepts.\<close>
definition storable :: "(horodate \<Rightarrow> string) \<Rightarrow> (string \<Rightarrow> horodate) \<Rightarrow> auth \<Rightarrow> bool" where
  "storable fmt parse a \<longleftrightarrow>
    auth_check_db (a_dbId a) \<and> a_login a \<noteq> [] \<and> a_sId a \<noteq> [] \<and>
    (\<exists>bs. a_pwd a = blob_of bs \<and> AUTH_PWD_LEN_MIN \<le> length bs) \<and>
    (a_new_pwd_pending a \<longrightarrow> (\<exists>bs. a_new_pwd a = blob_of bs \<and> AUTH_PWD_LEN_MIN \<le> length bs)) \<and>
    19 \<le> length (fmt (a_timestamp a)) \<and> parse (fmt (a_timestamp a)) = a_timestamp a \<and>
    0 \<le> fst (a_timestamp a) \<and> 0 \<le> snd (a_timestamp a) \<and>
    CHR '';'' \<notin> set (a_login a) \<and> CHR '';'' \<notin> set (a_sId a) \<and> CHR '';'' \<notin> set (fmt (a_timestamp a))"

lemma line_entry_columns:
  assumes "storable fmt parse a" "a_pwd b = auth_pwd_null" "a_new_pwd b = auth_pwd_null"
    "a_new_pwd_pending b = False" "auth_id b = auth_id a" "a_secrets b = []"
    "a_pwd a = blob_of bs"
  shows "line_entry r (auth_columns fmt n a) (a_pwd a) (a_timestamp a) b = Inr (reloaded a)"
proof -
  have id: "a_dbId b = a_dbId a" "a_login b = a_login a" "a_sId b = a_sId a"
    using assms(5) by (simp_all add: auth_id_def)
  have bs: "1 \<le> length bs" using assms(1,7)
    by (auto simp: storable_def blob_of_def AUTH_PWD_LEN_MIN_def)
  have pend: "line_pending r (auth_columns fmt n a) b =
     Inr (if a_new_pwd_pending a then b\<lparr> a_new_pwd := a_new_pwd a, a_new_pwd_pending := True \<rparr> else b)"
  proof (cases "a_new_pwd_pending a")
    case True
    then obtain ns where ns: "a_new_pwd a = blob_of ns" "AUTH_PWD_LEN_MIN \<le> length ns"
      using assms(1) by (auto simp: storable_def)
    have "1 \<le> length ns" using ns(2) by (simp add: AUTH_PWD_LEN_MIN_def)
    thus ?thesis using True ns assms(3) pwd_column_decode [OF ns(2), of r auth_pwd_null]
      by (simp add: line_pending_def auth_columns_def flag_column_def is_digit_def pwd_replace_null)
  qed (simp add: line_pending_def auth_columns_def flag_column_def is_digit_def)
  show ?thesis
    using assms(2-4,6) bs id
    by (auto simp: line_entry_def pend pwd_replace_null assms(7) reloaded_def intro!: auth.equality)
qed

lemma auth_columns_nth [simp]:
  "length (auth_columns fmt n a) = 9" "auth_columns fmt n a ! Suc 0 = a_dbId a"
  "auth_columns fmt n a ! 2 = a_login a" "auth_columns fmt n a ! 3 = a_sId a"
  "auth_columns fmt n a ! 4 = pwd_column True (a_pwd a)"
  "auth_columns fmt n a ! 6 = fmt (a_timestamp a)"
  by (simp_all add: auth_columns_def)

lemma key_full_set: "a \<noteq> [] \<Longrightarrow> b \<noteq> [] \<Longrightarrow> c \<noteq> [] \<Longrightarrow> key_full (auth_key_set (Some a) (Some b) (Some c))"
  by (simp add: key_full_def auth_key_set_def)

lemma load_line_columns:
  assumes "storable fmt parse a" "auth_at dbs (auth_id a) = None"
  shows "\<exists>dbs1. load_line pos r parse now dbs (auth_columns fmt n a) = Inr (dbs1, True) \<and>
    auth_at dbs1 (auth_id a) = Some (reloaded a) \<and>
    (\<forall>k. k \<noteq> auth_id a \<longrightarrow> auth_at dbs1 k = auth_at dbs k)"
proof -
  let ?key = "auth_key_set (Some (a_dbId a)) (Some (a_login a)) (Some (a_sId a))"
  obtain bs where bs: "a_pwd a = blob_of bs" "AUTH_PWD_LEN_MIN \<le> length bs"
    using assms(1) by (auto simp: storable_def)
  have "a_dbId a \<noteq> []" using assms(1) by (auto simp: storable_def auth_check_db_def)
  hence full: "key_full ?key" using assms(1) by (simp add: key_full_set storable_def)
  obtain dbs1 b where s: "auth_search_by_key pos now dbs ?key = Inr (dbs1, Some b)"
    and b: "b = auth_blank now ?key"
    and at: "\<And>k. auth_at dbs1 k = (if k = auth_id a then Some b else auth_at dbs k)"
    using auth_search_by_key_result [OF full, of pos now dbs] assms(2)
    by (auto simp: Let_def auth_key_set_def auth_id_def)
  have blank: "a_pwd b = auth_pwd_null" "a_new_pwd b = auth_pwd_null" "a_new_pwd_pending b = False"
      "auth_id b = auth_id a" "a_secrets b = []"
    by (simp_all add: b auth_blank_def auth_body_def auth_key_set_def Let_def auth_id_def auth_pwd_null_def)
  have entry: "line_entry r (auth_columns fmt n a) (blob_of bs) (a_timestamp a) b = Inr (reloaded a)"
    using line_entry_columns [OF assms(1) blank bs(1)] bs(1) by simp
  have "load_line pos r parse now dbs (auth_columns fmt n a) =
      Inr (upd_auth (a_dbId a) (a_sId a) (a_login a) (\<lambda>_. reloaded a) dbs1, True)"
    using assms(1) pwd_column_decode [OF bs(2), of r auth_pwd_null] s entry bs(1)
    by (simp add: load_line_def storable_def line_timestamp_def Let_def del: rbind_Inr_iff)
  moreover have "a_login (reloaded a) = a_login a" by (simp add: reloaded_def)
  ultimately show ?thesis
    by (auto simp: auth_at_upd_auth at auth_id_def)
qed

lemma dec_string_chars: "dec_string n \<noteq> [] \<and> CHR '';'' \<notin> set (dec_string n)"
proof (induction n rule: dec_string.induct)
  case (1 n)
  have d: "char_of (48 + k) \<noteq> CHR '';''" if "k < 10" for k :: nat
  proof -
    have "k \<in> set [0..<10]" using that by simp
    moreover have "\<forall>k\<in>set [0..<10]. char_of (48 + k :: nat) \<noteq> CHR '';''" by code_simp
    ultimately show ?thesis by blast
  qed
  show ?case
    using 1 d [of n] d [of "n mod 10"] by (subst (1 2) dec_string.simps) auto
qed

lemma semicolon_not_hex: "\<not> isxdigit (CHR '';'')"
  by code_simp

lemma bcd_text_chars: "bcd_encode_sep bs (CHR 0x00) = Some t \<Longrightarrow> CHR '';'' \<notin> set t"
proof -
  assume t: "bcd_encode_sep bs (CHR 0x00) = Some t"
  hence "bs \<noteq> []" by (auto simp: bcd_encode_sep_def)
  hence "list_all isxdigit t" using t bcd_encode_nul bcd_plain_hex [of bs] by simp
  thus ?thesis using semicolon_not_hex by (auto simp: list_all_iff)
qed

lemma pwd_column_chars: "pwd_column w p \<noteq> [] \<and> CHR '';'' \<notin> set (pwd_column w p)"
  using bcd_text_chars by (auto simp: pwd_column_def Let_def split: option.splits if_splits)

lemma split_auth_columns:
  assumes "cuts_columns dp" "storable fmt parse a"
  shows "dp (join_columns (auth_columns fmt n a)) = auth_columns fmt n a"
proof -
  have "c \<noteq> [] \<and> CHR '';'' \<notin> set c" if "c \<in> set (auth_columns fmt n a)" for c
    using that assms(2) dec_string_chars [of n] pwd_column_chars
    by (auto simp: auth_columns_def storable_def auth_check_db_def split: if_splits)
  moreover have "auth_columns fmt n a \<noteq> []" by (simp add: auth_columns_def)
  ultimately show ?thesis using assms(1) unfolding cuts_columns_def by blast
qed

section \<open>Properties\<close>

text \<open>A line written for an entry with names, a password of at least eight octets, a pending
  password of that size if one is announced, and a date the date library reads back, loads into a
  base where its key is free as this entry: password, pending password and date survive the file,
  and no other entry changes.  The active flag does not survive: the loaded entry is active.\<close>
lemma auth_file_roundtrip:
  assumes "cuts_columns dp" and "storable fmt parse a" and "auth_at dbs (auth_id a) = None"
  shows "\<exists>dbs1. load_line pos r parse now dbs (dp (join_columns (auth_columns fmt n a))) = Inr (dbs1, True) \<and>
    auth_at dbs1 k = (if k = auth_id a then Some (reloaded a) else auth_at dbs k) \<and>
    a_active (reloaded a)"
proof -
  obtain dbs1 where "load_line pos r parse now dbs (auth_columns fmt n a) = Inr (dbs1, True)"
    "auth_at dbs1 (auth_id a) = Some (reloaded a)" "\<forall>k. k \<noteq> auth_id a \<longrightarrow> auth_at dbs1 k = auth_at dbs k"
    using load_line_columns [OF assms(2,3)] by blast
  moreover from this have "auth_at dbs1 k = (if k = auth_id a then Some (reloaded a) else auth_at dbs k)"
    by (cases "k = auth_id a") (simp_all only: if_True if_False simp_thms)
  moreover have "a_active (reloaded a)" by (simp add: reloaded_def)
  ultimately show ?thesis
    unfolding split_auth_columns [OF assms(1,2)] by blast
qed

text \<open>A concrete cutting of a line: at every semicolon.\<close>
fun split_semicolons :: "string \<Rightarrow> string list" where
  "split_semicolons [] = [[]]"
| "split_semicolons (c # s) =
    (if c = CHR '';'' then [] # split_semicolons s
     else case split_semicolons s of [] \<Rightarrow> [[c]] | w # ws \<Rightarrow> (c # w) # ws)"

lemma split_semicolons_word:
  "CHR '';'' \<notin> set c \<Longrightarrow> split_semicolons c = [c]"
  "CHR '';'' \<notin> set c \<Longrightarrow> split_semicolons (c @ CHR '';'' # s) = c # split_semicolons s"
  by (induction c) auto

lemma cuts_split_semicolons: "cuts_columns split_semicolons"
proof -
  have "split_semicolons (join_columns cs) = cs" if "cs \<noteq> []" "\<forall>c\<in>set cs. CHR '';'' \<notin> set c" for cs
    using that by (induction cs rule: join_columns.induct) (auto simp: split_semicolons_word)
  thus ?thesis by (auto simp: cuts_columns_def)
qed

lemma auth_file_roundtrip_witness:
  "let a = auth_body (7, 0) ''to'' ''bob'' ''S1'' (Some [1, 2, 3, 4, 5, 6, 7, 8]) 8 None False None 0 False
   in \<exists>dbs1. load_line (\<lambda>n. n) \<lparr> draw = 0, rnd = (\<lambda>n. replicate n 0) \<rparr> (\<lambda>_. (7, 0)) (0, 0) []
        (split_semicolons (join_columns (auth_columns (\<lambda>_. ''2024-01-01T00:00:07Z'') 1 a))) = Inr (dbs1, True) \<and>
      auth_at dbs1 (auth_id a) = Some (reloaded a)"
proof -
  let ?a = "auth_body (7, 0) ''to'' ''bob'' ''S1'' (Some [1, 2, 3, 4, 5, 6, 7, 8]) 8 None False None 0 False"
  have "storable (\<lambda>_. ''2024-01-01T00:00:07Z'') (\<lambda>_. (7, 0)) ?a"
    by (simp add: storable_def auth_body_def Let_def auth_check_db_def auth_pwd_null_def)
      (rule exI [of _ "[1, 2, 3, 4, 5, 6, 7, 8]"], simp add: blob_of_def AUTH_PWD_LEN_MIN_def)
  moreover have "auth_at [] (auth_id ?a) = None"
    by (simp add: auth_at_def auth_login_find_def sIds_at_def)
  ultimately show ?thesis
    using auth_file_roundtrip [OF cuts_split_semicolons, of "\<lambda>_. ''2024-01-01T00:00:07Z''" "\<lambda>_. (7, 0)" ?a "[]"
      "\<lambda>n. n" "\<lparr> draw = 0, rnd = (\<lambda>n. replicate n 0) \<rparr>" "(0, 0)" 1 "auth_id ?a"]
    unfolding Let_def by auto
qed

text \<open>The line written for an entry without a password is refused by the loading and leaves
  the base unchanged.\<close>
lemma auth_without_password_not_reloaded:
  assumes "bbuf (a_pwd a) = None"
  shows "load_line pos r parse now dbs (auth_columns fmt n a) = Inr (dbs, False)"
  using assms by (simp add: load_line_def pwd_column_star Let_def)

lemma auth_without_password_not_reloaded_witness:
  "load_line (\<lambda>n. n) r (\<lambda>_. (7, 0)) (0, 0) []
     (auth_columns (\<lambda>_. ''2024-01-01T00:00:07Z'') 1 (auth_blank (0, 0) (key_of (''to'', ''S1'', ''bob'')))) =
   Inr ([], False)"
  by (rule auth_without_password_not_reloaded)
    (simp add: auth_blank_def auth_body_def Let_def auth_pwd_null_def)

end
