(* ===== verification/AuthReload.thy ===== *)
theory AuthReload
  imports AuthFile
begin

text \<open>
  The authentication base saved to its file and loaded again: the entries in the order of the walk, the lines
  they give, and the base that comes back.
\<close>

section \<open>The entries of a base\<close>

definition entries :: "dbs \<Rightarrow> auth list" where
  "entries d = concat (map (\<lambda>b. concat (map s_logins (d_sIds b))) d)"

lemma entries_Cons: "entries (b # d) = concat (map s_logins (d_sIds b)) @ entries d"
  by (simp add: entries_def)

lemma entry_at:
  assumes "auth_dbs_ok d" "a \<in> set (entries d)"
  shows "auth_at d (auth_id a) = Some a"
proof -
  obtain b x where b: "b \<in> set d" "x \<in> set (d_sIds b)" "a \<in> set (s_logins x)"
    using assms(2) by (auto simp: entries_def)
  have ok: "kuniq d_dbId d" "kuniq s_sId (d_sIds b)" "logins_ok (d_dbId b) x"
    using assms(1) b(1,2) by (auto simp: auth_dbs_ok_def db_ok_def list_all_iff)
  hence a: "kuniq a_login (s_logins x)" "a_dbId a = d_dbId b" "a_sId a = s_sId x"
    using b(3) by (auto simp: logins_ok_def list_all_iff)
  show ?thesis
    using find_member [OF ok(1) b(1)] find_member [OF ok(2) b(2)] find_member [OF a(1) b(3)] a(2,3)
    by (simp add: auth_at_def auth_login_find_def sIds_at_def auth_find_def auth_id_def)
qed

lemma at_entry: "auth_at d k = Some a \<Longrightarrow> a \<in> set (entries d)"
  by (fastforce simp: auth_at_def auth_login_find_def sIds_at_def auth_find_def entries_def find_Some_iff
      dest: nth_mem split: option.splits)

lemma disjoint_ids:
  assumes "\<And>a b. a \<in> A \<Longrightarrow> b \<in> B \<Longrightarrow> auth_id a \<noteq> auth_id b"
  shows "auth_id ` A \<inter> auth_id ` B = {}"
  using assms by blast

lemma logins_ok_ids:
  assumes "logins_ok n x"
  shows "distinct (map auth_id (s_logins x))"
    and "\<And>a. a \<in> set (s_logins x) \<Longrightarrow> a_dbId a = n \<and> a_sId a = s_sId x"
proof -
  show ids: "a_dbId a = n \<and> a_sId a = s_sId x" if "a \<in> set (s_logins x)" for a
    using assms that by (simp add: logins_ok_def list_all_iff)
  have "distinct (map a_login (s_logins x))" using assms by (simp add: logins_ok_def kuniq_def)
  thus "distinct (map auth_id (s_logins x))"
    by (simp add: distinct_map inj_on_def auth_id_def)
qed

lemma site_entries_distinct:
  "kuniq s_sId xs \<Longrightarrow> list_all (logins_ok n) xs \<Longrightarrow> distinct (map auth_id (concat (map s_logins xs)))"
proof (induction xs)
  case (Cons x xs)
  have x: "logins_ok n x" "s_sId x \<notin> s_sId ` set xs" "kuniq s_sId xs" "list_all (logins_ok n) xs"
    using Cons.prems by (simp_all add: kuniq_def)
  have "auth_id ` set (s_logins x) \<inter> auth_id ` set (concat (map s_logins xs)) = {}"
  proof (rule disjoint_ids)
    fix a b assume a: "a \<in> set (s_logins x)" and "b \<in> set (concat (map s_logins xs))"
    then obtain y where y: "y \<in> set xs" "b \<in> set (s_logins y)" by auto
    hence "logins_ok n y" using x(4) by (simp add: list_all_iff)
    hence "a_sId b = s_sId y" using logins_ok_ids(2) y(2) by blast
    moreover have "s_sId y \<noteq> s_sId x" using x(2) y(1) by (metis imageI)
    ultimately show "auth_id a \<noteq> auth_id b" using logins_ok_ids(2) [OF x(1) a] by (simp add: auth_id_def)
  qed
  thus ?case using Cons.IH [OF x(3,4)] logins_ok_ids(1) [OF x(1)] by simp
qed simp

lemma entries_distinct: "auth_dbs_ok d \<Longrightarrow> distinct (map auth_id (entries d))"
proof (induction d)
  case (Cons b d)
  have ok: "kuniq s_sId (d_sIds b)" "list_all (logins_ok (d_dbId b)) (d_sIds b)"
    "d_dbId b \<notin> d_dbId ` set d" "auth_dbs_ok d"
    using Cons.prems by (simp_all add: auth_dbs_ok_def db_ok_def kuniq_def)
  have "auth_id ` set (concat (map s_logins (d_sIds b))) \<inter> auth_id ` set (entries d) = {}"
  proof (rule disjoint_ids)
    fix a e assume "a \<in> set (concat (map s_logins (d_sIds b)))" and "e \<in> set (entries d)"
    then obtain x c y where a: "x \<in> set (d_sIds b)" "a \<in> set (s_logins x)"
      and e: "c \<in> set d" "y \<in> set (d_sIds c)" "e \<in> set (s_logins y)"
      by (auto simp: entries_def)
    have "logins_ok (d_dbId b) x" "logins_ok (d_dbId c) y"
      using ok(2,4) a(1) e(1,2) by (simp_all add: list_all_iff auth_dbs_ok_def db_ok_def)
    hence "a_dbId a = d_dbId b" "a_dbId e = d_dbId c" using a(2) e(3) logins_ok_ids(2) by blast+
    moreover have "d_dbId c \<noteq> d_dbId b" using ok(3) e(1) by (metis imageI)
    ultimately show "auth_id a \<noteq> auth_id e" by (simp add: auth_id_def)
  qed
  thus ?case using Cons.IH [OF ok(4)] site_entries_distinct [OF ok(1,2)] by (simp add: entries_Cons)
qed (simp add: entries_def)

section \<open>The text of a base\<close>

text \<open>The lines, numbered from the one after \<open>n\<close> on.\<close>
fun base_lines :: "(horodate \<Rightarrow> string) \<Rightarrow> nat \<Rightarrow> auth list \<Rightarrow> string list" where
  "base_lines fmt n [] = []"
| "base_lines fmt n (a # as) = join_columns (auth_columns fmt (n + 1) a) # base_lines fmt (n + 1) as"

definition lines_text :: "string list \<Rightarrow> string" where
  "lines_text ls = concat (map (\<lambda>l. l @ [CHR 0x0A]) ls)"

lemma base_lines_append: "base_lines fmt n (as @ bs) = base_lines fmt n as @ base_lines fmt (n + length as) bs"
  by (induction as arbitrary: n) simp_all

lemma lines_text_simps [simp]:
  "lines_text [] = []" "lines_text (l # ls) = l @ CHR 0x0A # lines_text ls" "lines_text (ls @ ms) = lines_text ls @ lines_text ms"
  by (simp_all add: lines_text_def)

lemma write_logins:
  "auth_foreach_login (auth_write fmt) (t, n) as = ((t @ lines_text (base_lines fmt n as), n + length as), length as)"
  unfolding auth_foreach_login_def
  by (induction as arbitrary: t n) (simp_all add: auth_write_def Let_def)

lemma write_sIds:
  "auth_foreach_sIds (auth_write fmt) (t, n) ss =
    (let as = concat (map s_logins ss) in ((t @ lines_text (base_lines fmt n as), n + length as), length as))"
  by (induction ss arbitrary: t n) (simp_all add: write_logins base_lines_append Let_def)

lemma write_dbs:
  "auth_foreach_dbs None (auth_write fmt) (t, n) d =
    ((t @ lines_text (base_lines fmt n (entries d)), n + length (entries d)), length (entries d))"
  by (induction d arbitrary: t n)
    (simp_all add: auth_foreach_sId_def write_sIds base_lines_append entries_Cons Let_def, simp_all add: entries_def)

lemma serialized: "auth_db_serialize fmt d = ((lines_text (base_lines fmt 0 (entries d)), length (entries d)), length (entries d))"
  by (simp add: auth_db_serialize_def auth_foreach_def write_dbs)

lemma foldr_line:
  "CHR 0x0A \<notin> set l \<Longrightarrow>
    foldr (\<lambda>c acc. if c = CHR 0x0A then [] # acc else case acc of [] \<Rightarrow> [[c]] | w # ws \<Rightarrow> (c # w) # ws) l ([] # acc) = l # acc"
  by (induction l) auto

lemma file_lines_text:
  assumes "\<forall>l \<in> set ls. l \<noteq> [] \<and> CHR 0x0A \<notin> set l"
  shows "file_lines (lines_text ls) = ls"
proof -
  let ?step = "\<lambda>c acc. if c = CHR 0x0A then [] # acc else case acc of [] \<Rightarrow> [[c]] | w # ws \<Rightarrow> (c # w) # ws"
  have "foldr ?step (lines_text ls) [[]] = ls @ [[]]"
    using assms by (induction ls) (auto simp: foldr_line)
  moreover have "filter (\<lambda>w. w \<noteq> []) ls = ls" using assms by (auto simp: filter_id_conv)
  ultimately show ?thesis by (simp add: file_lines_def Let_def)
qed

text \<open>No name and no date of the entry breaks its line.\<close>
definition one_line :: "(horodate \<Rightarrow> string) \<Rightarrow> auth \<Rightarrow> bool" where
  "one_line fmt a \<longleftrightarrow> CHR 0x0A \<notin> set (a_login a) \<union> set (a_sId a) \<union> set (fmt (a_timestamp a))"

lemma dec_string_no_newline: "CHR 0x0A \<notin> set (dec_string n)"
proof (induction n rule: dec_string.induct)
  case (1 n)
  have d: "char_of (48 + k) \<noteq> CHR 0x0A" if "k < 10" for k :: nat
  proof -
    have "k \<in> set [0..<10]" using that by simp
    moreover have "\<forall>k\<in>set [0..<10]. char_of (48 + k :: nat) \<noteq> CHR 0x0A" by code_simp
    ultimately show ?thesis by blast
  qed
  show ?case using 1 d [of n] d [of "n mod 10"] by (subst dec_string.simps) auto
qed

lemma pwd_column_no_newline: "CHR 0x0A \<notin> set (pwd_column w p)"
proof -
  have "CHR 0x0A \<notin> set t" if t: "bcd_encode_sep bs (CHR 0x00) = Some t" for bs t
  proof -
    have "bs \<noteq> []" using t by (auto simp: bcd_encode_sep_def)
    hence "list_all isxdigit t" using t bcd_encode_nul bcd_plain_hex [of bs] by simp
    moreover have "\<not> isxdigit (CHR 0x0A)" by code_simp
    ultimately show ?thesis by (auto simp: list_all_iff)
  qed
  thus ?thesis by (auto simp: pwd_column_def Let_def split: option.splits)
qed

lemma join_columns_set: "set (join_columns cs) \<subseteq> insert (CHR '';'') (\<Union> (set ` set cs))"
  by (induction cs rule: join_columns.induct) auto

lemma line_one_line:
  assumes "storable fmt parse a" "one_line fmt a"
  shows "join_columns (auth_columns fmt n a) \<noteq> [] \<and> CHR 0x0A \<notin> set (join_columns (auth_columns fmt n a))"
proof -
  have "CHR 0x0A \<notin> \<Union> (set ` set (auth_columns fmt n a))"
    using assms dec_string_no_newline pwd_column_no_newline
    by (auto simp: auth_columns_def one_line_def storable_def auth_check_db_def)
  hence "CHR 0x0A \<notin> set (join_columns (auth_columns fmt n a))"
    using join_columns_set [of "auth_columns fmt n a"] by auto
  thus ?thesis by (simp add: auth_columns_def)
qed

lemma base_lines_ok:
  "\<forall>a \<in> set as. storable fmt parse a \<and> one_line fmt a \<Longrightarrow>
    \<forall>l \<in> set (base_lines fmt n as). l \<noteq> [] \<and> CHR 0x0A \<notin> set l"
  by (induction as arbitrary: n) (auto dest: line_one_line)

section \<open>Loading the lines\<close>

lemma load_base:
  assumes "cuts_columns dp" "\<forall>a \<in> set as. storable fmt parse a" "distinct (map auth_id as)"
    and "\<forall>a \<in> set as. auth_at d (auth_id a) = None"
  shows "\<exists>d1. load_lines pos r parse dp now (base_lines fmt n as) d m = Inr (d1, m + int (length as)) \<and>
    (\<forall>k. auth_at d1 k = (case find (\<lambda>a. auth_id a = k) as of Some a \<Rightarrow> Some (reloaded a) | None \<Rightarrow> auth_at d k))"
  using assms(2-4)
proof (induction as arbitrary: n d m)
  case (Cons a as)
  have st: "storable fmt parse a" and free: "auth_at d (auth_id a) = None" using Cons.prems by auto
  obtain d2 where d2: "load_line pos r parse now d (auth_columns fmt (n + 1) a) = Inr (d2, True)"
    "auth_at d2 (auth_id a) = Some (reloaded a)" "\<forall>k. k \<noteq> auth_id a \<longrightarrow> auth_at d2 k = auth_at d k"
    using load_line_columns [OF st free] by blast
  have rest: "\<forall>b \<in> set as. auth_at d2 (auth_id b) = None"
  proof
    fix b assume b: "b \<in> set as"
    hence "auth_id b \<noteq> auth_id a" using Cons.prems(2) by (auto simp: image_iff)
    thus "auth_at d2 (auth_id b) = None" using spec [OF d2(3), of "auth_id b"] Cons.prems(3) b by simp
  qed
  have pre: "\<forall>a \<in> set as. storable fmt parse a" "distinct (map auth_id as)" using Cons.prems by auto
  obtain d1 where d1: "load_lines pos r parse dp now (base_lines fmt (n + 1) as) d2 (m + 1) = Inr (d1, m + 1 + int (length as))"
    "\<forall>k. auth_at d1 k = (case find (\<lambda>a. auth_id a = k) as of Some a \<Rightarrow> Some (reloaded a) | None \<Rightarrow> auth_at d2 k)"
    using Cons.IH [OF pre rest] by blast
  have notin: "find (\<lambda>b. auth_id b = auth_id a) as = None"
    using Cons.prems(2) by (auto simp: find_None_iff image_iff)
  have "load_lines pos r parse dp now (base_lines fmt n (a # as)) d m = Inr (d1, m + int (length (a # as)))"
    using d1(1) d2(1) split_auth_columns [OF assms(1) st, of "n + 1"] by (simp add: algebra_simps del: rbind_Inr_iff)
  moreover have "auth_at d1 k =
      (case find (\<lambda>b. auth_id b = k) (a # as) of Some b \<Rightarrow> Some (reloaded b) | None \<Rightarrow> auth_at d k)" for k
    using spec [OF d1(2), of k] d2(2) spec [OF d2(3), of k] notin
    by (cases "auth_id a = k") (simp_all split: option.split)
  ultimately show ?case by blast
qed simp

lemma find_entry:
  assumes "auth_dbs_ok d"
  shows "find (\<lambda>a. auth_id a = k) (entries d) = auth_at d k"
proof (cases "auth_at d k")
  case (Some a)
  have "auth_id a = k" by (rule auth_at_ok [OF assms Some])
  thus ?thesis using find_member [of auth_id "entries d" a] entries_distinct [OF assms] at_entry [OF Some] Some
    by (simp add: kuniq_def)
next
  case None
  hence "\<forall>a \<in> set (entries d). auth_id a \<noteq> k" using entry_at [OF assms] by auto
  thus ?thesis using None by (simp add: find_None_iff)
qed

lemma lines_text_base: "entries d \<noteq> [] \<Longrightarrow> lines_text (base_lines fmt n (entries d)) \<noteq> []"
  by (cases "entries d") simp_all

section \<open>Properties\<close>

text \<open>C15. The base survives its file.  A base in order whose entries have names, passwords and dates that fit
  into lines, saved over a file that is not longer, is loaded again entry by entry with its passwords,
  pending passwords and dates; every login is active afterwards.  A file that fills its pages is read
  beyond their end instead.  Over a longer file the end of the old text stays behind the new one.\<close>
theorem auth_base_reload:
  assumes "cuts_columns dp" and "auth_dbs_ok d" and "entries d \<noteq> []"
    and "\<forall>a \<in> set (entries d). storable fmt parse a \<and> one_line fmt a"
    and "fst (auth_serialize_to_file fmt d old True) = Some file"
  shows "let text = fst (fst (auth_db_serialize fmt d)) in
    file = text @ (case old of None \<Rightarrow> [] | Some s \<Rightarrow> drop (length text) s) \<and>
    (file = text \<longrightarrow>
      (if length text mod PAGE_SIZE = 0
       then auth_unserialize_from_file pos r parse dp now (Some file) [] = Inl Read_oob
       else \<exists>d1. auth_unserialize_from_file pos r parse dp now (Some file) [] = Inr (d1, int (length (entries d))) \<and>
         (\<forall>k. auth_at d1 k = map_option reloaded (auth_at d k))))"
proof -
  let ?ls = "base_lines fmt 0 (entries d)"
  have written: "fst (fst (auth_db_serialize fmt d)) = lines_text ?ls" by (simp add: serialized)
  have saved: "file = lines_text ?ls @ (case old of None \<Rightarrow> [] | Some s \<Rightarrow> drop (length (lines_text ?ls)) s)"
    using assms(5) by (simp add: auth_serialize_to_file_def serialized overwrite_def split: option.splits)
  have nil: "auth_at [] k = None" for k by (simp add: auth_at_def auth_login_find_def sIds_at_def)
  have st: "\<forall>a \<in> set (entries d). storable fmt parse a" using assms(4) by blast
  obtain d1 where d1: "load_lines pos r parse dp now ?ls [] 0 = Inr (d1, int (length (entries d)))"
    "\<forall>k. auth_at d1 k = map_option reloaded (auth_at d k)"
    using load_base [OF assms(1) st entries_distinct [OF assms(2)], of "[]" pos r now 0 0]
    unfolding nil find_entry [OF assms(2)] map_option_case by auto
  have "lines_text ?ls \<noteq> []" by (rule lines_text_base [OF assms(3)])
  then obtain c s where cs: "lines_text ?ls = c # s" by (meson list.exhaust)
  have "file_lines (lines_text ?ls) = ?ls" by (rule file_lines_text [OF base_lines_ok [OF assms(4)]])
  hence read: "auth_unserialize_from_file pos r parse dp now (Some (lines_text ?ls)) [] =
    (if length (lines_text ?ls) mod PAGE_SIZE = 0 then Inl Read_oob else Inr (d1, int (length (entries d))))"
    unfolding cs by (simp add: auth_unserialize_from_file_def d1(1) del: load_lines.simps)
  show ?thesis
    unfolding Let_def written
  proof (intro conjI impI)
    show "file = lines_text ?ls @ (case old of None \<Rightarrow> [] | Some s \<Rightarrow> drop (length (lines_text ?ls)) s)" by (rule saved)
    assume "file = lines_text ?ls"
    thus "if length (lines_text ?ls) mod PAGE_SIZE = 0
      then auth_unserialize_from_file pos r parse dp now (Some file) [] = Inl Read_oob
      else \<exists>d1. auth_unserialize_from_file pos r parse dp now (Some file) [] = Inr (d1, int (length (entries d))) \<and>
        (\<forall>k. auth_at d1 k = map_option reloaded (auth_at d k))"
      using read d1(2) by (simp split: if_splits)
  qed
qed

definition entry_sample_file :: auth where
  "entry_sample_file = auth_body (7, 0) ''to'' ''bob'' ''S1'' (Some [1, 2, 3, 4, 5, 6, 7, 8]) 8 None False None 0 False"

definition base_sample_file :: dbs where
  "base_sample_file = [\<lparr> d_dbId = ''to'', d_sIds = [\<lparr> s_sId = ''S1'', s_logins = [entry_sample_file] \<rparr>] \<rparr>]"

theorem auth_base_reload_witness:
  "\<exists>file d1. fst (auth_serialize_to_file (\<lambda>_. ''2024-01-01T00:00:07Z'') base_sample_file None True) = Some file \<and>
    auth_unserialize_from_file (\<lambda>n. n) \<lparr> draw = 0, rnd = (\<lambda>n. replicate n 0) \<rparr> (\<lambda>_. (7, 0)) split_semicolons (0, 0)
      (Some file) [] = Inr (d1, 1) \<and>
    auth_at d1 (''to'', ''S1'', ''bob'') = Some (reloaded entry_sample_file)"
proof -
  let ?fmt = "\<lambda>_. ''2024-01-01T00:00:07Z''"
  let ?text = "lines_text (base_lines ?fmt 0 (entries base_sample_file))"
  have es: "entries base_sample_file = [entry_sample_file]" by (simp add: entries_def base_sample_file_def)
  have "storable ?fmt (\<lambda>_. (7, 0)) entry_sample_file"
    by (simp add: storable_def entry_sample_file_def auth_body_def Let_def auth_check_db_def auth_pwd_null_def)
      (rule exI [of _ "[1, 2, 3, 4, 5, 6, 7, 8]"], simp add: blob_of_def AUTH_PWD_LEN_MIN_def)
  moreover have "one_line ?fmt entry_sample_file" by (simp add: one_line_def entry_sample_file_def auth_body_def Let_def)
  ultimately have ok: "\<forall>a \<in> set (entries base_sample_file). storable ?fmt (\<lambda>_. (7, 0)) a \<and> one_line ?fmt a"
    by (simp add: es)
  have base: "auth_dbs_ok base_sample_file" "entries base_sample_file \<noteq> []" by code_simp+
  have saved: "fst (auth_serialize_to_file ?fmt base_sample_file None True) = Some ?text"
    by (simp add: auth_serialize_to_file_def overwrite_def serialized)
  have at: "auth_at base_sample_file (''to'', ''S1'', ''bob'') = Some entry_sample_file"
    using entry_at [OF base(1), of entry_sample_file]
    by (simp add: es auth_id_def entry_sample_file_def auth_body_def Let_def)
  have "length ?text mod PAGE_SIZE \<noteq> 0" by code_simp
  moreover have "fst (fst (auth_db_serialize ?fmt base_sample_file)) = ?text" by (simp add: serialized)
  moreover note auth_base_reload [OF cuts_split_semicolons base ok saved, of "\<lambda>n. n"
    "\<lparr> draw = 0, rnd = (\<lambda>n. replicate n 0) \<rparr>" "(0, 0)", unfolded Let_def]
  ultimately obtain d1 where "auth_unserialize_from_file (\<lambda>n. n) \<lparr> draw = 0, rnd = (\<lambda>n. replicate n 0) \<rparr>
      (\<lambda>_. (7, 0)) split_semicolons (0, 0) (Some ?text) [] = Inr (d1, int (length (entries base_sample_file)))"
    "\<forall>k. auth_at d1 k = map_option reloaded (auth_at base_sample_file k)"
    by (metis)
  thus ?thesis
    using saved at es by (intro exI [of _ ?text] exI [of _ d1]) simp
qed

end
