(* ===== verification/AuthOps.thy ===== *)
theory AuthOps
  imports AuthDb Base64 Errcode
begin

text \<open>
  Model of \<open>auth/auth.c\<close> (the change of password of an entry) and of the secrets of an entry in
  \<open>auth/auth-basic.c\<close>.  A TO entry (data base \<open>to\<close>) is the side that chooses the new password and
  sends it in base64; a FROM entry (data base \<open>from\<close>) is the side that receives it.  The saving of
  the base into \<open>auth.db\<close> that ends these operations is left out, and so is a failing allocation.
\<close>

section \<open>Data base of an entry\<close>

definition auth_to_dbId :: string where "auth_to_dbId = ''to''"
definition auth_from_dbId :: string where "auth_from_dbId = ''from''"

definition auth_to_is :: "auth \<Rightarrow> bool" where
  "auth_to_is a = auth_db_is a auth_to_dbId"

definition auth_from_is :: "auth \<Rightarrow> bool" where
  "auth_from_is a = auth_db_is a auth_from_dbId"

definition auth_to_find_by_key :: "dbs \<Rightarrow> auth_key \<Rightarrow> auth option" where
  "auth_to_find_by_key dbs key = auth_find_by_key dbs (Some (key\<lparr> k_dbId := Some auth_to_dbId \<rparr>))"

definition auth_from_find_by_key :: "dbs \<Rightarrow> auth_key \<Rightarrow> auth option" where
  "auth_from_find_by_key dbs key = auth_find_by_key dbs (Some (key\<lparr> k_dbId := Some auth_from_dbId \<rparr>))"

definition auth_to_key_set :: "cstr \<Rightarrow> cstr \<Rightarrow> auth_key" where
  "auth_to_key_set login sId = auth_key_set (Some auth_to_dbId) login sId"

definition auth_from_key_set :: "cstr \<Rightarrow> cstr \<Rightarrow> auth_key" where
  "auth_from_key_set login sId = auth_key_set (Some auth_from_dbId) login sId"

section \<open>Change of password\<close>

text \<open>\<open>rnds i\<close> is the value of the i-th call of \<open>rand\<close>.\<close>
definition gen_char :: "nat \<Rightarrow> byte" where
  "gen_char v = word_of_nat (v mod (127 - 32) + 32)"

definition auth_gen_new_pwd :: "(nat \<Rightarrow> nat) \<Rightarrow> auth \<Rightarrow> nat \<Rightarrow> (auth \<times> errcode) run" where
  "auth_gen_new_pwd rnds a len =
    (if \<not> (AUTH_PWD_LEN_MIN \<le> len \<and> len \<le> AUTH_PWD_LEN_MAX) then Inl Assert_failed
     else if a_new_pwd_pending a then Inr (a, E_no_error)
     else Inr (a\<lparr> a_new_pwd := \<lparr> bbuf = Some (map (\<lambda>i. gen_char (rnds i)) [0..<len]), blen = len \<rparr> \<rparr>,
               E_no_error))"

text \<open>The third component is the text to send, in base64.\<close>
definition auth_get_new_pwd_b64 :: "(nat \<Rightarrow> nat) \<Rightarrow> auth \<Rightarrow> (auth \<times> errcode \<times> cstr) run" where
  "auth_get_new_pwd_b64 rnds a =
    (if \<not> a_active a then Inr (a, C_generic, None)
     else if \<not> auth_to_is a then Inl Assert_failed
     else rbind (if \<not> a_new_pwd_pending a
                 then rbind (auth_gen_new_pwd rnds a (blen (a_pwd a)))
                        (\<lambda>(a1, e). Inr (a1\<lparr> a_new_pwd_pending := True \<rparr>))
                 else Inr a) (\<lambda>a1.
          case bbuf (a_new_pwd a1) of
            None \<Rightarrow> if blen (a_new_pwd a1) = 0 then Inr (a1, E_no_error, Some []) else Inl Null_deref
          | Some bs \<Rightarrow> Inr (a1, E_no_error, Some (base64_encode (take (blen (a_new_pwd a1)) bs)))))"

definition auth_set_pwd_b64 :: "horodate \<Rightarrow> auth \<Rightarrow> string \<Rightarrow> (auth \<times> errcode) run" where
  "auth_set_pwd_b64 now a input =
    (if \<not> a_active a then Inr (a, C_generic)
     else if \<not> auth_from_is a then Inl Assert_failed
     else rbind (base64_decode input) (\<lambda>out.
            case out of
              None \<Rightarrow> Inr (a, C_generic)
            | Some bs \<Rightarrow> Inr (a\<lparr> a_pwd := blob_of bs, a_timestamp := now \<rparr>, E_no_error)))"

definition auth_forget_new_pwd :: "auth \<Rightarrow> (auth \<times> errcode) run" where
  "auth_forget_new_pwd a =
    (if \<not> a_active a then Inr (a, C_generic)
     else if \<not> auth_to_is a then Inl Assert_failed
     else Inr (a\<lparr> a_new_pwd := \<lparr> bbuf = None, blen = 0 \<rparr>, a_new_pwd_pending := False \<rparr>, E_no_error))"

definition auth_switch_to_new_pwd :: "horodate \<Rightarrow> auth \<Rightarrow> (auth \<times> errcode) run" where
  "auth_switch_to_new_pwd now a =
    (if \<not> a_active a then Inr (a, C_generic)
     else if \<not> auth_to_is a then Inl Assert_failed
     else if \<not> a_new_pwd_pending a then Inr (a, C_generic)
     else case bbuf (a_new_pwd a) of
            None \<Rightarrow> Inl Assert_failed
          | Some bs \<Rightarrow>
              if blen (a_new_pwd a) = 0 then Inl Assert_failed
              else auth_forget_new_pwd (a\<lparr> a_pwd := \<lparr> bbuf = Some (take (blen (a_new_pwd a)) bs),
                     blen = blen (a_new_pwd a) \<rparr>, a_timestamp := now \<rparr>))"

section \<open>Secrets of an entry\<close>

definition auth_secret_new :: "string \<Rightarrow> auth_secret option \<Rightarrow> string \<times> auth_secret" where
  "auth_secret_new ref secret = (ref, auth_secret_cpy \<lparr> bbuf = None, blen = 0 \<rparr> secret)"

definition auth_secret_find :: "string \<Rightarrow> (string \<times> auth_secret) list \<Rightarrow> (string \<times> auth_secret) option" where
  "auth_secret_find ref root = find (\<lambda>s. fst s = ref) root"

definition auth_secret_get :: "auth option \<Rightarrow> cstr \<Rightarrow> auth_secret option" where
  "auth_secret_get a ref =
    (case (a, ref) of
       (Some x, Some r) \<Rightarrow> map_option snd (auth_secret_find r (a_secrets x))
     | _ \<Rightarrow> None)"

definition auth_secret_find_by_key :: "dbs \<Rightarrow> auth_key option \<Rightarrow> cstr \<Rightarrow> auth_secret option" where
  "auth_secret_find_by_key dbs key ref =
    (if key = None \<or> ref = None then None else auth_secret_get (auth_find_by_key dbs key) ref)"

text \<open>A known reference is updated when a secret is given; an unknown one is inserted.\<close>
definition auth_secret_add_or_update ::
  "(nat \<Rightarrow> nat) \<Rightarrow> auth \<Rightarrow> cstr \<Rightarrow> auth_secret option \<Rightarrow> auth \<times> auth_secret option" where
  "auth_secret_add_or_update pos a ref secret =
    (case ref of
       None \<Rightarrow> (a, None)
     | Some r \<Rightarrow>
         (case auth_secret_find r (a_secrets a) of
            None \<Rightarrow> let s = auth_secret_new r secret
                    in (a\<lparr> a_secrets := ins_at pos (a_secrets a) s \<rparr>, Some (snd s))
          | Some (_, old) \<Rightarrow>
              let s = auth_secret_cpy old secret
              in (a\<lparr> a_secrets := kupd (\<lambda>x. fst x = r) (\<lambda>x. (fst x, s)) (a_secrets a) \<rparr>, Some s)))"

definition auth_secret_add_or_update_by_key ::
  "(nat \<Rightarrow> nat) \<Rightarrow> dbs \<Rightarrow> auth_key option \<Rightarrow> cstr \<Rightarrow> auth_secret option \<Rightarrow> dbs \<times> auth_secret option" where
  "auth_secret_add_or_update_by_key pos dbs key ref secret =
    (case auth_find_by_key dbs key of
       None \<Rightarrow> (dbs, None)
     | Some a \<Rightarrow>
         let (a1, s) = auth_secret_add_or_update pos a ref secret
         in (upd_auth (a_dbId a) (a_sId a) (a_login a) (\<lambda>_. a1) dbs, s))"

text \<open>The write lock taken here is never released in the source; the removal is what is modelled.\<close>
definition auth_secret_delete_by_key :: "dbs \<Rightarrow> auth_key option \<Rightarrow> cstr \<Rightarrow> dbs \<times> bool" where
  "auth_secret_delete_by_key dbs key ref =
    (case (auth_secret_find_by_key dbs key ref, auth_find_by_key dbs key, ref) of
       (Some _, Some a, Some r) \<Rightarrow>
         (upd_auth (a_dbId a) (a_sId a) (a_login a)
            (\<lambda>x. x\<lparr> a_secrets := ldc_unlink (\<lambda>s. fst s = r) (a_secrets x) \<rparr>) dbs, True)
     | _ \<Rightarrow> (dbs, False))"

section \<open>Lemmas\<close>

lemma auth_secret_cpy_blob [simp]: "bs \<noteq> [] \<Longrightarrow> auth_secret_cpy d (Some (blob_of bs)) = blob_of bs"
  by (simp add: auth_secret_cpy_def auth_secret_release_def blob_of_def Let_def)

lemma auth_secret_find_ins:
  "auth_secret_find r ss = None \<Longrightarrow>
   auth_secret_find k (ins_at pos ss (r, s)) = (if k = r then Some (r, s) else auth_secret_find k ss)"
  unfolding auth_secret_find_def
  using find_ins [OF inserts_one_ins_at, of fst "(r, s)" ss k pos] by simp

lemma auth_secret_find_upd:
  "auth_secret_find k (kupd (\<lambda>x. fst x = r) (\<lambda>x. (fst x, s)) ss) =
   (if k = r then map_option (\<lambda>x. (fst x, s)) (auth_secret_find r ss) else auth_secret_find k ss)"
  unfolding auth_secret_find_def by (rule find_kupd) simp

lemma gen_char_range: "32 \<le> unat (gen_char v) \<and> unat (gen_char v) \<le> 126"
proof -
  have lt: "v mod 95 < 95" by simp
  hence "unat (word_of_nat (v mod 95 + 32) :: byte) = v mod 95 + 32"
    by (simp only: unsigned_of_nat) (simp add: take_bit_nat_eq_self)
  with lt show ?thesis by (simp add: gen_char_def del: of_nat_add)
qed

lemma auth_ops_id:
  "auth_get_new_pwd_b64 rnds a = Inr (a1, e, t) \<Longrightarrow> auth_id a1 = auth_id a \<and> a_active a1 = a_active a"
  by (auto simp: auth_get_new_pwd_b64_def auth_gen_new_pwd_def auth_id_def
      split: if_splits option.splits)

section \<open>Properties\<close>

text \<open>C11. The exchange of a new password.  The TO side of an active entry with a password of a
  legal size draws a password of the same size made of printable characters and sends its base64
  text; the FROM side that stores the text and the TO side that switches afterwards hold the same
  password, and the TO side has nothing pending any more.\<close>
theorem password_change_agrees:
  assumes "a_active a" "auth_to_is a" "\<not> a_new_pwd_pending a"
    and "AUTH_PWD_LEN_MIN \<le> blen (a_pwd a)" "blen (a_pwd a) \<le> AUTH_PWD_LEN_MAX"
    and "a_active b" "auth_from_is b"
  shows "\<exists>a1 t a2 b1.
    auth_get_new_pwd_b64 rnds a = Inr (a1, E_no_error, Some t) \<and>
    auth_set_pwd_b64 now b t = Inr (b1, E_no_error) \<and>
    auth_switch_to_new_pwd now a1 = Inr (a2, E_no_error) \<and>
    a_pwd b1 = a_pwd a2 \<and> blen (a_pwd a2) = blen (a_pwd a) \<and> blob_ok (a_pwd a2) \<and>
    \<not> a_new_pwd_pending a2 \<and> a_pwd a1 = a_pwd a \<and>
    list_all (\<lambda>c. 32 \<le> unat c \<and> unat c \<le> 126) (the (bbuf (a_pwd a2)))"
proof -
  let ?n = "blen (a_pwd a)"
  let ?new = "map (\<lambda>i. gen_char (rnds i)) [0..<?n]"
  let ?a1 = "a\<lparr> a_new_pwd := \<lparr> bbuf = Some ?new, blen = ?n \<rparr>, a_new_pwd_pending := True \<rparr>"
  let ?a2 = "?a1\<lparr> a_pwd := blob_of ?new, a_timestamp := now, a_new_pwd := \<lparr> bbuf = None, blen = 0 \<rparr>,
     a_new_pwd_pending := False \<rparr>"
  let ?b1 = "b\<lparr> a_pwd := blob_of ?new, a_timestamp := now \<rparr>"
  have n: "?n \<noteq> 0" using assms(4) by (simp add: AUTH_PWD_LEN_MIN_def)
  hence ne: "?new \<noteq> []" by simp
  have get: "auth_get_new_pwd_b64 rnds a = Inr (?a1, E_no_error, Some (base64_encode ?new))"
    using assms by (simp add: auth_get_new_pwd_b64_def auth_gen_new_pwd_def)
  moreover have "auth_set_pwd_b64 now b (base64_encode ?new) = Inr (?b1, E_no_error)"
    using assms(6,7) b64.dec_enc [OF ne]
    by (auto simp: auth_set_pwd_b64_def base64_value_def split: sum.splits)
  moreover have "auth_switch_to_new_pwd now ?a1 = Inr (?a2, E_no_error)"
    using assms(1,2) n
    by (simp add: auth_switch_to_new_pwd_def auth_forget_new_pwd_def auth_to_is_def auth_db_is_def blob_of_def)
  moreover have "list_all (\<lambda>c. 32 \<le> unat c \<and> unat c \<le> 126) ?new"
    using gen_char_range by (simp add: list_all_iff)
  ultimately show ?thesis
    by (intro exI conjI) (assumption | simp add: blob_of_def blob_ok_def)+
qed

theorem password_change_agrees_witness:
  "\<exists>a1 t. auth_get_new_pwd_b64 (\<lambda>i. i)
     (auth_body (0, 0) ''to'' ''bob'' ''S1'' (Some [1, 2, 3, 4, 5, 6, 7, 8]) 8 None True None 0 False) =
     Inr (a1, E_no_error, Some t)"
proof -
  let ?a = "auth_body (0, 0) ''to'' ''bob'' ''S1'' (Some [1, 2, 3, 4, 5, 6, 7, 8]) 8 None True None 0 False"
  let ?b = "auth_body (0, 0) ''from'' ''bob'' ''S1'' (Some [1, 2, 3, 4, 5, 6, 7, 8]) 8 None True None 0 False"
  have "a_active ?a" "auth_to_is ?a" "\<not> a_new_pwd_pending ?a"
     "AUTH_PWD_LEN_MIN \<le> blen (a_pwd ?a)" "blen (a_pwd ?a) \<le> AUTH_PWD_LEN_MAX"
     "a_active ?b" "auth_from_is ?b"
    by (simp_all add: auth_body_def Let_def auth_to_is_def auth_from_is_def auth_db_is_def
        auth_to_dbId_def auth_from_dbId_def AUTH_PWD_LEN_MIN_def AUTH_PWD_LEN_MAX_def)
  from password_change_agrees [OF this, of "\<lambda>i. i"] show ?thesis by blast
qed

text \<open>The secrets of an entry are a map by reference: adding a filled secret makes it found
  under its reference, updates it when the reference was known, changes no other reference and
  keeps the references unique; deleting in the base removes this reference of this entry only.\<close>
lemma auth_secrets_are_a_map:
  assumes "kuniq fst (a_secrets a)" and "s \<noteq> []"
  shows "auth_secret_get (Some (fst (auth_secret_add_or_update pos a (Some r) (Some (blob_of s))))) (Some k) =
      (if k = r then Some (blob_of s) else auth_secret_get (Some a) (Some k)) \<and>
    snd (auth_secret_add_or_update pos a (Some r) (Some (blob_of s))) = Some (blob_of s) \<and>
    kuniq fst (a_secrets (fst (auth_secret_add_or_update pos a (Some r) (Some (blob_of s)))))"
proof (cases "auth_secret_find r (a_secrets a)")
  case None
  hence "find (\<lambda>x. fst x = fst (r, blob_of s)) (a_secrets a) = None"
    by (simp add: auth_secret_find_def)
  from kuniq_ins [OF inserts_one_ins_at this assms(1)] show ?thesis
    using None assms(2)
    by (simp add: auth_secret_add_or_update_def auth_secret_new_def Let_def auth_secret_get_def
        auth_secret_find_ins)
next
  case (Some x)
  thus ?thesis using assms
    by (cases x) (simp add: auth_secret_add_or_update_def Let_def auth_secret_get_def auth_secret_find_upd
        kuniq_kupd)
qed

lemma auth_secrets_are_a_map_witness:
  "auth_secret_get (Some (fst (auth_secret_add_or_update (\<lambda>n. n)
      (auth_body (0, 0) ''to'' ''bob'' ''S1'' None 0 None True None 0 False)
      (Some ''AES256GCM'') (Some (blob_of [1, 2]))))) (Some ''AES256GCM'') = Some (blob_of [1, 2])"
proof -
  have "kuniq fst (a_secrets (auth_body (0, 0) ''to'' ''bob'' ''S1'' None 0 None True None 0 False))"
    by (simp add: auth_body_def kuniq_def Let_def)
  from auth_secrets_are_a_map [OF this, of "[1, 2]" "\<lambda>n. n" "''AES256GCM''" "''AES256GCM''"]
  show ?thesis by simp
qed

end
