(* ===== verification/Events.thy ===== *)
theory Events
  imports Prelude
begin

text \<open>
  Model of \<open>event/event.c\<close>: four event types with ten slots each.  A slot is empty or holds a call
  back and its subscriber.  Triggering an event runs the call backs of its slots in order; what
  it does is the list of the calls.
\<close>

datatype event_type =
  EVENT_INCOMING_CONNECTION | EVENT_CHALLENGE_PROCESSING | EVENT_ALLCLEAR_EXCHANGED | EVENT_CYBER_LOST

definition MAX_CALLBACKS :: nat where "MAX_CALLBACKS = 10"

type_synonym ('cb, 'sub) slots = "('cb \<times> 'sub) option list"
type_synonym ('cb, 'sub) event_table = "event_type \<Rightarrow> ('cb, 'sub) slots"

definition event_callbacks :: "('cb, 'sub) event_table" where
  "event_callbacks = (\<lambda>_. replicate MAX_CALLBACKS None)"

text \<open>The first empty slot is taken; \<open>None\<close> when the ten slots are in use.\<close>
fun take_slot :: "'cb \<times> 'sub \<Rightarrow> ('cb, 'sub) slots \<Rightarrow> ('cb, 'sub) slots option" where
  "take_slot c [] = None"
| "take_slot c (None # ss) = Some (Some c # ss)"
| "take_slot c (Some d # ss) = map_option (\<lambda>r. Some d # r) (take_slot c ss)"

text \<open>The boolean is false when the subscription is only logged as refused.\<close>
definition subscribe_event ::
  "('cb, 'sub) event_table \<Rightarrow> event_type \<Rightarrow> 'cb \<Rightarrow> 'sub \<Rightarrow> ('cb, 'sub) event_table \<times> bool" where
  "subscribe_event t e cb s =
    (case take_slot (cb, s) (t e) of None \<Rightarrow> (t, False) | Some ss \<Rightarrow> (t(e := ss), True))"

definition trigger_event :: "('cb, 'sub) event_table \<Rightarrow> event_type \<Rightarrow> 'ctx \<Rightarrow> ('cb \<times> 'sub \<times> 'ctx) list" where
  "trigger_event t e ctx =
    concat (map (\<lambda>s. case s of None \<Rightarrow> [] | Some (cb, sub) \<Rightarrow> [(cb, sub, ctx)]) (t e))"

section \<open>Lemmas\<close>

lemma take_slot_packed:
  "take_slot c (map Some cs @ replicate n None) =
    (if n = 0 then None else Some (map Some (cs @ [c]) @ replicate (n - 1) None))"
  by (induction cs) (cases n, auto)

definition subscribe_all :: "('cb, 'sub) event_table \<Rightarrow> (event_type \<times> 'cb \<times> 'sub) list \<Rightarrow> ('cb, 'sub) event_table" where
  "subscribe_all t subs = foldl (\<lambda>t (e, cb, s). fst (subscribe_event t e cb s)) t subs"

definition subs_of :: "event_type \<Rightarrow> (event_type \<times> 'cb \<times> 'sub) list \<Rightarrow> ('cb \<times> 'sub) list" where
  "subs_of e subs = map snd (filter (\<lambda>x. fst x = e) subs)"

lemma subscribe_all_slots:
  "subscribe_all event_callbacks subs e =
    map Some (take MAX_CALLBACKS (subs_of e subs)) @
    replicate (MAX_CALLBACKS - length (subs_of e subs)) None"
proof (induction subs rule: rev_induct)
  case Nil
  thus ?case by (simp add: subscribe_all_def event_callbacks_def subs_of_def)
next
  case (snoc x subs)
  obtain e' cb s where x: "x = (e', cb, s)" by (cases x) auto
  let ?t = "subscribe_all event_callbacks subs"
  have step: "subscribe_all event_callbacks (subs @ [x]) = fst (subscribe_event ?t e' cb s)"
    by (simp add: subscribe_all_def x)
  show ?case
  proof (cases "e' = e")
    case False
    hence "fst (subscribe_event ?t e' cb s) e = ?t e"
      by (auto simp: subscribe_event_def split: option.split)
    moreover have "subs_of e (subs @ [x]) = subs_of e subs" using False by (simp add: subs_of_def x)
    ultimately show ?thesis using snoc by (simp only: step)
  next
    case True
    have sub: "subs_of e (subs @ [x]) = subs_of e subs @ [(cb, s)]" using True by (simp add: subs_of_def x)
    show ?thesis
    proof (cases "length (subs_of e subs) < MAX_CALLBACKS")
      case lt: True
      have "take_slot (cb, s) (?t e) =
          Some (map Some (subs_of e subs @ [(cb, s)]) @ replicate (MAX_CALLBACKS - length (subs_of e subs) - 1) None)"
        using lt by (simp add: snoc take_slot_packed)
      thus ?thesis using lt True unfolding step sub by (simp add: subscribe_event_def)
    next
      case ge: False
      hence "take_slot (cb, s) (?t e) = None"
        using take_slot_packed [of "(cb, s)" "take MAX_CALLBACKS (subs_of e subs)" 0] by (simp add: snoc)
      thus ?thesis using ge True snoc unfolding step sub by (simp add: subscribe_event_def)
    qed
  qed
qed

section \<open>Properties\<close>

text \<open>Whatever the interleaving of the subscriptions to the four events, triggering an event
  runs its first ten subscribers, once each, in the order they subscribed, with the context given;
  the later ones and the subscribers of other events are never called.\<close>
lemma trigger_runs_subscribers:
  "trigger_event (subscribe_all event_callbacks subs) e ctx =
    map (\<lambda>(cb, s). (cb, s, ctx)) (take 10 (subs_of e subs))"
proof -
  have "concat (map (\<lambda>s. case s of None \<Rightarrow> [] | Some (cb, sub) \<Rightarrow> [(cb, sub, ctx)])
     (map Some xs @ replicate n None)) = map (\<lambda>(cb, s). (cb, s, ctx)) xs" for xs :: "('a \<times> 'b) list" and n
    by (induction xs) auto
  thus ?thesis
    unfolding trigger_event_def subscribe_all_slots by (simp add: MAX_CALLBACKS_def)
qed

end
