(* ===== verification/Transport.thy ===== *)
theory Transport
  imports Errcode
begin

text \<open>
  Model of \<open>transport/transport.c\<close>: frames ended by the octet 0x0C on a stream, the parsing of the
  address of the peer, start and stop, and the loop that accepts connections.  The stream (library
  \<open>flux\<close>) is a parameter: what its functions return is an argument.  Delays (\<open>sleep\<close>) and the
  sockets set up before the accepting loop are left out.
\<close>

definition RSMP_EOT :: byte where "RSMP_EOT = 0x0C"
definition MAX_THREADS :: nat where "MAX_THREADS = 100"

section \<open>Reading a frame\<close>

text \<open>What the stream gives turn by turn: an octet, a read that returned something else than 1, or the
  stream found closed by \<open>flux->ok\<close> before the read.\<close>
datatype flux_in = Got byte | Failed int | Closed

text \<open>
  The receive buffer: its cells, the size the code believes it has, and the number of octets
  written.  \<open>grow n\<close> tells whether \<open>realloc\<close> to \<open>n\<close> cells succeeds; the believed size grows in
  both cases.
\<close>
definition bufrealloc :: "(nat \<Rightarrow> bool) \<Rightarrow> byte list \<Rightarrow> nat \<Rightarrow> nat \<Rightarrow> nat \<Rightarrow> byte list \<times> nat" where
  "bufrealloc grow buf new_size maxlen offset =
    (if new_size \<ge> maxlen
     then (if grow (maxlen + offset) then buf @ replicate (maxlen + offset - length buf) 0 else buf,
           maxlen + offset)
     else (buf, maxlen))"

text \<open>\<open>strchr\<close> finds the terminator and also the NUL that ends the terminator string.\<close>
definition ends_frame :: "byte \<Rightarrow> bool" where
  "ends_frame c \<longleftrightarrow> c = RSMP_EOT \<or> c = 0"

text \<open>The end of the reading: the last return value and the octets read.  \<open>Waiting\<close> is a read that
  has not returned yet.\<close>
datatype read_end = Waiting | Read_end int "byte list"

text \<open>\<open>r = None\<close>: the variable \<open>r\<close> has not been written.\<close>
fun flux_read_loop ::
  "(nat \<Rightarrow> bool) \<Rightarrow> flux_in list \<Rightarrow> byte list \<Rightarrow> nat \<Rightarrow> nat \<Rightarrow> int option \<Rightarrow> read_end run" where
  "flux_read_loop grow [] buf maxlen i r = Inr Waiting"
| "flux_read_loop grow (Closed # es) buf maxlen i r =
    (case r of None \<Rightarrow> Inl Uninit_read | Some v \<Rightarrow> Inr (Read_end v (take i buf)))"
| "flux_read_loop grow (Failed v # es) buf maxlen i r =
    Inr (Read_end v (if v \<ge> 0 then take i buf else []))"
| "flux_read_loop grow (Got c # es) buf maxlen i r =
    (let (buf1, max1) = bufrealloc grow buf i maxlen 128
     in rbind (bwrite buf1 i c) (\<lambda>buf2.
          if ends_frame c then Inr (Read_end 1 (take (i + 1) buf2))
          else flux_read_loop grow es buf2 max1 (i + 1) (Some 1)))"

definition fluxreadterm :: "(nat \<Rightarrow> bool) \<Rightarrow> flux_in list \<Rightarrow> read_end run" where
  "fluxreadterm grow es = flux_read_loop grow es (replicate 128 0) 128 0 None"

text \<open>The code returned and, on success, the payload without its last octet; \<open>None\<close> while the read
  has not returned.\<close>
definition transport_payload_read ::
  "(nat \<Rightarrow> bool) \<Rightarrow> flux_in list \<Rightarrow> (errcode \<times> byte list option) option run" where
  "transport_payload_read grow es =
    rbind (fluxreadterm grow es) (\<lambda>x. Inr (case x of
      Waiting \<Rightarrow> None
    | Read_end nb bs \<Rightarrow>
        Some (if nb = -1 then (T_connection, None)
              else if nb \<le> 0 then (C_generic, None)
              else (E_no_error, Some (butlast bs)))))"

section \<open>Writing a frame\<close>

text \<open>The code returned and the octets handed to the stream; \<open>send\<close> gives what \<open>flux->write\<close>
  returns.  Without a stream the code is the bare number of the transport family.\<close>
definition transport_payload_write ::
  "(byte list \<Rightarrow> int) option \<Rightarrow> byte list \<Rightarrow> u32 \<times> byte list option" where
  "transport_payload_write flux payload =
    (case flux of
       None \<Rightarrow> (family_no FTransport, None)
     | Some send \<Rightarrow>
         let frame = payload @ [RSMP_EOT]; n = send frame
         in (if n > 0 \<and> n = int (length frame) then err_code E_no_error else err_code C_flux, Some frame))"

section \<open>The address of the peer\<close>

definition is_space :: "char \<Rightarrow> bool" where
  "is_space c \<longleftrightarrow> c = CHR '' '' \<or> CHR 0x09 \<le> c \<and> c \<le> CHR 0x0D"

definition digit_value :: "char \<Rightarrow> int" where
  "digit_value c = of_char c - of_char (CHR ''0'')"

text \<open>\<open>strtol\<close> in base 10: \<open>None\<close> when no digit was found, else the value and the text after it.
  The values out of the range of a \<open>long\<close> are given as they are: they fail the range test as the
  clamped ones do.\<close>
definition strtol10 :: "string \<Rightarrow> (int \<times> string) option" where
  "strtol10 s =
    (let s1 = dropWhile is_space s;
         (neg, s2) = (case s1 of [] \<Rightarrow> (False, s1)
                      | c # t \<Rightarrow> if c = CHR ''-'' then (True, t) else if c = CHR ''+'' then (False, t)
                                else (False, s1));
         ds = takeWhile is_digit s2
     in if ds = [] then None
        else let v = foldl (\<lambda>n c. 10 * n + digit_value c) 0 ds
             in Some (if neg then - v else v, dropWhile is_digit s2))"

definition parse_port :: "string \<Rightarrow> int" where
  "parse_port s =
    (case strtol10 s of
       None \<Rightarrow> 0
     | Some (port, rest) \<Rightarrow> if rest \<noteq> [] \<or> port < 1000 \<or> port > 65535 then 0 else port)"

record 'f transport =
  t_flux :: "'f option"
  t_host :: cstr
  t_port :: int
  t_is_listener :: bool
  t_listening :: bool
  t_stop :: bool

definition transport_new_from_flux :: "'f option \<Rightarrow> 'f transport" where
  "transport_new_from_flux flux =
    \<lparr> t_flux = flux, t_host = None, t_port = 0, t_is_listener = False, t_listening = False,
      t_stop = False \<rparr>"

definition transport_new :: "cstr \<Rightarrow> 'f transport" where
  "transport_new config =
    (let item = transport_new_from_flux None
     in case config of
          None \<Rightarrow> item
        | Some s \<Rightarrow>
            if CHR '':'' \<in> set s
            then item\<lparr> t_host := Some (takeWhile (\<lambda>c. c \<noteq> CHR '':'') s),
                       t_port := parse_port (tl (dropWhile (\<lambda>c. c \<noteq> CHR '':'') s)) \<rparr>
            else item\<lparr> t_host := Some s, t_port := 0 \<rparr>)"

definition transport_enable_server :: "'f transport \<Rightarrow> 'f transport" where
  "transport_enable_server t = t\<lparr> t_is_listener := True \<rparr>"

text \<open>\<open>flux_new\<close>, \<open>flux_open\<close> and \<open>flux_ok\<close> are the functions of the stream library.\<close>
definition transport_start ::
  "(string \<Rightarrow> int \<Rightarrow> 'f option) \<Rightarrow> ('f \<Rightarrow> int) \<Rightarrow> ('f \<Rightarrow> bool) \<Rightarrow> 'f transport \<Rightarrow> 'f transport \<times> errcode" where
  "transport_start flux_new flux_open flux_ok t =
    (if \<not> t_is_listener t
     then let flux = (case t_flux t of
                        Some f \<Rightarrow> Some f
                      | None \<Rightarrow> (case t_host t of
                                  Some h \<Rightarrow> if t_port t \<noteq> 0 then flux_new h (t_port t) else None
                                | None \<Rightarrow> None))
          in case flux of
               None \<Rightarrow> (t, T_generic)
             | Some f \<Rightarrow>
                 let t1 = t\<lparr> t_flux := Some f \<rparr>
                 in if flux_open f \<le> 0 then (t1, T_generic)
                    else if \<not> flux_ok f then (t1, T_generic)
                    else (t1, E_no_error)
     else (t\<lparr> t_listening := True \<rparr>, E_no_error))"

text \<open>The stream is closed without a test that there is one.\<close>
definition transport_stop :: "'f transport \<Rightarrow> 'f transport run" where
  "transport_stop t =
    (case t_flux t of None \<Rightarrow> Inl Null_deref | Some _ \<Rightarrow> Inr (t\<lparr> t_stop := True \<rparr>))"

section \<open>Accepting connections\<close>

text \<open>What one turn of the loop meets: a failed \<open>poll\<close>, no connection within the delay, a poll that
  reports something else than input, or a connection with the outcomes of \<open>accept\<close>, \<open>malloc\<close> and
  \<open>pthread_create\<close>; or the stop flag.\<close>
datatype listen_event =
  Poll_error | Poll_timeout | Poll_other | Incoming bool bool bool | Stop_set

record listener =
  l_threads :: nat      \<comment> \<open>\<open>thread_count\<close>\<close>
  l_served :: nat       \<comment> \<open>connections handed to a thread\<close>
  l_refused :: nat      \<comment> \<open>connections closed at once\<close>
  l_result :: "errcode option"

definition transport_listen_step :: "listener \<Rightarrow> listen_event \<Rightarrow> listener" where
  "transport_listen_step l ev =
    (if l_result l \<noteq> None then l
     else case ev of
            Stop_set \<Rightarrow> l\<lparr> l_result := Some E_no_error \<rparr>
          | Incoming accept_ok alloc_ok create_ok \<Rightarrow>
              if \<not> accept_ok then l\<lparr> l_result := Some T_listener \<rparr>
              else if l_threads l \<ge> MAX_THREADS then l\<lparr> l_refused := l_refused l + 1 \<rparr>
              else if \<not> alloc_ok then l\<lparr> l_refused := l_refused l + 1 \<rparr>
              else if \<not> create_ok
              then l\<lparr> l_threads := l_threads l + 1, l_refused := l_refused l + 1 \<rparr>
              else l\<lparr> l_threads := l_threads l + 1, l_served := l_served l + 1 \<rparr>
          | _ \<Rightarrow> l)"

definition transport_listen :: "listen_event list \<Rightarrow> listener" where
  "transport_listen evs =
    foldl transport_listen_step \<lparr> l_threads = 0, l_served = 0, l_refused = 0, l_result = None \<rparr> evs"

section \<open>Lemmas\<close>

lemma bufrealloc_room:
  assumes "grow = (\<lambda>_. True)" "length buf = maxlen" "i \<le> maxlen"
  shows "length (fst (bufrealloc grow buf i maxlen 128)) = snd (bufrealloc grow buf i maxlen 128) \<and>
    i < snd (bufrealloc grow buf i maxlen 128) \<and>
    take i (fst (bufrealloc grow buf i maxlen 128)) = take i buf"
  using assms by (auto simp: bufrealloc_def)

lemma flux_read_loop_step:
  assumes "length buf = maxlen" "i \<le> maxlen" "\<not> ends_frame c"
  shows "\<exists>buf1 max1. flux_read_loop (\<lambda>_. True) (Got c # es) buf maxlen i r =
      flux_read_loop (\<lambda>_. True) es buf1 max1 (i + 1) (Some 1) \<and>
    length buf1 = max1 \<and> i + 1 \<le> max1 \<and> take (i + 1) buf1 = take i buf @ [c]"
proof -
  obtain b m where bm: "bufrealloc (\<lambda>_. True) buf i maxlen 128 = (b, m)" by fastforce
  have "length b = m" "i < m" "take i b = take i buf"
    using bufrealloc_room [OF refl assms(1,2)] bm by auto
  thus ?thesis using assms(3) bm
    by (intro exI [of _ "b[i := c]"] exI [of _ m]) (simp add: take_Suc_conv_app_nth)
qed

text \<open>Without allocation failure the loop gives the octets up to the one that ends the frame.\<close>
lemma flux_read_loop_frame:
  assumes "list_all (\<lambda>c. \<not> ends_frame c) p" "ends_frame t"
  shows "length buf = maxlen \<Longrightarrow> i \<le> maxlen \<Longrightarrow>
    flux_read_loop (\<lambda>_. True) (map Got (p @ [t]) @ es) buf maxlen i r = Inr (Read_end 1 (take i buf @ p @ [t]))"
  using assms(1)
proof (induction p arbitrary: buf maxlen i r)
  case Nil
  obtain b m where bm: "bufrealloc (\<lambda>_. True) buf i maxlen 128 = (b, m)" by fastforce
  have "length b = m" "i < m" "take i b = take i buf"
    using bufrealloc_room [OF refl Nil(1,2)] bm by auto
  thus ?case using assms(2) bm by (simp add: take_Suc_conv_app_nth)
next
  case (Cons c p)
  have nc: "\<not> ends_frame c" using Cons.prems(3) by simp
  obtain b m where s: "flux_read_loop (\<lambda>_. True) (Got c # map Got (p @ [t]) @ es) buf maxlen i r =
      flux_read_loop (\<lambda>_. True) (map Got (p @ [t]) @ es) b m (i + 1) (Some 1)"
    and b: "length b = m" "i + 1 \<le> m" "take (i + 1) b = take i buf @ [c]"
    using flux_read_loop_step [OF Cons.prems(1,2) nc] by blast
  have "flux_read_loop (\<lambda>_. True) (map Got (p @ [t]) @ es) b m (i + 1) (Some 1) =
      Inr (Read_end 1 (take (i + 1) b @ p @ [t]))"
    by (rule Cons.IH) (use b Cons.prems(3) in auto)
  thus ?case using s b(3) by (simp del: flux_read_loop.simps)
qed

lemma flux_read_loop_prefix:
  assumes "list_all (\<lambda>c. \<not> ends_frame c) p" "p \<noteq> []"
  shows "length buf = maxlen \<Longrightarrow> i \<le> maxlen \<Longrightarrow>
    flux_read_loop (\<lambda>_. True) (map Got p @ Closed # es) buf maxlen i r = Inr (Read_end 1 (take i buf @ p))"
  using assms
proof (induction p arbitrary: buf maxlen i r)
  case (Cons c p)
  have nc: "\<not> ends_frame c" using Cons.prems(3) by simp
  obtain b m where s: "flux_read_loop (\<lambda>_. True) (Got c # map Got p @ Closed # es) buf maxlen i r =
      flux_read_loop (\<lambda>_. True) (map Got p @ Closed # es) b m (i + 1) (Some 1)"
    and b: "length b = m" "i + 1 \<le> m" "take (i + 1) b = take i buf @ [c]"
    using flux_read_loop_step [OF Cons.prems(1,2) nc] by blast
  show ?case
  proof (cases "p = []")
    case True
    thus ?thesis using s b by (simp del: flux_read_loop.simps(4))
  next
    case False
    have "flux_read_loop (\<lambda>_. True) (map Got p @ Closed # es) b m (i + 1) (Some 1) =
        Inr (Read_end 1 (take (i + 1) b @ p))"
      by (rule Cons.IH) (use b Cons.prems(3) False in auto)
    thus ?thesis using s b(3) by (simp del: flux_read_loop.simps)
  qed
qed simp

lemma parse_port_range: "parse_port s = 0 \<or> 1000 \<le> parse_port s \<and> parse_port s \<le> 65535"
  by (simp add: parse_port_def split: option.split prod.split)

lemma listen_threads:
  "l_threads l \<le> MAX_THREADS \<Longrightarrow> l_threads (transport_listen_step l ev) \<le> MAX_THREADS"
  by (simp add: transport_listen_step_def split: listen_event.split)

lemma listen_served:
  "l_served l \<le> l_threads l \<Longrightarrow> l_served (transport_listen_step l ev) \<le> l_threads (transport_listen_step l ev)"
  by (simp add: transport_listen_step_def split: listen_event.split)

section \<open>Properties\<close>

text \<open>C25. A payload without the octets 0x0C and 0 that is written on a working stream is read back
  unchanged from the frame written, whatever follows the frame on the stream; the receive buffer
  is never overrun.\<close>
theorem transport_frame_roundtrip:
  assumes "list_all (\<lambda>c. c \<noteq> 0x0C \<and> c \<noteq> 0) p"
    and "transport_payload_write (Some send) p = (e, Some frame)"
  shows "transport_payload_read (\<lambda>_. True) (map Got frame @ es) = Inr (Some (E_no_error, Some p))"
proof -
  have frame: "frame = p @ [RSMP_EOT]" using assms(2) by (simp add: transport_payload_write_def Let_def)
  have "list_all (\<lambda>c. \<not> ends_frame c) p"
    using assms(1) by (simp add: ends_frame_def RSMP_EOT_def list_all_iff)
  moreover have "ends_frame RSMP_EOT" by (simp add: ends_frame_def)
  ultimately have "fluxreadterm (\<lambda>_. True) (map Got frame @ es) = Inr (Read_end 1 (p @ [RSMP_EOT]))"
    unfolding fluxreadterm_def frame
    using flux_read_loop_frame [of p RSMP_EOT "replicate 128 0" 128 0 es None] by simp
  thus ?thesis by (simp add: transport_payload_read_def)
qed

theorem transport_frame_roundtrip_witness:
  "transport_payload_read (\<lambda>_. True) (map Got [0x7B, 0x7D, 0x0C] @ [Got 0x7B]) =
     Inr (Some (E_no_error, Some [0x7B, 0x7D]))"
  by (rule transport_frame_roundtrip [where send = "\<lambda>_. 3"])
    (simp_all add: transport_payload_write_def Let_def RSMP_EOT_def)

text \<open>A frame cut by the loss of the stream is not reported: what was read before the stream was
  found closed is returned as a successful payload, without its last octet.\<close>
lemma transport_truncated_frame_accepted:
  assumes "list_all (\<lambda>c. c \<noteq> 0x0C \<and> c \<noteq> 0) p" and "p \<noteq> []"
  shows "transport_payload_read (\<lambda>_. True) (map Got p @ Closed # es) =
    Inr (Some (E_no_error, Some (butlast p)))"
proof -
  have "list_all (\<lambda>c. \<not> ends_frame c) p"
    using assms(1) by (simp add: ends_frame_def RSMP_EOT_def list_all_iff)
  thus ?thesis
    using flux_read_loop_prefix [of p "replicate 128 0" 128 0 es None] assms(2)
    by (simp add: transport_payload_read_def fluxreadterm_def)
qed

lemma transport_truncated_frame_accepted_witness:
  "transport_payload_read (\<lambda>_. True) (map Got [0x7B, 0x22, 0x6D] @ Closed # []) =
     Inr (Some (E_no_error, Some (butlast [0x7B, 0x22, 0x6D])))"
  by (rule transport_truncated_frame_accepted) simp_all

text \<open>The port read from an address is 0 or lies between 1000 and 65535, and the host is the
  text before the first colon, or the whole text when there is none.\<close>
lemma transport_address:
  "(t_port (transport_new config) = 0 \<or>
     1000 \<le> t_port (transport_new config) \<and> t_port (transport_new config) \<le> 65535) \<and>
   t_host (transport_new config) = map_option (takeWhile (\<lambda>c. c \<noteq> CHR '':'')) config"
proof (cases config)
  case (Some s)
  show ?thesis
  proof (cases "CHR '':'' \<in> set s")
    case True
    thus ?thesis using parse_port_range by (simp add: transport_new_def Let_def Some)
  next
    case False
    hence "takeWhile (\<lambda>c. c \<noteq> CHR '':'') s = s" by (auto simp: takeWhile_eq_all_conv)
    thus ?thesis using False by (simp add: transport_new_def Let_def Some del: takeWhile_eq_all_conv)
  qed
qed (simp add: transport_new_def transport_new_from_flux_def Let_def)

text \<open>The table of threads of the accepting loop is never overrun, and it is never emptied: at
  most one hundred connections are ever served in the life of a listener, whatever happens to
  the earlier ones.\<close>
lemma transport_listen_bounded:
  "l_threads (transport_listen evs) \<le> 100 \<and> l_served (transport_listen evs) \<le> 100"
proof -
  have "l_threads (foldl transport_listen_step l evs) \<le> MAX_THREADS \<and>
      l_served (foldl transport_listen_step l evs) \<le> l_threads (foldl transport_listen_step l evs)"
    if "l_threads l \<le> MAX_THREADS" "l_served l \<le> l_threads l" for l
    using that by (induction evs arbitrary: l) (auto simp: listen_threads listen_served)
  from this [of "\<lparr> l_threads = 0, l_served = 0, l_refused = 0, l_result = None \<rparr>"]
  show ?thesis by (simp add: transport_listen_def MAX_THREADS_def)
qed

end
