(* ===== verification/Json.thy ===== *)
theory Json
  imports Prelude
begin

text \<open>
  The JSON library the coder calls (\<open>json-c\<close>), as a record of functions: the coder's definitions
  take it as an argument.  \<open>json_sound\<close> states the documented behaviour the coder relies on:
  members added are found, typed values are read back, and parsing a printed value gives the
  value.  At the end of the theory a concrete instance, executable, satisfies it.
\<close>

section \<open>Interface\<close>

record 'j json_api =
  j_parse :: "string \<Rightarrow> 'j option"
  j_parse_ex :: "string \<Rightarrow> 'j option"
  j_print :: "'j \<Rightarrow> string"
  j_new_object :: 'j
  j_add :: "'j \<Rightarrow> string \<Rightarrow> 'j \<Rightarrow> 'j"
  j_get :: "'j \<Rightarrow> string \<Rightarrow> 'j option"
  j_new_string :: "string \<Rightarrow> 'j"
  j_is_string :: "'j \<Rightarrow> bool"
  j_get_string :: "'j \<Rightarrow> cstr"
  j_new_boolean :: "bool \<Rightarrow> 'j"
  j_is_boolean :: "'j \<Rightarrow> bool"
  j_get_boolean :: "'j \<Rightarrow> bool"
  j_new_array :: 'j
  j_is_array :: "'j \<Rightarrow> bool"
  j_array_add :: "'j \<Rightarrow> 'j \<Rightarrow> 'j"
  j_array_length :: "'j \<Rightarrow> nat"
  j_array_get :: "'j \<Rightarrow> nat \<Rightarrow> 'j"

text \<open>\<open>strstr\<close> as a test.\<close>
fun strstr :: "string \<Rightarrow> string \<Rightarrow> bool" where
  "strstr needle [] \<longleftrightarrow> needle = []"
| "strstr needle (c # s) \<longleftrightarrow> take (length needle) (c # s) = needle \<or> strstr needle s"

definition is_alpha :: "char \<Rightarrow> bool" where
  "is_alpha c \<longleftrightarrow> CHR ''a'' \<le> c \<and> c \<le> CHR ''z'' \<or> CHR ''A'' \<le> c \<and> c \<le> CHR ''Z''"

definition quoted :: "string \<Rightarrow> string" where
  "quoted s = CHR 0x22 # s @ [CHR 0x22]"

definition json_sound :: "'j json_api \<Rightarrow> bool" where
  "json_sound J \<longleftrightarrow>
    (\<forall>obj k v. j_parse J (j_print J (j_add J obj k v)) = Some (j_add J obj k v)) \<and>
    (\<forall>obj k v. j_parse_ex J (j_print J (j_add J obj k v)) = Some (j_add J obj k v)) \<and>
    (\<forall>j. j_print J j \<noteq> []) \<and>
    (\<forall>k. j_get J (j_new_object J) k = None) \<and>
    (\<forall>obj k v k'. j_get J (j_add J obj k v) k' = (if k' = k then Some v else j_get J obj k')) \<and>
    (\<forall>s. j_is_string J (j_new_string J s) \<and> j_get_string J (j_new_string J s) = Some s) \<and>
    (\<forall>b. j_is_boolean J (j_new_boolean J b) \<and> j_get_boolean J (j_new_boolean J b) = b) \<and>
    j_array_length J (j_new_array J) = 0 \<and> j_is_array J (j_new_array J) \<and>
    (\<forall>a v. j_is_array J a \<longrightarrow> j_is_array J (j_array_add J a v)) \<and>
    (\<forall>a v. j_array_length J (j_array_add J a v) = j_array_length J a + 1) \<and>
    (\<forall>a v i. i \<le> j_array_length J a \<longrightarrow>
       j_array_get J (j_array_add J a v) i = (if i = j_array_length J a then v else j_array_get J a i)) \<and>
    (\<forall>obj k s. j_get J obj k = Some (j_new_string J s) \<and> list_all is_alpha s \<longrightarrow>
       strstr (quoted s) (j_print J obj))"

section \<open>Objects and arrays built in one go\<close>

definition j_object :: "'j json_api \<Rightarrow> (string \<times> 'j) list \<Rightarrow> 'j" where
  "j_object J ms = foldl (\<lambda>obj (k, v). j_add J obj k v) (j_new_object J) ms"

definition j_array :: "'j json_api \<Rightarrow> 'j list \<Rightarrow> 'j" where
  "j_array J vs = foldl (j_array_add J) (j_new_array J) vs"

text \<open>\<open>json_object_object_get_ex\<close> followed by the test for a string and its reading.\<close>
definition j_string_member :: "'j json_api \<Rightarrow> 'j \<Rightarrow> string \<Rightarrow> string option" where
  "j_string_member J obj k =
    (case j_get J obj k of
       None \<Rightarrow> None
     | Some v \<Rightarrow> if j_is_string J v then j_get_string J v else None)"

section \<open>Lemmas\<close>

lemma json_soundD:
  assumes "json_sound J"
  shows "j_parse J (j_print J (j_add J obj k v)) = Some (j_add J obj k v)"
    "j_parse_ex J (j_print J (j_add J obj k v)) = Some (j_add J obj k v)" "j_print J j \<noteq> []"
    "j_get J (j_new_object J) k = None"
    "j_get J (j_add J obj k v) k' = (if k' = k then Some v else j_get J obj k')"
    "j_is_string J (j_new_string J s)" "j_get_string J (j_new_string J s) = Some s"
    "j_is_boolean J (j_new_boolean J b)" "j_get_boolean J (j_new_boolean J b) = b"
    "j_array_length J (j_new_array J) = 0" "j_is_array J (j_new_array J)"
    "j_is_array J a \<Longrightarrow> j_is_array J (j_array_add J a v)"
    "j_array_length J (j_array_add J a v) = j_array_length J a + 1"
    "i \<le> j_array_length J a \<Longrightarrow>
       j_array_get J (j_array_add J a v) i = (if i = j_array_length J a then v else j_array_get J a i)"
    "j_get J obj k = Some (j_new_string J s) \<Longrightarrow> list_all is_alpha s \<Longrightarrow> strstr (quoted s) (j_print J obj)"
  using assms unfolding json_sound_def by simp_all

lemma j_get_object:
  "json_sound J \<Longrightarrow> j_get J (j_object J ms) k =
    (case find (\<lambda>m. fst m = k) (rev ms) of None \<Rightarrow> None | Some m \<Rightarrow> Some (snd m))"
  by (induction ms rule: rev_induct) (auto simp: j_object_def json_soundD)

lemma j_array_elems:
  assumes "json_sound J"
  shows "j_array_length J (j_array J vs) = length vs \<and>
    (\<forall>i < length vs. j_array_get J (j_array J vs) i = vs ! i) \<and> j_is_array J (j_array J vs)"
  using assms by (induction vs rule: rev_induct) (auto simp: j_array_def json_soundD nth_append)

lemma j_string_member_string:
  "json_sound J \<Longrightarrow> j_get J obj k = Some (j_new_string J s) \<Longrightarrow> j_string_member J obj k = Some s"
  by (simp add: j_string_member_def json_soundD)

lemma strstr_iff: "strstr n s \<longleftrightarrow> (\<exists>p q. s = p @ n @ q)"
proof (induction s)
  case (Cons c s)
  show ?case
  proof
    assume "strstr n (c # s)"
    then consider "take (length n) (c # s) = n" | "strstr n s" by auto
    thus "\<exists>p q. c # s = p @ n @ q"
    proof cases
      case 1
      hence "c # s = [] @ n @ drop (length n) (c # s)" by (metis append_Nil append_take_drop_id)
      thus ?thesis by blast
    next
      case 2
      then obtain p q where "s = p @ n @ q" using Cons by blast
      hence "c # s = (c # p) @ n @ q" by simp
      thus ?thesis by blast
    qed
  next
    assume "\<exists>p q. c # s = p @ n @ q"
    then obtain p q where e: "c # s = p @ n @ q" by blast
    show "strstr n (c # s)"
    proof (cases p)
      case Nil
      hence "take (length n) (c # s) = n" using e by simp
      thus ?thesis by simp
    next
      case (Cons d p')
      hence "s = p' @ n @ q" using e by simp
      thus ?thesis using Cons.IH by auto
    qed
  qed
qed auto

lemma strstr_append: "strstr n s \<Longrightarrow> strstr n (p @ s @ q)"
  unfolding strstr_iff by (metis append.assoc)

lemma strstr_mid: "strstr n (p @ n @ q)"
  unfolding strstr_iff by blast

section \<open>An executable instance\<close>

text \<open>
  Values are texts.  A string is its quoted text behind a tag; an object is a chain of members, an
  array a chain of elements, the last added first, each part behind its length in unary.
\<close>

definition pack :: "string \<Rightarrow> string" where
  "pack s = replicate (length s) (CHR ''1'') @ CHR ''0'' # s"

definition unpack :: "string \<Rightarrow> string \<times> string" where
  "unpack t =
    (let n = length (takeWhile (\<lambda>c. c = CHR ''1'') t); rest = drop (n + 1) t
     in (take n rest, drop n rest))"

lemma takeWhile_unary:
  "takeWhile (\<lambda>c. c = CHR ''1'') (replicate n (CHR ''1'') @ CHR ''0'' # t) = replicate n (CHR ''1'')"
  by (induction n) auto

lemma unpack_pack: "unpack (pack s @ t) = (s, t)"
  unfolding unpack_def pack_def Let_def append.assoc append_Cons takeWhile_unary by simp

lemma unpack_shorter: "t \<noteq> [] \<Longrightarrow> length (snd (unpack t)) < length t"
  by (cases t) (simp_all add: unpack_def Let_def)

lemma unpack_le: "length (snd (unpack t)) \<le> length t"
  by (simp add: unpack_def Let_def)

fun text_add :: "string \<Rightarrow> string \<Rightarrow> string \<Rightarrow> string" where
  "text_add obj k v = CHR ''o'' # pack k @ pack v @ obj"

function text_get :: "string \<Rightarrow> string \<Rightarrow> string option" where
  "text_get t k =
    (case t of
       [] \<Rightarrow> None
     | c # r \<Rightarrow>
         if c = CHR ''o''
         then let (k1, r1) = unpack r; (v1, r2) = unpack r1
              in if k = k1 then Some v1 else text_get r2 k
         else None)"
  by pat_completeness auto
termination
proof (relation "measure (\<lambda>(t, k). length t)", goal_cases)
  case (2 t k c r x k1 r1 y v1 r2)
  have "length r1 \<le> length r" "length r2 \<le> length r1"
    using unpack_le [of r] unpack_le [of r1] 2 by (metis snd_conv)+
  thus ?case using 2 by simp
qed simp

declare text_get.simps [simp del]

fun text_array_add :: "string \<Rightarrow> string \<Rightarrow> string" where
  "text_array_add a v = CHR ''a'' # pack v @ a"

function text_elems :: "string \<Rightarrow> string list" where
  "text_elems t =
    (case t of
       [] \<Rightarrow> []
     | c # r \<Rightarrow> if c = CHR ''a'' then let (v, r1) = unpack r in text_elems r1 @ [v] else [])"
  by pat_completeness auto
termination
proof (relation "measure length", goal_cases)
  case (2 t c r x v r1)
  have "length r1 \<le> length r" using unpack_le [of r] 2 by (metis snd_conv)
  thus ?case using 2 by simp
qed simp

declare text_elems.simps [simp del]

definition text_json :: "string json_api" where
  "text_json =
    \<lparr> j_parse = (\<lambda>s. case s of [] \<Rightarrow> None | c # r \<Rightarrow> Some r),
      j_parse_ex = (\<lambda>s. case s of [] \<Rightarrow> None | c # r \<Rightarrow> Some r), j_print = (\<lambda>v. CHR ''!'' # v),
      j_new_object = [], j_add = text_add, j_get = text_get,
      j_new_string = (\<lambda>s. CHR ''s'' # quoted s),
      j_is_string = (\<lambda>v. case v of [] \<Rightarrow> False | c # r \<Rightarrow> c = CHR ''s''),
      j_get_string = (\<lambda>v. Some (butlast (tl (tl v)))),
      j_new_boolean = (\<lambda>b. if b then ''bt'' else ''bf''),
      j_is_boolean = (\<lambda>v. v = ''bt'' \<or> v = ''bf''),
      j_get_boolean = (\<lambda>v. v = ''bt''),
      j_new_array = [], j_is_array = (\<lambda>v. case v of [] \<Rightarrow> True | c # r \<Rightarrow> c = CHR ''a''),
      j_array_add = text_array_add,
      j_array_length = (\<lambda>v. length (text_elems v)),
      j_array_get = (\<lambda>v i. text_elems v ! i) \<rparr>"

lemma text_get_add: "text_get (text_add obj k v) k' = (if k' = k then Some v else text_get obj k')"
  by (subst text_get.simps) (simp add: unpack_pack)

lemma text_elems_add: "text_elems (text_array_add a v) = text_elems a @ [v]"
  by (subst text_elems.simps) (simp add: unpack_pack)

lemma unpack_parts: "unpack t = (a, b) \<Longrightarrow> \<exists>p. t = p @ a @ b"
  unfolding unpack_def Let_def by (metis append_take_drop_id prod.inject)

lemma unpack_strstr: "unpack t = (a, b) \<Longrightarrow> strstr n a \<or> strstr n b \<Longrightarrow> strstr n t"
  by (metis unpack_parts strstr_append append.assoc append_Nil2)

lemma text_get_strstr: "text_get t k = Some v \<Longrightarrow> strstr v t"
proof (induction t k rule: text_get.induct)
  case (1 t k)
  show ?case
  proof (cases t)
    case Nil
    thus ?thesis using 1(2) by (simp add: text_get.simps)
  next
    case (Cons c r)
    obtain k1 r1 where u: "unpack r = (k1, r1)" by fastforce
    obtain v1 r2 where u': "unpack r1 = (v1, r2)" by fastforce
    have c: "c = CHR ''o''" using 1(2) Cons by (subst (asm) text_get.simps) (auto split: if_splits)
    have "strstr v v1 \<or> strstr v r2"
    proof (cases "k = k1")
      case True
      hence "v1 = v" using 1(2) Cons c u u' by (subst (asm) text_get.simps) simp
      thus ?thesis using strstr_mid [of v "[]" "[]"] by simp
    next
      case False
      hence "text_get r2 k = Some v" using 1(2) Cons c u u' by (subst (asm) text_get.simps) simp
      thus ?thesis using 1(1) Cons c u u' False by auto
    qed
    hence "strstr v r" using unpack_strstr [OF u'] unpack_strstr [OF u] by blast
    thus ?thesis using Cons by simp
  qed
qed

lemma text_json_sound: "json_sound text_json"
proof -
  have "strstr (quoted s) (CHR ''!'' # t)" if "text_get t k = Some (CHR ''s'' # quoted s)" for s t k
    using text_get_strstr [OF that] unfolding strstr_iff by (metis append_Cons append.assoc append_Nil)
  thus ?thesis
    unfolding json_sound_def text_json_def json_api.simps
    by (auto simp: text_get_add text_elems_add text_get.simps [of "[]"] text_elems.simps [of "[]"]
        quoted_def nth_append simp del: text_add.simps text_array_add.simps)
      simp
qed

end
