(* ===== verification/CoderMsg.thy ===== *)
theory CoderMsg
  imports Json Errcode AuthPwd Base64
begin

text \<open>
  Model of the messages of the securing layer in \<open>coder/coder.c\<close> and \<open>coder.h\<close>: the union
  \<open>Message\<close> with its check, its serialisation and its parsing, the agreement on the ciphers, the
  acknowledgement, and the parsing of \<open>Ping\<close>, \<open>Pong\<close> and \<open>ChangePwdRequest\<close>.  The JSON library is
  the argument \<open>J\<close> and a drawn identifier (\<open>libuuid\<close>) the argument \<open>uuid\<close>.  An error code is
  \<open>Inr (Inl code)\<close>, a result \<open>Inr (Inr x)\<close>, a fault \<open>Inl f\<close>.  The lengths given beside a text are
  those of the text, as all callers pass them; a failing allocation is left out.
\<close>

type_synonym 'a outcome = "(errcode + 'a) run"

section \<open>The messages\<close>

definition UUID_STR_LEN :: nat where "UUID_STR_LEN = 37"

datatype msg_body =
    Encrypted cstr cstr "cstr list option"
  | AllClear
  | ChangePwdRequest cstr
  | ChangePwdResponse bool string
  | Ping cstr
  | Pong string cstr

record message =
  m_mId :: string
  m_body :: msg_body

text \<open>What \<open>initMessage\<close> gives: the fields of the union zeroed.\<close>
fun body_zero :: "msg_body \<Rightarrow> msg_body" where
  "body_zero (Encrypted _ _ _) = Encrypted None None None"
| "body_zero AllClear = AllClear"
| "body_zero (ChangePwdRequest _) = ChangePwdRequest None"
| "body_zero (ChangePwdResponse _ _) = ChangePwdResponse False []"
| "body_zero (Ping _) = Ping None"
| "body_zero (Pong _ _) = Pong [] None"

definition initMessage :: "string \<Rightarrow> msg_body \<Rightarrow> message" where
  "initMessage uuid kind = \<lparr> m_mId = uuid, m_body = body_zero kind \<rparr>"

definition present :: "cstr \<Rightarrow> bool" where
  "present s \<longleftrightarrow> (case s of None \<Rightarrow> False | Some t \<Rightarrow> t \<noteq> [])"

text \<open>The estimate of the length of a password from its base64 text.\<close>
definition pwd_original_length :: "string \<Rightarrow> int run" where
  "pwd_original_length t =
    (let n = length t
     in if t ! (n - 1) = CHR ''=''
        then if n < 2 then Inl Read_oob
             else Inr (int n * 3 div 4 - (if t ! (n - 2) = CHR ''='' then 2 else 1))
        else Inr (int n * 3 div 4))"

text \<open>True for the result 0.\<close>
definition messageCheckFields :: "message option \<Rightarrow> bool run" where
  "messageCheckFields msg =
    (case msg of
       None \<Rightarrow> Inr False
     | Some m \<Rightarrow>
         if length (m_mId m) \<noteq> UUID_STR_LEN - 1 then Inr False
         else (case m_body m of
             Encrypted sId login data \<Rightarrow>
               Inr (present sId \<and>
                    (case data of None \<Rightarrow> False | Some ds \<Rightarrow> ds \<noteq> [] \<and> list_all present ds))
           | AllClear \<Rightarrow> Inr True
           | ChangePwdRequest pwd \<Rightarrow>
               if \<not> present pwd then Inr False
               else rbind (pwd_original_length (the pwd)) (\<lambda>n. Inr (\<not> n \<ge> int AUTH_PWD_LEN_MAX))
           | ChangePwdResponse status oMId \<Rightarrow> Inr (oMId \<noteq> [])
           | Ping pad \<Rightarrow> Inr (present pad)
           | Pong oMId pad \<Rightarrow> Inr (present pad \<and> oMId \<noteq> [])))"

section \<open>Serialisation\<close>

text \<open>\<open>json_object_new_string\<close> of a pointer.\<close>
definition new_string :: "'j json_api \<Rightarrow> cstr \<Rightarrow> 'j run" where
  "new_string J s = (case s of None \<Rightarrow> Inl Null_deref | Some t \<Rightarrow> Inr (j_new_string J t))"

fun new_strings :: "'j json_api \<Rightarrow> cstr list \<Rightarrow> 'j list run" where
  "new_strings J [] = Inr []"
| "new_strings J (s # ss) = rbind (new_string J s) (\<lambda>v. rbind (new_strings J ss) (\<lambda>vs. Inr (v # vs)))"

text \<open>The members a body adds to the object, in their order.\<close>
definition body_members :: "'j json_api \<Rightarrow> msg_body \<Rightarrow> (string \<times> 'j) list run" where
  "body_members J body =
    (case body of
       Encrypted sId login data \<Rightarrow>
         rbind (new_string J sId) (\<lambda>s.
         rbind (new_strings J (case data of None \<Rightarrow> [] | Some ds \<Rightarrow> ds)) (\<lambda>ds.
         rbind (new_string J login) (\<lambda>l.
           Inr [(''type'', j_new_string J ''Encrypted''), (''sId'', s), (''data'', j_array J ds),
                (''login'', l)])))
     | AllClear \<Rightarrow> Inr [(''type'', j_new_string J ''AllClear'')]
     | ChangePwdRequest pwd \<Rightarrow>
         rbind (new_string J pwd) (\<lambda>p.
           Inr [(''type'', j_new_string J ''ChangePwdRequest''), (''pwd'', p)])
     | ChangePwdResponse status oMId \<Rightarrow>
         Inr [(''type'', j_new_string J ''ChangePwdResponse''), (''oMId'', j_new_string J oMId),
              (''status'', j_new_boolean J status)]
     | Ping pad \<Rightarrow>
         rbind (new_string J pad) (\<lambda>p. Inr [(''type'', j_new_string J ''Ping''), (''pad'', p)])
     | Pong oMId pad \<Rightarrow>
         rbind (new_string J pad) (\<lambda>p.
           Inr [(''type'', j_new_string J ''Pong''), (''pad'', p), (''oMId'', j_new_string J oMId)]))"

definition serializeMessage :: "'j json_api \<Rightarrow> message option \<Rightarrow> string outcome" where
  "serializeMessage J msg =
    rbind (messageCheckFields msg) (\<lambda>ok.
      case msg of
        None \<Rightarrow> Inr (Inl J_encode)
      | Some m \<Rightarrow>
          if \<not> ok then Inr (Inl J_encode)
          else rbind (body_members J (m_body m)) (\<lambda>ms.
            Inr (Inr (j_print J (j_object J
              ([(''mType'', j_new_string J ''eRMsg''), (''mId'', j_new_string J (m_mId m))] @ ms))))))"

section \<open>Parsing\<close>

text \<open>\<open>Not_json\<close> is the code \<open>_rsmp_errcod_json_decode_\<close>, which leaves the result unwritten;
  \<open>Rejected\<close> is the result -1, which sets it to \<open>NULL\<close>.\<close>
datatype deser_error = Not_json | Rejected

text \<open>\<open>strcpy\<close> into the array of an identifier.\<close>
definition strcpy_uuid :: "string \<Rightarrow> string run" where
  "strcpy_uuid s = (if length s < UUID_STR_LEN then Inr s else Inl Write_oob)"

text \<open>The body by the type; \<open>None\<close> is an error code.\<close>
definition parse_body :: "'j json_api \<Rightarrow> 'j \<Rightarrow> msg_body option run" where
  "parse_body J obj =
    (let str = j_string_member J obj
     in case str ''type'' of
          None \<Rightarrow> Inr None
        | Some t \<Rightarrow>
            if t = ''AllClear'' then Inr (Some AllClear)
            else if t = ''ChangePwdRequest''
            then Inr (case str ''pwd'' of None \<Rightarrow> None | Some p \<Rightarrow> Some (ChangePwdRequest (Some p)))
            else if t = ''ChangePwdResponse''
            then (case str ''oMId'' of
                    None \<Rightarrow> Inr None
                  | Some o1 \<Rightarrow> rbind (strcpy_uuid o1) (\<lambda>oMId. Inr
                      (case j_get J obj ''status'' of
                         None \<Rightarrow> None
                       | Some v \<Rightarrow> if j_is_boolean J v
                                  then Some (ChangePwdResponse (j_get_boolean J v) oMId) else None)))
            else if t = ''Ping''
            then Inr (case str ''pad'' of None \<Rightarrow> None | Some p \<Rightarrow> Some (Ping (Some p)))
            else if t = ''Pong''
            then (case str ''pad'' of
                    None \<Rightarrow> Inr None
                  | Some p \<Rightarrow> (case str ''oMId'' of
                                None \<Rightarrow> Inr None
                              | Some o1 \<Rightarrow> rbind (strcpy_uuid o1) (\<lambda>oMId.
                                            Inr (Some (Pong oMId (Some p))))))
            else Inr None)"

definition deserializeMessage :: "'j json_api \<Rightarrow> cstr \<Rightarrow> (deser_error + message) run" where
  "deserializeMessage J payload =
    (case payload of
       None \<Rightarrow> Inr (Inl Not_json)
     | Some text \<Rightarrow>
         (case j_parse_ex J text of
            None \<Rightarrow> Inr (Inl Not_json)
          | Some obj \<Rightarrow>
              (case (j_string_member J obj ''mType'', j_string_member J obj ''mId'') of
                 (Some mType, Some mId) \<Rightarrow>
                   if mType \<noteq> ''eRMsg'' \<or> length mId \<noteq> UUID_STR_LEN - 1 then Inr (Inl Rejected)
                   else rbind (parse_body J obj) (\<lambda>b.
                     case b of
                       None \<Rightarrow> Inr (Inl Rejected)
                     | Some body \<Rightarrow>
                         let m = \<lparr> m_mId = mId, m_body = body \<rparr>
                         in rbind (messageCheckFields (Some m)) (\<lambda>ok.
                              Inr (if ok then Inr m else Inl Rejected)))
               | _ \<Rightarrow> Inr (Inl Rejected))))"

section \<open>Messages read member by member\<close>

text \<open>All of the members, or none of them.\<close>
fun j_members :: "'j json_api \<Rightarrow> 'j \<Rightarrow> string list \<Rightarrow> 'j list option" where
  "j_members J obj [] = Some []"
| "j_members J obj (k # ks) =
    (case j_get J obj k of
       None \<Rightarrow> None
     | Some v \<Rightarrow> (case j_members J obj ks of None \<Rightarrow> None | Some vs \<Rightarrow> Some (v # vs)))"

text \<open>\<open>json_object_get_string\<close> handed to \<open>strcmp\<close> or \<open>strdup\<close>: it is \<open>NULL\<close> for the JSON value null.\<close>
definition get_string :: "'j json_api \<Rightarrow> 'j \<Rightarrow> string run" where
  "get_string J v = (case j_get_string J v of None \<Rightarrow> Inl Null_deref | Some s \<Rightarrow> Inr s)"

text \<open>\<open>strcmp(mType, "eRMsg") != 0 || strcmp(type, t) != 0\<close>, negated.\<close>
definition header_is :: "'j json_api \<Rightarrow> string \<Rightarrow> 'j \<Rightarrow> 'j \<Rightarrow> bool run" where
  "header_is J t mType type =
    rbind (get_string J mType) (\<lambda>a.
      if a \<noteq> ''eRMsg'' then Inr False else rbind (get_string J type) (\<lambda>b. Inr (b = t)))"

text \<open>\<open>json_object_array_length\<close> asserts that its argument is an array.\<close>
definition array_length :: "'j json_api \<Rightarrow> 'j \<Rightarrow> nat run" where
  "array_length J v = (if j_is_array J v then Inr (j_array_length J v) else Inl Assert_failed)"

fun get_strings :: "'j json_api \<Rightarrow> 'j list \<Rightarrow> string list run" where
  "get_strings J [] = Inr []"
| "get_strings J (v # vs) = rbind (get_string J v) (\<lambda>s. rbind (get_strings J vs) (\<lambda>ss. Inr (s # ss)))"

definition array_values :: "'j json_api \<Rightarrow> 'j \<Rightarrow> nat \<Rightarrow> 'j list" where
  "array_values J v n = map (j_array_get J v) [0..<n]"

text \<open>The payload of the agreement, and the identifier drawn for it.\<close>
definition CipherAgreement_serial ::
  "'j json_api \<Rightarrow> string \<Rightarrow> cstr \<Rightarrow> string list \<Rightarrow> (string \<times> string) outcome" where
  "CipherAgreement_serial J uuid sId_local ciphers =
    (case sId_local of
       None \<Rightarrow> Inr (Inl J_encode)
     | Some sId \<Rightarrow>
         if ciphers = [] then Inr (Inl J_encode)
         else Inr (Inr (j_print J (j_object J
           [(''mType'', j_new_string J ''eRMsg''), (''type'', j_new_string J ''CipherAgreement''),
            (''mId'', j_new_string J uuid), (''sId'', j_new_string J sId),
            (''cipher'', j_array J (map (j_new_string J) ciphers))]), uuid)))"

text \<open>The names of the ciphers, the identifier and the site; \<open>mId0\<close> is what \<open>*mId\<close> holds before.\<close>
definition CipherAgreement_deserial ::
  "'j json_api \<Rightarrow> cstr \<Rightarrow> cstr \<Rightarrow> (string list \<times> string \<times> string) outcome" where
  "CipherAgreement_deserial J buf mId0 =
    (case buf of
       None \<Rightarrow> Inr (Inl J_parse)
     | Some text \<Rightarrow>
         if text = [] \<or> mId0 \<noteq> None then Inr (Inl J_parse)
         else (case j_parse J text of
             None \<Rightarrow> Inr (Inl J_parse)
           | Some obj \<Rightarrow>
               (case j_members J obj [''mType'', ''type'', ''mId'', ''sId'', ''cipher''] of
                  Some [mType, type, mId, sId, ciphers] \<Rightarrow>
                    rbind (header_is J ''CipherAgreement'' mType type) (\<lambda>ok.
                      if \<not> ok then Inr (Inl J_parse)
                      else rbind (get_string J mId) (\<lambda>mId.
                           rbind (get_string J sId) (\<lambda>sId.
                           rbind (array_length J ciphers) (\<lambda>n.
                             if n = 0 then Inr (Inl J_parse)
                             else rbind (get_strings J (array_values J ciphers n)) (\<lambda>cs.
                                    Inr (Inr (cs, mId, sId)))))))
                | _ \<Rightarrow> Inr (Inl J_parse))))"

definition MessageAck_serial :: "'j json_api \<Rightarrow> cstr \<Rightarrow> string outcome" where
  "MessageAck_serial J mId =
    (case mId of
       None \<Rightarrow> Inr (Inl J_encode)
     | Some i \<Rightarrow> Inr (Inr (j_print J (j_object J
         [(''mType'', j_new_string J ''eRMsg''), (''type'', j_new_string J ''MessageAck''),
          (''oMId'', j_new_string J i)]))))"

text \<open>\<open>strncmp(s, t, strlen(t)) == 0\<close>.\<close>
definition starts_with :: "string \<Rightarrow> string \<Rightarrow> bool" where
  "starts_with s t \<longleftrightarrow> take (length t) s = t"

definition MessageAck_check :: "'j json_api \<Rightarrow> cstr \<Rightarrow> cstr \<Rightarrow> errcode run" where
  "MessageAck_check J buf mId =
    (case (buf, mId) of
       (Some text, Some i) \<Rightarrow>
         if text = [] then Inr J_parse
         else (case j_parse J text of
             None \<Rightarrow> Inr J_parse
           | Some obj \<Rightarrow>
               (case j_members J obj [''mType'', ''type'', ''oMId''] of
                  Some [mType, type, oMId] \<Rightarrow>
                    rbind (header_is J ''MessageAck'' mType type) (\<lambda>ok.
                      if \<not> ok then Inr J_parse
                      else rbind (get_string J oMId) (\<lambda>s.
                             Inr (if starts_with s i then E_no_error else J_parse)))
                | _ \<Rightarrow> Inr J_parse))
     | _ \<Rightarrow> Inr J_parse)"

text \<open>The identifier of a \<open>Ping\<close>; the padding is read but only its absence matters.\<close>
definition Ping_deserial :: "'j json_api \<Rightarrow> cstr \<Rightarrow> string outcome" where
  "Ping_deserial J buf =
    (case buf of
       None \<Rightarrow> Inr (Inl J_parse)
     | Some text \<Rightarrow>
         if text = [] then Inr (Inl J_parse)
         else (case j_parse J text of
             None \<Rightarrow> Inr (Inl J_parse)
           | Some obj \<Rightarrow>
               (case j_members J obj [''mType'', ''type'', ''pad'', ''mId''] of
                  Some [mType, type, pad, mId] \<Rightarrow>
                    rbind (header_is J ''Ping'' mType type) (\<lambda>ok.
                      if \<not> ok then Inr (Inl J_parse)
                      else if j_get_string J pad = None then Inr (Inl J_decode)
                      else rbind (get_string J mId) (\<lambda>i. Inr (Inr i)))
                | _ \<Rightarrow> Inr (Inl J_parse))))"

definition Pong_deserial :: "'j json_api \<Rightarrow> cstr \<Rightarrow> cstr \<Rightarrow> string outcome" where
  "Pong_deserial J oMId payload =
    (case payload of
       None \<Rightarrow> Inr (Inl J_parse)
     | Some text \<Rightarrow>
         if text = [] then Inr (Inl J_parse)
         else (case j_parse J text of
             None \<Rightarrow> Inr (Inl J_parse)
           | Some obj \<Rightarrow>
               (case j_members J obj [''mType'', ''type'', ''oMId'', ''mId''] of
                  Some [mType, type, jo, mId] \<Rightarrow>
                    rbind (header_is J ''Pong'' mType type) (\<lambda>ok.
                      if \<not> ok then Inr (Inl J_parse)
                      else (case j_get_string J jo of
                          None \<Rightarrow> Inr (Inl J_decode)
                        | Some rxed \<Rightarrow>
                            if oMId \<noteq> None \<and> oMId \<noteq> Some rxed then Inr (Inl J_parse)
                            else rbind (get_string J mId) (\<lambda>i. Inr (Inr i))))
                | _ \<Rightarrow> Inr (Inl J_parse))))"

text \<open>The password in base64 and the identifier; neither \<open>mType\<close> nor \<open>type\<close> is looked at.\<close>
definition ChangePwdRequest_deserial :: "'j json_api \<Rightarrow> cstr \<Rightarrow> (string \<times> string) outcome" where
  "ChangePwdRequest_deserial J buf =
    (case buf of
       None \<Rightarrow> Inr (Inl J_parse)
     | Some text \<Rightarrow>
         if text = [] then Inr (Inl J_parse)
         else (case j_parse J text of
             None \<Rightarrow> Inr (Inl J_parse)
           | Some obj \<Rightarrow>
               (case j_members J obj [''pwd'', ''mId''] of
                  Some [pwd, mId] \<Rightarrow>
                    rbind (get_string J pwd) (\<lambda>p. rbind (get_string J mId) (\<lambda>i. Inr (Inr (p, i))))
                | _ \<Rightarrow> Inr (Inl J_parse))))"

section \<open>Lemmas\<close>

lemma parse_object:
  assumes "json_sound J" "ms \<noteq> []"
  shows "j_parse J (j_print J (j_object J ms)) = Some (j_object J ms)"
    "j_parse_ex J (j_print J (j_object J ms)) = Some (j_object J ms)"
proof -
  obtain ms' m where "ms = ms' @ [m]" using assms(2) by (metis rev_exhaust)
  moreover obtain k v where "m = (k, v)" by fastforce
  ultimately have "j_object J ms = j_add J (j_object J ms') k v" by (simp add: j_object_def)
  thus "j_parse J (j_print J (j_object J ms)) = Some (j_object J ms)"
    "j_parse_ex J (j_print J (j_object J ms)) = Some (j_object J ms)"
    using assms(1) by (simp_all add: json_soundD)
qed

lemma new_string_Some [simp]: "new_string J (Some s) = Inr (j_new_string J s)"
  by (simp add: new_string_def)

lemma get_string_new [simp]: "json_sound J \<Longrightarrow> get_string J (j_new_string J s) = Inr s"
  by (simp add: get_string_def json_soundD)

lemma get_strings_new: "json_sound J \<Longrightarrow> get_strings J (map (j_new_string J) ss) = Inr ss"
  by (induction ss) simp_all

lemma array_values_new:
  assumes "json_sound J"
  shows "array_values J (j_array J vs) (length vs) = vs"
  using j_array_elems [OF assms, of vs] by (intro nth_equalityI) (simp_all add: array_values_def)

lemma array_length_new [simp]: "json_sound J \<Longrightarrow> array_length J (j_array J vs) = Inr (length vs)"
  using j_array_elems [of J vs] by (simp add: array_length_def)

lemma header_new [simp]:
  "json_sound J \<Longrightarrow> header_is J t (j_new_string J a) (j_new_string J b) = Inr (a = ''eRMsg'' \<and> b = t)"
  unfolding header_is_def by (cases "a = ''eRMsg''") (simp_all only: get_string_new rbind.simps if_True if_False simp_thms)

text \<open>An identifier of the fixed size, in the two bodies that carry one.\<close>
fun body_ids_ok :: "msg_body \<Rightarrow> bool" where
  "body_ids_ok (ChangePwdResponse status oMId) \<longleftrightarrow> length oMId < UUID_STR_LEN"
| "body_ids_ok (Pong oMId pad) \<longleftrightarrow> length oMId < UUID_STR_LEN"
| "body_ids_ok _ \<longleftrightarrow> True"

fun is_encrypted :: "msg_body \<Rightarrow> bool" where
  "is_encrypted (Encrypted _ _ _) \<longleftrightarrow> True"
| "is_encrypted _ \<longleftrightarrow> False"

lemma j_get_append:
  "json_sound J \<Longrightarrow> j_get J (j_object J (ms @ [(k, v)])) k' =
    (if k' = k then Some v else j_get J (j_object J ms) k')"
  by (simp add: j_object_def json_soundD(5))

lemma j_string_member_new:
  "json_sound J \<Longrightarrow> j_string_member J (j_object J (ms @ [(k, v)])) k' =
    (if k' = k then (if j_is_string J v then j_get_string J v else None)
     else j_string_member J (j_object J ms) k')"
  by (simp add: j_string_member_def j_get_append)

lemma append_two: "xs @ [a, b] = (xs @ [a]) @ [b]" "xs @ [a, b, c] = ((xs @ [a]) @ [b]) @ [c]"
  by simp_all

lemma parse_body_members:
  assumes "json_sound J" "body_members J b = Inr ms" "body_ids_ok b" "\<not> is_encrypted b"
  shows "parse_body J (j_object J (pre @ ms)) = Inr (Some b)"
proof -
  note S = append_two j_string_member_new [OF assms(1)] j_get_append [OF assms(1)]
    json_soundD(6-9) [OF assms(1)] strcpy_uuid_def parse_body_def Let_def
  show ?thesis
  proof (cases b)
    case AllClear
    thus ?thesis using assms(2) by (auto simp: body_members_def S simp del: append_assoc)
  next
    case (ChangePwdRequest pwd)
    thus ?thesis using assms(2) by (cases pwd) (auto simp: body_members_def new_string_def S simp del: append_assoc)
  next
    case (ChangePwdResponse st oMId)
    thus ?thesis using assms(2,3) by (auto simp: body_members_def S simp del: append_assoc)
  next
    case (Ping pad)
    thus ?thesis using assms(2) by (cases pad) (auto simp: body_members_def new_string_def S simp del: append_assoc)
  next
    case (Pong oMId pad)
    thus ?thesis using assms(2,3) by (cases pad) (auto simp: body_members_def new_string_def S simp del: append_assoc)
  qed (use assms(4) in simp)
qed

lemma parse_body_encrypted:
  assumes "json_sound J" "body_members J (Encrypted s l d) = Inr ms"
  shows "parse_body J (j_object J (pre @ ms)) = Inr None"
proof -
  from assms(2) obtain vs ds vl where "ms = [(''type'', j_new_string J ''Encrypted''), (''sId'', vs),
      (''data'', ds), (''login'', vl)]"
    by (auto simp: body_members_def)
  hence "pre @ ms = (((pre @ [(''type'', j_new_string J ''Encrypted'')]) @ [(''sId'', vs)]) @
      [(''data'', ds)]) @ [(''login'', vl)]" by simp
  hence "j_string_member J (j_object J (pre @ ms)) ''type'' = Some ''Encrypted''"
    by (simp add: j_string_member_new [OF assms(1)] json_soundD(6,7) [OF assms(1)] del: append_assoc)
  thus ?thesis by (simp add: parse_body_def)
qed

lemma body_members_keys:
  "body_members J b = Inr ms \<Longrightarrow> ''mType'' \<notin> fst ` set ms \<and> ''mId'' \<notin> fst ` set ms"
  by (cases b) (auto simp: body_members_def)

lemma j_string_member_skip:
  "json_sound J \<Longrightarrow> k \<notin> fst ` set ms \<Longrightarrow>
   j_string_member J (j_object J (pre @ ms)) k = j_string_member J (j_object J pre) k"
proof (induction ms rule: rev_induct)
  case (snoc m ms)
  obtain k' v where "m = (k', v)" by fastforce
  thus ?case using snoc j_string_member_new [OF snoc.prems(1), of "pre @ ms" k' v k] by simp
qed simp

lemma deserialize_object:
  assumes "json_sound J" "''mType'' \<notin> fst ` set ms" "''mId'' \<notin> fst ` set ms" "length i = 36"
  defines "obj \<equiv> j_object J ([(''mType'', j_new_string J ''eRMsg''), (''mId'', j_new_string J i)] @ ms)"
  shows "deserializeMessage J (Some (j_print J obj)) =
    rbind (parse_body J obj) (\<lambda>b.
      case b of
        None \<Rightarrow> Inr (Inl Rejected)
      | Some body \<Rightarrow>
          rbind (messageCheckFields (Some \<lparr> m_mId = i, m_body = body \<rparr>)) (\<lambda>ok.
            Inr (if ok then Inr \<lparr> m_mId = i, m_body = body \<rparr> else Inl Rejected)))"
proof -
  have two: "[a, b] = ([] @ [a]) @ [b]" for a b :: "string \<times> 'a" by simp
  have "j_string_member J obj ''mType'' = Some ''eRMsg''" "j_string_member J obj ''mId'' = Some i"
    unfolding obj_def
    by (simp_all add: j_string_member_skip [OF assms(1)] assms(2,3) two
        j_string_member_new [OF assms(1)] json_soundD(6,7) [OF assms(1)] del: append_assoc append_Nil append_Cons)
  moreover have "j_parse_ex J (j_print J obj) = Some obj"
    unfolding obj_def by (rule parse_object(2) [OF assms(1)]) simp
  ultimately show ?thesis
    using assms(4) by (simp add: deserializeMessage_def UUID_STR_LEN_def Let_def)
qed

lemma message_read_back:
  assumes "json_sound J" and "body_ids_ok (m_body m)"
    and "serializeMessage J (Some m) = Inr (Inr p)"
  shows "deserializeMessage J (Some p) = Inr (if is_encrypted (m_body m) then Inl Rejected else Inr m)"
proof -
  from assms(3) obtain ms where ok: "messageCheckFields (Some m) = Inr True"
    and ms: "body_members J (m_body m) = Inr ms"
    and p: "p = j_print J (j_object J
      ([(''mType'', j_new_string J ''eRMsg''), (''mId'', j_new_string J (m_mId m))] @ ms))"
    by (auto simp: serializeMessage_def split: if_splits)
  have len: "length (m_mId m) = 36"
    using ok by (simp add: messageCheckFields_def UUID_STR_LEN_def split: if_splits)
  have keys: "''mType'' \<notin> fst ` set ms" "''mId'' \<notin> fst ` set ms"
    using body_members_keys [OF ms] by auto
  note d = deserialize_object [OF assms(1) keys len, folded p]
  show ?thesis
  proof (cases "is_encrypted (m_body m)")
    case True
    then obtain s l ds where "m_body m = Encrypted s l ds" by (cases "m_body m") auto
    from parse_body_encrypted [OF assms(1) ms [unfolded this]] show ?thesis
      using True by (simp only: d rbind.simps option.case if_True)
  next
    case False
    have "\<lparr> m_mId = m_mId m, m_body = m_body m \<rparr> = m" by simp
    thus ?thesis
      using False ok
      by (simp only: d parse_body_members [OF assms(1) ms assms(2) False] rbind.simps option.case
          if_True if_False)
  qed
qed

section \<open>Properties\<close>

text \<open>C23. A message that is serialised is parsed back to the same message, except an \<open>Encrypted\<close>
  one, which the parser rejects: its type is not among those it knows.\<close>
theorem message_roundtrip:
  assumes "json_sound J" and "body_ids_ok (m_body m)"
    and "serializeMessage J (Some m) = Inr (Inr p)"
  shows "deserializeMessage J (Some p) = Inr (if is_encrypted (m_body m) then Inl Rejected else Inr m)"
  using assms by (rule message_read_back)

theorem message_roundtrip_witness:
  "let m = \<lparr> m_mId = replicate 36 (CHR ''a''), m_body = Ping (Some ''zz'') \<rparr>
   in \<exists>p. deserializeMessage text_json (Some p) = Inr (Inr m)"
proof -
  let ?m = "\<lparr> m_mId = replicate 36 (CHR ''a''), m_body = Ping (Some ''zz'') \<rparr>"
  have "\<exists>p. serializeMessage text_json (Some ?m) = Inr (Inr p)"
    by (simp add: serializeMessage_def messageCheckFields_def UUID_STR_LEN_def present_def body_members_def)
  then obtain p where "serializeMessage text_json (Some ?m) = Inr (Inr p)" ..
  from message_roundtrip [OF text_json_sound _ this] show ?thesis by (auto simp: Let_def)
qed

text \<open>Whatever the text, a message that the parser accepts passes the check of its fields, has
  an identifier of 36 characters, is not \<open>Encrypted\<close> and keeps its identifiers in their arrays; the
  only faults of the parser are an overflow and the reading before the start of a text.\<close>
lemma deserialize_accepts_valid:
  "case deserializeMessage J s of
     Inr (Inr m) \<Rightarrow> messageCheckFields (Some m) = Inr True \<and> length (m_mId m) = 36 \<and>
       \<not> is_encrypted (m_body m) \<and> body_ids_ok (m_body m)
   | Inr (Inl e) \<Rightarrow> (e = Not_json) = (case s of None \<Rightarrow> True | Some t \<Rightarrow> j_parse_ex J t = None)
   | Inl f \<Rightarrow> f = Write_oob \<or> f = Read_oob"
proof -
  have "case parse_body J obj of
      Inr (Some b) \<Rightarrow> \<not> is_encrypted b \<and> body_ids_ok b | Inr None \<Rightarrow> True | Inl f \<Rightarrow> f = Write_oob" for obj
    by (auto simp: parse_body_def Let_def strcpy_uuid_def split: option.split)
  note b = this
  have c: "case messageCheckFields (Some m) of Inr ok \<Rightarrow> True | Inl f \<Rightarrow> f = Read_oob" for m
    by (cases "m_body m") (auto simp: messageCheckFields_def pwd_original_length_def Let_def)
  show ?thesis
  proof (cases s)
    case (Some t)
    show ?thesis
    proof (cases "j_parse_ex J t")
      case p: (Some obj)
      show ?thesis
      proof (cases "j_string_member J obj ''mType'' = Some ''eRMsg'' \<and>
          (\<exists>i. j_string_member J obj ''mId'' = Some i \<and> length i = 36)")
        case True
        then obtain i where i: "j_string_member J obj ''mId'' = Some i" "length i = 36" by blast
        have e: "deserializeMessage J s = rbind (parse_body J obj) (\<lambda>b.
            case b of None \<Rightarrow> Inr (Inl Rejected)
            | Some body \<Rightarrow> rbind (messageCheckFields (Some \<lparr> m_mId = i, m_body = body \<rparr>)) (\<lambda>ok.
                Inr (if ok then Inr \<lparr> m_mId = i, m_body = body \<rparr> else Inl Rejected)))"
          using True i by (simp add: deserializeMessage_def Some p UUID_STR_LEN_def Let_def)
        show ?thesis
        proof (cases "parse_body J obj")
          case (Inl f)
          thus ?thesis using b [of obj] e by simp
        next
          case (Inr r)
          note r = this
          show ?thesis
          proof (cases r)
            case None
            thus ?thesis using e r Some p by simp
          next
            case (Some body)
            show ?thesis
              using b [of obj] c [of "\<lparr> m_mId = i, m_body = body \<rparr>"] e r \<open>s = Some t\<close> p i(2) Some
              by (cases "messageCheckFields (Some \<lparr> m_mId = i, m_body = body \<rparr>)") auto
          qed
        qed
      next
        case False
        hence "deserializeMessage J s = Inr (Inl Rejected)"
          by (auto simp: deserializeMessage_def Some p UUID_STR_LEN_def split: option.split)
        thus ?thesis using Some p by simp
      qed
    qed (simp add: deserializeMessage_def Some)
  qed (simp add: deserializeMessage_def)
qed

text \<open>The text a peer sends for a \<open>Pong\<close> with any identifier in answer.\<close>
definition pong_text :: "'j json_api \<Rightarrow> string \<Rightarrow> string \<Rightarrow> string \<Rightarrow> string" where
  "pong_text J i pad oMId =
    j_print J (j_object J ([(''mType'', j_new_string J ''eRMsg''), (''mId'', j_new_string J i)] @
      [(''type'', j_new_string J ''Pong''), (''pad'', j_new_string J pad),
       (''oMId'', j_new_string J oMId)]))"

text \<open>The identifier in answer of a \<open>Pong\<close> is copied into an array of 37 characters without a
  look at its length: a longer one, which any peer can send, overruns the message; one that fits
  is accepted when it is not empty and neither is the padding.\<close>
lemma pong_identifier_overflow:
  assumes "json_sound J" and "length i = 36"
  shows "deserializeMessage J (Some (pong_text J i pad oMId)) =
    (if 36 < length oMId then Inl Write_oob
     else if pad = [] \<or> oMId = [] then Inr (Inl Rejected)
     else Inr (Inr \<lparr> m_mId = i, m_body = Pong oMId (Some pad) \<rparr>))"
proof -
  let ?ms = "[(''type'', j_new_string J ''Pong''), (''pad'', j_new_string J pad),
       (''oMId'', j_new_string J oMId)]"
  let ?pre = "[(''mType'', j_new_string J ''eRMsg''), (''mId'', j_new_string J i)]"
  have d: "deserializeMessage J (Some (pong_text J i pad oMId)) =
    rbind (parse_body J (j_object J (?pre @ ?ms))) (\<lambda>b.
      case b of
        None \<Rightarrow> Inr (Inl Rejected)
      | Some body \<Rightarrow>
          rbind (messageCheckFields (Some \<lparr> m_mId = i, m_body = body \<rparr>)) (\<lambda>ok.
            Inr (if ok then Inr \<lparr> m_mId = i, m_body = body \<rparr> else Inl Rejected)))"
    unfolding pong_text_def by (rule deserialize_object [OF assms(1) _ _ assms(2)]) simp_all
  have e: "?pre @ ?ms = ((?pre @ [(''type'', j_new_string J ''Pong'')]) @ [(''pad'', j_new_string J pad)]) @
      [(''oMId'', j_new_string J oMId)]" by simp
  have "parse_body J (j_object J (?pre @ ?ms)) =
      (if length oMId < 37 then Inr (Some (Pong oMId (Some pad))) else Inl Write_oob)"
    unfolding e
    by (simp add: parse_body_def Let_def j_string_member_new [OF assms(1)] json_soundD(6,7) [OF assms(1)]
        strcpy_uuid_def UUID_STR_LEN_def del: append_assoc append_Cons)
  thus ?thesis
    unfolding d by (simp add: messageCheckFields_def UUID_STR_LEN_def assms(2) present_def)
qed

lemma pong_identifier_overflow_witness:
  "deserializeMessage text_json (Some (pong_text text_json (replicate 36 (CHR ''a'')) ''p''
     (replicate 37 (CHR ''b'')))) = Inl Write_oob"
  by (subst pong_identifier_overflow [OF text_json_sound]) simp_all

lemma length_base64: "length (base64_encode bs) = 4 * ((length bs + 2) div 3)"
  by (simp add: base64_encode_ref length_b64_ref)

lemma cipher_agreement_text:
  assumes "json_sound J"
  shows "if cs = [] then CipherAgreement_serial J uuid (Some sId) cs = Inr (Inl J_encode)
    else \<exists>p. CipherAgreement_serial J uuid (Some sId) cs = Inr (Inr (p, uuid)) \<and>
      CipherAgreement_deserial J (Some p) None = Inr (Inr (cs, uuid, sId))"
proof (cases "cs = []")
  case True
  thus ?thesis by (simp add: CipherAgreement_serial_def)
next
  case False
  let ?obj = "j_object J
     [(''mType'', j_new_string J ''eRMsg''), (''type'', j_new_string J ''CipherAgreement''),
      (''mId'', j_new_string J uuid), (''sId'', j_new_string J sId),
      (''cipher'', j_array J (map (j_new_string J) cs))]"
  have "j_members J ?obj [''mType'', ''type'', ''mId'', ''sId'', ''cipher''] =
      Some [j_new_string J ''eRMsg'', j_new_string J ''CipherAgreement'', j_new_string J uuid,
        j_new_string J sId, j_array J (map (j_new_string J) cs)]"
    by (simp add: j_get_object [OF assms])
  moreover have "j_parse J (j_print J ?obj) = Some ?obj" by (rule parse_object [OF assms]) simp
  moreover have "array_values J (j_array J (map (j_new_string J) cs)) (length cs) = map (j_new_string J) cs"
    using array_values_new [OF assms, of "map (j_new_string J) cs"] by simp
  ultimately have "CipherAgreement_deserial J (Some (j_print J ?obj)) None = Inr (Inr (cs, uuid, sId))"
    using False assms
    by (simp add: CipherAgreement_deserial_def json_soundD(3) get_strings_new)
  thus ?thesis using False by (simp add: CipherAgreement_serial_def)
qed

text \<open>The agreement on the ciphers: a non-empty list of names that is serialised is read back
  in its order, with the identifier drawn and the site of the sender; an empty list is refused.\<close>
lemma cipher_agreement_roundtrip:
  assumes "json_sound J"
  shows "if cs = [] then CipherAgreement_serial J uuid (Some sId) cs = Inr (Inl J_encode)
    else \<exists>p. CipherAgreement_serial J uuid (Some sId) cs = Inr (Inr (p, uuid)) \<and>
      CipherAgreement_deserial J (Some p) None = Inr (Inr (cs, uuid, sId))"
  using assms by (rule cipher_agreement_text)

lemma cipher_agreement_roundtrip_witness:
  "\<exists>p. CipherAgreement_deserial text_json (Some p) None =
     Inr (Inr ([''AES256GCM'', ''AES128CTR''], ''u1'', ''S1''))"
proof -
  from cipher_agreement_roundtrip [OF text_json_sound, of "[''AES256GCM'', ''AES128CTR'']" "''u1''" "''S1''"]
  show ?thesis by auto
qed

text \<open>An acknowledgement made for one identifier is accepted for another exactly when the
  expected identifier is a beginning of the acknowledged one.\<close>
lemma message_ack_prefix:
  assumes "json_sound J"
  shows "\<exists>p. MessageAck_serial J (Some acked) = Inr (Inr p) \<and>
    MessageAck_check J (Some p) (Some expected) =
      Inr (if \<exists>rest. acked = expected @ rest then E_no_error else J_parse)"
proof -
  let ?obj = "j_object J [(''mType'', j_new_string J ''eRMsg''), (''type'', j_new_string J ''MessageAck''),
          (''oMId'', j_new_string J acked)]"
  have "j_members J ?obj [''mType'', ''type'', ''oMId''] =
      Some [j_new_string J ''eRMsg'', j_new_string J ''MessageAck'', j_new_string J acked]"
    by (simp add: j_get_object [OF assms])
  moreover have "j_parse J (j_print J ?obj) = Some ?obj" by (rule parse_object [OF assms]) simp
  moreover have "starts_with acked expected \<longleftrightarrow> (\<exists>rest. acked = expected @ rest)"
    unfolding starts_with_def by (metis append_eq_conv_conj append_take_drop_id)
  ultimately have "MessageAck_check J (Some (j_print J ?obj)) (Some expected) =
      Inr (if \<exists>rest. acked = expected @ rest then E_no_error else J_parse)"
    using assms by (simp add: MessageAck_check_def json_soundD(3))
  thus ?thesis by (simp add: MessageAck_serial_def)
qed

lemma message_ack_prefix_witness:
  "\<exists>p. MessageAck_check text_json (Some p) (Some ''ab'') = Inr E_no_error"
  using message_ack_prefix [OF text_json_sound, of "''abc''" "''ab''"] by auto

text \<open>The last two characters of an encoded text say how many octets its last group lacks.\<close>
lemma pwd_original_length_ref:
  "bs \<noteq> [] \<Longrightarrow> pwd_original_length (b64_ref bs) = Inr (int (length bs))"
proof (induction bs rule: b64_ref.induct)
  case (2 a)
  thus ?case by (simp add: b64_quartet_def pwd_original_length_def)
next
  case (3 a b)
  have "b64_char (push_bit 2 (b AND 0x0F)) \<noteq> CHR ''=''" using sextets(3) [of b 0] by simp
  thus ?case by (simp add: b64_quartet_def pwd_original_length_def del: push_bit_and)
next
  case (4 a b c rest)
  have c: "b64_char (c AND 0x3F) \<noteq> CHR ''=''" using sextets(4) by simp
  show ?case
  proof (cases "rest = []")
    case True
    thus ?thesis using c by (simp add: b64_quartet_def pwd_original_length_def)
  next
    case False
    have l: "length (b64_ref rest) = 4 * ((length rest + 2) div 3)" by (simp add: length_b64_ref)
    have g: "length (b64_ref rest) \<ge> 4"
      using False l by (cases "length rest") (auto simp: div_le_mono)
    have q: "length (b64_quartet (a # b # c # rest) 0) = 4" by simp
    have i: "4 + length (b64_ref rest) - 1 = 4 + (length (b64_ref rest) - 1)"
      "4 + length (b64_ref rest) - 2 = 4 + (length (b64_ref rest) - 2)" using g by simp_all
    have "int (4 + length (b64_ref rest)) * 3 div 4 = int (length (b64_ref rest)) * 3 div 4 + 3"
      by simp
    thus ?thesis
      using 4 False g i q
      by (auto simp: pwd_original_length_def Let_def nth_append split: if_splits)
  qed
qed simp

text \<open>The request that carries a password of the largest size the generator draws, 256 octets,
  is refused by the check of its fields on both sides, while every shorter one passes: the check
  excludes the bound the rest of the code includes.\<close>
lemma change_pwd_request_bound:
  "messageCheckFields (Some \<lparr> m_mId = i, m_body = ChangePwdRequest (Some (base64_encode bs)) \<rparr>) =
    Inr (length i = 36 \<and> bs \<noteq> [] \<and> length bs < 256)"
proof (cases "bs = []")
  case True
  thus ?thesis by (simp add: messageCheckFields_def present_def base64_encode_ref UUID_STR_LEN_def)
next
  case False
  hence "length (b64_ref bs) \<noteq> 0" by (cases "length bs") (auto simp: length_b64_ref)
  hence "b64_ref bs \<noteq> []" by auto
  thus ?thesis using False
    by (auto simp: messageCheckFields_def present_def base64_encode_ref UUID_STR_LEN_def
        pwd_original_length_ref AUTH_PWD_LEN_MAX_def)
qed

end
