(* ===== verification/Coder.thy ===== *)
theory Coder
  imports CoderMsg Ciphers AuthOps
begin

text \<open>
  Model of the rest of \<open>coder/coder.c\<close>: the plain texts (\<open>ptxt_t\<close>) and their JSON form, the choice of
  the authentication entry, the derivation and caching of the secret, the encryption and
  decryption of a text and of the messages of type \<open>Encrypted\<close>.  The authentication base is passed
  and returned; a pointer to an entry is the entry as it is after the call.  The dates of the
  external \<open>horodate\<close> library and of the C library are the argument \<open>T\<close>.
\<close>

section \<open>Dates\<close>

text \<open>The text of a date, the seconds read from a text (\<open>strptime\<close>, \<open>mktime\<close> and the offset of the
  time zone), and the difference of two dates in milliseconds
  and in seconds.\<close>
record times =
  t_text :: "horodate \<Rightarrow> string"
  t_secs :: "string \<Rightarrow> int"
  t_diff_ms :: "horodate \<Rightarrow> horodate \<Rightarrow> int"
  t_diff_sec :: "horodate \<Rightarrow> horodate \<Rightarrow> int"

definition times_sound :: "times \<Rightarrow> bool" where
  "times_sound T \<longleftrightarrow> (\<forall>d. t_secs T (t_text T d) = fst d)"

definition is_space :: "char \<Rightarrow> bool" where
  "is_space c \<longleftrightarrow> c = CHR '' '' \<or> CHR 0x09 \<le> c \<and> c \<le> CHR 0x0D"

definition digits_value :: "string \<Rightarrow> nat" where
  "digits_value ds = foldl (\<lambda>n c. 10 * n + (of_char c - 48)) 0 ds"

text \<open>\<open>strtoul(s, _, 10)\<close>: the value and whether \<open>errno\<close> is set.\<close>
definition strtoul10 :: "string \<Rightarrow> 64 word \<times> bool" where
  "strtoul10 s =
    (let s1 = dropWhile is_space s;
         neg = (s1 \<noteq> [] \<and> hd s1 = CHR ''-'');
         s2 = (if s1 \<noteq> [] \<and> (hd s1 = CHR ''-'' \<or> hd s1 = CHR ''+'') then tl s1 else s1);
         n = digits_value (takeWhile is_digit s2)
     in if n < 2 ^ 64 then (if neg then - word_of_nat n else word_of_nat n, False)
        else (- 1, True))"

text \<open>The text after the last dot, when there is one.\<close>
definition after_dot :: "string \<Rightarrow> cstr" where
  "after_dot s =
    (if CHR ''.'' \<in> set s then Some (rev (takeWhile (\<lambda>c. c \<noteq> CHR ''.'') (rev s))) else None)"

text \<open>The milliseconds after the last dot, in nanoseconds; the seconds are read from the whole text.\<close>
definition str2ZuluHorodate :: "times \<Rightarrow> string \<Rightarrow> horodate" where
  "str2ZuluHorodate T s =
    (let ml = (case after_dot s of
                 None \<Rightarrow> 0
               | Some d \<Rightarrow> (case strtoul10 d of (v, err) \<Rightarrow> if err then 0 else v * 1000000))
     in (t_secs T s, sint ml))"

section \<open>Plain texts\<close>

datatype pt_class = Cl_internal | Cl_external | Cl_unknown

record ptxt =
  p_timestamp :: horodate
  p_class :: pt_class
  p_original :: cstr

text \<open>The initialiser names neither the class: the first of the enumeration.\<close>
definition ptxt_null :: ptxt where
  "ptxt_null = \<lparr> p_timestamp = (0, 0), p_class = Cl_internal, p_original = None \<rparr>"

text \<open>The window of the control of time, in milliseconds; not active at -1.\<close>
definition coder_time_windows0 :: int where "coder_time_windows0 = - 1"

definition to_int32 :: "int \<Rightarrow> int" where
  "to_int32 n = sint (word_of_int n :: 32 word)"

text \<open>\<open>abs((int)...)\<close>; the smallest \<open>int\<close> has no absolute value and stays what it is.\<close>
definition abs32 :: "int \<Rightarrow> int" where
  "abs32 n = to_int32 \<bar>to_int32 n\<bar>"

definition ptxt_is_valid :: "times \<Rightarrow> int \<Rightarrow> horodate \<Rightarrow> ptxt \<Rightarrow> errcode" where
  "ptxt_is_valid T window now p =
    (case p_original p of
       None \<Rightarrow> J_decode
     | Some text \<Rightarrow>
         if p_class p \<noteq> Cl_internal \<and> p_class p \<noteq> Cl_external then J_decode
         else if window > 0 \<and> abs32 (t_diff_ms T (p_timestamp p) now) > window then A_outdated
         else if \<not> strstr (quoted ''rSMsg'') text \<and> \<not> strstr (quoted ''eRMsg'') text then K_decrypt
         else E_no_error)"

text \<open>The date given or the present one; the class by the first marker found.\<close>
definition ptxt_set :: "horodate \<Rightarrow> ptxt \<Rightarrow> horodate option \<Rightarrow> cstr \<Rightarrow> errcode \<times> ptxt" where
  "ptxt_set now p timestamp original =
    (let p1 = p\<lparr> p_timestamp := (case timestamp of Some d \<Rightarrow> d | None \<Rightarrow> now), p_original := None \<rparr>
     in case original of
          None \<Rightarrow> (E_no_error, p1)
        | Some text \<Rightarrow>
            if strstr (quoted ''rSMsg'') text
            then (E_no_error, p1\<lparr> p_original := Some text, p_class := Cl_external \<rparr>)
            else if strstr (quoted ''eRMsg'') text
            then (E_no_error, p1\<lparr> p_original := Some text, p_class := Cl_internal \<rparr>)
            else (J_decode, p1))"

text \<open>The members are read in the order of the source; a failure leaves what was read.\<close>
definition ptxt_extract_timestamp :: "'j json_api \<Rightarrow> times \<Rightarrow> 'j \<Rightarrow> ptxt \<Rightarrow> errcode \<times> ptxt" where
  "ptxt_extract_timestamp J T obj p =
    (case j_string_member J obj ''timestamp'' of
       None \<Rightarrow> (J_parse, p)
     | Some s \<Rightarrow> let ts = str2ZuluHorodate T s
                 in (if fst ts \<le> 0 then J_parse else E_no_error, p\<lparr> p_timestamp := ts \<rparr>))"

definition ptxt_extract_class :: "'j json_api \<Rightarrow> 'j \<Rightarrow> ptxt \<Rightarrow> errcode \<times> ptxt" where
  "ptxt_extract_class J obj p =
    (case j_string_member J obj ''class'' of
       None \<Rightarrow> (J_parse, p)
     | Some s \<Rightarrow>
         if s = ''INTERNAL'' then (E_no_error, p\<lparr> p_class := Cl_internal \<rparr>)
         else if s = ''EXTERNAL'' then (E_no_error, p\<lparr> p_class := Cl_external \<rparr>)
         else (J_parse, p\<lparr> p_class := Cl_unknown \<rparr>))"

definition ptxt_extract_original :: "'j json_api \<Rightarrow> 'j \<Rightarrow> ptxt \<Rightarrow> errcode \<times> ptxt" where
  "ptxt_extract_original J obj p =
    (case j_string_member J obj ''original'' of
       None \<Rightarrow> (J_parse, p)
     | Some s \<Rightarrow> (E_no_error, p\<lparr> p_original := Some s \<rparr>))"

definition ptxt_deserial :: "'j json_api \<Rightarrow> times \<Rightarrow> string \<Rightarrow> ptxt \<Rightarrow> errcode \<times> ptxt" where
  "ptxt_deserial J T payload p =
    (case j_parse J payload of
       None \<Rightarrow> (J_decode, p)
     | Some obj \<Rightarrow>
         let (r1, p1) = ptxt_extract_timestamp J T obj p
         in if r1 \<noteq> E_no_error then (r1, p1)
            else let (r2, p2) = ptxt_extract_class J obj p1
                 in if r2 \<noteq> E_no_error then (r2, p2) else ptxt_extract_original J obj p2)"

definition ptxt_serialize :: "'j json_api \<Rightarrow> times \<Rightarrow> ptxt \<Rightarrow> string outcome" where
  "ptxt_serialize J T p =
    rbind (new_string J (p_original p)) (\<lambda>orig.
      let ms = [(''timestamp'', j_new_string J (t_text T (p_timestamp p))), (''original'', orig)]
      in case p_class p of
           Cl_internal \<Rightarrow>
             Inr (Inr (j_print J (j_object J (ms @ [(''class'', j_new_string J ''INTERNAL'')]))))
         | Cl_external \<Rightarrow>
             Inr (Inr (j_print J (j_object J (ms @ [(''class'', j_new_string J ''EXTERNAL'')]))))
         | Cl_unknown \<Rightarrow> Inr (Inl J_encode))"

section \<open>Entries and secrets\<close>

datatype action = Act_encrypt | Act_decrypt

definition coder_iterations :: nat where "coder_iterations = 1000"

text \<open>The entry of a login, or the first entry of the site when encrypting without a login.\<close>
definition coder_auth_get :: "dbs \<Rightarrow> cstr \<Rightarrow> cstr \<Rightarrow> action \<Rightarrow> (errcode \<times> auth option) run" where
  "coder_auth_get dbs login sId_remote act =
    (if sId_remote = None then Inl Assert_failed
     else if act = Act_decrypt \<and> login = None then Inr (A_failure, None)
     else let key = (if act = Act_decrypt then auth_from_key_set login sId_remote
                     else auth_to_key_set login sId_remote);
              found = (if login \<noteq> None then auth_find_by_key dbs (Some key) else auth_get_first dbs key)
          in Inr (case found of
                    None \<Rightarrow> (A_unknown, None)
                  | Some a \<Rightarrow> (if a_active a then E_no_error else C_generic, Some a)))"

text \<open>The octets \<open>memcpy(d, pwd->buf, pwd->len)\<close> copies.\<close>
definition pwd_octets :: "auth_pwd \<Rightarrow> byte list run" where
  "pwd_octets p =
    (case bbuf p of
       None \<Rightarrow> if blen p = 0 then Inr [] else Inl Null_deref
     | Some bs \<Rightarrow> if blen p \<le> length bs then Inr (take (blen p) bs) else Inl Read_oob)"

definition passphraseForPwd :: "string \<Rightarrow> auth \<Rightarrow> action \<Rightarrow> auth_pwd \<Rightarrow> byte list run" where
  "passphraseForPwd sId a act pwd =
    rbind (pwd_octets pwd) (\<lambda>bs. Inr
      (case act of
         Act_decrypt \<Rightarrow> map byte_of (a_sId a) @ map byte_of (a_login a) @ bs @ map byte_of sId
       | Act_encrypt \<Rightarrow> map byte_of sId @ map byte_of (a_login a) @ bs @ map byte_of (a_sId a)))"

definition currentPassphrase :: "string \<Rightarrow> auth \<Rightarrow> action \<Rightarrow> byte list run" where
  "currentPassphrase sId a act = passphraseForPwd sId a act (a_pwd a)"

definition newPassphrase :: "string \<Rightarrow> auth \<Rightarrow> action \<Rightarrow> byte list run" where
  "newPassphrase sId a act = passphraseForPwd sId a act (a_new_pwd a)"

text \<open>The secret of the new password, which is not stored; \<open>None\<close> when the derivation fails.\<close>
definition computeNewSecretAuthTo :: "evp \<Rightarrow> cipher \<Rightarrow> string \<Rightarrow> auth \<Rightarrow> auth_secret option run" where
  "computeNewSecretAuthTo e c sId_local a =
    rbind (newPassphrase sId_local a Act_encrypt) (\<lambda>data.
    rbind (c_key_gen e c data coder_iterations) (\<lambda>k. Inr (map_option blob_of k)))"

text \<open>The secret kept under the name of the cipher, derived and kept when there is none.\<close>
definition coder_secret_get ::
  "evp \<Rightarrow> (nat \<Rightarrow> nat) \<Rightarrow> cipher \<Rightarrow> auth \<Rightarrow> string \<Rightarrow> action \<Rightarrow> (auth \<times> (errcode + auth_secret)) run" where
  "coder_secret_get e pos c a sId act =
    (case auth_secret_get (Some a) (Some (c_lib c)) of
       Some s \<Rightarrow> Inr (a, Inr s)
     | None \<Rightarrow>
         rbind (currentPassphrase sId a act) (\<lambda>data.
         rbind (c_key_gen e c data coder_iterations) (\<lambda>k. Inr
           (case k of
              None \<Rightarrow> (a, Inl K_keygen)
            | Some key \<Rightarrow>
                (case auth_secret_add_or_update pos a (Some (c_lib c)) (Some (blob_of key)) of
                   (a1, Some s) \<Rightarrow> (a1, Inr s)
                 | (a1, None) \<Rightarrow> (a1, Inl A_no_secret))))))"

text \<open>The octets of a secret as the cipher gets them; it asserts that there are some.\<close>
definition secret_octets :: "auth_secret \<Rightarrow> byte list run" where
  "secret_octets s =
    (case bbuf s of None \<Rightarrow> Inl Assert_failed | Some bs \<Rightarrow> Inr (take (blen s) bs))"

text \<open>Without a context the code is the one of success and the output was not written.\<close>
definition coder_cipher_decrypt ::
  "evp \<Rightarrow> cipher \<Rightarrow> auth_secret \<Rightarrow> cstr \<Rightarrow> (errcode \<times> byte list option) run" where
  "coder_cipher_decrypt e c secret input =
    (if cipher_aes_context_new e
     then rbind (case input of None \<Rightarrow> Inl Assert_failed | Some t \<Rightarrow> rbind (secret_octets secret) (c_decrypt e c t))
            (\<lambda>out. Inr
              (case out of Some bs \<Rightarrow> (E_no_error, Some bs) | None \<Rightarrow> (K_decrypt, None)))
     else Inr (E_no_error, None))"

definition coder_cipher_encrypt :: "evp \<Rightarrow> cipher \<Rightarrow> auth_secret \<Rightarrow> string \<Rightarrow> (errcode \<times> cstr) run" where
  "coder_cipher_encrypt e c secret input =
    (if cipher_aes_context_new e
     then rbind (rbind (secret_octets secret) (c_encrypt e c (map byte_of input))) (\<lambda>out. Inr
            (case out of Some t \<Rightarrow> (E_no_error, Some t) | None \<Rightarrow> (K_encrypt, None)))
     else Inr (K_encrypt, None))"

text \<open>The entry written back into the base.\<close>
definition put_auth :: "dbs \<Rightarrow> auth \<Rightarrow> dbs" where
  "put_auth dbs a = upd_auth (a_dbId a) (a_sId a) (a_login a) (\<lambda>_. a) dbs"

record coded =
  k_dbs :: dbs
  k_ret :: errcode
  k_out :: cstr
  k_auth :: "auth option"

definition coder_decrypt ::
  "evp \<Rightarrow> (nat \<Rightarrow> nat) \<Rightarrow> dbs \<Rightarrow> cipher \<Rightarrow> string \<Rightarrow> cstr \<Rightarrow> cstr \<Rightarrow> cstr \<Rightarrow> coded run" where
  "coder_decrypt e pos dbs c sId_local login sId_remote input =
    rbind (coder_auth_get dbs login sId_remote Act_decrypt) (\<lambda>(ret, found).
      case found of
        None \<Rightarrow> Inr \<lparr> k_dbs = dbs, k_ret = ret, k_out = None, k_auth = None \<rparr>
      | Some a \<Rightarrow>
          if ret \<noteq> E_no_error
          then Inr \<lparr> k_dbs = dbs, k_ret = ret, k_out = None, k_auth = Some a \<rparr>
          else rbind (coder_secret_get e pos c a sId_local Act_decrypt) (\<lambda>(a1, s).
            let dbs1 = put_auth dbs a1
            in case s of
                 Inl err \<Rightarrow> Inr \<lparr> k_dbs = dbs1, k_ret = err, k_out = None, k_auth = Some a1 \<rparr>
               | Inr secret \<Rightarrow>
                   rbind (coder_cipher_decrypt e c secret input) (\<lambda>(ret1, payload).
                     if ret1 \<noteq> E_no_error
                     then Inr \<lparr> k_dbs = dbs1, k_ret = ret1, k_out = None, k_auth = Some a1 \<rparr>
                     else case payload of
                            None \<Rightarrow> Inl Uninit_read
                          | Some bs \<Rightarrow> Inr \<lparr> k_dbs = dbs1, k_ret = ret1,
                              k_out = Some (c_string (bs @ [0])), k_auth = Some a1 \<rparr>)))"

definition coder_encrypt ::
  "evp \<Rightarrow> (nat \<Rightarrow> nat) \<Rightarrow> dbs \<Rightarrow> cipher \<Rightarrow> string \<Rightarrow> cstr \<Rightarrow> cstr \<Rightarrow> string \<Rightarrow> coded run" where
  "coder_encrypt e pos dbs c sId_local login sId_remote input =
    rbind (coder_auth_get dbs login sId_remote Act_encrypt) (\<lambda>(ret, found).
      case found of
        None \<Rightarrow> Inr \<lparr> k_dbs = dbs, k_ret = ret, k_out = None, k_auth = None \<rparr>
      | Some a \<Rightarrow>
          if ret \<noteq> E_no_error
          then Inr \<lparr> k_dbs = dbs, k_ret = ret, k_out = None, k_auth = Some a \<rparr>
          else rbind (coder_secret_get e pos c a sId_local Act_encrypt) (\<lambda>(a1, s).
            let dbs1 = put_auth dbs a1
            in case s of
                 Inl err \<Rightarrow> Inr \<lparr> k_dbs = dbs1, k_ret = err, k_out = None, k_auth = Some a1 \<rparr>
               | Inr secret \<Rightarrow>
                   rbind (coder_cipher_encrypt e c secret input) (\<lambda>(ret1, out).
                     Inr \<lparr> k_dbs = dbs1, k_ret = ret1, k_out = out, k_auth = Some a1 \<rparr>)))"

section \<open>Messages of type Encrypted\<close>

text \<open>The loop over the plain texts stops at the first that cannot be serialised or encrypted.  The
  result carries the base, the code, the texts so far and the entry used.\<close>
fun encode_loop ::
  "'j json_api \<Rightarrow> evp \<Rightarrow> times \<Rightarrow> (nat \<Rightarrow> nat) \<Rightarrow> cipher \<Rightarrow> string \<Rightarrow> cstr \<Rightarrow> cstr \<Rightarrow> ptxt list \<Rightarrow>
   dbs \<Rightarrow> string list \<Rightarrow> auth option \<Rightarrow> (dbs \<times> errcode \<times> string list \<times> auth option) run" where
  "encode_loop J e T pos c sId_local login sId [] dbs out a = Inr (dbs, E_no_error, out, a)"
| "encode_loop J e T pos c sId_local login sId (p # ps) dbs out a =
    rbind (ptxt_serialize J T p) (\<lambda>ser.
      case ser of
        Inl err \<Rightarrow> Inr (dbs, err, out, a)
      | Inr text \<Rightarrow>
          rbind (coder_encrypt e pos dbs c sId_local login sId text) (\<lambda>k.
            if k_ret k \<noteq> E_no_error then Inr (k_dbs k, k_ret k, out, k_auth k)
            else case k_out k of
                   None \<Rightarrow> Inr (k_dbs k, k_ret k, out, k_auth k)
                 | Some enc \<Rightarrow>
                     encode_loop J e T pos c sId_local login sId ps (k_dbs k) (out @ [enc]) (k_auth k)))"

definition Encrypted_encode ::
  "'j json_api \<Rightarrow> evp \<Rightarrow> times \<Rightarrow> (nat \<Rightarrow> nat) \<Rightarrow> string \<Rightarrow> dbs \<Rightarrow> cipher option \<Rightarrow> cstr \<Rightarrow> cstr \<Rightarrow> cstr \<Rightarrow>
   ptxt list \<Rightarrow> (dbs \<times> (errcode + string)) run" where
  "Encrypted_encode J e T pos uuid dbs cipher sId_local login sId ptxts =
    (case (cipher, sId_local, sId) of
       (Some c, Some loc, Some rem) \<Rightarrow>
         if ptxts = [] then Inr (dbs, Inl J_parse)
         else rbind (encode_loop J e T pos c loc login sId ptxts dbs [] None) (\<lambda>(dbs1, ret, out, a).
           if ret \<noteq> E_no_error then Inr (dbs1, Inl ret)
           else case a of
                  None \<Rightarrow> Inl Uninit_read
                | Some au \<Rightarrow> Inr (dbs1, Inr (j_print J (j_object J
                    [(''mType'', j_new_string J ''eRMsg''), (''type'', j_new_string J ''Encrypted''),
                     (''mId'', j_new_string J uuid), (''sId'', j_new_string J loc),
                     (''data'', j_array J (map (j_new_string J) out)),
                     (''login'', j_new_string J (a_login au))]))))
     | _ \<Rightarrow> Inr (dbs, Inl J_parse))"

text \<open>An element that cannot be decrypted, parsed or validated is skipped.\<close>
fun decode_loop ::
  "'j json_api \<Rightarrow> evp \<Rightarrow> times \<Rightarrow> (nat \<Rightarrow> nat) \<Rightarrow> int \<Rightarrow> horodate \<Rightarrow> cipher \<Rightarrow> string \<Rightarrow> cstr \<Rightarrow> cstr \<Rightarrow> 'j list \<Rightarrow>
   dbs \<Rightarrow> ptxt list \<Rightarrow> auth option \<Rightarrow> (dbs \<times> ptxt list \<times> auth option) run" where
  "decode_loop J e T pos window now c sId_local login sId [] dbs out a = Inr (dbs, out, a)"
| "decode_loop J e T pos window now c sId_local login sId (v # vs) dbs out a =
    rbind (coder_decrypt e pos dbs c sId_local login sId (j_get_string J v)) (\<lambda>k.
      let out1 = (case k_out k of
                    None \<Rightarrow> out
                  | Some plain \<Rightarrow>
                      if k_ret k \<noteq> E_no_error then out
                      else let (r, p) = ptxt_deserial J T plain ptxt_null
                           in if r \<noteq> E_no_error then out
                              else if ptxt_is_valid T window now p \<noteq> E_no_error then out
                              else out @ [p])
      in decode_loop J e T pos window now c sId_local login sId vs (k_dbs k) out1 (k_auth k))"

definition Encrypted_decode ::
  "'j json_api \<Rightarrow> evp \<Rightarrow> times \<Rightarrow> (nat \<Rightarrow> nat) \<Rightarrow> int \<Rightarrow> horodate \<Rightarrow> dbs \<Rightarrow> cipher option \<Rightarrow> string \<Rightarrow>
   cstr \<Rightarrow> auth option \<Rightarrow> (dbs \<times> errcode \<times> ptxt list \<times> auth option) run" where
  "Encrypted_decode J e T pos window now dbs cipher sId_local buf a0 =
    (case (cipher, buf) of
       (Some c, Some text) \<Rightarrow>
         if text = [] then Inr (dbs, J_parse, [], a0)
         else (case j_parse J text of
             None \<Rightarrow> Inr (dbs, J_parse, [], a0)
           | Some obj \<Rightarrow>
               (case j_members J obj [''mType'', ''type'', ''mId'', ''login'', ''sId'', ''data''] of
                  Some [mType, type, mId, login, sId, data] \<Rightarrow>
                    rbind (header_is J ''Encrypted'' mType type) (\<lambda>ok.
                      if \<not> ok then Inr (dbs, J_parse, [], a0)
                      else rbind (array_length J data) (\<lambda>n.
                        if n = 0 then Inr (dbs, J_parse, [], a0)
                        else rbind (decode_loop J e T pos window now c sId_local (j_get_string J login)
                               (j_get_string J sId) (array_values J data n) dbs [] a0)
                               (\<lambda>(dbs1, ps, a). Inr
                                 (dbs1, if ps = [] then K_decrypt else E_no_error, ps, a))))
                | _ \<Rightarrow> Inr (dbs, J_parse, [], a0)))
     | _ \<Rightarrow> Inr (dbs, J_parse, [], a0))"

section \<open>Lemmas\<close>

text \<open>The secret an entry has under a cipher when none is kept.\<close>
definition derived :: "evp \<Rightarrow> cipher \<Rightarrow> string \<Rightarrow> action \<Rightarrow> auth \<Rightarrow> auth_secret option run" where
  "derived e c sId act a =
    rbind (currentPassphrase sId a act) (\<lambda>data.
    rbind (c_key_gen e c data coder_iterations) (\<lambda>k. Inr
      (map_option (\<lambda>key. auth_secret_cpy \<lparr> bbuf = None, blen = 0 \<rparr> (Some (blob_of key))) k)))"

text \<open>A secret that is kept is the one of the current password.\<close>
definition secret_current :: "evp \<Rightarrow> cipher \<Rightarrow> string \<Rightarrow> action \<Rightarrow> auth \<Rightarrow> bool" where
  "secret_current e c sId act a \<longleftrightarrow>
    (case auth_secret_get (Some a) (Some (c_lib c)) of
       None \<Rightarrow> True | Some s \<Rightarrow> derived e c sId act a = Inr (Some s))"

text \<open>Two entries that differ in their secrets only.\<close>
definition same_but_secrets :: "auth \<Rightarrow> auth \<Rightarrow> bool" where
  "same_but_secrets a b \<longleftrightarrow> b = a\<lparr> a_secrets := a_secrets b \<rparr>"

lemma same_but_secretsD:
  assumes "same_but_secrets a b"
  shows "auth_id b = auth_id a" "a_active b = a_active a" "a_pwd b = a_pwd a" "a_login b = a_login a"
    "derived e c sId act b = derived e c sId act a"
proof -
  obtain ss where "b = a\<lparr> a_secrets := ss \<rparr>" using assms by (auto simp: same_but_secrets_def)
  thus "auth_id b = auth_id a" "a_active b = a_active a" "a_pwd b = a_pwd a" "a_login b = a_login a"
    "derived e c sId act b = derived e c sId act a"
    by (cases act; simp add: auth_id_def derived_def currentPassphrase_def passphraseForPwd_def)+
qed

lemma coder_secret_get_spec:
  assumes "secret_current e c sId act a"
  shows "coder_secret_get e pos c a sId act = Inr (a1, Inr s) \<Longrightarrow>
      derived e c sId act a = Inr (Some s) \<and> secret_current e c sId act a1 \<and> same_but_secrets a a1"
    and "derived e c sId act a = Inr (Some s) \<Longrightarrow>
      \<exists>a1. coder_secret_get e pos c a sId act = Inr (a1, Inr s)"
proof -
  let ?null = "\<lparr> bbuf = None, blen = 0 \<rparr>"
  let ?a1 = "\<lambda>s. a\<lparr> a_secrets := ins_at pos (a_secrets a) (c_lib c, s) \<rparr>"
  have "derived e c sId act a = Inr (Some s) \<and> secret_current e c sId act a1 \<and> same_but_secrets a a1"
    if g: "coder_secret_get e pos c a sId act = Inr (a1, Inr s)" for a1
  proof (cases "auth_secret_find (c_lib c) (a_secrets a)")
    case None
    from g None obtain data key where d: "currentPassphrase sId a act = Inr data"
        "c_key_gen e c data coder_iterations = Inr (Some key)"
        "s = auth_secret_cpy ?null (Some (blob_of key))" "a1 = ?a1 s"
      by (auto simp: coder_secret_get_def auth_secret_get_def auth_secret_add_or_update_def
          auth_secret_new_def Let_def split: option.splits)
    have dv: "derived e c sId act a = Inr (Some s)" using d by (simp add: derived_def)
    have sb: "same_but_secrets a a1" using d(4) by (simp add: same_but_secrets_def)
    have "auth_secret_get (Some a1) (Some (c_lib c)) = Some s"
      using None by (simp add: d(4) auth_secret_get_def auth_secret_find_ins)
    hence "secret_current e c sId act a1"
      using dv same_but_secretsD(5) [OF sb] by (simp add: secret_current_def)
    thus ?thesis using dv sb by blast
  next
    case (Some x)
    hence "s = snd x" "a1 = a" using g by (auto simp: coder_secret_get_def auth_secret_get_def)
    thus ?thesis using assms Some
      by (auto simp: secret_current_def auth_secret_get_def same_but_secrets_def)
  qed
  thus "coder_secret_get e pos c a sId act = Inr (a1, Inr s) \<Longrightarrow>
      derived e c sId act a = Inr (Some s) \<and> secret_current e c sId act a1 \<and> same_but_secrets a a1" .
  assume dv: "derived e c sId act a = Inr (Some s)"
  show "\<exists>a1. coder_secret_get e pos c a sId act = Inr (a1, Inr s)"
  proof (cases "auth_secret_find (c_lib c) (a_secrets a)")
    case None
    obtain data key where "currentPassphrase sId a act = Inr data"
        "c_key_gen e c data coder_iterations = Inr (Some key)"
        "s = auth_secret_cpy ?null (Some (blob_of key))"
      using dv by (auto simp: derived_def)
    hence "coder_secret_get e pos c a sId act = Inr (?a1 s, Inr s)"
      using None by (simp add: coder_secret_get_def auth_secret_get_def auth_secret_add_or_update_def
          auth_secret_new_def)
    thus ?thesis by blast
  next
    case (Some x)
    thus ?thesis using assms dv
      by (auto simp: secret_current_def coder_secret_get_def auth_secret_get_def)
  qed
qed

lemma no_secret_code:
  "(case r of (a1, None) \<Rightarrow> (a1, Inl A_no_secret) | (a1, Some s) \<Rightarrow> (a1, Inr s)) = (x, Inl err) \<Longrightarrow>
   err = A_no_secret"
  by (cases r; cases "snd r") auto

lemma coder_secret_get_error:
  "coder_secret_get e pos c a sId act = Inr (a1, Inl err) \<Longrightarrow> err \<noteq> E_no_error"
  by (auto simp: coder_secret_get_def dest: no_secret_code split: option.splits)

text \<open>Both ends derive the same secret: each puts the side that encrypts first.\<close>
lemma derived_symmetric:
  "a_sId a = B \<Longrightarrow> a_sId b = A \<Longrightarrow> a_login a = a_login b \<Longrightarrow> a_pwd a = a_pwd b \<Longrightarrow>
   derived e c A Act_encrypt a = derived e c B Act_decrypt b"
  by (simp add: derived_def currentPassphrase_def passphraseForPwd_def)

text \<open>An entry of the base that is active, has the password and keeps no stale secret.\<close>
definition ready ::
  "evp \<Rightarrow> cipher \<Rightarrow> action \<Rightarrow> string \<Rightarrow> string \<Rightarrow> string \<Rightarrow> auth_pwd \<Rightarrow> dbs \<Rightarrow> bool" where
  "ready e c act sId_local login sId_remote pwd dbs \<longleftrightarrow>
    auth_dbs_ok dbs \<and>
    (case auth_at dbs (if act = Act_encrypt then ''to'' else ''from'', sId_remote, login) of
       None \<Rightarrow> False
     | Some a \<Rightarrow> a_active a \<and> a_pwd a = pwd \<and> secret_current e c sId_local act a)"

lemma coder_auth_get_ready:
  assumes "ready e c act loc login rem pwd dbs"
  obtains a where "coder_auth_get dbs (Some login) (Some rem) act = Inr (E_no_error, Some a)"
    "auth_at dbs (if act = Act_encrypt then ''to'' else ''from'', rem, login) = Some a"
    "a_active a" "a_pwd a = pwd" "secret_current e c loc act a" "a_sId a = rem" "a_login a = login"
    "auth_id a = (if act = Act_encrypt then ''to'' else ''from'', rem, login)"
proof -
  let ?k = "(if act = Act_encrypt then ''to'' else ''from'', rem, login)"
  obtain a where a: "auth_at dbs ?k = Some a" "a_active a" "a_pwd a = pwd" "secret_current e c loc act a"
    using assms by (auto simp: ready_def split: option.splits)
  have id: "auth_id a = ?k" using assms by (intro auth_at_ok [OF _ a(1)]) (simp add: ready_def)
  have "auth_find_by_key dbs (Some (if act = Act_decrypt then auth_from_key_set (Some login) (Some rem)
      else auth_to_key_set (Some login) (Some rem))) = auth_at dbs ?k"
    by (cases act) (simp_all add: auth_from_key_set_def auth_to_key_set_def auth_from_dbId_def
        auth_to_dbId_def auth_find_by_key_def auth_key_set_def auth_at_def)
  hence "coder_auth_get dbs (Some login) (Some rem) act = Inr (E_no_error, Some a)"
    using a by (simp add: coder_auth_get_def Let_def)
  thus thesis using that a id by (simp add: auth_id_def)
qed

lemma put_auth_at:
  assumes "auth_dbs_ok dbs" "auth_at dbs k = Some a" "auth_id a1 = k"
  shows "auth_dbs_ok (put_auth dbs a1)" "auth_at (put_auth dbs a1) k' = (if k' = k then Some a1 else auth_at dbs k')"
proof -
  have k: "k = (a_dbId a1, a_sId a1, a_login a1)" using assms(3) by (simp add: auth_id_def)
  show "auth_dbs_ok (put_auth dbs a1)"
    unfolding put_auth_def by (rule upd_auth_ok) (use assms k in \<open>simp_all add: auth_id_def\<close>)
  show "auth_at (put_auth dbs a1) k' = (if k' = k then Some a1 else auth_at dbs k')"
    using assms(2) k by (simp add: put_auth_def auth_at_upd_auth)
qed

lemma ready_put:
  assumes "ready e c act loc login rem pwd dbs"
    and "auth_at dbs (if act = Act_encrypt then ''to'' else ''from'', rem, login) = Some a"
    and "same_but_secrets a a1" "secret_current e c loc act a1"
  shows "ready e c act loc login rem pwd (put_auth dbs a1)"
proof -
  let ?k = "(if act = Act_encrypt then ''to'' else ''from'', rem, login)"
  have ok: "auth_dbs_ok dbs" "a_active a" "a_pwd a = pwd" using assms(1,2) by (auto simp: ready_def)
  have "auth_id a1 = ?k" using auth_at_ok [OF ok(1) assms(2)] same_but_secretsD(1) [OF assms(3)] by simp
  from put_auth_at [OF ok(1) assms(2) this]
  show ?thesis using assms(3,4) ok(2,3) same_but_secretsD(2,3) [OF assms(3)] by (simp add: ready_def)
qed

lemma c_string_text: "no_nul s \<Longrightarrow> c_string (map byte_of s @ [0]) = s"
proof -
  assume "no_nul s"
  moreover have "chr 0 = CHR 0x00" by code_simp
  ultimately have "byte_of c \<noteq> 0" if "c \<in> set s" for c
    using that by (metis chr_byte_of no_nul_def)
  hence "takeWhile (\<lambda>b. b \<noteq> 0) (map byte_of s @ [0]) = map byte_of s"
    by (induction s) auto
  thus ?thesis by (simp add: c_string_def comp_def)
qed

lemma coder_channel:
  assumes "evp_sound e" "ready e c Act_encrypt A l B pwd dA" "ready e c Act_decrypt B l A pwd dB"
    and "coder_encrypt e pos dA c A (Some l) (Some B) text = Inr k" "k_ret k = E_no_error" "no_nul text"
  shows "\<exists>enc a k'. k_out k = Some enc \<and> k_auth k = Some a \<and> a_login a = l \<and>
    ready e c Act_encrypt A l B pwd (k_dbs k) \<and>
    coder_decrypt e pos' dB c B (Some l) (Some A) (Some enc) = Inr k' \<and>
    k_ret k' = E_no_error \<and> k_out k' = Some text \<and> ready e c Act_decrypt B l A pwd (k_dbs k')"
proof -
  obtain a where a: "coder_auth_get dA (Some l) (Some B) Act_encrypt = Inr (E_no_error, Some a)"
      "auth_at dA (if Act_encrypt = Act_encrypt then ''to'' else ''from'', B, l) = Some a"
      "a_pwd a = pwd" "secret_current e c A Act_encrypt a" "a_sId a = B" "a_login a = l"
    using assms(2) by (elim coder_auth_get_ready)
  obtain b where b: "coder_auth_get dB (Some l) (Some A) Act_decrypt = Inr (E_no_error, Some b)"
      "auth_at dB (if Act_decrypt = Act_encrypt then ''to'' else ''from'', A, l) = Some b"
      "a_pwd b = pwd" "secret_current e c B Act_decrypt b" "a_sId b = A" "a_login b = l"
    using assms(3) by (elim coder_auth_get_ready)
  have "\<exists>a1 s key enc. coder_secret_get e pos c a A Act_encrypt = Inr (a1, Inr s) \<and>
    secret_octets s = Inr key \<and> c_encrypt e c (map byte_of text) key = Inr (Some enc) \<and>
    cipher_aes_context_new e \<and>
    k = \<lparr> k_dbs = put_auth dA a1, k_ret = E_no_error, k_out = Some enc, k_auth = Some a1 \<rparr>"
  proof (cases "coder_secret_get e pos c a A Act_encrypt")
    case (Inl f)
    thus ?thesis using assms(4) a(1) by (simp add: coder_encrypt_def)
  next
    case (Inr r)
    obtain a1 es where r: "r = (a1, es)" by fastforce
    show ?thesis
    proof (cases es)
      case (Inl err)
      have "k = \<lparr> k_dbs = put_auth dA a1, k_ret = err, k_out = None, k_auth = Some a1 \<rparr>"
        using assms(4) a(1) Inr r Inl by (simp add: coder_encrypt_def Let_def)
      moreover have "err \<noteq> E_no_error" using Inr r Inl by (auto dest: coder_secret_get_error)
      ultimately show ?thesis using assms(5) by simp
    next
      case es: (Inr s)
      obtain r1 out where c: "coder_cipher_encrypt e c s text = Inr (r1, out)"
        "k = \<lparr> k_dbs = put_auth dA a1, k_ret = r1, k_out = out, k_auth = Some a1 \<rparr>"
        using assms(4) a(1) Inr r es by (auto simp: coder_encrypt_def Let_def)
      have "r1 = E_no_error" using c(2) assms(5) by simp
      with c(1) show ?thesis using c(2) Inr r es
        by (auto simp: coder_cipher_encrypt_def split: if_splits option.splits)
    qed
  qed
  then obtain a1 s key enc where
    s: "coder_secret_get e pos c a A Act_encrypt = Inr (a1, Inr s)"
    and enc: "secret_octets s = Inr key" "c_encrypt e c (map byte_of text) key = Inr (Some enc)"
    and ctx: "cipher_aes_context_new e"
    and k: "k = \<lparr> k_dbs = put_auth dA a1, k_ret = E_no_error, k_out = Some enc, k_auth = Some a1 \<rparr>"
    by blast
  note sa = coder_secret_get_spec(1) [OF a(4) s]
  have "derived e c B Act_decrypt b = Inr (Some s)"
    using sa derived_symmetric [of a B b A e c] a b by simp
  then obtain b1 where s': "coder_secret_get e pos' c b B Act_decrypt = Inr (b1, Inr s)"
    using coder_secret_get_spec(2) [OF b(4)] by blast
  note sb = coder_secret_get_spec(1) [OF b(4) s']
  have "c_decrypt e c enc key = Inr (Some (map byte_of text))"
    unfolding c_decrypt_def by (rule aes_frame_decrypts [OF assms(1) enc(2) [unfolded c_encrypt_def]])
  hence "coder_decrypt e pos' dB c B (Some l) (Some A) (Some enc) =
      Inr \<lparr> k_dbs = put_auth dB b1, k_ret = E_no_error, k_out = Some text, k_auth = Some b1 \<rparr>"
    using b(1) s' ctx enc(1) c_string_text [OF assms(6)]
    by (simp add: coder_decrypt_def coder_cipher_decrypt_def Let_def)
  moreover have "ready e c Act_encrypt A l B pwd (put_auth dA a1)"
    using sa by (intro ready_put [OF assms(2) a(2)]) auto
  moreover have "ready e c Act_decrypt B l A pwd (put_auth dB b1)"
    using sb by (intro ready_put [OF assms(3) b(2)]) auto
  ultimately show ?thesis using k sa same_but_secretsD(4) [of a a1] a(6) by auto
qed

lemma ptxt_json:
  assumes "json_sound J" "times_sound T" "ptxt_serialize J T p = Inr (Inr s)" "fst (p_timestamp p) > 0"
  shows "\<exists>q. ptxt_deserial J T s ptxt_null = (E_no_error, q) \<and> p_class q = p_class p \<and>
    p_original q = p_original p \<and> fst (p_timestamp q) = fst (p_timestamp p) \<and> p_original p \<noteq> None"
proof -
  obtain tx where tx: "p_original p = Some tx"
    using assms(3) by (cases "p_original p") (auto simp: ptxt_serialize_def new_string_def)
  obtain cl where cl: "cl = ''INTERNAL'' \<and> p_class p = Cl_internal \<or> cl = ''EXTERNAL'' \<and> p_class p = Cl_external"
    using assms(3) by (cases "p_class p") (auto simp: ptxt_serialize_def Let_def)
  let ?obj = "j_object J [(''timestamp'', j_new_string J (t_text T (p_timestamp p))),
      (''original'', j_new_string J tx), (''class'', j_new_string J cl)]"
  have s: "s = j_print J ?obj"
    using assms(3) tx cl by (auto simp: ptxt_serialize_def Let_def)
  have m: "j_string_member J ?obj ''timestamp'' = Some (t_text T (p_timestamp p))"
      "j_string_member J ?obj ''original'' = Some tx" "j_string_member J ?obj ''class'' = Some cl"
    by (simp_all add: j_string_member_def j_get_object [OF assms(1)] json_soundD(6,7) [OF assms(1)])
  have "j_parse J s = Some ?obj" unfolding s by (rule parse_object [OF assms(1)]) simp
  moreover have "fst (str2ZuluHorodate T (t_text T (p_timestamp p))) = fst (p_timestamp p)"
    using assms(2) unfolding str2ZuluHorodate_def times_sound_def Let_def by (metis fst_conv)
  ultimately show ?thesis
    using m tx cl assms(4)
    by (auto simp: ptxt_deserial_def ptxt_extract_timestamp_def ptxt_extract_class_def
        ptxt_extract_original_def Let_def)
qed

lemma class_of_marked:
  "ptxt_set now p ts (Some text) = (E_no_error, q) \<Longrightarrow>
   p_original q = Some text \<and> (p_class q = Cl_internal \<or> p_class q = Cl_external) \<and>
   (strstr (quoted ''rSMsg'') text \<or> strstr (quoted ''eRMsg'') text) \<and>
   p_timestamp q = (case ts of Some d \<Rightarrow> d | None \<Rightarrow> now)"
  by (auto simp: ptxt_set_def Let_def split: if_splits)

text \<open>A plain text as \<open>ptxt_set\<close> makes it, dated after 1970, whose JSON text is a C string.\<close>
definition sendable :: "'j json_api \<Rightarrow> times \<Rightarrow> ptxt \<Rightarrow> bool" where
  "sendable J T p \<longleftrightarrow>
    (case p_original p of
       None \<Rightarrow> False
     | Some text \<Rightarrow> strstr (quoted ''rSMsg'') text \<or> strstr (quoted ''eRMsg'') text) \<and>
    p_class p \<noteq> Cl_unknown \<and> 0 < fst (p_timestamp p) \<and>
    (case ptxt_serialize J T p of Inr (Inr s) \<Rightarrow> no_nul s | _ \<Rightarrow> True)"

text \<open>The same text and class, the same second.\<close>
definition same_ptxt :: "ptxt \<Rightarrow> ptxt \<Rightarrow> bool" where
  "same_ptxt p q \<longleftrightarrow> p_original q = p_original p \<and> p_class q = p_class p \<and>
    fst (p_timestamp q) = fst (p_timestamp p)"

lemma decode_sendable:
  assumes "json_sound J" "times_sound T" "sendable J T p" "ptxt_serialize J T p = Inr (Inr s)" "window \<le> 0"
  shows "\<exists>q. ptxt_deserial J T s ptxt_null = (E_no_error, q) \<and>
    ptxt_is_valid T window now q = E_no_error \<and> same_ptxt p q"
proof -
  obtain q where q: "ptxt_deserial J T s ptxt_null = (E_no_error, q)" "same_ptxt p q"
    using ptxt_json [OF assms(1,2,4)] assms(3) by (auto simp: sendable_def same_ptxt_def)
  have "ptxt_is_valid T window now q = E_no_error"
    using assms(3,5) q(2)
    by (cases "p_class p") (auto simp: sendable_def same_ptxt_def ptxt_is_valid_def split: option.splits)
  thus ?thesis using q by blast
qed

text \<open>The two loops, one after the other, from the accumulators on.\<close>
lemma loops_agree:
  assumes "json_sound J" "times_sound T" "evp_sound e" "window \<le> 0"
  shows "list_all (sendable J T) ps \<Longrightarrow> ready e c Act_encrypt A l B pwd dA \<Longrightarrow>
    ready e c Act_decrypt B l A pwd dB \<Longrightarrow>
    encode_loop J e T pos c A (Some l) (Some B) ps dA out a = Inr (dA', E_no_error, out', a') \<Longrightarrow>
    (ps = [] \<longrightarrow> a' = a) \<and> (ps \<noteq> [] \<longrightarrow> (\<exists>x. a' = Some x \<and> a_login x = l)) \<and>
    ready e c Act_encrypt A l B pwd dA' \<and>
    (\<exists>encs dB' qs b'. out' = out @ encs \<and> length encs = length ps \<and>
      decode_loop J e T pos' window now c B (Some l) (Some A) (map (j_new_string J) encs) dB acc b =
        Inr (dB', acc @ qs, b') \<and> list_all2 same_ptxt ps qs \<and> ready e c Act_decrypt B l A pwd dB')"
proof (induction ps arbitrary: dA dB out a acc b)
  case Nil
  thus ?case by (auto intro: exI [of _ "[]"])
next
  case (Cons p ps)
  have send: "sendable J T p" "list_all (sendable J T) ps" using Cons.prems(1) by auto
  obtain s where ser: "ptxt_serialize J T p = Inr (Inr s)"
    using Cons.prems(4) send(1)
    by (cases "p_original p"; cases "p_class p")
      (auto simp: sendable_def ptxt_serialize_def new_string_def Let_def)
  obtain k where k: "coder_encrypt e pos dA c A (Some l) (Some B) s = Inr k"
    using Cons.prems(4) ser by auto
  have kr: "k_ret k = E_no_error"
    using Cons.prems(4) ser k by (auto split: if_splits)
  have nn: "no_nul s" using send(1) ser by (simp add: sendable_def)
  obtain enc x k' where c: "k_out k = Some enc" "k_auth k = Some x" "a_login x = l"
      "ready e c Act_encrypt A l B pwd (k_dbs k)"
      "coder_decrypt e pos' dB c B (Some l) (Some A) (Some enc) = Inr k'"
      "k_ret k' = E_no_error" "k_out k' = Some s" "ready e c Act_decrypt B l A pwd (k_dbs k')"
    using coder_channel [OF assms(3) Cons.prems(2,3) k kr nn] by metis
  obtain q where q: "ptxt_deserial J T s ptxt_null = (E_no_error, q)"
      "ptxt_is_valid T window now q = E_no_error" "same_ptxt p q"
    using decode_sendable [OF assms(1,2) send(1) ser assms(4)] by blast
  have rest: "encode_loop J e T pos c A (Some l) (Some B) ps (k_dbs k) (out @ [enc]) (Some x) =
      Inr (dA', E_no_error, out', a')"
    using Cons.prems(4) ser k kr c(1,2) by simp
  from Cons.IH [OF send(2) c(4) c(8) rest, of "acc @ [q]" "k_auth k'"] obtain encs dB' qs b' where
    ih: "ps = [] \<longrightarrow> a' = Some x" "ps \<noteq> [] \<longrightarrow> (\<exists>x. a' = Some x \<and> a_login x = l)"
      "ready e c Act_encrypt A l B pwd dA'" "out' = (out @ [enc]) @ encs" "length encs = length ps"
      "decode_loop J e T pos' window now c B (Some l) (Some A) (map (j_new_string J) encs) (k_dbs k')
        (acc @ [q]) (k_auth k') = Inr (dB', (acc @ [q]) @ qs, b')"
      "list_all2 same_ptxt ps qs" "ready e c Act_decrypt B l A pwd dB'" by blast
  have "decode_loop J e T pos' window now c B (Some l) (Some A) (map (j_new_string J) (enc # encs)) dB acc b =
      Inr (dB', acc @ (q # qs), b')"
    using ih(6) c(5-7) q(1,2) by (simp add: json_soundD(7) [OF assms(1)])
  moreover have "\<exists>x. a' = Some x \<and> a_login x = l" using ih(1,2) c(3) by blast
  ultimately show ?case
    using ih(3-5,7,8) q(3)
    by (intro conjI exI [of _ "enc # encs"] exI [of _ dB'] exI [of _ "q # qs"] exI [of _ b']) simp_all
qed

lemma decode_loop_valid:
  "list_all (\<lambda>p. ptxt_is_valid T window now p = E_no_error) out \<Longrightarrow>
   decode_loop J e T pos window now c loc login sId vs dbs out a = Inr (dbs', out', a') \<Longrightarrow>
   list_all (\<lambda>p. ptxt_is_valid T window now p = E_no_error) out'"
proof (induction vs arbitrary: dbs out a)
  case (Cons v vs)
  obtain k where k: "coder_decrypt e pos dbs c loc login sId (j_get_string J v) = Inr k"
    using Cons.prems(2) by auto
  let ?out1 = "case k_out k of None \<Rightarrow> out
     | Some plain \<Rightarrow> if k_ret k \<noteq> E_no_error then out
         else let (r, p) = ptxt_deserial J T plain ptxt_null
              in if r \<noteq> E_no_error then out
                 else if ptxt_is_valid T window now p \<noteq> E_no_error then out else out @ [p]"
  have rest: "decode_loop J e T pos window now c loc login sId vs (k_dbs k) ?out1 (k_auth k) = Inr (dbs', out', a')"
    using Cons.prems(2) k by (simp add: Let_def)
  have "list_all (\<lambda>p. ptxt_is_valid T window now p = E_no_error) ?out1"
    using Cons.prems(1) by (auto simp: Let_def split: option.split prod.split)
  from Cons.IH [OF this rest] show ?case .
qed simp

lemma Encrypted_decode_result:
  assumes "Encrypted_decode J e T pos window now dbs cipher loc buf a0 = Inr res"
  shows "res = (dbs, J_parse, [], a0) \<or>
    (\<exists>c login sId vs dbs1 ps a. decode_loop J e T pos window now c loc login sId vs dbs [] a0 = Inr (dbs1, ps, a) \<and>
      res = (dbs1, if ps = [] then K_decrypt else E_no_error, ps, a))"
proof (cases "cipher = None \<or> buf = None \<or> buf = Some [] \<or> j_parse J (the buf) = None")
  case True
  thus ?thesis using assms by (auto simp: Encrypted_decode_def split: option.splits)
next
  case False
  then obtain c tx where "cipher = Some c" "buf = Some tx" "tx \<noteq> []" by auto
  with False obtain obj where s: "cipher = Some c" "buf = Some tx" "tx \<noteq> []" "j_parse J tx = Some obj" by auto
  show ?thesis
  proof (cases "\<exists>mType type mId login sId data.
      j_members J obj [''mType'', ''type'', ''mId'', ''login'', ''sId'', ''data''] =
        Some [mType, type, mId, login, sId, data]")
    case True
    then obtain mType type mId login sId data where m:
      "j_members J obj [''mType'', ''type'', ''mId'', ''login'', ''sId'', ''data''] =
        Some [mType, type, mId, login, sId, data]" by blast
    have "\<exists>ok. header_is J ''Encrypted'' mType type = Inr ok \<and>
      (if \<not> ok then Inr (dbs, J_parse, [], a0)
       else rbind (array_length J data) (\<lambda>n.
              if n = 0 then Inr (dbs, J_parse, [], a0)
              else rbind (decode_loop J e T pos window now c loc (j_get_string J login)
                     (j_get_string J sId) (array_values J data n) dbs [] a0)
                     (\<lambda>(dbs1, ps, a). Inr (dbs1, if ps = [] then K_decrypt else E_no_error, ps, a)))) = Inr res"
      using assms m by (simp add: Encrypted_decode_def s del: j_members.simps)
    then consider "res = (dbs, J_parse, [], a0)" | n dbs1 ps a where
      "decode_loop J e T pos window now c loc (j_get_string J login) (j_get_string J sId)
         (array_values J data n) dbs [] a0 = Inr (dbs1, ps, a)"
      "res = (dbs1, if ps = [] then K_decrypt else E_no_error, ps, a)"
      by (auto split: if_splits)
    thus ?thesis by cases blast+
  next
    case False
    have "Encrypted_decode J e T pos window now dbs cipher loc buf a0 = Inr (dbs, J_parse, [], a0)"
      using False
      by (simp add: Encrypted_decode_def s del: j_members.simps split: option.split list.split)
    thus ?thesis using assms by simp
  qed
qed

section \<open>A concrete pair of ends\<close>

text \<open>Dates written in unary, with a sign.\<close>
definition times_unary :: times where
  "times_unary =
    \<lparr> t_text = (\<lambda>d. (if fst d < 0 then ''-'' else ''+'') @ replicate (nat \<bar>fst d\<bar>) (CHR ''1'')),
      t_secs = (\<lambda>s. case s of [] \<Rightarrow> 0
                  | c # r \<Rightarrow> if c = CHR ''-'' then - int (length r) else int (length r)),
      t_diff_ms = (\<lambda>a b. (fst a - fst b) * 1000), t_diff_sec = (\<lambda>a b. fst a - fst b) \<rparr>"

lemma times_sound_unary: "times_sound times_unary"
  by (simp add: times_sound_def times_unary_def)

lemma encoded_ok:
  "(case r of Inr (d, Inr p) \<Rightarrow> True | _ \<Rightarrow> False) \<Longrightarrow> \<exists>d p. r = Inr (d, Inr p)"
  by (cases r; cases "snd (projr r)") auto

definition pwd_sample :: auth_pwd where "pwd_sample = blob_of [1, 2, 3, 4, 5, 6, 7, 8]"

definition entry_sample :: "string \<Rightarrow> string \<Rightarrow> auth" where
  "entry_sample dbId sId =
    auth_body (0, 0) dbId ''l'' sId (bbuf pwd_sample) (blen pwd_sample) None True None 0 False"

definition base_A :: dbs where
  "base_A = [\<lparr> d_dbId = ''to'', d_sIds = [\<lparr> s_sId = ''B'', s_logins = [entry_sample ''to'' ''B''] \<rparr>] \<rparr>]"

definition base_B :: dbs where
  "base_B = [\<lparr> d_dbId = ''from'', d_sIds = [\<lparr> s_sId = ''A'', s_logins = [entry_sample ''from'' ''A''] \<rparr>] \<rparr>]"

definition ptxt_sample :: ptxt where
  "ptxt_sample = \<lparr> p_timestamp = (2, 0), p_class = Cl_external, p_original = Some (quoted ''rSMsg'') \<rparr>"

section \<open>Properties\<close>

text \<open>C3. A message of type \<open>Encrypted\<close> made by one end from any list of plain texts is decoded by
  the other end to the same texts and classes, dated the same second and in the same order, and
  both bases are left ready for the next message.  The ends share the login and the password, and
  keep no secret of another password.\<close>
theorem encrypted_message_roundtrip:
  assumes "json_sound J" "times_sound T" "evp_sound e" "window \<le> 0"
    and "list_all (sendable J T) ps"
    and "ready e c Act_encrypt A l B pwd dA" "ready e c Act_decrypt B l A pwd dB"
    and "Encrypted_encode J e T pos uuid dA (Some c) (Some A) (Some l) (Some B) ps = Inr (dA', Inr payload)"
  shows "\<exists>dB' qs b.
    Encrypted_decode J e T pos' window now dB (Some c) B (Some payload) b0 = Inr (dB', E_no_error, qs, b) \<and>
    list_all2 same_ptxt ps qs \<and>
    ready e c Act_encrypt A l B pwd dA' \<and> ready e c Act_decrypt B l A pwd dB'"
proof -
  have ne: "ps \<noteq> []" using assms(8) by (auto simp: Encrypted_encode_def)
  then obtain out x where
    loop: "encode_loop J e T pos c A (Some l) (Some B) ps dA [] None = Inr (dA', E_no_error, out, Some x)"
    and p: "payload = j_print J (j_object J
                    [(''mType'', j_new_string J ''eRMsg''), (''type'', j_new_string J ''Encrypted''),
                     (''mId'', j_new_string J uuid), (''sId'', j_new_string J A),
                     (''data'', j_array J (map (j_new_string J) out)),
                     (''login'', j_new_string J (a_login x))])"
    using assms(8) by (auto simp: Encrypted_encode_def split: if_splits option.splits)
  from loops_agree [OF assms(1-7) loop, of pos' now "[]" b0] ne obtain dB' qs b where
    l: "a_login x = l" "ready e c Act_encrypt A l B pwd dA'" "length out = length ps"
      "decode_loop J e T pos' window now c B (Some l) (Some A) (map (j_new_string J) out) dB [] b0 =
        Inr (dB', qs, b)" "list_all2 same_ptxt ps qs" "ready e c Act_decrypt B l A pwd dB'"
    by auto
  let ?obj = "j_object J [(''mType'', j_new_string J ''eRMsg''), (''type'', j_new_string J ''Encrypted''),
     (''mId'', j_new_string J uuid), (''sId'', j_new_string J A),
     (''data'', j_array J (map (j_new_string J) out)), (''login'', j_new_string J l)]"
  have "j_members J ?obj [''mType'', ''type'', ''mId'', ''login'', ''sId'', ''data''] =
      Some [j_new_string J ''eRMsg'', j_new_string J ''Encrypted'', j_new_string J uuid,
        j_new_string J l, j_new_string J A, j_array J (map (j_new_string J) out)]"
    by (simp add: j_get_object [OF assms(1)])
  moreover have "j_parse J payload = Some ?obj"
    unfolding p l(1) by (rule parse_object [OF assms(1)]) simp
  moreover have "payload \<noteq> []" unfolding p by (rule json_soundD(3) [OF assms(1)])
  moreover have "qs \<noteq> []" "out \<noteq> []" using ne l(3,5) by auto
  moreover have "array_values J (j_array J (map (j_new_string J) out)) (length out) = map (j_new_string J) out"
    using array_values_new [OF assms(1), of "map (j_new_string J) out"] by simp
  ultimately have "Encrypted_decode J e T pos' window now dB (Some c) B (Some payload) b0 =
      Inr (dB', E_no_error, qs, b)"
    using l(4) assms(1) by (simp add: Encrypted_decode_def json_soundD(7))
  thus ?thesis using l by blast
qed

theorem encrypted_message_roundtrip_witness:
  "\<exists>payload dB' qs b. Encrypted_decode text_json evp_plain times_unary (\<lambda>n. n) (- 1) (0, 0) base_B
      (Some cipher_aes128_ctr) ''B'' (Some payload) None = Inr (dB', E_no_error, qs, b) \<and>
    list_all2 same_ptxt [ptxt_sample] qs"
proof -
  have send: "list_all (sendable text_json times_unary) [ptxt_sample]" by code_simp
  have A: "ready evp_plain cipher_aes128_ctr Act_encrypt ''A'' ''l'' ''B'' pwd_sample base_A" by code_simp
  have B: "ready evp_plain cipher_aes128_ctr Act_decrypt ''B'' ''l'' ''A'' pwd_sample base_B" by code_simp
  have "case Encrypted_encode text_json evp_plain times_unary (\<lambda>n. n) ''u'' base_A (Some cipher_aes128_ctr)
      (Some ''A'') (Some ''l'') (Some ''B'') [ptxt_sample] of Inr (d, Inr p) \<Rightarrow> True | _ \<Rightarrow> False"
    by code_simp
  then obtain dA' payload where "Encrypted_encode text_json evp_plain times_unary (\<lambda>n. n) ''u'' base_A
      (Some cipher_aes128_ctr) (Some ''A'') (Some ''l'') (Some ''B'') [ptxt_sample] = Inr (dA', Inr payload)"
    by (blast dest: encoded_ok)
  from encrypted_message_roundtrip [OF text_json_sound times_sound_unary evp_sound_plain _ send A B this,
      of "- 1" "\<lambda>n. n" "(0, 0)" None]
  show ?thesis by fastforce
qed

text \<open>What the decoder of \<open>Encrypted\<close> messages lets through: success is returned exactly when at
  least one element passed, and every text that passed had a known class, was within the window of
  time and contained a marker of a message.\<close>
lemma decode_lets_valid_through:
  "case Encrypted_decode J e T pos window now dbs c loc buf a0 of
     Inl f \<Rightarrow> True
   | Inr (dbs', r, ps, a) \<Rightarrow>
       (r = E_no_error) = (ps \<noteq> []) \<and>
       list_all (\<lambda>p. ptxt_is_valid T window now p = E_no_error) ps"
proof (cases "Encrypted_decode J e T pos window now dbs c loc buf a0")
  case (Inr res)
  obtain dbs' r ps a where res: "res = (dbs', r, ps, a)" by (cases res) auto
  have "(r = E_no_error) = (ps \<noteq> []) \<and> list_all (\<lambda>p. ptxt_is_valid T window now p = E_no_error) ps"
    using Encrypted_decode_result [OF Inr] res by (auto dest: decode_loop_valid [rotated])
  thus ?thesis using Inr res by simp
qed simp

text \<open>C38. A text is decrypted for a peer only when the base has an active FROM entry of its login and
  site; an error never comes with an output.\<close>
theorem decrypt_only_for_active_login:
  "case coder_decrypt e pos dbs c loc login rem input of
     Inl f \<Rightarrow> True
   | Inr k \<Rightarrow>
       if k_ret k = E_no_error
       then k_out k \<noteq> None \<and> login \<noteq> None \<and>
         (case auth_find_by_key dbs (Some (auth_from_key_set login rem)) of
            None \<Rightarrow> False | Some a \<Rightarrow> a_active a)
       else k_out k = None"
proof (cases "coder_decrypt e pos dbs c loc login rem input")
  case (Inr k)
  from Inr obtain r found where g: "coder_auth_get dbs login rem Act_decrypt = Inr (r, found)"
    by (auto simp: coder_decrypt_def)
  show ?thesis
  proof (cases "r = E_no_error")
    case False
    hence "k_ret k = r \<and> k_out k = None" using Inr g by (auto simp: coder_decrypt_def split: option.splits)
    thus ?thesis using Inr False by simp
  next
    case True
    then obtain a where a: "found = Some a" "login \<noteq> None" "a_active a"
        "auth_find_by_key dbs (Some (auth_from_key_set login rem)) = Some a"
      using g by (cases found) (auto simp: coder_auth_get_def Let_def split: if_splits option.splits)
    have "k_out k \<noteq> None \<longleftrightarrow> k_ret k = E_no_error"
    proof (cases "coder_secret_get e pos c a loc Act_decrypt")
      case (Inl f)
      thus ?thesis using Inr g True a(1) by (simp add: coder_decrypt_def)
    next
      case s: (Inr r1)
      obtain a1 es where r1: "r1 = (a1, es)" by fastforce
      show ?thesis
      proof (cases es)
        case (Inl err)
        thus ?thesis using Inr g True a(1) s r1 coder_secret_get_error [of e pos c a loc Act_decrypt a1 err]
          by (auto simp: coder_decrypt_def Let_def)
      next
        case es: (Inr sec)
        obtain r2 out where c: "coder_cipher_decrypt e c sec input = Inr (r2, out)"
          using Inr g True a(1) s r1 es by (auto simp: coder_decrypt_def Let_def)
        show ?thesis using Inr g True a(1) s r1 es c
          by (cases out) (auto simp: coder_decrypt_def Let_def split: if_splits)
      qed
    qed
    thus ?thesis using Inr a by auto
  qed
qed simp

text \<open>C39. The window of time compares the difference of the dates cut to 32 bits: a recorded message
  replayed a multiple of 2 to the power 32 milliseconds later (about 50 days) gets the verdict of
  the fresh one.\<close>
theorem replay_window_wraps:
  assumes "t_diff_ms T (p_timestamp p) later = t_diff_ms T (p_timestamp p) now + 2 ^ 32 * n"
  shows "ptxt_is_valid T window later p = ptxt_is_valid T window now p"
proof -
  have "(word_of_int (d + 2 ^ 32 * n) :: 32 word) = word_of_int d" for d :: int
    by (rule iffD2 [OF word_of_int_eq_iff]) (simp add: take_bit_eq_mod)
  hence "abs32 (t_diff_ms T (p_timestamp p) later) = abs32 (t_diff_ms T (p_timestamp p) now)"
    unfolding abs32_def to_int32_def assms by (simp only:)
  thus ?thesis by (simp only: ptxt_is_valid_def)
qed

theorem replay_window_wraps_witness:
  "ptxt_is_valid (times_unary\<lparr> t_diff_ms := \<lambda>a b. fst a - fst b \<rparr>) 1000 (- 4294967296, 0) ptxt_sample =
   ptxt_is_valid (times_unary\<lparr> t_diff_ms := \<lambda>a b. fst a - fst b \<rparr>) 1000 (0, 0) ptxt_sample"
  by (rule replay_window_wraps [where n = 1]) (simp add: ptxt_sample_def)

end
