(* ===== verification/Challenge.thy ===== *)
theory Challenge
  imports Coder
begin

text \<open>
  Model of \<open>cyber/challenge_ctxt.c\<close> and of \<open>Challenge_encode\<close> in \<open>coder/coder.c\<close>: the message that
  announces a new password (encrypted under the current secret) and probes it with a \<open>Ping\<close>
  (encrypted under the new one).  The entry a context points to is named by its key in the base;
  \<open>char\<close> is signed, as on x86.
\<close>

section \<open>The context\<close>

datatype challenge_response = Resp_none | Resp_success | Resp_busy | Resp_timeout

record challenge =
  ch_auth :: "(string \<times> string \<times> string) option"
  ch_toSend :: bool
  ch_running :: bool
  ch_timer :: bool
  ch_timestamp :: horodate
  ch_mIdRequest :: cstr
  ch_mIdPing :: cstr
  ch_pad :: cstr
  ch_response :: challenge_response

definition challenge_ctxt_new :: challenge where
  "challenge_ctxt_new =
    \<lparr> ch_auth = None, ch_toSend = False, ch_running = False, ch_timer = False, ch_timestamp = (0, 0),
      ch_mIdRequest = None, ch_mIdPing = None, ch_pad = None, ch_response = Resp_none \<rparr>"

definition freeChallengeContextMembers :: "challenge \<Rightarrow> challenge" where
  "freeChallengeContextMembers ch =
    ch\<lparr> ch_auth := None, ch_mIdRequest := None, ch_mIdPing := None, ch_pad := None \<rparr>"

definition freeChallengeContext :: "challenge option \<Rightarrow> challenge option" where
  "freeChallengeContext ch = None"

section \<open>One element of the challenge\<close>

definition Challenge_encode_data ::
  "'j json_api \<Rightarrow> evp \<Rightarrow> times \<Rightarrow> horodate \<Rightarrow> message \<Rightarrow> cipher \<Rightarrow> auth_secret \<Rightarrow> string outcome" where
  "Challenge_encode_data J e T timestamp msg c secret =
    rbind (serializeMessage J (Some msg)) (\<lambda>ser.
      case ser of
        Inl err \<Rightarrow> Inr (Inl err)
      | Inr payload \<Rightarrow>
          let (r, p) = ptxt_set timestamp ptxt_null (Some timestamp) (Some payload)
          in if r \<noteq> E_no_error then Inr (Inl J_encode)
             else rbind (ptxt_serialize J T p) (\<lambda>data.
               case data of
                 Inl err \<Rightarrow> Inr (Inl J_encode)
               | Inr text \<Rightarrow>
                   rbind (coder_cipher_encrypt e c secret text) (\<lambda>(r1, out). Inr
                     (case out of
                        Some enc \<Rightarrow> if r1 = E_no_error then Inr enc else Inl J_encode
                      | None \<Rightarrow> Inl J_encode))))"

section \<open>The padding of the Ping\<close>

text \<open>\<open>char pad_len = strlen(pwd_b64) + 12\<close>.\<close>
definition pad_len_char :: "nat \<Rightarrow> int" where
  "pad_len_char n = sint (word_of_nat (n + 12) :: byte)"

text \<open>The size handed to \<open>calloc\<close> is a \<open>size_t\<close>: a negative one cannot be allocated, which is \<open>None\<close>;
  with no octet at all the terminator is written out of bounds.\<close>
definition challenge_pad :: "(nat \<Rightarrow> nat) \<Rightarrow> int \<Rightarrow> cstr run" where
  "challenge_pad rnds pad_len =
    (if pad_len + 1 < 0 then Inr None
     else if pad_len + 1 = 0 then Inl Write_oob
     else Inr (Some (map (\<lambda>i. char_of (rnds i mod 94 + 33)) [0..<nat pad_len])))"

section \<open>The challenge\<close>

text \<open>What is drawn for a challenge: the date, the octets of the new password, those of the padding,
  and the identifiers of the three messages.\<close>
record draws =
  dr_now :: horodate
  dr_pwd :: "nat \<Rightarrow> nat"
  dr_pad :: "nat \<Rightarrow> nat"
  dr_uuid :: "nat \<Rightarrow> string"

text \<open>The base and the context after the call, and the payload; the error \<open>None\<close> is the result -1 of
  the derivation.\<close>
type_synonym challenge_result = "dbs \<times> challenge \<times> (errcode option + string)"

text \<open>From the serialisation of the request on, when the entry, the text of the new password and the
  two secrets are known.\<close>
definition challenge_messages ::
  "'j json_api \<Rightarrow> evp \<Rightarrow> times \<Rightarrow> draws \<Rightarrow> cipher \<Rightarrow> string \<Rightarrow> auth \<Rightarrow> string \<Rightarrow> auth_secret \<Rightarrow> auth_secret \<Rightarrow>
   dbs \<Rightarrow> challenge \<Rightarrow> challenge_result run" where
  "challenge_messages J e T d c sId_local a pwd_b64 current new dbs ch =
    (let request = (initMessage (dr_uuid d 0) (ChangePwdRequest None))\<lparr> m_body := ChangePwdRequest (Some pwd_b64) \<rparr>;
         ch1 = ch\<lparr> ch_mIdRequest := Some (dr_uuid d 0), ch_timestamp := dr_now d \<rparr>
     in rbind (Challenge_encode_data J e T (dr_now d) request c current) (\<lambda>enc1.
          case enc1 of
            Inl err \<Rightarrow> Inr (dbs, ch1, Inl (Some err))
          | Inr data1 \<Rightarrow>
              rbind (challenge_pad (dr_pad d) (pad_len_char (length pwd_b64))) (\<lambda>pad.
                case pad of
                  None \<Rightarrow> Inl Null_deref
                | Some p \<Rightarrow>
                    let ping = (initMessage (dr_uuid d 1) (Ping None))\<lparr> m_body := Ping (Some p) \<rparr>;
                        ch2 = ch1\<lparr> ch_pad := Some p, ch_mIdPing := Some (dr_uuid d 1) \<rparr>
                    in rbind (Challenge_encode_data J e T (dr_now d) ping c new) (\<lambda>enc2.
                         case enc2 of
                           Inl err \<Rightarrow> Inr (dbs, ch2, Inl (Some err))
                         | Inr data2 \<Rightarrow>
                             let msg = (initMessage (dr_uuid d 2) (Encrypted None None None))\<lparr> m_body :=
                                   Encrypted (Some sId_local) (Some (a_login a)) (Some [Some data1, Some data2]) \<rparr>
                             in rbind (serializeMessage J (Some msg)) (\<lambda>ser.
                                  case ser of
                                    Inl err \<Rightarrow> Inr (dbs, ch2, Inl (Some err))
                                  | Inr payload \<Rightarrow> Inr (dbs, ch2\<lparr> ch_running := True \<rparr>, Inr payload))))))"

text \<open>\<open>sndPayload\<close> of the caller is \<open>NULL\<close> before: when the padding cannot be allocated the code is
  still the one of success and its length is taken.\<close>
definition Challenge_encode ::
  "'j json_api \<Rightarrow> evp \<Rightarrow> times \<Rightarrow> (nat \<Rightarrow> nat) \<Rightarrow> draws \<Rightarrow> dbs \<Rightarrow> challenge \<Rightarrow> cipher option \<Rightarrow> cstr \<Rightarrow> cstr \<Rightarrow> cstr \<Rightarrow>
   challenge_result run" where
  "Challenge_encode J e T pos d dbs ch cipher sId_local login sId_remote =
    (case (cipher, sId_local, sId_remote, login) of
       (Some c, Some loc, Some rem, Some lg) \<Rightarrow>
         if ch_running ch then Inr (dbs, ch, Inl (Some E_encode))
         else let ch0 = freeChallengeContextMembers ch
              in rbind (coder_auth_get dbs login sId_remote Act_encrypt) (\<lambda>(ret, found).
                   let ch1 = ch0\<lparr> ch_auth := map_option auth_id found \<rparr>
                   in if ret \<noteq> E_no_error then Inr (dbs, ch1, Inl (Some ret))
                      else let a = the found
                           in rbind (auth_get_new_pwd_b64 (dr_pwd d) a) (\<lambda>(a1, ret1, pwd).
                                let dbs1 = put_auth dbs a1
                                in if ret1 \<noteq> E_no_error then Inr (dbs1, ch1, Inl (Some ret1))
                                   else case pwd of
                                          None \<Rightarrow> Inl Null_deref
                                        | Some pwd_b64 \<Rightarrow>
                                            rbind (coder_secret_get e pos c a1 loc Act_encrypt) (\<lambda>(a2, sec).
                                              let dbs2 = put_auth dbs1 a2
                                              in case sec of
                                                   Inl err \<Rightarrow> Inr (dbs2, ch1, Inl (Some err))
                                                 | Inr current \<Rightarrow>
                                                     rbind (computeNewSecretAuthTo e c loc a2) (\<lambda>new.
                                                       case new of
                                                         None \<Rightarrow> Inr (dbs2, ch1, Inl None)
                                                       | Some s \<Rightarrow>
                                                           challenge_messages J e T d c loc a2 pwd_b64 current s
                                                             dbs2 ch1))))
     | _ \<Rightarrow> Inr (dbs, ch, Inl (Some E_encode)))"

section \<open>Lemmas\<close>

lemma challenge_messages_success:
  assumes "challenge_messages J e T d c loc a b64 cur new dbs ch = Inr (dbs', ch', Inr payload)"
  shows "dbs' = dbs \<and> 0 < pad_len_char (length b64) \<and> ch_running ch' \<and> ch_auth ch' = ch_auth ch \<and>
    ch_toSend ch' = ch_toSend ch \<and> ch_timer ch' = ch_timer ch \<and>
    ch_mIdRequest ch' = Some (dr_uuid d 0) \<and> ch_mIdPing ch' = Some (dr_uuid d 1) \<and>
    ch_timestamp ch' = dr_now d"
proof -
  let ?n = "pad_len_char (length b64)"
  obtain data1 p data2 where
    pad: "challenge_pad (dr_pad d) ?n = Inr (Some p)"
    and ping: "Challenge_encode_data J e T (dr_now d)
        ((initMessage (dr_uuid d 1) (Ping None))\<lparr> m_body := Ping (Some p) \<rparr>) c new = Inr (Inr data2)"
    and rest: "dbs' = dbs" "ch' = ch\<lparr> ch_mIdRequest := Some (dr_uuid d 0), ch_timestamp := dr_now d,
        ch_pad := Some p, ch_mIdPing := Some (dr_uuid d 1), ch_running := True \<rparr>"
    using assms
    by (auto simp: challenge_messages_def Let_def run_cases simp del: rbind_Inr_iff split: sum.splits)
  have "p \<noteq> []"
  proof
    assume "p = []"
    hence "\<And>x. Challenge_encode_data J e T (dr_now d)
        ((initMessage (dr_uuid d 1) (Ping None))\<lparr> m_body := Ping (Some p) \<rparr>) c new \<noteq> Inr (Inr x)"
      by (simp add: Challenge_encode_data_def serializeMessage_def messageCheckFields_def present_def
          initMessage_def)
    thus False using ping by blast
  qed
  hence "0 < ?n" using pad by (auto simp: challenge_pad_def split: if_splits)
  thus ?thesis using rest by simp
qed

lemma pad_len_char_wraps: "116 \<le> n \<Longrightarrow> n \<le> 244 \<Longrightarrow> pad_len_char n \<le> 0"
proof -
  assume n: "116 \<le> n" "n \<le> 244"
  have "pad_len_char n = signed_take_bit 7 (int (n + 12))"
    by (simp add: pad_len_char_def signed_of_nat del: of_nat_add)
  also have "\<dots> = (int n + 140) mod 256 - 128"
    by (simp add: signed_take_bit_eq_take_bit_shift take_bit_eq_mod add.commute)
  also have "\<dots> \<le> 0"
  proof -
    have "(int n + 140) mod 256 = (int n + 140 - 256) mod 256" by (metis minus_mod_self2)
    moreover have "\<dots> = int n + 140 - 256" using n by (intro mod_pos_pos_trivial) auto
    ultimately show ?thesis using n by linarith
  qed
  finally show ?thesis .
qed

lemma active_of_code:
  "(case x of None \<Rightarrow> (A_unknown, None)
    | Some a \<Rightarrow> (if a_active a then E_no_error else C_generic, Some a)) = (E_no_error, found) \<Longrightarrow>
   case x of None \<Rightarrow> False | Some a \<Rightarrow> a_active a \<and> found = Some a"
  by (cases x) (auto split: if_splits)

lemma Challenge_encode_success:
  assumes "auth_dbs_ok dbs"
    and "Challenge_encode J e T pos d dbs ch cipher loc login rem = Inr (dbs', ch', Inr payload)"
  obtains c l r s a a1 pwd a2 current new where
    "cipher = Some c" "loc = Some l" "rem = Some r" "login = Some s" "\<not> ch_running ch"
    "auth_at dbs (''to'', r, s) = Some a" "a_active a"
    "auth_get_new_pwd_b64 (dr_pwd d) a = Inr (a1, E_no_error, Some pwd)"
    "coder_secret_get e pos c a1 l Act_encrypt = Inr (a2, Inr current)"
    "computeNewSecretAuthTo e c l a2 = Inr (Some new)"
    "dbs' = put_auth (put_auth dbs a1) a2"
    "challenge_messages J e T d c l a2 pwd current new dbs'
       ((freeChallengeContextMembers ch)\<lparr> ch_auth := Some (''to'', r, s) \<rparr>) = Inr (dbs', ch', Inr payload)"
proof -
  obtain c l r s where v: "cipher = Some c" "loc = Some l" "rem = Some r" "login = Some s"
    using assms(2) by (auto simp: Challenge_encode_def split: option.splits)
  have nr: "\<not> ch_running ch" using assms(2) v by (auto simp: Challenge_encode_def)
  obtain ret found where g: "coder_auth_get dbs (Some s) (Some r) Act_encrypt = Inr (ret, found)"
    using assms(2) v nr by (auto simp: Challenge_encode_def Let_def run_cases simp del: rbind_Inr_iff)
  have ok: "ret = E_no_error"
    using assms(2) v nr g by (auto simp: Challenge_encode_def Let_def split: if_splits)
  obtain a where a: "found = Some a" "auth_at dbs (''to'', r, s) = Some a" "a_active a"
  proof -
    have "auth_find_by_key dbs (Some (auth_to_key_set (Some s) (Some r))) = auth_at dbs (''to'', r, s)"
      by (simp add: auth_to_key_set_def auth_to_dbId_def auth_find_by_key_def auth_key_set_def auth_at_def)
    hence "case auth_at dbs (''to'', r, s) of None \<Rightarrow> False | Some a \<Rightarrow> a_active a \<and> found = Some a"
      using g ok active_of_code [of "auth_at dbs (''to'', r, s)" found]
      by (simp add: coder_auth_get_def Let_def)
    thus thesis using that by (auto split: option.splits)
  qed
  have id: "auth_id a = (''to'', r, s)" by (rule auth_at_ok [OF assms(1) a(2)])
  let ?ch = "(freeChallengeContextMembers ch)\<lparr> ch_auth := Some (''to'', r, s) \<rparr>"
  obtain a1 pwd where p: "auth_get_new_pwd_b64 (dr_pwd d) a = Inr (a1, E_no_error, Some pwd)"
    using assms(2) v nr g ok a(1)
    by (auto simp: Challenge_encode_def Let_def run_cases simp del: rbind_Inr_iff split: if_splits)
  obtain a2 current where s: "coder_secret_get e pos c a1 l Act_encrypt = Inr (a2, Inr current)"
    using assms(2) v nr g ok a(1) p
    by (auto simp: Challenge_encode_def Let_def run_cases simp del: rbind_Inr_iff)
  obtain new where n: "computeNewSecretAuthTo e c l a2 = Inr (Some new)"
    using assms(2) v nr g ok a(1) p s
    by (auto simp: Challenge_encode_def Let_def run_cases simp del: rbind_Inr_iff)
  have m: "challenge_messages J e T d c l a2 pwd current new (put_auth (put_auth dbs a1) a2) ?ch =
      Inr (dbs', ch', Inr payload)"
    using assms(2) v nr g ok a(1) p s n id by (simp add: Challenge_encode_def Let_def)
  have "dbs' = put_auth (put_auth dbs a1) a2" using challenge_messages_success [OF m] by simp
  thus thesis using that v nr a(2,3) p s n m by blast
qed

lemma new_pwd_pending:
  "auth_get_new_pwd_b64 rnds a = Inr (a1, E_no_error, Some t) \<Longrightarrow>
   a_new_pwd_pending a1 \<and> a_pwd a1 = a_pwd a \<and> auth_id a1 = auth_id a \<and> a_active a1 = a_active a \<and>
   a_secrets a1 = a_secrets a"
  by (auto simp: auth_get_new_pwd_b64_def auth_gen_new_pwd_def auth_id_def split: if_splits option.splits)

lemma same_but_secrets_refl [simp]: "same_but_secrets a a" "same_but_secrets a (a\<lparr> a_secrets := ss \<rparr>)"
  by (simp_all add: same_but_secrets_def)

lemma same_but_secrets_update:
  "auth_secret_add_or_update pos a ref s = (a1, r) \<Longrightarrow> same_but_secrets a a1"
  by (auto simp: auth_secret_add_or_update_def Let_def split: option.splits prod.splits)

lemma coder_secret_get_entry:
  assumes "coder_secret_get e pos c a sId act = Inr (a1, r)"
  shows "same_but_secrets a a1"
proof (cases "auth_secret_get (Some a) (Some (c_lib c))")
  case None
  then obtain k where "(case k of None \<Rightarrow> (a, Inl K_keygen)
      | Some key \<Rightarrow> (case auth_secret_add_or_update pos a (Some (c_lib c)) (Some (blob_of key)) of
                 (a1, None) \<Rightarrow> (a1, Inl A_no_secret) | (a1, Some s) \<Rightarrow> (a1, Inr s))) = (a1, r)"
    using assms by (auto simp: coder_secret_get_def)
  thus ?thesis
    by (auto dest: same_but_secrets_update split: option.splits prod.splits)
qed (use assms in \<open>simp add: coder_secret_get_def\<close>)

lemma new_pwd_length:
  assumes "auth_get_new_pwd_b64 rnds a = Inr (a1, E_no_error, Some t)" "\<not> a_new_pwd_pending a"
  shows "length t = 4 * ((blen (a_pwd a) + 2) div 3)"
  using assms
  by (auto simp: auth_get_new_pwd_b64_def auth_gen_new_pwd_def length_base64 split: if_splits option.splits)

text \<open>Cryptography that never fails.\<close>
definition evp_total :: "evp \<Rightarrow> bool" where
  "evp_total e \<longleftrightarrow> evp_ctx_new e \<and> (\<forall>m key iv pt. evp_encrypt e m key iv pt \<noteq> None) \<and>
    (\<forall>input salt it n. evp_pbkdf2 e input salt it n \<noteq> None) \<and>
    (\<forall>input salt it n key. evp_pbkdf2 e input salt it n = Some key \<longrightarrow> length key = n)"

lemma evp_total_plain: "evp_total evp_plain"
  by (auto simp: evp_total_def evp_plain_def)

lemma serialize_marked:
  assumes "json_sound J" "messageCheckFields (Some m) = Inr True" "body_members J (m_body m) = Inr ms"
  shows "\<exists>p. serializeMessage J (Some m) = Inr (Inr p) \<and> strstr (quoted ''eRMsg'') p"
proof -
  let ?obj = "j_object J ([(''mType'', j_new_string J ''eRMsg''), (''mId'', j_new_string J (m_mId m))] @ ms)"
  have keys: "''mType'' \<notin> fst ` set ms" using body_members_keys [OF assms(3)] by simp
  have "find (\<lambda>x. fst x = ''mType'') (rev ms) = None"
    using keys by (force simp: find_None_iff)
  hence "find (\<lambda>x. fst x = ''mType'') (rev ms @ r) = find (\<lambda>x. fst x = ''mType'') r" for r
    by (simp add: find_append)
  hence "j_get J ?obj ''mType'' = Some (j_new_string J ''eRMsg'')"
    by (simp add: j_get_object [OF assms(1)])
  hence "strstr (quoted ''eRMsg'') (j_print J ?obj)"
    by (rule json_soundD [OF assms(1)]) code_simp
  thus ?thesis using assms(2,3) by (simp add: serializeMessage_def)
qed

lemma encrypt_total:
  assumes "evp_sound e" "evp_total e" "secret_octets s = Inr key" "text \<noteq> []"
  shows "\<exists>enc. coder_cipher_encrypt e c s text = Inr (E_no_error, Some enc) \<and> enc \<noteq> []"
proof -
  let ?iv = "evp_random e (get_ivi_size (c_mode c))"
  obtain ct tag where e: "evp_encrypt e (c_mode c) key ?iv (map byte_of text) = Some (ct, tag)"
    using assms(2) unfolding evp_total_def by (metis option.exhaust prod.exhaust)
  have "length ?iv \<noteq> 0" using assms(1) by (simp add: evp_sound_def get_ivi_size_def)
  hence "3 \<le> length (?iv @ x) + 2" for x unfolding length_append by linarith
  hence "length (base64_encode (?iv @ x)) \<noteq> 0" for x
    unfolding length_base64 by (metis div_greater_zero_iff mult_eq_0_iff not_gr_zero zero_neq_numeral)
  hence "base64_encode (?iv @ x) \<noteq> []" for x by force
  thus ?thesis using e assms
    by (simp add: coder_cipher_encrypt_def cipher_aes_context_new_def evp_total_def c_encrypt_def encrypt_aes_def
        Let_def)
qed

lemma Challenge_encode_data_total:
  assumes "json_sound J" "evp_sound e" "evp_total e" "secret_octets s = Inr key"
    and "messageCheckFields (Some m) = Inr True" "body_members J (m_body m) = Inr ms"
  shows "\<exists>enc. Challenge_encode_data J e T ts m c s = Inr (Inr enc) \<and> enc \<noteq> []"
proof -
  obtain p where p: "serializeMessage J (Some m) = Inr (Inr p)" "strstr (quoted ''eRMsg'') p"
    using serialize_marked [OF assms(1,5,6)] by blast
  obtain q where q: "ptxt_set ts ptxt_null (Some ts) (Some p) = (E_no_error, q)" "p_original q = Some p"
      "p_class q \<noteq> Cl_unknown"
    using p(2) by (cases "strstr (quoted ''rSMsg'') p") (auto simp: ptxt_set_def Let_def)
  obtain d where "ptxt_serialize J T q = Inr (Inr d)" "d \<noteq> []"
    using q(2,3) by (cases "p_class q") (auto simp: ptxt_serialize_def json_soundD(3) [OF assms(1)])
  moreover obtain enc where "coder_cipher_encrypt e c s d = Inr (E_no_error, Some enc)" "enc \<noteq> []"
    using encrypt_total [OF assms(2-4) \<open>d \<noteq> []\<close>] by blast
  ultimately show ?thesis using p(1) q(1) by (simp add: Challenge_encode_data_def)
qed

lemma key_gen_total:
  assumes "evp_total e" "c_key_len c = 16 \<or> c_key_len c = 32"
  shows "\<exists>key. c_key_gen e c data it = Inr (Some key) \<and> key \<noteq> []"
proof -
  obtain salt where s: "bcd_decode (Some key_salt_text) = Inr (Some salt)" "salt \<noteq> []"
    using key_salt_octets by blast
  obtain key where "evp_pbkdf2 e data salt it (c_key_len c) = Some key" "length key = c_key_len c"
    using assms(1) unfolding evp_total_def by (metis option.exhaust)
  moreover have "key \<noteq> []" using calculation(2) assms(2) by auto
  ultimately show ?thesis using assms(2) s
    by (auto simp: c_key_gen_def cipher_aes_key_gen_def cipher_key_gen_def)
qed

text \<open>An entry whose password is in its buffer and whose kept secrets are not empty.\<close>
definition secrets_filled :: "auth \<Rightarrow> bool" where
  "secrets_filled a \<longleftrightarrow> list_all (\<lambda>s. bbuf (snd s) \<noteq> None) (a_secrets a)"

lemma coder_secret_get_total:
  assumes "evp_total e" "c_key_len c = 16 \<or> c_key_len c = 32" "secrets_filled a"
    and "pwd_octets (a_pwd a) = Inr bs"
  shows "\<exists>a1 s key. coder_secret_get e pos c a sId act = Inr (a1, Inr s) \<and> secret_octets s = Inr key"
proof (cases "auth_secret_find (c_lib c) (a_secrets a)")
  case (Some x)
  hence "x \<in> set (a_secrets a)" by (auto simp: auth_secret_find_def find_Some_iff in_set_conv_nth)
  hence "bbuf (snd x) \<noteq> None" using assms(3) by (auto simp: secrets_filled_def list_all_iff)
  thus ?thesis using Some by (auto simp: coder_secret_get_def auth_secret_get_def secret_octets_def)
next
  case None
  obtain data where d: "currentPassphrase sId a act = Inr data"
    using assms(4) by (simp add: currentPassphrase_def passphraseForPwd_def)
  obtain key where k: "c_key_gen e c data coder_iterations = Inr (Some key)" "key \<noteq> []"
    using key_gen_total [OF assms(1,2)] by blast
  thus ?thesis using None d
    by (simp add: coder_secret_get_def auth_secret_get_def auth_secret_add_or_update_def auth_secret_new_def
        Let_def secret_octets_def blob_of_def auth_secret_cpy_def)
qed

definition draws_sample :: draws where
  "draws_sample = \<lparr> dr_now = (2, 0), dr_pwd = (\<lambda>i. i), dr_pad = (\<lambda>i. i),
    dr_uuid = (\<lambda>i. replicate 36 (if i = 0 then CHR ''a'' else if i = 1 then CHR ''b'' else CHR ''c'')) \<rparr>"

text \<open>A base with one TO entry whose password has 85 octets.\<close>
definition base_long :: dbs where
  "base_long = [\<lparr> d_dbId = ''to'', d_sIds = [\<lparr> s_sId = ''B'', s_logins =
     [auth_body (0, 0) ''to'' ''l'' ''B'' (Some (replicate 85 1)) 85 None True None 0 False] \<rparr>] \<rparr>]"

lemma pad_len_char_small: "n < 116 \<Longrightarrow> pad_len_char n = int n + 12"
proof -
  assume n: "n < 116"
  have "pad_len_char n = signed_take_bit 7 (int (n + 12))"
    by (simp add: pad_len_char_def signed_of_nat del: of_nat_add)
  also have "\<dots> = (int n + 140) mod 256 - 128"
    by (simp add: signed_take_bit_eq_take_bit_shift take_bit_eq_mod add.commute)
  also have "\<dots> = int n + 12" using n by simp
  finally show ?thesis .
qed

lemma pwd_len_max: "original \<noteq> [] \<Longrightarrow> length original < 256 \<Longrightarrow> length i = 36 \<Longrightarrow>
  messageCheckFields (Some \<lparr> m_mId = i, m_body = ChangePwdRequest (Some (base64_encode original)) \<rparr>) = Inr True"
proof -
  assume "original \<noteq> []" "length original < 256" "length i = 36"
  moreover have "b64_ref original \<noteq> []"
    using \<open>original \<noteq> []\<close> by (cases original rule: b64_ref.cases) (auto simp: b64_quartet_def)
  ultimately show ?thesis
    by (simp add: messageCheckFields_def present_def base64_encode_ref UUID_STR_LEN_def
        pwd_original_length_ref AUTH_PWD_LEN_MAX_def)
qed

lemma request_members:
  "body_members J (m_body (m\<lparr> m_body := ChangePwdRequest (Some p) \<rparr>)) =
    Inr [(''type'', j_new_string J ''ChangePwdRequest''), (''pwd'', j_new_string J p)]"
  by (simp add: body_members_def)

lemma ping_members:
  "body_members J (m_body (m\<lparr> m_body := Ping (Some p) \<rparr>)) =
    Inr [(''type'', j_new_string J ''Ping''), (''pad'', j_new_string J p)]"
  by (simp add: body_members_def)

lemma encrypted_members:
  "body_members J (m_body (m\<lparr> m_body := Encrypted (Some s) (Some l) (Some [Some x, Some y]) \<rparr>)) =
    Inr [(''type'', j_new_string J ''Encrypted''), (''sId'', j_new_string J s),
         (''data'', j_array J [j_new_string J x, j_new_string J y]), (''login'', j_new_string J l)]"
  by (simp add: body_members_def)

lemma challenge_messages_total:
  assumes "json_sound J" "evp_sound e" "evp_total e" "secret_octets cur = Inr k1" "secret_octets new = Inr k2"
    and "original \<noteq> []" "length original < 85"
    and "length (dr_uuid d 0) = 36" "length (dr_uuid d 1) = 36" "length (dr_uuid d 2) = 36" "l \<noteq> []"
  shows "\<exists>ch' payload. challenge_messages J e T d c l a (base64_encode original) cur new dbs ch =
    Inr (dbs, ch', Inr payload)"
proof -
  let ?pwd = "base64_encode original"
  let ?request = "(initMessage (dr_uuid d 0) (ChangePwdRequest None))\<lparr> m_body := ChangePwdRequest (Some ?pwd) \<rparr>"
  have "messageCheckFields (Some ?request) = Inr True"
    using pwd_len_max [of original "dr_uuid d 0"] assms(6-8) by (simp add: initMessage_def)
  then obtain enc1 where e1: "Challenge_encode_data J e T (dr_now d) ?request c cur = Inr (Inr enc1)" "enc1 \<noteq> []"
    using Challenge_encode_data_total [OF assms(1-4) _ request_members] by blast
  have len: "length ?pwd < 116"
  proof -
    have "length original + 2 \<le> 86" using assms(7) by simp
    hence "(length original + 2) div 3 \<le> 28" using div_le_mono [of "length original + 2" 86 3] by simp
    thus ?thesis by (simp add: length_base64)
  qed
  let ?p = "map (\<lambda>i. char_of (dr_pad d i mod 94 + 33)) [0..<nat (int (length ?pwd) + 12)]"
  have pad: "challenge_pad (dr_pad d) (pad_len_char (length ?pwd)) = Inr (Some ?p)"
    by (simp add: pad_len_char_small [OF len] challenge_pad_def)
  have "length ?p \<noteq> 0" by simp
  hence "?p \<noteq> []" by fastforce
  let ?ping = "(initMessage (dr_uuid d 1) (Ping None))\<lparr> m_body := Ping (Some ?p) \<rparr>"
  have "messageCheckFields (Some ?ping) = Inr True"
    using assms(9) \<open>?p \<noteq> []\<close> by (simp add: initMessage_def messageCheckFields_def UUID_STR_LEN_def present_def del: map_eq_conv)
  then obtain enc2 where e2: "Challenge_encode_data J e T (dr_now d) ?ping c new = Inr (Inr enc2)" "enc2 \<noteq> []"
    using Challenge_encode_data_total [OF assms(1-3,5) _ ping_members] by blast
  let ?msg = "(initMessage (dr_uuid d 2) (Encrypted None None None))\<lparr> m_body :=
      Encrypted (Some l) (Some (a_login a)) (Some [Some enc1, Some enc2]) \<rparr>"
  have "messageCheckFields (Some ?msg) = Inr True"
    using assms(10,11) e1(2) e2(2) by (simp add: initMessage_def messageCheckFields_def UUID_STR_LEN_def present_def)
  then obtain payload where "serializeMessage J (Some ?msg) = Inr (Inr payload)"
    using serialize_marked [OF assms(1) _ encrypted_members] by blast
  thus ?thesis using e1(1) pad e2(1) by (simp add: challenge_messages_def Let_def)
qed

lemma challenge_total:
  assumes "json_sound J" "evp_sound e" "evp_total e" "c_key_len c = 16 \<or> c_key_len c = 32"
    and "auth_dbs_ok dbs" "auth_at dbs (''to'', r, s) = Some a" "a_active a" "secrets_filled a"
    and "\<not> a_new_pwd_pending a" "pwd_octets (a_pwd a) = Inr bs" "8 \<le> blen (a_pwd a)" "blen (a_pwd a) < 85"
    and "\<not> ch_running ch" "length (dr_uuid d 0) = 36" "length (dr_uuid d 1) = 36" "length (dr_uuid d 2) = 36" "l \<noteq> []"
  shows "\<exists>dbs' ch' payload.
    Challenge_encode J e T pos d dbs ch (Some c) (Some l) (Some s) (Some r) = Inr (dbs', ch', Inr payload)"
proof -
  let ?n = "blen (a_pwd a)"
  let ?new = "map (\<lambda>i. gen_char (dr_pwd d i)) [0..<?n]"
  let ?a1 = "a\<lparr> a_new_pwd := \<lparr> bbuf = Some ?new, blen = ?n \<rparr>, a_new_pwd_pending := True \<rparr>"
  have id: "auth_id a = (''to'', r, s)" by (rule auth_at_ok [OF assms(5,6)])
  have get: "auth_get_new_pwd_b64 (dr_pwd d) a = Inr (?a1, E_no_error, Some (base64_encode ?new))"
    using assms(7,9,11,12) id
    by (simp add: auth_get_new_pwd_b64_def auth_gen_new_pwd_def auth_to_is_def auth_db_is_def auth_to_dbId_def
        auth_id_def AUTH_PWD_LEN_MIN_def AUTH_PWD_LEN_MAX_def)
  have "secrets_filled ?a1" "pwd_octets (a_pwd ?a1) = Inr bs"
    using assms(8,10) by (simp_all add: secrets_filled_def)
  from coder_secret_get_total [OF assms(3,4) this] obtain a2 cur k1 where
    cur: "coder_secret_get e pos c ?a1 l Act_encrypt = Inr (a2, Inr cur)" "secret_octets cur = Inr k1" by blast
  obtain ss where a2: "a2 = ?a1\<lparr> a_secrets := ss \<rparr>"
    using coder_secret_get_entry [OF cur(1)] by (auto simp: same_but_secrets_def)
  have "newPassphrase l a2 Act_encrypt = Inr (map byte_of l @ map byte_of (a_login a) @ ?new @ map byte_of (a_sId a))"
    by (simp add: a2 newPassphrase_def passphraseForPwd_def pwd_octets_def)
  moreover obtain key where k: "c_key_gen e c (map byte_of l @ map byte_of (a_login a) @ ?new @ map byte_of (a_sId a))
      coder_iterations = Inr (Some key)" "key \<noteq> []"
    using key_gen_total [OF assms(3,4)] by blast
  ultimately have new: "computeNewSecretAuthTo e c l a2 = Inr (Some (blob_of key))"
    by (simp add: computeNewSecretAuthTo_def)
  have "secret_octets (blob_of key) = Inr key" by (simp add: secret_octets_def blob_of_def)
  moreover have "?new \<noteq> []" "length ?new < 85" using assms(11,12) by auto
  ultimately obtain ch' payload where
    m: "challenge_messages J e T d c l a2 (base64_encode ?new) cur (blob_of key) (put_auth (put_auth dbs ?a1) a2)
      ((freeChallengeContextMembers ch)\<lparr> ch_auth := Some (''to'', r, s) \<rparr>) =
      Inr (put_auth (put_auth dbs ?a1) a2, ch', Inr payload)"
    using challenge_messages_total [OF assms(1-3) cur(2) _ _ _ assms(14-16) assms(17)] by blast
  have "coder_auth_get dbs (Some s) (Some r) Act_encrypt = Inr (E_no_error, Some a)"
    using assms(6,7)
    by (simp add: coder_auth_get_def auth_to_key_set_def auth_to_dbId_def auth_find_by_key_def auth_key_set_def
        auth_at_def Let_def)
  thus ?thesis using assms(13) get cur(1) new m id by (simp add: Challenge_encode_def Let_def)
qed

lemma challenge_sample:
  "\<exists>dbs' ch' payload. Challenge_encode text_json evp_plain times_unary (\<lambda>n. n) draws_sample base_A
      challenge_ctxt_new (Some cipher_aes128_ctr) (Some ''A'') (Some ''l'') (Some ''B'') =
      Inr (dbs', ch', Inr payload)"
proof (rule challenge_total [OF text_json_sound evp_sound_plain evp_total_plain])
  show "auth_dbs_ok base_A" by code_simp
  show "auth_at base_A (''to'', ''B'', ''l'') = Some (entry_sample ''to'' ''B'')"
    by (simp add: base_A_def auth_at_def auth_login_find_def sIds_at_def auth_find_def entry_sample_def auth_body_def Let_def)
  show "pwd_octets (a_pwd (entry_sample ''to'' ''B'')) = Inr [1, 2, 3, 4, 5, 6, 7, 8]"
    by (simp add: entry_sample_def auth_body_def Let_def pwd_sample_def blob_of_def pwd_octets_def)
qed (simp_all add: entry_sample_def auth_body_def Let_def pwd_sample_def blob_of_def draws_sample_def
      challenge_ctxt_new_def secrets_filled_def cipher_aes128_ctr_def)

lemma challenge_sent:
  assumes "auth_dbs_ok dbs"
    and "Challenge_encode J e T pos d dbs ch cipher loc login rem = Inr (dbs', ch', Inr payload)"
  shows "\<not> ch_running ch \<and> ch_running ch' \<and>
    ch_mIdRequest ch' = Some (dr_uuid d 0) \<and> ch_mIdPing ch' = Some (dr_uuid d 1) \<and>
    auth_dbs_ok dbs' \<and>
    (\<exists>r s a a'. rem = Some r \<and> login = Some s \<and> ch_auth ch' = Some (''to'', r, s) \<and>
      auth_at dbs (''to'', r, s) = Some a \<and> a_active a \<and>
      auth_at dbs' (''to'', r, s) = Some a' \<and> a_active a' \<and> a_new_pwd_pending a' \<and> a_pwd a' = a_pwd a)"
proof (rule Challenge_encode_success [OF assms])
  fix c l r s a a1 pwd a2 current new
  assume v: "rem = Some r" "login = Some s" "\<not> ch_running ch"
    "auth_at dbs (''to'', r, s) = Some a" "a_active a"
    and p: "auth_get_new_pwd_b64 (dr_pwd d) a = Inr (a1, E_no_error, Some pwd)"
    and g: "coder_secret_get e pos c a1 l Act_encrypt = Inr (a2, Inr current)"
    and d: "dbs' = put_auth (put_auth dbs a1) a2"
    and m: "challenge_messages J e T d c l a2 pwd current new dbs'
       ((freeChallengeContextMembers ch)\<lparr> ch_auth := Some (''to'', r, s) \<rparr>) = Inr (dbs', ch', Inr payload)"
  have id: "auth_id a = (''to'', r, s)" by (rule auth_at_ok [OF assms(1) v(4)])
  note a1 = new_pwd_pending [OF p]
  have sb: "same_but_secrets a1 a2" by (rule coder_secret_get_entry [OF g])
  have id1: "auth_id a1 = (''to'', r, s)" using a1 id by simp
  have id2: "auth_id a2 = (''to'', r, s)" using same_but_secretsD(1) [OF sb] id1 by simp
  note p1 = put_auth_at [OF assms(1) v(4) id1]
  have "auth_at (put_auth dbs a1) (''to'', r, s) = Some a1" using p1(2) by simp
  note p2 = put_auth_at [OF p1(1) this id2]
  have "auth_at dbs' (''to'', r, s) = Some a2" unfolding d using p2(2) by simp
  moreover obtain ss where "a2 = a1\<lparr> a_secrets := ss \<rparr>" using sb by (auto simp: same_but_secrets_def)
  hence "a_new_pwd_pending a2" "a_active a2" "a_pwd a2 = a_pwd a" using a1 v(5) by simp_all
  moreover have "auth_dbs_ok dbs'" unfolding d by (rule p2(1))
  moreover have "ch_running ch'" "ch_mIdRequest ch' = Some (dr_uuid d 0)"
    "ch_mIdPing ch' = Some (dr_uuid d 1)" "ch_auth ch' = Some (''to'', r, s)"
    using challenge_messages_success [OF m] by simp_all
  ultimately show ?thesis using v by blast
qed

section \<open>Properties\<close>

text \<open>A challenge that is sent was made for an active TO entry while none was running; the entry
  then has a new password pending and still its current one, and the context is running, with the
  identifiers under which the two answers are awaited.\<close>
lemma challenge_sent_state:
  assumes "auth_dbs_ok dbs"
    and "Challenge_encode J e T pos d dbs ch cipher loc login rem = Inr (dbs', ch', Inr payload)"
  shows "\<not> ch_running ch \<and> ch_running ch' \<and>
    ch_mIdRequest ch' = Some (dr_uuid d 0) \<and> ch_mIdPing ch' = Some (dr_uuid d 1) \<and>
    auth_dbs_ok dbs' \<and>
    (\<exists>r s a a'. rem = Some r \<and> login = Some s \<and> ch_auth ch' = Some (''to'', r, s) \<and>
      auth_at dbs (''to'', r, s) = Some a \<and> a_active a \<and>
      auth_at dbs' (''to'', r, s) = Some a' \<and> a_active a' \<and> a_new_pwd_pending a' \<and> a_pwd a' = a_pwd a)"
  using assms by (rule challenge_sent)

lemma challenge_sent_state_witness:
  "\<exists>dbs' (ch' :: challenge). ch_running ch' \<and> ch_mIdPing ch' = Some (replicate 36 (CHR ''b'')) \<and>
    (case auth_at dbs' (''to'', ''B'', ''l'') of None \<Rightarrow> False | Some a \<Rightarrow> a_new_pwd_pending a)"
proof -
  have ok: "auth_dbs_ok base_A" by code_simp
  obtain dbs' ch' p where "Challenge_encode text_json evp_plain times_unary (\<lambda>n. n) draws_sample base_A
      challenge_ctxt_new (Some cipher_aes128_ctr) (Some ''A'') (Some ''l'') (Some ''B'') = Inr (dbs', ch', Inr p)"
    using challenge_sample by blast
  note s = challenge_sent_state [OF ok this]
  hence "ch_running ch'" "ch_mIdPing ch' = Some (replicate 36 (CHR ''b''))" by (simp_all add: draws_sample_def)
  moreover have "case auth_at dbs' (''to'', ''B'', ''l'') of None \<Rightarrow> False | Some a \<Rightarrow> a_new_pwd_pending a"
    using s by auto
  ultimately show ?thesis by blast
qed

text \<open>Passwords of 85 to 183 octets can never be renewed: the length of the padding of the
  \<open>Ping\<close> is kept in a \<open>char\<close>, which is negative or zero for them, and no challenge is ever made.\<close>
lemma challenge_long_password_fails:
  assumes "auth_dbs_ok dbs" "auth_at dbs (''to'', r, s) = Some a" "\<not> a_new_pwd_pending a"
    and "85 \<le> blen (a_pwd a)" "blen (a_pwd a) \<le> 183"
  shows "case Challenge_encode J e T pos d dbs ch cipher loc (Some s) (Some r) of
      Inr (dbs', ch', Inr payload) \<Rightarrow> False | _ \<Rightarrow> True"
proof -
  have "Challenge_encode J e T pos d dbs ch cipher loc (Some s) (Some r) \<noteq> Inr (dbs', ch', Inr payload)"
    for dbs' ch' payload
  proof
    assume "Challenge_encode J e T pos d dbs ch cipher loc (Some s) (Some r) = Inr (dbs', ch', Inr payload)"
    thus False
    proof (rule Challenge_encode_success [OF assms(1)])
      fix c l r' s' a' a1 pwd a2 current new
      assume e: "Some r = Some r'" "Some s = Some s'" "auth_at dbs (''to'', r', s') = Some a'"
        and p: "auth_get_new_pwd_b64 (dr_pwd d) a' = Inr (a1, E_no_error, Some pwd)"
        and m: "challenge_messages J e T d c l a2 pwd current new dbs'
          ((freeChallengeContextMembers ch)\<lparr> ch_auth := Some (''to'', r', s') \<rparr>) = Inr (dbs', ch', Inr payload)"
      have a': "a' = a" using e assms(2) by simp
      have "length pwd = 4 * ((blen (a_pwd a) + 2) div 3)"
        using new_pwd_length [OF p] assms(3) a' by simp
      hence "116 \<le> length pwd" "length pwd \<le> 244" using assms(4,5) by simp_all
      hence "pad_len_char (length pwd) \<le> 0" by (rule pad_len_char_wraps)
      thus False using challenge_messages_success [OF m] by simp
    qed
  qed
  thus ?thesis by (auto split: sum.splits)
qed

lemma challenge_long_password_fails_witness:
  "case Challenge_encode text_json evp_plain times_unary (\<lambda>n. n) draws_sample base_long challenge_ctxt_new
      (Some cipher_aes128_ctr) (Some ''A'') (Some ''l'') (Some ''B'') of
      Inr (dbs', ch', Inr payload) \<Rightarrow> False | _ \<Rightarrow> True"
proof (rule challenge_long_password_fails)
  show "auth_dbs_ok base_long" by code_simp
  show "auth_at base_long (''to'', ''B'', ''l'') =
     Some (auth_body (0, 0) ''to'' ''l'' ''B'' (Some (replicate 85 1)) 85 None True None 0 False)"
    by (simp add: base_long_def auth_at_def auth_login_find_def sIds_at_def auth_find_def auth_body_def Let_def)
qed (simp_all add: auth_body_def Let_def)

text \<open>C24. The challenge of any other password is made: for an active TO entry of 8 to 84 octets with
  nothing pending, while none is running and as long as the cryptography does not fail, a message
  is produced.\<close>
theorem challenge_always_made:
  assumes "json_sound J" "evp_sound e" "evp_total e" "c_key_len c = 16 \<or> c_key_len c = 32"
    and "auth_dbs_ok dbs" "auth_at dbs (''to'', r, s) = Some a" "a_active a" "secrets_filled a"
    and "\<not> a_new_pwd_pending a" "pwd_octets (a_pwd a) = Inr bs" "8 \<le> blen (a_pwd a)" "blen (a_pwd a) < 85"
    and "\<not> ch_running ch" "length (dr_uuid d 0) = 36" "length (dr_uuid d 1) = 36" "length (dr_uuid d 2) = 36" "l \<noteq> []"
  shows "\<exists>dbs' ch' payload.
    Challenge_encode J e T pos d dbs ch (Some c) (Some l) (Some s) (Some r) = Inr (dbs', ch', Inr payload)"
  using assms by (rule challenge_total)

theorem challenge_always_made_witness:
  "\<exists>dbs' ch' payload. Challenge_encode text_json evp_plain times_unary (\<lambda>n. n) draws_sample base_A
      challenge_ctxt_new (Some cipher_aes128_ctr) (Some ''A'') (Some ''l'') (Some ''B'') =
      Inr (dbs', ch', Inr payload)"
proof (rule challenge_always_made [OF text_json_sound evp_sound_plain evp_total_plain])
  show "auth_dbs_ok base_A" by code_simp
  show "auth_at base_A (''to'', ''B'', ''l'') = Some (entry_sample ''to'' ''B'')"
    by (simp add: base_A_def auth_at_def auth_login_find_def sIds_at_def auth_find_def entry_sample_def auth_body_def Let_def)
  show "pwd_octets (a_pwd (entry_sample ''to'' ''B'')) = Inr [1, 2, 3, 4, 5, 6, 7, 8]"
    by (simp add: entry_sample_def auth_body_def Let_def pwd_sample_def blob_of_def pwd_octets_def)
qed (simp_all add: entry_sample_def auth_body_def Let_def pwd_sample_def blob_of_def draws_sample_def
      challenge_ctxt_new_def secrets_filled_def cipher_aes128_ctr_def)

end
