(* ===== verification/Session.thy ===== *)
theory Session
  imports Challenge Events
begin

text \<open>
  Model of \<open>cyber/cyber.c\<close>, first part: the state of a secured session, its creation and accessors,
  the agreement on the cipher by both roles, start and stop, and the sending of messages.  A queue
  is the list of its messages (\<open>MsgQueue\<close> models it down to the list nodes); what is written on the
  transport is the list of its payloads, and the events triggered are kept in order.  The threads
  take turns on the state: an operation is one step.  Delays are left out.
\<close>

section \<open>The state\<close>

record out_msg =
  o_buf :: string
  o_encrypt :: bool
  o_login :: cstr

text \<open>A plain text waiting in the internal or external queue, with the entry it came under.\<close>
type_synonym in_msg = "string \<times> (string \<times> string \<times> string) option"

record session =
  s_local :: cstr
  s_remote :: cstr
  s_leader :: bool
  s_cipher :: "cipher option"
  s_ciphers :: cipher_table
  s_dbs :: dbs
  s_challenge :: "challenge option"
  s_ac_rxed :: bool
  s_ac_sent :: bool
  s_to_sec :: int
  s_inhib :: nat
  s_stop :: bool
  s_tasks :: bool
  s_send_q :: "out_msg list"
  s_internal_q :: "in_msg list"
  s_external_q :: "in_msg list"
  s_wire :: "string list"
  s_transport_up :: bool
  s_events :: "event_type list"

text \<open>The external functions a session uses: JSON, cryptography, dates, positions of insertion, and
  the window of time of the coder.\<close>
record 'j env =
  e_json :: "'j json_api"
  e_evp :: evp
  e_times :: times
  e_pos :: "nat \<Rightarrow> nat"
  e_window :: int

text \<open>\<open>config_new\<close>: seconds to wait for the answer to a challenge.\<close>
definition timeout_challenge_rx_sec :: nat where "timeout_challenge_rx_sec = 60"

definition cyber_priv_new :: "cipher_table \<Rightarrow> dbs \<Rightarrow> session" where
  "cyber_priv_new tab dbs =
    \<lparr> s_local = None, s_remote = None, s_leader = False, s_cipher = None, s_ciphers = tab, s_dbs = dbs,
      s_challenge = Some challenge_ctxt_new, s_ac_rxed = False, s_ac_sent = False, s_to_sec = - 1,
      s_inhib = 10, s_stop = False, s_tasks = False, s_send_q = [], s_internal_q = [],
      s_external_q = [], s_wire = [], s_transport_up = False, s_events = [] \<rparr>"

definition cyber_new_from_transport :: "cipher_table \<Rightarrow> dbs \<Rightarrow> session" where
  "cyber_new_from_transport tab dbs = (cyber_priv_new tab dbs)\<lparr> s_cipher := None, s_leader := False \<rparr>"

section \<open>Accessors\<close>

definition cyber_setSiteId_local :: "session \<Rightarrow> string \<Rightarrow> session \<times> errcode" where
  "cyber_setSiteId_local s sId =
    (if s_local s \<noteq> None then (s, A_failing_input) else (s\<lparr> s_local := Some sId \<rparr>, E_no_error))"

definition cyber_getSiteId_local :: "session \<Rightarrow> cstr" where
  "cyber_getSiteId_local s = s_local s"

definition cyber_setSiteId_remote :: "session \<Rightarrow> string \<Rightarrow> session \<times> errcode" where
  "cyber_setSiteId_remote s sId =
    (if s_remote s \<noteq> None then (s, A_failing_input) else (s\<lparr> s_remote := Some sId \<rparr>, E_no_error))"

definition cyber_getSiteId_remote :: "session \<Rightarrow> cstr" where
  "cyber_getSiteId_remote s = s_remote s"

definition cyber_enableRoleLeader :: "session \<Rightarrow> session" where
  "cyber_enableRoleLeader s = s\<lparr> s_leader := True \<rparr>"

definition cyber_isLeader :: "session \<Rightarrow> bool" where
  "cyber_isLeader s = s_leader s"

definition cyber_isRunning :: "session \<Rightarrow> bool" where
  "cyber_isRunning s \<longleftrightarrow> \<not> s_stop s"

definition cyber_isAvailable :: "session \<Rightarrow> bool" where
  "cyber_isAvailable s \<longleftrightarrow>
    \<not> s_stop s \<and> s_ac_rxed s \<and> s_ac_sent s \<and>
    (case s_challenge s of None \<Rightarrow> True | Some ch \<Rightarrow> \<not> ch_running ch)"

section \<open>Agreement on the cipher\<close>

definition cipher_foreach_cb :: "string list \<Rightarrow> cipher \<Rightarrow> string list" where
  "cipher_foreach_cb ciphers c = (if c_enabled c then ciphers @ [c_lib c] else ciphers)"

definition enabled_ciphers :: "cipher_table \<Rightarrow> string list" where
  "enabled_ciphers tab = fst (cipher_foreach tab cipher_foreach_cb [])"

text \<open>The site received is checked against the one known, or becomes it.\<close>
definition check_remote :: "session \<Rightarrow> string \<Rightarrow> session option" where
  "check_remote s sId =
    (case s_remote s of
       Some r \<Rightarrow> if sId = r then Some s else None
     | None \<Rightarrow> Some (s\<lparr> s_remote := Some sId \<rparr>))"

text \<open>What the transport does during an exchange is an argument: the code of the sending, and the
  payload received or the code of the failed reception.\<close>
definition cyber_exchange_follower ::
  "'j json_api \<Rightarrow> string \<Rightarrow> errcode \<Rightarrow> errcode + string \<Rightarrow> session \<Rightarrow> (session \<times> errcode) run" where
  "cyber_exchange_follower J uuid sent received s =
    rbind (CipherAgreement_serial J uuid (s_local s) (enabled_ciphers (s_ciphers s))) (\<lambda>ser.
      case ser of
        Inl err \<Rightarrow> Inr (s, err)
      | Inr (payload, mId) \<Rightarrow>
          if sent \<noteq> E_no_error then Inr (s, sent)
          else let s1 = s\<lparr> s_wire := s_wire s @ [payload] \<rparr>
               in case received of
                    Inl err \<Rightarrow> Inr (s1, err)
                  | Inr text \<Rightarrow>
                      rbind (CipherAgreement_deserial J (Some text) None) (\<lambda>des.
                        case des of
                          Inl err \<Rightarrow> Inr (s1, err)
                        | Inr (names, mId1, sId) \<Rightarrow>
                            (case check_remote s1 sId of
                               None \<Rightarrow> Inr (s1, J_parse)
                             | Some s2 \<Rightarrow>
                                 (case names of
                                    [name] \<Rightarrow>
                                      let c = cipher_get_by_str (s_ciphers s2) (Some name);
                                          s3 = s2\<lparr> s_cipher := c \<rparr>
                                      in Inr (s3, case c of
                                           None \<Rightarrow> J_decode
                                         | Some x \<Rightarrow> if c_enabled x then E_no_error else J_decode)
                                  | _ \<Rightarrow> Inr (s2, C_generic)))))"

text \<open>The list received is walked from its end to the first name of an enabled cipher.\<close>
definition pick_cipher :: "cipher_table \<Rightarrow> string list \<Rightarrow> cipher option" where
  "pick_cipher tab names =
    (case find (\<lambda>n. case cipher_get_by_str tab (Some n) of None \<Rightarrow> False | Some c \<Rightarrow> c_enabled c) (rev names) of
       None \<Rightarrow> None
     | Some n \<Rightarrow> cipher_get_by_str tab (Some n))"

definition cyber_exchange_leader ::
  "'j json_api \<Rightarrow> string \<Rightarrow> errcode \<Rightarrow> errcode + string \<Rightarrow> session \<Rightarrow> (session \<times> errcode) run" where
  "cyber_exchange_leader J uuid sent received s =
    (case received of
       Inl err \<Rightarrow> Inr (s, err)
     | Inr text \<Rightarrow>
         rbind (CipherAgreement_deserial J (Some text) None) (\<lambda>des.
           case des of
             Inl err \<Rightarrow> Inr (s, err)
           | Inr (names, mId, sId) \<Rightarrow>
               (case check_remote s sId of
                  None \<Rightarrow> Inr (s, J_parse)
                | Some s1 \<Rightarrow>
                    (case pick_cipher (s_ciphers s1) names of
                       None \<Rightarrow> Inr (s1, C_generic)
                     | Some c \<Rightarrow>
                         rbind (CipherAgreement_serial J uuid (s_local s1) [c_lib c]) (\<lambda>ser.
                           case ser of
                             Inl err \<Rightarrow> Inr (s1, err)
                           | Inr (payload, mId1) \<Rightarrow>
                               if sent \<noteq> E_no_error then Inr (s1, sent)
                               else Inr (s1\<lparr> s_wire := s_wire s1 @ [payload], s_cipher := Some c \<rparr>,
                                         E_no_error))))))"

section \<open>Timer, start and stop\<close>

definition stopTimerResponse :: "challenge option \<Rightarrow> challenge option" where
  "stopTimerResponse ch = map_option (\<lambda>c. c\<lparr> ch_timer := False \<rparr>) ch"

text \<open>\<open>timer_ok\<close>: the timer could be created.\<close>
definition launchTimerResponse :: "bool \<Rightarrow> session \<Rightarrow> session \<times> errcode" where
  "launchTimerResponse timer_ok s =
    (case s_challenge s of
       None \<Rightarrow> (s, C_generic)
     | Some ch \<Rightarrow> (s\<lparr> s_challenge := Some (ch\<lparr> ch_timer := timer_ok \<rparr>) \<rparr>,
                   if timer_ok then E_no_error else C_generic))"

definition trigger :: "event_type \<Rightarrow> session \<Rightarrow> session" where
  "trigger ev s = s\<lparr> s_events := s_events s @ [ev] \<rparr>"

definition cyber_stop :: "session \<Rightarrow> session" where
  "cyber_stop s =
    (if s_stop s then s
     else trigger EVENT_CYBER_LOST
       (s\<lparr> s_stop := True, s_transport_up := False, s_challenge := stopTimerResponse (s_challenge s) \<rparr>))"

definition handler_timeout_challenge :: "session \<Rightarrow> session" where
  "handler_timeout_challenge s =
    (case s_challenge s of
       None \<Rightarrow> s
     | Some ch \<Rightarrow> if ch_running ch then cyber_stop s else s)"

text \<open>\<open>started\<close> is the code of the start of the transport; a listener goes no further.\<close>
definition cyber_start ::
  "'j json_api \<Rightarrow> string \<Rightarrow> errcode \<Rightarrow> bool \<Rightarrow> errcode \<Rightarrow> errcode + string \<Rightarrow> session \<Rightarrow>
   (session \<times> errcode) run" where
  "cyber_start J uuid started listener sent received s =
    (if s_local s = None then Inr (s, A_failing_input)
     else if started \<noteq> E_no_error then Inr (s, started)
     else let s1 = s\<lparr> s_transport_up := True \<rparr>
          in if listener then Inr (s1, E_no_error)
             else rbind (if s_leader s1 then cyber_exchange_leader J uuid sent received s1
                         else cyber_exchange_follower J uuid sent received s1) (\<lambda>(s2, ret). Inr
                    (if ret \<noteq> E_no_error then (s2\<lparr> s_transport_up := False \<rparr>, ret)
                     else (s2\<lparr> s_tasks := True \<rparr>, ret))))"

section \<open>Sending\<close>

definition send_optional_encryption :: "session \<Rightarrow> string \<Rightarrow> bool \<Rightarrow> cstr \<Rightarrow> session run" where
  "send_optional_encryption s payload encrypt login =
    (if payload = [] then Inl Assert_failed
     else Inr (s\<lparr> s_send_q := s_send_q s @ [\<lparr> o_buf = payload, o_encrypt = encrypt, o_login = login \<rparr>] \<rparr>))"

text \<open>A message of the securing layer, encrypted when it leaves the queue.\<close>
definition sendMessage :: "'j json_api \<Rightarrow> session \<Rightarrow> message \<Rightarrow> cstr \<Rightarrow> (session \<times> errcode) run" where
  "sendMessage J s m login =
    rbind (messageCheckFields (Some m)) (\<lambda>ok.
      if \<not> ok then Inr (s, C_generic)
      else rbind (serializeMessage J (Some m)) (\<lambda>ser.
        case ser of
          Inl err \<Rightarrow> Inr (s, C_generic)
        | Inr payload \<Rightarrow>
            rbind (send_optional_encryption s payload True login) (\<lambda>s1. Inr (s1, E_no_error))))"

definition isAuthToAvailableForLogin :: "dbs \<Rightarrow> cstr \<Rightarrow> cstr \<Rightarrow> bool" where
  "isAuthToAvailableForLogin dbs login sId_remote \<longleftrightarrow>
    login \<noteq> None \<and> auth_find_by_key dbs (Some (auth_to_key_set login sId_remote)) \<noteq> None"

text \<open>A challenge that keeps an entry busy: it is for this entry and is running or to be sent.\<close>
definition auth_busy :: "challenge option \<Rightarrow> auth \<Rightarrow> bool" where
  "auth_busy ch a \<longleftrightarrow>
    (case ch of None \<Rightarrow> False
     | Some c \<Rightarrow> ch_auth c = Some (auth_id a) \<and> (ch_running c \<or> ch_toSend c))"

text \<open>The login chosen for a message of the application; \<open>None\<close> when it is refused.\<close>
definition send_login :: "session \<Rightarrow> cstr \<Rightarrow> cstr" where
  "send_login s login =
    (let first = auth_get_first (s_dbs s) (auth_to_key_set login (s_remote s))
     in case login of
          None \<Rightarrow>
            (case first of
               None \<Rightarrow> None
             | Some a \<Rightarrow>
                 if \<not> auth_busy (s_challenge s) a then Some (a_login a)
                 else (case auth_get_next_from_auth (s_dbs s) a of
                         None \<Rightarrow> None
                       | Some b \<Rightarrow> if a_new_pwd_pending b then None else Some (a_login b)))
        | Some l \<Rightarrow>
            (case first of
               None \<Rightarrow> None
             | Some a \<Rightarrow> if a_new_pwd_pending a then None else Some l))"

definition cyber_send :: "session \<Rightarrow> string \<Rightarrow> cstr \<Rightarrow> (session \<times> errcode) run" where
  "cyber_send s payload login =
    (if \<not> s_ac_rxed s \<or> \<not> s_ac_sent s \<or>
        login \<noteq> None \<and> \<not> isAuthToAvailableForLogin (s_dbs s) login (s_remote s)
     then Inr (s, C_generic)
     else case send_login s login of
            None \<Rightarrow> Inr (s, C_generic)
          | Some l \<Rightarrow>
              rbind (send_optional_encryption s payload True (Some l)) (\<lambda>s1. Inr (s1, E_no_error)))"

text \<open>Encryption of one text on its way to the transport; the code of the transport is dropped.\<close>
definition Encrypted_write ::
  "'j env \<Rightarrow> horodate \<Rightarrow> string \<Rightarrow> session \<Rightarrow> cstr \<Rightarrow> string \<Rightarrow> (session \<times> errcode) run" where
  "Encrypted_write E now uuid s login buf =
    (if s_local s = None then Inl Assert_failed
     else if s_cipher s = None then Inr (s, C_generic)
     else if s_remote s = None then Inr (s, A_failing_input)
     else let (r, p) = ptxt_set now ptxt_null None (Some buf)
          in if r \<noteq> E_no_error then Inr (s, E_encode)
             else rbind (Encrypted_encode (e_json E) (e_evp E) (e_times E) (e_pos E) uuid (s_dbs s)
                           (s_cipher s) (s_local s) login (s_remote s) [p]) (\<lambda>(dbs1, res).
               let s1 = s\<lparr> s_dbs := dbs1 \<rparr>
               in case res of
                    Inl err \<Rightarrow> Inr (s1, E_encode)
                  | Inr request \<Rightarrow> Inr (s1\<lparr> s_wire := s_wire s1 @ [request] \<rparr>, E_no_error)))"

text \<open>One turn of the sending task.\<close>
definition send_task :: "'j env \<Rightarrow> horodate \<Rightarrow> string \<Rightarrow> session \<Rightarrow> session run" where
  "send_task E now uuid s =
    (case s_send_q s of
       [] \<Rightarrow> Inr s
     | m # rest \<Rightarrow>
         let s1 = s\<lparr> s_send_q := rest \<rparr>
         in if o_encrypt m
            then rbind (Encrypted_write E now uuid s1 (o_login m) (o_buf m)) (\<lambda>(s2, ret). Inr s2)
            else Inr (s1\<lparr> s_wire := s_wire s1 @ [o_buf m] \<rparr>))"

section \<open>External messages\<close>

text \<open>\<open>waitForMessage_external\<close>: the first message of the queue, \<open>None\<close> at the end of the wait.\<close>
definition waitForMessage_external :: "session \<Rightarrow> session \<times> cstr" where
  "waitForMessage_external s =
    (case s_external_q s of
       [] \<Rightarrow> (s, None)
     | m # rest \<Rightarrow> (s\<lparr> s_external_q := rest \<rparr>, Some (fst m)))"

end
