(* ===== verification/SessionSteps.thy ===== *)
theory SessionSteps
  imports Session
begin

text \<open>
  Model of \<open>cyber/cyber.c\<close>, second part: the search of a login to renew, the initiation of a
  challenge, the handling of every message of the securing layer, the tasks that receive, and the
  steps of a session as a relation.  A code is \<open>Some\<close> of an error code; \<open>None\<close> is the result -1 of
  a failed derivation of a key.
\<close>

type_synonym code = "errcode option"

text \<open>What an operation draws besides a challenge: whether the timer can be created, and the
  identifier of an \<open>AllClear\<close> or of an answer.\<close>
record turn =
  tn_draws :: draws
  tn_timer :: bool
  tn_uuid :: string
  tn_uuid_clear :: string

section \<open>AllClear\<close>

definition sendAllClear :: "'j env \<Rightarrow> string \<Rightarrow> session \<Rightarrow> (session \<times> code) run" where
  "sendAllClear E uuid s =
    rbind (sendMessage (e_json E) s (initMessage uuid AllClear) None) (\<lambda>(s1, ret).
      if ret \<noteq> E_no_error then Inr (s1, Some ret)
      else let s2 = s1\<lparr> s_ac_sent := True \<rparr>
           in Inr (if s_ac_rxed s2 then trigger EVENT_ALLCLEAR_EXCHANGED s2 else s2, Some E_no_error))"

section \<open>Choice of a login and challenge\<close>

text \<open>The age in seconds from which a password is renewed: \<open>(135 * 3) / 4\<close>.\<close>
definition triggerPeriod_sec :: int where
  "triggerPeriod_sec = (3600 * 24 * 3) div 4 * 0 + (135 * 3) div 4"

text \<open>The call back on one TO entry: the new context, and whether the walk goes on.\<close>
definition searchLoginForChallenge ::
  "times \<Rightarrow> horodate \<Rightarrow> challenge option \<Rightarrow> auth \<Rightarrow> challenge option \<times> bool" where
  "searchLoginForChallenge T now ctx a =
    (let claimed = (case ctx of None \<Rightarrow> False | Some ch \<Rightarrow> ch_auth ch \<noteq> None);
         busy = (case ctx of None \<Rightarrow> False | Some ch \<Rightarrow> ch_running ch \<or> ch_toSend ch)
     in if claimed \<and> busy then (ctx, False)
        else let ctx1 = (if claimed then freeChallengeContext (stopTimerResponse ctx) else ctx);
                 found = (a_new_pwd_pending a \<or>
                   triggerPeriod_sec > 0 \<and> t_diff_sec T now (a_timestamp a) > triggerPeriod_sec)
             in if found
                then (Some ((case ctx1 of None \<Rightarrow> challenge_ctxt_new | Some ch \<Rightarrow> ch)
                        \<lparr> ch_auth := Some (auth_id a), ch_toSend := True \<rparr>), True)
                else (ctx1, True))"

definition auth_to_foreach :: "dbs \<Rightarrow> cstr \<Rightarrow> ('c \<Rightarrow> auth \<Rightarrow> 'c \<times> bool) \<Rightarrow> 'c \<Rightarrow> 'c" where
  "auth_to_foreach dbs sId fct c = fst (auth_foreach dbs (Some auth_to_dbId) sId fct c)"

definition challenge_idle :: "challenge option \<Rightarrow> bool" where
  "challenge_idle ctx \<longleftrightarrow> (case ctx of None \<Rightarrow> True | Some ch \<Rightarrow> \<not> ch_running ch \<and> \<not> ch_toSend ch)"

text \<open>A challenge that is to be sent, made and put into the queue without encryption.\<close>
definition sendChallenge :: "'j env \<Rightarrow> turn \<Rightarrow> challenge \<Rightarrow> session \<Rightarrow> (session \<times> code) run" where
  "sendChallenge E t ch s =
    (case ch_auth ch of
       None \<Rightarrow> Inl Null_deref
     | Some ident \<Rightarrow>
         rbind (Challenge_encode (e_json E) (e_evp E) (e_times E) (e_pos E) (tn_draws t) (s_dbs s) ch
                  (s_cipher s) (s_local s) (Some (snd (snd ident))) (s_remote s)) (\<lambda>(dbs1, ch1, res).
           let s1 = s\<lparr> s_dbs := dbs1, s_challenge := Some ch1 \<rparr>
           in case res of
                Inl err \<Rightarrow> Inr (s1, err)
              | Inr payload \<Rightarrow>
                  (case ch_auth ch1 of
                     None \<Rightarrow> Inl Null_deref
                   | Some ident1 \<Rightarrow>
                       rbind (send_optional_encryption s1 payload False (Some (snd (snd ident1)))) (\<lambda>s2. Inr
                         (fst (launchTimerResponse (tn_timer t)
                                (s2\<lparr> s_challenge := Some (ch1\<lparr> ch_running := True, ch_toSend := False \<rparr>) \<rparr>)),
                          Some E_no_error)))))"

text \<open>The walk for a login, when no challenge waits or runs.\<close>
definition choose_login :: "'j env \<Rightarrow> turn \<Rightarrow> session \<Rightarrow> session" where
  "choose_login E t s =
    (if challenge_idle (s_challenge s)
     then s\<lparr> s_challenge := auth_to_foreach (s_dbs s) (s_remote s)
              (searchLoginForChallenge (e_times E) (dr_now (tn_draws t))) (s_challenge s) \<rparr>
     else s)"

definition initiateChallenge :: "'j env \<Rightarrow> turn \<Rightarrow> session \<Rightarrow> (session \<times> code) run" where
  "initiateChallenge E t s =
    (let s1 = choose_login E t s
     in if challenge_idle (s_challenge s1)
        then if s_ac_sent s1 then Inr (s1, Some E_no_error) else sendAllClear E (tn_uuid_clear t) s1
        else case s_challenge s1 of
               None \<Rightarrow> Inr (s1, Some E_no_error)
             | Some ch \<Rightarrow> if ch_toSend ch then sendChallenge E t ch s1 else Inr (s1, Some E_no_error))"

section \<open>Messages of the securing layer\<close>

definition put_session_auth :: "session \<Rightarrow> auth \<Rightarrow> session" where
  "put_session_auth s a = s\<lparr> s_dbs := put_auth (s_dbs s) a \<rparr>"

text \<open>\<open>auth_secret_delete_by_key\<close> under the cipher of the session, which is dereferenced.\<close>
definition purge_secret :: "session \<Rightarrow> string \<times> string \<times> string \<Rightarrow> session run" where
  "purge_secret s ident =
    (case s_cipher s of
       None \<Rightarrow> Inl Null_deref
     | Some c \<Rightarrow> Inr (s\<lparr> s_dbs :=
         fst (auth_secret_delete_by_key (s_dbs s) (Some (key_of ident)) (Some (c_lib c))) \<rparr>))"

text \<open>No login is left for the way back: the first of the site, or the one after it, has a new
  password pending.  Only looked at while a challenge of this side is under way.\<close>
definition change_pwd_busy :: "session \<Rightarrow> bool" where
  "change_pwd_busy s \<longleftrightarrow>
    \<not> challenge_idle (s_challenge s) \<and>
    (case auth_get_first (s_dbs s) (auth_to_key_set None (s_remote s)) of
       None \<Rightarrow> True
     | Some a \<Rightarrow>
         a_new_pwd_pending a \<and>
         (case auth_get_next_from_auth (s_dbs s) a of None \<Rightarrow> True | Some b \<Rightarrow> a_new_pwd_pending b))"

text \<open>The password of the FROM entry the request came under, and the status of the answer.\<close>
definition change_password ::
  "horodate \<Rightarrow> session \<Rightarrow> (string \<times> string \<times> string) option \<Rightarrow> string \<Rightarrow> (session \<times> bool) run" where
  "change_password now s from pwd =
    (case from of
       None \<Rightarrow> Inl Null_deref
     | Some ident \<Rightarrow>
         (case auth_at (s_dbs s) ident of
            None \<Rightarrow> Inl Null_deref
          | Some a \<Rightarrow>
              rbind (auth_set_pwd_b64 now a pwd) (\<lambda>(a1, ret).
                if ret \<noteq> E_no_error then Inr (s, False)
                else rbind (purge_secret (put_session_auth s a1) ident) (\<lambda>s1. Inr (s1, True)))))"

definition handle_request ::
  "'j env \<Rightarrow> turn \<Rightarrow> session \<Rightarrow> (string \<times> string \<times> string) option \<Rightarrow> string \<Rightarrow> string \<Rightarrow> (session \<times> code) run" where
  "handle_request E t s from mId pwd =
    rbind (if change_pwd_busy s then Inr (s, False)
           else change_password (dr_now (tn_draws t)) s from pwd) (\<lambda>(s1, status).
      rbind (sendMessage (e_json E) s1
               ((initMessage (tn_uuid t) (ChangePwdResponse False []))\<lparr> m_body := ChangePwdResponse status mId \<rparr>)
               None) (\<lambda>(s2, ret). Inr (s2, Some (if ret = E_no_error then E_no_error else C_generic))))"

text \<open>The entry of the challenge switches to its new password; its secret under the cipher goes.\<close>
definition switch_password :: "horodate \<Rightarrow> session \<Rightarrow> challenge \<Rightarrow> (session \<times> errcode) run" where
  "switch_password now s ch =
    (case ch_auth ch of
       None \<Rightarrow> Inl Null_deref
     | Some ident \<Rightarrow>
         (case auth_at (s_dbs s) ident of
            None \<Rightarrow> Inl Null_deref
          | Some a \<Rightarrow>
              rbind (auth_switch_to_new_pwd now a) (\<lambda>(a1, ret).
                let s1 = put_session_auth s a1
                in if ret \<noteq> E_no_error then Inr (s1, ret)
                   else rbind (purge_secret s1 ident) (\<lambda>s2. Inr (s2, E_no_error)))))"

text \<open>The end of a challenge: the event, then the next one.\<close>
definition next_challenge :: "'j env \<Rightarrow> turn \<Rightarrow> challenge \<Rightarrow> challenge_response \<Rightarrow> session \<Rightarrow> (session \<times> code) run" where
  "next_challenge E t ch resp s =
    initiateChallenge E t (trigger EVENT_CHALLENGE_PROCESSING
      (s\<lparr> s_challenge := Some (ch\<lparr> ch_running := False, ch_response := resp \<rparr>) \<rparr>))"

definition handle_response ::
  "'j env \<Rightarrow> turn \<Rightarrow> session \<Rightarrow> bool \<Rightarrow> string \<Rightarrow> (session \<times> code) run" where
  "handle_response E t s status oMId =
    (case s_challenge s of
       None \<Rightarrow> Inr (s, Some C_generic)
     | Some ch \<Rightarrow>
         if \<not> ch_running ch then Inr (s, Some C_generic)
         else case ch_mIdRequest ch of
                None \<Rightarrow> Inl Null_deref
              | Some mId \<Rightarrow>
                  if oMId \<noteq> mId then Inr (s, Some J_parse)
                  else let ch1 = ch\<lparr> ch_timer := False \<rparr>
                       in if status
                          then let ch2 = ch1\<lparr> ch_response := Resp_success \<rparr>
                               in rbind (switch_password (dr_now (tn_draws t)) (s\<lparr> s_challenge := Some ch2 \<rparr>) ch2)
                                    (\<lambda>(s1, ret).
                                      if ret \<noteq> E_no_error then Inr (s1, Some ret)
                                      else next_challenge E t ch2 Resp_success s1)
                          else next_challenge E t ch1 Resp_busy s)"

definition handle_ping :: "'j env \<Rightarrow> turn \<Rightarrow> session \<Rightarrow> string \<Rightarrow> cstr \<Rightarrow> (session \<times> code) run" where
  "handle_ping E t s mId pad =
    rbind (sendMessage (e_json E) s
             ((initMessage (tn_uuid t) (Pong [] None))\<lparr> m_body := Pong mId pad \<rparr>) None) (\<lambda>(s1, ret). Inr
      (s1, Some (if ret = E_no_error then E_no_error else C_generic)))"

definition handle_pong :: "'j env \<Rightarrow> turn \<Rightarrow> session \<Rightarrow> string \<Rightarrow> (session \<times> code) run" where
  "handle_pong E t s oMId =
    (case s_challenge s of
       None \<Rightarrow> Inr (s, Some C_generic)
     | Some ch \<Rightarrow>
         if \<not> ch_running ch then Inr (s, Some C_generic)
         else case ch_mIdPing ch of
                None \<Rightarrow> Inl Null_deref
              | Some mId \<Rightarrow>
                  if oMId \<noteq> mId then Inr (s, Some J_parse)
                  else let ch1 = ch\<lparr> ch_timer := False \<rparr>
                       in rbind (switch_password (dr_now (tn_draws t)) (s\<lparr> s_challenge := Some ch1 \<rparr>) ch1)
                            (\<lambda>(s1, ret).
                              if ret \<noteq> E_no_error then Inr (s1, Some ret)
                              else next_challenge E t ch1 Resp_success s1))"

definition cyber_process_internal_msg ::
  "'j env \<Rightarrow> turn \<Rightarrow> session \<Rightarrow> (string \<times> string \<times> string) option \<Rightarrow> message option \<Rightarrow> (session \<times> code) run" where
  "cyber_process_internal_msg E t s from msg =
    rbind (messageCheckFields msg) (\<lambda>ok.
      case msg of
        None \<Rightarrow> Inr (s, Some C_generic)
      | Some m \<Rightarrow>
          if \<not> ok then Inr (s, Some C_generic)
          else (case m_body m of
              AllClear \<Rightarrow>
                let s1 = s\<lparr> s_ac_rxed := True \<rparr>
                in Inr (if s_ac_sent s1 then trigger EVENT_ALLCLEAR_EXCHANGED s1 else s1, Some E_no_error)
            | ChangePwdRequest pwd \<Rightarrow>
                (case pwd of None \<Rightarrow> Inl Null_deref | Some p \<Rightarrow> handle_request E t s from (m_mId m) p)
            | ChangePwdResponse status oMId \<Rightarrow> handle_response E t s status oMId
            | Ping pad \<Rightarrow> handle_ping E t s (m_mId m) pad
            | Pong oMId pad \<Rightarrow> handle_pong E t s oMId
            | Encrypted sId login data \<Rightarrow> Inr (s, Some C_generic)))"

section \<open>The tasks that receive\<close>

text \<open>The plain texts of a message go to the queue of their class.\<close>
definition dispatch :: "(string \<times> string \<times> string) option \<Rightarrow> session \<Rightarrow> ptxt \<Rightarrow> session" where
  "dispatch from s p =
    (case p_original p of
       None \<Rightarrow> s
     | Some text \<Rightarrow>
         (case p_class p of
            Cl_internal \<Rightarrow> s\<lparr> s_internal_q := s_internal_q s @ [(text, from)] \<rparr>
          | Cl_external \<Rightarrow> s\<lparr> s_external_q := s_external_q s @ [(text, from)] \<rparr>
          | Cl_unknown \<Rightarrow> s))"

text \<open>One turn of the receiving task on what the transport gave; \<open>silent\<close> is the time in seconds
  since the last payload.\<close>
definition receive_task :: "'j env \<Rightarrow> horodate \<Rightarrow> int \<Rightarrow> errcode + string \<Rightarrow> session \<Rightarrow> session run" where
  "receive_task E now silent received s =
    (case received of
       Inr payload \<Rightarrow>
         rbind (Encrypted_decode (e_json E) (e_evp E) (e_times E) (e_pos E) (e_window E) now (s_dbs s)
                  (s_cipher s) (case s_local s of None \<Rightarrow> [] | Some l \<Rightarrow> l) (Some payload) None)
           (\<lambda>(dbs1, ret, ptxts, a). Inr
             (foldl (dispatch (map_option auth_id a)) (s\<lparr> s_dbs := dbs1 \<rparr>) ptxts))
     | Inl err \<Rightarrow>
         Inr (if err = T_connection then cyber_stop s
              else if s_to_sec s \<ge> 1 \<and> silent \<ge> s_to_sec s then cyber_stop s else s))"

text \<open>One turn of the internal task: a message if there is one, then the challenge.\<close>
definition internal_task :: "'j env \<Rightarrow> turn \<Rightarrow> turn \<Rightarrow> session \<Rightarrow> session run" where
  "internal_task E t t' s =
    rbind (case s_internal_q s of
             [] \<Rightarrow> Inr s
           | (text, from) # rest \<Rightarrow>
               let s1 = s\<lparr> s_internal_q := rest \<rparr>
               in rbind (deserializeMessage (e_json E) (Some text)) (\<lambda>des.
                    case des of
                      Inl err \<Rightarrow> Inr s1
                    | Inr m \<Rightarrow> rbind (cyber_process_internal_msg E t s1 from (Some m)) (\<lambda>(s2, ret). Inr s2)))
      (\<lambda>s3. rbind (initiateChallenge E t' s3) (\<lambda>(s4, ret). Inr s4))"

section \<open>Steps\<close>

text \<open>The steps of a started session: the tasks as long as it is not stopped, the application, the
  timer and the stop.\<close>
inductive sess_step :: "'j env \<Rightarrow> session \<Rightarrow> session \<Rightarrow> bool" for E :: "'j env" where
  Receive: "\<not> s_stop s \<Longrightarrow> receive_task E now silent received s = Inr s' \<Longrightarrow> sess_step E s s'"
| Internal: "\<not> s_stop s \<Longrightarrow> internal_task E t t' s = Inr s' \<Longrightarrow> sess_step E s s'"
| Send: "\<not> s_stop s \<Longrightarrow> send_task E now uuid s = Inr s' \<Longrightarrow> sess_step E s s'"
| App_send: "cyber_send s payload login = Inr (s', ret) \<Longrightarrow> sess_step E s s'"
| App_wait: "waitForMessage_external s = (s', p) \<Longrightarrow> sess_step E s s'"
| Timeout: "sess_step E s (handler_timeout_challenge s)"
| Stop: "sess_step E s (cyber_stop s)"

inductive sess_reach :: "'j env \<Rightarrow> session \<Rightarrow> session \<Rightarrow> bool" for E :: "'j env" and s0 :: session where
  Reach_refl: "sess_reach E s0 s0"
| Reach_step: "sess_reach E s0 s \<Longrightarrow> sess_step E s s' \<Longrightarrow> sess_reach E s0 s'"

inductive_cases sess_stepE: "sess_step E s s'"

end
