(* ===== verification/SessionInv.thy ===== *)
theory SessionInv
  imports SessionSteps
begin

text \<open>
  What the operations of a session do to the base of authentications: which entries they keep and which
  of their fields they change.  The invariant of a session, in \<open>SessionSafety\<close>, rests on it.
\<close>

section \<open>Effects on the base\<close>

text \<open>The entries stay, those of the coder but for their secrets.\<close>
definition keys_step :: "dbs \<Rightarrow> dbs \<Rightarrow> bool" where
  "keys_step d d' \<longleftrightarrow>
    auth_dbs_ok d \<longrightarrow> auth_dbs_ok d' \<and> (\<forall>k. (auth_at d' k = None) = (auth_at d k = None))"

definition secrets_step :: "dbs \<Rightarrow> dbs \<Rightarrow> bool" where
  "secrets_step d d' \<longleftrightarrow>
    auth_dbs_ok d \<longrightarrow> auth_dbs_ok d' \<and>
      (\<forall>k. case auth_at d k of
             None \<Rightarrow> auth_at d' k = None
           | Some a \<Rightarrow> (\<exists>a'. auth_at d' k = Some a' \<and> same_but_secrets a a'))"

lemma keys_step_refl [simp]: "keys_step d d"
  by (simp add: keys_step_def)

lemma keys_step_trans: "keys_step d d1 \<Longrightarrow> keys_step d1 d2 \<Longrightarrow> keys_step d d2"
  by (simp add: keys_step_def)

lemma secrets_step_refl [simp]: "secrets_step d d"
  by (simp add: secrets_step_def split: option.split)

lemma same_but_secrets_trans: "same_but_secrets a b \<Longrightarrow> same_but_secrets b c \<Longrightarrow> same_but_secrets a c"
  unfolding same_but_secrets_def by (cases a; cases b; cases c) simp

lemma secrets_step_trans:
  assumes "secrets_step d d1" "secrets_step d1 d2"
  shows "secrets_step d d2"
  unfolding secrets_step_def
proof (intro impI conjI allI)
  assume ok: "auth_dbs_ok d"
  hence ok1: "auth_dbs_ok d1" using assms(1) by (simp add: secrets_step_def)
  thus "auth_dbs_ok d2" using assms(2) by (simp add: secrets_step_def)
  fix k
  have 1: "case auth_at d k of None \<Rightarrow> auth_at d1 k = None
      | Some a \<Rightarrow> \<exists>a'. auth_at d1 k = Some a' \<and> same_but_secrets a a'"
    using assms(1) ok unfolding secrets_step_def by blast
  have 2: "case auth_at d1 k of None \<Rightarrow> auth_at d2 k = None
      | Some a \<Rightarrow> \<exists>a'. auth_at d2 k = Some a' \<and> same_but_secrets a a'"
    using assms(2) ok1 unfolding secrets_step_def by blast
  show "case auth_at d k of None \<Rightarrow> auth_at d2 k = None
      | Some a \<Rightarrow> \<exists>a'. auth_at d2 k = Some a' \<and> same_but_secrets a a'"
    using 1 2 by (auto split: option.splits intro: same_but_secrets_trans)
qed

lemma secrets_keys: "secrets_step d d' \<Longrightarrow> keys_step d d'"
  unfolding secrets_step_def keys_step_def by (fastforce split: option.splits)

lemma put_auth_keys:
  assumes "auth_at d (auth_id a) = Some b" "auth_id a1 = auth_id a"
  shows "keys_step d (put_auth d a1)"
  unfolding keys_step_def using put_auth_at [OF _ assms(1), of a1] assms by auto

lemma put_auth_secrets:
  assumes "auth_at d (auth_id a) = Some a" "same_but_secrets a a1"
  shows "secrets_step d (put_auth d a1)"
proof -
  have "auth_id a1 = auth_id a" by (rule same_but_secretsD(1) [OF assms(2)])
  from put_auth_at [OF _ assms(1) this] show ?thesis
    unfolding secrets_step_def using assms by (auto split: option.split)
qed

lemma find_last:
  "kuniq key xs \<Longrightarrow> xs \<noteq> [] \<Longrightarrow> find (\<lambda>x. key x = key (last xs)) xs = Some (last xs)"
proof (induction xs)
  case (Cons x xs)
  show ?case
  proof (cases "xs = []")
    case False
    hence "key (last xs) \<in> key ` set xs" by simp
    hence "key x \<noteq> key (last xs)" using Cons.prems(1) by (auto simp: kuniq_def)
    thus ?thesis using Cons False by (simp add: kuniq_def)
  qed simp
qed simp

lemma auth_get_first_at:
  assumes "auth_dbs_ok d" "auth_get_first d (auth_key_set (Some db) l (Some r)) = Some a"
  shows "auth_at d (auth_id a) = Some a \<and> a_dbId a = db \<and> a_sId a = r"
proof -
  obtain x where x: "sIds_at d (Some db) (Some r) = Some x" "s_logins x \<noteq> []" "a = last (s_logins x)"
    using assms(2) by (auto simp: auth_get_first_def auth_key_set_def sIds_at_def last_of_def
        split: option.splits if_splits)
  have ok: "logins_ok db x" by (rule sIds_at_ok [OF assms(1) x(1)])
  have "a_dbId a = db" "a_sId a = r"
    using ok x sIds_name [OF x(1)] by (auto simp: logins_ok_def list_all_iff)
  moreover have "find (\<lambda>z. a_login z = a_login a) (s_logins x) = Some a"
    using find_last [of a_login "s_logins x"] ok x by (simp add: logins_ok_def)
  ultimately show ?thesis
    using x(1) by (simp add: auth_at_def auth_login_find_def auth_find_def auth_id_def)
qed

lemma coder_auth_get_at:
  assumes "auth_dbs_ok d" "coder_auth_get d login rem act = Inr (ret, Some a)"
  shows "auth_at d (auth_id a) = Some a"
proof -
  obtain r where r: "rem = Some r" using assms(2) by (auto simp: coder_auth_get_def split: if_splits)
  let ?db = "if act = Act_decrypt then ''from'' else ''to''"
  let ?key = "auth_key_set (Some ?db) login (Some r)"
  have "(if login \<noteq> None then auth_find_by_key d (Some ?key) else auth_get_first d ?key) = Some a"
    using assms(2) r
    by (auto simp: coder_auth_get_def Let_def auth_from_key_set_def auth_to_key_set_def auth_from_dbId_def
        auth_to_dbId_def split: if_splits option.splits)
  moreover have "auth_at d (auth_id a) = Some a" if "login = Some l" "auth_find_by_key d (Some ?key) = Some a" for l
  proof -
    have "auth_at d (?db, r, l) = Some a"
      using that by (simp add: auth_find_by_key_def auth_key_set_def auth_at_def)
    thus ?thesis using auth_at_ok [OF assms(1)] by metis
  qed
  ultimately show ?thesis
    using auth_get_first_at [OF assms(1)] by (cases login) auto
qed

lemma coder_encrypt_secrets:
  assumes "coder_encrypt e pos d c loc login rem text = Inr k"
  shows "secrets_step d (k_dbs k)"
proof -
  obtain ret found where g: "coder_auth_get d login rem Act_encrypt = Inr (ret, found)"
    using assms by (auto simp: coder_encrypt_def)
  have "secrets_step d (k_dbs k)" if ok: "auth_dbs_ok d"
  proof (cases "found = None \<or> ret \<noteq> E_no_error")
    case True
    thus ?thesis using assms g by (auto simp: coder_encrypt_def split: option.splits)
  next
    case False
    then obtain a where a: "found = Some a" "ret = E_no_error" by auto
    obtain a1 s where s: "coder_secret_get e pos c a loc Act_encrypt = Inr (a1, s)"
      using assms g a by (auto simp: coder_encrypt_def)
    have "k_dbs k = put_auth d a1"
      using assms g a s by (cases s) (auto simp: coder_encrypt_def Let_def)
    thus ?thesis
      using put_auth_secrets [OF coder_auth_get_at [OF ok] coder_secret_get_entry [OF s]] g a by simp
  qed
  thus ?thesis by (simp add: secrets_step_def)
qed

lemma coder_decrypt_secrets:
  assumes "coder_decrypt e pos d c loc login rem text = Inr k"
  shows "secrets_step d (k_dbs k)"
proof -
  obtain ret found where g: "coder_auth_get d login rem Act_decrypt = Inr (ret, found)"
    using assms by (auto simp: coder_decrypt_def)
  have "secrets_step d (k_dbs k)" if ok: "auth_dbs_ok d"
  proof (cases "found = None \<or> ret \<noteq> E_no_error")
    case True
    thus ?thesis using assms g by (auto simp: coder_decrypt_def split: option.splits)
  next
    case False
    then obtain a where a: "found = Some a" "ret = E_no_error" by auto
    obtain a1 s where s: "coder_secret_get e pos c a loc Act_decrypt = Inr (a1, s)"
      using assms g a by (auto simp: coder_decrypt_def)
    have "k_dbs k = put_auth d a1"
      using assms g a s
      by (cases s) (auto simp: coder_decrypt_def Let_def run_cases simp del: rbind_Inr_iff split: if_splits)
    thus ?thesis
      using put_auth_secrets [OF coder_auth_get_at [OF ok] coder_secret_get_entry [OF s]] g a by simp
  qed
  thus ?thesis by (simp add: secrets_step_def)
qed

lemma encode_loop_secrets:
  "encode_loop J e T pos c loc login sId ps d out a = Inr (d', r, out', a') \<Longrightarrow> secrets_step d d'"
proof (induction ps arbitrary: d out a)
  case (Cons p ps)
  obtain ser where ser: "ptxt_serialize J T p = Inr ser" using Cons.prems by auto
  show ?case
  proof (cases ser)
    case (Inl err)
    thus ?thesis using Cons.prems ser by simp
  next
    case (Inr tx)
    obtain k where k: "coder_encrypt e pos d c loc login sId tx = Inr k"
      using Cons.prems ser Inr by auto
    note s1 = coder_encrypt_secrets [OF k]
    show ?thesis
    proof (cases "k_ret k \<noteq> E_no_error \<or> k_out k = None")
      case True
      hence "d' = k_dbs k" using Cons.prems ser Inr k by (auto split: if_splits option.splits)
      thus ?thesis using s1 by simp
    next
      case False
      then obtain enc where "encode_loop J e T pos c loc login sId ps (k_dbs k) (out @ [enc]) (k_auth k) =
          Inr (d', r, out', a')"
        using Cons.prems ser Inr k by auto
      from Cons.IH [OF this] s1 show ?thesis by (rule secrets_step_trans [rotated])
    qed
  qed
qed simp

lemma Encrypted_encode_secrets:
  assumes "Encrypted_encode J e T pos uuid d cipher loc login rem ps = Inr (d', r)"
  shows "secrets_step d d'"
proof (cases "cipher = None \<or> loc = None \<or> rem = None \<or> ps = []")
  case True
  thus ?thesis using assms by (auto simp: Encrypted_encode_def split: option.splits)
next
  case False
  then obtain c l s where v: "cipher = Some c" "loc = Some l" "rem = Some s" "ps \<noteq> []" by auto
  obtain d1 ret out a where "encode_loop J e T pos c l login (Some s) ps d [] None = Inr (d1, ret, out, a)"
    using assms v by (auto simp: Encrypted_encode_def)
  moreover have "d' = d1"
    using assms v calculation by (auto simp: Encrypted_encode_def split: if_splits option.splits)
  ultimately show ?thesis using encode_loop_secrets by blast
qed

lemma decode_loop_secrets:
  "decode_loop J e T pos w now c loc login sId vs d out a = Inr (d', out', a') \<Longrightarrow> secrets_step d d'"
proof (induction vs arbitrary: d out a)
  case (Cons v vs)
  obtain k where k: "coder_decrypt e pos d c loc login sId (j_get_string J v) = Inr k"
    using Cons.prems by auto
  obtain out1 where "decode_loop J e T pos w now c loc login sId vs (k_dbs k) out1 (k_auth k) = Inr (d', out', a')"
    using Cons.prems k by (auto simp: Let_def)
  from Cons.IH [OF this] coder_decrypt_secrets [OF k] show ?case by (rule secrets_step_trans [rotated])
qed simp

lemma Encrypted_decode_secrets:
  "Encrypted_decode J e T pos w now d cipher loc buf a0 = Inr (d', r, ps, a) \<Longrightarrow> secrets_step d d'"
  by (auto dest!: Encrypted_decode_result decode_loop_secrets)

lemma challenge_messages_error:
  "challenge_messages J e T dr c l a pwd cur new d ch = Inr (d', ch', Inl err) \<Longrightarrow>
   d' = d \<and> ch_auth ch' = ch_auth ch \<and> ch_running ch' = ch_running ch \<and> ch_toSend ch' = ch_toSend ch \<and>
   ch_timer ch' = ch_timer ch"
  by (auto simp: challenge_messages_def Let_def run_cases simp del: rbind_Inr_iff)

lemma freeMembers_simps [simp]:
  "ch_running (freeChallengeContextMembers ch) = ch_running ch"
  "ch_toSend (freeChallengeContextMembers ch) = ch_toSend ch"
  "ch_timer (freeChallengeContextMembers ch) = ch_timer ch"
  by (simp_all add: freeChallengeContextMembers_def)

lemma Challenge_encode_effect:
  assumes "auth_dbs_ok d" "auth_at d (''to'', r, s) = Some a"
    and "Challenge_encode J e T pos dr d ch cipher loc (Some s) (Some r) = Inr (d', ch', res)"
  shows "keys_step d d' \<and> ch_toSend ch' = ch_toSend ch \<and> ch_timer ch' = ch_timer ch \<and>
    (case res of Inl err \<Rightarrow> ch_running ch' = ch_running ch
     | Inr p \<Rightarrow> ch_running ch' \<and> ch_mIdRequest ch' \<noteq> None \<and> ch_mIdPing ch' \<noteq> None \<and>
         ch_auth ch' = Some (''to'', r, s)) \<and>
    (ch' = ch \<or> \<not> ch_running ch \<and> ch_auth ch' = Some (''to'', r, s))"
proof (cases "cipher = None \<or> loc = None \<or> ch_running ch")
  case True
  thus ?thesis using assms(3) by (auto simp: Challenge_encode_def split: option.splits if_splits)
next
  case False
  then obtain c l where v: "cipher = Some c" "loc = Some l" "\<not> ch_running ch" by auto
  have id: "auth_id a = (''to'', r, s)" by (rule auth_at_ok [OF assms(1,2)])
  let ?ret = "if a_active a then E_no_error else C_generic"
  have g: "coder_auth_get d (Some s) (Some r) Act_encrypt = Inr (?ret, Some a)"
    using assms(2)
    by (simp add: coder_auth_get_def auth_to_key_set_def auth_to_dbId_def auth_find_by_key_def auth_key_set_def
        auth_at_def Let_def)
  let ?ch = "(freeChallengeContextMembers ch)\<lparr> ch_auth := Some (''to'', r, s) \<rparr>"
  show ?thesis
  proof (cases "a_active a")
    case False
    thus ?thesis using assms(3) v g id by (auto simp: Challenge_encode_def Let_def)
  next
    case act: True
    obtain a1 ret1 pwd where p: "auth_get_new_pwd_b64 (dr_pwd dr) a = Inr (a1, ret1, pwd)"
      using assms(3) v g act
      by (auto simp: Challenge_encode_def Let_def run_cases simp del: rbind_Inr_iff)
    have id1: "auth_id a1 = auth_id a" using auth_ops_id [OF p] by simp
    have k1: "keys_step d (put_auth d a1)" using put_auth_keys [of d a a a1] assms(2) id id1 by simp
    show ?thesis
    proof (cases "ret1 = E_no_error")
      case False
      thus ?thesis using assms(3) v g act p id k1 by (auto simp: Challenge_encode_def Let_def)
    next
      case ok: True
      then obtain b64 where b: "pwd = Some b64"
        using assms(3) v g act p by (cases pwd) (auto simp: Challenge_encode_def Let_def)
      obtain a2 sec where sec: "coder_secret_get e pos c a1 l Act_encrypt = Inr (a2, sec)"
        using assms(3) v g act p ok b
        by (auto simp: Challenge_encode_def Let_def run_cases simp del: rbind_Inr_iff)
      have "auth_at (put_auth d a1) (auth_id a1) = Some a1"
        using put_auth_at(2) [OF assms(1,2), of a1] id id1 by simp
      from secrets_keys [OF put_auth_secrets [OF this coder_secret_get_entry [OF sec]]]
      have k2: "keys_step d (put_auth (put_auth d a1) a2)" using k1 by (rule keys_step_trans [rotated])
      show ?thesis
      proof (cases sec)
        case (Inl err)
        thus ?thesis using assms(3) v g act p ok b sec id k2 by (auto simp: Challenge_encode_def Let_def)
      next
        case (Inr cur)
        obtain new where n: "computeNewSecretAuthTo e c l a2 = Inr new"
          using assms(3) v g act p ok b sec Inr by (auto simp: Challenge_encode_def Let_def)
        show ?thesis
        proof (cases new)
          case None
          thus ?thesis using assms(3) v g act p ok b sec id k2 n Inr
            by (auto simp: Challenge_encode_def Let_def)
        next
          case (Some nw)
          have m: "challenge_messages J e T dr c l a2 b64 cur nw (put_auth (put_auth d a1) a2) ?ch =
              Inr (d', ch', res)"
            using assms(3) v g act p ok b sec id n Inr Some by (simp add: Challenge_encode_def Let_def)
          show ?thesis
          proof (cases res)
            case (Inl err)
            thus ?thesis using challenge_messages_error [OF m [unfolded Inl]] k2 v by simp
          next
            case (Inr payload)
            thus ?thesis using challenge_messages_success [OF m [unfolded Inr]] k2 v by simp
          qed
        qed
      qed
    qed
  qed
qed

end
