(* ===== verification/SessionSafety.thy ===== *)
theory SessionSafety
  imports SessionInv
begin

text \<open>
  The invariant of a started session, kept by every step: the challenge is consistent with the base,
  \<open>AllClear\<close> is announced when it has been exchanged, a lost session is announced once.
\<close>

section \<open>TO entries\<close>

text \<open>The base stays a map, and the TO entries stay but for their secrets.\<close>
definition to_kept :: "dbs \<Rightarrow> dbs \<Rightarrow> bool" where
  "to_kept d d' \<longleftrightarrow>
    auth_dbs_ok d \<longrightarrow> auth_dbs_ok d' \<and>
      (\<forall>r l. rel_option same_but_secrets (auth_at d (''to'', r, l)) (auth_at d' (''to'', r, l)))"

lemma to_kept_refl [simp]: "to_kept d d"
  by (simp add: to_kept_def option.rel_refl)

lemma to_kept_trans:
  assumes "to_kept d d1" "to_kept d1 d2"
  shows "to_kept d d2"
proof -
  have "rel_option same_but_secrets x z"
    if "rel_option same_but_secrets x y" "rel_option same_but_secrets y z" for x y z
    using that by (cases x; cases y; cases z) (auto intro: same_but_secrets_trans)
  thus ?thesis using assms unfolding to_kept_def by blast
qed

lemma secrets_to_kept:
  assumes "secrets_step d d'"
  shows "to_kept d d'"
proof -
  have "rel_option same_but_secrets (auth_at d k) (auth_at d' k)" if "auth_dbs_ok d" for k
  proof -
    have "case auth_at d k of None \<Rightarrow> auth_at d' k = None
        | Some a \<Rightarrow> \<exists>a'. auth_at d' k = Some a' \<and> same_but_secrets a a'"
      using assms that unfolding secrets_step_def by blast
    thus ?thesis by (auto split: option.splits)
  qed
  thus ?thesis using assms by (simp add: to_kept_def secrets_step_def)
qed

lemma put_from_kept:
  assumes "auth_at d k = Some a" "auth_id a1 = k" "fst k \<noteq> ''to''"
  shows "to_kept d (put_auth d a1)"
  unfolding to_kept_def using put_auth_at [OF _ assms(1,2)] assms(3) by (auto simp: option.rel_refl)

lemma purge_secrets: "purge_secret s ident = Inr s' \<Longrightarrow>
  \<exists>d. s' = s\<lparr> s_dbs := d \<rparr> \<and> secrets_step (s_dbs s) d"
proof -
  assume p: "purge_secret s ident = Inr s'"
  then obtain c where c: "s_cipher s = Some c" by (auto simp: purge_secret_def split: option.splits)
  let ?d = "fst (auth_secret_delete_by_key (s_dbs s) (Some (key_of ident)) (Some (c_lib c)))"
  have "secrets_step (s_dbs s) ?d"
  proof (cases "auth_at (s_dbs s) ident")
    case None
    thus ?thesis by (simp add: auth_secret_delete_by_key_def auth_find_by_key_at split: option.split)
  next
    case (Some a)
    have "secrets_step (s_dbs s) (upd_auth (a_dbId a) (a_sId a) (a_login a)
        (\<lambda>x. x\<lparr> a_secrets := ldc_unlink f (a_secrets x) \<rparr>) (s_dbs s))" for f
    proof -
      let ?f = "\<lambda>x. x\<lparr> a_secrets := ldc_unlink f (a_secrets x) \<rparr>"
      have id: "auth_id (?f b) = k" if "auth_dbs_ok (s_dbs s)" "auth_at (s_dbs s) k = Some b" for k b
        using auth_at_ok [OF that] by (simp add: auth_id_def)
      have "a_login (?f b) = l" if "auth_dbs_ok (s_dbs s)" "auth_at (s_dbs s) (d, r, l) = Some b" for d r l b
        using id [OF that] by (simp add: auth_id_def)
      thus ?thesis unfolding secrets_step_def
        by (auto simp: auth_at_upd_auth id upd_auth_ok split: option.splits)
    qed
    thus ?thesis
      using Some by (auto simp: auth_secret_delete_by_key_def auth_find_by_key_at split: option.split)
  qed
  thus ?thesis using p c by (auto simp: purge_secret_def)
qed

lemma to_keptD:
  assumes "to_kept d d'" "auth_dbs_ok d" "auth_at d (''to'', r, l) = Some a"
  obtains a' where "auth_dbs_ok d'" "auth_at d' (''to'', r, l) = Some a'" "same_but_secrets a a'"
  using assms unfolding to_kept_def by (metis option_rel_Some1)

section \<open>The invariant\<close>

definition challenge_ok :: "dbs \<Rightarrow> string \<Rightarrow> challenge \<Rightarrow> bool" where
  "challenge_ok d rem ch \<longleftrightarrow>
    \<not> (ch_running ch \<and> ch_toSend ch) \<and> (ch_timer ch \<longrightarrow> ch_running ch) \<and>
    (ch_running ch \<longrightarrow> ch_mIdRequest ch \<noteq> None \<and> ch_mIdPing ch \<noteq> None) \<and>
    (ch_running ch \<or> ch_toSend ch \<longrightarrow>
      (case ch_auth ch of
         None \<Rightarrow> False
       | Some (db, r, l) \<Rightarrow> db = ''to'' \<and> r = rem \<and>
           (case auth_at d (db, r, l) of
              None \<Rightarrow> False
            | Some a \<Rightarrow> ch_running ch \<longrightarrow> a_active a \<and> a_new_pwd_pending a)))"

definition events_ok :: "session \<Rightarrow> bool" where
  "events_ok s \<longleftrightarrow>
    (EVENT_ALLCLEAR_EXCHANGED \<in> set (s_events s)) = (s_ac_rxed s \<and> s_ac_sent s) \<and>
    length (filter (\<lambda>e. e = EVENT_CYBER_LOST) (s_events s)) = (if s_stop s then 1 else 0)"

definition sess_inv :: "session \<Rightarrow> bool" where
  "sess_inv s \<longleftrightarrow>
    auth_dbs_ok (s_dbs s) \<and> s_local s \<noteq> None \<and> s_cipher s \<noteq> None \<and> events_ok s \<and>
    (case s_remote s of
       None \<Rightarrow> False
     | Some r \<Rightarrow>
         (case s_challenge s of
            None \<Rightarrow> True
          | Some ch \<Rightarrow> challenge_ok (s_dbs s) r ch \<and> (s_stop s \<longrightarrow> \<not> ch_timer ch)))"

lemma sess_inv_queues [simp]:
  "sess_inv (s\<lparr> s_send_q := q \<rparr>) = sess_inv s"
  "sess_inv (s\<lparr> s_internal_q := i \<rparr>) = sess_inv s"
  "sess_inv (s\<lparr> s_external_q := i \<rparr>) = sess_inv s"
  "sess_inv (s\<lparr> s_wire := w \<rparr>) = sess_inv s"
  by (simp_all add: sess_inv_def events_ok_def cong: option.case_cong)

lemma challenge_ok_kept:
  assumes "challenge_ok d r ch" "auth_dbs_ok d" "to_kept d d'"
  shows "challenge_ok d' r ch"
proof (cases "ch_auth ch")
  case None
  thus ?thesis using assms(1) by (auto simp: challenge_ok_def)
next
  case (Some ident)
  obtain db s l where i: "ident = (db, s, l)" by (cases ident) auto
  show ?thesis
  proof (cases "ch_running ch \<or> ch_toSend ch")
    case True
    then obtain a where a: "db = ''to''" "s = r" "auth_at d (''to'', r, l) = Some a"
        "ch_running ch \<longrightarrow> a_active a \<and> a_new_pwd_pending a"
      using assms(1) Some i by (auto simp: challenge_ok_def split: option.splits)
    obtain a' where "auth_at d' (''to'', r, l) = Some a'" "same_but_secrets a a'"
      using to_keptD [OF assms(3,2) a(3)] by blast
    moreover from this(2) obtain ss where "a' = a\<lparr> a_secrets := ss \<rparr>" by (auto simp: same_but_secrets_def)
    ultimately show ?thesis using assms(1) Some i a by (auto simp: challenge_ok_def)
  qed (use assms(1) in \<open>auto simp: challenge_ok_def\<close>)
qed

lemma sess_inv_dbs:
  assumes "sess_inv s" "to_kept (s_dbs s) d"
  shows "sess_inv (s\<lparr> s_dbs := d \<rparr>)"
proof -
  have "auth_dbs_ok d" using assms by (simp add: sess_inv_def to_kept_def)
  thus ?thesis using assms challenge_ok_kept
    by (auto simp: sess_inv_def events_ok_def split: option.splits)
qed

section \<open>Operations\<close>

lemma sendMessage_effect:
  assumes "sendMessage J s m login = Inr (s', ret)"
  shows "\<exists>q. s' = s\<lparr> s_send_q := q \<rparr>"
proof -
  have "s' = s \<or> (\<exists>x. s' = s\<lparr> s_send_q := s_send_q s @ [x] \<rparr>)"
  proof -
    obtain ok where ok: "messageCheckFields (Some m) = Inr ok"
      using assms by (auto simp: sendMessage_def)
    show ?thesis
    proof (cases ok)
      case True
      obtain ser where "serializeMessage J (Some m) = Inr ser"
        using assms ok True by (auto simp: sendMessage_def)
      thus ?thesis using assms ok True
        by (cases ser) (auto simp: sendMessage_def send_optional_encryption_def split: if_splits)
    qed (use assms ok in \<open>simp add: sendMessage_def\<close>)
  qed
  moreover have "s = s\<lparr> s_send_q := s_send_q s \<rparr>" by simp
  ultimately show ?thesis by blast
qed

lemma sess_inv_challenge:
  assumes "sess_inv s" "\<And>r. s_remote s = Some r \<Longrightarrow> challenge_ok (s_dbs s) r ch" "s_stop s \<Longrightarrow> \<not> ch_timer ch"
  shows "sess_inv (s\<lparr> s_challenge := Some ch \<rparr>)"
  using assms by (auto simp: sess_inv_def events_ok_def split: option.splits)

lemma sess_inv_trigger [simp]:
  "sess_inv (trigger EVENT_CHALLENGE_PROCESSING s) = sess_inv s"
  by (simp add: sess_inv_def events_ok_def trigger_def cong: option.case_cong)

lemma cyber_stop_inv:
  assumes "sess_inv s"
  shows "sess_inv (cyber_stop s)"
proof (cases "s_stop s")
  case True
  thus ?thesis using assms by (simp add: cyber_stop_def)
next
  case False
  have timer: "challenge_ok d r (ch\<lparr> ch_timer := False \<rparr>)" if "challenge_ok d r ch" for d r ch
    using that by (auto simp: challenge_ok_def cong: option.case_cong prod.case_cong)
  have "events_ok (trigger EVENT_CYBER_LOST (s\<lparr> s_stop := True, s_transport_up := False, s_challenge := c \<rparr>))" for c
    using assms False by (simp add: sess_inv_def events_ok_def trigger_def)
  thus ?thesis using assms False
    by (simp add: cyber_stop_def sess_inv_def trigger_def stopTimerResponse_def timer split: option.splits)
qed

lemma sendAllClear_inv:
  assumes "sess_inv s" "sendAllClear E uuid s = Inr (s', ret)"
  shows "sess_inv s'"
proof -
  obtain s1 r1 where m: "sendMessage (e_json E) s (initMessage uuid AllClear) None = Inr (s1, r1)"
    and s': "s' = s1 \<or> s' = s1\<lparr> s_ac_sent := True \<rparr> \<and> \<not> s_ac_rxed s1 \<or>
      s' = trigger EVENT_ALLCLEAR_EXCHANGED (s1\<lparr> s_ac_sent := True \<rparr>) \<and> s_ac_rxed s1"
    using assms(2) by (auto simp: sendAllClear_def Let_def split: if_splits)
  obtain q where "s1 = s\<lparr> s_send_q := q \<rparr>" using sendMessage_effect [OF m] by blast
  hence "sess_inv s1" using assms(1) by simp
  thus ?thesis using s'
    by (auto simp: sess_inv_def events_ok_def trigger_def cong: option.case_cong)
qed

text \<open>What the search of a login leaves: no challenge, or one to be sent for an entry it was shown.\<close>
lemma searchLogin_keeps:
  assumes "case ctx of None \<Rightarrow> True | Some ch \<Rightarrow> challenge_ok d r ch" "auth_dbs_ok d"
    and "auth_id a = (''to'', r, l)" "auth_at d (''to'', r, l) = Some a"
    and "searchLoginForChallenge T now ctx a = (ctx', go)"
  shows "case ctx' of None \<Rightarrow> True | Some ch \<Rightarrow> challenge_ok d r ch"
proof -
  have new: "challenge_ok d r (c\<lparr> ch_auth := Some (''to'', r, l), ch_toSend := True \<rparr>)"
    if "\<not> ch_running c" "\<not> ch_timer c" for c :: challenge
    using that assms(4) by (simp add: challenge_ok_def)
  show ?thesis
  proof (cases ctx)
    case None
    thus ?thesis using assms(3,5) new [of challenge_ctxt_new]
      by (auto simp: searchLoginForChallenge_def Let_def challenge_ctxt_new_def split: if_splits)
  next
    case (Some ch)
    have ok: "challenge_ok d r ch" using assms(1) Some by simp
    show ?thesis
    proof (cases "ch_running ch \<or> ch_toSend ch")
      case True
      hence "ch_auth ch \<noteq> None" using ok by (auto simp: challenge_ok_def split: option.splits)
      thus ?thesis using assms(1,5) Some True
        by (auto simp: searchLoginForChallenge_def Let_def)
    next
      case False
      hence nt: "\<not> ch_timer ch" using ok by (auto simp: challenge_ok_def)
      show ?thesis
      proof (cases "ch_auth ch")
        case None
        thus ?thesis using assms(1,3,5) Some False new [of ch] nt
          by (auto simp: searchLoginForChallenge_def Let_def split: if_splits)
      next
        case (Some i)
        thus ?thesis using assms(3,5) \<open>ctx = Some ch\<close> False new [of challenge_ctxt_new]
          by (auto simp: searchLoginForChallenge_def Let_def challenge_ctxt_new_def
              freeChallengeContext_def split: if_splits)
      qed
    qed
  qed
qed

lemma foreach_loop_keeps:
  assumes "P c" "\<And>c x. P c \<Longrightarrow> x \<in> set xs \<Longrightarrow> P (fst (cb c x))"
  shows "P (fst (ldc_foreach_loop cb c xs))"
  using assms
proof (induction xs arbitrary: c)
  case (Cons x xs)
  have "P (fst (ldc_foreach_loop cb (fst (cb c x)) xs))"
    using Cons.prems by (intro Cons.IH) auto
  thus ?case using Cons.prems by (auto simp: Let_def case_prod_unfold)
qed simp

lemma auth_to_foreach_walk:
  "auth_to_foreach d (Some r) cb c =
    (case sIds_at d (Some ''to'') (Some r) of
       None \<Rightarrow> c
     | Some x \<Rightarrow> fst (ldc_foreach_loop cb c (s_logins x)))"
  by (simp add: auth_to_foreach_def auth_foreach_def auth_foreach_sId_def auth_foreach_login_def
      sIds_at_def auth_to_dbId_def option.case_distrib [of fst] split: option.split cong: option.case_cong)

text \<open>The walk of the TO entries of a site shows entries of the base.\<close>
lemma auth_to_foreach_keeps:
  assumes "auth_dbs_ok d" "P c"
    and "\<And>c a. P c \<Longrightarrow> auth_at d (auth_id a) = Some a \<Longrightarrow> a_dbId a = ''to'' \<Longrightarrow> a_sId a = r \<Longrightarrow>
      P (fst (cb c a))"
  shows "P (auth_to_foreach d (Some r) cb c)"
proof (cases "sIds_at d (Some ''to'') (Some r)")
  case None
  thus ?thesis using assms(2) by (simp add: auth_to_foreach_walk)
next
  case (Some x)
  have ok: "logins_ok ''to'' x" by (rule sIds_at_ok [OF assms(1) Some])
  have nm: "s_sId x = r" by (rule sIds_name [OF Some])
  have "auth_at d (auth_id a) = Some a \<and> a_dbId a = ''to'' \<and> a_sId a = r" if "a \<in> set (s_logins x)" for a
  proof -
    have a: "a_dbId a = ''to''" "a_sId a = r" using ok that nm by (auto simp: logins_ok_def list_all_iff)
    have "find (\<lambda>z. a_login z = a_login a) (s_logins x) = Some a"
      by (rule find_member [where key = a_login]) (use ok that in \<open>simp_all add: logins_ok_def\<close>)
    thus ?thesis using a Some by (simp add: auth_at_def auth_login_find_def auth_find_def auth_id_def)
  qed
  hence "P (fst (cb c a))" if "P c" "a \<in> set (s_logins x)" for c a
    using assms(3) [OF that(1)] that(2) by blast
  hence "P (fst (ldc_foreach_loop cb c (s_logins x)))"
    using foreach_loop_keeps [where P = P and cb = cb, OF assms(2)] by blast
  thus ?thesis by (simp add: auth_to_foreach_walk Some)
qed

lemma challenge_of_inv:
  "sess_inv s \<Longrightarrow> s_challenge s = Some ch \<Longrightarrow> s_remote s = Some r \<Longrightarrow> challenge_ok (s_dbs s) r ch"
  by (auto simp: sess_inv_def split: option.splits)

lemma sess_inv_parts:
  assumes "sess_inv s"
  obtains r l c where "s_remote s = Some r" "s_local s = Some l" "s_cipher s = Some c" "auth_dbs_ok (s_dbs s)"
  using assms by (auto simp: sess_inv_def split: option.splits)

lemma sess_inv_dbs_challenge:
  assumes "sess_inv s" "auth_dbs_ok d" "\<And>r. s_remote s = Some r \<Longrightarrow> challenge_ok d r ch"
    "s_stop s \<Longrightarrow> \<not> ch_timer ch"
  shows "sess_inv (s\<lparr> s_dbs := d, s_challenge := Some ch \<rparr>)"
  using assms by (auto simp: sess_inv_def events_ok_def split: option.splits)

lemma sendChallenge_inv:
  assumes inv: "sess_inv s" and ch: "s_challenge s = Some ch" "ch_toSend ch" and "\<not> s_stop s"
    and run: "sendChallenge E t ch s = Inr (s', ret)"
  shows "sess_inv s'"
proof -
  obtain r l c where v: "s_remote s = Some r" "s_local s = Some l" "s_cipher s = Some c" "auth_dbs_ok (s_dbs s)"
    by (rule sess_inv_parts [OF inv])
  have ok: "challenge_ok (s_dbs s) r ch" by (rule challenge_of_inv [OF inv ch(1) v(1)])
  then obtain lg a where id: "ch_auth ch = Some (''to'', r, lg)" "auth_at (s_dbs s) (''to'', r, lg) = Some a"
    "\<not> ch_running ch" "\<not> ch_timer ch"
    using ch(2) by (auto simp: challenge_ok_def split: option.splits)
  obtain d1 ch1 res where enc: "Challenge_encode (e_json E) (e_evp E) (e_times E) (e_pos E) (tn_draws t) (s_dbs s)
      ch (s_cipher s) (s_local s) (Some lg) (Some r) = Inr (d1, ch1, res)"
    using run id v by (auto simp: sendChallenge_def)
  note eff = Challenge_encode_effect [OF v(4) id(2) enc]
  have ok1: "auth_dbs_ok d1" using eff v(4) by (simp add: keys_step_def)
  have at1: "auth_at d1 (''to'', r, lg) \<noteq> None" using eff v(4) id(2) by (auto simp: keys_step_def)
  show ?thesis
  proof (cases res)
    case (Inl err)
    have "ch_auth ch1 = Some (''to'', r, lg)" using eff id(1) by auto
    hence "challenge_ok d1 r ch1"
      using eff Inl id(3,4) at1 by (auto simp: challenge_ok_def)
    hence "sess_inv (s\<lparr> s_dbs := d1, s_challenge := Some ch1 \<rparr>)"
      using v(1) assms(4) by (intro sess_inv_dbs_challenge [OF inv ok1]) auto
    thus ?thesis using run id v enc Inl by (simp add: sendChallenge_def Let_def)
  next
    case (Inr payload)
    have sent: "ch_mIdRequest ch1 \<noteq> None" "ch_mIdPing ch1 \<noteq> None" "ch_auth ch1 = Some (''to'', r, lg)"
      using eff Inr by auto
    obtain a' where a': "auth_at d1 (''to'', r, lg) = Some a'" "a_active a'" "a_new_pwd_pending a'"
      using challenge_sent [OF v(4) enc [unfolded Inr]] sent(3) by auto
    let ?ch = "ch1\<lparr> ch_running := True, ch_toSend := False, ch_timer := tn_timer t \<rparr>"
    have "challenge_ok d1 r ?ch" using sent a' by (simp add: challenge_ok_def)
    hence "sess_inv (s\<lparr> s_dbs := d1, s_challenge := Some ?ch \<rparr>)"
      using v(1) assms(4) by (intro sess_inv_dbs_challenge [OF inv ok1]) auto
    moreover obtain q where "s' = s\<lparr> s_dbs := d1, s_send_q := q, s_challenge := Some ?ch \<rparr>"
      using run id v enc Inr sent(3)
      by (auto simp: sendChallenge_def Let_def send_optional_encryption_def launchTimerResponse_def split: if_splits)
    hence "s' = (s\<lparr> s_dbs := d1, s_challenge := Some ?ch \<rparr>)\<lparr> s_send_q := q \<rparr>" by simp
    ultimately show ?thesis by simp
  qed
qed

lemma choose_login_inv:
  assumes inv: "sess_inv s" and "\<not> s_stop s"
  shows "sess_inv (choose_login E t s)"
proof -
  obtain r l c where v: "s_remote s = Some r" "s_local s = Some l" "s_cipher s = Some c" "auth_dbs_ok (s_dbs s)"
    by (rule sess_inv_parts [OF inv])
  let ?search = "searchLoginForChallenge (e_times E) (dr_now (tn_draws t))"
  let ?P = "\<lambda>ctx. case ctx of None \<Rightarrow> True | Some ch \<Rightarrow> challenge_ok (s_dbs s) r ch"
  have "?P (auth_to_foreach (s_dbs s) (Some r) ?search (s_challenge s))"
  proof (rule auth_to_foreach_keeps [where P = ?P, OF v(4)])
    show "?P (s_challenge s)" using challenge_of_inv [OF inv _ v(1)] by (auto split: option.split)
    fix c a
    assume a: "?P c" "auth_at (s_dbs s) (auth_id a) = Some a" "a_dbId a = ''to''" "a_sId a = r"
    hence id: "auth_id a = (''to'', r, a_login a)" by (simp add: auth_id_def)
    show "?P (fst (?search c a))"
      by (rule searchLogin_keeps [OF a(1) v(4) id]) (use a(2) id in \<open>simp_all add: prod_eq_iff\<close>)
  qed
  thus ?thesis using inv v assms(2)
    by (auto simp: choose_login_def sess_inv_def events_ok_def split: option.splits)
qed

lemma choose_login_stop [simp]: "s_stop (choose_login E t s) = s_stop s"
  by (simp add: choose_login_def)

text \<open>What follows the choice: \<open>AllClear\<close>, the challenge, or nothing.\<close>
lemma initiateChallenge_cases [consumes 1, case_names Same Clear Challenge]:
  assumes "initiateChallenge E t s = Inr (s', ret)"
  obtains "s' = choose_login E t s"
  | "challenge_idle (s_challenge (choose_login E t s))"
    "sendAllClear E (tn_uuid_clear t) (choose_login E t s) = Inr (s', ret)"
  | ch where "s_challenge (choose_login E t s) = Some ch" "ch_toSend ch"
    "sendChallenge E t ch (choose_login E t s) = Inr (s', ret)"
  using assms unfolding initiateChallenge_def Let_def by (auto split: if_splits option.splits)

lemma initiateChallenge_inv:
  assumes inv: "sess_inv s" and "\<not> s_stop s" and run: "initiateChallenge E t s = Inr (s', ret)"
  shows "sess_inv s'"
  using run
proof (cases rule: initiateChallenge_cases)
  case Clear
  thus ?thesis using sendAllClear_inv [OF choose_login_inv [OF assms(1,2)]] by blast
next
  case (Challenge ch)
  thus ?thesis using sendChallenge_inv [OF choose_login_inv [OF assms(1,2)]] assms(2) by auto
qed (use choose_login_inv [OF assms(1,2)] in simp)

lemma change_password_effect:
  assumes "change_password now s from pwd = Inr (s', st)" "auth_dbs_ok (s_dbs s)"
  shows "\<exists>d. s' = s\<lparr> s_dbs := d \<rparr> \<and> to_kept (s_dbs s) d"
proof -
  obtain ident a where f: "from = Some ident" "auth_at (s_dbs s) ident = Some a"
    using assms(1) by (auto simp: change_password_def split: option.splits)
  obtain a1 ret where set: "auth_set_pwd_b64 now a pwd = Inr (a1, ret)"
    using assms(1) f by (auto simp: change_password_def)
  show ?thesis
  proof (cases "ret = E_no_error")
    case False
    hence "s' = s\<lparr> s_dbs := s_dbs s \<rparr>" using assms(1) f set by (simp add: change_password_def)
    thus ?thesis using to_kept_refl by blast
  next
    case True
    have a1: "auth_id a1 = auth_id a" "auth_from_is a"
      using set True by (auto simp: auth_set_pwd_b64_def auth_id_def split: if_splits option.splits)
    have id: "auth_id a = ident" by (rule auth_at_ok [OF assms(2) f(2)])
    have "fst ident = ''from''"
      using a1(2) id by (auto simp: auth_from_is_def auth_db_is_def auth_from_dbId_def auth_id_def)
    hence k: "to_kept (s_dbs s) (put_auth (s_dbs s) a1)"
      using put_from_kept [OF f(2)] a1(1) id by simp
    obtain s1 where p: "purge_secret (put_session_auth s a1) ident = Inr s1" "s' = s1"
      using assms(1) f set True by (auto simp: change_password_def)
    obtain d where "s1 = (put_session_auth s a1)\<lparr> s_dbs := d \<rparr>" "secrets_step (put_auth (s_dbs s) a1) d"
      using purge_secrets [OF p(1)] by (auto simp: put_session_auth_def)
    thus ?thesis using p(2) to_kept_trans [OF k secrets_to_kept] by (auto simp: put_session_auth_def)
  qed
qed

lemma handle_request_inv:
  assumes inv: "sess_inv s" and run: "handle_request E t s from mId pwd = Inr (s', ret)"
  shows "sess_inv s'"
proof -
  have ok: "auth_dbs_ok (s_dbs s)" using inv by (simp add: sess_inv_def)
  obtain s1 st where c: "(if change_pwd_busy s then Inr (s, False)
      else change_password (dr_now (tn_draws t)) s from pwd) = Inr (s1, st)"
    using run by (auto simp: handle_request_def)
  have "sess_inv s1"
    using c inv by (auto split: if_splits dest!: change_password_effect [OF _ ok] intro: sess_inv_dbs [OF inv])
  moreover obtain s2 r2 where "sendMessage (e_json E) s1
      ((initMessage (tn_uuid t) (ChangePwdResponse False []))\<lparr> m_body := ChangePwdResponse st mId \<rparr>) None =
      Inr (s2, r2)" "s' = s2"
    using run c by (auto simp: handle_request_def)
  ultimately show ?thesis using sendMessage_effect by fastforce
qed

text \<open>While a challenge runs, the switch to the new password cannot fail.\<close>
lemma switch_password_runs:
  assumes "auth_dbs_ok (s_dbs s)" "challenge_ok (s_dbs s) r ch" "ch_running ch"
    and "switch_password now s ch0 = Inr (s', ret)" "ch_auth ch0 = ch_auth ch"
  shows "\<exists>d. s' = s\<lparr> s_dbs := d \<rparr> \<and> keys_step (s_dbs s) d \<and> ret = E_no_error"
proof -
  obtain l a where id: "ch_auth ch = Some (''to'', r, l)" "auth_at (s_dbs s) (''to'', r, l) = Some a"
    "a_active a" "a_new_pwd_pending a"
    using assms(2,3) by (auto simp: challenge_ok_def split: option.splits)
  obtain a1 r1 where sw: "auth_switch_to_new_pwd now a = Inr (a1, r1)"
    using assms(4,5) id by (auto simp: switch_password_def)
  have a1: "auth_id a1 = auth_id a" "r1 = E_no_error"
    using sw id(3,4) by (auto simp: auth_switch_to_new_pwd_def auth_forget_new_pwd_def auth_id_def auth_to_is_def
        auth_db_is_def split: if_splits option.splits)
  have "auth_id a = (''to'', r, l)" by (rule auth_at_ok [OF assms(1) id(2)])
  hence k: "keys_step (s_dbs s) (put_auth (s_dbs s) a1)" using put_auth_keys [of _ a a a1] id(2) a1(1) by simp
  obtain s1 where p: "purge_secret (put_session_auth s a1) (''to'', r, l) = Inr s1" "s' = s1" "ret = E_no_error"
    using assms(4,5) id sw a1(2) by (auto simp: switch_password_def Let_def)
  obtain d where "s1 = (put_session_auth s a1)\<lparr> s_dbs := d \<rparr>" "secrets_step (put_auth (s_dbs s) a1) d"
    using purge_secrets [OF p(1)] by (auto simp: put_session_auth_def)
  thus ?thesis using p(2,3) keys_step_trans [OF k secrets_keys] by (auto simp: put_session_auth_def)
qed

lemma next_challenge_inv:
  assumes inv: "sess_inv (s\<lparr> s_challenge := Some (ch\<lparr> ch_running := False, ch_response := resp \<rparr>) \<rparr>)"
    and "\<not> s_stop s" "next_challenge E t ch resp s = Inr (s', ret)"
  shows "sess_inv s'"
proof (rule initiateChallenge_inv)
  show "initiateChallenge E t (trigger EVENT_CHALLENGE_PROCESSING
      (s\<lparr> s_challenge := Some (ch\<lparr> ch_running := False, ch_response := resp \<rparr>) \<rparr>)) = Inr (s', ret)"
    using assms(3) by (simp add: next_challenge_def)
  show "sess_inv (trigger EVENT_CHALLENGE_PROCESSING
      (s\<lparr> s_challenge := Some (ch\<lparr> ch_running := False, ch_response := resp \<rparr>) \<rparr>))"
    using inv by simp
  show "\<not> s_stop (trigger EVENT_CHALLENGE_PROCESSING
      (s\<lparr> s_challenge := Some (ch\<lparr> ch_running := False, ch_response := resp \<rparr>) \<rparr>))"
    using assms(2) by (simp add: trigger_def)
qed

text \<open>The end of a running challenge once the base is known.\<close>
lemma challenge_ends:
  assumes inv: "sess_inv s" and ch: "s_challenge s = Some ch" "ch_running ch" and "keys_step (s_dbs s) d"
  shows "sess_inv (s\<lparr> s_dbs := d, s_challenge := Some (ch\<lparr> ch_timer := False, ch_running := False, ch_response := resp \<rparr>) \<rparr>)"
proof (rule sess_inv_dbs_challenge [OF inv])
  show "auth_dbs_ok d" using inv assms(4) by (simp add: sess_inv_def keys_step_def)
  fix r assume r: "s_remote s = Some r"
  show "challenge_ok d r (ch\<lparr> ch_timer := False, ch_running := False, ch_response := resp \<rparr>)"
    using challenge_of_inv [OF inv ch(1) r] ch(2) by (simp add: challenge_ok_def)
qed simp

lemma handle_response_inv:
  assumes inv: "sess_inv s" and "\<not> s_stop s" and run: "handle_response E t s status oMId = Inr (s', ret)"
  shows "sess_inv s'"
proof (cases "\<exists>ch. s_challenge s = Some ch \<and> ch_running ch \<and> ch_mIdRequest ch = Some oMId")
  case False
  hence "s' = s" using run
    by (cases "s_challenge s") (auto simp: handle_response_def split: option.splits if_splits simp del: rbind_Inr_iff)
  thus ?thesis using inv by simp
next
  case True
  then obtain ch where ch: "s_challenge s = Some ch" "ch_running ch" "ch_mIdRequest ch = Some oMId" by blast
  obtain r where r: "s_remote s = Some r" "auth_dbs_ok (s_dbs s)" by (rule sess_inv_parts [OF inv])
  note ok = challenge_of_inv [OF inv ch(1) r(1)]
  show ?thesis
  proof (cases status)
    case False
    have "sess_inv (s\<lparr> s_challenge := Some (ch\<lparr> ch_timer := False, ch_running := False, ch_response := Resp_busy \<rparr>) \<rparr>)"
      using challenge_ends [OF inv ch(1,2) keys_step_refl, of Resp_busy] by simp
    moreover have "next_challenge E t (ch\<lparr> ch_timer := False \<rparr>) Resp_busy s = Inr (s', ret)"
      using run ch False by (simp add: handle_response_def Let_def)
    ultimately show ?thesis by (rule next_challenge_inv [OF _ assms(2)])
  next
    case True
    let ?ch = "ch\<lparr> ch_timer := False, ch_response := Resp_success \<rparr>"
    obtain s1 r1 where sw: "switch_password (dr_now (tn_draws t)) (s\<lparr> s_challenge := Some ?ch \<rparr>) ?ch = Inr (s1, r1)"
      using run ch True by (auto simp: handle_response_def Let_def)
    obtain d where d: "s1 = s\<lparr> s_challenge := Some ?ch, s_dbs := d \<rparr>" "keys_step (s_dbs s) d" "r1 = E_no_error"
      using switch_password_runs [OF _ _ ch(2) sw, of r] ok r(2) by auto
    have "sess_inv (s1\<lparr> s_challenge := Some (?ch\<lparr> ch_running := False, ch_response := Resp_success \<rparr>) \<rparr>)"
      using challenge_ends [OF inv ch(1,2) d(2), of Resp_success] d(1) by simp
    moreover have "\<not> s_stop s1" using assms(2) d(1) by simp
    moreover have "next_challenge E t ?ch Resp_success s1 = Inr (s', ret)"
      using run ch True sw d(3) by (simp add: handle_response_def Let_def)
    ultimately show ?thesis by (rule next_challenge_inv)
  qed
qed

lemma handle_pong_inv:
  assumes inv: "sess_inv s" and "\<not> s_stop s" and run: "handle_pong E t s oMId = Inr (s', ret)"
  shows "sess_inv s'"
proof (cases "\<exists>ch. s_challenge s = Some ch \<and> ch_running ch \<and> ch_mIdPing ch = Some oMId")
  case False
  hence "s' = s" using run
    by (cases "s_challenge s") (auto simp: handle_pong_def split: option.splits if_splits simp del: rbind_Inr_iff)
  thus ?thesis using inv by simp
next
  case True
  then obtain ch where ch: "s_challenge s = Some ch" "ch_running ch" "ch_mIdPing ch = Some oMId" by blast
  obtain r where r: "s_remote s = Some r" "auth_dbs_ok (s_dbs s)" by (rule sess_inv_parts [OF inv])
  note ok = challenge_of_inv [OF inv ch(1) r(1)]
  let ?ch = "ch\<lparr> ch_timer := False \<rparr>"
  obtain s1 r1 where sw: "switch_password (dr_now (tn_draws t)) (s\<lparr> s_challenge := Some ?ch \<rparr>) ?ch = Inr (s1, r1)"
    using run ch by (auto simp: handle_pong_def Let_def)
  obtain d where d: "s1 = s\<lparr> s_challenge := Some ?ch, s_dbs := d \<rparr>" "keys_step (s_dbs s) d" "r1 = E_no_error"
    using switch_password_runs [OF _ _ ch(2) sw, of r] ok r(2) by auto
  have "sess_inv (s1\<lparr> s_challenge := Some (?ch\<lparr> ch_running := False, ch_response := Resp_success \<rparr>) \<rparr>)"
    using challenge_ends [OF inv ch(1,2) d(2), of Resp_success] d(1) by simp
  moreover have "\<not> s_stop s1" using assms(2) d(1) by simp
  moreover have "next_challenge E t ?ch Resp_success s1 = Inr (s', ret)"
    using run ch sw d(3) by (simp add: handle_pong_def Let_def)
  ultimately show ?thesis by (rule next_challenge_inv)
qed

lemma process_msg_cases [consumes 1, case_names Ignored Clear Request Response Ping Pong]:
  assumes "cyber_process_internal_msg E t s from msg = Inr (s', ret)"
  obtains "s' = s" "ret = Some C_generic"
  | "s' = (let s1 = s\<lparr> s_ac_rxed := True \<rparr> in if s_ac_sent s then trigger EVENT_ALLCLEAR_EXCHANGED s1 else s1)"
  | m p where "msg = Some m" "m_body m = ChangePwdRequest (Some p)"
      "handle_request E t s from (m_mId m) p = Inr (s', ret)"
  | m st oMId where "msg = Some m" "m_body m = ChangePwdResponse st oMId"
      "handle_response E t s st oMId = Inr (s', ret)"
  | m pad where "msg = Some m" "m_body m = Ping pad" "handle_ping E t s (m_mId m) pad = Inr (s', ret)"
  | m oMId pad where "msg = Some m" "m_body m = Pong oMId pad" "handle_pong E t s oMId = Inr (s', ret)"
proof -
  obtain ok where ok: "messageCheckFields msg = Inr ok"
    using assms by (auto simp: cyber_process_internal_msg_def)
  show thesis
  proof (cases "msg = None \<or> \<not> ok")
    case True
    hence "s' = s \<and> ret = Some C_generic"
      using assms ok by (cases msg) (auto simp: cyber_process_internal_msg_def)
    thus thesis using that(1) by blast
  next
    case False
    then obtain m where m: "msg = Some m" "ok" by auto
    have ok1: "messageCheckFields (Some m) = Inr True" using ok m by simp
    note run = assms [unfolded m(1) cyber_process_internal_msg_def ok1 rbind.simps option.case]
    show thesis
    proof (cases "m_body m")
      case (ChangePwdRequest pwd)
      thus thesis using that(3) [OF m(1)] run by (cases pwd) auto
    next
      case AllClear
      thus thesis using that(2) run by (auto simp: Let_def)
    qed (use that(1) that(4-6) [OF m(1)] run in auto)
  qed
qed

lemma cyber_process_internal_msg_inv:
  assumes run: "cyber_process_internal_msg E t s from msg = Inr (s', ret)" and inv: "sess_inv s" and "\<not> s_stop s"
  shows "sess_inv s'"
  using run
proof (cases rule: process_msg_cases)
  case Clear
  thus ?thesis using inv
    by (auto simp: sess_inv_def events_ok_def trigger_def Let_def cong: option.case_cong)
next
  case Ping
  thus ?thesis using inv by (auto simp: handle_ping_def dest!: sendMessage_effect)
next
  case (Request m p)
  thus ?thesis by (intro handle_request_inv [OF inv])
next
  case (Response m st oMId)
  thus ?thesis by (intro handle_response_inv [OF inv assms(3)])
next
  case (Pong m oMId pad)
  thus ?thesis by (intro handle_pong_inv [OF inv assms(3)])
qed (use inv in simp)

section \<open>What no operation of the securing layer touches\<close>

definition frame :: "session \<Rightarrow> session \<Rightarrow> bool" where
  "frame s s' \<longleftrightarrow> s_stop s' = s_stop s \<and> s_local s' = s_local s \<and> s_remote s' = s_remote s \<and>
    s_cipher s' = s_cipher s \<and> s_external_q s' = s_external_q s \<and> s_wire s' = s_wire s"

lemma frame_refl [simp]: "frame s s"
  by (simp add: frame_def)

lemma frame_trans: "frame s s1 \<Longrightarrow> frame s1 s2 \<Longrightarrow> frame s s2"
  by (simp add: frame_def)

lemma frame_updates [simp]:
  "frame s (s1\<lparr> s_dbs := d \<rparr>) = frame s s1" "frame s (s1\<lparr> s_challenge := c \<rparr>) = frame s s1"
  "frame s (s1\<lparr> s_send_q := q \<rparr>) = frame s s1" "frame s (s1\<lparr> s_ac_sent := b \<rparr>) = frame s s1"
  "frame s (s1\<lparr> s_ac_rxed := b \<rparr>) = frame s s1" "frame s (trigger ev s1) = frame s s1"
  "frame (s1\<lparr> s_dbs := d \<rparr>) s = frame s1 s" "frame (s1\<lparr> s_challenge := c \<rparr>) s = frame s1 s"
  "frame (s1\<lparr> s_ac_rxed := b \<rparr>) s = frame s1 s" "frame (trigger ev s1) s = frame s1 s"
  by (simp_all add: frame_def trigger_def)

lemma sendMessage_frame: "sendMessage J s m login = Inr (s', ret) \<Longrightarrow> frame s s'"
  by (auto dest!: sendMessage_effect)

lemma sendAllClear_frame: "sendAllClear E uuid s = Inr (s', ret) \<Longrightarrow> frame s s'"
  by (auto simp: sendAllClear_def Let_def dest!: sendMessage_frame split: if_splits)

lemma sendChallenge_frame:
  assumes "sendChallenge E t ch s = Inr (s', ret)"
  shows "frame s s'"
proof -
  obtain ident where i: "ch_auth ch = Some ident"
    using assms by (auto simp: sendChallenge_def split: option.splits)
  then obtain d1 ch1 res where e: "Challenge_encode (e_json E) (e_evp E) (e_times E) (e_pos E) (tn_draws t) (s_dbs s)
      ch (s_cipher s) (s_local s) (Some (snd (snd ident))) (s_remote s) = Inr (d1, ch1, res)"
    using assms by (auto simp: sendChallenge_def)
  show ?thesis using assms i e
    by (cases res) (auto simp: sendChallenge_def Let_def send_optional_encryption_def launchTimerResponse_def
        split: option.splits if_splits)
qed

lemma initiateChallenge_frame:
  assumes "initiateChallenge E t s = Inr (s', ret)"
  shows "frame s s'"
proof -
  have c: "frame s (choose_login E t s)" by (simp add: choose_login_def)
  show ?thesis using assms
    by (cases rule: initiateChallenge_cases)
      (use c frame_trans [OF c] sendAllClear_frame sendChallenge_frame in blast)+
qed

lemma purge_frame: "purge_secret s ident = Inr s' \<Longrightarrow> frame s s'"
  by (auto dest!: purge_secrets)

lemma switch_password_frame: "switch_password now s ch = Inr (s', ret) \<Longrightarrow> frame s s'"
  by (auto simp: switch_password_def Let_def put_session_auth_def dest!: purge_frame
      split: option.splits if_splits)

lemma next_challenge_frame: "next_challenge E t ch resp s = Inr (s', ret) \<Longrightarrow> frame s s'"
  by (auto simp: next_challenge_def dest!: initiateChallenge_frame)

lemma change_password_frame: "change_password now s from pwd = Inr (s', st) \<Longrightarrow> frame s s'"
  by (auto simp: change_password_def put_session_auth_def dest!: purge_frame split: option.splits if_splits)

lemma handle_request_frame: "handle_request E t s from mId pwd = Inr (s', ret) \<Longrightarrow> frame s s'"
  by (auto simp: handle_request_def dest!: change_password_frame sendMessage_frame intro: frame_trans
      split: if_splits)

lemma handle_response_frame: "handle_response E t s status oMId = Inr (s', ret) \<Longrightarrow> frame s s'"
  by (auto simp: handle_response_def Let_def dest!: next_challenge_frame switch_password_frame
      intro: frame_trans split: option.splits if_splits)

lemma handle_pong_frame: "handle_pong E t s oMId = Inr (s', ret) \<Longrightarrow> frame s s'"
  by (auto simp: handle_pong_def Let_def dest!: next_challenge_frame switch_password_frame
      intro: frame_trans split: option.splits if_splits)

lemma handle_ping_frame: "handle_ping E t s mId pad = Inr (s', ret) \<Longrightarrow> frame s s'"
  by (auto simp: handle_ping_def dest!: sendMessage_frame)

lemma cyber_process_internal_msg_frame:
  assumes "cyber_process_internal_msg E t s from msg = Inr (s', ret)"
  shows "frame s s'"
  using assms by (cases rule: process_msg_cases)
    (auto simp: Let_def dest: handle_request_frame handle_response_frame handle_pong_frame handle_ping_frame)

section \<open>Steps\<close>

lemma dispatch_effect: "\<exists>iq eq. dispatch from s p = s\<lparr> s_internal_q := iq, s_external_q := eq \<rparr>"
proof -
  have upd: "?thesis" if "dispatch from s p = s\<lparr> s_internal_q := iq, s_external_q := eq \<rparr>" for iq eq
    using that by blast
  show ?thesis
  proof (cases "p_original p")
    case None
    thus ?thesis
      by (intro upd [where iq = "s_internal_q s" and eq = "s_external_q s"]) (simp add: dispatch_def)
  next
    case (Some m)
    show ?thesis
    proof (cases "p_class p")
      case Cl_internal
      thus ?thesis using Some
        by (intro upd [where iq = "s_internal_q s @ [(m, from)]" and eq = "s_external_q s"]) (simp add: dispatch_def)
    next
      case Cl_external
      thus ?thesis using Some
        by (intro upd [where iq = "s_internal_q s" and eq = "s_external_q s @ [(m, from)]"]) (simp add: dispatch_def)
    next
      case Cl_unknown
      thus ?thesis using Some
        by (intro upd [where iq = "s_internal_q s" and eq = "s_external_q s"]) (simp add: dispatch_def)
    qed
  qed
qed

lemma dispatch_all_effect:
  "\<exists>iq eq. foldl (dispatch from) s ps = s\<lparr> s_internal_q := iq, s_external_q := eq \<rparr>"
proof (induction ps arbitrary: s)
  case Nil
  have "s = s\<lparr> s_internal_q := s_internal_q s, s_external_q := s_external_q s \<rparr>" by simp
  thus ?case by (metis foldl_Nil)
next
  case (Cons p ps)
  obtain iq eq where d: "dispatch from s p = s\<lparr> s_internal_q := iq, s_external_q := eq \<rparr>"
    using dispatch_effect by blast
  obtain iq' eq' where "foldl (dispatch from) (dispatch from s p) ps =
      (dispatch from s p)\<lparr> s_internal_q := iq', s_external_q := eq' \<rparr>"
    using Cons.IH by blast
  hence "foldl (dispatch from) s (p # ps) = s\<lparr> s_internal_q := iq', s_external_q := eq' \<rparr>"
    by (simp add: d)
  thus ?case by blast
qed

text \<open>What is received goes to the queues, and may fill secrets in; a broken or silent transport
  stops the session.\<close>
lemma receive_task_effect:
  assumes "receive_task E now silent received s = Inr s'"
  shows "s' = s \<or> s' = cyber_stop s \<or>
    (\<exists>d iq eq. s' = s\<lparr> s_dbs := d, s_internal_q := iq, s_external_q := eq \<rparr> \<and> secrets_step (s_dbs s) d)"
proof (cases received)
  case (Inl err)
  thus ?thesis using assms by (auto simp: receive_task_def split: if_splits)
next
  case (Inr payload)
  then obtain d r ps a where dec: "Encrypted_decode (e_json E) (e_evp E) (e_times E) (e_pos E) (e_window E) now
      (s_dbs s) (s_cipher s) (case s_local s of None \<Rightarrow> [] | Some l \<Rightarrow> l) (Some payload) None = Inr (d, r, ps, a)"
    and s': "s' = foldl (dispatch (map_option auth_id a)) (s\<lparr> s_dbs := d \<rparr>) ps"
    using assms by (auto simp: receive_task_def)
  show ?thesis
    using s' Encrypted_decode_secrets [OF dec] dispatch_all_effect [of "map_option auth_id a" "s\<lparr> s_dbs := d \<rparr>" ps]
    by auto
qed

lemma receive_task_inv:
  assumes inv: "sess_inv s" and run: "receive_task E now silent received s = Inr s'"
  shows "sess_inv s'"
proof -
  have "sess_inv (s\<lparr> s_dbs := d, s_internal_q := iq, s_external_q := eq \<rparr>)" if "secrets_step (s_dbs s) d" for d iq eq
    using sess_inv_dbs [OF inv secrets_to_kept [OF that]] by simp
  thus ?thesis using receive_task_effect [OF run] inv cyber_stop_inv [OF inv] by auto
qed

lemma internal_task_parts:
  assumes run: "internal_task E t t' s = Inr s'"
  obtains s3 ret where "initiateChallenge E t' s3 = Inr (s', ret)"
    "s3 = s \<or> (\<exists>q. s3 = s\<lparr> s_internal_q := q \<rparr>) \<or>
      (\<exists>q from m r. cyber_process_internal_msg E t (s\<lparr> s_internal_q := q \<rparr>) from m = Inr (s3, r))"
proof (cases "s_internal_q s")
  case Nil
  thus thesis using run that by (auto simp: internal_task_def)
next
  case (Cons h rest)
  obtain input src where h: "h = (input, src)" by (cases h)
  let ?s1 = "s\<lparr> s_internal_q := rest \<rparr>"
  obtain des where d: "deserializeMessage (e_json E) (Some input) = Inr des"
    using run Cons h by (cases "deserializeMessage (e_json E) (Some input)") (simp_all add: internal_task_def)
  show thesis
  proof (cases des)
    case (Inl err)
    hence "\<exists>ret. initiateChallenge E t' ?s1 = Inr (s', ret)"
      using run Cons h d by (auto simp: internal_task_def Let_def)
    thus thesis using that by blast
  next
    case (Inr m)
    then obtain s3 r ret where "cyber_process_internal_msg E t ?s1 src (Some m) = Inr (s3, r)"
      "initiateChallenge E t' s3 = Inr (s', ret)"
      using run Cons h d by (auto simp: internal_task_def Let_def)
    thus thesis using that by blast
  qed
qed

lemma internal_task_inv:
  assumes inv: "sess_inv s" and "\<not> s_stop s" and run: "internal_task E t t' s = Inr s'"
  shows "sess_inv s'"
proof -
  obtain s3 ret where s3: "initiateChallenge E t' s3 = Inr (s', ret)"
    and pre: "s3 = s \<or> (\<exists>q. s3 = s\<lparr> s_internal_q := q \<rparr>) \<or>
      (\<exists>q from m r. cyber_process_internal_msg E t (s\<lparr> s_internal_q := q \<rparr>) from m = Inr (s3, r))"
    by (rule internal_task_parts [OF run])
  have "sess_inv s3 \<and> \<not> s_stop s3"
  proof (cases "\<exists>q from m r. cyber_process_internal_msg E t (s\<lparr> s_internal_q := q \<rparr>) from m = Inr (s3, r)")
    case True
    then obtain q src m r where p: "cyber_process_internal_msg E t (s\<lparr> s_internal_q := q \<rparr>) src m = Inr (s3, r)"
      by blast
    have "sess_inv s3" by (rule cyber_process_internal_msg_inv [OF p]) (use assms in simp_all)
    thus ?thesis using cyber_process_internal_msg_frame [OF p] assms(2) by (simp add: frame_def)
  next
    case False
    thus ?thesis using pre inv assms(2) by auto
  qed
  thus ?thesis using initiateChallenge_inv s3 by blast
qed

lemma Encrypted_write_effect:
  assumes run: "Encrypted_write E now uuid s login buf = Inr (s', ret)"
  shows "\<exists>d w. s' = s\<lparr> s_dbs := d, s_wire := w \<rparr> \<and> secrets_step (s_dbs s) d"
proof -
  have upd: ?thesis if "s' = s\<lparr> s_dbs := d, s_wire := w \<rparr>" "secrets_step (s_dbs s) d" for d w
    using that by blast
  obtain l where l: "s_local s = Some l" using run by (cases "s_local s") (simp_all add: Encrypted_write_def)
  obtain r1 p where p: "ptxt_set now ptxt_null None (Some buf) = (r1, p)"
    by (cases "ptxt_set now ptxt_null None (Some buf)")
  show ?thesis
  proof (cases "s_cipher s = None \<or> s_remote s = None \<or> r1 \<noteq> E_no_error")
    case True
    hence "s' = s" using run l p by (cases "s_cipher s"; cases "s_remote s") (simp_all add: Encrypted_write_def)
    thus ?thesis by (intro upd [where d = "s_dbs s" and w = "s_wire s"]) simp_all
  next
    case False
    then obtain c r where v: "s_cipher s = Some c" "s_remote s = Some r" "r1 = E_no_error" by auto
    let ?enc = "Encrypted_encode (e_json E) (e_evp E) (e_times E) (e_pos E) uuid (s_dbs s) (Some c) (Some l) login
        (Some r) [p]"
    obtain d res where e: "?enc = Inr (d, res)" using run l p v by (auto simp: Encrypted_write_def)
    note k = Encrypted_encode_secrets [OF e]
    show ?thesis
    proof (cases res)
      case (Inl err)
      hence "s' = s\<lparr> s_dbs := d \<rparr>" using run l p v e by (simp add: Encrypted_write_def)
      hence "s' = s\<lparr> s_dbs := d, s_wire := s_wire s \<rparr>" by simp
      thus ?thesis using k by (rule upd)
    next
      case (Inr request)
      hence "s' = s\<lparr> s_dbs := d, s_wire := s_wire s @ [request] \<rparr>"
        using run l p v e by (simp add: Encrypted_write_def)
      thus ?thesis using k by (rule upd)
    qed
  qed
qed

lemma send_task_effect:
  assumes run: "send_task E now uuid s = Inr s'"
  shows "\<exists>q d w. s' = s\<lparr> s_dbs := d, s_send_q := q, s_wire := w \<rparr> \<and> secrets_step (s_dbs s) d"
proof -
  have upd: ?thesis if "s' = s\<lparr> s_dbs := d, s_send_q := q, s_wire := w \<rparr>" "secrets_step (s_dbs s) d" for d q w
    using that by blast
  show ?thesis
  proof (cases "s_send_q s")
    case Nil
    thus ?thesis using run
      by (intro upd [where d = "s_dbs s" and q = "s_send_q s" and w = "s_wire s"]) (simp_all add: send_task_def)
  next
    case (Cons m rest)
    show ?thesis
    proof (cases "o_encrypt m")
      case False
      thus ?thesis using run Cons
        by (intro upd [where d = "s_dbs s" and q = rest and w = "s_wire s @ [o_buf m]"]) (simp_all add: send_task_def)
    next
      case True
      then obtain ret where "Encrypted_write E now uuid (s\<lparr> s_send_q := rest \<rparr>) (o_login m) (o_buf m) = Inr (s', ret)"
        using run Cons by (auto simp: send_task_def Let_def)
      from Encrypted_write_effect [OF this] obtain d w where
        "s' = s\<lparr> s_send_q := rest, s_dbs := d, s_wire := w \<rparr>" "secrets_step (s_dbs s) d" by auto
      thus ?thesis by (intro upd [where d = d and q = rest and w = w]) simp_all
    qed
  qed
qed

lemma send_task_inv:
  assumes inv: "sess_inv s" and run: "send_task E now uuid s = Inr s'"
  shows "sess_inv s'"
proof -
  obtain q d w where s': "s' = s\<lparr> s_dbs := d, s_send_q := q, s_wire := w \<rparr>" "secrets_step (s_dbs s) d"
    using send_task_effect [OF run] by blast
  show ?thesis unfolding s'(1) using sess_inv_dbs [OF inv secrets_to_kept [OF s'(2)]] by simp
qed

lemma cyber_send_effect:
  assumes "cyber_send s payload login = Inr (s', ret)"
  shows "s' = s \<and> ret = C_generic \<or>
    (\<exists>l. s' = s\<lparr> s_send_q := s_send_q s @ [\<lparr> o_buf = payload, o_encrypt = True, o_login = Some l \<rparr>] \<rparr> \<and>
      ret = E_no_error \<and> s_ac_rxed s \<and> s_ac_sent s \<and> send_login s login = Some l)"
  using assms by (auto simp: cyber_send_def send_optional_encryption_def split: if_splits option.splits)

lemma sess_step_inv:
  assumes "sess_inv s" "sess_step E s s'"
  shows "sess_inv s'"
  using assms(2)
proof (cases rule: sess_step.cases)
  case (App_send payload login ret)
  thus ?thesis using cyber_send_effect assms(1) by fastforce
next
  case (App_wait p)
  thus ?thesis using assms(1) by (auto simp: waitForMessage_external_def split: list.splits)
next
  case Timeout
  thus ?thesis using cyber_stop_inv [OF assms(1)] assms(1)
    by (simp add: handler_timeout_challenge_def split: option.split)
next
  case Stop
  thus ?thesis using cyber_stop_inv [OF assms(1)] by simp
qed (use assms(1) receive_task_inv internal_task_inv send_task_inv in blast)+

end
