(* ===== verification/Agreement.thy ===== *)
theory Agreement
  imports Session
begin

text \<open>
  The agreement on the cipher between a follower and a leader of \<open>cyber/cyber.c\<close>: both exchange
  functions against each other, and the start of a session.
\<close>

section \<open>Lemmas\<close>

lemma foldl_enabled: "foldl cipher_foreach_cb ns tab = ns @ map c_lib (filter c_enabled tab)"
  by (induction tab arbitrary: ns) (simp_all add: cipher_foreach_cb_def)

lemma enabled_ciphers_filter: "enabled_ciphers tab = map c_lib (filter c_enabled tab)"
  by (simp add: enabled_ciphers_def cipher_foreach_def foldl_enabled)

lemma cipher_table_names: "cipher_table_ok tab \<Longrightarrow> map c_lib tab = map c_lib cipher_table0"
proof -
  assume "cipher_table_ok tab"
  hence "map fst (map (\<lambda>c. (c_lib c, c_mode c, c_key_len c)) tab) =
      map fst (map (\<lambda>c. (c_lib c, c_mode c, c_key_len c)) cipher_table0)"
    by (simp only: cipher_table_ok_def)
  thus ?thesis by (simp add: comp_def)
qed

lemma find_by_name:
  "distinct (map key xs) \<Longrightarrow> x \<in> set xs \<Longrightarrow> find (\<lambda>y. key y = key x) xs = Some x"
  by (induction xs) auto

lemma enabled_by_name:
  assumes "cipher_table_ok tab"
  shows "(case cipher_get_by_str tab (Some n) of None \<Rightarrow> False | Some c \<Rightarrow> c_enabled c) \<longleftrightarrow>
    n \<in> set (enabled_ciphers tab)"
proof -
  have d: "distinct (map c_lib tab)"
    unfolding cipher_table_names [OF assms]
    by (simp add: cipher_table0_def cipher_aes128_ctr_def cipher_aes256_ctr_def cipher_aes256_gcm_def)
  show ?thesis
  proof
    assume "case cipher_get_by_str tab (Some n) of None \<Rightarrow> False | Some c \<Rightarrow> c_enabled c"
    then obtain c where "find (\<lambda>c. c_lib c = n) tab = Some c" "c_enabled c"
      by (auto simp: cipher_get_by_str_def split: option.splits)
    thus "n \<in> set (enabled_ciphers tab)" by (auto simp: enabled_ciphers_filter find_Some_iff)
  next
    assume "n \<in> set (enabled_ciphers tab)"
    then obtain c where c: "c \<in> set tab" "c_enabled c" "c_lib c = n" by (auto simp: enabled_ciphers_filter)
    hence "find (\<lambda>y. c_lib y = n) tab = Some c" using find_by_name [OF d c(1)] by simp
    thus "case cipher_get_by_str tab (Some n) of None \<Rightarrow> False | Some c \<Rightarrow> c_enabled c"
      using c by (simp add: cipher_get_by_str_def)
  qed
qed

lemma find_rev: "find P (rev xs) = (if filter P xs = [] then None else Some (last (filter P xs)))"
  by (induction xs) (auto simp: find_append)

text \<open>The names both sides have enabled, in the order of the follower.\<close>
definition common_ciphers :: "cipher_table \<Rightarrow> cipher_table \<Rightarrow> string list" where
  "common_ciphers follower leader =
    filter (\<lambda>n. n \<in> set (enabled_ciphers leader)) (enabled_ciphers follower)"

lemma pick_cipher_common:
  assumes "cipher_table_ok tabL"
  shows "pick_cipher tabL (enabled_ciphers tabF) =
    (if common_ciphers tabF tabL = [] then None
     else cipher_get_by_str tabL (Some (last (common_ciphers tabF tabL))))"
  by (simp add: pick_cipher_def find_rev enabled_by_name [OF assms] common_ciphers_def)

lemma common_enabled:
  assumes "cipher_table_ok tabF" "cipher_table_ok tabL" "common_ciphers tabF tabL \<noteq> []"
    and "tab = tabF \<or> tab = tabL"
  obtains c where "cipher_get_by_str tab (Some (last (common_ciphers tabF tabL))) = Some c" "c_enabled c"
    "c_lib c = last (common_ciphers tabF tabL)"
proof -
  let ?n = "last (common_ciphers tabF tabL)"
  have "?n \<in> set (common_ciphers tabF tabL)" using assms(3) by simp
  hence "?n \<in> set (enabled_ciphers tab)" using assms(4) by (auto simp: common_ciphers_def)
  hence "case cipher_get_by_str tab (Some ?n) of None \<Rightarrow> False | Some c \<Rightarrow> c_enabled c"
    using assms(1,2,4) enabled_by_name by blast
  then obtain c where "cipher_get_by_str tab (Some ?n) = Some c" "c_enabled c"
    by (auto split: option.splits)
  thus thesis using that cipher_get_by_str_lib by force
qed

text \<open>A session that knows the other site under its name, or not yet.\<close>
definition knows :: "session \<Rightarrow> string \<Rightarrow> bool" where
  "knows s r \<longleftrightarrow> s_remote s = None \<or> s_remote s = Some r"

lemma check_remote_known: "knows s r \<Longrightarrow> check_remote s r = Some (s\<lparr> s_remote := Some r \<rparr>)"
  by (auto simp: check_remote_def knows_def)

lemma session_agrees:
  assumes J: "json_sound J" and tabs: "cipher_table_ok (s_ciphers F)" "cipher_table_ok (s_ciphers L)"
    and loc: "s_local F = Some a" "s_local L = Some b" and rem: "knows F b" "knows L a"
    and some: "enabled_ciphers (s_ciphers F) \<noteq> []"
  shows "\<exists>p1. CipherAgreement_serial J u (Some a) (enabled_ciphers (s_ciphers F)) = Inr (Inr (p1, u)) \<and>
    (if common_ciphers (s_ciphers F) (s_ciphers L) = []
     then \<exists>L'. cyber_exchange_leader J v E_no_error (Inr p1) L = Inr (L', C_generic) \<and>
       s_wire L' = s_wire L \<and> s_cipher L' = s_cipher L
     else \<exists>p2 cF cL.
       cyber_exchange_leader J v E_no_error (Inr p1) L =
         Inr (L\<lparr> s_remote := Some a, s_wire := s_wire L @ [p2], s_cipher := Some cL \<rparr>, E_no_error) \<and>
       cyber_exchange_follower J u E_no_error (Inr p2) F =
         Inr (F\<lparr> s_wire := s_wire F @ [p1], s_remote := Some b, s_cipher := Some cF \<rparr>, E_no_error) \<and>
       c_enabled cF \<and> c_enabled cL \<and> c_lib cF = last (common_ciphers (s_ciphers F) (s_ciphers L)) \<and>
       c_lib cL = c_lib cF)"
proof -
  let ?common = "common_ciphers (s_ciphers F) (s_ciphers L)"
  obtain p1 where p1: "CipherAgreement_serial J u (Some a) (enabled_ciphers (s_ciphers F)) = Inr (Inr (p1, u))"
    "CipherAgreement_deserial J (Some p1) None = Inr (Inr (enabled_ciphers (s_ciphers F), u, a))"
    using cipher_agreement_text [OF J, where cs = "enabled_ciphers (s_ciphers F)"] some by (simp split: if_splits) blast
  note remL = check_remote_known [OF rem(2)]
  note pick = pick_cipher_common [OF tabs(2), of "s_ciphers F"]
  show ?thesis
  proof (cases "?common = []")
    case True
    have "cyber_exchange_leader J v E_no_error (Inr p1) L = Inr (L\<lparr> s_remote := Some a \<rparr>, C_generic)"
      using p1(2) remL pick True by (simp add: cyber_exchange_leader_def)
    thus ?thesis using p1(1) True by simp
  next
    case False
    obtain cL where cL: "cipher_get_by_str (s_ciphers L) (Some (last ?common)) = Some cL" "c_enabled cL"
      "c_lib cL = last ?common"
      using common_enabled [OF tabs False] by blast
    obtain cF where cF: "cipher_get_by_str (s_ciphers F) (Some (last ?common)) = Some cF" "c_enabled cF"
      "c_lib cF = last ?common"
      using common_enabled [OF tabs False] by blast
    obtain p2 where p2: "CipherAgreement_serial J v (Some b) [last ?common] = Inr (Inr (p2, v))"
      "CipherAgreement_deserial J (Some p2) None = Inr (Inr ([last ?common], v, b))"
      using cipher_agreement_text [OF J, where cs = "[last ?common]"] by (simp split: if_splits) blast
    have "cyber_exchange_leader J v E_no_error (Inr p1) L =
        Inr (L\<lparr> s_remote := Some a, s_wire := s_wire L @ [p2], s_cipher := Some cL \<rparr>, E_no_error)"
      using p1(2) remL pick False cL p2(1) loc(2) by (simp add: cyber_exchange_leader_def)
    moreover have "knows (F\<lparr> s_wire := s_wire F @ [p1] \<rparr>) b" using rem(1) by (simp add: knows_def)
    note remF = check_remote_known [OF this]
    have "cyber_exchange_follower J u E_no_error (Inr p2) F =
        Inr (F\<lparr> s_wire := s_wire F @ [p1], s_remote := Some b, s_cipher := Some cF \<rparr>, E_no_error)"
      using p1(1) p2(2) loc(1) remF cF by (simp add: cyber_exchange_follower_def Let_def)
    ultimately have "cyber_exchange_leader J v E_no_error (Inr p1) L =
         Inr (L\<lparr> s_remote := Some a, s_wire := s_wire L @ [p2], s_cipher := Some cL \<rparr>, E_no_error) \<and>
       cyber_exchange_follower J u E_no_error (Inr p2) F =
         Inr (F\<lparr> s_wire := s_wire F @ [p1], s_remote := Some b, s_cipher := Some cF \<rparr>, E_no_error) \<and>
       c_enabled cF \<and> c_enabled cL \<and> c_lib cF = last ?common \<and> c_lib cL = c_lib cF"
      using cF cL by simp
    thus ?thesis using p1(1) False by auto
  qed
qed

section \<open>The start of a session\<close>

lemma agreement_errors:
  "CipherAgreement_serial J u loc cs = Inr (Inl err) \<Longrightarrow> err = J_encode"
  "CipherAgreement_deserial J buf m = Inr (Inl err) \<Longrightarrow> err = J_parse"
  by (auto simp: CipherAgreement_serial_def split: option.splits if_splits)
    (auto simp: CipherAgreement_deserial_def split: option.splits if_splits list.splits)

lemma check_remote_effect: "check_remote s r = Some s' \<Longrightarrow> s' = s\<lparr> s_remote := Some r \<rparr>"
  by (auto simp: check_remote_def split: option.splits if_splits)

text \<open>A successful exchange leaves a known site and an enabled cipher.\<close>
lemma leader_effect:
  assumes run: "cyber_exchange_leader J u sent (Inr input) s = Inr (s', E_no_error)"
  shows "\<exists>r c w. s' = s\<lparr> s_remote := Some r, s_wire := w, s_cipher := Some c \<rparr>"
proof -
  obtain des where d: "CipherAgreement_deserial J (Some input) None = Inr des"
    using run by (cases "CipherAgreement_deserial J (Some input) None") (simp_all add: cyber_exchange_leader_def)
  obtain names m r where r: "des = Inr (names, m, r)"
    using run d by (cases des) (auto simp: cyber_exchange_leader_def dest: agreement_errors)
  obtain s1 where s1: "check_remote s r = Some s1" "s1 = s\<lparr> s_remote := Some r \<rparr>"
    using run d r check_remote_effect by (cases "check_remote s r") (auto simp: cyber_exchange_leader_def)
  obtain c where c: "pick_cipher (s_ciphers s1) names = Some c"
    using run d r s1(1) by (cases "pick_cipher (s_ciphers s1) names") (auto simp: cyber_exchange_leader_def)
  obtain ser where e: "CipherAgreement_serial J u (s_local s1) [c_lib c] = Inr ser"
    using run d r s1(1) c by (cases "CipherAgreement_serial J u (s_local s1) [c_lib c]") (simp_all add: cyber_exchange_leader_def)
  obtain p m1 where p: "ser = Inr (p, m1)"
    using run d r s1(1) c e by (cases ser) (auto simp: cyber_exchange_leader_def dest: agreement_errors)
  have "s' = s1\<lparr> s_wire := s_wire s1 @ [p], s_cipher := Some c \<rparr>"
    using run d r s1(1) c e p by (simp add: cyber_exchange_leader_def split: if_splits)
  thus ?thesis using s1(2) by auto
qed

lemma follower_effect:
  assumes run: "cyber_exchange_follower J u sent (Inr input) s = Inr (s', E_no_error)"
  shows "\<exists>r c w. s' = s\<lparr> s_wire := w, s_remote := Some r, s_cipher := Some c \<rparr>"
proof -
  let ?ser = "CipherAgreement_serial J u (s_local s) (enabled_ciphers (s_ciphers s))"
  obtain ser where e: "?ser = Inr ser" using run by (cases ?ser) (simp_all add: cyber_exchange_follower_def)
  obtain p m1 where p: "ser = Inr (p, m1)"
    using run e by (cases ser) (auto simp: cyber_exchange_follower_def dest: agreement_errors)
  let ?s1 = "s\<lparr> s_wire := s_wire s @ [p] \<rparr>"
  have sent: "sent = E_no_error" using run e p by (simp add: cyber_exchange_follower_def split: if_splits)
  obtain des where d: "CipherAgreement_deserial J (Some input) None = Inr des"
    using run e p sent by (cases "CipherAgreement_deserial J (Some input) None") (simp_all add: cyber_exchange_follower_def Let_def)
  obtain names m r where r: "des = Inr (names, m, r)"
    using run e p sent d by (cases des) (auto simp: cyber_exchange_follower_def Let_def dest: agreement_errors)
  obtain s2 where s2: "check_remote ?s1 r = Some s2" "s2 = ?s1\<lparr> s_remote := Some r \<rparr>"
    using run e p sent d r check_remote_effect
    by (cases "check_remote ?s1 r") (auto simp: cyber_exchange_follower_def Let_def)
  obtain name where n: "names = [name]"
    using run e p sent d r s2(1)
    by (cases names; cases "tl names") (auto simp: cyber_exchange_follower_def Let_def)
  obtain c where "cipher_get_by_str (s_ciphers s2) (Some name) = Some c"
    using run e p sent d r s2(1) n
    by (cases "cipher_get_by_str (s_ciphers s2) (Some name)") (auto simp: cyber_exchange_follower_def Let_def)
  hence "s' = s2\<lparr> s_cipher := Some c \<rparr>"
    using run e p sent d r s2(1) n by (simp add: cyber_exchange_follower_def Let_def)
  thus ?thesis using s2(2) by auto
qed

lemma cyber_start_effect:
  assumes "cyber_start J u started False sent (Inr input) s = Inr (s', E_no_error)"
  shows "s_local s \<noteq> None \<and> (\<exists>r c w. s' = s\<lparr> s_transport_up := True, s_wire := w, s_remote := Some r,
    s_cipher := Some c, s_tasks := True \<rparr>)"
proof -
  let ?s1 = "s\<lparr> s_transport_up := True \<rparr>"
  have v: "s_local s \<noteq> None" "started = E_no_error"
    using assms by (auto simp: cyber_start_def split: if_splits)
  let ?run = "if s_leader ?s1 then cyber_exchange_leader J u sent (Inr input) ?s1
    else cyber_exchange_follower J u sent (Inr input) ?s1"
  obtain s2 ret where s2: "?run = Inr (s2, ret)"
    using assms v by (cases ?run) (auto simp: cyber_start_def Let_def)
  have ret: "ret = E_no_error" "s' = s2\<lparr> s_tasks := True \<rparr>"
    using assms v s2 by (simp_all add: cyber_start_def Let_def split: if_splits)
  have "\<exists>r c w. s2 = ?s1\<lparr> s_wire := w, s_remote := Some r, s_cipher := Some c \<rparr>"
  proof (cases "s_leader ?s1")
    case True
    then obtain r c w where "s2 = ?s1\<lparr> s_remote := Some r, s_wire := w, s_cipher := Some c \<rparr>"
      using leader_effect s2 ret(1) by (metis (no_types))
    hence "s2 = ?s1\<lparr> s_wire := w, s_remote := Some r, s_cipher := Some c \<rparr>" by simp
    thus ?thesis by blast
  next
    case False
    thus ?thesis using s2 ret(1) by (intro follower_effect) simp
  qed
  then obtain r c w where "s2 = ?s1\<lparr> s_wire := w, s_remote := Some r, s_cipher := Some c \<rparr>" by blast
  hence "s' = s\<lparr> s_transport_up := True, s_wire := w, s_remote := Some r, s_cipher := Some c, s_tasks := True \<rparr>"
    using ret(2) by simp
  thus ?thesis using v(1) by blast
qed

section \<open>Properties\<close>

text \<open>C9. The agreement on the cipher.  A follower that has a cipher enabled and a leader that reads
  its proposal settle on the same cipher, which both have enabled: the last of the common ones in
  the order of the follower; each knows the other under its name.  Without a common cipher the
  leader fails, sends nothing and leaves its cipher as it was.\<close>
theorem session_agreement:
  assumes "json_sound J" "cipher_table_ok (s_ciphers F)" "cipher_table_ok (s_ciphers L)"
    and "s_local F = Some a" "s_local L = Some b" "knows F b" "knows L a"
    and "enabled_ciphers (s_ciphers F) \<noteq> []"
  shows "\<exists>p1. CipherAgreement_serial J u (Some a) (enabled_ciphers (s_ciphers F)) = Inr (Inr (p1, u)) \<and>
    (if common_ciphers (s_ciphers F) (s_ciphers L) = []
     then \<exists>L'. cyber_exchange_leader J v E_no_error (Inr p1) L = Inr (L', C_generic) \<and>
       s_wire L' = s_wire L \<and> s_cipher L' = s_cipher L
     else \<exists>p2 cF cL.
       cyber_exchange_leader J v E_no_error (Inr p1) L =
         Inr (L\<lparr> s_remote := Some a, s_wire := s_wire L @ [p2], s_cipher := Some cL \<rparr>, E_no_error) \<and>
       cyber_exchange_follower J u E_no_error (Inr p2) F =
         Inr (F\<lparr> s_wire := s_wire F @ [p1], s_remote := Some b, s_cipher := Some cF \<rparr>, E_no_error) \<and>
       c_enabled cF \<and> c_enabled cL \<and> c_lib cF = last (common_ciphers (s_ciphers F) (s_ciphers L)) \<and>
       c_lib cL = c_lib cF)"
  using assms by (rule session_agrees)

definition session_A :: session where
  "session_A = (cyber_new_from_transport cipher_table0 base_A)\<lparr> s_local := Some ''A'', s_remote := Some ''B'' \<rparr>"

definition session_B :: session where
  "session_B = (cyber_new_from_transport (fst (cipher_let_enabled_by_str cipher_table0 (Some ''AES256GCM'') False))
     base_B)\<lparr> s_local := Some ''B'', s_leader := True \<rparr>"

theorem session_agreement_witness:
  "\<exists>p1 p2 cF cL. c_lib cF = ''AES256CTR'' \<and> c_lib cL = ''AES256CTR'' \<and>
    cyber_exchange_leader text_json ''v'' E_no_error (Inr p1) session_B =
      Inr (session_B\<lparr> s_remote := Some ''A'', s_wire := s_wire session_B @ [p2], s_cipher := Some cL \<rparr>, E_no_error) \<and>
    cyber_exchange_follower text_json ''u'' E_no_error (Inr p2) session_A =
      Inr (session_A\<lparr> s_wire := s_wire session_A @ [p1], s_remote := Some ''B'', s_cipher := Some cF \<rparr>, E_no_error)"
proof -
  have c: "common_ciphers (s_ciphers session_A) (s_ciphers session_B) = [''AES128CTR'', ''AES256CTR'']" by code_simp
  have "cipher_table_ok (s_ciphers session_A)" "cipher_table_ok (s_ciphers session_B)"
    "s_local session_A = Some ''A''" "s_local session_B = Some ''B''" "knows session_A ''B''" "knows session_B ''A''"
    "enabled_ciphers (s_ciphers session_A) \<noteq> []" by code_simp+
  from session_agreement [OF text_json_sound this, of "''u''" "''v''", unfolded c]
  obtain p1 p2 cF cL where
    "cyber_exchange_leader text_json ''v'' E_no_error (Inr p1) session_B =
      Inr (session_B\<lparr> s_remote := Some ''A'', s_wire := s_wire session_B @ [p2], s_cipher := Some cL \<rparr>, E_no_error)"
    "cyber_exchange_follower text_json ''u'' E_no_error (Inr p2) session_A =
      Inr (session_A\<lparr> s_wire := s_wire session_A @ [p1], s_remote := Some ''B'', s_cipher := Some cF \<rparr>, E_no_error)"
    "c_lib cF = ''AES256CTR''" "c_lib cL = c_lib cF"
    by auto
  thus ?thesis by metis
qed

end
