(* ===== verification/Simulation.thy ===== *)
theory Simulation
  imports Main
begin

text \<open>
  The contracts of a step relation: an invariant kept by every step, and a simulation by a more
  abstract relation, which answers every step by one of its own.
\<close>

locale step_invariant =
  fixes step :: "'s \<Rightarrow> 's \<Rightarrow> bool"
    and inv :: "'s \<Rightarrow> bool"
  assumes inv_step: "inv s \<Longrightarrow> step s s' \<Longrightarrow> inv s'"
begin

lemma inv_reach: "step\<^sup>*\<^sup>* s s' \<Longrightarrow> inv s \<Longrightarrow> inv s'"
  by (induction rule: rtranclp_induct) (auto intro: inv_step)

end

locale simulation = step_invariant +
  fixes astep :: "'a \<Rightarrow> 'a \<Rightarrow> bool"
    and abs :: "'s \<Rightarrow> 'a"
  assumes sim_step: "inv s \<Longrightarrow> step s s' \<Longrightarrow> astep (abs s) (abs s')"
begin

lemma sim_next: "step\<^sup>*\<^sup>* s0 s \<Longrightarrow> inv s0 \<Longrightarrow> step s s' \<Longrightarrow> astep (abs s) (abs s')"
  using inv_reach sim_step by blast

lemma sim_reach:
  assumes "step\<^sup>*\<^sup>* s s'" "inv s"
  shows "astep\<^sup>*\<^sup>* (abs s) (abs s')"
  using assms
proof (induction rule: rtranclp_induct)
  case (step y z)
  thus ?case using sim_next [OF step.hyps(1) step.prems step.hyps(2)] by (meson rtranclp.rtrancl_into_rtrancl)
qed simp

text \<open>What every abstract step keeps, every reachable state has.\<close>
lemma abstract_invariant:
  assumes "step\<^sup>*\<^sup>* s s'" "inv s" "P (abs s)" "\<And>a a'. astep a a' \<Longrightarrow> P a \<Longrightarrow> P a'"
  shows "P (abs s')"
proof -
  have "P b" if "astep\<^sup>*\<^sup>* a b" "P a" for a b
    using that by (induction rule: rtranclp_induct) (auto intro: assms(4))
  thus ?thesis using sim_reach [OF assms(1,2)] assms(3) by blast
qed

end

end
