(* ===== verification/SessionProps.thy ===== *)
theory SessionProps
  imports SessionSafety Agreement Simulation
begin

text \<open>
  Properties of a started session of \<open>cyber/cyber.c\<close>: its invariant, and what follows for the
  messages of the application, for the answers to a challenge and for a login that cannot be
  renewed.
\<close>

section \<open>Reachable sessions\<close>

interpretation session: step_invariant "sess_step E" sess_inv for E
  by unfold_locales (rule sess_step_inv)

lemma sess_reach_star: "sess_reach E s s' \<longleftrightarrow> (sess_step E)\<^sup>*\<^sup>* s s'"
proof
  assume "sess_reach E s s'"
  thus "(sess_step E)\<^sup>*\<^sup>* s s'" by induction (auto intro: rtranclp.rtrancl_into_rtrancl)
next
  assume "(sess_step E)\<^sup>*\<^sup>* s s'"
  thus "sess_reach E s s'" by (induction rule: rtranclp_induct) (auto intro: Reach_refl Reach_step)
qed

lemma reach_inv: "sess_reach E s s' \<Longrightarrow> sess_inv s \<Longrightarrow> sess_inv s'"
  unfolding sess_reach_star by (rule session.inv_reach)

text \<open>A session as the application prepares it before the start.\<close>
definition prepared :: "cipher_table \<Rightarrow> dbs \<Rightarrow> cstr \<Rightarrow> cstr \<Rightarrow> bool \<Rightarrow> session" where
  "prepared tab d loc rem leader =
    (cyber_new_from_transport tab d)\<lparr> s_local := loc, s_remote := rem, s_leader := leader \<rparr>"

lemma start_inv:
  assumes "auth_dbs_ok d"
    and "cyber_start J u started False sent (Inr input) (prepared tab d loc rem leader) = Inr (s, E_no_error)"
  shows "sess_inv s"
proof -
  obtain r c w where s: "s = (prepared tab d loc rem leader)\<lparr> s_transport_up := True, s_wire := w,
      s_remote := Some r, s_cipher := Some c, s_tasks := True \<rparr>" and loc: "loc \<noteq> None"
    using cyber_start_effect [OF assms(2)] by (auto simp: prepared_def)
  show ?thesis unfolding s using assms(1) loc
    by (simp add: sess_inv_def events_ok_def prepared_def cyber_new_from_transport_def cyber_priv_new_def challenge_ok_def
        challenge_ctxt_new_def)
qed

lemma start_sample:
  "\<exists>input s. cyber_start text_json ''u'' E_no_error False E_no_error (Inr input)
     (prepared cipher_table0 d (Some ''A'') (Some ''B'') False) = Inr (s, E_no_error) \<and>
     s_challenge s = Some challenge_ctxt_new \<and> s_dbs s = d \<and> s_remote s = Some ''B'' \<and> s_internal_q s = []"
proof -
  let ?F = "(prepared cipher_table0 d (Some ''A'') (Some ''B'') False)\<lparr> s_transport_up := True \<rparr>"
  have c: "common_ciphers (s_ciphers ?F) (s_ciphers session_B) = [''AES128CTR'', ''AES256CTR'']" by (simp add: prepared_def cyber_new_from_transport_def cyber_priv_new_def)
    code_simp
  have "cipher_table_ok (s_ciphers ?F)" "cipher_table_ok (s_ciphers session_B)"
    "s_local ?F = Some ''A''" "s_local session_B = Some ''B''" "knows ?F ''B''" "knows session_B ''A''"
    "enabled_ciphers (s_ciphers ?F) \<noteq> []" by code_simp+
  from session_agrees [OF text_json_sound this, of "''u''" "''v''", unfolded c]
  obtain p1 p2 cF where "cyber_exchange_follower text_json ''u'' E_no_error (Inr p2) ?F =
      Inr (?F\<lparr> s_wire := s_wire ?F @ [p1], s_remote := Some ''B'', s_cipher := Some cF \<rparr>, E_no_error)"
    by auto
  moreover have "s_local ?F = Some ''A''" "\<not> s_leader ?F" "s_challenge ?F = Some challenge_ctxt_new"
    "s_dbs ?F = d" "s_internal_q ?F = []" by (simp_all add: prepared_def cyber_new_from_transport_def cyber_priv_new_def)
  ultimately show ?thesis
    by (intro exI [of _ p2]) (simp add: cyber_start_def Let_def prepared_def)
qed

section \<open>Logins for the way out\<close>

lemma next_after_member: "next_after l xs = Some b \<Longrightarrow> b \<in> set xs"
  by (induction l xs rule: next_after.induct) (auto split: if_splits)

lemma site_member_at:
  assumes "auth_dbs_ok d" "sIds_at d (Some db) (Some r) = Some x" "b \<in> set (s_logins x)"
  shows "auth_at d (db, r, a_login b) = Some b"
proof -
  have ok: "logins_ok db x" by (rule sIds_at_ok [OF assms(1,2)])
  have "find (\<lambda>z. a_login z = a_login b) (s_logins x) = Some b"
    by (rule find_member [where key = a_login]) (use ok assms(3) in \<open>simp_all add: logins_ok_def\<close>)
  thus ?thesis using assms(2) by (simp add: auth_at_def auth_login_find_def auth_find_def)
qed

lemma auth_next_at:
  assumes "auth_dbs_ok d" "auth_get_next_from_auth d a = Some b"
  shows "auth_at d (a_dbId a, a_sId a, a_login b) = Some b"
proof -
  obtain x where x: "sIds_at d (Some (a_dbId a)) (Some (a_sId a)) = Some x"
    using assms(2) by (auto simp: auth_get_next_from_auth_def split: option.splits)
  have "b \<in> set (s_logins x)"
    using assms(2) x next_after_member
    by (fastforce simp: auth_get_next_from_auth_def split: option.splits list.splits if_splits)
  thus ?thesis by (rule site_member_at [OF assms(1) x])
qed

text \<open>The login chosen for a message is one of the TO logins of the other site.\<close>
lemma send_login_known:
  assumes ok: "auth_dbs_ok (s_dbs s)" and r: "s_remote s = Some r"
    and avail: "login \<noteq> None \<Longrightarrow> isAuthToAvailableForLogin (s_dbs s) login (s_remote s)"
    and l: "send_login s login = Some l"
  shows "auth_at (s_dbs s) (''to'', r, l) \<noteq> None"
proof (cases login)
  case (Some lg)
  hence "lg = l" using l by (auto simp: send_login_def Let_def split: option.splits if_splits)
  thus ?thesis using avail Some r
    by (simp add: isAuthToAvailableForLogin_def auth_to_key_set_def auth_to_dbId_def auth_find_by_key_def
        auth_key_set_def auth_at_def)
next
  case None
  let ?first = "auth_get_first (s_dbs s) (auth_key_set (Some ''to'') None (Some r))"
  obtain a where a: "?first = Some a"
    using l None r by (auto simp: send_login_def Let_def auth_to_key_set_def auth_to_dbId_def split: option.splits)
  have at: "auth_at (s_dbs s) (''to'', r, a_login a) = Some a" "a_dbId a = ''to''" "a_sId a = r"
    using auth_get_first_at [OF ok a] by (auto simp: auth_id_def)
  have "l = a_login a \<or> (\<exists>b. auth_get_next_from_auth (s_dbs s) a = Some b \<and> l = a_login b)"
    using l None r a by (auto simp: send_login_def Let_def auth_to_key_set_def auth_to_dbId_def
        split: option.splits if_splits)
  thus ?thesis using at auth_next_at [OF ok] by fastforce
qed

section \<open>Properties\<close>

text \<open>C6. The invariant of a started session.  Whatever messages, timeouts and demands of the
  application come in whatever order, the base stays a map, the challenge is consistent with it (not
  both waiting and running; for a TO entry of the other site that is there; while it runs the entry
  is active with a new password pending and both answers are awaited), the timer is only armed while
  it runs, \<open>AllClear\<close> is announced exactly when it has been sent and received, and the loss of the
  session is announced once.\<close>
theorem session_invariant:
  assumes "auth_dbs_ok d"
    and "cyber_start (e_json E) u started False sent (Inr input) (prepared tab d loc rem leader) = Inr (s1, E_no_error)"
    and "sess_reach E s1 s"
  shows "sess_inv s"
  by (rule reach_inv [OF assms(3) start_inv [OF assms(1,2)]])

definition env_sample :: "string env" where
  "env_sample = \<lparr> e_json = text_json, e_evp = evp_plain, e_times = times_unary, e_pos = (\<lambda>n. n), e_window = - 1 \<rparr>"

theorem session_invariant_witness:
  "\<exists>s. s_remote s = Some ''B'' \<and> s_stop s \<and> sess_inv s"
proof -
  obtain input s where s: "cyber_start (e_json env_sample) ''u'' E_no_error False E_no_error (Inr input)
     (prepared cipher_table0 base_A (Some ''A'') (Some ''B'') False) = Inr (s, E_no_error)" "s_remote s = Some ''B''"
    using start_sample [of base_A] by (auto simp: env_sample_def)
  have ok: "auth_dbs_ok base_A" by code_simp
  have "sess_reach env_sample s (cyber_stop s)" by (rule Reach_step [OF Reach_refl Stop])
  from session_invariant [OF ok s(1) this] s(2) show ?thesis
    by (intro exI [of _ "cyber_stop s"]) (simp add: cyber_stop_def trigger_def)
qed

text \<open>C5. A message of the application is accepted only once \<open>AllClear\<close> has been exchanged and the
  application told so; it is then the last of the queue, to be encrypted under a login that the
  base has among the TO logins of the other site.  Otherwise nothing changes.\<close>
theorem session_data_after_all_clear:
  assumes "auth_dbs_ok d"
    and "cyber_start (e_json E) u started False sent (Inr input) (prepared tab d loc rem leader) = Inr (s1, E_no_error)"
    and "sess_reach E s1 s" and "cyber_send s payload login = Inr (s', ret)"
  shows "if ret = E_no_error
    then EVENT_ALLCLEAR_EXCHANGED \<in> set (s_events s) \<and>
      (\<exists>r l. s_remote s = Some r \<and> auth_at (s_dbs s) (''to'', r, l) \<noteq> None \<and>
        s' = s\<lparr> s_send_q := s_send_q s @ [\<lparr> o_buf = payload, o_encrypt = True, o_login = Some l \<rparr>] \<rparr>)
    else ret = C_generic \<and> s' = s"
proof (cases "ret = E_no_error")
  case False
  thus ?thesis using cyber_send_effect [OF assms(4)] by auto
next
  case True
  have inv: "sess_inv s" by (rule reach_inv [OF assms(3) start_inv [OF assms(1,2)]])
  obtain r where r: "s_remote s = Some r" "auth_dbs_ok (s_dbs s)" by (rule sess_inv_parts [OF inv])
  obtain l where l: "s' = s\<lparr> s_send_q := s_send_q s @ [\<lparr> o_buf = payload, o_encrypt = True, o_login = Some l \<rparr>] \<rparr>"
    "s_ac_rxed s" "s_ac_sent s" "send_login s login = Some l"
    using cyber_send_effect [OF assms(4)] True by auto
  have "login \<noteq> None \<Longrightarrow> isAuthToAvailableForLogin (s_dbs s) login (s_remote s)"
    using assms(4) True by (auto simp: cyber_send_def split: if_splits)
  from send_login_known [OF r(2,1) this l(4)] l r inv True show ?thesis
    by (auto simp: sess_inv_def events_ok_def)
qed

theorem session_data_after_all_clear_witness:
  "\<exists>s. s_remote s = Some ''B'' \<and> cyber_send s ''x'' None = Inr (s, C_generic)"
proof -
  obtain input s where s: "cyber_start (e_json env_sample) ''u'' E_no_error False E_no_error (Inr input)
     (prepared cipher_table0 base_A (Some ''A'') (Some ''B'') False) = Inr (s, E_no_error)" "s_remote s = Some ''B''"
    using start_sample [of base_A] by (auto simp: env_sample_def)
  have ok: "auth_dbs_ok base_A" by code_simp
  have inv: "sess_inv s" by (rule start_inv [OF ok s(1)])
  obtain c w r where e: "s = (prepared cipher_table0 base_A (Some ''A'') (Some ''B'') False)
      \<lparr> s_transport_up := True, s_wire := w, s_remote := Some r, s_cipher := Some c, s_tasks := True \<rparr>"
    using cyber_start_effect [OF s(1)] by auto
  have "\<not> s_ac_rxed s" unfolding e by (simp add: prepared_def cyber_new_from_transport_def cyber_priv_new_def)
  hence run: "cyber_send s ''x'' None = Inr (s, C_generic)" by (simp add: cyber_send_def)
  from session_data_after_all_clear [OF ok s(1) Reach_refl this] s(2) run show ?thesis by auto
qed

end
