(* ===== verification/SessionBlocked.thy ===== *)
theory SessionBlocked
  imports SessionProps
begin

text \<open>
  A session whose first login to renew is disabled: the challenge can never be made, is never given
  up, and holds back \<open>AllClear\<close> and with it every message of the application.
\<close>

section \<open>The login the walk settles on\<close>

definition login_due :: "times \<Rightarrow> horodate \<Rightarrow> auth \<Rightarrow> bool" where
  "login_due T now a \<longleftrightarrow> a_new_pwd_pending a \<or> t_diff_sec T now (a_timestamp a) > triggerPeriod_sec"

lemma triggerPeriod_positive: "triggerPeriod_sec = 101"
  by (simp add: triggerPeriod_sec_def)

lemma search_idle:
  assumes "challenge_idle ctx"
  shows "if login_due T now a
    then \<exists>ch. searchLoginForChallenge T now ctx a = (Some ch, True) \<and> ch_auth ch = Some (auth_id a) \<and>
      ch_toSend ch \<and> \<not> ch_running ch
    else \<exists>ctx'. searchLoginForChallenge T now ctx a = (ctx', True) \<and> challenge_idle ctx'"
proof (cases "\<exists>ch. ctx = Some ch \<and> ch_auth ch = None")
  case True
  then obtain ch where "ctx = Some ch" "ch_auth ch = None" by blast
  thus ?thesis using assms
    by (simp add: searchLoginForChallenge_def login_due_def triggerPeriod_positive challenge_idle_def Let_def)
next
  case False
  thus ?thesis using assms
    by (cases ctx) (simp_all add: searchLoginForChallenge_def login_due_def triggerPeriod_positive
        challenge_idle_def freeChallengeContext_def challenge_ctxt_new_def Let_def)
qed

lemma search_claimed:
  "ch_auth ch \<noteq> None \<Longrightarrow> ch_toSend ch \<Longrightarrow>
   fst (ldc_foreach_loop (searchLoginForChallenge T now) (Some ch) as) = Some ch"
  by (cases as) (simp_all add: searchLoginForChallenge_def Let_def)

lemma search_walk:
  assumes "challenge_idle ctx" "find (login_due T now) as = Some a"
  shows "\<exists>ch. fst (ldc_foreach_loop (searchLoginForChallenge T now) ctx as) = Some ch \<and>
    ch_auth ch = Some (auth_id a) \<and> ch_toSend ch \<and> \<not> ch_running ch"
  using assms
proof (induction as arbitrary: ctx)
  case (Cons b as)
  show ?case
  proof (cases "login_due T now b")
    case True
    then obtain ch where ch: "searchLoginForChallenge T now ctx b = (Some ch, True)"
      "ch_auth ch = Some (auth_id b)" "ch_toSend ch" "\<not> ch_running ch"
      using search_idle [OF Cons.prems(1), of T now b] by auto
    thus ?thesis using Cons.prems(2) True search_claimed [of ch T now as]
      by (simp add: case_prod_unfold Let_def)
  next
    case False
    then obtain ctx' where c: "searchLoginForChallenge T now ctx b = (ctx', True)" "challenge_idle ctx'"
      using search_idle [OF Cons.prems(1), of T now b] by auto
    thus ?thesis using Cons.IH [OF c(2)] Cons.prems(2) False by (simp add: case_prod_unfold Let_def)
  qed
qed simp

section \<open>Blocked sessions\<close>

definition blocked :: "session \<Rightarrow> bool" where
  "blocked s \<longleftrightarrow>
    auth_dbs_ok (s_dbs s) \<and> \<not> s_ac_sent s \<and> EVENT_ALLCLEAR_EXCHANGED \<notin> set (s_events s) \<and>
    (case s_challenge s of
       None \<Rightarrow> False
     | Some ch \<Rightarrow> ch_toSend ch \<and> \<not> ch_running ch \<and>
         (case ch_auth ch of
            None \<Rightarrow> False
          | Some (db, r, l) \<Rightarrow> db = ''to'' \<and> s_remote s = Some r \<and>
              (case auth_at (s_dbs s) (db, r, l) of None \<Rightarrow> False | Some a \<Rightarrow> \<not> a_active a)))"

lemma blockedE:
  assumes "blocked s"
  obtains ch r l a where "auth_dbs_ok (s_dbs s)" "\<not> s_ac_sent s" "s_challenge s = Some ch" "ch_toSend ch"
    "\<not> ch_running ch" "ch_auth ch = Some (''to'', r, l)" "s_remote s = Some r"
    "auth_at (s_dbs s) (''to'', r, l) = Some a" "\<not> a_active a"
  using assms by (auto simp: blocked_def split: option.splits)

lemma blocked_updates [simp]:
  "blocked (s\<lparr> s_send_q := q \<rparr>) = blocked s"
  "blocked (s\<lparr> s_internal_q := i \<rparr>) = blocked s"
  "blocked (s\<lparr> s_external_q := i \<rparr>) = blocked s"
  "blocked (s\<lparr> s_wire := w \<rparr>) = blocked s"
  "blocked (s\<lparr> s_ac_rxed := b \<rparr>) = blocked s"
  "blocked (s\<lparr> s_stop := b \<rparr>) = blocked s"
  "blocked (s\<lparr> s_transport_up := b \<rparr>) = blocked s"
  by (simp_all add: blocked_def cong: option.case_cong prod.case_cong)

lemma blocked_dbs:
  assumes "blocked s" "to_kept (s_dbs s) d"
  shows "blocked (s\<lparr> s_dbs := d \<rparr>)"
  using assms(1)
proof (rule blockedE)
  fix ch r l a
  assume ok: "auth_dbs_ok (s_dbs s)" "auth_at (s_dbs s) (''to'', r, l) = Some a"
    and b: "s_challenge s = Some ch" "ch_auth ch = Some (''to'', r, l)" "\<not> a_active a"
  obtain a' where a': "auth_dbs_ok d" "auth_at d (''to'', r, l) = Some a'" "same_but_secrets a a'"
    by (rule to_keptD [OF assms(2) ok])
  have "\<not> a_active a'" using same_but_secretsD(2) [OF a'(3)] b(3) by simp
  thus ?thesis using assms(1) a' b by (auto simp: blocked_def)
qed

lemma blocked_stop: "blocked s \<Longrightarrow> blocked (cyber_stop s)"
  by (auto simp: blocked_def cyber_stop_def trigger_def stopTimerResponse_def split: option.splits)

text \<open>The challenge of a disabled login is not made.\<close>
lemma blocked_initiate:
  assumes "blocked s" "initiateChallenge E t s = Inr (s', ret)"
  shows "blocked s'"
  using assms(1)
proof (rule blockedE)
  fix ch r l a
  assume ok: "auth_dbs_ok (s_dbs s)"
    and b: "s_challenge s = Some ch" "ch_toSend ch" "\<not> ch_running ch" "ch_auth ch = Some (''to'', r, l)"
      "s_remote s = Some r" "auth_at (s_dbs s) (''to'', r, l) = Some a" "\<not> a_active a"
  have run: "sendChallenge E t ch s = Inr (s', ret)"
    using assms(2) b(1,2,3) by (simp add: initiateChallenge_def choose_login_def challenge_idle_def Let_def)
  obtain d1 ch1 res where enc: "Challenge_encode (e_json E) (e_evp E) (e_times E) (e_pos E) (tn_draws t) (s_dbs s)
      ch (s_cipher s) (s_local s) (Some l) (Some r) = Inr (d1, ch1, res)"
    using run b by (auto simp: sendChallenge_def)
  have "coder_auth_get (s_dbs s) (Some l) (Some r) Act_encrypt = Inr (C_generic, Some a)"
    using b(6,7) by (simp add: coder_auth_get_def auth_to_key_set_def auth_to_dbId_def auth_find_by_key_def
        auth_key_set_def auth_at_def Let_def)
  moreover have "auth_id a = (''to'', r, l)" by (rule auth_at_ok [OF ok b(6)])
  ultimately have "d1 = s_dbs s \<and> (\<exists>err. res = Inl err) \<and>
      (ch1 = ch \<or> ch1 = (freeChallengeContextMembers ch)\<lparr> ch_auth := Some (''to'', r, l) \<rparr>)"
    using enc b(3) by (cases "s_cipher s"; cases "s_local s") (auto simp: Challenge_encode_def Let_def)
  hence d: "d1 = s_dbs s" "\<exists>err. res = Inl err" "ch_toSend ch1" "\<not> ch_running ch1" "ch_auth ch1 = Some (''to'', r, l)"
    using b(2,3,4) by auto
  hence "s' = s\<lparr> s_challenge := Some ch1 \<rparr>" using run b enc by (auto simp: sendChallenge_def Let_def)
  thus ?thesis using assms(1) d b by (simp add: blocked_def)
qed

lemma blocked_msg:
  assumes "cyber_process_internal_msg E t s from msg = Inr (s', ret)" "blocked s"
  shows "blocked s'"
proof -
  have nr: "\<exists>ch. s_challenge s = Some ch \<and> \<not> ch_running ch" and ok: "auth_dbs_ok (s_dbs s)"
    and na: "\<not> s_ac_sent s"
    using blockedE [OF assms(2)] by metis+
  show ?thesis using assms(1)
  proof (cases rule: process_msg_cases)
    case Clear
    thus ?thesis using assms(2) na by (simp add: Let_def)
  next
    case (Request m p)
    then obtain s1 st r2 where c: "(if change_pwd_busy s then Inr (s, False)
        else change_password (dr_now (tn_draws t)) s from p) = Inr (s1, st)"
      and m: "sendMessage (e_json E) s1
      ((initMessage (tn_uuid t) (ChangePwdResponse False []))\<lparr> m_body := ChangePwdResponse st (m_mId m) \<rparr>) None =
      Inr (s', r2)"
      by (auto simp: handle_request_def)
    have "blocked s1"
      using c assms(2) by (auto split: if_splits dest!: change_password_effect [OF _ ok] intro: blocked_dbs)
    thus ?thesis using sendMessage_effect [OF m] by auto
  next
    case (Response m st oMId)
    thus ?thesis using nr assms(2) by (auto simp: handle_response_def)
  next
    case (Ping m pad)
    thus ?thesis using assms(2) by (auto simp: handle_ping_def dest!: sendMessage_effect)
  next
    case (Pong m oMId pad)
    thus ?thesis using nr assms(2) by (auto simp: handle_pong_def)
  qed (use assms(2) in simp)
qed

lemma blocked_step:
  assumes "blocked s" "sess_step E s s'"
  shows "blocked s'"
  using assms(2)
proof (cases rule: sess_step.cases)
  case (Receive now silent received)
  from receive_task_effect [OF this(2)] show ?thesis
    using assms(1) blocked_stop [OF assms(1)] blocked_dbs [OF assms(1) secrets_to_kept] by auto
next
  case (Internal t t')
  obtain s3 ret where init: "initiateChallenge E t' s3 = Inr (s', ret)"
    and pre: "s3 = s \<or> (\<exists>q. s3 = s\<lparr> s_internal_q := q \<rparr>) \<or>
      (\<exists>q src m r. cyber_process_internal_msg E t (s\<lparr> s_internal_q := q \<rparr>) src m = Inr (s3, r))"
    by (rule internal_task_parts [OF Internal(2)])
  have "blocked s3" using pre assms(1) blocked_msg [of E t] by auto
  thus ?thesis using blocked_initiate init by blast
next
  case (Send now uuid)
  from send_task_effect [OF this(2)] show ?thesis
    using blocked_dbs [OF assms(1) secrets_to_kept] by auto
next
  case (App_send payload login ret)
  hence "s' = s" using assms(1) by (simp add: cyber_send_def blocked_def)
  thus ?thesis using assms(1) by simp
next
  case (App_wait p)
  thus ?thesis using assms(1) by (auto simp: waitForMessage_external_def split: list.splits)
next
  case Timeout
  thus ?thesis using assms(1) blocked_stop [OF assms(1)]
    by (simp add: handler_timeout_challenge_def split: option.split)
next
  case Stop
  thus ?thesis using blocked_stop [OF assms(1)] by simp
qed

interpretation blocking: step_invariant "sess_step E" blocked for E
  by unfold_locales (rule blocked_step)

section \<open>Property\<close>

text \<open>C10. A disabled login that is due for renewal blocks the session for ever: when the first login
  due in the order of the TO entries of the other site is not active, the first turn of the internal
  task leaves a challenge waiting that no later event ends; \<open>AllClear\<close> is never sent or announced and
  every message of the application is refused, even if other logins are active.\<close>
theorem inactive_login_blocks:
  assumes "auth_dbs_ok d"
    and "cyber_start (e_json E) u started False sent (Inr input) (prepared tab d loc rem leader) = Inr (s1, E_no_error)"
    and "s_remote s1 = Some r" "sIds_at d (Some ''to'') (Some r) = Some x"
    and "find (login_due (e_times E) (dr_now (tn_draws t'))) (s_logins x) = Some a" "\<not> a_active a"
    and "internal_task E t t' s1 = Inr s2" "sess_reach E s2 s"
  shows "\<not> s_ac_sent s \<and> EVENT_ALLCLEAR_EXCHANGED \<notin> set (s_events s) \<and>
    cyber_send s payload login = Inr (s, C_generic)"
proof -
  obtain w c r' where s1: "s1 = (prepared tab d loc rem leader)\<lparr> s_transport_up := True, s_wire := w,
      s_remote := Some r', s_cipher := Some c, s_tasks := True \<rparr>"
    using cyber_start_effect [OF assms(2)] by (auto simp: prepared_def)
  have f: "s_dbs s1 = d" "\<not> s_ac_sent s1" "s_events s1 = []" "s_internal_q s1 = []"
    "s_challenge s1 = Some challenge_ctxt_new"
    unfolding s1 by (simp_all add: prepared_def cyber_new_from_transport_def cyber_priv_new_def)
  let ?ctx = "auth_to_foreach (s_dbs s1) (s_remote s1)
      (searchLoginForChallenge (e_times E) (dr_now (tn_draws t'))) (s_challenge s1)"
  have "challenge_idle (s_challenge s1)" unfolding f(5) by (simp add: challenge_idle_def challenge_ctxt_new_def)
  from search_walk [OF this assms(5)] obtain ch where ch: "?ctx = Some ch" "ch_auth ch = Some (auth_id a)"
    "ch_toSend ch" "\<not> ch_running ch"
    using assms(3,4) f(1) by (auto simp: auth_to_foreach_walk)
  have at: "auth_at d (''to'', r, a_login a) = Some a"
    by (rule site_member_at [OF assms(1,4)]) (use assms(5) in \<open>auto simp: find_Some_iff\<close>)
  have id: "auth_id a = (''to'', r, a_login a)" by (rule auth_at_ok [OF assms(1) at])
  have b: "blocked (s1\<lparr> s_challenge := ?ctx \<rparr>)"
    using ch id at assms(1,3,6) f by (simp add: blocked_def)
  obtain ret where "initiateChallenge E t' s1 = Inr (s2, ret)"
    using assms(7) f(4) by (auto simp: internal_task_def)
  hence "initiateChallenge E t' (s1\<lparr> s_challenge := ?ctx \<rparr>) = Inr (s2, ret)"
    using \<open>challenge_idle (s_challenge s1)\<close> ch
    by (simp add: initiateChallenge_def choose_login_def challenge_idle_def Let_def)
  from blocking.inv_reach [OF assms(8) [unfolded sess_reach_star] blocked_initiate [OF b this]]
  show ?thesis by (simp add: blocked_def cyber_send_def)
qed

definition base_off :: dbs where
  "base_off = [\<lparr> d_dbId = ''to'', d_sIds = [\<lparr> s_sId = ''B'', s_logins =
     [(entry_sample ''to'' ''B'')\<lparr> a_login := ''off'', a_active := False \<rparr>, entry_sample ''to'' ''B''] \<rparr>] \<rparr>]"

definition turn_sample :: turn where
  "turn_sample = \<lparr> tn_draws = draws_sample\<lparr> dr_now := (200, 0) \<rparr>, tn_timer = True,
     tn_uuid = replicate 36 (CHR ''d''), tn_uuid_clear = replicate 36 (CHR ''e'') \<rparr>"

theorem inactive_login_blocks_witness:
  "\<exists>s. s_remote s = Some ''B'' \<and> s_dbs s = base_off \<and> cyber_send s ''x'' (Some ''l'') = Inr (s, C_generic)"
proof -
  let ?off = "(entry_sample ''to'' ''B'')\<lparr> a_login := ''off'', a_active := False \<rparr>"
  obtain input s where s: "cyber_start (e_json env_sample) ''u'' E_no_error False E_no_error (Inr input)
     (prepared cipher_table0 base_off (Some ''A'') (Some ''B'') False) = Inr (s, E_no_error)"
    "s_challenge s = Some challenge_ctxt_new" "s_dbs s = base_off" "s_remote s = Some ''B''" "s_internal_q s = []"
    using start_sample [of base_off] by (auto simp: env_sample_def)
  have ok: "auth_dbs_ok base_off" by code_simp
  have x: "sIds_at base_off (Some ''to'') (Some ''B'') =
      Some \<lparr> s_sId = ''B'', s_logins = [?off, entry_sample ''to'' ''B''] \<rparr>"
    by (simp add: base_off_def sIds_at_def auth_find_def)
  have due: "find (login_due (e_times env_sample) (dr_now (tn_draws turn_sample))) [?off, entry_sample ''to'' ''B''] = Some ?off"
    by (simp add: login_due_def triggerPeriod_positive env_sample_def turn_sample_def times_unary_def
        entry_sample_def auth_body_def Let_def)
  let ?search = "searchLoginForChallenge (e_times env_sample) (dr_now (tn_draws turn_sample))"
  have "challenge_idle (s_challenge s)" unfolding s(2) by (simp add: challenge_idle_def challenge_ctxt_new_def)
  from search_walk [OF this due] obtain ch where
    ch: "auth_to_foreach (s_dbs s) (s_remote s) ?search (s_challenge s) = Some ch" "ch_auth ch = Some (auth_id ?off)"
      "ch_toSend ch" "\<not> ch_running ch"
    using x s(3,4) by (auto simp: auth_to_foreach_walk)
  let ?s1 = "s\<lparr> s_challenge := Some ch \<rparr>"
  have "initiateChallenge env_sample turn_sample s = sendChallenge env_sample turn_sample ch ?s1"
    using \<open>challenge_idle (s_challenge s)\<close> ch by (simp add: initiateChallenge_def choose_login_def challenge_idle_def Let_def)
  moreover obtain s2 where s2: "sendChallenge env_sample turn_sample ch ?s1 = Inr (s2, Some C_generic)" "s_dbs s2 = base_off"
    "s_remote s2 = Some ''B''"
  proof -
    obtain r l c where "s_local s = Some l" "s_cipher s = Some c" by (rule sess_inv_parts [OF start_inv [OF ok s(1)]])
    moreover have "coder_auth_get base_off (Some ''off'') (Some ''B'') Act_encrypt = Inr (C_generic, Some ?off)"
      by (simp add: coder_auth_get_def auth_to_key_set_def auth_to_dbId_def auth_find_by_key_def auth_key_set_def
          auth_login_find_def x auth_find_def Let_def)
    ultimately show thesis using that ch(2,4) s(3,4)
      by (simp add: sendChallenge_def Challenge_encode_def Let_def auth_id_def)
  qed
  ultimately have "internal_task env_sample turn_sample turn_sample s = Inr s2"
    using s(5) by (simp add: internal_task_def)
  from inactive_login_blocks [OF ok s(1,4) x _ _ this Reach_refl, of ?off "''x''" "Some ''l''"] due s2
  show ?thesis by (intro exI [of _ s2]) (simp add: entry_sample_def)
qed

end
