(* ===== verification/SessionEffects.thy ===== *)
theory SessionEffects
  imports SessionBlocked
begin

text \<open>
  What the operations of a session change, one by one: the entry of the base a challenge or its answer
  is about, the queue of what is sent, and nothing of the logins of other sites.  The refinement of
  \<open>SessionSpec\<close> and the sessions that share a base (\<open>SharedBase\<close>) rest on it.
\<close>

section \<open>One entry of the base\<close>

definition entry_step :: "string \<times> string \<times> string \<Rightarrow> (auth \<Rightarrow> auth \<Rightarrow> bool) \<Rightarrow> dbs \<Rightarrow> dbs \<Rightarrow> bool" where
  "entry_step k R d d' \<longleftrightarrow>
    auth_dbs_ok d \<longrightarrow> auth_dbs_ok d' \<and>
      (\<forall>k'. rel_option (if k' = k then R else same_but_secrets) (auth_at d k') (auth_at d' k'))"

lemma secrets_entry:
  assumes "secrets_step d d'" "\<And>a b. same_but_secrets a b \<Longrightarrow> R a b"
  shows "entry_step k R d d'"
proof -
  have "rel_option (if k' = k then R else same_but_secrets) (auth_at d k') (auth_at d' k')" if "auth_dbs_ok d" for k'
  proof -
    have "case auth_at d k' of None \<Rightarrow> auth_at d' k' = None
        | Some a \<Rightarrow> \<exists>a'. auth_at d' k' = Some a' \<and> same_but_secrets a a'"
      using assms(1) that unfolding secrets_step_def by blast
    thus ?thesis using assms(2) by (auto split: option.splits)
  qed
  thus ?thesis using assms(1) by (simp add: entry_step_def secrets_step_def)
qed

lemma put_entry:
  assumes "auth_at d k = Some a" "auth_id a1 = k" "R a a1"
  shows "entry_step k R d (put_auth d a1)"
  unfolding entry_step_def using put_auth_at [OF _ assms(1,2)] assms by (auto simp: option.rel_refl)

lemma entry_step_trans:
  assumes "entry_step k R d d1" "entry_step k S d1 d2" "\<And>a b c. R a b \<Longrightarrow> S b c \<Longrightarrow> Q a c"
  shows "entry_step k Q d d2"
proof -
  have "rel_option (if k' = k then Q else same_but_secrets) x z"
    if "rel_option (if k' = k then R else same_but_secrets) x y" "rel_option (if k' = k then S else same_but_secrets) y z"
    for k' x y z
    using that assms(3) by (cases x; cases y; cases z) (auto intro: same_but_secrets_trans split: if_splits)
  thus ?thesis using assms(1,2) unfolding entry_step_def by blast
qed

lemma entry_stepD:
  assumes "entry_step k R d d'" "auth_dbs_ok d"
  shows "auth_dbs_ok d'" "rel_option R (auth_at d k) (auth_at d' k)"
    "k' \<noteq> k \<Longrightarrow> rel_option same_but_secrets (auth_at d k') (auth_at d' k')"
proof -
  have e: "auth_dbs_ok d'" "\<forall>k'. rel_option (if k' = k then R else same_but_secrets) (auth_at d k') (auth_at d' k')"
    using assms unfolding entry_step_def by blast+
  show "auth_dbs_ok d'" by (rule e(1))
  show "rel_option R (auth_at d k) (auth_at d' k)" using e(2) [rule_format, of k] by simp
  show "k' \<noteq> k \<Longrightarrow> rel_option same_but_secrets (auth_at d k') (auth_at d' k')" using e(2) [rule_format, of k'] by simp
qed

lemma entry_step_refl: "(\<And>a. R a a) \<Longrightarrow> entry_step k R d d"
  by (auto simp: entry_step_def intro!: option.rel_refl)

lemma same_but_secrets_fields:
  "same_but_secrets a b \<Longrightarrow> a_active b = a_active a \<and> a_timestamp b = a_timestamp a \<and>
    a_new_pwd_pending b = a_new_pwd_pending a"
proof -
  assume "same_but_secrets a b"
  then obtain ss where "b = a\<lparr> a_secrets := ss \<rparr>" by (auto simp: same_but_secrets_def)
  thus ?thesis by simp
qed

text \<open>What a challenge may do to the entry it is for, and what its answer does.\<close>
definition challenged :: "auth \<Rightarrow> auth \<Rightarrow> bool" where
  "challenged a b \<longleftrightarrow> a_active b = a_active a \<and> a_timestamp b = a_timestamp a \<and>
    (a_new_pwd_pending a \<longrightarrow> a_new_pwd_pending b) \<and> (a_new_pwd_pending b \<longrightarrow> a_new_pwd_pending a \<or> a_active a)"

definition switched :: "horodate \<Rightarrow> auth \<Rightarrow> auth \<Rightarrow> bool" where
  "switched now a b \<longleftrightarrow> a_active b = a_active a \<and> a_timestamp b = now \<and> \<not> a_new_pwd_pending b"

lemma same_challenged: "same_but_secrets a b \<Longrightarrow> challenged a b"
  by (simp add: challenged_def same_but_secrets_fields)

lemma switched_same: "switched now a b \<Longrightarrow> same_but_secrets b c \<Longrightarrow> switched now a c"
  by (auto simp: switched_def dest: same_but_secrets_fields)

lemma challenged_trans: "challenged a b \<Longrightarrow> challenged b c \<Longrightarrow> challenged a c"
  by (auto simp: challenged_def)

lemma new_pwd_challenged: "auth_get_new_pwd_b64 rnds a = Inr (a1, e, t) \<Longrightarrow> challenged a a1"
  by (auto simp: auth_get_new_pwd_b64_def auth_gen_new_pwd_def challenged_def split: if_splits option.splits)

lemma coder_auth_get_to:
  "coder_auth_get d (Some s) (Some r) Act_encrypt = Inr
    (case auth_at d (''to'', r, s) of None \<Rightarrow> (A_unknown, None)
     | Some a \<Rightarrow> (if a_active a then E_no_error else C_generic, Some a))"
  by (simp add: coder_auth_get_def auth_to_key_set_def auth_to_dbId_def auth_find_by_key_def auth_key_set_def
      auth_at_def Let_def)

lemma messages_keep:
  "challenge_messages J e T dr c l a pwd cur new d ch = Inr (d', ch', res) \<Longrightarrow> d' = d \<and> ch_auth ch' = ch_auth ch"
  using challenge_messages_error [of J e T dr c l a pwd cur new d ch d' ch']
    challenge_messages_success [of J e T dr c l a pwd cur new d ch d' ch']
  by (cases res) auto

text \<open>A challenge changes no entry but the one of its login, whether it is made or fails, and is about
  that entry when there is one.\<close>
lemma Challenge_encode_entry:
  assumes "auth_dbs_ok d"
    and run: "Challenge_encode J e T pos dr d ch cipher loc (Some s) (Some r) = Inr (d', ch', res)"
  shows "entry_step (''to'', r, s) challenged d d' \<and>
    (ch_auth ch' = ch_auth ch \<or> ch_auth ch' = None \<or> ch_auth ch' = Some (''to'', r, s))"
proof (cases "cipher = None \<or> loc = None \<or> ch_running ch")
  case True
  thus ?thesis using run
    by (auto simp: Challenge_encode_def challenged_def intro: entry_step_refl split: option.splits if_splits)
next
  case False
  then obtain c l where v: "cipher = Some c" "loc = Some l" "\<not> ch_running ch" by auto
  let ?ch = "\<lambda>f. (freeChallengeContextMembers ch)\<lparr> ch_auth := map_option auth_id f \<rparr>"
  have refl: "entry_step k challenged x x" for k x by (rule entry_step_refl) (simp add: challenged_def)
  show ?thesis
  proof (cases "auth_at d (''to'', r, s)")
    case None
    thus ?thesis using run v refl by (auto simp: Challenge_encode_def coder_auth_get_to Let_def)
  next
    case (Some a)
    have id: "auth_id a = (''to'', r, s)" by (rule auth_at_ok [OF assms(1) Some])
    show ?thesis
    proof (cases "a_active a")
      case False
      thus ?thesis using run v Some id refl by (auto simp: Challenge_encode_def coder_auth_get_to Let_def)
    next
      case act: True
      obtain a1 ret1 pwd where p: "auth_get_new_pwd_b64 (dr_pwd dr) a = Inr (a1, ret1, pwd)"
        using run v Some act
        by (auto simp: Challenge_encode_def coder_auth_get_to Let_def run_cases simp del: rbind_Inr_iff)
      have id1: "auth_id a1 = (''to'', r, s)" using auth_ops_id [OF p] id by simp
      have k1: "entry_step (''to'', r, s) challenged d (put_auth d a1)"
        by (rule put_entry [where R = challenged, OF Some id1 new_pwd_challenged [OF p]])
      show ?thesis
      proof (cases "ret1 = E_no_error")
        case False
        thus ?thesis using run v Some act p id k1 by (auto simp: Challenge_encode_def coder_auth_get_to Let_def)
      next
        case ok: True
        then obtain b64 where b: "pwd = Some b64"
          using run v Some act p by (cases pwd) (auto simp: Challenge_encode_def coder_auth_get_to Let_def)
        obtain a2 sec where sec: "coder_secret_get e pos c a1 l Act_encrypt = Inr (a2, sec)"
          using run v Some act p ok b
          by (auto simp: Challenge_encode_def coder_auth_get_to Let_def run_cases simp del: rbind_Inr_iff)
        have "auth_at (put_auth d a1) (auth_id a1) = Some a1"
          using put_auth_at(2) [OF assms(1) Some, of a1] id1 by simp
        from put_auth_secrets [OF this coder_secret_get_entry [OF sec]]
        have "entry_step (''to'', r, s) challenged (put_auth d a1) (put_auth (put_auth d a1) a2)"
          by (rule secrets_entry) (rule same_challenged)
        hence k2: "entry_step (''to'', r, s) challenged d (put_auth (put_auth d a1) a2)"
          by (rule entry_step_trans [OF k1]) (rule challenged_trans)
        show ?thesis
        proof (cases "\<exists>cur nw. sec = Inr cur \<and> computeNewSecretAuthTo e c l a2 = Inr (Some nw)")
          case True
          then obtain cur nw where n: "sec = Inr cur" "computeNewSecretAuthTo e c l a2 = Inr (Some nw)" by blast
          have "challenge_messages J e T dr c l a2 b64 cur nw (put_auth (put_auth d a1) a2) (?ch (Some a)) =
              Inr (d', ch', res)"
            using run v Some act p ok b sec n by (simp add: Challenge_encode_def coder_auth_get_to Let_def)
          from messages_keep [OF this] show ?thesis using k2 id by simp
        next
          case False
          hence "d' = put_auth (put_auth d a1) a2 \<and> ch' = ?ch (Some a)"
            using run v Some act p ok b sec
            by (cases sec) (auto simp: Challenge_encode_def coder_auth_get_to Let_def split: option.splits)
          thus ?thesis using k2 id by simp
        qed
      qed
    qed
  qed
qed

text \<open>The switch to the new password: the entry of the challenge, or nothing.\<close>
lemma switch_password_entry:
  assumes "auth_dbs_ok (s_dbs s)" "ch_auth ch = Some k" "switch_password now s ch = Inr (s', ret)"
  shows "\<exists>d. s' = s\<lparr> s_dbs := d \<rparr> \<and>
    entry_step k (if ret = E_no_error then switched now else same_but_secrets) (s_dbs s) d"
proof -
  obtain a where a: "auth_at (s_dbs s) k = Some a"
    using assms(2,3) by (auto simp: switch_password_def split: option.splits)
  have id: "auth_id a = k" by (rule auth_at_ok [OF assms(1) a])
  obtain a1 r1 where sw: "auth_switch_to_new_pwd now a = Inr (a1, r1)"
    using assms(2,3) a by (auto simp: switch_password_def)
  have r1: "auth_id a1 = k \<and> (if r1 = E_no_error then switched now a a1 else same_but_secrets a a1)"
    using sw id by (auto simp: auth_switch_to_new_pwd_def auth_forget_new_pwd_def auth_id_def switched_def
        split: if_splits option.splits)
  let ?R = "if r1 = E_no_error then switched now else same_but_secrets"
  have "?R a a1" using r1 by (simp split: if_splits)
  hence k1: "entry_step k ?R (s_dbs s) (put_auth (s_dbs s) a1)"
    by (rule put_entry [OF a conjunct1 [OF r1]])
  show ?thesis
  proof (cases "r1 = E_no_error")
    case False
    hence "s' = s\<lparr> s_dbs := put_auth (s_dbs s) a1 \<rparr>" "ret \<noteq> E_no_error"
      using assms(2,3) a sw by (auto simp: switch_password_def put_session_auth_def Let_def)
    thus ?thesis using k1 False by auto
  next
    case True
    then obtain s2 where p: "purge_secret (put_session_auth s a1) k = Inr s2" "s' = s2" "ret = E_no_error"
      using assms(2,3) a sw by (auto simp: switch_password_def Let_def)
    obtain d where d: "s2 = (put_session_auth s a1)\<lparr> s_dbs := d \<rparr>" "secrets_step (put_auth (s_dbs s) a1) d"
      using purge_secrets [OF p(1)] by (auto simp: put_session_auth_def)
    have "entry_step k same_but_secrets (put_auth (s_dbs s) a1) d" by (rule secrets_entry [OF d(2)])
    hence "entry_step k (switched now) (s_dbs s) d"
      by (rule entry_step_trans [OF k1 [unfolded True, simplified]]) (rule switched_same)
    moreover have "s' = s\<lparr> s_dbs := d \<rparr>" using p(2) d(1) by (simp add: put_session_auth_def)
    ultimately show ?thesis using p(3) by auto
  qed
qed

text \<open>A message of the securing layer goes to the end of the queue, or is refused.\<close>
lemma sendMessage_queue:
  assumes "sendMessage J s m login = Inr (s', ret)"
  shows "s' = s \<and> ret = C_generic \<or>
    ret = E_no_error \<and> (\<exists>x. s' = s\<lparr> s_send_q := s_send_q s @ [x] \<rparr> \<and> o_encrypt x \<and> o_login x = login)"
proof -
  obtain ok where ok: "messageCheckFields (Some m) = Inr ok" using assms by (auto simp: sendMessage_def)
  show ?thesis
  proof (cases ok)
    case True
    obtain ser where "serializeMessage J (Some m) = Inr ser" using assms ok True by (auto simp: sendMessage_def)
    thus ?thesis using assms ok True
      by (cases ser) (auto simp: sendMessage_def send_optional_encryption_def split: if_splits)
  qed (use assms ok in \<open>simp add: sendMessage_def\<close>)
qed

text \<open>What is sent leaves the head of the queue.\<close>
lemma send_task_queue:
  assumes "send_task E now uuid s = Inr s'"
  shows "\<exists>d w. s' = s\<lparr> s_dbs := d, s_send_q := tl (s_send_q s), s_wire := w \<rparr> \<and> secrets_step (s_dbs s) d"
proof (cases "s_send_q s")
  case Nil
  hence "s' = s\<lparr> s_dbs := s_dbs s, s_send_q := tl (s_send_q s), s_wire := s_wire s \<rparr>"
    using assms by (simp add: send_task_def)
  thus ?thesis using secrets_step_refl by blast
next
  case (Cons m rest)
  show ?thesis
  proof (cases "o_encrypt m")
    case False
    hence "s' = s\<lparr> s_dbs := s_dbs s, s_send_q := tl (s_send_q s), s_wire := s_wire s @ [o_buf m] \<rparr>"
      using assms Cons by (simp add: send_task_def)
    thus ?thesis using secrets_step_refl by blast
  next
    case True
    then obtain ret where "Encrypted_write E now uuid (s\<lparr> s_send_q := rest \<rparr>) (o_login m) (o_buf m) = Inr (s', ret)"
      using assms Cons by (auto simp: send_task_def Let_def)
    from Encrypted_write_effect [OF this] obtain d w where
      "s' = s\<lparr> s_send_q := rest, s_dbs := d, s_wire := w \<rparr>" "secrets_step (s_dbs s) d" by auto
    thus ?thesis using Cons by (intro exI [of _ d] exI [of _ w]) simp
  qed
qed

section \<open>Logins of other sites\<close>

text \<open>The base stays a map, and the TO entries of the other sites stay but for their secrets.\<close>
definition site_step :: "string \<Rightarrow> dbs \<Rightarrow> dbs \<Rightarrow> bool" where
  "site_step r d d' \<longleftrightarrow>
    auth_dbs_ok d \<longrightarrow> auth_dbs_ok d' \<and>
      (\<forall>q l. q \<noteq> r \<longrightarrow> rel_option same_but_secrets (auth_at d (''to'', q, l)) (auth_at d' (''to'', q, l)))"

lemma to_kept_site: "to_kept d d' \<Longrightarrow> site_step r d d'"
  by (auto simp: to_kept_def site_step_def)

lemma site_step_refl [simp]: "site_step r d d"
  by (rule to_kept_site) simp

lemma entry_site: "entry_step (''to'', r, l) R d d' \<Longrightarrow> site_step r d d'"
  unfolding site_step_def by (auto dest: entry_stepD(1) intro: entry_stepD(3))

lemma site_step_trans:
  assumes "site_step r d d1" "site_step r d1 d2"
  shows "site_step r d d2"
proof -
  have "rel_option same_but_secrets x z"
    if "rel_option same_but_secrets x y" "rel_option same_but_secrets y z" for x y z
    using that by (cases x; cases y; cases z) (auto intro: same_but_secrets_trans)
  thus ?thesis using assms unfolding site_step_def by blast
qed

text \<open>What holds of a session whatever others do to the base it uses: it is complete, its events are in
  order, and its challenge is for a login of its own site.\<close>
definition own_challenge :: "string \<Rightarrow> challenge option \<Rightarrow> bool" where
  "own_challenge r ctx \<longleftrightarrow>
    (case ctx of None \<Rightarrow> True | Some ch \<Rightarrow> (case ch_auth ch of None \<Rightarrow> True | Some i \<Rightarrow> fst i = ''to'' \<and> fst (snd i) = r))"

definition own_inv :: "session \<Rightarrow> bool" where
  "own_inv s \<longleftrightarrow>
    auth_dbs_ok (s_dbs s) \<and> s_local s \<noteq> None \<and> s_cipher s \<noteq> None \<and> events_ok s \<and>
    (case s_remote s of None \<Rightarrow> False | Some r \<Rightarrow> own_challenge r (s_challenge s))"

definition own_next :: "session \<Rightarrow> session \<Rightarrow> bool" where
  "own_next s s' \<longleftrightarrow>
    (own_inv s \<longrightarrow> own_inv s' \<and> s_remote s' = s_remote s \<and> s_local s' = s_local s \<and>
      (\<forall>r. s_remote s = Some r \<longrightarrow> site_step r (s_dbs s) (s_dbs s')))"

lemma own_next_refl [simp]: "own_next s s"
  by (simp add: own_next_def)

lemma own_next_trans: "own_next s s1 \<Longrightarrow> own_next s1 s2 \<Longrightarrow> own_next s s2"
  unfolding own_next_def using site_step_trans by (metis (no_types, lifting))

lemma own_next_queues [simp]:
  "own_next s (s\<lparr> s_send_q := q \<rparr>)" "own_next s (s\<lparr> s_internal_q := i \<rparr>)" "own_next s (s\<lparr> s_external_q := i \<rparr>)"
  "own_next s (s\<lparr> s_wire := w \<rparr>)" "own_next s (trigger EVENT_CHALLENGE_PROCESSING s)"
  by (simp_all add: own_next_def own_inv_def events_ok_def trigger_def cong: option.case_cong)

lemma own_next_challenge:
  "(\<And>r. s_remote s = Some r \<Longrightarrow> own_challenge r (s_challenge s) \<Longrightarrow> own_challenge r c) \<Longrightarrow>
    own_next s (s\<lparr> s_challenge := c \<rparr>)"
  by (auto simp: own_next_def own_inv_def events_ok_def split: option.splits)

lemma own_next_dbs:
  "(\<And>r. auth_dbs_ok (s_dbs s) \<Longrightarrow> s_remote s = Some r \<Longrightarrow> own_challenge r (s_challenge s) \<Longrightarrow> site_step r (s_dbs s) d) \<Longrightarrow>
    own_next s (s\<lparr> s_dbs := d \<rparr>)"
  by (auto simp: own_next_def own_inv_def events_ok_def site_step_def split: option.splits)

lemma own_next_flags:
  "own_next s (let s1 = s\<lparr> s_ac_rxed := True \<rparr> in if s_ac_sent s then trigger EVENT_ALLCLEAR_EXCHANGED s1 else s1)"
  "own_next s (let s1 = s\<lparr> s_ac_sent := True \<rparr> in if s_ac_rxed s then trigger EVENT_ALLCLEAR_EXCHANGED s1 else s1)"
  by (auto simp: own_next_def own_inv_def events_ok_def trigger_def Let_def cong: option.case_cong)

lemma own_next_stop: "own_next s (cyber_stop s)"
  by (auto simp: own_next_def own_inv_def events_ok_def cyber_stop_def trigger_def own_challenge_def
      stopTimerResponse_def split: option.splits)

text \<open>The operations, in the order of \<open>cyber.c\<close>.\<close>
lemma sendMessage_own: "sendMessage J s m login = Inr (s', ret) \<Longrightarrow> own_next s s'"
  by (auto dest!: sendMessage_effect)

lemma sendAllClear_own:
  assumes "sendAllClear E uuid s = Inr (s', ret)"
  shows "own_next s s'"
proof -
  obtain s1 r1 where m: "sendMessage (e_json E) s (initMessage uuid AllClear) None = Inr (s1, r1)"
    and s': "s' = s1 \<or> s' = (let s2 = s1\<lparr> s_ac_sent := True \<rparr>
      in if s_ac_rxed s1 then trigger EVENT_ALLCLEAR_EXCHANGED s2 else s2)"
    using assms by (auto simp: sendAllClear_def Let_def split: if_splits)
  have "own_next s1 s'" using s' own_next_flags(2) [of s1] by auto
  thus ?thesis by (rule own_next_trans [OF sendMessage_own [OF m]])
qed

lemma sendChallenge_own:
  assumes ch: "s_challenge s = Some ch" and run: "sendChallenge E t ch s = Inr (s', ret)"
  shows "own_next s s'"
proof (cases "own_inv s")
  case True
  then obtain r where r: "s_remote s = Some r" "auth_dbs_ok (s_dbs s)" "own_challenge r (s_challenge s)"
    by (auto simp: own_inv_def split: option.splits)
  obtain k where k: "ch_auth ch = Some k" using run by (auto simp: sendChallenge_def split: option.splits)
  hence kr: "k = (''to'', r, snd (snd k))" using r(3) ch by (cases k) (simp add: own_challenge_def)
  obtain d1 ch1 res where enc: "Challenge_encode (e_json E) (e_evp E) (e_times E) (e_pos E) (tn_draws t) (s_dbs s)
      ch (s_cipher s) (s_local s) (Some (snd (snd k))) (Some r) = Inr (d1, ch1, res)"
    using run k r by (auto simp: sendChallenge_def)
  note eff = Challenge_encode_entry [OF r(2) enc]
  have own: "own_challenge r (Some ch1)" using eff k kr by (cases k) (auto simp: own_challenge_def)
  have "own_next s (s\<lparr> s_dbs := d1 \<rparr>)" using eff r by (intro own_next_dbs) (auto intro: entry_site)
  hence base: "own_next s (s\<lparr> s_dbs := d1, s_challenge := Some c \<rparr>)" if "ch_auth c = ch_auth ch1" for c
  proof -
    have "own_next (s\<lparr> s_dbs := d1 \<rparr>) (s\<lparr> s_dbs := d1, s_challenge := Some c \<rparr>)"
      using own that r(1) by (intro own_next_challenge) (auto simp: own_challenge_def)
    thus ?thesis by (rule own_next_trans [OF \<open>own_next s (s\<lparr> s_dbs := d1 \<rparr>)\<close>])
  qed
  show ?thesis
  proof (cases res)
    case (Inl err)
    thus ?thesis using run k r enc base [of ch1] by (simp add: sendChallenge_def Let_def)
  next
    case (Inr payload)
    obtain q where "s' = s\<lparr> s_dbs := d1, s_send_q := q, s_challenge :=
        Some (ch1\<lparr> ch_running := True, ch_toSend := False, ch_timer := tn_timer t \<rparr>) \<rparr>"
      using run k r enc Inr
      by (auto simp: sendChallenge_def Let_def send_optional_encryption_def launchTimerResponse_def
          split: option.splits if_splits)
    hence "s' = (s\<lparr> s_dbs := d1, s_challenge :=
        Some (ch1\<lparr> ch_running := True, ch_toSend := False, ch_timer := tn_timer t \<rparr>) \<rparr>)\<lparr> s_send_q := q \<rparr>" by simp
    thus ?thesis using own_next_trans [OF base own_next_queues(1)] by simp
  qed
qed (simp add: own_next_def)

lemma search_own:
  assumes "own_challenge r ctx" "a_dbId a = ''to''" "a_sId a = r"
  shows "own_challenge r (fst (searchLoginForChallenge T now ctx a))"
  using assms
  by (cases ctx) (auto simp: searchLoginForChallenge_def own_challenge_def Let_def challenge_ctxt_new_def auth_id_def
      freeChallengeContext_def split: option.splits)

lemma choose_login_own: "own_next s (choose_login E t s)"
proof (cases "own_inv s \<and> challenge_idle (s_challenge s)")
  case True
  then obtain r where r: "s_remote s = Some r" "auth_dbs_ok (s_dbs s)" "own_challenge r (s_challenge s)"
    by (auto simp: own_inv_def split: option.splits)
  have "own_challenge r (auth_to_foreach (s_dbs s) (Some r)
      (searchLoginForChallenge (e_times E) (dr_now (tn_draws t))) (s_challenge s))"
    by (rule auth_to_foreach_keeps [where P = "own_challenge r", OF r(2,3)]) (rule search_own)
  thus ?thesis using True r(1) by (simp add: choose_login_def) (intro own_next_challenge, simp)
qed (auto simp: own_next_def choose_login_def)

lemma initiateChallenge_own:
  assumes "initiateChallenge E t s = Inr (s', ret)"
  shows "own_next s s'"
  using assms
proof (cases rule: initiateChallenge_cases)
  case Clear
  show ?thesis by (rule own_next_trans [OF choose_login_own sendAllClear_own [OF Clear(2)]])
next
  case (Challenge ch)
  show ?thesis by (rule own_next_trans [OF choose_login_own sendChallenge_own [OF Challenge(1,3)]])
qed (simp add: choose_login_own)

lemma change_password_own:
  assumes "change_password now s from pwd = Inr (s', st)"
  shows "own_next s s'"
proof (cases "own_inv s")
  case True
  hence "auth_dbs_ok (s_dbs s)" by (simp add: own_inv_def)
  from change_password_effect [OF assms this] show ?thesis
    by (auto intro!: own_next_dbs to_kept_site)
qed (simp add: own_next_def)

lemma handle_request_own:
  assumes "handle_request E t s from mId pwd = Inr (s', ret)"
  shows "own_next s s'"
proof -
  obtain s1 st r2 where c: "(if change_pwd_busy s then Inr (s, False)
      else change_password (dr_now (tn_draws t)) s from pwd) = Inr (s1, st)"
    and m: "sendMessage (e_json E) s1
      ((initMessage (tn_uuid t) (ChangePwdResponse False []))\<lparr> m_body := ChangePwdResponse st mId \<rparr>) None = Inr (s', r2)"
    using assms by (auto simp: handle_request_def)
  have "own_next s s1" using c change_password_own by (auto split: if_splits)
  thus ?thesis by (rule own_next_trans [OF _ sendMessage_own [OF m]])
qed

lemma switch_password_own:
  assumes "s_challenge s = Some ch" "ch_auth ch0 = ch_auth ch"
    and "switch_password now (s\<lparr> s_challenge := Some ch0 \<rparr>) ch0 = Inr (s', ret)"
  shows "own_next s s' \<and> s_challenge s' = Some ch0"
proof (cases "own_inv s")
  case True
  then obtain r where r: "s_remote s = Some r" "auth_dbs_ok (s_dbs s)" "own_challenge r (s_challenge s)"
    by (auto simp: own_inv_def split: option.splits)
  obtain k where k: "ch_auth ch0 = Some k" using assms(3) by (auto simp: switch_password_def split: option.splits)
  hence kr: "k = (''to'', r, snd (snd k))" using r(3) assms(1,2) by (cases k) (simp add: own_challenge_def)
  obtain d R where d: "s' = s\<lparr> s_challenge := Some ch0, s_dbs := d \<rparr>" "entry_step k R (s_dbs s) d"
    using switch_password_entry [OF _ k assms(3)] r(2) by auto
  have "site_step r (s_dbs s) d" using d(2) kr entry_site by metis
  hence "own_next s (s\<lparr> s_dbs := d \<rparr>)" using r by (intro own_next_dbs) simp
  moreover have "own_next (s\<lparr> s_dbs := d \<rparr>) (s\<lparr> s_dbs := d, s_challenge := Some ch0 \<rparr>)"
    using r k kr assms(1,2) by (intro own_next_challenge) (cases k, simp add: own_challenge_def)
  ultimately have "own_next s (s\<lparr> s_dbs := d, s_challenge := Some ch0 \<rparr>)" by (rule own_next_trans)
  moreover have "s' = s\<lparr> s_dbs := d, s_challenge := Some ch0 \<rparr>" using d(1) by simp
  ultimately show ?thesis by simp
next
  case False
  have "s_challenge s' = Some ch0"
    using assms(3) purge_secrets
    by (fastforce simp: switch_password_def Let_def put_session_auth_def split: option.splits if_splits)
  thus ?thesis using False by (simp add: own_next_def)
qed

lemma next_challenge_own:
  assumes "s_challenge s = Some ch" "ch_auth ch0 = ch_auth ch" "next_challenge E t ch0 resp s = Inr (s', ret)"
  shows "own_next s s'"
proof -
  let ?s1 = "s\<lparr> s_challenge := Some (ch0\<lparr> ch_running := False, ch_response := resp \<rparr>) \<rparr>"
  have "own_next s ?s1" by (intro own_next_challenge) (use assms(1,2) in \<open>simp add: own_challenge_def\<close>)
  hence "own_next s (trigger EVENT_CHALLENGE_PROCESSING ?s1)" by (rule own_next_trans [OF _ own_next_queues(5)])
  moreover have "initiateChallenge E t (trigger EVENT_CHALLENGE_PROCESSING ?s1) = Inr (s', ret)"
    using assms(3) by (simp add: next_challenge_def)
  ultimately show ?thesis using own_next_trans initiateChallenge_own by blast
qed

lemma handle_response_own:
  assumes run: "handle_response E t s status oMId = Inr (s', ret)"
  shows "own_next s s'"
proof (cases "\<exists>ch. s_challenge s = Some ch \<and> ch_running ch \<and> ch_mIdRequest ch = Some oMId")
  case False
  hence "s' = s" using run
    by (cases "s_challenge s") (auto simp: handle_response_def split: option.splits if_splits simp del: rbind_Inr_iff)
  thus ?thesis by simp
next
  case True
  then obtain ch where ch: "s_challenge s = Some ch" "ch_running ch" "ch_mIdRequest ch = Some oMId" by blast
  show ?thesis
  proof (cases status)
    case False
    have "next_challenge E t (ch\<lparr> ch_timer := False \<rparr>) Resp_busy s = Inr (s', ret)"
      using run ch False by (simp add: handle_response_def Let_def)
    thus ?thesis by (rule next_challenge_own [OF ch(1), rotated]) simp
  next
    case True
    let ?ch = "ch\<lparr> ch_timer := False, ch_response := Resp_success \<rparr>"
    obtain s1 r1 where sw: "switch_password (dr_now (tn_draws t)) (s\<lparr> s_challenge := Some ?ch \<rparr>) ?ch = Inr (s1, r1)"
      and nx: "s' = s1 \<or> next_challenge E t ?ch Resp_success s1 = Inr (s', ret)"
      using run ch True by (auto simp: handle_response_def Let_def split: if_splits)
    have o: "own_next s s1" "s_challenge s1 = Some ?ch" using switch_password_own [OF ch(1) _ sw] by simp_all
    show ?thesis using nx o(1) own_next_trans [OF o(1) next_challenge_own [OF o(2) refl]] by blast
  qed
qed

lemma handle_pong_own:
  assumes run: "handle_pong E t s oMId = Inr (s', ret)"
  shows "own_next s s'"
proof (cases "\<exists>ch. s_challenge s = Some ch \<and> ch_running ch \<and> ch_mIdPing ch = Some oMId")
  case False
  hence "s' = s" using run
    by (cases "s_challenge s") (auto simp: handle_pong_def split: option.splits if_splits simp del: rbind_Inr_iff)
  thus ?thesis by simp
next
  case True
  then obtain ch where ch: "s_challenge s = Some ch" "ch_running ch" "ch_mIdPing ch = Some oMId" by blast
  let ?ch = "ch\<lparr> ch_timer := False \<rparr>"
  obtain s1 r1 where sw: "switch_password (dr_now (tn_draws t)) (s\<lparr> s_challenge := Some ?ch \<rparr>) ?ch = Inr (s1, r1)"
    and nx: "s' = s1 \<or> next_challenge E t ?ch Resp_success s1 = Inr (s', ret)"
    using run ch by (auto simp: handle_pong_def Let_def split: if_splits)
  have o: "own_next s s1" "s_challenge s1 = Some ?ch" using switch_password_own [OF ch(1) _ sw] by simp_all
  show ?thesis using nx o(1) own_next_trans [OF o(1) next_challenge_own [OF o(2) refl]] by blast
qed

lemma process_msg_own:
  assumes "cyber_process_internal_msg E t s from msg = Inr (s', ret)"
  shows "own_next s s'"
  using assms
proof (cases rule: process_msg_cases)
  case Clear
  thus ?thesis by (simp only: own_next_flags(1))
qed (auto intro: handle_request_own handle_response_own handle_pong_own simp: handle_ping_def dest: sendMessage_own)

text \<open>A step of a session keeps what is its own, and leaves the logins of the other sites alone.\<close>
lemma sess_step_own:
  assumes "sess_step E s s'"
  shows "own_next s s'"
  using assms
proof (cases rule: sess_step.cases)
  case (Receive now silent received)
  have "own_next s (s\<lparr> s_dbs := d, s_internal_q := iq, s_external_q := eq \<rparr>)" if "secrets_step (s_dbs s) d" for d iq eq
    using own_next_trans [OF own_next_trans [OF own_next_dbs own_next_queues(2)] own_next_queues(3)]
      to_kept_site [OF secrets_to_kept [OF that]] by blast
  thus ?thesis using receive_task_effect [OF Receive(2)] own_next_stop by auto
next
  case (Internal t t')
  obtain s3 ret where init: "initiateChallenge E t' s3 = Inr (s', ret)"
    and pre: "s3 = s \<or> (\<exists>q. s3 = s\<lparr> s_internal_q := q \<rparr>) \<or>
      (\<exists>q src m r. cyber_process_internal_msg E t (s\<lparr> s_internal_q := q \<rparr>) src m = Inr (s3, r))"
    by (rule internal_task_parts [OF Internal(2)])
  have "own_next s s3" using pre own_next_trans [OF own_next_queues(2) process_msg_own] by auto
  thus ?thesis by (rule own_next_trans [OF _ initiateChallenge_own [OF init]])
next
  case (Send now uuid)
  then obtain q d w where d: "s' = s\<lparr> s_dbs := d, s_send_q := q, s_wire := w \<rparr>" "secrets_step (s_dbs s) d"
    using send_task_effect by blast
  have "own_next s (s\<lparr> s_dbs := d \<rparr>)" by (intro own_next_dbs to_kept_site secrets_to_kept d(2))
  thus ?thesis unfolding d(1) using own_next_trans own_next_queues(1,4) by blast
next
  case (App_send payload login ret)
  from cyber_send_effect [OF this] show ?thesis by auto
next
  case (App_wait p)
  thus ?thesis by (auto simp: waitForMessage_external_def split: list.splits)
next
  case Timeout
  thus ?thesis by (auto simp: handler_timeout_challenge_def own_next_stop split: option.split)
next
  case Stop
  thus ?thesis by (simp add: own_next_stop)
qed

lemma own_step: "own_inv s \<Longrightarrow> sess_step E s s' \<Longrightarrow> own_inv s'"
  using sess_step_own [of E s s'] by (simp add: own_next_def)

interpretation own: step_invariant "sess_step E" own_inv for E
  by unfold_locales (rule own_step)

end
