(* ===== verification/SessionSpec.thy ===== *)
theory SessionSpec
  imports SessionEffects
begin

text \<open>
  What a session of \<open>cyber/cyber.c\<close> promises, as a machine: the logins of the other site with the dates of
  their passwords, the one that waits for its challenge or has been challenged, whether \<open>AllClear\<close> came
  and went, the queue of what leaves, the events announced, and whether the session is lost.  Every step
  of the code is one step of this machine, which says exactly what each may change.
\<close>

section \<open>The machine\<close>

datatype phase = Quiet | Waiting "string \<times> string \<times> string" | Asked "string \<times> string \<times> string"

text \<open>What waits to leave: a challenge for a login, in the clear, or a message that will be encrypted
  under a login, the first of the site when none is given.\<close>
datatype leaving = Asking cstr | Sealed cstr

text \<open>A login: whether it is active, whether a new password is pending, the date of its password.\<close>
type_synonym login_state = "bool \<times> bool \<times> horodate"

record spec =
  sp_phase :: phase
  sp_logins :: "string \<times> string \<times> string \<Rightarrow> login_state option"
  sp_rxed :: bool
  sp_sent :: bool
  sp_lost :: bool
  sp_out :: "leaving list"
  sp_said :: "event_type list"

definition renewal_due :: "times \<Rightarrow> horodate \<Rightarrow> login_state \<Rightarrow> bool" where
  "renewal_due T now v = (case v of (act, pend, date) \<Rightarrow> pend \<or> t_diff_sec T now date > triggerPeriod_sec)"

text \<open>The challenge of a login is made, which asks that it is active and leaves a new password pending;
  or it fails, after the new password was drawn or before.\<close>
inductive challenge_tried :: "string \<times> string \<times> string \<Rightarrow> spec \<Rightarrow> spec \<Rightarrow> bool" where
  Made: "sp_logins a i = Some (True, pend, date) \<Longrightarrow>
    challenge_tried i a (a\<lparr> sp_phase := Asked i, sp_logins := (sp_logins a)(i \<mapsto> (True, True, date)),
      sp_out := sp_out a @ [Asking (Some (snd (snd i)))] \<rparr>)"
| Failed: "sp_logins a i = Some (act, pend, date) \<Longrightarrow> (pend \<longrightarrow> pend') \<Longrightarrow> (pend' \<longrightarrow> pend \<or> act) \<Longrightarrow>
    challenge_tried i a (a\<lparr> sp_logins := (sp_logins a)(i \<mapsto> (act, pend', date)) \<rparr>)"

text \<open>What a turn ends with.  A running challenge is left alone and a waiting one is tried again; without
  one, a login that is due is chosen; only when none is due \<open>AllClear\<close> leaves, once, unless the message
  cannot be made.\<close>
inductive offered :: "times \<Rightarrow> horodate \<Rightarrow> spec \<Rightarrow> spec \<Rightarrow> bool" for T now where
  Stays: "sp_phase a = Asked i \<Longrightarrow> offered T now a a"
| Again: "sp_phase a = Waiting i \<Longrightarrow> challenge_tried i a b \<Longrightarrow> offered T now a b"
| Chosen: "sp_phase a = Quiet \<Longrightarrow> sp_logins a i = Some v \<Longrightarrow> renewal_due T now v \<Longrightarrow>
    challenge_tried i (a\<lparr> sp_phase := Waiting i \<rparr>) b \<Longrightarrow> offered T now a b"
| Nothing_due: "sp_phase a = Quiet \<Longrightarrow> (\<And>i v. sp_logins a i = Some v \<Longrightarrow> \<not> renewal_due T now v) \<Longrightarrow> sp_sent a \<Longrightarrow>
    offered T now a a"
| Clear_unmade: "sp_phase a = Quiet \<Longrightarrow> (\<And>i v. sp_logins a i = Some v \<Longrightarrow> \<not> renewal_due T now v) \<Longrightarrow> \<not> sp_sent a \<Longrightarrow>
    offered T now a a"
| Clear_out: "sp_phase a = Quiet \<Longrightarrow> (\<And>i v. sp_logins a i = Some v \<Longrightarrow> \<not> renewal_due T now v) \<Longrightarrow> \<not> sp_sent a \<Longrightarrow>
    offered T now a (a\<lparr> sp_sent := True, sp_out := sp_out a @ [Sealed None],
      sp_said := sp_said a @ (if sp_rxed a then [EVENT_ALLCLEAR_EXCHANGED] else []) \<rparr>)"

definition ended :: "spec \<Rightarrow> spec" where
  "ended a = a\<lparr> sp_phase := Quiet, sp_said := sp_said a @ [EVENT_CHALLENGE_PROCESSING] \<rparr>"

text \<open>What a message of the other site does: nothing, an answer to it, \<open>AllClear\<close>, or the answer to the
  challenge that runs, after which the login is dated anew when it was granted.\<close>
inductive taken :: "times \<Rightarrow> horodate \<Rightarrow> spec \<Rightarrow> spec \<Rightarrow> bool" for T now where
  Nothing: "taken T now a a"
| Replied: "taken T now a (a\<lparr> sp_out := sp_out a @ [Sealed None] \<rparr>)"
| Clear_in: "taken T now a (a\<lparr> sp_rxed := True,
    sp_said := sp_said a @ (if sp_sent a then [EVENT_ALLCLEAR_EXCHANGED] else []) \<rparr>)"
| Granted: "sp_phase a = Asked i \<Longrightarrow> sp_logins a i = Some (True, True, date) \<Longrightarrow>
    offered T now (ended (a\<lparr> sp_logins := (sp_logins a)(i \<mapsto> (True, False, now)) \<rparr>)) b \<Longrightarrow> taken T now a b"
| Refused: "sp_phase a = Asked i \<Longrightarrow> offered T now (ended a) b \<Longrightarrow> taken T now a b"

text \<open>The steps: a turn on the messages of the securing layer, the head of the queue leaves, a message of
  the application is queued, which asks that \<open>AllClear\<close> went both ways and that its login is one of the
  other site, the session is lost.\<close>
inductive spec_step :: "times \<Rightarrow> spec \<Rightarrow> spec \<Rightarrow> bool" for T where
  Turn: "\<not> sp_lost a \<Longrightarrow> taken T now a m \<Longrightarrow> offered T now' m b \<Longrightarrow> spec_step T a b"
| Leaves: "\<not> sp_lost a \<Longrightarrow> sp_out a = x # xs \<Longrightarrow> spec_step T a (a\<lparr> sp_out := xs \<rparr>)"
| Queued: "sp_rxed a \<Longrightarrow> sp_sent a \<Longrightarrow> sp_logins a (db, r, l) \<noteq> None \<Longrightarrow>
    spec_step T a (a\<lparr> sp_out := sp_out a @ [Sealed (Some l)] \<rparr>)"
| Lose: "\<not> sp_lost a \<Longrightarrow> spec_step T a (a\<lparr> sp_lost := True, sp_said := sp_said a @ [EVENT_CYBER_LOST] \<rparr>)"
| Same: "spec_step T a a"

inductive_cases challenge_triedE: "challenge_tried i a b"
inductive_cases offeredE: "offered T now a b"
inductive_cases takenE: "taken T now a b"
inductive_cases spec_stepE: "spec_step T a b"

definition phase_of :: "challenge option \<Rightarrow> phase" where
  "phase_of ctx =
    (case ctx of
       None \<Rightarrow> Quiet
     | Some ch \<Rightarrow>
         (case ch_auth ch of
            None \<Rightarrow> Quiet
          | Some i \<Rightarrow> if ch_running ch then Asked i else if ch_toSend ch then Waiting i else Quiet))"

definition login_state :: "auth \<Rightarrow> login_state" where
  "login_state a = (a_active a, a_new_pwd_pending a, a_timestamp a)"

text \<open>The TO entries of the other site.\<close>
definition logins_of :: "dbs \<Rightarrow> cstr \<Rightarrow> string \<times> string \<times> string \<Rightarrow> login_state option" where
  "logins_of d rem i =
    (if fst i = ''to'' \<and> rem = Some (fst (snd i)) then map_option login_state (auth_at d i) else None)"

definition leaving_of :: "out_msg \<Rightarrow> leaving" where
  "leaving_of m = (if o_encrypt m then Sealed (o_login m) else Asking (o_login m))"

definition spec_of :: "session \<Rightarrow> spec" where
  "spec_of s = \<lparr> sp_phase = phase_of (s_challenge s), sp_logins = logins_of (s_dbs s) (s_remote s),
     sp_rxed = s_ac_rxed s, sp_sent = s_ac_sent s, sp_lost = s_stop s, sp_out = map leaving_of (s_send_q s),
     sp_said = s_events s \<rparr>"

section \<open>What the machine promises\<close>

lemma tried_fields:
  "challenge_tried i a b \<Longrightarrow> sp_sent b = sp_sent a \<and> sp_rxed b = sp_rxed a \<and> sp_lost b = sp_lost a \<and>
    sp_said b = sp_said a"
  by (auto elim!: challenge_triedE)

lemma tried_dom: "challenge_tried i a b \<Longrightarrow> dom (sp_logins b) = dom (sp_logins a)"
  by (erule challenge_triedE) (simp_all add: insert_absorb domI)

lemma offered_fields:
  "offered T now a b \<Longrightarrow> sp_rxed b = sp_rxed a \<and> sp_lost b = sp_lost a \<and> (sp_sent a \<longrightarrow> sp_sent b)"
  by (auto elim!: offeredE dest!: tried_fields)

lemma offered_dom: "offered T now a b \<Longrightarrow> dom (sp_logins b) = dom (sp_logins a)"
  by (erule offeredE) (simp_all add: tried_dom)

lemma taken_fields: "taken T now a b \<Longrightarrow> sp_lost b = sp_lost a \<and> (sp_sent a \<longrightarrow> sp_sent b) \<and> (sp_rxed a \<longrightarrow> sp_rxed b)"
  by (erule takenE) (auto dest!: offered_fields simp: ended_def)

lemma taken_dom: "taken T now a b \<Longrightarrow> dom (sp_logins b) = dom (sp_logins a)"
  by (erule takenE) (simp_all add: ended_def offered_dom insert_absorb domI)

text \<open>\<open>AllClear\<close> leaves at the end of a turn at which no challenge waits or runs and no login is due.\<close>
lemma offered_clear:
  "offered T now a b \<Longrightarrow> \<not> sp_sent a \<Longrightarrow> sp_sent b \<Longrightarrow>
    sp_phase b = Quiet \<and> (\<forall>i v. sp_logins b i = Some v \<longrightarrow> \<not> renewal_due T now v)"
  by (auto elim!: offeredE dest!: tried_fields)

text \<open>The logins of the other site are never added to or removed, and \<open>AllClear\<close> is never taken back.\<close>
lemma spec_step_fields:
  "spec_step T a b \<Longrightarrow> dom (sp_logins b) = dom (sp_logins a) \<and> (sp_sent a \<longrightarrow> sp_sent b) \<and> (sp_rxed a \<longrightarrow> sp_rxed b) \<and>
    (sp_lost a \<longrightarrow> sp_lost b \<and> sp_phase b = sp_phase a \<and> sp_sent b = sp_sent a \<and> sp_rxed b = sp_rxed a)"
proof (erule spec_stepE)
  fix m now now' assume "\<not> sp_lost a" "taken T now a m" "offered T now' m b"
  thus ?thesis using taken_fields [of T now a m] taken_dom [of T now a m] offered_fields [of T now' m b]
      offered_dom [of T now' m b] by auto
qed auto

section \<open>The machine behind the session\<close>

lemma spec_of_updates [simp]:
  "spec_of (s\<lparr> s_dbs := d \<rparr>) = (spec_of s)\<lparr> sp_logins := logins_of d (s_remote s) \<rparr>"
  "spec_of (s\<lparr> s_send_q := q \<rparr>) = (spec_of s)\<lparr> sp_out := map leaving_of q \<rparr>"
  "spec_of (s\<lparr> s_internal_q := i \<rparr>) = spec_of s" "spec_of (s\<lparr> s_external_q := i \<rparr>) = spec_of s"
  "spec_of (s\<lparr> s_wire := w \<rparr>) = spec_of s" "spec_of (s\<lparr> s_transport_up := b \<rparr>) = spec_of s"
  "spec_of (trigger ev s) = (spec_of s)\<lparr> sp_said := s_events s @ [ev] \<rparr>"
  "spec_of (s\<lparr> s_ac_rxed := b \<rparr>) = (spec_of s)\<lparr> sp_rxed := b \<rparr>"
  "spec_of (s\<lparr> s_ac_sent := b \<rparr>) = (spec_of s)\<lparr> sp_sent := b \<rparr>"
  "spec_of (s\<lparr> s_stop := b \<rparr>) = (spec_of s)\<lparr> sp_lost := b \<rparr>"
  "spec_of (s\<lparr> s_challenge := c \<rparr>) = (spec_of s)\<lparr> sp_phase := phase_of c \<rparr>"
  by (simp_all add: spec_of_def trigger_def)

lemma spec_of_fields [simp]:
  "sp_phase (spec_of s) = phase_of (s_challenge s)" "sp_rxed (spec_of s) = s_ac_rxed s"
  "sp_sent (spec_of s) = s_ac_sent s" "sp_lost (spec_of s) = s_stop s"
  "sp_logins (spec_of s) = logins_of (s_dbs s) (s_remote s)" "sp_out (spec_of s) = map leaving_of (s_send_q s)"
  "sp_said (spec_of s) = s_events s"
  by (simp_all add: spec_of_def)

lemma logins_at [simp]: "logins_of d (Some r) (''to'', r, l) = map_option login_state (auth_at d (''to'', r, l))"
  by (simp add: logins_of_def)

lemma same_state: "same_but_secrets a b \<Longrightarrow> login_state b = login_state a"
  by (auto simp: login_state_def dest: same_but_secrets_fields)

lemma same_states: "rel_option same_but_secrets x y \<Longrightarrow> map_option login_state y = map_option login_state x"
  by (cases x; cases y) (auto intro: same_state)

lemma logins_kept:
  assumes "to_kept d d'" "auth_dbs_ok d"
  shows "logins_of d' rem = logins_of d rem"
proof
  fix i :: "string \<times> string \<times> string"
  obtain db r l where i: "i = (db, r, l)" by (cases i) auto
  have "rel_option same_but_secrets (auth_at d (''to'', r, l)) (auth_at d' (''to'', r, l))"
    using assms by (simp add: to_kept_def)
  from same_states [OF this] show "logins_of d' rem i = logins_of d rem i" by (simp add: logins_of_def i)
qed

lemma logins_entry:
  assumes "entry_step (''to'', r, l) R d d'" "auth_dbs_ok d"
  shows "logins_of d' (Some r) =
    (logins_of d (Some r))((''to'', r, l) := map_option login_state (auth_at d' (''to'', r, l)))"
proof
  fix i
  show "logins_of d' (Some r) i =
      ((logins_of d (Some r))((''to'', r, l) := map_option login_state (auth_at d' (''to'', r, l)))) i"
    using same_states [OF entry_stepD(3) [OF assms, of i]] by (simp add: logins_of_def)
qed

lemma due_state: "login_due T now a \<longleftrightarrow> renewal_due T now (login_state a)"
  by (simp add: login_due_def renewal_due_def login_state_def)

lemma idle_quiet: "challenge_idle ctx \<Longrightarrow> phase_of ctx = Quiet"
  by (auto simp: challenge_idle_def phase_of_def split: option.splits)

lemma search_none:
  "challenge_idle ctx \<Longrightarrow> find (login_due T now) as = None \<Longrightarrow>
    challenge_idle (fst (ldc_foreach_loop (searchLoginForChallenge T now) ctx as))"
proof (induction as arbitrary: ctx)
  case (Cons a as)
  hence n: "\<not> login_due T now a" "find (login_due T now) as = None" by (simp_all split: if_splits)
  obtain ctx' where "searchLoginForChallenge T now ctx a = (ctx', True)" "challenge_idle ctx'"
    using search_idle [OF Cons.prems(1), of T now a] n(1) by auto
  thus ?case using Cons.IH n(2) by (simp add: case_prod_unfold Let_def)
qed simp

text \<open>The walk chooses a login that is due, or there is none.\<close>
lemma walk_phase:
  assumes ok: "auth_dbs_ok d" and idle: "challenge_idle ctx"
    and c: "ctx' = auth_to_foreach d (Some r) (searchLoginForChallenge T now) ctx"
  obtains l v where "phase_of ctx' = Waiting (''to'', r, l)" "logins_of d (Some r) (''to'', r, l) = Some v"
      "renewal_due T now v"
  | "challenge_idle ctx'" "\<And>i v. logins_of d (Some r) i = Some v \<Longrightarrow> \<not> renewal_due T now v"
proof (cases "sIds_at d (Some ''to'') (Some r)")
  case None
  hence "logins_of d (Some r) i = None" for i
    by (cases i) (auto simp: logins_of_def auth_at_def auth_login_find_def)
  thus ?thesis using that(2) None idle by (simp add: c auth_to_foreach_walk)
next
  case (Some x)
  hence w: "ctx' = fst (ldc_foreach_loop (searchLoginForChallenge T now) ctx (s_logins x))"
    by (simp add: c auth_to_foreach_walk)
  show ?thesis
  proof (cases "find (login_due T now) (s_logins x)")
    case None
    have "\<not> renewal_due T now v" if lg: "logins_of d (Some r) i = Some v" for i v
    proof -
      obtain db q l where i: "i = (db, q, l)" by (cases i) auto
      obtain a where "auth_at d (''to'', r, l) = Some a" "v = login_state a"
        using lg i by (auto simp: logins_of_def split: if_splits)
      moreover from this Some have "a \<in> set (s_logins x)"
        by (auto simp: auth_at_def auth_login_find_def auth_find_def find_Some_iff)
      ultimately show ?thesis using None by (auto simp: find_None_iff due_state)
    qed
    thus ?thesis using that(2) search_none [OF idle None] w by simp
  next
    case (Some a)
    from search_walk [OF idle Some] obtain ch where
      ch: "ctx' = Some ch" "ch_auth ch = Some (auth_id a)" "ch_toSend ch" "\<not> ch_running ch" using w by blast
    have at: "auth_at d (''to'', r, a_login a) = Some a"
      by (rule site_member_at [OF ok \<open>sIds_at d _ _ = Some x\<close>]) (use Some in \<open>auto simp: find_Some_iff\<close>)
    have "auth_id a = (''to'', r, a_login a)" by (rule auth_at_ok [OF ok at])
    thus ?thesis using that(1) [of "a_login a"] ch at Some by (auto simp: phase_of_def find_Some_iff due_state)
  qed
qed

lemma sendChallenge_tried:
  assumes inv: "sess_inv s" and ch: "s_challenge s = Some ch" "ch_toSend ch"
    and run: "sendChallenge E t ch s = Inr (s', ret)"
  shows "\<exists>i. phase_of (s_challenge s) = Waiting i \<and> challenge_tried i (spec_of s) (spec_of s')"
proof -
  obtain r l c where v: "s_remote s = Some r" "s_local s = Some l" "s_cipher s = Some c" "auth_dbs_ok (s_dbs s)"
    by (rule sess_inv_parts [OF inv])
  have ok: "challenge_ok (s_dbs s) r ch" by (rule challenge_of_inv [OF inv ch(1) v(1)])
  then obtain lg a where id: "ch_auth ch = Some (''to'', r, lg)" "auth_at (s_dbs s) (''to'', r, lg) = Some a"
    "\<not> ch_running ch"
    using ch(2) by (auto simp: challenge_ok_def split: option.splits)
  let ?i = "(''to'', r, lg)"
  have ph: "phase_of (s_challenge s) = Waiting ?i" using ch id by (simp add: phase_of_def)
  have st: "sp_logins (spec_of s) ?i = Some (a_active a, a_new_pwd_pending a, a_timestamp a)"
    using v(1) id(2) by (simp add: login_state_def)
  obtain d1 ch1 res where enc: "Challenge_encode (e_json E) (e_evp E) (e_times E) (e_pos E) (tn_draws t) (s_dbs s)
      ch (s_cipher s) (s_local s) (Some lg) (Some r) = Inr (d1, ch1, res)"
    using run id v by (auto simp: sendChallenge_def)
  note eff = Challenge_encode_effect [OF v(4) id(2) enc]
  note step = conjunct1 [OF Challenge_encode_entry [OF v(4) enc]]
  obtain a1 where a1: "auth_at d1 ?i = Some a1" "challenged a a1"
    using entry_stepD(2) [OF step v(4)] id(2) by (cases "auth_at d1 ?i") auto
  have lg: "logins_of d1 (Some r) = (sp_logins (spec_of s))(?i \<mapsto> login_state a1)"
    using logins_entry [OF step v(4)] a1(1) v(1) by simp
  show ?thesis
  proof (cases res)
    case (Inl err)
    have "phase_of (Some ch1) = Waiting ?i" using eff Inl id ch(2) by (auto simp: phase_of_def)
    moreover have "s' = s\<lparr> s_dbs := d1, s_challenge := Some ch1 \<rparr>"
      using run id v enc Inl by (simp add: sendChallenge_def Let_def)
    ultimately have "spec_of s' = (spec_of s)\<lparr> sp_logins := (sp_logins (spec_of s))(?i \<mapsto>
        (a_active a, a_new_pwd_pending a1, a_timestamp a)) \<rparr>"
      using ph lg v(1) a1(2) by (simp add: spec_of_def login_state_def challenged_def)
    thus ?thesis using Failed [of "spec_of s" ?i, OF st, of "a_new_pwd_pending a1"] a1(2) ph
      by (auto simp: challenged_def)
  next
    case (Inr payload)
    obtain b b' where b: "auth_at (s_dbs s) ?i = Some b" "a_active b" "auth_at d1 ?i = Some b'" "a_active b'"
      "a_new_pwd_pending b'" using challenge_sent [OF v(4) enc [unfolded Inr]] eff Inr by auto
    have "s' = s\<lparr> s_dbs := d1, s_send_q := s_send_q s @ [\<lparr> o_buf = payload, o_encrypt = False, o_login = Some lg \<rparr>],
        s_challenge := Some (ch1\<lparr> ch_running := True, ch_toSend := False, ch_timer := tn_timer t \<rparr>) \<rparr>"
      using run id v enc Inr eff
      by (auto simp: sendChallenge_def Let_def send_optional_encryption_def launchTimerResponse_def split: if_splits)
    hence "spec_of s' = (spec_of s)\<lparr> sp_phase := Asked ?i, sp_logins := (sp_logins (spec_of s))(?i \<mapsto>
        (True, True, a_timestamp a)), sp_out := sp_out (spec_of s) @ [Asking (Some (snd (snd ?i)))] \<rparr>"
      using lg v(1) a1 b id(2) eff Inr by (simp add: spec_of_def phase_of_def login_state_def challenged_def leaving_of_def)
    moreover have "sp_logins (spec_of s) ?i = Some (True, a_new_pwd_pending a, a_timestamp a)" using st b(1,2) id(2) by simp
    ultimately show ?thesis using Made [of "spec_of s" ?i] ph by auto
  qed
qed

lemma sendAllClear_clear:
  assumes "sendAllClear E uuid s = Inr (s', ret)"
  shows "spec_of s' = spec_of s \<or> spec_of s' = (spec_of s)\<lparr> sp_sent := True, sp_out := sp_out (spec_of s) @ [Sealed None],
    sp_said := sp_said (spec_of s) @ (if sp_rxed (spec_of s) then [EVENT_ALLCLEAR_EXCHANGED] else []) \<rparr>"
proof -
  obtain s1 r1 where m: "sendMessage (e_json E) s (initMessage uuid AllClear) None = Inr (s1, r1)"
    and s': "if r1 \<noteq> E_no_error then s' = s1 else s' = (let s2 = s1\<lparr> s_ac_sent := True \<rparr>
      in if s_ac_rxed s2 then trigger EVENT_ALLCLEAR_EXCHANGED s2 else s2)"
    using assms by (auto simp: sendAllClear_def Let_def split: if_splits)
  from sendMessage_queue [OF m] show ?thesis using s' by (auto simp: Let_def leaving_of_def spec_of_def trigger_def)
qed

text \<open>What a turn ends with.\<close>
lemma initiateChallenge_offered:
  assumes inv: "sess_inv s" and ns: "\<not> s_stop s" and run: "initiateChallenge E t s = Inr (s', ret)"
  shows "offered (e_times E) (dr_now (tn_draws t)) (spec_of s) (spec_of s')"
proof -
  let ?T = "e_times E" and ?now = "dr_now (tn_draws t)" and ?s1 = "choose_login E t s"
  obtain r where r: "s_remote s = Some r" "auth_dbs_ok (s_dbs s)" by (rule sess_inv_parts [OF inv])
  show ?thesis
  proof (cases "challenge_idle (s_challenge s)")
    case True
    let ?ctx = "auth_to_foreach (s_dbs s) (Some r) (searchLoginForChallenge ?T ?now) (s_challenge s)"
    have s1: "?s1 = s\<lparr> s_challenge := ?ctx \<rparr>" using True r(1) by (simp add: choose_login_def)
    have q: "sp_phase (spec_of s) = Quiet" using idle_quiet [OF True] by simp
    show ?thesis
    proof (rule walk_phase [OF r(2) True refl, of r ?T ?now])
      fix l v assume w: "phase_of ?ctx = Waiting (''to'', r, l)" "logins_of (s_dbs s) (Some r) (''to'', r, l) = Some v"
        "renewal_due ?T ?now v"
      then obtain ch where ch: "?ctx = Some ch" "ch_toSend ch" "\<not> ch_running ch"
        by (auto simp: phase_of_def split: option.splits if_splits)
      hence "sendChallenge E t ch ?s1 = Inr (s', ret)"
        using run s1 by (simp add: initiateChallenge_def Let_def challenge_idle_def)
      from sendChallenge_tried [OF choose_login_inv [OF inv ns] _ ch(2) this] s1 ch(1) w(1)
      have "challenge_tried (''to'', r, l) ((spec_of s)\<lparr> sp_phase := Waiting (''to'', r, l) \<rparr>) (spec_of s')" by simp
      thus ?thesis using Chosen [OF q, of "(''to'', r, l)" v] w(2,3) r(1) by simp
    next
      assume i: "challenge_idle ?ctx" and none: "\<And>i v. logins_of (s_dbs s) (Some r) i = Some v \<Longrightarrow> \<not> renewal_due ?T ?now v"
      have same: "spec_of ?s1 = spec_of s" using s1 idle_quiet [OF i] q by (simp add: spec_of_def)
      have none': "\<And>i v. sp_logins (spec_of s) i = Some v \<Longrightarrow> \<not> renewal_due ?T ?now v" using none r(1) by simp
      show ?thesis
      proof (cases "s_ac_sent s")
        case True
        hence "s' = ?s1" using run s1 i by (simp add: initiateChallenge_def Let_def)
        thus ?thesis using same Nothing_due [OF q none'] True by simp
      next
        case False
        hence "sendAllClear E (tn_uuid_clear t) ?s1 = Inr (s', ret)"
          using run s1 i by (simp add: initiateChallenge_def Let_def)
        from sendAllClear_clear [OF this] show ?thesis
          using same Clear_unmade [OF q none'] Clear_out [OF q none'] False by auto
      qed
    qed
  next
    case False
    then obtain ch where ch: "s_challenge s = Some ch" "ch_running ch \<or> ch_toSend ch"
      by (auto simp: challenge_idle_def split: option.splits)
    have s1: "?s1 = s" using False by (simp add: choose_login_def)
    have ok: "challenge_ok (s_dbs s) r ch" by (rule challenge_of_inv [OF inv ch(1) r(1)])
    show ?thesis
    proof (cases "ch_toSend ch")
      case True
      hence "sendChallenge E t ch s = Inr (s', ret)" using run False s1 ch(1) by (simp add: initiateChallenge_def Let_def)
      from sendChallenge_tried [OF inv ch(1) True this] show ?thesis by (auto intro: Again)
    next
      case nt: False
      hence "s' = s" using run False s1 ch(1) by (simp add: initiateChallenge_def Let_def)
      moreover have "\<exists>i. phase_of (s_challenge s) = Asked i"
        using ok ch nt by (auto simp: challenge_ok_def phase_of_def split: option.splits)
      ultimately show ?thesis by (auto intro: Stays)
    qed
  qed
qed

section \<open>Messages of the other site\<close>

lemma phase_asked:
  assumes "sess_inv s" "s_challenge s = Some ch" "ch_running ch" "s_remote s = Some r"
  obtains l a where "ch_auth ch = Some (''to'', r, l)" "sp_phase (spec_of s) = Asked (''to'', r, l)"
    "auth_at (s_dbs s) (''to'', r, l) = Some a" "a_active a" "a_new_pwd_pending a" "\<not> ch_toSend ch"
proof -
  have "challenge_ok (s_dbs s) r ch" by (rule challenge_of_inv [OF assms(1,2,4)])
  thus ?thesis using that assms(2,3) by (auto simp: challenge_ok_def phase_of_def split: option.splits)
qed

text \<open>A running challenge ends, and the next one is offered.\<close>
lemma next_challenge_offered:
  assumes inv: "sess_inv s" and ch: "s_challenge s = Some ch" "ch_running ch" and ns: "\<not> s_stop s"
    and k: "keys_step (s_dbs s) d" and c: "ch_auth ch0 = ch_auth ch"
    and ch0: "ch0\<lparr> ch_running := False, ch_response := resp \<rparr> = ch\<lparr> ch_timer := False, ch_running := False, ch_response := resp \<rparr>"
    and run: "next_challenge E t ch0 resp (s\<lparr> s_challenge := x, s_dbs := d \<rparr>) = Inr (s', ret)"
  shows "offered (e_times E) (dr_now (tn_draws t))
    (ended ((spec_of s)\<lparr> sp_logins := logins_of d (s_remote s) \<rparr>)) (spec_of s')"
proof -
  let ?ch = "ch\<lparr> ch_timer := False, ch_running := False, ch_response := resp \<rparr>"
  let ?s1 = "trigger EVENT_CHALLENGE_PROCESSING (s\<lparr> s_dbs := d, s_challenge := Some ?ch \<rparr>)"
  obtain r where r: "s_remote s = Some r" by (rule sess_inv_parts [OF inv])
  have inv1: "sess_inv ?s1" using challenge_ends [OF inv ch k] by simp
  have ns1: "\<not> s_stop ?s1" using ns by (simp add: trigger_def)
  have "trigger EVENT_CHALLENGE_PROCESSING
      (s\<lparr> s_challenge := x, s_dbs := d, s_challenge := Some (ch0\<lparr> ch_running := False, ch_response := resp \<rparr>) \<rparr>) = ?s1"
    unfolding ch0 by simp
  hence "initiateChallenge E t ?s1 = Inr (s', ret)" using run by (simp add: next_challenge_def)
  from initiateChallenge_offered [OF inv1 ns1 this]
  have "offered (e_times E) (dr_now (tn_draws t)) (spec_of ?s1) (spec_of s')" .
  moreover have "phase_of (Some ?ch) = Quiet"
    by (rule phase_asked [OF inv ch r]) (simp add: phase_of_def)
  hence "spec_of ?s1 = ended ((spec_of s)\<lparr> sp_logins := logins_of d (s_remote s) \<rparr>)"
    by (simp add: ended_def spec_of_def trigger_def)
  ultimately show ?thesis by simp
qed

lemma granted_taken:
  assumes inv: "sess_inv s" and ch: "s_challenge s = Some ch" "ch_running ch" and ns: "\<not> s_stop s"
    and c: "ch_auth ch0 = ch_auth ch"
    and ch0: "ch0\<lparr> ch_running := False, ch_response := resp \<rparr> = ch\<lparr> ch_timer := False, ch_running := False, ch_response := resp \<rparr>"
    and sw: "switch_password (dr_now (tn_draws t)) (s\<lparr> s_challenge := Some ch0 \<rparr>) ch0 = Inr (s1, r1)"
    and run: "next_challenge E t ch0 resp s1 = Inr (s', ret)"
  shows "taken (e_times E) (dr_now (tn_draws t)) (spec_of s) (spec_of s')"
proof -
  let ?now = "dr_now (tn_draws t)"
  obtain r where r: "s_remote s = Some r" "auth_dbs_ok (s_dbs s)" by (rule sess_inv_parts [OF inv])
  obtain l a where i: "ch_auth ch = Some (''to'', r, l)" "sp_phase (spec_of s) = Asked (''to'', r, l)"
    "auth_at (s_dbs s) (''to'', r, l) = Some a" "a_active a" "a_new_pwd_pending a"
    by (rule phase_asked [OF inv ch r(1)])
  obtain d where d: "s1 = s\<lparr> s_challenge := Some ch0, s_dbs := d \<rparr>" "keys_step (s_dbs s) d" "r1 = E_no_error"
    using switch_password_runs [OF _ _ ch(2) sw c, of r] challenge_of_inv [OF inv ch(1) r(1)] r(2) by auto
  have e: "entry_step (''to'', r, l) (switched ?now) (s_dbs s) d"
    using switch_password_entry [OF _ c [unfolded i(1)] sw] r(2) d(1,3) by (auto dest: arg_cong [where f = s_dbs])
  obtain a1 where "auth_at d (''to'', r, l) = Some a1" "switched ?now a a1"
    using entry_stepD(2) [OF e r(2)] i(3) by (cases "auth_at d (''to'', r, l)") auto
  hence "logins_of d (s_remote s) = (sp_logins (spec_of s))((''to'', r, l) \<mapsto> (True, False, ?now))"
    using logins_entry [OF e r(2)] r(1) i(4) by (simp add: login_state_def switched_def)
  moreover have "offered (e_times E) ?now (ended ((spec_of s)\<lparr> sp_logins := logins_of d (s_remote s) \<rparr>)) (spec_of s')"
    by (rule next_challenge_offered [OF inv ch ns d(2) c ch0]) (use run d(1) in simp)
  ultimately show ?thesis
    using Granted [OF i(2), of "a_timestamp a" "e_times E" ?now "spec_of s'"] r(1) i(3-5) by (simp add: login_state_def)
qed

lemma handle_response_taken:
  assumes inv: "sess_inv s" and ns: "\<not> s_stop s" and run: "handle_response E t s status oMId = Inr (s', ret)"
  shows "taken (e_times E) (dr_now (tn_draws t)) (spec_of s) (spec_of s')"
proof (cases "\<exists>ch. s_challenge s = Some ch \<and> ch_running ch \<and> ch_mIdRequest ch = Some oMId")
  case False
  hence "s' = s" using run
    by (cases "s_challenge s") (auto simp: handle_response_def split: option.splits if_splits simp del: rbind_Inr_iff)
  thus ?thesis by (simp add: Nothing)
next
  case True
  then obtain ch where ch: "s_challenge s = Some ch" "ch_running ch" "ch_mIdRequest ch = Some oMId" by blast
  obtain r where r: "s_remote s = Some r" "auth_dbs_ok (s_dbs s)" by (rule sess_inv_parts [OF inv])
  show ?thesis
  proof (cases status)
    case False
    have same: "s\<lparr> s_challenge := s_challenge s, s_dbs := s_dbs s \<rparr> = s" by simp
    have "next_challenge E t (ch\<lparr> ch_timer := False \<rparr>) Resp_busy
        (s\<lparr> s_challenge := s_challenge s, s_dbs := s_dbs s \<rparr>) = Inr (s', ret)"
      unfolding same using run ch False by (simp add: handle_response_def Let_def)
    hence "offered (e_times E) (dr_now (tn_draws t)) (ended ((spec_of s)\<lparr> sp_logins := logins_of (s_dbs s) (s_remote s) \<rparr>)) (spec_of s')"
      by (rule next_challenge_offered [OF inv ch(1,2) ns keys_step_refl, rotated 2]) simp_all
    moreover have "(spec_of s)\<lparr> sp_logins := logins_of (s_dbs s) (s_remote s) \<rparr> = spec_of s" by (simp add: spec_of_def)
    ultimately show ?thesis using phase_asked [OF inv ch(1,2) r(1)] Refused by metis
  next
    case True
    let ?ch = "ch\<lparr> ch_timer := False, ch_response := Resp_success \<rparr>"
    obtain s1 r1 where sw: "switch_password (dr_now (tn_draws t)) (s\<lparr> s_challenge := Some ?ch \<rparr>) ?ch = Inr (s1, r1)"
      using run ch True by (auto simp: handle_response_def Let_def)
    have "r1 = E_no_error"
      using switch_password_runs [OF _ _ ch(2) sw, of r] challenge_of_inv [OF inv ch(1) r(1)] r(2) by auto
    hence "next_challenge E t ?ch Resp_success s1 = Inr (s', ret)"
      using run ch True sw by (simp add: handle_response_def Let_def)
    thus ?thesis by (rule granted_taken [OF inv ch(1,2) ns _ _ sw, rotated 2]) simp_all
  qed
qed

lemma handle_pong_taken:
  assumes inv: "sess_inv s" and ns: "\<not> s_stop s" and run: "handle_pong E t s oMId = Inr (s', ret)"
  shows "taken (e_times E) (dr_now (tn_draws t)) (spec_of s) (spec_of s')"
proof (cases "\<exists>ch. s_challenge s = Some ch \<and> ch_running ch \<and> ch_mIdPing ch = Some oMId")
  case False
  hence "s' = s" using run
    by (cases "s_challenge s") (auto simp: handle_pong_def split: option.splits if_splits simp del: rbind_Inr_iff)
  thus ?thesis by (simp add: Nothing)
next
  case True
  then obtain ch where ch: "s_challenge s = Some ch" "ch_running ch" "ch_mIdPing ch = Some oMId" by blast
  obtain r where r: "s_remote s = Some r" "auth_dbs_ok (s_dbs s)" by (rule sess_inv_parts [OF inv])
  let ?ch = "ch\<lparr> ch_timer := False \<rparr>"
  obtain s1 r1 where sw: "switch_password (dr_now (tn_draws t)) (s\<lparr> s_challenge := Some ?ch \<rparr>) ?ch = Inr (s1, r1)"
    using run ch by (auto simp: handle_pong_def Let_def)
  have "r1 = E_no_error"
    using switch_password_runs [OF _ _ ch(2) sw, of r] challenge_of_inv [OF inv ch(1) r(1)] r(2) by auto
  hence "next_challenge E t ?ch Resp_success s1 = Inr (s', ret)"
    using run ch sw by (simp add: handle_pong_def Let_def)
  thus ?thesis by (rule granted_taken [OF inv ch(1,2) ns _ _ sw, rotated 2]) simp_all
qed

lemma sendMessage_replied:
  assumes "sendMessage J s m None = Inr (s', ret)"
  shows "taken T now (spec_of s) (spec_of s')"
  using sendMessage_queue [OF assms] Nothing [of T now "spec_of s"] Replied [of T now "spec_of s"]
  by (auto simp: leaving_of_def)

lemma handle_request_taken:
  assumes run: "handle_request E t s from mId pwd = Inr (s', ret)" and ok: "auth_dbs_ok (s_dbs s)"
  shows "taken T now (spec_of s) (spec_of s')"
proof -
  obtain s1 st r2 where c: "(if change_pwd_busy s then Inr (s, False)
      else change_password (dr_now (tn_draws t)) s from pwd) = Inr (s1, st)"
    and m: "sendMessage (e_json E) s1
      ((initMessage (tn_uuid t) (ChangePwdResponse False []))\<lparr> m_body := ChangePwdResponse st mId \<rparr>) None = Inr (s', r2)"
    using run by (auto simp: handle_request_def)
  have "spec_of (s\<lparr> s_dbs := d \<rparr>) = spec_of s" if "to_kept (s_dbs s) d" for d
    using logins_kept [OF that ok] by (simp add: spec_of_def)
  hence "spec_of s1 = spec_of s" using c by (auto split: if_splits dest!: change_password_effect [OF _ ok])
  thus ?thesis using sendMessage_replied [OF m] by metis
qed

lemma process_msg_taken:
  assumes run: "cyber_process_internal_msg E t s from msg = Inr (s', ret)" and inv: "sess_inv s" and ns: "\<not> s_stop s"
  shows "taken (e_times E) (dr_now (tn_draws t)) (spec_of s) (spec_of s')"
  using run
proof (cases rule: process_msg_cases)
  case Ignored
  thus ?thesis by (simp add: Nothing)
next
  case Clear
  hence "spec_of s' = (spec_of s)\<lparr> sp_rxed := True,
      sp_said := sp_said (spec_of s) @ (if sp_sent (spec_of s) then [EVENT_ALLCLEAR_EXCHANGED] else []) \<rparr>"
    by (simp add: Let_def spec_of_def trigger_def)
  thus ?thesis by (simp only: Clear_in)
next
  case (Request m p)
  show ?thesis by (rule handle_request_taken [OF Request(3)]) (use inv in \<open>simp add: sess_inv_def\<close>)
next
  case (Response m st oMId)
  show ?thesis by (rule handle_response_taken [OF inv ns Response(3)])
next
  case (Ping m pad)
  then obtain r1 where "sendMessage (e_json E) s ((initMessage (tn_uuid t) (Pong [] None))\<lparr> m_body := Pong (m_mId m) pad \<rparr>) None =
    Inr (s', r1)" by (auto simp: handle_ping_def)
  thus ?thesis by (rule sendMessage_replied)
next
  case (Pong m oMId pad)
  show ?thesis by (rule handle_pong_taken [OF inv ns Pong(3)])
qed

section \<open>The simulation\<close>

lemma cyber_stop_spec: "spec_step T (spec_of s) (spec_of (cyber_stop s))"
proof (cases "s_stop s")
  case True
  thus ?thesis by (simp add: cyber_stop_def Same)
next
  case False
  have "phase_of (stopTimerResponse ctx) = phase_of ctx" for ctx
    by (cases ctx) (simp_all add: stopTimerResponse_def phase_of_def split: option.split)
  hence "spec_of (cyber_stop s) = (spec_of s)\<lparr> sp_lost := True, sp_said := sp_said (spec_of s) @ [EVENT_CYBER_LOST] \<rparr>"
    using False by (simp add: cyber_stop_def spec_of_def trigger_def)
  thus ?thesis using Lose [of "spec_of s"] False by simp
qed

lemma secrets_same_spec:
  "secrets_step (s_dbs s) d \<Longrightarrow> auth_dbs_ok (s_dbs s) \<Longrightarrow> logins_of d (s_remote s) = logins_of (s_dbs s) (s_remote s)"
  by (rule logins_kept [OF secrets_to_kept])

lemma sess_step_spec:
  assumes inv: "sess_inv s" and step: "sess_step E s s'"
  shows "spec_step (e_times E) (spec_of s) (spec_of s')"
  using step
proof (cases rule: sess_step.cases)
  case (Receive now silent received)
  have "auth_dbs_ok (s_dbs s)" using inv by (simp add: sess_inv_def)
  hence "spec_of (s\<lparr> s_dbs := d, s_internal_q := iq, s_external_q := eq \<rparr>) = spec_of s" if "secrets_step (s_dbs s) d" for d iq eq
    using secrets_same_spec [OF that] by (simp add: spec_of_def)
  thus ?thesis using receive_task_effect [OF Receive(2)] cyber_stop_spec [of _ s] by (auto simp: Same)
next
  case (Internal t t')
  let ?taken = "taken (e_times E) (dr_now (tn_draws t))"
  obtain s3 ret where init: "initiateChallenge E t' s3 = Inr (s', ret)"
    and pre: "s3 = s \<or> (\<exists>q. s3 = s\<lparr> s_internal_q := q \<rparr>) \<or>
      (\<exists>q src m r. cyber_process_internal_msg E t (s\<lparr> s_internal_q := q \<rparr>) src m = Inr (s3, r))"
    by (rule internal_task_parts [OF Internal(2)])
  have "?taken (spec_of s) (spec_of s3) \<and> sess_inv s3 \<and> \<not> s_stop s3"
  proof (cases "\<exists>q src m r. cyber_process_internal_msg E t (s\<lparr> s_internal_q := q \<rparr>) src m = Inr (s3, r)")
    case True
    then obtain q src m r where p: "cyber_process_internal_msg E t (s\<lparr> s_internal_q := q \<rparr>) src m = Inr (s3, r)"
      by blast
    have "sess_inv s3" by (rule cyber_process_internal_msg_inv [OF p]) (use inv Internal(1) in simp_all)
    moreover have "\<not> s_stop s3" using cyber_process_internal_msg_frame [OF p] Internal(1) by (simp add: frame_def)
    ultimately show ?thesis using process_msg_taken [OF p] inv Internal(1) by simp
  next
    case False
    thus ?thesis using pre inv Internal(1) by (auto simp: Nothing)
  qed
  thus ?thesis using Turn [of "spec_of s"] initiateChallenge_offered [OF _ _ init] Internal(1) by simp blast
next
  case (Send now uuid)
  obtain d w where s': "s' = s\<lparr> s_dbs := d, s_send_q := tl (s_send_q s), s_wire := w \<rparr>" "secrets_step (s_dbs s) d"
    using send_task_queue [OF Send(2)] by blast
  have "spec_of s' = (spec_of s)\<lparr> sp_out := map leaving_of (tl (s_send_q s)) \<rparr>"
    using secrets_same_spec [OF s'(2)] inv s'(1) by (simp add: spec_of_def sess_inv_def)
  moreover have "(spec_of s)\<lparr> sp_out := [] \<rparr> = spec_of s" if "s_send_q s = []" using that by (simp add: spec_of_def)
  ultimately show ?thesis using Leaves [of "spec_of s"] Same [of "e_times E" "spec_of s"] Send(1)
    by (cases "s_send_q s") simp_all
next
  case (App_send payload login ret)
  obtain r where r: "s_remote s = Some r" "auth_dbs_ok (s_dbs s)" by (rule sess_inv_parts [OF inv])
  have "spec_step (e_times E) (spec_of s) (spec_of s')"
    if l: "s' = s\<lparr> s_send_q := s_send_q s @ [\<lparr> o_buf = payload, o_encrypt = True, o_login = Some l \<rparr>] \<rparr>"
      "ret = E_no_error" "s_ac_rxed s" "s_ac_sent s" "send_login s login = Some l" for l
  proof -
    have "login \<noteq> None \<Longrightarrow> isAuthToAvailableForLogin (s_dbs s) login (s_remote s)"
      using App_send l(2) by (auto simp: cyber_send_def split: if_splits)
    from send_login_known [OF r(2,1) this l(5)] have "sp_logins (spec_of s) (''to'', r, l) \<noteq> None" using r(1) by simp
    from Queued [OF _ _ this, of "e_times E"] l(1,3,4) show ?thesis by (simp add: leaving_of_def)
  qed
  thus ?thesis using cyber_send_effect [OF App_send] by (auto simp: Same)
next
  case (App_wait p)
  thus ?thesis by (auto simp: waitForMessage_external_def Same split: list.splits)
next
  case Timeout
  thus ?thesis using cyber_stop_spec by (simp add: handler_timeout_challenge_def Same split: option.split)
next
  case Stop
  thus ?thesis using cyber_stop_spec by simp
qed

interpretation challenge: simulation "sess_step E" sess_inv "spec_step (e_times E)" spec_of for E
  by unfold_locales (rule sess_step_spec)

section \<open>Property\<close>

text \<open>C1. Refinement of the machine, step by step.  A session starts quiet, with nothing sent, announced or
  in the queue, and with the logins the base has for the other site; and whatever the order of
  messages, timeouts and demands, every later step is exactly one step of the machine.  So a login is
  only challenged after it was chosen, which asks that its password is due; its challenge leaves in
  the clear only if it is active, and leaves a new password pending; only the answer to the challenge
  that runs ends it and dates the login anew; \<open>AllClear\<close> leaves once, at the end of a turn at which no
  challenge waits or runs and no login is due; a message of the application is queued only once
  \<open>AllClear\<close> went both ways, under a login of the other site; what is queued leaves in its order; and
  every event is announced at the step it belongs to.\<close>
theorem session_refines:
  assumes "auth_dbs_ok d"
    and "cyber_start (e_json E) u started False sent (Inr input) (prepared tab d loc rem leader) = Inr (s1, E_no_error)"
    and "sess_reach E s1 s" "sess_step E s s'"
  shows "spec_of s1 = \<lparr> sp_phase = Quiet, sp_logins = logins_of d (s_remote s1), sp_rxed = False, sp_sent = False,
      sp_lost = False, sp_out = [], sp_said = [] \<rparr> \<and>
    spec_step (e_times E) (spec_of s) (spec_of s')"
proof
  show "spec_of s1 = \<lparr> sp_phase = Quiet, sp_logins = logins_of d (s_remote s1), sp_rxed = False, sp_sent = False,
      sp_lost = False, sp_out = [], sp_said = [] \<rparr>"
    using cyber_start_effect [OF assms(2)]
    by (auto simp: spec_of_def prepared_def cyber_new_from_transport_def cyber_priv_new_def challenge_ctxt_new_def phase_of_def)
  show "spec_step (e_times E) (spec_of s) (spec_of s')"
    by (rule challenge.sim_next [OF assms(3) [unfolded sess_reach_star] start_inv [OF assms(1,2)] assms(4)])
qed

theorem session_refines_witness:
  "\<exists>s. s_dbs s = base_A \<and> spec_of s = \<lparr> sp_phase = Quiet, sp_logins = logins_of base_A (Some ''B''), sp_rxed = False,
      sp_sent = False, sp_lost = False, sp_out = [], sp_said = [] \<rparr> \<and>
    spec_step (e_times env_sample) (spec_of s) (spec_of (cyber_stop s)) \<and> sp_lost (spec_of (cyber_stop s))"
proof -
  obtain input s where s: "cyber_start (e_json env_sample) ''u'' E_no_error False E_no_error (Inr input)
     (prepared cipher_table0 base_A (Some ''A'') (Some ''B'') False) = Inr (s, E_no_error)"
    "s_dbs s = base_A" "s_remote s = Some ''B''"
    using start_sample [of base_A] by (auto simp: env_sample_def)
  have ok: "auth_dbs_ok base_A" by code_simp
  from session_refines [OF ok s(1) Reach_refl Stop] s(2,3) show ?thesis
    by (intro exI [of _ s]) (auto simp: cyber_stop_def trigger_def)
qed

text \<open>C21. The loss of a session is final: afterwards the login that waited or was challenged stays as
  it was, and neither \<open>AllClear\<close> is sent nor one taken in.\<close>
theorem session_lost_is_final:
  assumes "sess_inv s" "sess_reach E s s'" "s_stop s"
  shows "s_stop s' \<and> phase_of (s_challenge s') = phase_of (s_challenge s) \<and>
    s_ac_sent s' = s_ac_sent s \<and> s_ac_rxed s' = s_ac_rxed s"
proof -
  let ?P = "\<lambda>a. sp_lost a \<and> sp_phase a = phase_of (s_challenge s) \<and> sp_sent a = s_ac_sent s \<and> sp_rxed a = s_ac_rxed s"
  have "?P b" if "spec_step (e_times E) a b" "?P a" for a b
    using spec_step_fields [OF that(1)] that(2) by auto
  from challenge.abstract_invariant [OF assms(2) [unfolded sess_reach_star] assms(1), of ?P] this assms(3)
  show ?thesis by auto
qed

theorem session_lost_is_final_witness:
  "\<exists>s s'. s_stop s \<and> sess_reach env_sample s s' \<and> s_stop s' \<and>
    phase_of (s_challenge s') = phase_of (s_challenge s) \<and> s_ac_sent s' = s_ac_sent s \<and> s_ac_rxed s' = s_ac_rxed s"
proof -
  obtain input s where s: "cyber_start (e_json env_sample) ''u'' E_no_error False E_no_error (Inr input)
     (prepared cipher_table0 base_A (Some ''A'') (Some ''B'') False) = Inr (s, E_no_error)"
    using start_sample [of base_A] by (auto simp: env_sample_def)
  have ok: "auth_dbs_ok base_A" by code_simp
  have "sess_reach env_sample s (cyber_stop s)" by (rule Reach_step [OF Reach_refl Stop])
  hence inv: "sess_inv (cyber_stop s)" by (rule reach_inv [OF _ start_inv [OF ok s]])
  have st: "s_stop (cyber_stop s)" by (simp add: cyber_stop_def trigger_def)
  have r: "sess_reach env_sample (cyber_stop s) (handler_timeout_challenge (cyber_stop s))"
    by (rule Reach_step [OF Reach_refl Timeout])
  from session_lost_is_final [OF inv r st] st r show ?thesis by blast
qed

end
