(* ===== verification/ChallengeTrip.thy ===== *)
theory ChallengeTrip
  imports SessionSpec
begin

text \<open>
  A challenge from the end that makes it to the end that answers it: the message of
  \<open>Challenge_encode\<close>, its reception, the change of the password and the answer, and what the first
  end does on the answer.
\<close>

section \<open>Lemmas on the message\<close>

lemma challenge_data_parts:
  assumes "Challenge_encode_data J e T ts m c s = Inr (Inr enc)"
  obtains req q tx where "serializeMessage J (Some m) = Inr (Inr req)"
    "ptxt_set ts ptxt_null (Some ts) (Some req) = (E_no_error, q)" "ptxt_serialize J T q = Inr (Inr tx)"
    "coder_cipher_encrypt e c s tx = Inr (E_no_error, Some enc)"
proof -
  obtain ser where ser: "serializeMessage J (Some m) = Inr ser"
    using assms by (cases "serializeMessage J (Some m)") (simp_all add: Challenge_encode_data_def)
  obtain req where req: "ser = Inr req" using assms ser by (cases ser) (simp_all add: Challenge_encode_data_def)
  obtain r q where q: "ptxt_set ts ptxt_null (Some ts) (Some req) = (r, q)"
    by (cases "ptxt_set ts ptxt_null (Some ts) (Some req)")
  have r: "r = E_no_error" using assms ser req q by (simp add: Challenge_encode_data_def split: if_splits)
  obtain data where d: "ptxt_serialize J T q = Inr data"
    using assms ser req q r by (cases "ptxt_serialize J T q") (simp_all add: Challenge_encode_data_def)
  obtain tx where tx: "data = Inr tx"
    using assms ser req q r d by (cases data) (simp_all add: Challenge_encode_data_def)
  obtain r1 out where e: "coder_cipher_encrypt e c s tx = Inr (r1, out)"
    using assms ser req q r d tx
    by (cases "coder_cipher_encrypt e c s tx") (auto simp: Challenge_encode_data_def)
  have "out = Some enc \<and> r1 = E_no_error"
    using assms ser req q r d tx e by (cases out) (auto simp: Challenge_encode_data_def split: if_splits)
  thus thesis using that ser req q r d tx e by blast
qed

lemma challenge_messages_parts:
  assumes "challenge_messages J e T d c loc a b64 cur new dbs ch = Inr (dbs', ch', Inr payload)"
  obtains data1 p data2 where
    "Challenge_encode_data J e T (dr_now d) \<lparr> m_mId = dr_uuid d 0, m_body = ChangePwdRequest (Some b64) \<rparr> c cur =
      Inr (Inr data1)"
    "Challenge_encode_data J e T (dr_now d) \<lparr> m_mId = dr_uuid d 1, m_body = Ping (Some p) \<rparr> c new = Inr (Inr data2)"
    "serializeMessage J (Some \<lparr> m_mId = dr_uuid d 2,
       m_body = Encrypted (Some loc) (Some (a_login a)) (Some [Some data1, Some data2]) \<rparr>) = Inr (Inr payload)"
  using assms
  by (auto simp: challenge_messages_def Let_def run_cases initMessage_def simp del: rbind_Inr_iff split: sum.splits)

text \<open>What the decoder makes of the message: its two elements, decrypted in turn for the login.\<close>
lemma decode_challenge_message:
  assumes J: "json_sound J"
    and ser: "serializeMessage J (Some \<lparr> m_mId = u, m_body = Encrypted (Some A) (Some l) (Some [Some x, Some y]) \<rparr>) =
      Inr (Inr payload)"
  shows "Encrypted_decode J e T pos w now d (Some c) B (Some payload) a0 =
    rbind (decode_loop J e T pos w now c B (Some l) (Some A) [j_new_string J x, j_new_string J y] d [] a0)
      (\<lambda>(d1, ps, a). Inr (d1, if ps = [] then K_decrypt else E_no_error, ps, a))"
proof -
  let ?vs = "[j_new_string J x, j_new_string J y]"
  let ?obj = "j_object J [(''mType'', j_new_string J ''eRMsg''), (''mId'', j_new_string J u),
      (''type'', j_new_string J ''Encrypted''), (''sId'', j_new_string J A), (''data'', j_array J ?vs),
      (''login'', j_new_string J l)]"
  have p: "payload = j_print J ?obj"
    using ser by (auto simp: serializeMessage_def body_members_def split: if_splits)
  have "j_members J ?obj [''mType'', ''type'', ''mId'', ''login'', ''sId'', ''data''] =
      Some [j_new_string J ''eRMsg'', j_new_string J ''Encrypted'', j_new_string J u,
        j_new_string J l, j_new_string J A, j_array J ?vs]"
    by (simp add: j_get_object [OF J])
  moreover have "j_parse J payload = Some ?obj" unfolding p by (rule parse_object [OF J]) simp
  moreover have "payload \<noteq> []" unfolding p by (rule json_soundD(3) [OF J])
  moreover have "array_values J (j_array J ?vs) (length ?vs) = ?vs" by (rule array_values_new [OF J])
  ultimately show ?thesis
    using J by (simp add: Encrypted_decode_def json_soundD(7) del: decode_loop.simps)
qed

text \<open>What the other end makes of an element under the secret of the current password.\<close>
lemma decrypt_ready:
  assumes B: "ready e c Act_decrypt B l A pwd dB"
    and s: "derived e c A Act_encrypt a = Inr (Some s)" "a_pwd a = pwd" "a_sId a = B" "a_login a = l"
    and ctx: "cipher_aes_context_new e" and key: "secret_octets s = Inr key" "c_decrypt e c x key = Inr out"
  shows "\<exists>k b. coder_decrypt e pos dB c B (Some l) (Some A) (Some x) = Inr k \<and>
    k_ret k = (if out = None then K_decrypt else E_no_error) \<and> k_out k = map_option (\<lambda>bs. c_string (bs @ [0])) out \<and>
    k_auth k = Some b \<and> auth_id b = (''from'', A, l) \<and> ready e c Act_decrypt B l A pwd (k_dbs k)"
proof -
  obtain b where b: "coder_auth_get dB (Some l) (Some A) Act_decrypt = Inr (E_no_error, Some b)"
      "auth_at dB (if Act_decrypt = Act_encrypt then ''to'' else ''from'', A, l) = Some b"
      "a_pwd b = pwd" "secret_current e c B Act_decrypt b" "a_sId b = A" "a_login b = l"
      "auth_id b = (if Act_decrypt = Act_encrypt then ''to'' else ''from'', A, l)"
    using B by (elim coder_auth_get_ready)
  have "derived e c B Act_decrypt b = Inr (Some s)"
    using s derived_symmetric [of a B b A e c] b by simp
  then obtain b1 where s': "coder_secret_get e pos c b B Act_decrypt = Inr (b1, Inr s)"
    using coder_secret_get_spec(2) [OF b(4)] by blast
  note sb = coder_secret_get_spec(1) [OF b(4) s']
  have "coder_decrypt e pos dB c B (Some l) (Some A) (Some x) =
      Inr \<lparr> k_dbs = put_auth dB b1, k_ret = (if out = None then K_decrypt else E_no_error),
        k_out = map_option (\<lambda>bs. c_string (bs @ [0])) out, k_auth = Some b1 \<rparr>"
    using b(1) s' ctx key by (cases out) (simp_all add: coder_decrypt_def coder_cipher_decrypt_def Let_def)
  moreover have "ready e c Act_decrypt B l A pwd (put_auth dB b1)"
    using sb by (intro ready_put [OF B b(2)]) auto
  moreover have "auth_id b1 = (''from'', A, l)" using same_but_secretsD(1) [of b b1] sb b(7) by simp
  ultimately show ?thesis by auto
qed

lemma decrypt_current:
  assumes e: "evp_sound e" and B: "ready e c Act_decrypt B l A pwd dB"
    and s: "derived e c A Act_encrypt a = Inr (Some s)" "a_pwd a = pwd" "a_sId a = B" "a_login a = l"
    and enc: "coder_cipher_encrypt e c s tx = Inr (E_no_error, Some x)" and "no_nul tx"
  shows "\<exists>k b. coder_decrypt e pos dB c B (Some l) (Some A) (Some x) = Inr k \<and> k_ret k = E_no_error \<and>
    k_out k = Some tx \<and> k_auth k = Some b \<and> auth_id b = (''from'', A, l) \<and>
    ready e c Act_decrypt B l A pwd (k_dbs k)"
proof -
  obtain key where key: "secret_octets s = Inr key" "c_encrypt e c (map byte_of tx) key = Inr (Some x)"
    and ctx: "cipher_aes_context_new e"
    using enc by (auto simp: coder_cipher_encrypt_def split: if_splits option.splits)
  have "c_decrypt e c x key = Inr (Some (map byte_of tx))"
    unfolding c_decrypt_def by (rule aes_frame_decrypts [OF e key(2) [unfolded c_encrypt_def]])
  from decrypt_ready [OF B s ctx key(1) this] show ?thesis using c_string_text [OF assms(8)] by auto
qed

lemma coder_decrypt_auth:
  assumes "coder_decrypt e pos d c loc (Some l) (Some A) x = Inr k" "auth_dbs_ok d"
    and "auth_at d (''from'', A, l) = Some b"
  shows "\<exists>b'. k_auth k = Some b' \<and> auth_id b' = (''from'', A, l)"
proof -
  let ?ret = "if a_active b then E_no_error else C_generic"
  have g: "coder_auth_get d (Some l) (Some A) Act_decrypt = Inr (?ret, Some b)"
    using assms(3) by (simp add: coder_auth_get_def auth_from_key_set_def auth_from_dbId_def auth_find_by_key_def
        auth_key_set_def auth_at_def Let_def)
  have id: "auth_id b = (''from'', A, l)" by (rule auth_at_ok [OF assms(2,3)])
  show ?thesis
  proof (cases "a_active b")
    case False
    thus ?thesis using assms(1) g id by (auto simp: coder_decrypt_def)
  next
    case True
    then obtain b1 s where s: "coder_secret_get e pos c b loc Act_decrypt = Inr (b1, s)"
      using assms(1) g by (auto simp: coder_decrypt_def)
    have "auth_id b1 = (''from'', A, l)" using same_but_secretsD(1) [OF coder_secret_get_entry [OF s]] id by simp
    moreover have "k_auth k = Some b1"
      using assms(1) g s True
      by (cases s) (auto simp: coder_decrypt_def Let_def run_cases simp del: rbind_Inr_iff split: if_splits)
    ultimately show ?thesis by blast
  qed
qed

lemma decode_loop_more:
  "decode_loop J e T pos w now c loc login sId vs d out a = Inr (d', out', a') \<Longrightarrow> \<exists>r. out' = out @ r"
proof (induction vs arbitrary: d out a)
  case (Cons v vs)
  obtain k where k: "coder_decrypt e pos d c loc login sId (j_get_string J v) = Inr k"
    using Cons.prems by auto
  obtain out1 where "decode_loop J e T pos w now c loc login sId vs (k_dbs k) out1 (k_auth k) = Inr (d', out', a')"
    and "out1 = out \<or> (\<exists>p. out1 = out @ [p])"
  proof
    show "decode_loop J e T pos w now c loc login sId vs (k_dbs k) (case k_out k of
                    None \<Rightarrow> out
                  | Some plain \<Rightarrow>
                      if k_ret k \<noteq> E_no_error then out
                      else let (r, p) = ptxt_deserial J T plain ptxt_null
                           in if r \<noteq> E_no_error then out
                              else if ptxt_is_valid T w now p \<noteq> E_no_error then out
                              else out @ [p]) (k_auth k) = Inr (d', out', a')"
      using Cons.prems k by (simp add: Let_def)
  qed (auto split: option.split prod.split simp: Let_def)
  thus ?case using Cons.IH by fastforce
qed simp

lemma dispatch_more: "\<exists>r. s_internal_q (foldl (dispatch from) s ps) = s_internal_q s @ r"
proof (induction ps arbitrary: s)
  case (Cons p ps)
  obtain r where "s_internal_q (foldl (dispatch from) (dispatch from s p) ps) = s_internal_q (dispatch from s p) @ r"
    using Cons.IH by blast
  moreover have "\<exists>r. s_internal_q (dispatch from s p) = s_internal_q s @ r"
    by (simp add: dispatch_def split: option.split pt_class.split)
  ultimately show ?case by auto
qed simp

section \<open>The way there\<close>

lemma challenge_decoding:
  assumes J: "json_sound (e_json E)" "times_sound (e_times E)" "evp_sound (e_evp E)" "e_window E \<le> 0"
    and A: "ready (e_evp E) c Act_encrypt A l B pwd dA" "auth_at dA (''to'', B, l) = Some a"
    and new: "auth_get_new_pwd_b64 (dr_pwd d) a = Inr (a1, E_no_error, Some t)"
    and req: "serializeMessage (e_json E) (Some \<lparr> m_mId = dr_uuid d 0, m_body = ChangePwdRequest (Some t) \<rparr>) =
      Inr (Inr req)"
    and clean: "sendable (e_json E) (e_times E) \<lparr> p_timestamp = dr_now d, p_class = Cl_internal, p_original = Some req \<rparr>"
      "\<not> strstr (quoted ''rSMsg'') req"
    and enc: "Challenge_encode (e_json E) (e_evp E) (e_times E) pos d dA ch (Some c) (Some A) (Some l) (Some B) =
      Inr (dA', ch', Inr payload)"
    and B: "ready (e_evp E) c Act_decrypt B l A pwd dB"
  obtains k :: coded and r :: ptxt and data2 and a2 :: auth and cur ckey nw tx2 where
    "Encrypted_decode (e_json E) (e_evp E) (e_times E) (e_pos E) (e_window E) now dB (Some c) B (Some payload) None =
      rbind (decode_loop (e_json E) (e_evp E) (e_times E) (e_pos E) (e_window E) now c B (Some l) (Some A)
        [j_new_string (e_json E) data2] (k_dbs k) [r] (k_auth k))
      (\<lambda>(d1, ps, a). Inr (d1, if ps = [] then K_decrypt else E_no_error, ps, a))"
    "p_original r = Some req" "p_class r = Cl_internal" "ready (e_evp E) c Act_decrypt B l A pwd (k_dbs k)"
    "computeNewSecretAuthTo (e_evp E) c A a2 = Inr (Some nw)" "a_new_pwd a2 = a_new_pwd a1"
    "a_pwd a2 = pwd" "a_sId a2 = B" "a_login a2 = l"
    "coder_cipher_encrypt (e_evp E) c nw tx2 = Inr (E_no_error, Some data2)"
    "derived (e_evp E) c A Act_encrypt a2 = Inr (Some cur)" "secret_octets cur = Inr ckey"
    "cipher_aes_context_new (e_evp E)"
proof -
  let ?J = "e_json E" and ?e = "e_evp E" and ?T = "e_times E"
  let ?p = "\<lparr> p_timestamp = dr_now d, p_class = Cl_internal, p_original = Some req \<rparr>"
  have okA: "auth_dbs_ok dA" and a: "a_pwd a = pwd" "secret_current ?e c A Act_encrypt a"
    using A by (auto simp: ready_def)
  have id: "auth_id a = (''to'', B, l)" by (rule auth_at_ok [OF okA A(2)])
  obtain a2 cur nw dbs2 ch2 where cur: "coder_secret_get ?e pos c a1 A Act_encrypt = Inr (a2, Inr cur)"
    and m: "challenge_messages ?J ?e ?T d c A a2 t cur nw dbs2 ch2 = Inr (dbs2, ch', Inr payload)"
    and nw: "computeNewSecretAuthTo ?e c A a2 = Inr (Some nw)"
    by (rule Challenge_encode_success [OF okA enc]) (use A(2) new in auto)
  note a1 = new_pwd_pending [OF new]
  have sc1: "secret_current ?e c A Act_encrypt a1"
  proof -
    have "derived ?e c A Act_encrypt a1 = derived ?e c A Act_encrypt a"
      using a1 by (simp add: derived_def currentPassphrase_def passphraseForPwd_def auth_id_def)
    moreover have "auth_secret_get (Some a1) (Some (c_lib c)) = auth_secret_get (Some a) (Some (c_lib c))"
      using a1 by (simp add: auth_secret_get_def)
    ultimately show ?thesis using a(2) by (simp add: secret_current_def cong: option.case_cong)
  qed
  note g = coder_secret_get_spec(1) [OF sc1 cur]
  have a1_ids: "a_pwd a1 = pwd" "a_sId a1 = B" "a_login a1 = l" using a1 a(1) id by (auto simp: auth_id_def)
  have "a_login a2 = l" using same_but_secretsD(4) [of a1 a2] g a1_ids by simp
  with m obtain data1 p data2 where
    d1: "Challenge_encode_data ?J ?e ?T (dr_now d) \<lparr> m_mId = dr_uuid d 0, m_body = ChangePwdRequest (Some t) \<rparr> c cur =
      Inr (Inr data1)"
    and d2: "Challenge_encode_data ?J ?e ?T (dr_now d) \<lparr> m_mId = dr_uuid d 1, m_body = Ping (Some p) \<rparr> c nw =
      Inr (Inr data2)"
    and ser: "serializeMessage ?J (Some \<lparr> m_mId = dr_uuid d 2,
       m_body = Encrypted (Some A) (Some l) (Some [Some data1, Some data2]) \<rparr>) = Inr (Inr payload)"
    by (metis challenge_messages_parts)
  obtain q tx where q: "ptxt_set (dr_now d) ptxt_null (Some (dr_now d)) (Some req) = (E_no_error, q)"
    "ptxt_serialize ?J ?T q = Inr (Inr tx)" "coder_cipher_encrypt ?e c cur tx = Inr (E_no_error, Some data1)"
    using d1 req by (auto elim: challenge_data_parts)
  have qp: "q = ?p"
    using q(1) clean(2) by (auto simp: ptxt_set_def ptxt_null_def Let_def split: if_splits)
  have nn: "no_nul tx" using clean(1) q(2) qp by (simp add: sendable_def)
  obtain k b where k: "coder_decrypt ?e (e_pos E) dB c B (Some l) (Some A) (Some data1) = Inr k"
    "k_ret k = E_no_error" "k_out k = Some tx" "ready ?e c Act_decrypt B l A pwd (k_dbs k)"
    using decrypt_current [OF J(3) B _ a1_ids q(3) nn] g by blast
  obtain r where r: "ptxt_deserial ?J ?T tx ptxt_null = (E_no_error, r)"
    "ptxt_is_valid ?T (e_window E) now r = E_no_error" "same_ptxt ?p r"
    using decode_sendable [OF J(1,2) clean(1) _ J(4)] q(2) qp by metis
  have "decode_loop ?J ?e ?T (e_pos E) (e_window E) now c B (Some l) (Some A) (j_new_string ?J data1 # vs) dB [] None =
      decode_loop ?J ?e ?T (e_pos E) (e_window E) now c B (Some l) (Some A) vs (k_dbs k) [r] (k_auth k)" for vs
    using k r(1,2) by (simp add: json_soundD(7) [OF J(1)] Let_def)
  hence dec: "Encrypted_decode ?J ?e ?T (e_pos E) (e_window E) now dB (Some c) B (Some payload) None =
      rbind (decode_loop ?J ?e ?T (e_pos E) (e_window E) now c B (Some l) (Some A) [j_new_string ?J data2] (k_dbs k)
      [r] (k_auth k)) (\<lambda>(d1, ps, a). Inr (d1, if ps = [] then K_decrypt else E_no_error, ps, a))"
    by (simp add: decode_challenge_message [OF J(1) ser] del: decode_loop.simps)
  obtain tx2 where tx2: "coder_cipher_encrypt ?e c nw tx2 = Inr (E_no_error, Some data2)"
    using d2 by (auto elim: challenge_data_parts)
  obtain ss where a2: "a2 = a1\<lparr> a_secrets := ss \<rparr>" using g by (auto simp: same_but_secrets_def)
  have dv2: "derived ?e c A Act_encrypt a2 = Inr (Some cur)"
    using g same_but_secretsD(5) [of a1 a2] by simp
  obtain ckey where ck: "secret_octets cur = Inr ckey" "cipher_aes_context_new ?e"
    using q(3) by (auto simp: coder_cipher_encrypt_def split: if_splits)
  show thesis
    by (rule that [OF dec _ _ k(4) nw _ _ _ _ tx2 dv2 ck])
      (use r(3) a2 a1_ids in \<open>simp_all add: same_ptxt_def\<close>)
qed

text \<open>The second element, as the secret of the current password decrypts it.\<close>
lemma second_element:
  assumes J: "json_sound J" and B: "ready e c Act_decrypt B l A pwd d"
    and s: "derived e c A Act_encrypt a = Inr (Some cur)" "a_pwd a = pwd" "a_sId a = B" "a_login a = l"
    and ctx: "cipher_aes_context_new e" and key: "secret_octets cur = Inr ckey" "c_decrypt e c x ckey = Inr dec"
  shows "\<exists>d2 more b. decode_loop J e T pos w now c B (Some l) (Some A) [j_new_string J x] d out a0 =
      Inr (d2, out @ more, Some b) \<and> auth_id b = (''from'', A, l) \<and> (dec = None \<longrightarrow> more = [])"
proof -
  obtain k b where k: "coder_decrypt e pos d c B (Some l) (Some A) (Some x) = Inr k"
    "k_ret k = (if dec = None then K_decrypt else E_no_error)"
    "k_out k = map_option (\<lambda>bs. c_string (bs @ [0])) dec" "k_auth k = Some b" "auth_id b = (''from'', A, l)"
    using decrypt_ready [OF B s ctx key] by blast
  have "\<exists>d2 out' a'. decode_loop J e T pos w now c B (Some l) (Some A) [j_new_string J x] d out a0 = Inr (d2, out', a') \<and>
      a' = Some b \<and> (dec = None \<longrightarrow> out' = out)"
    using k by (simp add: json_soundD(7) [OF J] Let_def)
  thus ?thesis using decode_loop_more k(5) by (metis append_Nil2 same_append_eq)
qed

lemma challenge_received:
  assumes J: "json_sound (e_json E)" "times_sound (e_times E)" "evp_sound (e_evp E)" "e_window E \<le> 0"
    and A: "ready (e_evp E) c Act_encrypt A l B pwd dA" "auth_at dA (''to'', B, l) = Some a"
    and new: "auth_get_new_pwd_b64 (dr_pwd d) a = Inr (a1, E_no_error, Some t)"
    and req: "serializeMessage (e_json E) (Some \<lparr> m_mId = dr_uuid d 0, m_body = ChangePwdRequest (Some t) \<rparr>) =
      Inr (Inr req)"
    and clean: "sendable (e_json E) (e_times E) \<lparr> p_timestamp = dr_now d, p_class = Cl_internal, p_original = Some req \<rparr>"
      "\<not> strstr (quoted ''rSMsg'') req"
    and enc: "Challenge_encode (e_json E) (e_evp E) (e_times E) pos d dA ch (Some c) (Some A) (Some l) (Some B) =
      Inr (dA', ch', Inr payload)"
    and B: "s_cipher sB = Some c" "s_local sB = Some B" "ready (e_evp E) c Act_decrypt B l A pwd (s_dbs sB)"
    and run: "receive_task E now silent (Inr payload) sB = Inr sB'"
  shows "\<exists>rest. s_internal_q sB' = s_internal_q sB @ (req, Some (''from'', A, l)) # rest"
proof -
  let ?J = "e_json E" and ?e = "e_evp E" and ?T = "e_times E"
  obtain k :: coded and r :: ptxt and data2 where
    dec: "Encrypted_decode ?J ?e ?T (e_pos E) (e_window E) now (s_dbs sB) (Some c) B (Some payload) None =
      rbind (decode_loop ?J ?e ?T (e_pos E) (e_window E) now c B (Some l) (Some A) [j_new_string ?J data2] (k_dbs k)
      [r] (k_auth k)) (\<lambda>(d1, ps, a). Inr (d1, if ps = [] then K_decrypt else E_no_error, ps, a))"
    and r: "p_original r = Some req" "p_class r = Cl_internal" and k: "ready ?e c Act_decrypt B l A pwd (k_dbs k)"
    by (rule challenge_decoding [where now = now, OF J A new req clean enc B(3)]) blast
  let ?loop = "decode_loop ?J ?e ?T (e_pos E) (e_window E) now c B (Some l) (Some A) [j_new_string ?J data2] (k_dbs k)
      [r] (k_auth k)"
  obtain d2 ps a3 where l2: "?loop = Inr (d2, ps, a3)"
    using run B(1,2) dec by (cases ?loop) (auto simp: receive_task_def simp del: decode_loop.simps)
  have q1: "s_internal_q sB' = s_internal_q (foldl (dispatch (map_option auth_id a3)) (sB\<lparr> s_dbs := d2 \<rparr>) ps)"
    using run B(1,2) dec l2 by (simp add: receive_task_def del: decode_loop.simps)
  obtain more where ps: "ps = r # more" using decode_loop_more [OF l2] by auto
  have "\<exists>b'. a3 = Some b' \<and> auth_id b' = (''from'', A, l)"
  proof -
    obtain k2 where k2: "coder_decrypt ?e (e_pos E) (k_dbs k) c B (Some l) (Some A) (Some data2) = Inr k2" "a3 = k_auth k2"
      using l2 by (auto simp: json_soundD(7) [OF J(1)] Let_def)
    obtain b where "auth_dbs_ok (k_dbs k)" "auth_at (k_dbs k) (''from'', A, l) = Some b"
      using k by (auto simp: ready_def split: option.splits)
    from coder_decrypt_auth [OF k2(1) this] k2(2) show ?thesis by blast
  qed
  hence a3: "map_option auth_id a3 = Some (''from'', A, l)" by auto
  have dr: "dispatch src s r = s\<lparr> s_internal_q := s_internal_q s @ [(req, src)] \<rparr>" for src s
    using r by (simp add: dispatch_def)
  have "\<exists>rest. s_internal_q (foldl (dispatch (Some (''from'', A, l))) (s\<lparr> s_internal_q := iq \<rparr>) more) = iq @ rest" for s iq
    using dispatch_more [of "Some (''from'', A, l)" "s\<lparr> s_internal_q := iq \<rparr>" more] by simp
  thus ?thesis unfolding q1 a3 ps by (simp add: dr) (metis append_Cons append_Nil append_assoc)
qed

section \<open>The answer\<close>

lemma response_message:
  assumes J: "json_sound J" and len: "length u = 36" "length oMId = 36"
  shows "\<exists>resp. sendMessage J s ((initMessage u (ChangePwdResponse False []))\<lparr> m_body := ChangePwdResponse st oMId \<rparr>) None =
      Inr (s\<lparr> s_send_q := s_send_q s @ [\<lparr> o_buf = resp, o_encrypt = True, o_login = None \<rparr>] \<rparr>, E_no_error) \<and>
    deserializeMessage J (Some resp) = Inr (Inr \<lparr> m_mId = u, m_body = ChangePwdResponse st oMId \<rparr>)"
proof -
  let ?m = "\<lparr> m_mId = u, m_body = ChangePwdResponse st oMId \<rparr>"
  have ok: "messageCheckFields (Some ?m) = Inr True"
    using len by (auto simp: messageCheckFields_def UUID_STR_LEN_def)
  obtain ms where ms: "body_members J (m_body ?m) = Inr ms" by (simp add: body_members_def)
  let ?resp = "j_print J (j_object J ([(''mType'', j_new_string J ''eRMsg''), (''mId'', j_new_string J (m_mId ?m))] @ ms))"
  have ser: "serializeMessage J (Some ?m) = Inr (Inr ?resp)" using ok ms by (simp add: serializeMessage_def)
  have "deserializeMessage J (Some ?resp) = Inr (Inr ?m)"
    using message_read_back [OF J _ ser] len by (simp add: UUID_STR_LEN_def)
  moreover have "?resp \<noteq> []" by (rule json_soundD(3) [OF J])
  ultimately show ?thesis using ok ser
    by (auto simp: sendMessage_def initMessage_def send_optional_encryption_def)
qed

lemma request_answered:
  assumes J: "json_sound (e_json E)" and ok: "auth_dbs_ok (s_dbs s)" and c: "s_cipher s = Some c"
    and b: "auth_at (s_dbs s) (''from'', A, l) = Some b" "a_active b" and bs: "bs \<noteq> []"
    and m: "messageCheckFields (Some \<lparr> m_mId = u, m_body = ChangePwdRequest (Some (base64_encode bs)) \<rparr>) = Inr True"
    and free: "\<not> change_pwd_busy s" and len: "length (tn_uuid tn) = 36"
  shows "\<exists>s' b' resp. cyber_process_internal_msg E tn s (Some (''from'', A, l))
      (Some \<lparr> m_mId = u, m_body = ChangePwdRequest (Some (base64_encode bs)) \<rparr>) = Inr (s', Some E_no_error) \<and>
    auth_at (s_dbs s') (''from'', A, l) = Some b' \<and> a_pwd b' = blob_of bs \<and>
    s_send_q s' = s_send_q s @ [\<lparr> o_buf = resp, o_encrypt = True, o_login = None \<rparr>] \<and>
    deserializeMessage (e_json E) (Some resp) = Inr (Inr \<lparr> m_mId = tn_uuid tn, m_body = ChangePwdResponse True u \<rparr>)"
proof -
  let ?now = "dr_now (tn_draws tn)" and ?k = "(''from'', A, l)"
  let ?b1 = "b\<lparr> a_pwd := blob_of bs, a_timestamp := ?now \<rparr>"
  have id: "auth_id b = ?k" by (rule auth_at_ok [OF ok b(1)])
  hence "auth_from_is b" by (simp add: auth_from_is_def auth_db_is_def auth_from_dbId_def auth_id_def)
  hence set: "auth_set_pwd_b64 ?now b (base64_encode bs) = Inr (?b1, E_no_error)"
    using b(2) by (simp add: auth_set_pwd_b64_def base64_decode_encode [OF bs])
  have id1: "auth_id ?b1 = ?k" using id by (simp add: auth_id_def)
  let ?s1 = "put_session_auth s ?b1"
  obtain s2 where p: "purge_secret ?s1 ?k = Inr s2" using c by (simp add: purge_secret_def put_session_auth_def)
  obtain d where d: "s2 = ?s1\<lparr> s_dbs := d \<rparr>" "secrets_step (s_dbs ?s1) d" using purge_secrets [OF p] by blast
  have at1: "auth_dbs_ok (s_dbs ?s1)" "auth_at (s_dbs ?s1) ?k = Some ?b1"
    using put_auth_at [OF ok b(1) id1] by (simp_all add: put_session_auth_def)
  hence "case auth_at (s_dbs ?s1) ?k of None \<Rightarrow> auth_at d ?k = None
      | Some a \<Rightarrow> \<exists>a'. auth_at d ?k = Some a' \<and> same_but_secrets a a'"
    using d(2) unfolding secrets_step_def by blast
  then obtain b' where b': "auth_at d ?k = Some b'" "a_pwd b' = blob_of bs"
    using at1(2) same_but_secretsD(3) by fastforce
  have chg: "change_password ?now s (Some ?k) (base64_encode bs) = Inr (s2, True)"
    using b(1) set p by (simp add: change_password_def)
  have "length u = 36" using m by (simp add: messageCheckFields_def UUID_STR_LEN_def split: if_splits)
  from response_message [OF J len this] obtain resp where
    r: "sendMessage (e_json E) s2 ((initMessage (tn_uuid tn) (ChangePwdResponse False []))\<lparr> m_body := ChangePwdResponse True u \<rparr>) None =
      Inr (s2\<lparr> s_send_q := s_send_q s2 @ [\<lparr> o_buf = resp, o_encrypt = True, o_login = None \<rparr>] \<rparr>, E_no_error)"
    "deserializeMessage (e_json E) (Some resp) = Inr (Inr \<lparr> m_mId = tn_uuid tn, m_body = ChangePwdResponse True u \<rparr>)"
    by blast
  have "cyber_process_internal_msg E tn s (Some ?k)
      (Some \<lparr> m_mId = u, m_body = ChangePwdRequest (Some (base64_encode bs)) \<rparr>) =
      Inr (s2\<lparr> s_send_q := s_send_q s2 @ [\<lparr> o_buf = resp, o_encrypt = True, o_login = None \<rparr>] \<rparr>, Some E_no_error)"
    using m free chg r(1) by (simp add: cyber_process_internal_msg_def handle_request_def)
  moreover have "s_send_q s2 = s_send_q s" "s_dbs s2 = d" using d(1) by (simp_all add: put_session_auth_def)
  ultimately show ?thesis using b' r(2) by auto
qed

lemma receive_keeps:
  assumes "receive_task E now silent received s = Inr s'"
  shows "secrets_step (s_dbs s) (s_dbs s') \<and> s_cipher s' = s_cipher s"
  using receive_task_effect [OF assms] by (auto simp: cyber_stop_def trigger_def)

text \<open>The text of the request drawn for an entry.\<close>
definition challenge_text :: "'j json_api \<Rightarrow> draws \<Rightarrow> auth \<Rightarrow> cstr" where
  "challenge_text J d a =
    (case auth_get_new_pwd_b64 (dr_pwd d) a of
       Inr (a1, E_no_error, Some t) \<Rightarrow>
         (case serializeMessage J (Some \<lparr> m_mId = dr_uuid d 0, m_body = ChangePwdRequest (Some t) \<rparr>) of
            Inr (Inr req) \<Rightarrow> Some req
          | _ \<Rightarrow> None)
     | _ \<Rightarrow> None)"

text \<open>The entry after the challenge, and the octets drawn.\<close>
lemma challenge_drawn:
  assumes ok: "auth_dbs_ok dA" and at: "auth_at dA (''to'', B, l) = Some a" and np: "\<not> a_new_pwd_pending a"
    and enc: "Challenge_encode J e T pos d dA ch (Some c) (Some A) (Some l) (Some B) = Inr (dA', ch', Inr payload)"
  obtains a1 bs a' where "auth_get_new_pwd_b64 (dr_pwd d) a = Inr (a1, E_no_error, Some (base64_encode bs))" "bs \<noteq> []"
    "auth_at dA' (''to'', B, l) = Some a'" "ch_mIdRequest ch' = Some (dr_uuid d 0)"
    "\<And>now. \<exists>aS. auth_switch_to_new_pwd now a' = Inr (aS, E_no_error) \<and> a_pwd aS = blob_of bs"
proof -
  obtain a1 t a2 cur nw ch2 where act: "a_active a"
    and p: "auth_get_new_pwd_b64 (dr_pwd d) a = Inr (a1, E_no_error, Some t)"
    and g: "coder_secret_get e pos c a1 A Act_encrypt = Inr (a2, Inr cur)" and d': "dA' = put_auth (put_auth dA a1) a2"
    and m: "challenge_messages J e T d c A a2 t cur nw dA' ch2 = Inr (dA', ch', Inr payload)"
    by (rule Challenge_encode_success [OF ok enc]) (use at in auto)
  let ?n = "blen (a_pwd a)"
  let ?bs = "map (\<lambda>i. gen_char (dr_pwd d i)) [0..<?n]"
  have n: "?n \<noteq> 0" and to: "auth_to_is a"
    and a1: "a1 = a\<lparr> a_new_pwd := \<lparr> bbuf = Some ?bs, blen = ?n \<rparr>, a_new_pwd_pending := True \<rparr>" "t = base64_encode ?bs"
    using p np act by (auto simp: auth_get_new_pwd_b64_def auth_gen_new_pwd_def AUTH_PWD_LEN_MIN_def split: if_splits)
  have id: "auth_id a = (''to'', B, l)" by (rule auth_at_ok [OF ok at])
  have id1: "auth_id a1 = (''to'', B, l)" using id a1(1) by (simp add: auth_id_def)
  have sb: "same_but_secrets a1 a2" by (rule coder_secret_get_entry [OF g])
  have id2: "auth_id a2 = (''to'', B, l)" using same_but_secretsD(1) [OF sb] id1 by simp
  have "auth_at (put_auth dA a1) (''to'', B, l) = Some a1" using put_auth_at(2) [OF ok at id1] by simp
  from put_auth_at(2) [OF put_auth_at(1) [OF ok at id1] this id2] have at': "auth_at dA' (''to'', B, l) = Some a2"
    unfolding d' by simp
  obtain ss where a2: "a2 = a1\<lparr> a_secrets := ss \<rparr>" using sb by (auto simp: same_but_secrets_def)
  have "\<exists>aS. auth_switch_to_new_pwd now a2 = Inr (aS, E_no_error) \<and> a_pwd aS = blob_of ?bs" for now
    using act to n unfolding a2 a1(1)
    by (simp add: auth_switch_to_new_pwd_def auth_forget_new_pwd_def auth_to_is_def auth_db_is_def blob_of_def)
  moreover have "?bs \<noteq> []" using n by simp
  moreover have "ch_mIdRequest ch' = Some (dr_uuid d 0)" using challenge_messages_success [OF m] by simp
  ultimately show thesis using that p a1(2) at' by blast
qed

section \<open>Property\<close>

text \<open>C2. A challenge is accepted.  When an end with the same password, whose own challenge does not
  keep it busy, receives the challenge the other end made, the request of the new password is put
  before anything else of the message into its queue; handling it gives the entry the password that
  the other end switches to, and queues the answer of success under the identifier that is awaited.\<close>
theorem challenge_accepted:
  assumes "json_sound (e_json E)" "times_sound (e_times E)" "evp_sound (e_evp E)" "e_window E \<le> 0"
    and "ready (e_evp E) c Act_encrypt A l B pwd dA" "auth_at dA (''to'', B, l) = Some a" "\<not> a_new_pwd_pending a"
    and "challenge_text (e_json E) d a = Some req"
    and "sendable (e_json E) (e_times E) \<lparr> p_timestamp = dr_now d, p_class = Cl_internal, p_original = Some req \<rparr>"
    and "\<not> strstr (quoted ''rSMsg'') req"
    and "Challenge_encode (e_json E) (e_evp E) (e_times E) pos d dA ch (Some c) (Some A) (Some l) (Some B) =
      Inr (dA', ch', Inr payload)"
    and "s_cipher sB = Some c" "s_local sB = Some B" "ready (e_evp E) c Act_decrypt B l A pwd (s_dbs sB)"
    and "receive_task E now silent (Inr payload) sB = Inr sB1"
    and "\<not> change_pwd_busy sB1" "length (tn_uuid tn) = 36"
  shows "\<exists>rest m sB2 b resp a' aS.
    s_internal_q sB1 = s_internal_q sB @ (req, Some (''from'', A, l)) # rest \<and>
    deserializeMessage (e_json E) (Some req) = Inr (Inr m) \<and>
    cyber_process_internal_msg E tn sB1 (Some (''from'', A, l)) (Some m) = Inr (sB2, Some E_no_error) \<and>
    auth_at (s_dbs sB2) (''from'', A, l) = Some b \<and>
    auth_at dA' (''to'', B, l) = Some a' \<and> auth_switch_to_new_pwd now' a' = Inr (aS, E_no_error) \<and>
    a_pwd aS = a_pwd b \<and>
    s_send_q sB2 = s_send_q sB1 @ [\<lparr> o_buf = resp, o_encrypt = True, o_login = None \<rparr>] \<and>
    deserializeMessage (e_json E) (Some resp) =
      Inr (Inr \<lparr> m_mId = tn_uuid tn, m_body = ChangePwdResponse True (the (ch_mIdRequest ch')) \<rparr>)"
proof -
  have okA: "auth_dbs_ok dA" using assms(5) by (simp add: ready_def)
  obtain a1 bs a' where new: "auth_get_new_pwd_b64 (dr_pwd d) a = Inr (a1, E_no_error, Some (base64_encode bs))" "bs \<noteq> []"
    and at': "auth_at dA' (''to'', B, l) = Some a'" and id: "ch_mIdRequest ch' = Some (dr_uuid d 0)"
    and sw: "\<And>now. \<exists>aS. auth_switch_to_new_pwd now a' = Inr (aS, E_no_error) \<and> a_pwd aS = blob_of bs"
    by (rule challenge_drawn [OF okA assms(6,7,11)]) blast
  let ?m = "\<lparr> m_mId = dr_uuid d 0, m_body = ChangePwdRequest (Some (base64_encode bs)) \<rparr>"
  have ser: "serializeMessage (e_json E) (Some ?m) = Inr (Inr req)"
    using assms(8) new(1) by (auto simp: challenge_text_def split: sum.splits)
  have chk: "messageCheckFields (Some ?m) = Inr True"
    using ser by (auto simp: serializeMessage_def split: if_splits)
  obtain rest where q: "s_internal_q sB1 = s_internal_q sB @ (req, Some (''from'', A, l)) # rest"
    using challenge_received [OF assms(1-6) new(1) ser assms(9-15)] by blast
  have rd: "deserializeMessage (e_json E) (Some req) = Inr (Inr ?m)"
    using message_read_back [OF assms(1) _ ser] by simp
  obtain b0 where b0: "auth_dbs_ok (s_dbs sB)" "auth_at (s_dbs sB) (''from'', A, l) = Some b0" "a_active b0"
    using assms(14) by (auto simp: ready_def split: option.splits)
  have k: "secrets_step (s_dbs sB) (s_dbs sB1)" and c: "s_cipher sB1 = Some c"
    using receive_keeps [OF assms(15)] assms(12) by auto
  have ok1: "auth_dbs_ok (s_dbs sB1)" using k b0(1) by (simp add: secrets_step_def)
  have "case auth_at (s_dbs sB) (''from'', A, l) of None \<Rightarrow> auth_at (s_dbs sB1) (''from'', A, l) = None
      | Some a \<Rightarrow> \<exists>a'. auth_at (s_dbs sB1) (''from'', A, l) = Some a' \<and> same_but_secrets a a'"
    using k b0(1) unfolding secrets_step_def by blast
  then obtain b1 where b1: "auth_at (s_dbs sB1) (''from'', A, l) = Some b1" "a_active b1"
    using b0(2,3) same_but_secretsD(2) by fastforce
  from request_answered [OF assms(1) ok1 c b1 new(2) chk assms(16,17)] obtain sB2 b resp where
    "cyber_process_internal_msg E tn sB1 (Some (''from'', A, l)) (Some ?m) = Inr (sB2, Some E_no_error)"
    "auth_at (s_dbs sB2) (''from'', A, l) = Some b" "a_pwd b = blob_of bs"
    "s_send_q sB2 = s_send_q sB1 @ [\<lparr> o_buf = resp, o_encrypt = True, o_login = None \<rparr>]"
    "deserializeMessage (e_json E) (Some resp) =
      Inr (Inr \<lparr> m_mId = tn_uuid tn, m_body = ChangePwdResponse True (dr_uuid d 0) \<rparr>)"
    by blast
  moreover obtain aS where "auth_switch_to_new_pwd now' a' = Inr (aS, E_no_error)" "a_pwd aS = blob_of bs"
    using sw by blast
  ultimately show ?thesis using q rd at' id
    by (intro exI [of _ rest] exI [of _ ?m] exI [of _ sB2] exI [of _ b] exI [of _ resp] exI [of _ a'] exI [of _ aS]) simp
qed

lemma evp_plain_any_key: "c_decrypt evp_plain c x key = c_decrypt evp_plain c x key'"
proof -
  have "evp_decrypt evp_plain m k iv ct tag = Some ct" for m k iv ct tag by (simp add: evp_plain_def)
  thus ?thesis by (simp add: c_decrypt_def decrypt_aes_def Let_def cong: if_cong option.case_cong)
qed

lemma encrypted_decrypts:
  assumes "evp_sound e" "coder_cipher_encrypt e c s tx = Inr (E_no_error, Some x)"
  obtains key where "secret_octets s = Inr key" "c_decrypt e c x key = Inr (Some (map byte_of tx))"
proof -
  obtain key where key: "secret_octets s = Inr key" "c_encrypt e c (map byte_of tx) key = Inr (Some x)"
    using assms(2) by (auto simp: coder_cipher_encrypt_def split: if_splits option.splits)
  have "c_decrypt e c x key = Inr (Some (map byte_of tx))"
    unfolding c_decrypt_def by (rule aes_frame_decrypts [OF assms(1) key(2) [unfolded c_encrypt_def]])
  with key(1) show thesis by (rule that)
qed

definition session_answering :: session where
  "session_answering = (cyber_new_from_transport cipher_table0 base_B)\<lparr> s_local := Some ''B'', s_remote := Some ''A'',
     s_cipher := Some cipher_aes128_ctr \<rparr>"

definition request_sample :: string where
  "request_sample = the (challenge_text text_json draws_sample (entry_sample ''to'' ''B''))"

theorem challenge_accepted_witness:
  "\<exists>payload dA' ch' sB1 rest m sB2 b resp a' aS.
    Challenge_encode (e_json env_sample) (e_evp env_sample) (e_times env_sample) (\<lambda>n. n) draws_sample base_A
      challenge_ctxt_new (Some cipher_aes128_ctr) (Some ''A'') (Some ''l'') (Some ''B'') = Inr (dA', ch', Inr payload) \<and>
    receive_task env_sample (0, 0) 0 (Inr payload) session_answering = Inr sB1 \<and>
    s_internal_q sB1 = s_internal_q session_answering @ (request_sample, Some (''from'', ''A'', ''l'')) # rest \<and>
    cyber_process_internal_msg env_sample turn_sample sB1 (Some (''from'', ''A'', ''l'')) (Some m) =
      Inr (sB2, Some E_no_error) \<and>
    auth_at (s_dbs sB2) (''from'', ''A'', ''l'') = Some b \<and>
    auth_at dA' (''to'', ''B'', ''l'') = Some a' \<and> auth_switch_to_new_pwd (3, 0) a' = Inr (aS, E_no_error) \<and>
    a_pwd aS = a_pwd b \<and>
    deserializeMessage (e_json env_sample) (Some resp) =
      Inr (Inr \<lparr> m_mId = tn_uuid turn_sample, m_body = ChangePwdResponse True (the (ch_mIdRequest ch')) \<rparr>)"
proof -
  let ?a = "entry_sample ''to'' ''B''"
  obtain dA' ch' payload where enc: "Challenge_encode (e_json env_sample) (e_evp env_sample) (e_times env_sample)
      (\<lambda>n. n) draws_sample base_A challenge_ctxt_new (Some cipher_aes128_ctr) (Some ''A'') (Some ''l'') (Some ''B'') =
      Inr (dA', ch', Inr payload)"
    using challenge_sample by (auto simp: env_sample_def)
  have J: "json_sound (e_json env_sample)" "times_sound (e_times env_sample)" "evp_sound (e_evp env_sample)"
      "e_window env_sample \<le> 0"
    by (simp_all add: env_sample_def text_json_sound times_sound_unary)
  have A: "ready (e_evp env_sample) cipher_aes128_ctr Act_encrypt ''A'' ''l'' ''B'' pwd_sample base_A"
    and B: "ready (e_evp env_sample) cipher_aes128_ctr Act_decrypt ''B'' ''l'' ''A'' pwd_sample (s_dbs session_answering)"
    by code_simp+
  have at: "auth_at base_A (''to'', ''B'', ''l'') = Some ?a" by code_simp
  have np: "\<not> a_new_pwd_pending ?a" by code_simp
  have tx: "challenge_text (e_json env_sample) draws_sample ?a = Some request_sample" by code_simp
  have cl: "sendable (e_json env_sample) (e_times env_sample)
      \<lparr> p_timestamp = dr_now draws_sample, p_class = Cl_internal, p_original = Some request_sample \<rparr>"
    "\<not> strstr (quoted ''rSMsg'') request_sample"
    by code_simp+
  obtain a1 pw where new: "auth_get_new_pwd_b64 (dr_pwd draws_sample) ?a = Inr (a1, E_no_error, Some pw)"
    and req: "serializeMessage (e_json env_sample) (Some \<lparr> m_mId = dr_uuid draws_sample 0, m_body = ChangePwdRequest (Some pw) \<rparr>)
      = Inr (Inr request_sample)"
    using tx by (auto simp: challenge_text_def split: sum.splits prod.splits option.splits errcode.splits)
  have sB: "s_cipher session_answering = Some cipher_aes128_ctr" "s_local session_answering = Some ''B''"
    and idle: "challenge_idle (s_challenge session_answering)"
    by code_simp+
  obtain sB1 where run: "receive_task env_sample (0, 0) 0 (Inr payload) session_answering = Inr sB1"
  proof -
    obtain k :: coded and r :: ptxt and x and a2 :: auth and cur ckey nw tx2 where
      dec: "Encrypted_decode (e_json env_sample) (e_evp env_sample) (e_times env_sample) (e_pos env_sample)
        (e_window env_sample) (0, 0) (s_dbs session_answering) (Some cipher_aes128_ctr) ''B'' (Some payload) None =
      rbind (decode_loop (e_json env_sample) (e_evp env_sample) (e_times env_sample) (e_pos env_sample)
          (e_window env_sample) (0, 0) cipher_aes128_ctr ''B'' (Some ''l'') (Some ''A'')
        [j_new_string (e_json env_sample) x] (k_dbs k) [r] (k_auth k))
      (\<lambda>(d1, ps, a). Inr (d1, if ps = [] then K_decrypt else E_no_error, ps, a))"
      and k: "ready (e_evp env_sample) cipher_aes128_ctr Act_decrypt ''B'' ''l'' ''A'' pwd_sample (k_dbs k)"
      and a2: "a_pwd a2 = pwd_sample" "a_sId a2 = ''B''" "a_login a2 = ''l''"
      and x: "coder_cipher_encrypt (e_evp env_sample) cipher_aes128_ctr nw tx2 = Inr (E_no_error, Some x)"
      and cur: "derived (e_evp env_sample) cipher_aes128_ctr ''A'' Act_encrypt a2 = Inr (Some cur)"
        "secret_octets cur = Inr ckey" "cipher_aes_context_new (e_evp env_sample)"
      by (rule challenge_decoding [where now = "(0, 0)", OF J A at new req cl enc B]) blast
    obtain key where "c_decrypt (e_evp env_sample) cipher_aes128_ctr x key = Inr (Some (map byte_of tx2))"
      by (rule encrypted_decrypts [OF J(3) x])
    hence "c_decrypt (e_evp env_sample) cipher_aes128_ctr x ckey = Inr (Some (map byte_of tx2))"
      using evp_plain_any_key [of _ x ckey key] by (simp add: env_sample_def)
    from second_element [OF J(1) k cur(1) a2 cur(3,2) this] show thesis
      using that dec sB by (fastforce simp: receive_task_def simp del: decode_loop.simps)
  qed
  have free: "\<not> change_pwd_busy sB1"
    using receive_task_effect [OF run] idle
    by (auto simp: change_pwd_busy_def challenge_idle_def cyber_stop_def stopTimerResponse_def trigger_def
        split: if_splits option.splits)
  have u: "length (tn_uuid turn_sample) = 36" by code_simp
  from challenge_accepted [OF J A at np tx cl enc sB B run free u, of "(3, 0)"] run enc show ?thesis
    by blast
qed

end
