(* ===== verification/RsmpArray.thy ===== *)
theory RsmpArray
  imports Prelude
begin

text \<open>
  Model of \<open>rsmp/vars/array.h\<close>: the arrays the macros declare for a type of items, as a length, the
  size of an item, a block of the heap (\<open>None\<close> is \<open>NULL\<close>) and whether items have a function that
  frees them.  A type of items is its size and the item of zeroed memory.  Reads and writes outside
  the block, failed assertions and the reads of a variable without a value are faults.
\<close>

record 'a item_type =
  t_size :: nat
  t_zero :: 'a

record 'a rarray =
  ra_len :: nat
  ra_item_len :: nat
  ra_items :: "'a list option"
  ra_free :: bool

section \<open>Memory\<close>

text \<open>The difference of two values of type \<open>size_t\<close>, which wraps around.\<close>
definition size_minus :: "nat \<Rightarrow> nat \<Rightarrow> nat" where
  "size_minus a b = (if b \<le> a then a - b else 2 ^ 64 - (b - a))"

text \<open>\<open>calloc\<close>: no allocation is larger than \<open>PTRDIFF_MAX\<close>; the items that fit into the block.\<close>
definition rcalloc :: "'a item_type \<Rightarrow> nat \<Rightarrow> nat \<Rightarrow> 'a list option" where
  "rcalloc T n sz =
    (if 2 ^ 63 \<le> n * sz then None else Some (replicate (n * sz div t_size T) (t_zero T)))"

text \<open>\<open>realloc\<close> to a number of items and \<open>memset\<close> of those that are new.\<close>
definition rrealloc :: "'a item_type \<Rightarrow> 'a list option \<Rightarrow> nat \<Rightarrow> 'a list option" where
  "rrealloc T items n =
    (if 2 ^ 63 \<le> t_size T * n then None
     else case items of
            None \<Rightarrow> Some (replicate n (t_zero T))
          | Some b \<Rightarrow> if n = 0 then None
                     else Some (take n b @ replicate (n - length b) (t_zero T)))"

section \<open>Operations\<close>

definition ra_declare :: "'a item_type \<Rightarrow> bool \<Rightarrow> 'a rarray \<Rightarrow> 'a rarray" where
  "ra_declare T fct a = a\<lparr> ra_len := 0, ra_item_len := t_size T, ra_free := fct \<rparr>"

text \<open>The function of the items is called on the address of each; none can be read at \<open>NULL\<close>.\<close>
definition ra_flush :: "'a rarray \<Rightarrow> 'a rarray run" where
  "ra_flush a =
    (if ra_len a = 0 then Inr a
     else if ra_free a \<and> ra_items a = None then Inl Null_deref
     else if ra_free a \<and> length (the (ra_items a)) < ra_len a then Inl Read_oob
     else Inr (a\<lparr> ra_len := 0, ra_items := None \<rparr>))"

definition ra_initialize :: "'a item_type \<Rightarrow> 'a rarray \<Rightarrow> nat \<Rightarrow> 'a rarray run" where
  "ra_initialize T a mx =
    rbind (ra_flush a) (\<lambda>a1.
      if mx > 0
      then (case rcalloc T mx (ra_item_len a1) of
              None \<Rightarrow> Inl Assert_failed
            | Some b \<Rightarrow> Inr (a1\<lparr> ra_len := mx, ra_items := Some b \<rparr>))
      else Inr (a1\<lparr> ra_items := None \<rparr>))"

text \<open>The size of the allocation is read through the pointer that is being initialised.\<close>
definition ra_new :: "nat \<Rightarrow> 'a rarray run" where
  "ra_new len = Inl Uninit_read"

text \<open>False is the result -1: no memory, the array as it was but for the size of an item.\<close>
definition ra_extend :: "'a item_type \<Rightarrow> 'a rarray \<Rightarrow> nat \<Rightarrow> 'a rarray \<times> bool" where
  "ra_extend T a add =
    (let a1 = a\<lparr> ra_item_len := t_size T \<rparr>; newlen = (ra_len a + add) mod 2 ^ 64
     in case rrealloc T (ra_items a1) newlen of
          None \<Rightarrow> (a1, False)
        | Some b \<Rightarrow> (a1\<lparr> ra_len := newlen, ra_items := Some b \<rparr>, True))"

text \<open>The array and the index of the new item, which the caller writes.\<close>
definition ra_new_item :: "'a item_type \<Rightarrow> 'a rarray \<Rightarrow> 'a rarray \<times> nat" where
  "ra_new_item T a = (let a1 = fst (ra_extend T a 1) in (a1, size_minus (ra_len a1) 1))"

definition ra_put :: "'a rarray \<Rightarrow> nat \<Rightarrow> 'a \<Rightarrow> 'a rarray run" where
  "ra_put a i x =
    (case ra_items a of
       None \<Rightarrow> Inl Null_deref
     | Some b \<Rightarrow> rbind (bwrite b i x) (\<lambda>b1. Inr (a\<lparr> ra_items := Some b1 \<rparr>)))"

definition ra_shrink :: "'a item_type \<Rightarrow> 'a rarray \<Rightarrow> nat \<Rightarrow> 'a rarray run" where
  "ra_shrink T a delta =
    (let a1 = (if delta \<ge> ra_len a then a\<lparr> ra_len := 0, ra_items := None \<rparr> else a);
         olds = ra_items a1; a2 = a1\<lparr> ra_items := None \<rparr>
     in rbind (ra_initialize T a2 (size_minus (ra_len a2) delta)) (\<lambda>a3.
          if ra_len a3 = 0 then Inr a3
          else case (ra_items a3, olds) of
                 (Some b, Some old) \<Rightarrow>
                   if length old < ra_len a3 then Inl Read_oob
                   else if length b < ra_len a3 then Inl Write_oob
                   else Inr (a3\<lparr> ra_items := Some (take (ra_len a3) old @ drop (ra_len a3) b) \<rparr>)
               | _ \<Rightarrow> Inl Null_deref))"

definition ra_get :: "'a rarray \<Rightarrow> nat \<Rightarrow> nat option" where
  "ra_get a i = (if i < ra_len a then Some i else None)"

definition ra_set :: "'a item_type \<Rightarrow> 'a rarray \<Rightarrow> nat \<Rightarrow> 'a \<Rightarrow> 'a rarray run" where
  "ra_set T a i item =
    (let a1 = (if i \<ge> ra_len a then fst (ra_extend T a (i - ra_len a)) else a)
     in if i < ra_len a1 then ra_put a1 i item else Inl Assert_failed)"

text \<open>\<open>memcpy\<close> of items between two blocks.\<close>
definition ra_memcpy :: "'a list option \<Rightarrow> nat \<Rightarrow> 'a list option \<Rightarrow> nat \<Rightarrow> nat \<Rightarrow> 'a list run" where
  "ra_memcpy dst i1 src i2 n =
    (case (dst, src) of
       (Some d, Some s) \<Rightarrow>
         if length s < i2 + n then Inl Read_oob
         else if length d < i1 + n then Inl Write_oob
         else Inr (take i1 d @ take n (drop i2 s) @ drop (i1 + n) d)
     | _ \<Rightarrow> Inl Null_deref)"

definition ra_cpy_pos :: "'a item_type \<Rightarrow> 'a rarray \<Rightarrow> nat \<Rightarrow> 'a rarray \<Rightarrow> nat \<Rightarrow> nat \<Rightarrow> 'a rarray run" where
  "ra_cpy_pos T a1 i1 a2 i2 n2 =
    (if ra_len a2 = 0 \<or> n2 = 0 then Inr a1
     else let i = (if i1 > ra_len a1 then ra_len a1 else i1);
              l = (i + n2) mod 2 ^ 64;
              b1 = (if l \<ge> ra_len a1 then fst (ra_extend T a1 (l - ra_len a1)) else a1)
          in rbind (ra_memcpy (ra_items b1) i (ra_items a2) i2 n2) (\<lambda>b. Inr (b1\<lparr> ra_items := Some b \<rparr>)))"

definition ra_cpy :: "'a item_type \<Rightarrow> 'a rarray \<Rightarrow> 'a rarray \<Rightarrow> 'a rarray run" where
  "ra_cpy T a1 a2 = ra_cpy_pos T a1 0 a2 0 (ra_len a2)"

definition ra_cat_n :: "'a item_type \<Rightarrow> 'a rarray \<Rightarrow> 'a rarray \<Rightarrow> nat \<Rightarrow> 'a rarray run" where
  "ra_cat_n T a1 a2 n2 = ra_cpy_pos T a1 (ra_len a1) a2 0 n2"

definition ra_cat :: "'a item_type \<Rightarrow> 'a rarray \<Rightarrow> 'a rarray \<Rightarrow> 'a rarray run" where
  "ra_cat T a1 a2 = ra_cat_n T a1 a2 (ra_len a2)"

text \<open>\<open>k\<close> items, from the one at \<open>i\<close> downwards, moved to \<open>j\<close> downwards.\<close>
fun ra_move :: "nat \<Rightarrow> nat \<Rightarrow> nat \<Rightarrow> 'a list \<Rightarrow> 'a list run" where
  "ra_move 0 j i b = Inr b"
| "ra_move (Suc k) j i b =
    rbind (bread b i) (\<lambda>x. rbind (bwrite b j x) (\<lambda>b1. ra_move k (j - 1) (i - 1) b1))"

text \<open>\<open>same\<close>: both arguments are the same array.\<close>
definition ra_insert ::
  "'a item_type \<Rightarrow> bool \<Rightarrow> 'a rarray \<Rightarrow> nat \<Rightarrow> 'a rarray \<Rightarrow> nat \<Rightarrow> nat \<Rightarrow> 'a rarray run" where
  "ra_insert T same a1 i1 a2 i2 n =
    (if same then Inl Assert_failed
     else if ra_len a2 = 0 \<or> n = 0 then Inr a1
     else let n2 = (if i2 + n > ra_len a2 then size_minus (ra_len a2) i2 else n);
              mx = size_minus (ra_len a1) i1;
              b1 = fst (ra_extend T a1 n2)
          in rbind (case ra_items b1 of
                      None \<Rightarrow> if mx = 0 then Inr b1 else Inl Null_deref
                    | Some b \<Rightarrow>
                        rbind (ra_move mx (ra_len b1 - 1) (i1 + mx - 1) b) (\<lambda>b'. Inr (b1\<lparr> ra_items := Some b' \<rparr>)))
               (\<lambda>c1. ra_cpy_pos T c1 i1 a2 i2 n2))"

text \<open>The loop of the comparison: nothing in it advances \<open>i\<close>.  \<open>None\<close> is a loop that does not end.\<close>
partial_function (option) cmp_loop ::
  "'a list \<Rightarrow> 'a list \<Rightarrow> ('a \<Rightarrow> 'a \<Rightarrow> u32) \<Rightarrow> nat \<Rightarrow> nat \<Rightarrow> u32 \<Rightarrow> u32 run option" where
  "cmp_loop b1 b2 cmp mn i ret =
    (if i < mn
     then (case bread b1 i of
             Inl e \<Rightarrow> Some (Inl e)
           | Inr x \<Rightarrow>
               (case bread b2 i of
                  Inl e \<Rightarrow> Some (Inl e)
                | Inr y \<Rightarrow> if cmp x y \<noteq> 0 then Some (Inr (cmp x y)) else cmp_loop b1 b2 cmp mn i (cmp x y)))
     else Some (Inr ret))"

definition ra_cmp :: "'a rarray \<Rightarrow> 'a rarray \<Rightarrow> ('a \<Rightarrow> 'a \<Rightarrow> u32) \<Rightarrow> u32 run option" where
  "ra_cmp a1 a2 cmp =
    (if ra_len a1 = 0 \<or> ra_len a2 = 0 then Some (Inr (word_of_nat (ra_len a1) - word_of_nat (ra_len a2)))
     else case (ra_items a1, ra_items a2) of
            (Some b1, Some b2) \<Rightarrow> cmp_loop b1 b2 cmp (if ra_len a1 < ra_len a2 then ra_len a1 else ra_len a2) 0 (- 1)
          | _ \<Rightarrow> Some (Inl Null_deref))"

definition ra_dup :: "'a item_type \<Rightarrow> 'a rarray \<Rightarrow> 'a rarray run" where
  "ra_dup T a = rbind (ra_new (ra_len a)) (\<lambda>d. ra_cpy T d a)"

text \<open>The functions on an array of any type: the length is set before the allocation, which may be of
  nothing; a field that was never declared has items of size 0.\<close>
definition rsmp_array_initialize :: "'a item_type \<Rightarrow> 'a rarray \<Rightarrow> nat \<Rightarrow> 'a rarray run" where
  "rsmp_array_initialize T a mx =
    rbind (ra_flush a) (\<lambda>a1.
      let a2 = a1\<lparr> ra_len := mx \<rparr>
      in if mx > 0
         then (case rcalloc T mx (ra_item_len a2) of
                 None \<Rightarrow> Inl Assert_failed
               | Some b \<Rightarrow> Inr (a2\<lparr> ra_items := Some b \<rparr>))
         else Inr (a2\<lparr> ra_items := None \<rparr>))"

definition rsmp_array_get :: "'a rarray option \<Rightarrow> nat \<Rightarrow> nat option" where
  "rsmp_array_get a i =
    (case a of None \<Rightarrow> None | Some r \<Rightarrow> if i < ra_len r then Some (i * ra_item_len r) else None)"

section \<open>Arrays as lists\<close>

definition ra_ok :: "'a item_type \<Rightarrow> 'a rarray \<Rightarrow> bool" where
  "ra_ok T a \<longleftrightarrow>
    0 < t_size T \<and> ra_item_len a = t_size T \<and> t_size T * ra_len a < 2 ^ 63 \<and>
    (case ra_items a of None \<Rightarrow> ra_len a = 0 | Some b \<Rightarrow> length b = ra_len a)"

definition ra_list :: "'a rarray \<Rightarrow> 'a list" where
  "ra_list a = (case ra_items a of None \<Rightarrow> [] | Some b \<Rightarrow> b)"

lemma ra_ok_len: "ra_ok T a \<Longrightarrow> length (ra_list a) = ra_len a"
  by (auto simp: ra_ok_def ra_list_def split: option.splits)

lemma ra_small: "ra_ok T a \<Longrightarrow> ra_len a < 2 ^ 63"
  unfolding ra_ok_def by (metis Suc_leI le_less_trans mult_le_mono1 nat_mult_1 One_nat_def)

lemma ra_extend_ok:
  assumes "ra_ok T a" "t_size T * (ra_len a + n) < 2 ^ 63" "0 < ra_len a + n"
  shows "\<exists>a1. ra_extend T a n = (a1, True) \<and> ra_ok T a1 \<and> ra_len a1 = ra_len a + n \<and>
    ra_list a1 = ra_list a @ replicate n (t_zero T) \<and> ra_items a1 = Some (ra_list a1)"
proof -
  have "ra_len a + n \<le> t_size T * (ra_len a + n)" using assms(1) by (simp add: ra_ok_def)
  also note assms(2)
  finally have "(ra_len a + n) mod 2 ^ 64 = ra_len a + n" by simp
  thus ?thesis using assms
    by (cases "ra_items a") (auto simp: ra_extend_def rrealloc_def ra_ok_def ra_list_def Let_def)
qed

lemma ra_move_spec:
  assumes "k \<le> i + 1" "i \<le> j" "j < length b"
  shows "\<exists>b'. ra_move k j i b = Inr b' \<and> length b' = length b \<and>
    (\<forall>p < length b. b' ! p = (if p \<le> j \<and> j < p + k then b ! (p - (j - i)) else b ! p))"
  using assms
proof (induction k arbitrary: j i b)
  case (Suc k)
  let ?b1 = "b[j := b ! i]"
  have r: "ra_move (Suc k) j i b = ra_move k (j - 1) (i - 1) ?b1" using Suc.prems by simp
  show ?case
  proof (cases k)
    case 0
    have "?b1 ! p = (if p \<le> j \<and> j < p + Suc k then b ! (p - (j - i)) else b ! p)" if "p < length b" for p
      using that Suc.prems 0 by (cases "p = j") auto
    moreover have "ra_move (Suc k) j i b = Inr ?b1" using r 0 by simp
    ultimately show ?thesis by (intro exI [of _ ?b1]) simp
  next
    case (Suc k')
    hence i: "0 < i" using Suc.prems by simp
    have le: "k \<le> i - 1 + 1" "i - 1 \<le> j - 1" "j - 1 < length ?b1" using Suc.prems i by (auto intro: diff_le_mono)
    obtain b' where b': "ra_move k (j - 1) (i - 1) ?b1 = Inr b'" "length b' = length b"
      "\<forall>p < length b. b' ! p =
        (if p \<le> j - 1 \<and> j - 1 < p + k then ?b1 ! (p - (j - 1 - (i - 1))) else ?b1 ! p)"
      using Suc.IH [of "i - 1" "j - 1" ?b1, OF le] by auto
    have "b' ! p = (if p \<le> j \<and> j < p + Suc k then b ! (p - (j - i)) else b ! p)" if "p < length b" for p
      using b'(3) that Suc.prems i by (cases "p = j") (auto simp: nth_list_update)
    thus ?thesis using r b'(1,2) by auto
  qed
qed simp

lemma ra_ok_items: "ra_ok T a \<Longrightarrow> 0 < ra_len a \<Longrightarrow> ra_items a = Some (ra_list a) \<and> length (ra_list a) = ra_len a"
  by (auto simp: ra_ok_def ra_list_def split: option.splits)

lemma ra_cpy_pos_ok:
  assumes "ra_ok T a1" "ra_ok T a2" "i1 \<le> ra_len a1" "i2 + n \<le> ra_len a2" "t_size T * (i1 + n) < 2 ^ 63"
  shows "\<exists>a. ra_cpy_pos T a1 i1 a2 i2 n = Inr a \<and> ra_ok T a \<and>
    ra_list a = take i1 (ra_list a1) @ take n (drop i2 (ra_list a2)) @ drop (i1 + n) (ra_list a1)"
proof (cases "ra_len a2 = 0 \<or> n = 0")
  case True
  hence "n = 0" using assms(4) by auto
  thus ?thesis using True assms(1) by (auto simp: ra_cpy_pos_def)
next
  case False
  have b2: "ra_items a2 = Some (ra_list a2)" "length (ra_list a2) = ra_len a2"
    using ra_ok_items [OF assms(2)] False by auto
  have "i1 + n \<le> t_size T * (i1 + n)" using assms(1) by (simp add: ra_ok_def)
  also note assms(5)
  finally have l: "(i1 + n) mod 2 ^ 64 = i1 + n" by simp
  show ?thesis
  proof (cases "ra_len a1 \<le> i1 + n")
    case True
    obtain b1 where b1: "ra_extend T a1 (i1 + n - ra_len a1) = (b1, True)" "ra_ok T b1" "ra_len b1 = i1 + n"
      "ra_list b1 = ra_list a1 @ replicate (i1 + n - ra_len a1) (t_zero T)" "ra_items b1 = Some (ra_list b1)"
      using ra_extend_ok [OF assms(1), of "i1 + n - ra_len a1"] True assms(5) False by auto
    have len: "length (ra_list a1) = ra_len a1" by (rule ra_ok_len [OF assms(1)])
    let ?bs = "take i1 (ra_list a1) @ take n (drop i2 (ra_list a2))"
    have "ra_memcpy (ra_items b1) i1 (ra_items a2) i2 n = Inr ?bs"
      using b1(3-5) assms(3,4) b2 True len by (simp add: ra_memcpy_def)
    hence "ra_cpy_pos T a1 i1 a2 i2 n = Inr (b1\<lparr> ra_items := Some ?bs \<rparr>)"
      using False l True assms(3) b1(1) by (simp add: ra_cpy_pos_def)
    moreover have "length ?bs = i1 + n" using len assms(3,4) b2 by simp
    hence "ra_ok T (b1\<lparr> ra_items := Some ?bs \<rparr>)" using b1(2,3) by (simp add: ra_ok_def)
    moreover have "ra_list (b1\<lparr> ra_items := Some ?bs \<rparr>) = ?bs @ drop (i1 + n) (ra_list a1)"
      using True len by (simp add: ra_list_def)
    ultimately show ?thesis by auto
  next
    case f: False
    hence b1: "ra_items a1 = Some (ra_list a1)" "length (ra_list a1) = ra_len a1"
      using ra_ok_items [OF assms(1)] by auto
    let ?bs = "take i1 (ra_list a1) @ take n (drop i2 (ra_list a2)) @ drop (i1 + n) (ra_list a1)"
    have "ra_memcpy (ra_items a1) i1 (ra_items a2) i2 n = Inr ?bs"
      using b1 b2 f assms(4) by (simp add: ra_memcpy_def)
    hence "ra_cpy_pos T a1 i1 a2 i2 n = Inr (a1\<lparr> ra_items := Some ?bs \<rparr>)"
      using False l f assms(3) by (simp add: ra_cpy_pos_def)
    moreover have "length ?bs = ra_len a1" using b1 b2 f assms(3,4) by simp
    hence "ra_ok T (a1\<lparr> ra_items := Some ?bs \<rparr>)" using assms(1) by (simp add: ra_ok_def)
    moreover have "ra_list (a1\<lparr> ra_items := Some ?bs \<rparr>) = ?bs" by (simp add: ra_list_def)
    ultimately show ?thesis by auto
  qed
qed

lemma ra_insert_ok:
  assumes "ra_ok T a1" "ra_ok T a2" "i1 \<le> ra_len a1" "i2 + n \<le> ra_len a2"
    and "t_size T * (ra_len a1 + n) < 2 ^ 63"
  shows "\<exists>a. ra_insert T False a1 i1 a2 i2 n = Inr a \<and> ra_ok T a \<and>
    ra_list a = take i1 (ra_list a1) @ take n (drop i2 (ra_list a2)) @ drop i1 (ra_list a1)"
proof (cases "ra_len a2 = 0 \<or> n = 0")
  case True
  hence "n = 0" using assms(4) by auto
  thus ?thesis using True assms(1) by (auto simp: ra_insert_def)
next
  case False
  have len: "length (ra_list a1) = ra_len a1" by (rule ra_ok_len [OF assms(1)])
  obtain b1 where b1: "ra_extend T a1 n = (b1, True)" "ra_ok T b1" "ra_len b1 = ra_len a1 + n"
    "ra_list b1 = ra_list a1 @ replicate n (t_zero T)" "ra_items b1 = Some (ra_list b1)"
    using ra_extend_ok [OF assms(1,5)] False by auto
  let ?k = "ra_len a1 - i1"
  have m: "\<exists>b'. ra_move ?k (ra_len b1 - 1) (i1 + ?k - 1) (ra_list b1) = Inr b' \<and> length b' = ra_len b1 \<and>
      take i1 b' = take i1 (ra_list a1) \<and> drop (i1 + n) b' = drop i1 (ra_list a1)"
  proof (cases "?k = 0")
    case True
    hence "i1 = ra_len a1" using assms(3) by simp
    thus ?thesis using b1(3,4) len by simp
  next
    case False
    have le: "?k \<le> i1 + ?k - 1 + 1" "i1 + ?k - 1 \<le> ra_len b1 - 1" "ra_len b1 - 1 < length (ra_list b1)"
      using False b1(3,4) len by auto
    obtain b' where b': "ra_move ?k (ra_len b1 - 1) (i1 + ?k - 1) (ra_list b1) = Inr b'"
      "length b' = length (ra_list b1)"
      "\<forall>p < length (ra_list b1). b' ! p = (if p \<le> ra_len b1 - 1 \<and> ra_len b1 - 1 < p + ?k
        then ra_list b1 ! (p - (ra_len b1 - 1 - (i1 + ?k - 1))) else ra_list b1 ! p)"
      using ra_move_spec [of ?k "i1 + ?k - 1" "ra_len b1 - 1" "ra_list b1", OF le] by blast
    have l: "length b' = ra_len a1 + n" using b'(2) b1(4) len by simp
    have "take i1 b' = take i1 (ra_list a1)"
      using b'(3) l b1(3,4) len assms(3) by (intro nth_equalityI) (auto simp: nth_append)
    moreover have "drop (i1 + n) b' = drop i1 (ra_list a1)"
      using b'(3) l b1(3,4) len assms(3) False by (intro nth_equalityI) (auto simp: nth_append)
    ultimately show ?thesis using b'(1) l b1(3) by simp
  qed
  then obtain b' where b': "ra_move ?k (ra_len b1 - 1) (i1 + ?k - 1) (ra_list b1) = Inr b'" "length b' = ra_len b1"
      "take i1 b' = take i1 (ra_list a1)" "drop (i1 + n) b' = drop i1 (ra_list a1)" by blast
  let ?c = "b1\<lparr> ra_items := Some b' \<rparr>"
  have c: "ra_ok T ?c" "ra_list ?c = b'" "ra_len ?c = ra_len a1 + n"
    using b1(2,3) b'(2) by (simp_all add: ra_ok_def ra_list_def)
  have "t_size T * (i1 + n) \<le> t_size T * (ra_len a1 + n)" using assms(3) by simp
  also note assms(5)
  finally have "t_size T * (i1 + n) < 2 ^ 63" .
  from ra_cpy_pos_ok [OF c(1) assms(2) _ assms(4) this] c assms(3) obtain a where
    a: "ra_cpy_pos T ?c i1 a2 i2 n = Inr a" "ra_ok T a"
      "ra_list a = take i1 b' @ take n (drop i2 (ra_list a2)) @ drop (i1 + n) b'" by auto
  have s: "(if i2 + n > ra_len a2 then size_minus (ra_len a2) i2 else n) = n"
      "size_minus (ra_len a1) i1 = ?k"
    using assms(3,4) by (simp_all add: size_minus_def)
  have "ra_insert T False a1 i1 a2 i2 n = Inr a"
    using False s b1(1,5) b'(1) a(1) by (simp add: ra_insert_def Let_def)
  thus ?thesis using a(2,3) b'(3,4) by simp
qed

section \<open>Growing\<close>

text \<open>An item added at the end, as the callers of \<open>_new_item\<close> write it.\<close>
definition ra_push :: "'a item_type \<Rightarrow> 'a rarray \<Rightarrow> 'a \<Rightarrow> 'a rarray run" where
  "ra_push T a x = (let (a1, i) = ra_new_item T a in ra_put a1 i x)"

fun push_all :: "('s \<Rightarrow> 'x \<Rightarrow> 's run) \<Rightarrow> 's \<Rightarrow> 'x list \<Rightarrow> 's run" where
  "push_all push s [] = Inr s"
| "push_all push s (x # xs) = rbind (push s x) (\<lambda>s1. push_all push s1 xs)"

text \<open>A store that grows by one item as long as there is room.\<close>
locale growing =
  fixes push :: "'s \<Rightarrow> 'x \<Rightarrow> 's run" and good :: "'s \<Rightarrow> bool" and items :: "'s \<Rightarrow> 'x list" and room :: nat
  assumes push_ok: "good s \<Longrightarrow> length (items s) < room \<Longrightarrow>
    \<exists>s'. push s x = Inr s' \<and> good s' \<and> items s' = items s @ [x]"
begin

lemma push_all_ok:
  "good s \<Longrightarrow> length (items s) + length xs \<le> room \<Longrightarrow>
   \<exists>s'. push_all push s xs = Inr s' \<and> good s' \<and> items s' = items s @ xs"
proof (induction xs arbitrary: s)
  case (Cons x xs)
  obtain s1 where s1: "push s x = Inr s1" "good s1" "items s1 = items s @ [x]"
    using push_ok [of s x] Cons.prems by auto
  from Cons.IH [of s1] s1 Cons.prems show ?case by auto
qed simp

end

definition ra_room :: "'a item_type \<Rightarrow> nat" where
  "ra_room T = (2 ^ 63 - 1) div t_size T"

lemma ra_room: "0 < t_size T \<Longrightarrow> n \<le> ra_room T \<Longrightarrow> t_size T * n < 2 ^ 63"
proof -
  assume "0 < t_size T" "n \<le> ra_room T"
  hence "t_size T * n \<le> t_size T * ((2 ^ 63 - 1) div t_size T)" by (simp add: ra_room_def)
  also have "\<dots> \<le> 2 ^ 63 - 1" by (simp add: times_div_less_eq_dividend)
  finally show ?thesis by simp
qed

lemma ra_push_ok:
  assumes "ra_ok T a" "length (ra_list a) < ra_room T"
  shows "\<exists>a'. ra_push T a x = Inr a' \<and> ra_ok T a' \<and> ra_list a' = ra_list a @ [x]"
proof -
  have len: "length (ra_list a) = ra_len a" by (rule ra_ok_len [OF assms(1)])
  have "t_size T * (ra_len a + 1) < 2 ^ 63"
    using assms len by (intro ra_room) (auto simp: ra_ok_def)
  then obtain a1 where a1: "ra_extend T a 1 = (a1, True)" "ra_ok T a1" "ra_len a1 = ra_len a + 1"
    "ra_list a1 = ra_list a @ [t_zero T]" "ra_items a1 = Some (ra_list a1)"
    using ra_extend_ok [OF assms(1), of 1] by auto
  let ?a' = "a1\<lparr> ra_items := Some (ra_list a @ [x]) \<rparr>"
  have "ra_push T a x = Inr ?a'"
    using a1 len by (simp add: ra_push_def ra_new_item_def size_minus_def ra_put_def list_update_append)
  moreover have "ra_ok T ?a'" using a1(2,3) len by (simp add: ra_ok_def)
  ultimately show ?thesis by (simp add: ra_list_def)
qed

interpretation array_push: growing "ra_push T" "ra_ok T" ra_list "ra_room T" for T :: "'a item_type"
  by unfold_locales (rule ra_push_ok)

section \<open>Properties\<close>

text \<open>C32. The arrays are lists: on arrays that were declared and have room, a copy overwrites from a
  position on and grows when needed, the concatenation appends, the insertion puts a part of the
  second between the two parts of the first, and an array that is extended has zeroed items at its
  end; all of them leave proper arrays.\<close>
theorem rsmp_array_lists:
  assumes "ra_ok T a1" "ra_ok T a2" "i1 \<le> ra_len a1" "i2 + n \<le> ra_len a2"
    and "ra_len a1 + ra_len a2 \<le> ra_room T"
  shows "(\<exists>a. ra_cpy_pos T a1 i1 a2 i2 n = Inr a \<and> ra_ok T a \<and>
      ra_list a = take i1 (ra_list a1) @ take n (drop i2 (ra_list a2)) @ drop (i1 + n) (ra_list a1)) \<and>
    (\<exists>a. ra_cat T a1 a2 = Inr a \<and> ra_ok T a \<and> ra_list a = ra_list a1 @ ra_list a2) \<and>
    (\<exists>a. ra_insert T False a1 i1 a2 i2 n = Inr a \<and> ra_ok T a \<and>
      ra_list a = take i1 (ra_list a1) @ take n (drop i2 (ra_list a2)) @ drop i1 (ra_list a1)) \<and>
    (\<exists>a. push_all (ra_push T) a1 (ra_list a2) = Inr a \<and> ra_ok T a \<and> ra_list a = ra_list a1 @ ra_list a2)"
proof -
  have s: "0 < t_size T" using assms(1) by (simp add: ra_ok_def)
  have r: "t_size T * (i1 + n) < 2 ^ 63" "t_size T * (ra_len a1 + ra_len a2) < 2 ^ 63"
      "t_size T * (ra_len a1 + n) < 2 ^ 63"
    by (rule ra_room [OF s], use assms in simp)+
  have l: "length (ra_list a1) = ra_len a1" "length (ra_list a2) = ra_len a2"
    using assms(1,2) by (auto dest: ra_ok_len)
  have "\<exists>a. ra_cat T a1 a2 = Inr a \<and> ra_ok T a \<and> ra_list a = ra_list a1 @ ra_list a2"
    using ra_cpy_pos_ok [OF assms(1,2) _ _ r(2), of 0] l by (simp add: ra_cat_def ra_cat_n_def)
  moreover have "\<exists>a. push_all (ra_push T) a1 (ra_list a2) = Inr a \<and> ra_ok T a \<and> ra_list a = ra_list a1 @ ra_list a2"
    by (rule array_push.push_all_ok [OF assms(1)]) (use l assms(5) in simp)
  ultimately show ?thesis
    using ra_cpy_pos_ok [OF assms(1-4) r(1)] ra_insert_ok [OF assms(1-4) r(3)] by blast
qed

definition array_sample :: "nat list \<Rightarrow> nat rarray" where
  "array_sample xs = \<lparr> ra_len = length xs, ra_item_len = 8, ra_items = Some xs, ra_free = False \<rparr>"

theorem rsmp_array_lists_witness:
  "\<exists>a. ra_insert \<lparr> t_size = 8, t_zero = 0 \<rparr> False (array_sample [1, 2]) 1 (array_sample [7, 8, 9]) 1 2 = Inr a \<and>
    ra_list a = [1, 8, 9, 2]"
proof -
  let ?T = "\<lparr> t_size = 8, t_zero = 0 \<rparr> :: nat item_type"
  have "ra_ok ?T (array_sample [1, 2])" "ra_ok ?T (array_sample [7, 8, 9])" "(1::nat) \<le> ra_len (array_sample [1, 2])"
    "1 + 2 \<le> ra_len (array_sample [7, 8, 9])" "ra_len (array_sample [1, 2]) + ra_len (array_sample [7, 8, 9]) \<le> ra_room ?T"
    by (simp_all add: ra_ok_def array_sample_def ra_room_def)
  from rsmp_array_lists [OF this] show ?thesis by (auto simp: array_sample_def ra_list_def)
qed

text \<open>What the arrays never do as their names say: writing an item at or behind the end fails an
  assertion instead of extending the array, taking away as many items as there are or more fails one
  too, and no array can be duplicated.\<close>
lemma rsmp_array_faults:
  assumes "ra_ok T a" "0 < ra_len a"
  shows "(ra_len a \<le> i \<longrightarrow> i < 2 ^ 63 div t_size T \<longrightarrow> ra_set T a i x = Inl Assert_failed) \<and>
    (ra_len a \<le> d \<longrightarrow> d < 2 ^ 62 \<longrightarrow> ra_shrink T a d = Inl Assert_failed) \<and>
    ra_dup T a = Inl Uninit_read"
proof (intro conjI impI)
  have s: "0 < t_size T" "ra_item_len a = t_size T" using assms(1) by (auto simp: ra_ok_def)
  have b: "ra_items a = Some (ra_list a)" "length (ra_list a) = ra_len a" using ra_ok_items [OF assms] by auto
  { assume i: "ra_len a \<le> i" "i < 2 ^ 63 div t_size T"
    have "t_size T * (i + 1) \<le> t_size T * (2 ^ 63 div t_size T)" using i(2) by (intro mult_le_mono2) simp
    also have "\<dots> \<le> 2 ^ 63" by (simp add: times_div_less_eq_dividend)
    finally have "t_size T * (ra_len a + (i - ra_len a)) < 2 ^ 63" using s(1) i(1) by (simp add: algebra_simps)
    then obtain a1 where "ra_extend T a (i - ra_len a) = (a1, True)" "ra_len a1 = i"
      using ra_extend_ok [OF assms(1), of "i - ra_len a"] assms(2) i(1) by auto
    thus "ra_set T a i x = Inl Assert_failed" using i(1) by (simp add: ra_set_def) }
  { assume d: "ra_len a \<le> d" "d < 2 ^ 62"
    have "size_minus 0 d = 2 ^ 64 - d" using d assms(2) by (simp add: size_minus_def)
    moreover have "2 ^ 63 \<le> (2 ^ 64 - d) * t_size T"
      using mult_le_mono [of "2 ^ 63" "2 ^ 64 - d" 1 "t_size T"] s(1) d(2) by simp
    ultimately show "ra_shrink T a d = Inl Assert_failed"
      using d assms(2) s by (simp add: ra_shrink_def ra_initialize_def ra_flush_def rcalloc_def) }
  show "ra_dup T a = Inl Uninit_read" by (simp add: ra_dup_def ra_new_def)
qed

lemma rsmp_array_faults_witness:
  "ra_set \<lparr> t_size = 8, t_zero = 0 \<rparr> (array_sample [1, 2]) 2 5 = Inl Assert_failed"
proof -
  let ?T = "\<lparr> t_size = 8, t_zero = 0 \<rparr> :: nat item_type"
  have "ra_ok ?T (array_sample [1, 2])" "0 < ra_len (array_sample [1, 2])"
    by (simp_all add: ra_ok_def array_sample_def)
  from rsmp_array_faults [OF this, of 2 5] show ?thesis by (simp add: array_sample_def)
qed

lemma cmp_loop_stuck:
  assumes "cmp_loop b1 b2 cmp mn i ret = Some r"
  shows "i < mn \<longrightarrow> i < length b1 \<longrightarrow> i < length b2 \<longrightarrow> cmp (b1 ! i) (b2 ! i) \<noteq> 0"
proof (rule cmp_loop.raw_induct
    [where P = "\<lambda>b1 b2 cmp mn i ret r. i < mn \<longrightarrow> i < length b1 \<longrightarrow> i < length b2 \<longrightarrow> cmp (b1 ! i) (b2 ! i) \<noteq> 0", OF _ assms],
    intro impI)
  fix f and b1 b2 :: "'b list" and cmp :: "'b \<Rightarrow> 'b \<Rightarrow> u32" and mn i ret r
  assume IH: "\<And>b1 b2 cmp mn i ret r. f b1 b2 cmp mn i ret = Some r \<Longrightarrow>
      i < mn \<longrightarrow> i < length b1 \<longrightarrow> i < length b2 \<longrightarrow> cmp (b1 ! i) (b2 ! i) \<noteq> 0"
    and e: "(if i < mn
     then (case bread b1 i of
             Inl e \<Rightarrow> Some (Inl e)
           | Inr x \<Rightarrow>
               (case bread b2 i of
                  Inl e \<Rightarrow> Some (Inl e)
                | Inr y \<Rightarrow> if cmp x y \<noteq> 0 then Some (Inr (cmp x y)) else f b1 b2 cmp mn i (cmp x y)))
     else Some (Inr ret)) = Some r"
    and l: "i < mn" "i < length b1" "i < length b2"
  show "cmp (b1 ! i) (b2 ! i) \<noteq> 0"
  proof
    assume z: "cmp (b1 ! i) (b2 ! i) = 0"
    hence "f b1 b2 cmp mn i 0 = Some r" using e l by (simp add: bread_def)
    from IH [OF this] l z show False by simp
  qed
qed

text \<open>C36. The comparison of two arrays ends in every case but one: it does not return when both have items and
  the first ones are equal, whatever follows them; otherwise its result is the difference of the
  lengths or that of the first items.\<close>
theorem rsmp_array_cmp_returns:
  assumes "ra_ok T a1" "ra_ok T a2"
  shows "ra_cmp a1 a2 cmp =
    (if ra_len a1 = 0 \<or> ra_len a2 = 0 then Some (Inr (word_of_nat (ra_len a1) - word_of_nat (ra_len a2)))
     else if cmp (hd (ra_list a1)) (hd (ra_list a2)) = 0 then None
     else Some (Inr (cmp (hd (ra_list a1)) (hd (ra_list a2)))))"
proof (cases "ra_len a1 = 0 \<or> ra_len a2 = 0")
  case True
  thus ?thesis by (simp add: ra_cmp_def)
next
  case False
  let ?mn = "if ra_len a1 < ra_len a2 then ra_len a1 else ra_len a2"
  have b: "ra_items a1 = Some (ra_list a1)" "length (ra_list a1) = ra_len a1"
    "ra_items a2 = Some (ra_list a2)" "length (ra_list a2) = ra_len a2"
    using ra_ok_items assms False by auto
  have n: "ra_list a1 \<noteq> []" "ra_list a2 \<noteq> []" using b False by auto
  have r: "bread (ra_list a1) 0 = Inr (hd (ra_list a1))" "bread (ra_list a2) 0 = Inr (hd (ra_list a2))"
    using n by (simp_all add: bread_def hd_conv_nth)
  have "ra_cmp a1 a2 cmp = cmp_loop (ra_list a1) (ra_list a2) cmp ?mn 0 (- 1)"
    using b False by (simp add: ra_cmp_def)
  moreover have "cmp_loop (ra_list a1) (ra_list a2) cmp ?mn 0 (- 1) = None"
    if "cmp (hd (ra_list a1)) (hd (ra_list a2)) = 0"
    using cmp_loop_stuck [of "ra_list a1" "ra_list a2" cmp ?mn 0 "- 1"] that n False
    by (cases "cmp_loop (ra_list a1) (ra_list a2) cmp ?mn 0 (- 1)") (auto simp: hd_conv_nth split: if_splits)
  moreover have "cmp_loop (ra_list a1) (ra_list a2) cmp ?mn 0 (- 1) = Some (Inr (cmp (hd (ra_list a1)) (hd (ra_list a2))))"
    if "cmp (hd (ra_list a1)) (hd (ra_list a2)) \<noteq> 0"
    using that r False by (subst cmp_loop.simps) simp
  ultimately show ?thesis using False by simp
qed

theorem rsmp_array_cmp_returns_witness:
  "ra_cmp (array_sample [1, 2]) (array_sample [1, 3]) (\<lambda>x y. word_of_nat x - word_of_nat y) = None"
proof -
  let ?T = "\<lparr> t_size = 8, t_zero = 0 \<rparr> :: nat item_type"
  have "ra_ok ?T (array_sample [1, 2])" "ra_ok ?T (array_sample [1, 3])" by (simp_all add: ra_ok_def array_sample_def)
  from rsmp_array_cmp_returns [OF this, of "\<lambda>x y. word_of_nat x - word_of_nat y"]
  show ?thesis by (simp add: array_sample_def ra_list_def)
qed

end
