(* ===== verification/RsmpFields.thy ===== *)
theory RsmpFields
  imports Coder RsmpArray
begin

text \<open>
  Model of \<open>rsmp/coder/vars.h\<close>, \<open>rsmp/vars/*.c\<close> and \<open>rsmp/fields/*.c\<close>: the variables that stand between
  a field of a message and its JSON value, the texts of the enumerations, and the encoder and the
  decoder of every kind of field.  An encoder gives the variable, a decoder the field it leaves and
  whether it returns 0.  The memory for a variable is taken to be available.
\<close>

section \<open>Variables\<close>

text \<open>A text comes with its length, so it may contain NUL; \<open>Var_string None\<close> is a \<open>NULL\<close> text.\<close>
datatype rsmp_var =
    Var_bool bool | Var_string cstr | Var_int "64 word" | Var_uint "64 word" | Var_double "64 word" | Var_null

definition rsmp_var_new :: "rsmp_var option" where "rsmp_var_new = Some Var_null"

definition rsmp_var_set_string :: "rsmp_var option \<Rightarrow> cstr \<Rightarrow> rsmp_var option" where
  "rsmp_var_set_string var s = (case var of None \<Rightarrow> None | Some v \<Rightarrow> Some (Var_string s))"

definition rsmp_var_set_string_len :: "rsmp_var option \<Rightarrow> cstr \<Rightarrow> nat \<Rightarrow> rsmp_var option" where
  "rsmp_var_set_string_len var s n =
    (case var of None \<Rightarrow> None | Some v \<Rightarrow> Some (Var_string (map_option (take n) s)))"

definition rsmp_var_set_int :: "rsmp_var option \<Rightarrow> 64 word \<Rightarrow> rsmp_var option" where
  "rsmp_var_set_int var i = (case var of None \<Rightarrow> None | Some v \<Rightarrow> Some (Var_int i))"

definition rsmp_var_set_uint :: "rsmp_var option \<Rightarrow> 64 word \<Rightarrow> rsmp_var option" where
  "rsmp_var_set_uint var i = (case var of None \<Rightarrow> None | Some v \<Rightarrow> Some (Var_uint i))"

definition rsmp_var_set_double :: "rsmp_var option \<Rightarrow> 64 word \<Rightarrow> rsmp_var option" where
  "rsmp_var_set_double var d = (case var of None \<Rightarrow> None | Some v \<Rightarrow> Some (Var_double d))"

definition rsmp_var_set_bool :: "rsmp_var option \<Rightarrow> bool \<Rightarrow> rsmp_var option" where
  "rsmp_var_set_bool var b = (case var of None \<Rightarrow> None | Some v \<Rightarrow> Some (Var_bool b))"

definition rsmp_var_set_null :: "rsmp_var option \<Rightarrow> rsmp_var option" where
  "rsmp_var_set_null var = (case var of None \<Rightarrow> None | Some v \<Rightarrow> Some Var_null)"

definition rsmp_var_from_string :: "cstr \<Rightarrow> rsmp_var option" where
  "rsmp_var_from_string s = rsmp_var_set_string rsmp_var_new s"

definition rsmp_var_from_string_len :: "cstr \<Rightarrow> nat \<Rightarrow> rsmp_var option" where
  "rsmp_var_from_string_len s n = rsmp_var_set_string_len rsmp_var_new s n"

definition rsmp_var_from_int :: "64 word \<Rightarrow> rsmp_var option" where
  "rsmp_var_from_int i = rsmp_var_set_int rsmp_var_new i"

definition rsmp_var_from_uint :: "64 word \<Rightarrow> rsmp_var option" where
  "rsmp_var_from_uint i = rsmp_var_set_uint rsmp_var_new i"

definition rsmp_var_from_double :: "64 word \<Rightarrow> rsmp_var option" where
  "rsmp_var_from_double d = rsmp_var_set_double rsmp_var_new d"

definition rsmp_var_from_bool :: "bool \<Rightarrow> rsmp_var option" where
  "rsmp_var_from_bool b = rsmp_var_set_bool rsmp_var_new b"

definition rsmp_var_from_null :: "rsmp_var option" where "rsmp_var_from_null = rsmp_var_new"

text \<open>A variable that exists is reused.\<close>
definition rsmp_var_auto_string :: "rsmp_var option \<Rightarrow> cstr \<Rightarrow> rsmp_var option" where
  "rsmp_var_auto_string var s = (if var = None then rsmp_var_from_string s else rsmp_var_set_string var s)"

definition rsmp_var_auto_string_len :: "rsmp_var option \<Rightarrow> cstr \<Rightarrow> nat \<Rightarrow> rsmp_var option" where
  "rsmp_var_auto_string_len var s n =
    (if var = None then rsmp_var_from_string_len s n else rsmp_var_set_string_len var s n)"

definition rsmp_var_auto_bool :: "rsmp_var option \<Rightarrow> bool \<Rightarrow> rsmp_var option" where
  "rsmp_var_auto_bool var b = (if var = None then rsmp_var_from_bool b else rsmp_var_set_bool var b)"

lemma rsmp_var_auto [simp]:
  "rsmp_var_auto_string var s = Some (Var_string s)"
  "rsmp_var_auto_string_len var s n = Some (Var_string (map_option (take n) s))"
  "rsmp_var_auto_bool var b = Some (Var_bool b)"
  by (auto simp: rsmp_var_auto_string_def rsmp_var_from_string_def rsmp_var_set_string_def rsmp_var_new_def
      rsmp_var_auto_string_len_def rsmp_var_from_string_len_def rsmp_var_set_string_len_def
      rsmp_var_auto_bool_def rsmp_var_from_bool_def rsmp_var_set_bool_def split: option.split)

text \<open>What a C function sees of a text with a length: everything before the first NUL.\<close>
definition c_text :: "string \<Rightarrow> string" where "c_text t = takeWhile (\<lambda>c. c \<noteq> CHR 0x00) t"

lemma c_text_id [simp]: "no_nul t \<Longrightarrow> c_text t = t"
  by (auto simp: c_text_def no_nul_def takeWhile_eq_all_conv)

lemma c_text_no_nul [simp]: "no_nul (c_text t)"
  by (auto simp: c_text_def no_nul_def dest: set_takeWhileD)

section \<open>Enumerations\<close>

text \<open>The index of a text in a table, the size of the table when it is not there; the empty text never
  is.\<close>
definition rsmp_lib_find :: "string list \<Rightarrow> cstr \<Rightarrow> nat" where
  "rsmp_lib_find tab s =
    (case s of
       None \<Rightarrow> length tab
     | Some t \<Rightarrow> if t = [] then length tab else length (takeWhile (\<lambda>x. x \<noteq> t) tab))"

definition lib_get :: "string list \<Rightarrow> nat \<Rightarrow> cstr" where
  "lib_get tab i = (if i < length tab then Some (tab ! i) else None)"

definition rsmp_aS_lib :: "string list" where "rsmp_aS_lib = [''inActive'', ''Active'']"
definition rsmp_aSp_lib :: "string list" where
  "rsmp_aSp_lib = [''Issue'', ''Request'', ''Acknowledge'', ''Suspend'', ''Resume'']"
definition rsmp_ack_lib :: "string list" where "rsmp_ack_lib = [''notAcknowledged'', ''Acknowledged'']"
definition rsmp_cat_lib :: "string list" where "rsmp_cat_lib = [''T'', ''D'']"
definition rsmp_pri_lib :: "string list" where "rsmp_pri_lib = [''1'', ''2'', ''3'']"
definition rsmp_sS_lib :: "string list" where "rsmp_sS_lib = [''Suspended'', ''notSuspended'']"
definition rsmp_age_lib :: "string list" where "rsmp_age_lib = [''unknown'', ''recent'', ''old'', ''undefined'']"
definition rsmp_q_lib :: "string list" where "rsmp_q_lib = [''unknown'', ''recent'', ''old'', ''undefined'']"
definition rsmp_sg_lib :: "string list" where "rsmp_sg_lib = [''GEN'', ''SLT'', ''IO'', ''VAR'']"

datatype msg_type =
    T_Alarm | T_AggregatedStatus | T_AggregatedStatusRequest | T_StatusRequest | T_StatusResponse
  | T_StatusSubscribe | T_StatusUpdate | T_StatusUnsubscribe | T_CommandRequest
  | T_CommandRequestAckIncluded | T_CommandResponseAckIncluded | T_StatusResponseAckIncluded
  | T_StatusRequestAckIncluded | T_CommandResponse | T_MessageAck | T_MessageNotAck | T_Version | T_Watchdog

definition rsmp_type_lib :: "(msg_type \<times> string) list" where
  "rsmp_type_lib =
    [(T_Alarm, ''Alarm''), (T_AggregatedStatus, ''AggregatedStatus''),
     (T_AggregatedStatusRequest, ''AggregatedStatusRequest''), (T_StatusRequest, ''StatusRequest''),
     (T_StatusResponse, ''StatusResponse''), (T_StatusSubscribe, ''StatusSubscribe''),
     (T_StatusUpdate, ''StatusUpdate''), (T_StatusUnsubscribe, ''StatusUnsubscribe''),
     (T_CommandRequest, ''CommandRequest''), (T_CommandRequestAckIncluded, ''CommandRequestAckIncluded''),
     (T_CommandResponseAckIncluded, ''CommandResponseAckIncluded''),
     (T_StatusResponseAckIncluded, ''StatusResponseAckIncluded''),
     (T_StatusRequestAckIncluded, ''StatusRequestAckIncluded''), (T_CommandResponse, ''CommandResponse''),
     (T_MessageAck, ''MessageAck''), (T_MessageNotAck, ''MessageNotAck''), (T_Version, ''Version''),
     (T_Watchdog, ''Watchdog'')]"

text \<open>\<open>None\<close> is \<open>_rsmp_msg_no_\<close>.\<close>
definition rsmp_type_from_string :: "cstr \<Rightarrow> msg_type option" where
  "rsmp_type_from_string s =
    (case s of
       None \<Rightarrow> None
     | Some t \<Rightarrow> if t = [] then None else map_option fst (find (\<lambda>p. snd p = t) rsmp_type_lib))"

definition rsmp_type_to_string :: "msg_type \<Rightarrow> cstr" where
  "rsmp_type_to_string t = map_of rsmp_type_lib t"

section \<open>Fields\<close>

type_synonym uuid = "byte list"

text \<open>
  The members of a message.  An array carries whether it was declared: the items of one that was
  not have size 0.  A member of type \<open>mType_t\<close> is a pointer nobody sets.
\<close>
datatype member =
    M_mType
  | M_type msg_type
  | M_enum nat
  | M_str cstr
  | M_uuid uuid
  | M_ts horodate
  | M_bool bool
  | M_chars bool string
  | M_items bool "(string \<times> member) list list"
  | M_table bool "member list"

type_synonym struct = "(string \<times> member) list"

text \<open>The UUID library, the dates and the drawing of an identifier are arguments.\<close>
record uuids =
  u_text :: "uuid \<Rightarrow> string"
  u_parse :: "string \<Rightarrow> uuid option"

definition uuid_null :: uuid where "uuid_null = replicate 16 0"

definition mType_value :: string where "mType_value = ''rSMsg''"

definition rsmp_mType_check :: "cstr \<Rightarrow> bool" where
  "rsmp_mType_check value = (case value of None \<Rightarrow> False | Some v \<Rightarrow> v = mType_value)"

definition mType_encode :: "rsmp_var option \<Rightarrow> rsmp_var option" where
  "mType_encode var = rsmp_var_auto_string var (Some mType_value)"

definition mType_decode :: "rsmp_var \<Rightarrow> bool run" where
  "mType_decode var =
    (case var of
       Var_string t \<Rightarrow> (case t of None \<Rightarrow> Inl Null_deref | Some s \<Rightarrow> Inr (c_text s = mType_value))
     | _ \<Rightarrow> Inr True)"

definition type_encode :: "rsmp_var option \<Rightarrow> msg_type \<Rightarrow> rsmp_var option" where
  "type_encode var t = rsmp_var_auto_string var (rsmp_type_to_string t)"

definition type_decode :: "rsmp_var \<Rightarrow> msg_type \<Rightarrow> msg_type \<times> bool" where
  "type_decode var t0 =
    (case var of
       Var_string s \<Rightarrow>
         (case rsmp_type_from_string (map_option c_text s) of Some t \<Rightarrow> (t, True) | None \<Rightarrow> (t0, False))
     | _ \<Rightarrow> (t0, True))"

definition str_encode :: "rsmp_var option \<Rightarrow> cstr \<Rightarrow> rsmp_var option" where
  "str_encode var s = rsmp_var_auto_string var s"

definition rsmp_str_set :: "cstr \<Rightarrow> cstr" where "rsmp_str_set value = value"

definition str_decode :: "rsmp_var \<Rightarrow> cstr \<Rightarrow> cstr \<times> bool" where
  "str_decode var s0 =
    (case var of Var_string s \<Rightarrow> (rsmp_str_set (map_option c_text s), True) | _ \<Rightarrow> (s0, False))"

definition uuid_encode :: "uuids \<Rightarrow> rsmp_var option \<Rightarrow> uuid \<Rightarrow> rsmp_var option" where
  "uuid_encode U var i = rsmp_var_auto_string var (Some (u_text U i))"

text \<open>What is not a string leaves the identifier as it is, and is accepted.\<close>
definition uuid_decode :: "uuids \<Rightarrow> rsmp_var \<Rightarrow> uuid \<Rightarrow> uuid \<times> bool" where
  "uuid_decode U var i0 =
    (case var of
       Var_string s \<Rightarrow>
         (case map_option c_text s of
            None \<Rightarrow> (uuid_null, True)
          | Some t \<Rightarrow>
              if t = [] then (uuid_null, True)
              else case u_parse U t of Some i \<Rightarrow> (i, True) | None \<Rightarrow> (i0, False))
     | _ \<Rightarrow> (i0, True))"

definition ts_encode :: "times \<Rightarrow> rsmp_var option \<Rightarrow> horodate \<Rightarrow> rsmp_var option" where
  "ts_encode T var d = rsmp_var_auto_string var (Some (t_text T d))"

definition ts_decode :: "times \<Rightarrow> rsmp_var \<Rightarrow> horodate \<Rightarrow> (horodate \<times> bool) run" where
  "ts_decode T var d0 =
    (case var of
       Var_string s \<Rightarrow>
         (case s of
            None \<Rightarrow> Inl Assert_failed
          | Some t \<Rightarrow> let d = str2ZuluHorodate T (c_text t) in Inr (d, 0 < fst d))
     | _ \<Rightarrow> Inr (d0, False))"

definition bool_encode :: "rsmp_var option \<Rightarrow> bool \<Rightarrow> rsmp_var option" where
  "bool_encode var b = rsmp_var_auto_bool var b"

definition bool_decode :: "rsmp_var \<Rightarrow> bool \<Rightarrow> bool \<times> bool" where
  "bool_decode var b0 = (case var of Var_bool b \<Rightarrow> (b, True) | _ \<Rightarrow> (b0, False))"

definition char_type :: "char item_type" where "char_type = \<lparr> t_size = 1, t_zero = CHR 0x00 \<rparr>"

definition chars_array :: "bool \<Rightarrow> string \<Rightarrow> char rarray" where
  "chars_array declared s =
    \<lparr> ra_len = length s, ra_item_len = (if declared then 1 else 0), ra_items = (if s = [] then None else Some s),
      ra_free = False \<rparr>"

definition v_encode :: "rsmp_var option \<Rightarrow> string \<Rightarrow> rsmp_var option" where
  "v_encode var s = rsmp_var_auto_string_len var (if s = [] then None else Some s) (length s)"

text \<open>The array is made for the length of the text by the size its declaration gave to an item.\<close>
definition v_decode :: "rsmp_var \<Rightarrow> bool \<times> string \<Rightarrow> (bool \<times> string) run" where
  "v_decode var v0 =
    (case var of
       Var_string s \<Rightarrow>
         let n = (case s of None \<Rightarrow> 0 | Some t \<Rightarrow> length t)
         in rbind (ra_initialize char_type (chars_array (fst v0) (snd v0)) n) (\<lambda>a.
              if n = 0 then Inr (fst v0, [])
              else rbind (ra_memcpy (ra_items a) 0 s 0 n) (\<lambda>b. Inr (fst v0, b)))
     | _ \<Rightarrow> Inr v0)"

text \<open>The two kinds of enumeration: what is not a string is accepted and ignored, or refused.\<close>
definition enum_encode :: "string list \<Rightarrow> rsmp_var option \<Rightarrow> nat \<Rightarrow> rsmp_var option" where
  "enum_encode tab var i = rsmp_var_auto_string var (lib_get tab i)"

definition enum_decode :: "string list \<Rightarrow> bool \<Rightarrow> rsmp_var \<Rightarrow> nat \<Rightarrow> nat \<times> bool" where
  "enum_decode tab strict var i0 =
    (case var of
       Var_string s \<Rightarrow>
         let i = rsmp_lib_find tab (map_option c_text s) in if i < length tab then (i, True) else (i0, False)
     | _ \<Rightarrow> (i0, \<not> strict))"

definition aS_decode where "aS_decode = enum_decode rsmp_aS_lib False"
definition aSp_decode where "aSp_decode = enum_decode rsmp_aSp_lib True"
definition ack_decode where "ack_decode = enum_decode rsmp_ack_lib False"
definition cat_decode where "cat_decode = enum_decode rsmp_cat_lib False"
definition pri_decode where "pri_decode = enum_decode rsmp_pri_lib True"
definition sS_decode where "sS_decode = enum_decode rsmp_sS_lib False"
definition age_decode where "age_decode = enum_decode rsmp_age_lib True"
definition q_decode where "q_decode = enum_decode rsmp_q_lib False"

text \<open>A known text is accepted, but stored nowhere.\<close>
definition sg_decode :: "rsmp_var \<Rightarrow> nat \<Rightarrow> nat \<times> bool" where
  "sg_decode var i0 =
    (case var of
       Var_string s \<Rightarrow> (i0, rsmp_lib_find rsmp_sg_lib (map_option c_text s) < length rsmp_sg_lib)
     | _ \<Rightarrow> (i0, True))"

end
