(* ===== verification/RsmpJson.thy ===== *)
theory RsmpJson
  imports RsmpFields
begin

text \<open>
  Model of \<open>rsmp/coder/json.c\<close> and of the descriptions of \<open>rsmp/fields/fields.h\<close>: a message is written
  to and read from a JSON object along the table of its fields.  The JSON library is the argument
  \<open>J\<close>, as in \<open>Json\<close>, with the operations only this coder uses; \<open>rjson_sound\<close> states what it relies on.
\<close>

section \<open>The library\<close>

datatype json_type = JT_null | JT_boolean | JT_double | JT_int | JT_object | JT_array | JT_string

record 'j rjson = "'j json_api" +
  j_type :: "'j \<Rightarrow> json_type"
  j_new_string_len :: "cstr \<Rightarrow> 'j"
  j_new_int64 :: "64 word \<Rightarrow> 'j"
  j_new_uint64 :: "64 word \<Rightarrow> 'j"
  j_new_double :: "bool \<Rightarrow> 'j"
  j_get_int64 :: "'j \<Rightarrow> 64 word"
  j_get_double :: "'j \<Rightarrow> 64 word"
  j_text :: "'j \<Rightarrow> string"

text \<open>Members that were added are found again after printing and parsing, texts, booleans and the
  elements of arrays are read back with their types; a text of length 0 is the empty string.\<close>
definition rjson_sound :: "'j rjson \<Rightarrow> bool" where
  "rjson_sound J \<longleftrightarrow>
    (\<forall>obj k v. j_parse J (j_print J (j_add J obj k v)) = Some (j_add J obj k v)) \<and>
    (\<forall>k. j_get J (j_new_object J) k = None) \<and>
    (\<forall>obj k v k'. j_get J (j_add J obj k v) k' = (if k' = k then Some v else j_get J obj k')) \<and>
    (\<forall>t. j_type J (j_new_string_len J t) = JT_string) \<and>
    (\<forall>t. j_text J (j_new_string_len J t) = (case t of None \<Rightarrow> [] | Some s \<Rightarrow> s)) \<and>
    (\<forall>s. j_get_string J (j_new_string_len J (Some s)) = Some (c_text s)) \<and>
    (\<forall>b. j_type J (j_new_boolean J b) = JT_boolean \<and> j_get_boolean J (j_new_boolean J b) = b) \<and>
    j_type J (j_new_array J) = JT_array \<and> j_array_length J (j_new_array J) = 0 \<and>
    (\<forall>a v. j_type J a = JT_array \<longrightarrow> j_type J (j_array_add J a v) = JT_array) \<and>
    (\<forall>a v. j_array_length J (j_array_add J a v) = j_array_length J a + 1) \<and>
    (\<forall>a v i. i \<le> j_array_length J a \<longrightarrow>
       j_array_get J (j_array_add J a v) i = (if i = j_array_length J a then v else j_array_get J a i))"

lemma rjson_soundD:
  assumes "rjson_sound J"
  shows "j_parse J (j_print J (j_add J obj k v)) = Some (j_add J obj k v)"
    "j_get J (j_new_object J) k = None"
    "j_get J (j_add J obj k v) k' = (if k' = k then Some v else j_get J obj k')"
    "j_type J (j_new_string_len J t) = JT_string"
    "j_text J (j_new_string_len J t) = (case t of None \<Rightarrow> [] | Some s \<Rightarrow> s)"
    "j_get_string J (j_new_string_len J (Some s)) = Some (c_text s)"
    "j_type J (j_new_boolean J b) = JT_boolean" "j_get_boolean J (j_new_boolean J b) = b"
    "j_type J (j_new_array J) = JT_array" "j_array_length J (j_new_array J) = 0"
    "j_type J a = JT_array \<Longrightarrow> j_type J (j_array_add J a v) = JT_array"
    "j_array_length J (j_array_add J a v) = j_array_length J a + 1"
    "i \<le> j_array_length J a \<Longrightarrow>
       j_array_get J (j_array_add J a v) i = (if i = j_array_length J a then v else j_array_get J a i)"
  using assms unfolding rjson_sound_def by simp_all

section \<open>Descriptions\<close>

text \<open>The pair of functions of a field; an array of structures has the item of zeroed memory and the
  fields of an item, a table the zeroed element and the functions of an element.\<close>
datatype field_codec =
    FC_mType | FC_type | FC_str | FC_uuid | FC_ts | FC_bool | FC_v
  | FC_aS | FC_aSp | FC_ack | FC_cat | FC_pri | FC_sS | FC_age | FC_q | FC_sg

datatype field_desc =
    FD_field string field_codec
  | FD_array string struct "field_desc list"
  | FD_table string member field_codec

fun fd_lib :: "field_desc \<Rightarrow> string" where
  "fd_lib (FD_field l c) = l"
| "fd_lib (FD_array l z fs) = l"
| "fd_lib (FD_table l z c) = l"

definition rsmp_message_desc_find_field_by_type :: "field_desc list \<Rightarrow> string \<Rightarrow> field_desc option" where
  "rsmp_message_desc_find_field_by_type fds target = find (\<lambda>f. fd_lib f = target) fds"

definition member_get :: "struct \<Rightarrow> string \<Rightarrow> member run" where
  "member_get st n = (case map_of st n of None \<Rightarrow> Inl Read_oob | Some m \<Rightarrow> Inr m)"

definition member_set :: "struct \<Rightarrow> string \<Rightarrow> member \<Rightarrow> struct" where
  "member_set st n m = map (\<lambda>p. if fst p = n then (n, m) else p) st"

record 'j rsmp_lib =
  r_json :: "'j rjson"
  r_times :: times
  r_uuids :: uuids

text \<open>A member read as the type a pair of functions was written for; as another one, memory is read as what
  it does not hold.\<close>
definition as_type :: "member \<Rightarrow> msg_type run" where
  "as_type m = (case m of M_type t \<Rightarrow> Inr t | _ \<Rightarrow> Inl Wrong_type)"
definition as_enum :: "member \<Rightarrow> nat run" where
  "as_enum m = (case m of M_enum i \<Rightarrow> Inr i | _ \<Rightarrow> Inl Wrong_type)"
definition as_str :: "member \<Rightarrow> cstr run" where
  "as_str m = (case m of M_str s \<Rightarrow> Inr s | _ \<Rightarrow> Inl Wrong_type)"
definition as_uuid :: "member \<Rightarrow> uuid run" where
  "as_uuid m = (case m of M_uuid i \<Rightarrow> Inr i | _ \<Rightarrow> Inl Wrong_type)"
definition as_ts :: "member \<Rightarrow> horodate run" where
  "as_ts m = (case m of M_ts d \<Rightarrow> Inr d | _ \<Rightarrow> Inl Wrong_type)"
definition as_bool :: "member \<Rightarrow> bool run" where
  "as_bool m = (case m of M_bool b \<Rightarrow> Inr b | _ \<Rightarrow> Inl Wrong_type)"
definition as_chars :: "member \<Rightarrow> (bool \<times> string) run" where
  "as_chars m = (case m of M_chars d s \<Rightarrow> Inr (d, s) | _ \<Rightarrow> Inl Wrong_type)"

lemmas as_defs = as_type_def as_enum_def as_str_def as_uuid_def as_ts_def as_bool_def as_chars_def

definition field_encode :: "'j rsmp_lib \<Rightarrow> field_codec \<Rightarrow> rsmp_var option \<Rightarrow> member \<Rightarrow> rsmp_var option run" where
  "field_encode L c var m =
    (case c of
       FC_mType \<Rightarrow> Inr (mType_encode var)
     | FC_type \<Rightarrow> rbind (as_type m) (\<lambda>t. Inr (type_encode var t))
     | FC_str \<Rightarrow> rbind (as_str m) (\<lambda>s. Inr (str_encode var s))
     | FC_uuid \<Rightarrow> rbind (as_uuid m) (\<lambda>i. Inr (uuid_encode (r_uuids L) var i))
     | FC_ts \<Rightarrow> rbind (as_ts m) (\<lambda>d. Inr (ts_encode (r_times L) var d))
     | FC_bool \<Rightarrow> rbind (as_bool m) (\<lambda>b. Inr (bool_encode var b))
     | FC_v \<Rightarrow> rbind (as_chars m) (\<lambda>(d, s). Inr (v_encode var s))
     | FC_aS \<Rightarrow> rbind (as_enum m) (\<lambda>i. Inr (enum_encode rsmp_aS_lib var i))
     | FC_aSp \<Rightarrow> rbind (as_enum m) (\<lambda>i. Inr (enum_encode rsmp_aSp_lib var i))
     | FC_ack \<Rightarrow> rbind (as_enum m) (\<lambda>i. Inr (enum_encode rsmp_ack_lib var i))
     | FC_cat \<Rightarrow> rbind (as_enum m) (\<lambda>i. Inr (enum_encode rsmp_cat_lib var i))
     | FC_pri \<Rightarrow> rbind (as_enum m) (\<lambda>i. Inr (enum_encode rsmp_pri_lib var i))
     | FC_sS \<Rightarrow> rbind (as_enum m) (\<lambda>i. Inr (enum_encode rsmp_sS_lib var i))
     | FC_age \<Rightarrow> rbind (as_enum m) (\<lambda>i. Inr (enum_encode rsmp_age_lib var i))
     | FC_q \<Rightarrow> rbind (as_enum m) (\<lambda>i. Inr (enum_encode rsmp_q_lib var i))
     | FC_sg \<Rightarrow> rbind (as_enum m) (\<lambda>i. Inr (enum_encode rsmp_sg_lib var i)))"

definition field_decode :: "'j rsmp_lib \<Rightarrow> field_codec \<Rightarrow> rsmp_var \<Rightarrow> member \<Rightarrow> (member \<times> bool) run" where
  "field_decode L c var m =
    (case c of
       FC_mType \<Rightarrow> rbind (mType_decode var) (\<lambda>ok. Inr (m, ok))
     | FC_type \<Rightarrow> rbind (as_type m) (\<lambda>t. Inr (apfst M_type (type_decode var t)))
     | FC_str \<Rightarrow> rbind (as_str m) (\<lambda>s. Inr (apfst M_str (str_decode var s)))
     | FC_uuid \<Rightarrow> rbind (as_uuid m) (\<lambda>i. Inr (apfst M_uuid (uuid_decode (r_uuids L) var i)))
     | FC_ts \<Rightarrow> rbind (as_ts m) (\<lambda>d. rbind (ts_decode (r_times L) var d) (\<lambda>r. Inr (apfst M_ts r)))
     | FC_bool \<Rightarrow> rbind (as_bool m) (\<lambda>b. Inr (apfst M_bool (bool_decode var b)))
     | FC_v \<Rightarrow> rbind (as_chars m) (\<lambda>v. rbind (v_decode var v) (\<lambda>(d, s). Inr (M_chars d s, True)))
     | FC_aS \<Rightarrow> rbind (as_enum m) (\<lambda>i. Inr (apfst M_enum (aS_decode var i)))
     | FC_aSp \<Rightarrow> rbind (as_enum m) (\<lambda>i. Inr (apfst M_enum (aSp_decode var i)))
     | FC_ack \<Rightarrow> rbind (as_enum m) (\<lambda>i. Inr (apfst M_enum (ack_decode var i)))
     | FC_cat \<Rightarrow> rbind (as_enum m) (\<lambda>i. Inr (apfst M_enum (cat_decode var i)))
     | FC_pri \<Rightarrow> rbind (as_enum m) (\<lambda>i. Inr (apfst M_enum (pri_decode var i)))
     | FC_sS \<Rightarrow> rbind (as_enum m) (\<lambda>i. Inr (apfst M_enum (sS_decode var i)))
     | FC_age \<Rightarrow> rbind (as_enum m) (\<lambda>i. Inr (apfst M_enum (age_decode var i)))
     | FC_q \<Rightarrow> rbind (as_enum m) (\<lambda>i. Inr (apfst M_enum (q_decode var i)))
     | FC_sg \<Rightarrow> rbind (as_enum m) (\<lambda>i. Inr (apfst M_enum (sg_decode var i))))"

section \<open>Encoding\<close>

text \<open>The number of a variable of type double is taken from its boolean.\<close>
definition json_object_from_var :: "'j rjson \<Rightarrow> rsmp_var \<Rightarrow> 'j option" where
  "json_object_from_var J var =
    (case var of
       Var_bool b \<Rightarrow> Some (j_new_boolean J b)
     | Var_string s \<Rightarrow> Some (j_new_string_len J s)
     | Var_int i \<Rightarrow> Some (j_new_int64 J i)
     | Var_uint u \<Rightarrow> Some (j_new_uint64 J u)
     | Var_double d \<Rightarrow> Some (j_new_double J ((ucast d :: 8 word) \<noteq> 0))
     | Var_null \<Rightarrow> None)"

text \<open>\<open>None\<close> is a result that is not 0.\<close>
definition json_object_var_add :: "'j rjson \<Rightarrow> 'j \<Rightarrow> string \<Rightarrow> rsmp_var option \<Rightarrow> 'j option run" where
  "json_object_var_add J jobj lib var =
    (case var of
       None \<Rightarrow> Inl Assert_failed
     | Some v \<Rightarrow> Inr (map_option (j_add J jobj lib) (json_object_from_var J v)))"

definition json_add_field :: "'j rsmp_lib \<Rightarrow> 'j \<Rightarrow> struct \<Rightarrow> string \<Rightarrow> field_codec \<Rightarrow> 'j option run" where
  "json_add_field L jobj msg lib c =
    rbind (member_get msg lib) (\<lambda>m. rbind (field_encode L c None m) (\<lambda>var.
      json_object_var_add (r_json L) jobj lib var))"

text \<open>The variable is kept from one element to the next.\<close>
fun json_table_loop :: "'j rsmp_lib \<Rightarrow> field_codec \<Rightarrow> rsmp_var option \<Rightarrow> member list \<Rightarrow> 'j \<Rightarrow> 'j option run" where
  "json_table_loop L c var [] jarray = Inr (Some jarray)"
| "json_table_loop L c var (m # ms) jarray =
    rbind (field_encode L c var m) (\<lambda>var1.
      case var1 of
        None \<Rightarrow> Inl Null_deref
      | Some v \<Rightarrow>
          (case json_object_from_var (r_json L) v of
             None \<Rightarrow> Inr None
           | Some obj \<Rightarrow> json_table_loop L c var1 ms (j_array_add (r_json L) jarray obj)))"

definition json_add_table :: "'j rsmp_lib \<Rightarrow> 'j \<Rightarrow> struct \<Rightarrow> string \<Rightarrow> field_codec \<Rightarrow> 'j option run" where
  "json_add_table L jobj msg lib c =
    rbind (member_get msg lib) (\<lambda>m.
      case m of
        M_table d ms \<Rightarrow>
          rbind (json_table_loop L c None ms (j_new_array (r_json L))) (\<lambda>r. Inr
            (map_option (j_add (r_json L) jobj lib) r))
      | _ \<Rightarrow> Inl Wrong_type)"

fun json_add_fields :: "'j rsmp_lib \<Rightarrow> 'j \<Rightarrow> struct \<Rightarrow> field_desc list \<Rightarrow> 'j option run"
and json_items_loop :: "'j rsmp_lib \<Rightarrow> struct list \<Rightarrow> field_desc list \<Rightarrow> 'j \<Rightarrow> 'j option run" where
  "json_add_fields L jobj msg [] = Inr (Some jobj)"
| "json_add_fields L jobj msg (f # fs) =
    rbind (case f of
             FD_field lib c \<Rightarrow> json_add_field L jobj msg lib c
           | FD_array lib z ds \<Rightarrow>
               rbind (member_get msg lib) (\<lambda>m.
                 case m of
                   M_items d its \<Rightarrow>
                     rbind (json_items_loop L its ds (j_new_array (r_json L))) (\<lambda>r. Inr
                       (map_option (j_add (r_json L) jobj lib) r))
                 | _ \<Rightarrow> Inl Wrong_type)
           | FD_table lib z c \<Rightarrow> json_add_table L jobj msg lib c) (\<lambda>r.
      case r of None \<Rightarrow> Inr None | Some jobj1 \<Rightarrow> json_add_fields L jobj1 msg fs)"
| "json_items_loop L [] ds jarray = Inr (Some jarray)"
| "json_items_loop L (it # its) ds jarray =
    rbind (json_add_fields L (j_new_object (r_json L)) it ds) (\<lambda>r.
      case r of
        None \<Rightarrow> Inr None
      | Some jitem \<Rightarrow> json_items_loop L its ds (j_array_add (r_json L) jarray jitem))"

definition eSXLG_def :: "(string \<times> string) list" where
  "eSXLG_def = [(''GEN'', ''1.0.0''), (''SLT'', ''0.5.2''), (''IO'', ''0.3.0''), (''VAR'', ''0.1.0'')]"

definition add_eSXLG_to_json :: "'j rjson \<Rightarrow> string \<Rightarrow> cstr" where
  "add_eSXLG_to_json J s =
    (case j_parse J s of
       None \<Rightarrow> None
     | Some root \<Rightarrow>
         let arr = foldl (\<lambda>a (g, v). j_array_add J a
               (j_add J (j_add J (j_new_object J) ''sg'' (j_new_string J g)) ''vers'' (j_new_string J v)))
               (j_new_array J) eSXLG_def
         in Some (j_print J (j_add J root ''SXLG'' arr)))"

section \<open>Decoding\<close>

text \<open>The value under a key and its type; \<open>None\<close> when there is none.\<close>
definition rsmp_json_object_get :: "'j rjson \<Rightarrow> 'j \<Rightarrow> string \<Rightarrow> (json_type \<times> 'j) option" where
  "rsmp_json_object_get J jobj key = map_option (\<lambda>v. (j_type J v, v)) (j_get J jobj key)"

definition rsmp_json_key_value_check :: "'j rjson \<Rightarrow> 'j \<Rightarrow> string \<Rightarrow> json_type \<Rightarrow> 'j option" where
  "rsmp_json_key_value_check J jobj key tofval =
    (case rsmp_json_object_get J jobj key of
       None \<Rightarrow> None
     | Some (ty, v) \<Rightarrow> if ty = tofval then Some v else None)"

definition rsmp_json_mType_check :: "'j rjson \<Rightarrow> 'j \<Rightarrow> bool" where
  "rsmp_json_mType_check J jobj =
    (case rsmp_json_key_value_check J jobj ''mType'' JT_string of
       None \<Rightarrow> False
     | Some v \<Rightarrow> rsmp_mType_check (j_get_string J v))"

definition rsmp_json_extract_type :: "'j rjson \<Rightarrow> 'j \<Rightarrow> msg_type option" where
  "rsmp_json_extract_type J jobj =
    (case rsmp_json_key_value_check J jobj ''type'' JT_string of
       None \<Rightarrow> None
     | Some v \<Rightarrow> rsmp_type_from_string (j_get_string J v))"

text \<open>\<open>None\<close>: no variable, for an object or an array.\<close>
definition json2vars :: "'j rjson \<Rightarrow> json_type \<Rightarrow> 'j \<Rightarrow> rsmp_var option" where
  "json2vars J ty obj =
    (case ty of
       JT_null \<Rightarrow> rsmp_var_from_null
     | JT_boolean \<Rightarrow> rsmp_var_from_bool (j_get_boolean J obj)
     | JT_double \<Rightarrow> rsmp_var_from_double (j_get_double J obj)
     | JT_int \<Rightarrow> rsmp_var_from_int (j_get_int64 J obj)
     | JT_object \<Rightarrow> None
     | JT_array \<Rightarrow> None
     | JT_string \<Rightarrow> rsmp_var_from_string_len (Some (j_text J obj)) (length (j_text J obj)))"

text \<open>The member and whether the result is 0.\<close>
definition json_extract_field :: "'j rsmp_lib \<Rightarrow> json_type \<Rightarrow> 'j \<Rightarrow> field_codec \<Rightarrow> member \<Rightarrow> (member \<times> bool) run" where
  "json_extract_field L ty obj c m =
    (case json2vars (r_json L) ty obj of
       None \<Rightarrow> Inr (m, False)
     | Some var \<Rightarrow> field_decode L c var m)"

text \<open>The length of a JSON array goes through an \<open>int\<close>; only an array has one.\<close>
definition json_length :: "'j rjson \<Rightarrow> 'j \<Rightarrow> nat run" where
  "json_length J arr =
    (if j_type J arr \<noteq> JT_array then Inl Assert_failed
     else Inr (unat (scast (word_of_nat (j_array_length J arr) :: 32 word) :: 64 word)))"

text \<open>\<open>rsmp_array_initialize\<close> on an array of a message: the zeroed items; the block of an array that was
  not declared holds none.\<close>
definition items_reset :: "'a \<Rightarrow> bool \<Rightarrow> 'a list \<Rightarrow> nat \<Rightarrow> 'a list run" where
  "items_reset z declared old n =
    rbind (rsmp_array_initialize \<lparr> t_size = 1, t_zero = z \<rparr>
             \<lparr> ra_len = length old, ra_item_len = (if declared then 1 else 0),
               ra_items = (if old = [] then None else Some old), ra_free = False \<rparr> n) (\<lambda>a.
      let b = (case ra_items a of None \<Rightarrow> [] | Some b \<Rightarrow> b)
      in if length b < n then Inl Write_oob else Inr b)"

fun json_table_extract ::
  "'j rsmp_lib \<Rightarrow> 'j \<Rightarrow> field_codec \<Rightarrow> nat \<Rightarrow> member list \<Rightarrow> (member list \<times> bool) run" where
  "json_table_extract L arr c i [] = Inr ([], True)"
| "json_table_extract L arr c i (m # ms) =
    (let v = j_array_get (r_json L) arr i
     in rbind (json_extract_field L (j_type (r_json L) v) v c m) (\<lambda>(m1, ok).
          if \<not> ok then Inr (m1 # ms, False)
          else rbind (json_table_extract L arr c (i + 1) ms) (\<lambda>(ms1, ok1). Inr (m1 # ms1, ok1))))"

definition json_extract_table :: "'j rsmp_lib \<Rightarrow> 'j \<Rightarrow> member \<Rightarrow> field_codec \<Rightarrow> member \<Rightarrow> (member \<times> bool) run" where
  "json_extract_table L arr z c m =
    (case m of
       M_table d old \<Rightarrow>
         rbind (json_length (r_json L) arr) (\<lambda>n. rbind (items_reset z d old n) (\<lambda>b.
           rbind (json_table_extract L arr c 0 b) (\<lambda>(ms, ok). Inr (M_table d ms, ok))))
     | _ \<Rightarrow> Inl Wrong_type)"

fun json_extract_fields :: "'j rsmp_lib \<Rightarrow> 'j \<Rightarrow> struct \<Rightarrow> field_desc list \<Rightarrow> (struct \<times> bool) run"
and json_items_extract ::
  "'j rsmp_lib \<Rightarrow> 'j \<Rightarrow> field_desc list \<Rightarrow> nat \<Rightarrow> struct list \<Rightarrow> (struct list \<times> bool) run" where
  "json_extract_fields L jobj msg [] = Inr (msg, True)"
| "json_extract_fields L jobj msg (f # fs) =
    (case rsmp_json_object_get (r_json L) jobj (fd_lib f) of
       None \<Rightarrow> Inr (msg, False)
     | Some (ty, obj) \<Rightarrow>
         if ty = JT_null then Inr (msg, False)
         else rbind (member_get msg (fd_lib f)) (\<lambda>m.
                rbind (case f of
                         FD_field lib c \<Rightarrow>
                           if ty = JT_array \<or> ty = JT_object then Inr (m, False)
                           else json_extract_field L ty obj c m
                       | FD_array lib z ds \<Rightarrow>
                           (case m of
                              M_items d old \<Rightarrow>
                                rbind (json_length (r_json L) obj) (\<lambda>n. rbind (items_reset z d old n) (\<lambda>b.
                                  rbind (json_items_extract L obj ds 0 b) (\<lambda>(its, ok). Inr (M_items d its, ok))))
                            | _ \<Rightarrow> Inl Wrong_type)
                       | FD_table lib z c \<Rightarrow> json_extract_table L obj z c m) (\<lambda>(m1, ok).
                  let msg1 = member_set msg (fd_lib f) m1
                  in if ok then json_extract_fields L jobj msg1 fs else Inr (msg1, False))))"
| "json_items_extract L arr ds i [] = Inr ([], True)"
| "json_items_extract L arr ds i (it # its) =
    rbind (json_extract_fields L (j_array_get (r_json L) arr i) it ds) (\<lambda>(it1, ok).
      if \<not> ok then Inr (it1 # its, False)
      else rbind (json_items_extract L arr ds (i + 1) its) (\<lambda>(its1, ok1). Inr (it1 # its1, ok1)))"

end
