(* ===== verification/RsmpContext.thy ===== *)
theory RsmpContext
  imports RsmpJson
begin

text \<open>
  Model of \<open>rsmp/env/rsmp-context.c\<close>, of \<open>rsmp/fields/RSMP.c\<close>, \<open>siteId.c\<close> and \<open>eSXLG.c\<close> and of the
  table of labels of \<open>rsmp/fields/fields.c\<close>: the identities and versions a site puts in its messages.
  The arrays of a context are those of \<open>RsmpArray\<close> with structures as items; the static variables of
  the file are the state \<open>rsmp_env\<close>.
\<close>

section \<open>Labels\<close>

text \<open>In the order of the enumeration; three of its values have no entry.\<close>
definition rsmp_fields_tab :: "cstr list" where
  "rsmp_fields_tab =
    map Some [''aCId'', ''ack'', ''age'', ''arg'', ''aS'', ''aSp'', ''aSTS'', ''aTs'', ''cat'', ''cCI'', ''cId'', ''cO'',
      ''cTS'', ''fP'', ''fS'', ''mId'', ''mType'', ''n'', ''ntsOId'', ''oMId'', ''pri'', ''q'', ''rea'', ''RSMP'', ''rvs'',
      ''s'', ''sCI'', ''se'', ''sId'', ''siteId'', ''sOc'', ''sS'', ''sTs'', ''SXL''] @ [None, None] @
    map Some [''type'', ''uRt'', ''v'', ''vers'', ''wTs'', ''xACId'', ''xNACId'', ''xNId'', ''uId'', ''data'', ''login'',
      ''cipher''] @ [None]"

definition rsmp_field_lib_get :: "nat \<Rightarrow> cstr" where
  "rsmp_field_lib_get field = (if field < length rsmp_fields_tab then rsmp_fields_tab ! field else None)"

fun field_lib_search :: "cstr list \<Rightarrow> string \<Rightarrow> nat \<Rightarrow> nat run" where
  "field_lib_search [] lib i = Inr i"
| "field_lib_search (t # ts) lib i =
    (case t of
       None \<Rightarrow> Inl Null_deref
     | Some s \<Rightarrow> if lib = s then Inr i else field_lib_search ts lib (i + 1))"

definition rsmp_field_from_lib :: "string \<Rightarrow> nat run" where
  "rsmp_field_from_lib lib = field_lib_search rsmp_fields_tab lib 0"

section \<open>Arrays of versions and sites\<close>

definition vers_item :: "cstr \<Rightarrow> struct" where "vers_item v = [(''vers'', M_str v)]"
definition sId_item :: "cstr \<Rightarrow> struct" where "sId_item v = [(''sId'', M_str v)]"
definition eSXLG_item :: "cstr \<Rightarrow> nat \<Rightarrow> struct" where
  "eSXLG_item v g = [(''vers'', M_str v), (''sg'', M_enum g)]"

definition RSMPs_type :: "struct item_type" where "RSMPs_type = \<lparr> t_size = 8, t_zero = vers_item None \<rparr>"
definition siteIds_type :: "struct item_type" where "siteIds_type = \<lparr> t_size = 8, t_zero = sId_item None \<rparr>"
definition eSXLGs_type :: "struct item_type" where "eSXLGs_type = \<lparr> t_size = 16, t_zero = eSXLG_item None 0 \<rparr>"

definition zero_array :: "'a rarray" where
  "zero_array = \<lparr> ra_len = 0, ra_item_len = 0, ra_items = None, ra_free = False \<rparr>"

text \<open>The items of the source are copied one by one behind the initialisation of the destination.\<close>
fun dup2_loop :: "'a list option \<Rightarrow> nat \<Rightarrow> nat \<Rightarrow> 'a rarray \<Rightarrow> 'a rarray run" where
  "dup2_loop src i 0 dest = Inr dest"
| "dup2_loop src i (Suc k) dest =
    (case src of
       None \<Rightarrow> Inl Null_deref
     | Some b \<Rightarrow> rbind (bread b i) (\<lambda>x. rbind (ra_put dest i x) (\<lambda>d. dup2_loop src (i + 1) k d)))"

definition items_dup2 :: "'a item_type \<Rightarrow> 'a rarray \<Rightarrow> 'a rarray \<Rightarrow> 'a rarray run" where
  "items_dup2 T dest src =
    rbind (ra_initialize T dest (ra_len src)) (\<lambda>d. dup2_loop (ra_items src) 0 (ra_len src) d)"

definition rsmp_array_RSMPs_dup2 :: "struct rarray \<Rightarrow> struct rarray \<Rightarrow> struct rarray run" where
  "rsmp_array_RSMPs_dup2 dest src = items_dup2 RSMPs_type dest src"

definition rsmp_array_siteIds_dup2 :: "struct rarray \<Rightarrow> struct rarray \<Rightarrow> struct rarray run" where
  "rsmp_array_siteIds_dup2 dest src = items_dup2 siteIds_type dest src"

definition rsmp_array_eSXLGs_dup2 :: "struct rarray \<Rightarrow> struct rarray \<Rightarrow> struct rarray run" where
  "rsmp_array_eSXLGs_dup2 dest src = items_dup2 eSXLGs_type dest src"

section \<open>Contexts\<close>

record rsmp_context =
  cx_RSMP :: "struct rarray"
  cx_siteId :: "struct rarray"
  cx_SXL :: cstr
  cx_eSXLG :: "struct rarray"
  cx_ntsOId :: cstr
  cx_cId :: cstr
  cx_xNId :: cstr
  cx_sId :: cstr

text \<open>The context of the program, once made, and whether it was completed with the values by default.\<close>
record rsmp_env =
  re_default :: "rsmp_context option"
  re_init :: bool

definition RSMP_VERS_DEFAULT :: string where "RSMP_VERS_DEFAULT = ''3.2.1''"
definition SITEID_SID_DEFAULT :: string where "SITEID_SID_DEFAULT = ''CLIENT_SVMS''"
definition SXL_DEFAULT :: string where "SXL_DEFAULT = []"
definition NTSOID_DEFAULT :: string where "NTSOID_DEFAULT = ''AA+BBCCC=DDDEEFFF''"

definition eSXLG_default :: "(string \<times> nat) list" where "eSXLG_default = [(''1.0.0'', 0), (''0.5.2'', 1)]"

definition rsmp_context_zero :: rsmp_context where
  "rsmp_context_zero =
    \<lparr> cx_RSMP = zero_array, cx_siteId = zero_array, cx_SXL = None, cx_eSXLG = zero_array, cx_ntsOId = None,
      cx_cId = None, cx_xNId = None, cx_sId = None \<rparr>"

text \<open>Elements of the array by default, written one behind the other from an index on.\<close>
fun write_items :: "nat \<Rightarrow> struct list \<Rightarrow> struct rarray \<Rightarrow> struct rarray run" where
  "write_items i [] a = Inr a"
| "write_items i (x # xs) a = rbind (ra_put a i x) (\<lambda>a1. write_items (i + 1) xs a1)"

definition rsmp_context_set_default :: "rsmp_env \<Rightarrow> rsmp_context \<Rightarrow> rsmp_context run" where
  "rsmp_context_set_default g item =
    (case re_default g of
       None \<Rightarrow> Inr item
     | Some d \<Rightarrow>
         let item1 = item\<lparr> cx_ntsOId := cx_ntsOId d, cx_cId := cx_cId d, cx_xNId := cx_xNId d,
               cx_SXL := (if cx_SXL d = None then Some SXL_DEFAULT else cx_SXL d) \<rparr>
         in rbind (if ra_len (cx_RSMP d) > 0 then rsmp_array_RSMPs_dup2 (cx_RSMP item1) (cx_RSMP d)
                   else ra_push RSMPs_type (cx_RSMP item1) (vers_item (Some RSMP_VERS_DEFAULT))) (\<lambda>r.
            rbind (if ra_len (cx_eSXLG d) > 0 then rsmp_array_eSXLGs_dup2 (cx_eSXLG item1) (cx_eSXLG d)
                   else let (a, i) = ra_new_item eSXLGs_type (cx_eSXLG item1)
                        in write_items i (map (\<lambda>(v, s). eSXLG_item (Some v) s) eSXLG_default) a) (\<lambda>e.
            rbind (if ra_len (cx_siteId d) > 0 then rsmp_array_siteIds_dup2 (cx_siteId item1) (cx_siteId d)
                   else ra_push siteIds_type (cx_siteId item1) (sId_item (Some SITEID_SID_DEFAULT))) (\<lambda>s.
            Inr (item1\<lparr> cx_RSMP := r, cx_eSXLG := e, cx_siteId := s \<rparr>)))))"

definition rsmp_context_get_global :: "rsmp_env \<Rightarrow> rsmp_env \<times> rsmp_context" where
  "rsmp_context_get_global g =
    (case re_default g of
       Some c \<Rightarrow> (g, c)
     | None \<Rightarrow>
         let c = rsmp_context_zero\<lparr> cx_RSMP := ra_declare RSMPs_type True zero_array,
               cx_siteId := ra_declare siteIds_type True zero_array,
               cx_eSXLG := ra_declare eSXLGs_type True zero_array, cx_SXL := Some SXL_DEFAULT,
               cx_ntsOId := Some NTSOID_DEFAULT, cx_cId := Some NTSOID_DEFAULT \<rparr>
         in (g\<lparr> re_default := Some c \<rparr>, c))"

definition rsmp_context_new :: "rsmp_env \<Rightarrow> rsmp_context run" where
  "rsmp_context_new g = rsmp_context_set_default g rsmp_context_zero"

definition rsmp_context_free :: "rsmp_context \<Rightarrow> unit run" where
  "rsmp_context_free item =
    rbind (ra_flush (cx_RSMP item)) (\<lambda>_. rbind (ra_flush (cx_eSXLG item)) (\<lambda>_.
      rbind (ra_flush (cx_siteId item)) (\<lambda>_. Inr ())))"

section \<open>Changing a context\<close>

text \<open>The context an operation is about: the one given, or that of the program.\<close>
definition with_item ::
  "rsmp_env \<Rightarrow> rsmp_context option \<Rightarrow> (rsmp_context \<Rightarrow> rsmp_context run) \<Rightarrow> (rsmp_env \<times> rsmp_context option) run" where
  "with_item g item f =
    (case item of
       Some c \<Rightarrow> rbind (f c) (\<lambda>c1. Inr (g, Some c1))
     | None \<Rightarrow>
         let (g1, c) = rsmp_context_get_global g
         in rbind (f c) (\<lambda>c1. Inr (g1\<lparr> re_default := Some c1 \<rparr>, None)))"

definition rsmp_context_RSMP_add ::
  "rsmp_env \<Rightarrow> rsmp_context option \<Rightarrow> cstr \<Rightarrow> (rsmp_env \<times> rsmp_context option) run" where
  "rsmp_context_RSMP_add g item value =
    with_item g item (\<lambda>c.
      if value = None then Inr c
      else rbind (ra_push RSMPs_type (cx_RSMP c) (vers_item value)) (\<lambda>a. Inr (c\<lparr> cx_RSMP := a \<rparr>)))"

definition rsmp_context_eSXLG_add ::
  "rsmp_env \<Rightarrow> rsmp_context option \<Rightarrow> nat \<Rightarrow> cstr \<Rightarrow> (rsmp_env \<times> rsmp_context option) run" where
  "rsmp_context_eSXLG_add g item sg_val vers_val =
    with_item g item (\<lambda>c.
      if vers_val = None \<or> length rsmp_sg_lib \<le> sg_val then Inr c
      else rbind (ra_push eSXLGs_type (cx_eSXLG c) (eSXLG_item vers_val sg_val)) (\<lambda>a. Inr (c\<lparr> cx_eSXLG := a \<rparr>)))"

definition rsmp_context_siteId_add ::
  "rsmp_env \<Rightarrow> rsmp_context option \<Rightarrow> cstr \<Rightarrow> (rsmp_env \<times> rsmp_context option) run" where
  "rsmp_context_siteId_add g item value =
    with_item g item (\<lambda>c.
      if value = None then Inr c
      else rbind (ra_push siteIds_type (cx_siteId c) (sId_item value)) (\<lambda>a. Inr (c\<lparr> cx_siteId := a \<rparr>)))"

definition rsmp_context_SXL_set where
  "rsmp_context_SXL_set g item value = with_item g item (\<lambda>c. Inr (c\<lparr> cx_SXL := value \<rparr>))"

definition rsmp_context_sId_set where
  "rsmp_context_sId_set g item value = with_item g item (\<lambda>c. Inr (c\<lparr> cx_sId := value \<rparr>))"

definition rsmp_context_ntsOId_set where
  "rsmp_context_ntsOId_set g item value = with_item g item (\<lambda>c. Inr (c\<lparr> cx_ntsOId := value \<rparr>))"

definition rsmp_context_cId_set where
  "rsmp_context_cId_set g item value = with_item g item (\<lambda>c. Inr (c\<lparr> cx_cId := value \<rparr>))"

definition rsmp_context_xNId_set where
  "rsmp_context_xNId_set g item value = with_item g item (\<lambda>c. Inr (c\<lparr> cx_xNId := value \<rparr>))"

definition rsmp_context_global_get :: "rsmp_env \<Rightarrow> rsmp_env \<times> rsmp_context" where
  "rsmp_context_global_get g = rsmp_context_get_global g"

text \<open>One pair of an option; the parts of the text between commas are what \<open>decodeparam\<close> gives.\<close>
definition context_option ::
  "rsmp_env \<Rightarrow> rsmp_context option \<Rightarrow> bool \<Rightarrow> string \<Rightarrow> ((rsmp_env \<times> rsmp_context option) \<times> bool \<times> errcode) run" where
  "context_option g item sId_set arg =
    (if CHR '':'' \<notin> set arg then Inr ((g, item), sId_set, E_config)
     else let label = takeWhile (\<lambda>c. c \<noteq> CHR '':'') arg; value = Some (drop (length label + 1) arg);
              ok = (\<lambda>r. rbind r (\<lambda>x. Inr (x, sId_set, E_no_error)))
          in rbind (rsmp_field_from_lib label) (\<lambda>i.
            case rsmp_field_lib_get i of
              None \<Rightarrow> Inr ((g, item), sId_set, E_config)
            | Some l \<Rightarrow>
                if l = ''vers'' then ok (rsmp_context_RSMP_add g item value)
                else if l = ''sId'' then
                  rbind (rsmp_context_siteId_add g item value) (\<lambda>(g1, item1).
                    if sId_set then Inr ((g1, item1), sId_set, E_no_error)
                    else rbind (rsmp_context_sId_set g1 item1 value) (\<lambda>x. Inr (x, True, E_no_error)))
                else if l = ''xNId'' then ok (rsmp_context_xNId_set g item value)
                else if l = ''SXL'' then ok (rsmp_context_SXL_set g item value)
                else if l = ''ntsOId'' then ok (rsmp_context_ntsOId_set g item value)
                else if l = ''cId'' then ok (rsmp_context_cId_set g item value)
                else Inr ((g, item), sId_set, E_config)))"

fun context_options ::
  "rsmp_env \<Rightarrow> rsmp_context option \<Rightarrow> bool \<Rightarrow> string list \<Rightarrow> ((rsmp_env \<times> rsmp_context option) \<times> errcode) run" where
  "context_options g item sId_set [] = Inr ((g, item), E_no_error)"
| "context_options g item sId_set (a # as) =
    rbind (context_option g item sId_set a) (\<lambda>((g1, item1), sId_set1, ret).
      if ret \<noteq> E_no_error then Inr ((g1, item1), ret) else context_options g1 item1 sId_set1 as)"

definition rsmp_context_from_str ::
  "rsmp_env \<Rightarrow> rsmp_context option \<Rightarrow> string list \<Rightarrow> ((rsmp_env \<times> rsmp_context option) \<times> errcode) run" where
  "rsmp_context_from_str g item args = context_options g item False args"

fun eSXLG_adds :: "rsmp_env \<Rightarrow> (string \<times> nat) list \<Rightarrow> rsmp_env run" where
  "eSXLG_adds g [] = Inr g"
| "eSXLG_adds g ((v, s) # es) = rbind (rsmp_context_eSXLG_add g None s (Some v)) (\<lambda>(g1, x). eSXLG_adds g1 es)"

definition rsmp_context_initialize :: "rsmp_env \<Rightarrow> rsmp_env run" where
  "rsmp_context_initialize g =
    (if re_init g then Inr g
     else let (g1, c) = rsmp_context_get_global g
          in rbind (if ra_len (cx_RSMP c) > 0 then Inr (g1, None)
                    else rsmp_context_RSMP_add g1 None (Some RSMP_VERS_DEFAULT)) (\<lambda>(g2, x).
             rbind (if ra_len (cx_siteId c) > 0 then Inr (g2, None)
                    else rsmp_context_siteId_add g2 None (Some SITEID_SID_DEFAULT)) (\<lambda>(g3, y).
             rbind (if ra_len (cx_eSXLG c) > 0 then Inr g3 else eSXLG_adds g3 eSXLG_default) (\<lambda>g4.
             Inr (g4\<lparr> re_init := True \<rparr>)))))"

text \<open>What is logged is left out; the values by default are completed first.\<close>
definition rsmp_context_log :: "rsmp_env \<Rightarrow> rsmp_env run" where
  "rsmp_context_log g = rbind (rsmp_context_initialize g) (\<lambda>g1. Inr (fst (rsmp_context_get_global g1)))"

section \<open>Comparing versions\<close>

fun strcmp_less :: "string \<Rightarrow> string \<Rightarrow> bool" where
  "strcmp_less xs [] = False"
| "strcmp_less [] (y # ys) = True"
| "strcmp_less (x # xs) (y # ys) =
    (if x = y then strcmp_less xs ys else (of_char x :: nat) < of_char y)"

fun vers_max :: "cstr list \<Rightarrow> string \<Rightarrow> string run" where
  "vers_max [] m = Inr m"
| "vers_max (v # vs) m =
    (case v of None \<Rightarrow> Inl Null_deref | Some s \<Rightarrow> vers_max vs (if strcmp_less m s then s else m))"

fun vers_below :: "cstr list \<Rightarrow> string \<Rightarrow> bool run" where
  "vers_below [] m = Inr False"
| "vers_below (v # vs) m =
    (case v of None \<Rightarrow> Inl Null_deref | Some s \<Rightarrow> if strcmp_less m s then Inr True else vers_below vs m)"

text \<open>The versions of the two arrays; the greatest of the other site, if a version here is greater.\<close>
definition rsmp_array_RSMPs_check :: "cstr list option \<Rightarrow> cstr list option \<Rightarrow> cstr run" where
  "rsmp_array_RSMPs_check local remote =
    (case (local, remote) of
       (Some ls, Some (r # rs)) \<Rightarrow>
         if ls = [] then Inr None
         else if r = None then Inl Null_deref
         else rbind (vers_max rs (the r)) (\<lambda>m. rbind (vers_below ls m) (\<lambda>b. Inr (if b then Some m else None)))
     | _ \<Rightarrow> Inr None)"

section \<open>Contexts that are in order\<close>

text \<open>The arrays are proper, with items of their types, and small enough to be copied into messages.\<close>
definition array_fits :: "struct item_type \<Rightarrow> string list \<Rightarrow> struct rarray \<Rightarrow> bool" where
  "array_fits T ks a \<longleftrightarrow> ra_ok T a \<and> ra_len a < 2 ^ 31 \<and> (\<forall>it \<in> set (ra_list a). map fst it = ks)"

definition context_ok :: "rsmp_context \<Rightarrow> bool" where
  "context_ok c \<longleftrightarrow>
    array_fits RSMPs_type [''vers''] (cx_RSMP c) \<and> array_fits siteIds_type [''sId''] (cx_siteId c) \<and>
    array_fits eSXLGs_type [''vers'', ''sg''] (cx_eSXLG c)"

lemma declared_ok: "0 < t_size T \<Longrightarrow> array_fits T ks (ra_declare T fct zero_array)"
  by (simp add: array_fits_def ra_ok_def ra_declare_def zero_array_def ra_list_def)

lemma global_ok:
  assumes "\<forall>c. re_default g = Some c \<longrightarrow> context_ok c"
  shows "context_ok (snd (rsmp_context_get_global g))"
  using assms
  by (auto simp: rsmp_context_get_global_def context_ok_def declared_ok RSMPs_type_def siteIds_type_def
      eSXLGs_type_def rsmp_context_zero_def Let_def split: option.splits)

lemma push_fits:
  assumes "array_fits T ks a" "ra_len a + 1 < 2 ^ 31" "t_size T \<le> 16" "map fst x = ks"
  shows "\<exists>b. ra_push T a x = Inr b \<and> array_fits T ks b \<and> ra_list b = ra_list a @ [x] \<and> ra_len b = ra_len a + 1"
proof -
  have a: "ra_ok T a" and l: "length (ra_list a) = ra_len a"
    using assms(1) ra_ok_len by (auto simp: array_fits_def)
  have "(2 ^ 63 - 1 :: nat) div 16 \<le> (2 ^ 63 - 1) div t_size T"
    using assms(3) a by (intro div_le_mono2) (auto simp: ra_ok_def)
  hence "length (ra_list a) < ra_room T" using l assms(2) by (simp add: ra_room_def)
  from ra_push_ok [OF a this, of x] obtain b where
    b: "ra_push T a x = Inr b" "ra_ok T b" "ra_list b = ra_list a @ [x]" by blast
  have "ra_len b = ra_len a + 1" using ra_ok_len [OF b(2)] b(3) l by simp
  thus ?thesis using b assms by (auto simp: array_fits_def)
qed

lemma dup2_loop_ok:
  assumes "i + k = length b" "ra_items dest = Some d" "length d = length b" "take i d = take i b"
  shows "\<exists>e. dup2_loop (Some b) i k dest = Inr (dest\<lparr> ra_items := Some e \<rparr>) \<and> e = b"
  using assms
proof (induction k arbitrary: i dest d)
  case 0
  hence "d = b" by simp
  thus ?case using 0 by (intro exI [of _ b]) simp
next
  case (Suc k)
  have t: "take (Suc i) (d[i := b ! i]) = take (Suc i) b"
    using Suc.prems by (auto simp: take_Suc_conv_app_nth)
  have "\<exists>e. dup2_loop (Some b) (Suc i) k (dest\<lparr> ra_items := Some (d[i := b ! i]) \<rparr>)
      = Inr (dest\<lparr> ra_items := Some (d[i := b ! i]) \<rparr>\<lparr> ra_items := Some e \<rparr>) \<and> e = b"
    using Suc.prems t by (intro Suc.IH [where d = "d[i := b ! i]"]) auto
  thus ?case using Suc.prems by (simp add: ra_put_def)
qed

lemma flush_ok:
  assumes "ra_ok T a"
  shows "\<exists>b. ra_flush a = Inr b \<and> ra_item_len b = t_size T"
proof (cases "ra_len a = 0")
  case True
  thus ?thesis using assms by (simp add: ra_flush_def ra_ok_def)
next
  case False
  hence "ra_items a = Some (ra_list a)" "length (ra_list a) = ra_len a" "ra_item_len a = t_size T"
    using ra_ok_items [OF assms] assms by (auto simp: ra_ok_def)
  thus ?thesis using False by (simp add: ra_flush_def)
qed

text \<open>A copy into a declared array is the array.\<close>
lemma items_dup2_ok:
  assumes "ra_ok T src" "ra_ok T dest"
  shows "\<exists>a. items_dup2 T dest src = Inr a \<and> ra_ok T a \<and> ra_list a = ra_list src \<and> ra_len a = ra_len src"
proof (cases "ra_len src = 0")
  case True
  hence "ra_list src = []" using ra_ok_len [OF assms(1)] by simp
  thus ?thesis using True assms
    by (auto simp: items_dup2_def ra_initialize_def ra_flush_def ra_ok_def ra_list_def split: option.splits)
next
  case False
  let ?n = "ra_len src"
  have s: "ra_items src = Some (ra_list src)" "length (ra_list src) = ?n" using ra_ok_items [OF assms(1)] False by auto
  obtain d1 where d1: "ra_flush dest = Inr d1" "ra_item_len d1 = t_size T" using flush_ok [OF assms(2)] by blast
  have c: "rcalloc T ?n (t_size T) = Some (replicate ?n (t_zero T))"
    using assms(1) by (simp add: rcalloc_def ra_ok_def mult.commute)
  let ?d = "d1\<lparr> ra_len := ?n, ra_items := Some (replicate ?n (t_zero T)) \<rparr>"
  have i: "ra_initialize T dest ?n = Inr ?d" using False d1 c by (simp add: ra_initialize_def)
  from dup2_loop_ok [of 0 ?n "ra_list src" ?d "replicate ?n (t_zero T)"] s
  have "dup2_loop (Some (ra_list src)) 0 ?n ?d = Inr (?d\<lparr> ra_items := Some (ra_list src) \<rparr>)" by simp
  hence "items_dup2 T dest src = Inr (?d\<lparr> ra_items := Some (ra_list src) \<rparr>)" using i s(1) by (simp add: items_dup2_def)
  moreover have "ra_ok T (?d\<lparr> ra_items := Some (ra_list src) \<rparr>)" using s(2) assms(1) d1(2) by (simp add: ra_ok_def)
  moreover have "ra_list (?d\<lparr> ra_items := Some b \<rparr>) = b" for b by (simp add: ra_list_def)
  ultimately show ?thesis by auto
qed

section \<open>Operations on the context of the program\<close>

definition env_ok :: "rsmp_env \<Rightarrow> bool" where
  "env_ok g \<longleftrightarrow> (\<forall>c. re_default g = Some c \<longrightarrow> context_ok c)"

abbreviation the_context :: "rsmp_env \<Rightarrow> rsmp_context" where
  "the_context g \<equiv> snd (rsmp_context_get_global g)"

text \<open>The versions and sites of a context, as lists.\<close>
definition cx_versions :: "rsmp_context \<Rightarrow> struct list" where "cx_versions c = ra_list (cx_RSMP c)"
definition cx_sites :: "rsmp_context \<Rightarrow> struct list" where "cx_sites c = ra_list (cx_siteId c)"
definition cx_sxls :: "rsmp_context \<Rightarrow> struct list" where "cx_sxls c = ra_list (cx_eSXLG c)"

lemma context_lens:
  "context_ok c \<Longrightarrow> ra_len (cx_RSMP c) = length (cx_versions c) \<and> ra_len (cx_siteId c) = length (cx_sites c) \<and>
    ra_len (cx_eSXLG c) = length (cx_sxls c)"
  unfolding context_ok_def array_fits_def cx_versions_def cx_sites_def cx_sxls_def by (metis ra_ok_len)

lemma env_ok_context: "env_ok g \<Longrightarrow> context_ok (the_context g)"
  by (simp add: env_ok_def global_ok)

lemma with_global:
  "with_item g None f = rbind (f (the_context g)) (\<lambda>c. Inr (g\<lparr> re_default := Some c \<rparr>, None))"
  by (cases "f (the_context g)") (auto simp: with_item_def rsmp_context_get_global_def Let_def split: option.splits)

lemma the_context_set [simp]: "the_context (g\<lparr> re_default := Some c \<rparr>) = c"
  by (simp add: rsmp_context_get_global_def)

lemma RSMP_add_ok:
  assumes "env_ok g" "length (cx_versions (the_context g)) + 1 < 2 ^ 31"
  shows "\<exists>c. rsmp_context_RSMP_add g None (Some v) = Inr (g\<lparr> re_default := Some c \<rparr>, None) \<and> context_ok c \<and>
    cx_versions c = cx_versions (the_context g) @ [vers_item (Some v)] \<and> cx_sites c = cx_sites (the_context g) \<and>
    cx_sxls c = cx_sxls (the_context g)"
proof -
  let ?c = "the_context g"
  have c: "context_ok ?c" by (rule env_ok_context [OF assms(1)])
  have "array_fits RSMPs_type [''vers''] (cx_RSMP ?c)" using c by (simp add: context_ok_def)
  from push_fits [OF this, of "vers_item (Some v)"] assms(2) context_lens [OF c] obtain b where
    "ra_push RSMPs_type (cx_RSMP ?c) (vers_item (Some v)) = Inr b" "array_fits RSMPs_type [''vers''] b"
    "ra_list b = ra_list (cx_RSMP ?c) @ [vers_item (Some v)]" by (auto simp: RSMPs_type_def vers_item_def)
  thus ?thesis using c
    by (intro exI [of _ "?c\<lparr> cx_RSMP := b \<rparr>"])
      (simp add: rsmp_context_RSMP_add_def with_global context_ok_def cx_versions_def cx_sites_def cx_sxls_def)
qed

lemma siteId_add_ok:
  assumes "env_ok g" "length (cx_sites (the_context g)) + 1 < 2 ^ 31"
  shows "\<exists>c. rsmp_context_siteId_add g None (Some v) = Inr (g\<lparr> re_default := Some c \<rparr>, None) \<and> context_ok c \<and>
    cx_sites c = cx_sites (the_context g) @ [sId_item (Some v)] \<and> cx_versions c = cx_versions (the_context g) \<and>
    cx_sxls c = cx_sxls (the_context g)"
proof -
  let ?c = "the_context g"
  have c: "context_ok ?c" by (rule env_ok_context [OF assms(1)])
  have "array_fits siteIds_type [''sId''] (cx_siteId ?c)" using c by (simp add: context_ok_def)
  from push_fits [OF this, of "sId_item (Some v)"] assms(2) context_lens [OF c] obtain b where
    "ra_push siteIds_type (cx_siteId ?c) (sId_item (Some v)) = Inr b" "array_fits siteIds_type [''sId''] b"
    "ra_list b = ra_list (cx_siteId ?c) @ [sId_item (Some v)]" by (auto simp: siteIds_type_def sId_item_def)
  thus ?thesis using c
    by (intro exI [of _ "?c\<lparr> cx_siteId := b \<rparr>"])
      (simp add: rsmp_context_siteId_add_def with_global context_ok_def cx_versions_def cx_sites_def cx_sxls_def)
qed

lemma eSXLG_add_ok:
  assumes "env_ok g" "length (cx_sxls (the_context g)) + 1 < 2 ^ 31" "s < 4"
  shows "\<exists>c. rsmp_context_eSXLG_add g None s (Some v) = Inr (g\<lparr> re_default := Some c \<rparr>, None) \<and> context_ok c \<and>
    cx_sxls c = cx_sxls (the_context g) @ [eSXLG_item (Some v) s] \<and> cx_versions c = cx_versions (the_context g) \<and>
    cx_sites c = cx_sites (the_context g)"
proof -
  let ?c = "the_context g"
  have c: "context_ok ?c" by (rule env_ok_context [OF assms(1)])
  have "array_fits eSXLGs_type [''vers'', ''sg''] (cx_eSXLG ?c)" using c by (simp add: context_ok_def)
  from push_fits [OF this, of "eSXLG_item (Some v) s"] assms(2) context_lens [OF c] obtain b where
    "ra_push eSXLGs_type (cx_eSXLG ?c) (eSXLG_item (Some v) s) = Inr b" "array_fits eSXLGs_type [''vers'', ''sg''] b"
    "ra_list b = ra_list (cx_eSXLG ?c) @ [eSXLG_item (Some v) s]" by (auto simp: eSXLGs_type_def eSXLG_item_def)
  thus ?thesis using c assms(3)
    by (intro exI [of _ "?c\<lparr> cx_eSXLG := b \<rparr>"])
      (simp add: rsmp_context_eSXLG_add_def with_global context_ok_def cx_versions_def cx_sites_def cx_sxls_def rsmp_sg_lib_def)
qed

lemma env_ok_set [simp]: "env_ok (g\<lparr> re_default := Some c \<rparr>) = context_ok c" "env_ok (g\<lparr> re_init := b \<rparr>) = env_ok g"
  "re_default (g\<lparr> re_init := b \<rparr>) = re_default g"
  by (simp_all add: env_ok_def)

section \<open>Properties\<close>

lemma with_global_set:
  assumes "env_ok g" "\<And>c. context_ok c \<Longrightarrow> context_ok (f c) \<and> cx_versions (f c) = cx_versions c \<and>
    cx_sites (f c) = cx_sites c \<and> cx_sxls (f c) = cx_sxls c"
  shows "\<exists>c. with_item g None (\<lambda>c. Inr (f c)) = Inr (g\<lparr> re_default := Some c \<rparr>, None) \<and> context_ok c \<and>
    cx_versions c = cx_versions (the_context g) \<and> cx_sites c = cx_sites (the_context g) \<and>
    cx_sxls c = cx_sxls (the_context g)"
  using assms(2) [OF env_ok_context [OF assms(1)]] by (intro exI [of _ "f (the_context g)"]) (simp add: with_global)

lemmas context_set_defs = rsmp_context_SXL_set_def rsmp_context_sId_set_def rsmp_context_ntsOId_set_def
  rsmp_context_cId_set_def rsmp_context_xNId_set_def

lemma context_sets_ok:
  assumes "env_ok g" "h \<in> {rsmp_context_SXL_set g None v, rsmp_context_sId_set g None v, rsmp_context_ntsOId_set g None v,
    rsmp_context_cId_set g None v, rsmp_context_xNId_set g None v}"
  shows "\<exists>c. h = Inr (g\<lparr> re_default := Some c \<rparr>, None) \<and> context_ok c \<and>
    cx_versions c = cx_versions (the_context g) \<and> cx_sites c = cx_sites (the_context g) \<and>
    cx_sxls c = cx_sxls (the_context g)"
  using assms(2) with_global_set [OF assms(1), of "\<lambda>c. c\<lparr> cx_SXL := v \<rparr>"]
    with_global_set [OF assms(1), of "\<lambda>c. c\<lparr> cx_sId := v \<rparr>"] with_global_set [OF assms(1), of "\<lambda>c. c\<lparr> cx_ntsOId := v \<rparr>"]
    with_global_set [OF assms(1), of "\<lambda>c. c\<lparr> cx_cId := v \<rparr>"] with_global_set [OF assms(1), of "\<lambda>c. c\<lparr> cx_xNId := v \<rparr>"]
  by (auto simp: context_set_defs context_ok_def cx_versions_def cx_sites_def cx_sxls_def)

text \<open>The labels that come before those without an entry.\<close>
definition known_labels :: "string list" where "known_labels = map the (take 34 rsmp_fields_tab)"

lemma from_lib:
  "rsmp_field_from_lib lib = (if lib \<in> set known_labels
    then Inr (length (takeWhile (\<lambda>l. l \<noteq> lib) known_labels)) else Inl Null_deref)"
  by (simp add: rsmp_field_from_lib_def rsmp_fields_tab_def known_labels_def)

lemma lib_search:
  "field_lib_search ts lib i = Inr j \<Longrightarrow>
    i \<le> j \<and> j \<le> i + length ts \<and> (if j = i + length ts then None \<notin> set ts else ts ! (j - i) = Some lib)"
proof (induction ts arbitrary: i)
  case (Cons t ts)
  show ?case
  proof (cases "t = Some lib")
    case True
    with Cons.prems show ?thesis by auto
  next
    case False
    with Cons.prems have s: "field_lib_search ts lib (i + 1) = Inr j" "t \<noteq> None"
      by (auto split: option.splits if_splits)
    from Cons.IH [OF s(1)] s(2) show ?thesis by (auto simp: nth_Cons' split: if_splits)
  qed
qed simp

lemma from_lib_get:
  assumes "rsmp_field_from_lib lib = Inr i"
  shows "rsmp_field_lib_get i = Some lib"
proof -
  have "None \<in> set rsmp_fields_tab" by (simp add: rsmp_fields_tab_def)
  with lib_search [OF assms [unfolded rsmp_field_from_lib_def]] show ?thesis
    by (auto simp: rsmp_field_lib_get_def split: if_splits)
qed

text \<open>One option on a context with room for one more version and site.\<close>
lemma context_option_ok:
  assumes "env_ok g" "length (cx_versions (the_context g)) + 1 < 2 ^ 31" "length (cx_sites (the_context g)) + 1 < 2 ^ 31"
  shows "case context_option g None b a of
      Inl e \<Rightarrow> e = Null_deref \<and> CHR '':'' \<in> set a \<and> takeWhile (\<lambda>c. c \<noteq> CHR '':'') a \<notin> set known_labels
    | Inr ((g1, item1), b1, ret) \<Rightarrow>
        item1 = None \<and> env_ok g1 \<and> (ret = E_no_error \<or> ret = E_config) \<and>
        length (cx_versions (the_context g1)) \<le> length (cx_versions (the_context g)) + 1 \<and>
        length (cx_sites (the_context g1)) \<le> length (cx_sites (the_context g)) + 1"
proof -
  let ?l = "takeWhile (\<lambda>c. c \<noteq> CHR '':'') a" and ?v = "drop (length (takeWhile (\<lambda>c. c \<noteq> CHR '':'') a) + 1) a"
  show ?thesis
  proof (cases "CHR '':'' \<in> set a")
    case False
    thus ?thesis using assms by (simp add: context_option_def)
  next
    case in_a: True
    show ?thesis
    proof (cases "rsmp_field_from_lib ?l")
      case (Inl e)
      thus ?thesis using in_a by (auto simp: context_option_def Let_def from_lib split: if_splits)
    next
      case (Inr i)
      note g = from_lib_get [OF Inr]
      obtain c where v: "rsmp_context_RSMP_add g None (Some ?v) = Inr (g\<lparr> re_default := Some c \<rparr>, None)" "context_ok c"
        "length (cx_versions c) = length (cx_versions (the_context g)) + 1" "cx_sites c = cx_sites (the_context g)"
        using RSMP_add_ok [OF assms(1,2), of ?v] by auto
      obtain d where s: "rsmp_context_siteId_add g None (Some ?v) = Inr (g\<lparr> re_default := Some d \<rparr>, None)" "context_ok d"
        "length (cx_sites d) = length (cx_sites (the_context g)) + 1" "cx_versions d = cx_versions (the_context g)"
        using siteId_add_ok [OF assms(1,3), of ?v] by auto
      have "env_ok (g\<lparr> re_default := Some d \<rparr>)" using s(2) by simp
      from context_sets_ok [OF this, of "rsmp_context_sId_set (g\<lparr> re_default := Some d \<rparr>) None (Some ?v)" "Some ?v"]
      obtain e where se: "rsmp_context_sId_set (g\<lparr> re_default := Some d \<rparr>) None (Some ?v) = Inr (g\<lparr> re_default := Some e \<rparr>, None)"
        "context_ok e" "cx_versions e = cx_versions d" "cx_sites e = cx_sites d" by auto
      note st = context_sets_ok [OF assms(1), of "rsmp_context_SXL_set g None (Some ?v)" "Some ?v"]
        context_sets_ok [OF assms(1), of "rsmp_context_ntsOId_set g None (Some ?v)" "Some ?v"]
        context_sets_ok [OF assms(1), of "rsmp_context_cId_set g None (Some ?v)" "Some ?v"]
        context_sets_ok [OF assms(1), of "rsmp_context_xNId_set g None (Some ?v)" "Some ?v"]
      consider "?l = ''vers''" | "?l = ''sId''" | "?l \<in> {''xNId'', ''SXL'', ''ntsOId'', ''cId''}"
        | "?l \<notin> {''vers'', ''sId'', ''xNId'', ''SXL'', ''ntsOId'', ''cId''}" by blast
      thus ?thesis
      proof cases
        case 1
        thus ?thesis using in_a Inr g v by (simp add: context_option_def Let_def)
      next
        case 2
        thus ?thesis using in_a Inr g s se by (simp add: context_option_def Let_def)
      next
        case 3
        thus ?thesis using in_a Inr g st by (auto simp: context_option_def Let_def)
      next
        case 4
        thus ?thesis using in_a Inr g assms by (simp add: context_option_def Let_def)
      qed
    qed
  qed
qed

lemma context_options_ok:
  assumes "env_ok g" "length (cx_versions (the_context g)) + length args < 2 ^ 31"
    "length (cx_sites (the_context g)) + length args < 2 ^ 31"
  shows "case context_options g None b args of
      Inl e \<Rightarrow> e = Null_deref \<and>
        (\<exists>a \<in> set args. CHR '':'' \<in> set a \<and> takeWhile (\<lambda>c. c \<noteq> CHR '':'') a \<notin> set known_labels)
    | Inr ((g1, item1), ret) \<Rightarrow> item1 = None \<and> env_ok g1 \<and> (ret = E_no_error \<or> ret = E_config)"
  using assms
proof (induction args arbitrary: g b)
  case (Cons a as)
  have len: "length (cx_versions (the_context g)) + 1 < 2 ^ 31" "length (cx_sites (the_context g)) + 1 < 2 ^ 31"
    using Cons.prems by auto
  note o = context_option_ok [OF Cons.prems(1) len, where b = b and a = a]
  show ?case
  proof (cases "context_option g None b a")
    case (Inl e)
    thus ?thesis using o by auto
  next
    case (Inr r)
    obtain g1 item1 b1 ret where r: "r = ((g1, item1), b1, ret)" by (cases r) auto
    have k: "item1 = None" "env_ok g1" "ret = E_no_error \<or> ret = E_config"
      "length (cx_versions (the_context g1)) \<le> length (cx_versions (the_context g)) + 1"
      "length (cx_sites (the_context g1)) \<le> length (cx_sites (the_context g)) + 1"
      using o Inr r by auto
    show ?thesis
    proof (cases "ret = E_no_error")
      case True
      have "length (cx_versions (the_context g1)) + length as < 2 ^ 31" "length (cx_sites (the_context g1)) + length as < 2 ^ 31"
        using k(4,5) Cons.prems by auto
      from Cons.IH [OF k(2) this, where b = b1] show ?thesis using Inr r True k(1)
        by (cases "context_options g1 None b1 as") auto
    next
      case False
      thus ?thesis using Inr r k by simp
    qed
  qed
qed simp

text \<open>The options of the RSMP context, read from the command line, never leave a context whose
  arrays are broken: they are all taken over, or the first that cannot be parsed is reported.  A
  label is looked up in a table with missing entries, though: a label that is not among the first
  34, such as the label of the versions itself, runs into the comparison with a null pointer.\<close>
lemma rsmp_context_options:
  assumes "env_ok g" "length (cx_versions (the_context g)) + length args < 2 ^ 31"
    and "length (cx_sites (the_context g)) + length args < 2 ^ 31"
  shows "(case rsmp_context_from_str g None args of
      Inl e \<Rightarrow> e = Null_deref \<and>
        (\<exists>a \<in> set args. CHR '':'' \<in> set a \<and> takeWhile (\<lambda>c. c \<noteq> CHR '':'') a \<notin> set known_labels)
    | Inr ((g1, item1), ret) \<Rightarrow> item1 = None \<and> env_ok g1 \<and> (ret = E_no_error \<or> ret = E_config)) \<and>
    rsmp_context_from_str g None ((''vers:'' @ v) # args) = Inl Null_deref"
  using context_options_ok [OF assms, where b = False]
  by (simp add: rsmp_context_from_str_def context_option_def Let_def from_lib known_labels_def rsmp_fields_tab_def)

definition fresh_env :: rsmp_env where "fresh_env = \<lparr> re_default = None, re_init = False \<rparr>"

lemma fresh_env_ok: "env_ok fresh_env" "cx_versions (the_context fresh_env) = []" "cx_sites (the_context fresh_env) = []"
  by (simp_all add: env_ok_def fresh_env_def rsmp_context_get_global_def cx_versions_def cx_sites_def ra_list_def
      ra_declare_def zero_array_def rsmp_context_zero_def Let_def)

lemma rsmp_context_options_witness:
  "rsmp_context_from_str fresh_env None [''vers:3.1.5'', ''sId:A''] = Inl Null_deref"
proof -
  have "rsmp_context_from_str fresh_env None ((''vers:'' @ ''3.1.5'') # [''sId:A'']) = Inl Null_deref"
    by (rule conjunct2 [OF rsmp_context_options]) (simp_all add: fresh_env_ok)
  thus ?thesis by simp
qed

text \<open>The three steps of the completion, each for what is still empty.\<close>
definition fill :: "bool \<Rightarrow> rsmp_env \<Rightarrow> (rsmp_env \<times> rsmp_context option) run \<Rightarrow> (rsmp_env \<times> rsmp_context option) run" where
  "fill full g r = (if full then Inr (g, None) else r)"

lemma fill_versions:
  assumes "context_ok c"
  shows "\<exists>c2. fill (cx_versions c \<noteq> []) (g\<lparr> re_default := Some c \<rparr>)
        (rsmp_context_RSMP_add (g\<lparr> re_default := Some c \<rparr>) None (Some RSMP_VERS_DEFAULT)) = Inr (g\<lparr> re_default := Some c2 \<rparr>, None) \<and>
    context_ok c2 \<and> cx_versions c2 = (if cx_versions c = [] then [vers_item (Some ''3.2.1'')] else cx_versions c) \<and>
    cx_sites c2 = cx_sites c \<and> cx_sxls c2 = cx_sxls c"
proof (cases "cx_versions c = []")
  case True
  thus ?thesis using RSMP_add_ok [of "g\<lparr> re_default := Some c \<rparr>" RSMP_VERS_DEFAULT] assms
    by (simp add: RSMP_VERS_DEFAULT_def fill_def)
next
  case False
  thus ?thesis using assms by (intro exI [of _ c]) (simp add: fill_def)
qed

lemma fill_sites:
  assumes "context_ok c"
  shows "\<exists>c2. fill (cx_sites c \<noteq> []) (g\<lparr> re_default := Some c \<rparr>)
        (rsmp_context_siteId_add (g\<lparr> re_default := Some c \<rparr>) None (Some SITEID_SID_DEFAULT)) = Inr (g\<lparr> re_default := Some c2 \<rparr>, None) \<and>
    context_ok c2 \<and> cx_sites c2 = (if cx_sites c = [] then [sId_item (Some ''CLIENT_SVMS'')] else cx_sites c) \<and>
    cx_versions c2 = cx_versions c \<and> cx_sxls c2 = cx_sxls c"
proof (cases "cx_sites c = []")
  case True
  thus ?thesis using siteId_add_ok [of "g\<lparr> re_default := Some c \<rparr>" SITEID_SID_DEFAULT] assms
    by (simp add: SITEID_SID_DEFAULT_def fill_def)
next
  case False
  thus ?thesis using assms by (intro exI [of _ c]) (simp add: fill_def)
qed

lemma fill_sxls:
  assumes "context_ok c"
  shows "\<exists>c2. (if cx_sxls c \<noteq> [] then Inr (g\<lparr> re_default := Some c \<rparr>)
        else eSXLG_adds (g\<lparr> re_default := Some c \<rparr>) eSXLG_default) = Inr (g\<lparr> re_default := Some c2 \<rparr>) \<and>
    context_ok c2 \<and> cx_versions c2 = cx_versions c \<and> cx_sites c2 = cx_sites c \<and>
    cx_sxls c2 = (if cx_sxls c = [] then [eSXLG_item (Some ''1.0.0'') 0, eSXLG_item (Some ''0.5.2'') 1] else cx_sxls c)"
proof (cases "cx_sxls c = []")
  case True
  obtain a where a: "rsmp_context_eSXLG_add (g\<lparr> re_default := Some c \<rparr>) None 0 (Some ''1.0.0'') = Inr (g\<lparr> re_default := Some a \<rparr>, None)"
    "context_ok a" "cx_sxls a = [eSXLG_item (Some ''1.0.0'') 0]" "cx_versions a = cx_versions c" "cx_sites a = cx_sites c"
    using eSXLG_add_ok [of "g\<lparr> re_default := Some c \<rparr>" 0 "''1.0.0''"] assms True by auto
  obtain d where d: "rsmp_context_eSXLG_add (g\<lparr> re_default := Some a \<rparr>) None 1 (Some ''0.5.2'') = Inr (g\<lparr> re_default := Some d \<rparr>, None)"
    "context_ok d" "cx_sxls d = cx_sxls a @ [eSXLG_item (Some ''0.5.2'') 1]" "cx_versions d = cx_versions a" "cx_sites d = cx_sites a"
    using eSXLG_add_ok [of "g\<lparr> re_default := Some a \<rparr>" 1 "''0.5.2''"] a by auto
  show ?thesis using True a d by (intro exI [of _ d]) (simp add: eSXLG_default_def)
next
  case False
  thus ?thesis using assms by (intro exI [of _ c]) simp
qed

lemma initialize_fills:
  assumes "\<not> re_init g" "context_ok (the_context g)"
  shows "rsmp_context_initialize g =
    rbind (fill (cx_versions (the_context g) \<noteq> []) (g\<lparr> re_default := Some (the_context g) \<rparr>)
        (rsmp_context_RSMP_add (g\<lparr> re_default := Some (the_context g) \<rparr>) None (Some RSMP_VERS_DEFAULT))) (\<lambda>(g2, x).
      rbind (fill (cx_sites (the_context g) \<noteq> []) g2 (rsmp_context_siteId_add g2 None (Some SITEID_SID_DEFAULT))) (\<lambda>(g3, y).
      rbind (if cx_sxls (the_context g) \<noteq> [] then Inr g3 else eSXLG_adds g3 eSXLG_default) (\<lambda>g4. Inr (g4\<lparr> re_init := True \<rparr>))))"
proof -
  have gg: "rsmp_context_get_global g = (g\<lparr> re_default := Some (the_context g) \<rparr>, the_context g)"
    by (auto simp: rsmp_context_get_global_def Let_def split: option.splits)
  show ?thesis
    using assms(1) context_lens [OF assms(2)] unfolding rsmp_context_initialize_def
    by (subst gg) (simp add: fill_def)
qed

text \<open>C35. Completing the context of the program fills in the version, the site and the two SXL groups
  by default, each only where nothing was set, keeps what was set, and a second call changes
  nothing.\<close>
theorem rsmp_context_completed:
  assumes "env_ok g" "\<not> re_init g"
  shows "\<exists>g1. rsmp_context_initialize g = Inr g1 \<and> env_ok g1 \<and> rsmp_context_initialize g1 = Inr g1 \<and>
    (let c = the_context g; c1 = the_context g1
     in cx_versions c1 = (if cx_versions c = [] then [vers_item (Some ''3.2.1'')] else cx_versions c) \<and>
        cx_sites c1 = (if cx_sites c = [] then [sId_item (Some ''CLIENT_SVMS'')] else cx_sites c) \<and>
        cx_sxls c1 = (if cx_sxls c = [] then [eSXLG_item (Some ''1.0.0'') 0, eSXLG_item (Some ''0.5.2'') 1]
          else cx_sxls c))"
proof -
  have c: "context_ok (the_context g)" by (rule env_ok_context [OF assms(1)])
  from fill_versions [OF c, of g] obtain c2 where
    c2: "fill (cx_versions (the_context g) \<noteq> []) (g\<lparr> re_default := Some (the_context g) \<rparr>)
        (rsmp_context_RSMP_add (g\<lparr> re_default := Some (the_context g) \<rparr>) None (Some RSMP_VERS_DEFAULT))
      = Inr (g\<lparr> re_default := Some c2 \<rparr>, None)" "context_ok c2"
    "cx_versions c2 = (if cx_versions (the_context g) = [] then [vers_item (Some ''3.2.1'')] else cx_versions (the_context g))"
    "cx_sites c2 = cx_sites (the_context g)" "cx_sxls c2 = cx_sxls (the_context g)" by blast
  from fill_sites [OF c2(2), of g] obtain c3 where
    c3: "fill (cx_sites c2 \<noteq> []) (g\<lparr> re_default := Some c2 \<rparr>)
        (rsmp_context_siteId_add (g\<lparr> re_default := Some c2 \<rparr>) None (Some SITEID_SID_DEFAULT)) = Inr (g\<lparr> re_default := Some c3 \<rparr>, None)"
    "context_ok c3" "cx_sites c3 = (if cx_sites c2 = [] then [sId_item (Some ''CLIENT_SVMS'')] else cx_sites c2)"
    "cx_versions c3 = cx_versions c2" "cx_sxls c3 = cx_sxls c2" by blast
  from fill_sxls [OF c3(2), of g] obtain c4 where
    c4: "(if cx_sxls c3 \<noteq> [] then Inr (g\<lparr> re_default := Some c3 \<rparr>)
        else eSXLG_adds (g\<lparr> re_default := Some c3 \<rparr>) eSXLG_default) = Inr (g\<lparr> re_default := Some c4 \<rparr>)"
    "context_ok c4" "cx_versions c4 = cx_versions c3" "cx_sites c4 = cx_sites c3"
    "cx_sxls c4 = (if cx_sxls c3 = [] then [eSXLG_item (Some ''1.0.0'') 0, eSXLG_item (Some ''0.5.2'') 1] else cx_sxls c3)" by blast
  let ?g4 = "g\<lparr> re_default := Some c4, re_init := True \<rparr>"
  have "rsmp_context_initialize g = Inr ?g4"
    unfolding initialize_fills [OF assms(2) c] c2(1)
    using c3(1) c4(1) by (simp only: rbind.simps prod.case c2(4) c2(5) c3(5))
  moreover have "rsmp_context_initialize ?g4 = Inr ?g4" by (simp add: rsmp_context_initialize_def)
  moreover have "the_context ?g4 = c4" by (simp add: rsmp_context_get_global_def)
  moreover have "env_ok ?g4" using c4(2) by (simp add: env_ok_def)
  ultimately show ?thesis using c2(3-5) c3(3-5) c4(3-5) by (simp only: Let_def) simp
qed

theorem rsmp_context_completed_witness:
  "\<exists>g1. rsmp_context_initialize fresh_env = Inr g1 \<and> cx_versions (the_context g1) = [vers_item (Some ''3.2.1'')] \<and>
    length (cx_sxls (the_context g1)) = 2"
proof -
  have "\<not> re_init fresh_env" by (simp add: fresh_env_def)
  moreover have "cx_sxls (the_context fresh_env) = []"
    by (simp add: fresh_env_def rsmp_context_get_global_def cx_sxls_def ra_list_def ra_declare_def zero_array_def
      rsmp_context_zero_def Let_def)
  ultimately show ?thesis using rsmp_context_completed [OF fresh_env_ok(1)] fresh_env_ok(2) by (auto simp: Let_def)
qed

text \<open>A context of one's own cannot be made: the values by default are written into memory that was
  never allocated, or the second SXL group behind the only new item.\<close>
lemma dup2_undeclared:
  assumes "ra_ok T src" "0 < ra_len src"
  shows "items_dup2 T zero_array src = Inl Write_oob"
proof -
  obtain n where n: "ra_len src = Suc n" using assms(2) by (cases "ra_len src") auto
  have "ra_items src = Some (ra_list src)" "length (ra_list src) = Suc n" using ra_ok_items [OF assms] n by auto
  thus ?thesis using n
    by (simp add: items_dup2_def ra_initialize_def ra_flush_def zero_array_def rcalloc_def ra_put_def)
qed

lemma rsmp_context_new_faults:
  assumes "re_default g = Some d" "context_ok d"
  shows "rsmp_context_new g = Inl Write_oob"
proof -
  have o: "ra_ok RSMPs_type (cx_RSMP d)" "ra_ok eSXLGs_type (cx_eSXLG d)" using assms(2) by (auto simp: context_ok_def array_fits_def)
  have p: "\<exists>a. ra_push RSMPs_type zero_array x = Inr a" for x
    by (simp add: ra_push_def ra_new_item_def ra_extend_def rrealloc_def zero_array_def RSMPs_type_def ra_put_def size_minus_def Let_def)
  have w: "write_items (snd (ra_new_item eSXLGs_type zero_array)) [x, y] (fst (ra_new_item eSXLGs_type zero_array)) =
      Inl Write_oob" for x y
    by (simp add: ra_new_item_def ra_extend_def rrealloc_def zero_array_def eSXLGs_type_def ra_put_def size_minus_def Let_def)
  show ?thesis
    using assms(1) o p [of "vers_item (Some RSMP_VERS_DEFAULT)"] w
    by (auto simp: rsmp_context_new_def rsmp_context_set_default_def rsmp_context_zero_def dup2_undeclared
        rsmp_array_RSMPs_dup2_def rsmp_array_eSXLGs_dup2_def eSXLG_default_def Let_def split_def)
qed

end
