(* ===== verification/RsmpRoundtrip.thy ===== *)
theory RsmpRoundtrip
  imports RsmpJson
begin

text \<open>
  Writing a message along its description and reading it back along the same description: what the
  values must satisfy, what is kept, and the lemmas that carry the property of the messages.
\<close>

section \<open>Values\<close>

definition uuid_ok :: "uuids \<Rightarrow> uuid \<Rightarrow> bool" where
  "uuid_ok U i \<longleftrightarrow> u_parse U (u_text U i) = Some i \<and> u_text U i \<noteq> [] \<and> no_nul (u_text U i)"

definition ts_ok :: "times \<Rightarrow> horodate \<Rightarrow> bool" where
  "ts_ok T d \<longleftrightarrow> t_secs T (t_text T d) = fst d \<and> 0 < fst d \<and> no_nul (t_text T d)"

definition codec_lib :: "field_codec \<Rightarrow> string list" where
  "codec_lib c =
    (case c of
       FC_aS \<Rightarrow> rsmp_aS_lib | FC_aSp \<Rightarrow> rsmp_aSp_lib | FC_ack \<Rightarrow> rsmp_ack_lib | FC_cat \<Rightarrow> rsmp_cat_lib
     | FC_pri \<Rightarrow> rsmp_pri_lib | FC_sS \<Rightarrow> rsmp_sS_lib | FC_age \<Rightarrow> rsmp_age_lib | FC_q \<Rightarrow> rsmp_q_lib | _ \<Rightarrow> [])"

text \<open>The member has the type of the functions.\<close>
definition kind_fits :: "field_codec \<Rightarrow> member \<Rightarrow> bool" where
  "kind_fits c m \<longleftrightarrow>
    (case c of
       FC_mType \<Rightarrow> m = M_mType
     | FC_type \<Rightarrow> is_ok (as_type m)
     | FC_str \<Rightarrow> is_ok (as_str m)
     | FC_uuid \<Rightarrow> is_ok (as_uuid m)
     | FC_ts \<Rightarrow> is_ok (as_ts m)
     | FC_bool \<Rightarrow> is_ok (as_bool m)
     | FC_v \<Rightarrow> is_ok (as_chars m)
     | _ \<Rightarrow> is_ok (as_enum m))"

text \<open>The values that are read back: C strings, identifiers and dates the libraries read back, an
  enumerator of the table; an array of characters may be anything, but is read back only when it is
  empty (\<open>long_value\<close> below).\<close>
definition value_ok :: "'j rsmp_lib \<Rightarrow> field_codec \<Rightarrow> member \<Rightarrow> bool" where
  "value_ok L c m \<longleftrightarrow>
    kind_fits c m \<and>
    (case m of
       M_str s \<Rightarrow> (case s of None \<Rightarrow> True | Some t \<Rightarrow> no_nul t)
     | M_uuid i \<Rightarrow> uuid_ok (r_uuids L) i
     | M_ts d \<Rightarrow> ts_ok (r_times L) d
     | M_enum i \<Rightarrow> i < length (codec_lib c)
     | _ \<Rightarrow> True)"

text \<open>An array of characters that is not empty, and the member a field can be read into: an array of
  characters of a new item was never declared.\<close>
definition long_value :: "member \<Rightarrow> bool" where
  "long_value m = (case m of M_chars d s \<Rightarrow> s \<noteq> [] | _ \<Rightarrow> False)"

definition field_fits :: "field_codec \<Rightarrow> member \<Rightarrow> bool" where
  "field_fits c m \<longleftrightarrow> kind_fits c m \<and> (case m of M_chars d s \<Rightarrow> \<not> d | _ \<Rightarrow> True)"

lemma field_fits_kind: "field_fits c m \<Longrightarrow> kind_fits c m"
  by (simp add: field_fits_def)

text \<open>What reading gives: a write outside the allocation when there is a value, else what is wanted.\<close>
definition outcome :: "bool \<Rightarrow> ('a \<times> bool) run \<Rightarrow> ('a \<Rightarrow> bool) \<Rightarrow> bool" where
  "outcome b r P \<longleftrightarrow> (if b then r = Inl Write_oob else \<exists>x. r = Inr (x, True) \<and> P x)"

lemma outcome_cases [consumes 1, case_names overflow same]:
  assumes "outcome b r P" "b \<Longrightarrow> r = Inl Write_oob \<Longrightarrow> Q" "\<And>x. \<not> b \<Longrightarrow> r = Inr (x, True) \<Longrightarrow> P x \<Longrightarrow> Q"
  shows Q
  using assms unfolding outcome_def by (cases b) auto

lemma outcome_simps [simp]:
  "outcome True r P \<longleftrightarrow> r = Inl Write_oob" "outcome False (Inr (x, True)) P \<longleftrightarrow> P x"
  by (auto simp: outcome_def)

lemma outcome_mono: "outcome b r P \<Longrightarrow> (\<And>x. P x \<Longrightarrow> Q x) \<Longrightarrow> outcome b r Q"
  by (auto simp: outcome_def)

lemma outcome_bind:
  assumes "outcome b r P" "\<And>x. P x \<Longrightarrow> outcome b' (f (x, True)) Q"
  shows "outcome (b \<or> b') (rbind r f) Q"
  using assms(1)
proof (cases rule: outcome_cases)
  case (same x)
  thus ?thesis using assms(2) by simp
qed simp

text \<open>What is read back: a \<open>NULL\<close> text as the empty one, a date to the second.\<close>
definition same_value :: "member \<Rightarrow> member \<Rightarrow> bool" where
  "same_value m m' \<longleftrightarrow>
    (case (m, m') of
       (M_str s, M_str s') \<Rightarrow> s' = Some (case s of None \<Rightarrow> [] | Some t \<Rightarrow> t)
     | (M_ts d, M_ts d') \<Rightarrow> fst d' = fst d
     | (M_chars a s, M_chars b s') \<Rightarrow> s' = s
     | _ \<Rightarrow> m' = m)"

section \<open>One field\<close>

lemma lib_find_get:
  assumes "distinct tab" "[] \<notin> set tab" "i < length tab"
  shows "rsmp_lib_find tab (Some (tab ! i)) = i"
proof -
  have "takeWhile (\<lambda>x. x \<noteq> tab ! i) tab = take i tab"
    using assms(1,3) by (intro takeWhile_eq_take_P_nth) (auto simp: nth_eq_iff_index_eq)
  moreover have "tab ! i \<noteq> []" using assms(2,3) nth_mem by fastforce
  ultimately show ?thesis using assms(3) by (simp add: rsmp_lib_find_def)
qed

interpretation enum_codec: codec "\<lambda>i. lib_get tab i" "\<lambda>s. let i = rsmp_lib_find tab s in if i < length tab then Some i else None"
    "\<lambda>i. distinct tab \<and> [] \<notin> set tab \<and> i < length tab" for tab
  by unfold_locales (auto simp: lib_get_def lib_find_get Let_def)

lemma codec_lib_texts: "distinct (codec_lib c)" "[] \<notin> set (codec_lib c)" "\<forall>t \<in> set (codec_lib c). no_nul t"
  by (cases c; simp add: codec_lib_def rsmp_aS_lib_def rsmp_aSp_lib_def rsmp_ack_lib_def rsmp_cat_lib_def
      rsmp_pri_lib_def rsmp_sS_lib_def rsmp_age_lib_def rsmp_q_lib_def no_nul_def)+

lemma type_find: "rsmp_type_from_string (rsmp_type_to_string t) = Some t"
  "\<exists>s. rsmp_type_to_string t = Some s \<and> no_nul s"
  by (cases t; simp add: rsmp_type_to_string_def rsmp_type_lib_def rsmp_type_from_string_def no_nul_def)+

lemma enum_back:
  assumes "i < length (codec_lib c)"
  shows "enum_decode (codec_lib c) strict (Var_string (lib_get (codec_lib c) i)) j = (i, True)"
proof -
  have "no_nul (codec_lib c ! i)" using codec_lib_texts(3) assms by (meson nth_mem)
  thus ?thesis using lib_find_get [OF codec_lib_texts(1,2) assms] assms by (simp add: enum_decode_def lib_get_def)
qed

lemma var_string_back:
  assumes "rjson_sound J"
  shows "json2vars J (j_type J (j_new_string_len J t)) (j_new_string_len J t) =
    Some (Var_string (Some (case t of None \<Rightarrow> [] | Some s \<Rightarrow> s)))"
  using rjson_soundD(4,5) [OF assms]
  by (simp add: json2vars_def rsmp_var_from_string_len_def rsmp_var_set_string_len_def rsmp_var_new_def)

lemma var_bool_back:
  assumes "rjson_sound J"
  shows "json2vars J (j_type J (j_new_boolean J b)) (j_new_boolean J b) = Some (Var_bool b)"
  using rjson_soundD(7,8) [OF assms]
  by (simp add: json2vars_def rsmp_var_from_bool_def rsmp_var_set_bool_def rsmp_var_new_def)

lemmas encode_defs = mType_encode_def type_encode_def str_encode_def uuid_encode_def ts_encode_def bool_encode_def
  v_encode_def enum_encode_def

lemmas enum_decode_defs = aS_decode_def aSp_decode_def ack_decode_def cat_decode_def pri_decode_def sS_decode_def
  age_decode_def q_decode_def

lemma kind_fitsD:
  assumes "kind_fits c m"
  shows "c = FC_mType \<Longrightarrow> m = M_mType" "c = FC_type \<Longrightarrow> \<exists>t. m = M_type t" "c = FC_str \<Longrightarrow> \<exists>s. m = M_str s"
    "c = FC_uuid \<Longrightarrow> \<exists>i. m = M_uuid i" "c = FC_ts \<Longrightarrow> \<exists>d. m = M_ts d" "c = FC_bool \<Longrightarrow> \<exists>b. m = M_bool b"
    "c = FC_v \<Longrightarrow> \<exists>d s. m = M_chars d s"
    "c \<in> {FC_aS, FC_aSp, FC_ack, FC_cat, FC_pri, FC_sS, FC_age, FC_q, FC_sg} \<Longrightarrow> \<exists>i. m = M_enum i"
  using assms by (auto simp: kind_fits_def as_defs is_ok_iff split: member.splits)

lemma chars_reset: "rbind (ra_initialize char_type (chars_array d s) 0) f = Inr x \<longleftrightarrow>
    (\<exists>a. ra_initialize char_type (chars_array d s) 0 = Inr a \<and> f a = Inr x)"
  "\<exists>a. ra_initialize char_type (chars_array d s) 0 = Inr a"
  by (auto simp: ra_initialize_def ra_flush_def chars_array_def)

text \<open>What a value that fits is written as.\<close>
lemma field_encode_var:
  assumes "value_ok L c m" "c \<noteq> FC_sg"
  shows "\<exists>v. field_encode L c var m = Inr (Some v) \<and> ((\<exists>b. v = Var_bool b) \<or> (\<exists>s. v = Var_string s))"
proof (cases "c = FC_v")
  case True
  then obtain d s where "m = M_chars d s" using assms kind_fitsD(7) [of c m] by (auto simp: value_ok_def)
  thus ?thesis using True by (cases "s = []") (simp_all add: field_encode_def v_encode_def as_chars_def)
next
  case False
  thus ?thesis using assms kind_fitsD [of c m]
    by (cases c) (auto simp: value_ok_def field_encode_def encode_defs as_defs)
qed

lemma enum_codec_fields:
  assumes "c \<in> {FC_aS, FC_aSp, FC_ack, FC_cat, FC_pri, FC_sS, FC_age, FC_q}"
  shows "field_encode L c var (M_enum i) = Inr (enum_encode (codec_lib c) var i)"
    "\<exists>strict. \<forall>v j. field_decode L c v (M_enum j) = Inr (apfst M_enum (enum_decode (codec_lib c) strict v j))"
  using assms by (auto simp: field_encode_def field_decode_def as_enum_def codec_lib_def enum_decode_defs)

text \<open>The variable as it comes back from JSON.\<close>
definition var_back :: "rsmp_var \<Rightarrow> rsmp_var" where
  "var_back v = (case v of Var_string s \<Rightarrow> Var_string (Some (case s of None \<Rightarrow> [] | Some t \<Rightarrow> t)) | _ \<Rightarrow> v)"

lemma var_back_simps [simp]: "var_back (Var_string (Some t)) = Var_string (Some t)"
  "var_back (Var_string None) = Var_string (Some [])" "var_back (Var_bool b) = Var_bool b"
  by (simp_all add: var_back_def)

lemma type_back:
  assumes "type_encode var t = Some v"
  shows "type_decode (var_back v) t0 = (t, True)"
proof -
  obtain u where "rsmp_type_to_string t = Some u" "no_nul u" using type_find(2) by blast
  with type_find(1) [of t] assms show ?thesis by (auto simp: type_encode_def type_decode_def)
qed

lemma v_back:
  assumes "v_encode var [] = Some v"
  shows "v_decode (var_back v) (d, s) = Inr (d, [])"
proof -
  obtain a where "ra_initialize char_type (chars_array d s) 0 = Inr a" using chars_reset(2) by blast
  with assms show ?thesis by (auto simp: v_encode_def v_decode_def)
qed

text \<open>The variable is read back.\<close>
definition decodes :: "'j rsmp_lib \<Rightarrow> field_codec \<Rightarrow> rsmp_var \<Rightarrow> member \<Rightarrow> member \<Rightarrow> bool" where
  "decodes L c v m m1 \<longleftrightarrow>
    (\<exists>m2. field_decode L c (var_back v) m1 = Inr (m2, True) \<and> same_value m m2 \<and> kind_fits c m2)"

lemma decodesI: "field_decode L c (var_back v) m1 = Inr (r, True) \<Longrightarrow> same_value m r \<Longrightarrow> kind_fits c r \<Longrightarrow> decodes L c v m m1"
  by (auto simp: decodes_def)

lemmas codec_defs = field_encode_def field_decode_def as_defs

lemma decode_mType:
  assumes "field_encode L FC_mType var m = Inr (Some v)"
  shows "decodes L FC_mType v M_mType M_mType"
  using assms by (intro decodesI [where r = M_mType])
    (auto simp: codec_defs mType_encode_def mType_decode_def mType_value_def c_text_def same_value_def kind_fits_def)

lemma decode_type:
  assumes "field_encode L FC_type var (M_type t) = Inr (Some v)"
  shows "decodes L FC_type v (M_type t) (M_type e)"
proof -
  have "type_encode var t = Some v" using assms by (simp add: field_encode_def as_type_def)
  from type_back [OF this] show ?thesis
    by (intro decodesI [where r = "M_type t"]) (simp_all add: codec_defs same_value_def kind_fits_def)
qed

lemma decode_str:
  assumes "field_encode L FC_str var (M_str a) = Inr (Some v)" "case a of None \<Rightarrow> True | Some t \<Rightarrow> no_nul t"
  shows "decodes L FC_str v (M_str a) (M_str e)"
proof (cases a)
  case None
  thus ?thesis using assms
    by (intro decodesI [where r = "M_str (Some [])"])
      (auto simp: codec_defs str_encode_def str_decode_def rsmp_str_set_def c_text_def same_value_def kind_fits_def)
next
  case (Some t)
  thus ?thesis using assms
    by (intro decodesI [where r = "M_str a"])
      (auto simp: codec_defs str_encode_def str_decode_def rsmp_str_set_def same_value_def kind_fits_def)
qed

lemma decode_uuid:
  assumes "field_encode L FC_uuid var (M_uuid i) = Inr (Some v)" "uuid_ok (r_uuids L) i"
  shows "decodes L FC_uuid v (M_uuid i) (M_uuid e)"
  using assms by (intro decodesI [where r = "M_uuid i"])
    (auto simp: codec_defs uuid_encode_def uuid_decode_def uuid_ok_def same_value_def kind_fits_def)

lemma decode_ts:
  assumes "field_encode L FC_ts var (M_ts d) = Inr (Some v)" "ts_ok (r_times L) d"
  shows "decodes L FC_ts v (M_ts d) (M_ts e)"
proof -
  have "v = Var_string (Some (t_text (r_times L) d))" using assms(1) by (simp add: codec_defs ts_encode_def)
  thus ?thesis using assms(2)
    by (intro decodesI [where r = "M_ts (str2ZuluHorodate (r_times L) (t_text (r_times L) d))"])
      (simp_all add: codec_defs ts_decode_def ts_ok_def str2ZuluHorodate_def Let_def same_value_def kind_fits_def)
qed

lemma decode_bool:
  assumes "field_encode L FC_bool var (M_bool b) = Inr (Some v)"
  shows "decodes L FC_bool v (M_bool b) (M_bool e)"
  using assms by (intro decodesI [where r = "M_bool b"])
    (auto simp: codec_defs bool_encode_def bool_decode_def same_value_def kind_fits_def)

lemma decode_v:
  assumes "field_encode L FC_v var (M_chars d []) = Inr (Some v)"
  shows "decodes L FC_v v (M_chars d []) (M_chars e s)"
proof -
  have "v_encode var [] = Some v" using assms by (simp add: field_encode_def as_chars_def)
  from v_back [OF this] show ?thesis
    by (intro decodesI [where r = "M_chars e []"]) (simp_all add: codec_defs same_value_def kind_fits_def)
qed

lemma decode_long:
  assumes "field_encode L FC_v var (M_chars d s) = Inr (Some v)" "s \<noteq> []"
  shows "field_decode L FC_v (var_back v) (M_chars False e) = Inl Write_oob"
proof -
  have "v = Var_string (Some s)" using assms by (simp add: codec_defs v_encode_def)
  thus ?thesis using assms(2)
    by (simp add: codec_defs v_decode_def Let_def ra_initialize_def ra_flush_def chars_array_def rcalloc_def
        char_type_def ra_memcpy_def)
qed

lemma decode_enum:
  assumes c: "c \<in> {FC_aS, FC_aSp, FC_ack, FC_cat, FC_pri, FC_sS, FC_age, FC_q}"
    and e: "field_encode L c var (M_enum i) = Inr (Some v)" and n: "i < length (codec_lib c)"
  shows "decodes L c v (M_enum i) (M_enum j)"
proof -
  have "v = Var_string (Some (codec_lib c ! i))"
    using e n enum_codec_fields(1) [OF c, of L var i] by (simp add: enum_encode_def lib_get_def)
  moreover obtain strict where
    "field_decode L c (var_back v) (M_enum j) = Inr (apfst M_enum (enum_decode (codec_lib c) strict (var_back v) j))"
    using enum_codec_fields(2) [OF c] by blast
  moreover have "kind_fits c (M_enum i)" using c by (auto simp: kind_fits_def as_enum_def)
  ultimately show ?thesis using enum_back [OF n, of strict j] n
    by (intro decodesI [where r = "M_enum i"]) (simp_all add: lib_get_def same_value_def)
qed

lemma field_decode_var:
  assumes v: "value_ok L c m" and "c \<noteq> FC_sg" and k1: "kind_fits c m1" and e: "field_encode L c var m = Inr (Some v)"
    and s: "\<not> long_value m"
  shows "decodes L c v m m1"
proof -
  have k: "kind_fits c m" using v by (simp add: value_ok_def)
  note D = kind_fitsD [OF k] kind_fitsD [OF k1]
  consider "c = FC_mType" | "c = FC_type" | "c = FC_str" | "c = FC_uuid" | "c = FC_ts" | "c = FC_bool" | "c = FC_v"
    | "c \<in> {FC_aS, FC_aSp, FC_ack, FC_cat, FC_pri, FC_sS, FC_age, FC_q}"
    using assms(2) by (cases c) simp_all
  thus ?thesis
  proof cases
    case 1 with decode_mType e D(1,9) show ?thesis by metis
  next
    case 2 with decode_type e D(2,10) show ?thesis by metis
  next
    case 3
    moreover from this obtain a b where "m = M_str a" "m1 = M_str b" using D(3,11) by blast
    ultimately show ?thesis using decode_str [of L var a v b] e v by (cases a) (simp_all add: value_ok_def)
  next
    case 4
    moreover from this obtain a b where "m = M_uuid a" "m1 = M_uuid b" using D(4,12) by blast
    ultimately show ?thesis using decode_uuid [of L var a v b] e v by (simp add: value_ok_def)
  next
    case 5
    moreover from this obtain a b where "m = M_ts a" "m1 = M_ts b" using D(5,13) by blast
    ultimately show ?thesis using decode_ts [of L var a v b] e v by (simp add: value_ok_def)
  next
    case 6 with decode_bool e D(6,14) show ?thesis by metis
  next
    case 7
    moreover from this obtain a b d s where "m = M_chars a b" "m1 = M_chars d s" using D(7,15) by blast
    ultimately show ?thesis using decode_v [of L var a v d s] e s by (simp add: long_value_def)
  next
    case 8
    moreover from this obtain i j where "m = M_enum i" "m1 = M_enum j" using D(8,16) by blast
    ultimately show ?thesis using decode_enum [OF 8, of L var i v j] e v by (simp add: value_ok_def)
  qed
qed

lemma field_outcome:
  assumes "value_ok L c m" "c \<noteq> FC_sg" "field_fits c m1" "field_encode L c var m = Inr (Some v)"
  shows "outcome (long_value m) (field_decode L c (var_back v) m1) (\<lambda>m2. same_value m m2 \<and> kind_fits c m2)"
proof (cases "long_value m")
  case True
  then obtain d s where m: "m = M_chars d s" "s \<noteq> []" by (auto simp: long_value_def split: member.splits)
  hence c: "c = FC_v" using assms(1) by (cases c) (auto simp: value_ok_def kind_fits_def as_defs)
  then obtain e where "m1 = M_chars False e"
    using assms(3) kind_fitsD(7) [OF field_fits_kind [OF assms(3)]] by (auto simp: field_fits_def)
  thus ?thesis using decode_long [of L var d s v e] assms(4) m c True by (simp add: outcome_def)
next
  case False
  thus ?thesis using field_decode_var [OF assms(1,2) field_fits_kind [OF assms(3)] assms(4)]
    by (simp add: outcome_def decodes_def)
qed

text \<open>A field goes through JSON.\<close>
lemma field_trip:
  assumes J: "rjson_sound (r_json L)" and v: "value_ok L c m" and c: "c \<noteq> FC_sg"
  shows "\<exists>w obj. field_encode L c var m = Inr (Some w) \<and> json_object_from_var (r_json L) w = Some obj \<and>
    j_type (r_json L) obj \<in> {JT_string, JT_boolean} \<and>
    (\<forall>m1. field_fits c m1 \<longrightarrow> outcome (long_value m) (json_extract_field L (j_type (r_json L) obj) obj c m1)
      (\<lambda>m2. same_value m m2 \<and> kind_fits c m2))"
proof -
  obtain w where w: "field_encode L c var m = Inr (Some w)" "(\<exists>b. w = Var_bool b) \<or> (\<exists>s. w = Var_string s)"
    using field_encode_var [OF v c] by blast
  note d = field_outcome [OF v c _ w(1)]
  show ?thesis using w(2)
  proof
    assume "\<exists>b. w = Var_bool b"
    thus ?thesis using w(1) d var_bool_back [OF J] rjson_soundD(7) [OF J]
      by (auto simp: json_object_from_var_def json_extract_field_def)
  next
    assume "\<exists>s. w = Var_string s"
    thus ?thesis using w(1) d var_string_back [OF J] rjson_soundD(4) [OF J]
      by (auto simp: var_back_def json_object_from_var_def json_extract_field_def)
  qed
qed

section \<open>Messages\<close>

definition m_is_items :: "member \<Rightarrow> bool" where "m_is_items m = (case m of M_items d its \<Rightarrow> True | _ \<Rightarrow> False)"
definition m_items :: "member \<Rightarrow> struct list" where "m_items m = (case m of M_items d its \<Rightarrow> its | _ \<Rightarrow> [])"
definition m_is_table :: "member \<Rightarrow> bool" where "m_is_table m = (case m of M_table d ms \<Rightarrow> True | _ \<Rightarrow> False)"
definition m_table :: "member \<Rightarrow> member list" where "m_table m = (case m of M_table d ms \<Rightarrow> ms | _ \<Rightarrow> [])"

lemma m_cases [simp]:
  "m_is_items (M_items d its)" "m_items (M_items d its) = its" "m_is_table (M_table d ms)" "m_table (M_table d ms) = ms"
  "m_is_items m \<Longrightarrow> \<exists>d. m = M_items d (m_items m)" "m_is_table m \<Longrightarrow> \<exists>d. m = M_table d (m_table m)"
  by (simp_all add: m_is_items_def m_items_def m_is_table_def m_table_def split: member.splits)

text \<open>The member of the message read, as one of a message written along the description: fields of
  the right types, at most \<open>INT_MAX\<close> items, keys that differ.\<close>
fun desc_ok :: "'j rsmp_lib \<Rightarrow> field_desc list \<Rightarrow> struct \<Rightarrow> bool" where
  "desc_ok L [] st \<longleftrightarrow> True"
| "desc_ok L (f # fs) st \<longleftrightarrow>
    fd_lib f \<notin> fd_lib ` set fs \<and> desc_ok L fs st \<and>
    (case map_of st (fd_lib f) of
       None \<Rightarrow> False
     | Some m \<Rightarrow>
         (case f of
            FD_field l c \<Rightarrow> c \<noteq> FC_sg \<and> value_ok L c m
          | FD_array l z ds \<Rightarrow> m_is_items m \<and> length (m_items m) < 2 ^ 31 \<and> (\<forall>it \<in> set (m_items m). desc_ok L ds it)
          | FD_table l z c \<Rightarrow>
              c \<noteq> FC_sg \<and> c \<noteq> FC_v \<and> m_is_table m \<and> length (m_table m) < 2 ^ 31 \<and>
              (\<forall>x \<in> set (m_table m). value_ok L c x)))"

text \<open>Whether a member of the description, or of an item, is an array of characters that is not empty.\<close>
fun has_value :: "field_desc list \<Rightarrow> struct \<Rightarrow> bool" where
  "has_value [] st \<longleftrightarrow> False"
| "has_value (f # fs) st \<longleftrightarrow>
    (case map_of st (fd_lib f) of
       None \<Rightarrow> False
     | Some m \<Rightarrow>
         (case f of
            FD_field l c \<Rightarrow> long_value m
          | FD_array l z ds \<Rightarrow> \<exists>it \<in> set (m_items m). has_value ds it
          | FD_table l z c \<Rightarrow> False)) \<or>
    has_value fs st"

text \<open>A structure the description can be read into: its arrays are declared.\<close>
fun desc_fits :: "field_desc list \<Rightarrow> struct \<Rightarrow> bool" where
  "desc_fits [] st \<longleftrightarrow> True"
| "desc_fits (f # fs) st \<longleftrightarrow>
    desc_fits fs st \<and>
    (case map_of st (fd_lib f) of
       None \<Rightarrow> False
     | Some m \<Rightarrow>
         (case f of
            FD_field l c \<Rightarrow> field_fits c m
          | FD_array l z ds \<Rightarrow> m = M_items True (m_items m) \<and> desc_fits ds z
          | FD_table l z c \<Rightarrow> m = M_table True (m_table m) \<and> field_fits c z))"

text \<open>The same content as far as the description goes.\<close>
fun same_desc :: "field_desc list \<Rightarrow> struct \<Rightarrow> struct \<Rightarrow> bool" where
  "same_desc [] st st' \<longleftrightarrow> True"
| "same_desc (f # fs) st st' \<longleftrightarrow>
    same_desc fs st st' \<and>
    (case map_of st (fd_lib f) of
       None \<Rightarrow> False
     | Some m \<Rightarrow>
         (case map_of st' (fd_lib f) of
            None \<Rightarrow> False
          | Some m' \<Rightarrow>
              (case f of
                 FD_field l c \<Rightarrow> same_value m m'
               | FD_array l z ds \<Rightarrow>
                   m_is_items m' \<and> length (m_items m') = length (m_items m) \<and>
                   (\<forall>i < length (m_items m). same_desc ds (m_items m ! i) (m_items m' ! i))
               | FD_table l z c \<Rightarrow> m_is_table m' \<and> list_all2 same_value (m_table m) (m_table m'))))"

lemma member_set_get [simp]:
  "map_of (member_set st n m) k = (if k = n \<and> map_of st n \<noteq> None then Some m else map_of st k)"
  by (induction st) (auto simp: member_set_def)

lemma items_reset_ok:
  assumes "n < 2 ^ 31"
  shows "items_reset z True old n = Inr (replicate n z)"
  using assms by (auto simp: items_reset_def rsmp_array_initialize_def ra_flush_def rcalloc_def Let_def)

lemma json_length_ok:
  assumes "j_type J arr = JT_array" "j_array_length J arr < 2 ^ 31"
  shows "json_length J arr = Inr (j_array_length J arr)"
proof -
  have "sint (word_of_nat (j_array_length J arr) :: 32 word) = int (j_array_length J arr)"
    using assms(2) by (simp add: signed_of_nat signed_take_bit_int_eq_self)
  thus ?thesis using assms by (simp add: json_length_def scast_eq unsigned_of_nat take_bit_nat_eq_self)
qed

text \<open>An object is read along the description as the structure it was written from, unless that has a
  value; only members of the description change.\<close>
definition reads :: "'j rsmp_lib \<Rightarrow> field_desc list \<Rightarrow> struct \<Rightarrow> 'j \<Rightarrow> bool" where
  "reads L ds st obj \<longleftrightarrow>
    (\<forall>msg. desc_fits ds msg \<longrightarrow> outcome (has_value ds st) (json_extract_fields L obj msg ds)
      (\<lambda>msg'. same_desc ds st msg' \<and> (\<forall>k. k \<notin> fd_lib ` set ds \<longrightarrow> map_of msg' k = map_of msg k)))"

lemma readsD:
  assumes "reads L ds st obj" "\<not> has_value ds st" "desc_fits ds msg"
  obtains msg' where "json_extract_fields L obj msg ds = Inr (msg', True)" "same_desc ds st msg'"
    "\<forall>k. k \<notin> fd_lib ` set ds \<longrightarrow> map_of msg' k = map_of msg k"
  using assms by (auto simp: reads_def outcome_def)

text \<open>What writing along the description has to give: the other keys of the object stay.\<close>
definition writes :: "'j rsmp_lib \<Rightarrow> field_desc list \<Rightarrow> struct \<Rightarrow> bool" where
  "writes L ds st \<longleftrightarrow>
    (\<forall>obj. \<exists>obj'. json_add_fields L obj st ds = Inr (Some obj') \<and>
      (\<forall>k. k \<notin> fd_lib ` set ds \<longrightarrow> j_get (r_json L) obj' k = j_get (r_json L) obj k) \<and>
      (\<forall>x. (\<forall>k \<in> fd_lib ` set ds. j_get (r_json L) x k = j_get (r_json L) obj' k) \<longrightarrow> reads L ds st x))"

lemma items_written:
  assumes J: "rjson_sound (r_json L)" and W: "\<forall>it \<in> set its. writes L ds it"
    and a: "j_type (r_json L) arr = JT_array"
  shows "\<exists>arr'. json_items_loop L its ds arr = Inr (Some arr') \<and> j_type (r_json L) arr' = JT_array \<and>
    j_array_length (r_json L) arr' = j_array_length (r_json L) arr + length its \<and>
    (\<forall>i < j_array_length (r_json L) arr. j_array_get (r_json L) arr' i = j_array_get (r_json L) arr i) \<and>
    (\<forall>i < length its. reads L ds (its ! i) (j_array_get (r_json L) arr' (j_array_length (r_json L) arr + i)))"
  using W a
proof (induction its arbitrary: arr)
  case (Cons it its)
  let ?J = "r_json L" and ?n = "j_array_length (r_json L) arr"
  obtain o1 where o1: "json_add_fields L (j_new_object ?J) it ds = Inr (Some o1)" "reads L ds it o1"
    using Cons.prems(1) unfolding writes_def by (metis list.set_intros(1))
  let ?a = "j_array_add ?J arr o1"
  have t: "j_type ?J ?a = JT_array" by (rule rjson_soundD(11) [OF J Cons.prems(2)])
  obtain arr' where a': "json_items_loop L its ds ?a = Inr (Some arr')" "j_type ?J arr' = JT_array"
    "j_array_length ?J arr' = ?n + 1 + length its"
    "\<forall>i < ?n + 1. j_array_get ?J arr' i = j_array_get ?J ?a i"
    "\<forall>i < length its. reads L ds (its ! i) (j_array_get ?J arr' (?n + 1 + i))"
    using Cons.IH [OF _ t] Cons.prems(1) rjson_soundD(12) [OF J] by auto
  have "reads L ds ((it # its) ! i) (j_array_get ?J arr' (?n + i))" if "i < length (it # its)" for i
    using that a'(4,5) o1(2) rjson_soundD(13) [OF J, of ?n arr o1] by (cases i) (auto simp: add.commute add.left_commute)
  moreover have "\<forall>i < ?n. j_array_get ?J arr' i = j_array_get ?J arr i"
    using a'(4) rjson_soundD(13) [OF J] by auto
  ultimately show ?case using o1(1) a'(1-3) by auto
qed simp

lemma items_read:
  assumes "\<forall>i < length its. reads L ds (its ! i) (j_array_get (r_json L) arr (n + i))" "desc_fits ds z"
  shows "outcome (\<exists>it \<in> set its. has_value ds it) (json_items_extract L arr ds n (replicate (length its) z))
    (\<lambda>its'. length its' = length its \<and> (\<forall>i < length its. same_desc ds (its ! i) (its' ! i)))"
  using assms(1)
proof (induction its arbitrary: n)
  case (Cons it its)
  have m: "outcome (has_value ds it) (json_extract_fields L (j_array_get (r_json L) arr n) z ds) (same_desc ds it)"
    using Cons.prems assms(2) by (fastforce simp: reads_def elim: outcome_mono)
  have "\<forall>i < length its. reads L ds (its ! i) (j_array_get (r_json L) arr (n + 1 + i))"
    using Cons.prems by (metis Suc_eq_plus1 Suc_less_eq add_Suc_right add_Suc length_Cons nth_Cons_Suc)
  from Cons.IH [OF this] have r: "outcome (\<exists>it \<in> set its. has_value ds it)
    (json_items_extract L arr ds (n + 1) (replicate (length its) z))
    (\<lambda>r. length r = length its \<and> (\<forall>i < length its. same_desc ds (its ! i) (r ! i)))" .
  have "\<forall>i < length (it # its). same_desc ds ((it # its) ! i) ((m # r) ! i)"
    if "same_desc ds it m" "\<forall>i < length its. same_desc ds (its ! i) (r ! i)" for m r
    using that by (auto simp: less_Suc_eq_0_disj)
  note same = this
  have "outcome (has_value ds it \<or> (\<exists>it \<in> set its. has_value ds it))
    (json_items_extract L arr ds n (z # replicate (length its) z))
    (\<lambda>its'. length its' = length (it # its) \<and> (\<forall>i < length (it # its). same_desc ds ((it # its) ! i) (its' ! i)))"
    unfolding json_items_extract.simps
  proof (rule outcome_bind [OF m])
    fix m assume m: "same_desc ds it m"
    from r show "outcome (\<exists>it \<in> set its. has_value ds it)
      (case (m, True) of (it1, ok) \<Rightarrow> if \<not> ok then Inr (it1 # replicate (length its) z, False)
        else rbind (json_items_extract L arr ds (n + 1) (replicate (length its) z)) (\<lambda>(its1, ok1). Inr (it1 # its1, ok1)))
      (\<lambda>its'. length its' = length (it # its) \<and> (\<forall>i < length (it # its). same_desc ds ((it # its) ! i) (its' ! i)))"
      by (cases rule: outcome_cases) (use same [OF m] in simp_all)
  qed
  thus ?case by simp
qed simp

lemma table_written:
  assumes J: "rjson_sound (r_json L)" and v: "\<forall>m \<in> set ms. value_ok L c m" and c: "c \<noteq> FC_sg" "c \<noteq> FC_v"
    and a: "j_type (r_json L) arr = JT_array"
  shows "\<exists>arr'. json_table_loop L c var ms arr = Inr (Some arr') \<and> j_type (r_json L) arr' = JT_array \<and>
    j_array_length (r_json L) arr' = j_array_length (r_json L) arr + length ms \<and>
    (\<forall>i < j_array_length (r_json L) arr. j_array_get (r_json L) arr' i = j_array_get (r_json L) arr i) \<and>
    (\<forall>z. field_fits c z \<longrightarrow> (\<exists>ms'. json_table_extract L arr' c (j_array_length (r_json L) arr) (replicate (length ms) z)
       = Inr (ms', True) \<and> list_all2 same_value ms ms'))"
  using v a
proof (induction ms arbitrary: arr var)
  case (Cons m ms)
  let ?J = "r_json L" and ?n = "j_array_length (r_json L) arr"
  obtain w obj where w: "field_encode L c var m = Inr (Some w)" "json_object_from_var ?J w = Some obj"
    and e: "\<forall>m1. field_fits c m1 \<longrightarrow> (\<exists>m2. json_extract_field L (j_type ?J obj) obj c m1 = Inr (m2, True) \<and>
      same_value m m2 \<and> kind_fits c m2)"
  proof -
    have v: "value_ok L c m" using Cons.prems(1) by simp
    hence "\<not> long_value m" using c by (cases m; cases c) (auto simp: value_ok_def kind_fits_def as_defs long_value_def)
    thus ?thesis using field_trip [OF J v c(1), of var] that by (auto simp: outcome_def)
  qed
  let ?a = "j_array_add ?J arr obj"
  have t: "j_type ?J ?a = JT_array" by (rule rjson_soundD(11) [OF J Cons.prems(2)])
  obtain arr' where a': "json_table_loop L c (Some w) ms ?a = Inr (Some arr')" "j_type ?J arr' = JT_array"
    "j_array_length ?J arr' = ?n + 1 + length ms"
    "\<forall>i < ?n + 1. j_array_get ?J arr' i = j_array_get ?J ?a i"
    "\<forall>z. field_fits c z \<longrightarrow> (\<exists>ms'. json_table_extract L arr' c (?n + 1) (replicate (length ms) z) = Inr (ms', True) \<and>
      list_all2 same_value ms ms')"
    using Cons.IH [OF _ t, of "Some w"] Cons.prems(1) rjson_soundD(12) [OF J] by auto
  have g: "j_array_get ?J arr' ?n = obj" using a'(4) rjson_soundD(13) [OF J, of ?n arr obj] by simp
  have "\<exists>ms'. json_table_extract L arr' c ?n (replicate (length (m # ms)) z) = Inr (ms', True) \<and>
      list_all2 same_value (m # ms) ms'" if z: "field_fits c z" for z
  proof -
    obtain m2 where "json_extract_field L (j_type ?J obj) obj c z = Inr (m2, True)" "same_value m m2" using e z by blast
    moreover obtain ms' where "json_table_extract L arr' c (?n + 1) (replicate (length ms) z) = Inr (ms', True)"
      "list_all2 same_value ms ms'" using a'(5) z by blast
    ultimately show ?thesis using g by (intro exI [of _ "m2 # ms'"]) (simp add: Let_def)
  qed
  moreover have "\<forall>i < ?n. j_array_get ?J arr' i = j_array_get ?J arr i"
    using a'(4) rjson_soundD(13) [OF J] by auto
  ultimately show ?case using w a'(1-3) by auto
qed simp

lemma rbind_assoc: "rbind (rbind m g) h = rbind m (\<lambda>x. rbind (g x) h)"
  by (cases m) auto

lemma add_fields_Cons:
  "json_add_fields L obj st (f # fs) =
    rbind (json_add_fields L obj st [f]) (\<lambda>r. case r of None \<Rightarrow> Inr None | Some x \<Rightarrow> json_add_fields L x st fs)"
proof -
  have "rbind m (\<lambda>r. case r of None \<Rightarrow> Inr None | Some x \<Rightarrow> Inr (Some x)) = m" for m :: "'a option run"
    by (cases m; cases "projr m") auto
  thus ?thesis by simp
qed

lemma extract_fields_Cons:
  "json_extract_fields L obj st (f # fs) =
    rbind (json_extract_fields L obj st [f]) (\<lambda>(st1, ok). if ok then json_extract_fields L obj st1 fs else Inr (st1, False))"
proof -
  have c: "rbind (if b then x else y) g = (if b then rbind x g else rbind y g)" for b x y and g :: "_ \<Rightarrow> (struct \<times> bool) run"
    by simp
  show ?thesis
    by (simp add: rbind_assoc Let_def c split_def split: option.split cong: if_cong)
qed

lemma same_desc_cong:
  "(\<And>f. f \<in> set fs \<Longrightarrow> map_of a (fd_lib f) = map_of b (fd_lib f)) \<Longrightarrow> same_desc fs st a = same_desc fs st b"
proof (induction fs)
  case (Cons f fs)
  have "map_of a (fd_lib f) = map_of b (fd_lib f)" by (rule Cons.prems) simp
  moreover have "same_desc fs st a = same_desc fs st b" by (rule Cons.IH) (use Cons.prems in simp)
  ultimately show ?case by (simp only: same_desc.simps desc_fits.simps)
qed simp

lemma desc_fits_cong:
  "(\<And>f. f \<in> set fs \<Longrightarrow> map_of a (fd_lib f) = map_of b (fd_lib f)) \<Longrightarrow> desc_fits fs a = desc_fits fs b"
proof (induction fs)
  case (Cons f fs)
  have "map_of a (fd_lib f) = map_of b (fd_lib f)" by (rule Cons.prems) simp
  moreover have "desc_fits fs a = desc_fits fs b" by (rule Cons.IH) (use Cons.prems in simp)
  ultimately show ?case by (simp only: same_desc.simps desc_fits.simps)
qed simp

lemma reads_Cons:
  assumes "reads L [f] st x" "reads L fs st x" "fd_lib f \<notin> fd_lib ` set fs"
  shows "reads L (f # fs) st x"
  unfolding reads_def
proof (intro allI impI)
  fix msg assume "desc_fits (f # fs) msg"
  hence d: "desc_fits [f] msg" "desc_fits fs msg" by simp_all
  have m1: "outcome (has_value [f] st) (json_extract_fields L x msg [f])
      (\<lambda>m1. same_desc [f] st m1 \<and> (\<forall>k. k \<noteq> fd_lib f \<longrightarrow> map_of m1 k = map_of msg k))"
    using assms(1) d(1) by (auto simp only: reads_def list.set image_insert image_empty singleton_iff)
  have m2: "outcome (has_value fs st) (json_extract_fields L x m1 fs)
      (\<lambda>m2. same_desc (f # fs) st m2 \<and> (\<forall>k. k \<notin> fd_lib ` set (f # fs) \<longrightarrow> map_of m2 k = map_of msg k))"
    if m1: "same_desc [f] st m1" "\<forall>k. k \<noteq> fd_lib f \<longrightarrow> map_of m1 k = map_of msg k" for m1
  proof -
    have "desc_fits fs m1 = desc_fits fs msg" using m1(2) assms(3) by (intro desc_fits_cong) (metis imageI)
    hence "outcome (has_value fs st) (json_extract_fields L x m1 fs)
        (\<lambda>m2. same_desc fs st m2 \<and> (\<forall>k. k \<notin> fd_lib ` set fs \<longrightarrow> map_of m2 k = map_of m1 k))"
      using assms(2) d(2) by (simp add: reads_def)
    thus ?thesis
    proof (rule outcome_mono)
      fix m2 assume m2: "same_desc fs st m2 \<and> (\<forall>k. k \<notin> fd_lib ` set fs \<longrightarrow> map_of m2 k = map_of m1 k)"
      hence "same_desc [f] st m2 = same_desc [f] st m1" using assms(3) by (intro same_desc_cong) simp
      thus "same_desc (f # fs) st m2 \<and> (\<forall>k. k \<notin> fd_lib ` set (f # fs) \<longrightarrow> map_of m2 k = map_of msg k)"
        using m1 m2 by auto
    qed
  qed
  have "has_value (f # fs) st \<longleftrightarrow> has_value [f] st \<or> has_value fs st" by simp
  thus "outcome (has_value (f # fs) st) (json_extract_fields L x msg (f # fs))
      (\<lambda>msg'. same_desc (f # fs) st msg' \<and> (\<forall>k. k \<notin> fd_lib ` set (f # fs) \<longrightarrow> map_of msg' k = map_of msg k))"
    by (subst extract_fields_Cons, simp only:) (rule outcome_bind [OF m1], use m2 in simp)
qed

text \<open>One field is written as a value under its key and read back from it.\<close>
definition head_ok :: "'j rsmp_lib \<Rightarrow> field_desc \<Rightarrow> struct \<Rightarrow> 'j \<Rightarrow> bool" where
  "head_ok L f st v \<longleftrightarrow>
    (\<forall>obj. json_add_fields L obj st [f] = Inr (Some (j_add (r_json L) obj (fd_lib f) v))) \<and>
    (\<forall>x. j_get (r_json L) x (fd_lib f) = Some v \<longrightarrow> reads L [f] st x)"

lemma writes_Cons:
  assumes J: "rjson_sound (r_json L)" and "fd_lib f \<notin> fd_lib ` set fs" "writes L fs st" and h: "head_ok L f st v"
  shows "writes L (f # fs) st"
  unfolding writes_def
proof (intro allI)
  fix obj
  let ?o = "j_add (r_json L) obj (fd_lib f) v"
  obtain o' where o': "json_add_fields L ?o st fs = Inr (Some o')"
    "\<forall>k. k \<notin> fd_lib ` set fs \<longrightarrow> j_get (r_json L) o' k = j_get (r_json L) ?o k"
    "\<forall>x. (\<forall>k \<in> fd_lib ` set fs. j_get (r_json L) x k = j_get (r_json L) o' k) \<longrightarrow> reads L fs st x"
    using assms(3) unfolding writes_def by blast
  have "reads L (f # fs) st x"
    if "\<forall>k \<in> fd_lib ` set (f # fs). j_get (r_json L) x k = j_get (r_json L) o' k" for x
  proof (rule reads_Cons [OF _ _ assms(2)])
    have "j_get (r_json L) x (fd_lib f) = Some v" using that o'(2) assms(2) rjson_soundD(3) [OF J] by simp
    thus "reads L [f] st x" using h by (simp only: head_ok_def)
  qed (use that o'(3) in simp)
  moreover have "json_add_fields L obj st (f # fs) = Inr (Some o')"
    using h by (subst add_fields_Cons) (simp add: head_ok_def o'(1) del: json_add_fields.simps)
  moreover have "\<forall>k. k \<notin> fd_lib ` set (f # fs) \<longrightarrow> j_get (r_json L) o' k = j_get (r_json L) obj k"
    using o'(2) rjson_soundD(3) [OF J] by auto
  ultimately show "\<exists>o'. json_add_fields L obj st (f # fs) = Inr (Some o') \<and>
      (\<forall>k. k \<notin> fd_lib ` set (f # fs) \<longrightarrow> j_get (r_json L) o' k = j_get (r_json L) obj k) \<and>
      (\<forall>x. (\<forall>k \<in> fd_lib ` set (f # fs). j_get (r_json L) x k = j_get (r_json L) o' k) \<longrightarrow> reads L (f # fs) st x)"
    by blast
qed

text \<open>What reading one field comes down to.\<close>
lemma reads_one:
  assumes "j_get (r_json L) x (fd_lib f) = Some v" "j_type (r_json L) v \<noteq> JT_null"
    and "\<And>msg m1. desc_fits [f] msg \<Longrightarrow> map_of msg (fd_lib f) = Some m1 \<Longrightarrow>
      outcome (has_value [f] st) (json_extract_fields L x msg [f])
        (\<lambda>r. \<exists>m2. r = member_set msg (fd_lib f) m2 \<and> (\<forall>msg'. map_of msg' (fd_lib f) = Some m2 \<longrightarrow> same_desc [f] st msg'))"
  shows "reads L [f] st x"
  unfolding reads_def
proof (intro allI impI)
  fix msg assume d: "desc_fits [f] msg"
  then obtain m1 where m1: "map_of msg (fd_lib f) = Some m1" by (auto split: option.splits)
  from assms(3) [OF d m1] show "outcome (has_value [f] st) (json_extract_fields L x msg [f])
      (\<lambda>msg'. same_desc [f] st msg' \<and> (\<forall>k. k \<notin> fd_lib ` set [f] \<longrightarrow> map_of msg' k = map_of msg k))"
  proof (rule outcome_mono)
    fix r assume "\<exists>m2. r = member_set msg (fd_lib f) m2 \<and> (\<forall>msg'. map_of msg' (fd_lib f) = Some m2 \<longrightarrow> same_desc [f] st msg')"
    then obtain m2 where r: "r = member_set msg (fd_lib f) m2"
      "\<forall>msg'. map_of msg' (fd_lib f) = Some m2 \<longrightarrow> same_desc [f] st msg'" by blast
    have "map_of r (fd_lib f) = Some m2" using r(1) m1 by simp
    hence "same_desc [f] st r" using r(2) by blast
    moreover have "\<forall>k. k \<notin> fd_lib ` set [f] \<longrightarrow> map_of r k = map_of msg k" using r(1) by simp
    ultimately show "same_desc [f] st r \<and> (\<forall>k. k \<notin> fd_lib ` set [f] \<longrightarrow> map_of r k = map_of msg k)" ..
  qed
qed

lemma field_head:
  assumes J: "rjson_sound (r_json L)" and m: "map_of st l = Some m" and v: "value_ok L c m" "c \<noteq> FC_sg"
  shows "\<exists>obj. head_ok L (FD_field l c) st obj"
proof -
  let ?J = "r_json L" and ?f = "FD_field l c"
  obtain w obj where w: "field_encode L c None m = Inr (Some w)" "json_object_from_var ?J w = Some obj"
    "j_type ?J obj \<in> {JT_string, JT_boolean}"
    and e: "\<forall>m1. field_fits c m1 \<longrightarrow> outcome (long_value m) (json_extract_field L (j_type ?J obj) obj c m1)
      (\<lambda>m2. same_value m m2 \<and> kind_fits c m2)" using field_trip [OF J v] by blast
  have nt: "j_type ?J obj \<noteq> JT_null" "j_type ?J obj \<noteq> JT_array" "j_type ?J obj \<noteq> JT_object" using w(3) by auto
  have "reads L [?f] st x" if x: "j_get ?J x l = Some obj" for x
  proof (rule reads_one [where v = obj])
    fix msg m1 assume "desc_fits [?f] msg" and m1: "map_of msg (fd_lib ?f) = Some m1"
    hence "field_fits c m1" by simp
    hence o: "outcome (long_value m) (json_extract_field L (j_type ?J obj) obj c m1) (same_value m)"
      using e by (blast intro: outcome_mono)
    have h: "has_value [?f] st = long_value m" using m by simp
    show "outcome (has_value [?f] st) (json_extract_fields L x msg [?f])
        (\<lambda>r. \<exists>m2. r = member_set msg (fd_lib ?f) m2 \<and> (\<forall>msg'. map_of msg' (fd_lib ?f) = Some m2 \<longrightarrow> same_desc [?f] st msg'))"
      using o
    proof (cases rule: outcome_cases)
      case overflow
      thus ?thesis using x nt m1 h by (simp add: rsmp_json_object_get_def member_get_def)
    next
      case (same m2)
      hence "json_extract_fields L x msg [?f] = Inr (member_set msg (fd_lib ?f) m2, True)"
        using x nt m1 by (simp add: rsmp_json_object_get_def member_get_def)
      thus ?thesis using same m h by (auto simp del: json_extract_fields.simps)
    qed
  qed (use x nt in simp_all)
  moreover have "json_add_fields L ob st [?f] = Inr (Some (j_add ?J ob (fd_lib ?f) obj))" for ob
    using m w by (simp add: json_add_field_def json_object_var_add_def member_get_def)
  ultimately have "head_ok L ?f st obj" unfolding head_ok_def fd_lib.simps by blast
  thus ?thesis ..
qed

lemma array_head:
  assumes J: "rjson_sound (r_json L)" and m: "map_of st l = Some (M_items d its)" "length its < 2 ^ 31"
    and W: "\<forall>it \<in> set its. writes L ds it"
  shows "\<exists>obj. head_ok L (FD_array l z ds) st obj"
proof -
  let ?J = "r_json L" and ?f = "FD_array l z ds"
  obtain arr where arr: "json_items_loop L its ds (j_new_array ?J) = Inr (Some arr)" "j_type ?J arr = JT_array"
    "j_array_length ?J arr = length its" "\<forall>i < length its. reads L ds (its ! i) (j_array_get ?J arr (0 + i))"
    using items_written [OF J W rjson_soundD(9) [OF J]] rjson_soundD(10) [OF J] by auto
  note n = json_length_ok [OF arr(2), unfolded arr(3), OF m(2)]
  have "reads L [?f] st x" if x: "j_get ?J x l = Some arr" for x
  proof (rule reads_one [where v = arr])
    fix msg m1 assume "desc_fits [?f] msg" and m1: "map_of msg (fd_lib ?f) = Some m1"
    hence o: "m1 = M_items True (m_items m1)" "desc_fits ds z" by simp_all
    have r: "outcome (\<exists>it \<in> set its. has_value ds it) (json_items_extract L arr ds 0 (replicate (length its) z))
      (\<lambda>r. length r = length its \<and> (\<forall>i < length its. same_desc ds (its ! i) (r ! i)))"
      using items_read [OF arr(4) o(2)] .
    have h: "has_value [?f] st = (\<exists>it \<in> set its. has_value ds it)" using m(1) by simp
    have "json_extract_fields L x msg [?f] = rbind (json_items_extract L arr ds 0 (replicate (length its) z))
        (\<lambda>(r, ok). Inr (member_set msg (fd_lib ?f) (M_items True r), ok))"
      using x m1 arr(2) n items_reset_ok [OF m(2), of z "m_items m1"]
      by (subst (asm) o(1)) (cases "json_items_extract L arr ds 0 (replicate (length its) z)";
          auto simp: rsmp_json_object_get_def member_get_def Let_def)
    note e = this
    from r show "outcome (has_value [?f] st) (json_extract_fields L x msg [?f])
        (\<lambda>r. \<exists>m2. r = member_set msg (fd_lib ?f) m2 \<and> (\<forall>msg'. map_of msg' (fd_lib ?f) = Some m2 \<longrightarrow> same_desc [?f] st msg'))"
    proof (cases rule: outcome_cases)
      case (same r)
      thus ?thesis using e h m(1) by (auto simp del: json_extract_fields.simps)
    qed (simp add: m(1) e del: json_extract_fields.simps)
  qed (use x arr(2) in auto)
  moreover have "json_add_fields L ob st [?f] = Inr (Some (j_add ?J ob (fd_lib ?f) arr))" for ob
    using m arr by (simp add: member_get_def)
  ultimately have "head_ok L ?f st arr" unfolding head_ok_def fd_lib.simps by blast
  thus ?thesis ..
qed

lemma table_head:
  assumes J: "rjson_sound (r_json L)" and m: "map_of st l = Some (M_table d ms)" "length ms < 2 ^ 31"
    and v: "\<forall>x \<in> set ms. value_ok L c x" "c \<noteq> FC_sg" "c \<noteq> FC_v"
  shows "\<exists>obj. head_ok L (FD_table l z c) st obj"
proof -
  let ?J = "r_json L" and ?f = "FD_table l z c"
  obtain arr where arr: "json_table_loop L c None ms (j_new_array ?J) = Inr (Some arr)" "j_type ?J arr = JT_array"
    "j_array_length ?J arr = length ms"
    "\<forall>z. field_fits c z \<longrightarrow> (\<exists>ms'. json_table_extract L arr c 0 (replicate (length ms) z) = Inr (ms', True) \<and>
      list_all2 same_value ms ms')"
    using table_written [OF J v rjson_soundD(9) [OF J], of None] rjson_soundD(10) [OF J] by auto
  note n = json_length_ok [OF arr(2), unfolded arr(3), OF m(2)]
  have "reads L [?f] st x" if x: "j_get ?J x l = Some arr" for x
  proof (rule reads_one [where v = arr])
    fix msg m1 assume "desc_fits [?f] msg" and m1: "map_of msg (fd_lib ?f) = Some m1"
    hence o: "m1 = M_table True (m_table m1)" "field_fits c z" by simp_all
    obtain r where r: "json_table_extract L arr c 0 (replicate (length ms) z) = Inr (r, True)"
      "list_all2 same_value ms r" using arr(4) o(2) by blast
    have "json_extract_table L arr z c m1 = Inr (M_table True r, True)"
      by (subst o(1)) (simp add: json_extract_table_def n items_reset_ok [OF m(2)] r(1))
    thus "outcome (has_value [?f] st) (json_extract_fields L x msg [?f])
        (\<lambda>r. \<exists>m2. r = member_set msg (fd_lib ?f) m2 \<and> (\<forall>msg'. map_of msg' (fd_lib ?f) = Some m2 \<longrightarrow> same_desc [?f] st msg'))"
      using x m1 m(1) arr(2) r(2)
      by (auto simp: rsmp_json_object_get_def member_get_def intro: exI [of _ "M_table True r"])
  qed (use x arr(2) in auto)
  moreover have "json_add_fields L ob st [?f] = Inr (Some (j_add ?J ob (fd_lib ?f) arr))" for ob
    using m arr by (simp add: json_add_table_def member_get_def)
  ultimately have "head_ok L ?f st arr" unfolding head_ok_def fd_lib.simps by blast
  thus ?thesis ..
qed

lemma head_exists:
  assumes J: "rjson_sound (r_json L)" and ok: "desc_ok L (f # fs) st"
    and W: "\<And>l z ds m it. f = FD_array l z ds \<Longrightarrow> map_of st (fd_lib f) = Some m \<Longrightarrow> it \<in> set (m_items m) \<Longrightarrow>
      desc_ok L ds it \<Longrightarrow> writes L ds it"
  shows "\<exists>v. head_ok L f st v"
proof -
  obtain m where m: "map_of st (fd_lib f) = Some m" using ok by (auto split: option.splits)
  show ?thesis
  proof (cases f)
    case (FD_field l c)
    thus ?thesis using field_head [OF J, of st l m c] ok m by simp
  next
    case (FD_array l z ds)
    hence a: "m_is_items m" "length (m_items m) < 2 ^ 31" "\<forall>it \<in> set (m_items m). desc_ok L ds it"
      using ok m by auto
    have "\<forall>it \<in> set (m_items m). writes L ds it" using W [OF FD_array m] a(3) by blast
    moreover obtain d where "m = M_items d (m_items m)" using m_cases(5) [OF a(1)] by blast
    ultimately show ?thesis using array_head [OF J, of st l d "m_items m" ds z] m a(2) FD_array by simp
  next
    case (FD_table l z c)
    hence "c \<noteq> FC_sg" "c \<noteq> FC_v" "m_is_table m" "length (m_table m) < 2 ^ 31" "\<forall>x \<in> set (m_table m). value_ok L c x"
      using ok m by auto
    moreover from this(3) obtain d where "m = M_table d (m_table m)" using m_cases(6) by blast
    ultimately show ?thesis using table_head [OF J, of st l d "m_table m" c z] m FD_table by simp
  qed
qed

text \<open>Every structure that fits its description is read back from what it is written as.\<close>
lemma struct_trip: "rjson_sound (r_json L) \<Longrightarrow> desc_ok L ds st \<Longrightarrow> writes L ds st"
proof (induction L ds st rule: desc_ok.induct)
  case (1 L st)
  thus ?case by (simp add: writes_def reads_def outcome_def)
next
  case (2 L f fs st)
  have fs: "fd_lib f \<notin> fd_lib ` set fs" "writes L fs st" using 2(1,3,4) by auto
  have "\<exists>v. head_ok L f st v"
    by (rule head_exists [OF "2.prems"]) (use "2.IH"(2) "2.prems"(1) in blast)
  thus ?case using writes_Cons [OF "2.prems"(1) fs] by blast
qed

text \<open>What is written is an object with members added.\<close>
lemma fields_added:
  assumes J: "rjson_sound (r_json L)" and "desc_ok L ds st" "ds \<noteq> []" "json_add_fields L obj st ds = Inr (Some x)"
  shows "\<exists>ob k v. x = j_add (r_json L) ob k v"
  using assms(2-4)
proof (induction ds arbitrary: obj)
  case (Cons f fs)
  obtain v where v: "head_ok L f st v" using head_exists [OF J Cons.prems(1)] struct_trip [OF J] by blast
  let ?o = "j_add (r_json L) obj (fd_lib f) v"
  have "json_add_fields L obj st [f] = Inr (Some ?o)" using v by (simp only: head_ok_def)
  hence e: "json_add_fields L obj st (f # fs) = json_add_fields L ?o st fs"
    by (subst add_fields_Cons) (simp del: json_add_fields.simps)
  hence x: "json_add_fields L ?o st fs = Inr (Some x)" using Cons.prems(3) by (simp only:)
  show ?case
  proof (cases "fs = []")
    case True
    with x have "x = ?o" by simp
    thus ?thesis by blast
  next
    case False
    have "desc_ok L fs st" using Cons.prems(1) by simp
    from Cons.IH [OF this False x] show ?thesis .
  qed
qed simp

end
