(* ===== verification/RsmpMessages.thy ===== *)
theory RsmpMessages
  imports RsmpContext RsmpRoundtrip
begin

text \<open>
  Model of \<open>rsmp/messages/*.c\<close> and of the entry points of \<open>rsmp/coder/json.c\<close>: the messages of the
  RSMP protocol, with the description of their fields, their creation, the acknowledgements, and
  their way to a payload and back.  A message is the list of its members in the order of its
  structure; the identifier drawn and the date are arguments of what creates one.
\<close>

section \<open>Structures\<close>

abbreviation z_str :: member where "z_str \<equiv> M_str None"
abbreviation z_uuid :: member where "z_uuid \<equiv> M_uuid uuid_null"
abbreviation z_ts :: member where "z_ts \<equiv> M_ts (0, 0)"
abbreviation z_enum :: member where "z_enum \<equiv> M_enum 0"
abbreviation z_items :: member where "z_items \<equiv> M_items False []"

definition rvs_zero :: struct where
  "rvs_zero = [(''cCI'', z_str), (''n'', z_str), (''v'', M_chars False []), (''age'', z_enum)]"
definition args_zero :: struct where
  "args_zero = [(''cCI'', z_str), (''n'', z_str), (''cO'', z_str), (''v'', M_chars False [])]"
definition sSs_zero :: struct where
  "sSs_zero = [(''sCI'', z_str), (''n'', z_str), (''s'', z_str), (''q'', z_enum), (''uRt'', z_str), (''sOc'', M_bool False)]"

text \<open>The members every addressed message begins with.\<close>
definition msg_head_zero :: struct where
  "msg_head_zero = [(''type'', M_type T_Alarm), (''mId'', z_uuid), (''ntsOId'', z_str), (''xNId'', z_str), (''cId'', z_str)]"

definition rsmp_msg_AggregatedStatusRequest :: struct where
  "rsmp_msg_AggregatedStatusRequest = msg_head_zero @ [(''mType'', M_mType)]"
definition rsmp_msg_AggregatedStatus :: struct where
  "rsmp_msg_AggregatedStatus =
    msg_head_zero @ [(''aSTS'', z_ts), (''fP'', z_str), (''fS'', z_str), (''se'', M_table False []), (''mType'', M_mType)]"
definition rsmp_msg_Alarm :: struct where
  "rsmp_msg_Alarm =
    msg_head_zero @ [(''aCId'', z_str), (''xACId'', z_str), (''xNACId'', z_str), (''aSp'', z_enum), (''ack'', z_enum),
      (''aS'', z_enum), (''sS'', z_enum), (''aTs'', z_ts), (''cat'', z_enum), (''pri'', z_enum), (''rvs'', z_items),
      (''mType'', M_mType)]"
definition rsmp_msg_CommandRequest :: struct where
  "rsmp_msg_CommandRequest = msg_head_zero @ [(''arg'', z_items), (''mType'', M_mType)]"
definition rsmp_msg_CommandResponse :: struct where
  "rsmp_msg_CommandResponse = msg_head_zero @ [(''cTS'', z_ts), (''rvs'', z_items), (''mType'', M_mType)]"
definition rsmp_msg_MessageAck :: struct where
  "rsmp_msg_MessageAck = [(''type'', M_type T_Alarm), (''oMId'', z_uuid), (''mType'', M_mType)]"
definition rsmp_msg_MessageNotAck :: struct where
  "rsmp_msg_MessageNotAck = [(''type'', M_type T_Alarm), (''oMId'', z_uuid), (''rea'', z_str), (''mType'', M_mType)]"
definition rsmp_msg_StatusRequest :: struct where
  "rsmp_msg_StatusRequest = msg_head_zero @ [(''sS'', z_items), (''mType'', M_mType)]"
definition rsmp_msg_StatusResponse :: struct where
  "rsmp_msg_StatusResponse = msg_head_zero @ [(''sTs'', z_ts), (''sS'', z_items), (''mType'', M_mType)]"
definition rsmp_msg_StatusSubscribe :: struct where
  "rsmp_msg_StatusSubscribe = msg_head_zero @ [(''sS'', z_items), (''mType'', M_mType)]"
definition rsmp_msg_StatusUnsubscribe :: struct where
  "rsmp_msg_StatusUnsubscribe = msg_head_zero @ [(''sS'', z_items), (''mType'', M_mType)]"
definition rsmp_msg_StatusUpdate :: struct where
  "rsmp_msg_StatusUpdate = msg_head_zero @ [(''sTs'', z_ts), (''sS'', z_items), (''mType'', M_mType)]"
definition rsmp_msg_Version :: struct where
  "rsmp_msg_Version =
    [(''type'', M_type T_Alarm), (''mId'', z_uuid), (''RSMP'', z_items), (''siteId'', z_items), (''SXL'', z_str),
     (''eSXLG'', z_items), (''mType'', M_mType)]"
definition rsmp_msg_Watchdog :: struct where
  "rsmp_msg_Watchdog = [(''type'', M_type T_Alarm), (''mId'', z_uuid), (''wTs'', z_ts), (''mType'', M_mType)]"

section \<open>Descriptions\<close>

definition f_str :: "string \<Rightarrow> field_desc" where "f_str l = FD_field l FC_str"

definition desc_top :: "field_desc list" where
  "desc_top = [FD_field ''mType'' FC_mType, FD_field ''type'' FC_type]"

definition desc_head :: "field_desc list" where
  "desc_head = desc_top @ [FD_field ''mId'' FC_uuid, f_str ''ntsOId'', f_str ''xNId'', f_str ''cId'']"

definition rsmp_msg_AggregatedStatusRequest_desc :: "field_desc list" where
  "rsmp_msg_AggregatedStatusRequest_desc = desc_head"

definition rsmp_msg_AggregatedStatus_desc :: "field_desc list" where
  "rsmp_msg_AggregatedStatus_desc =
    desc_head @ [FD_field ''aSTS'' FC_ts, f_str ''fP'', f_str ''fS'', FD_table ''se'' (M_bool False) FC_bool]"

definition alarm_rvs_desc :: "field_desc list" where
  "alarm_rvs_desc = [f_str ''n'', FD_field ''v'' FC_v]"

definition rsmp_msg_Alarm_desc :: "field_desc list" where
  "rsmp_msg_Alarm_desc =
    desc_head @ [f_str ''aCId'', f_str ''xACId'', f_str ''xNACId'', FD_field ''aSp'' FC_aSp, FD_field ''ack'' FC_ack,
      FD_field ''aS'' FC_aS, FD_field ''sS'' FC_sS, FD_field ''aTs'' FC_ts, FD_field ''cat'' FC_cat,
      FD_field ''pri'' FC_pri, FD_array ''rvs'' rvs_zero alarm_rvs_desc]"

definition rsmp_msg_arg_desc :: "field_desc list" where
  "rsmp_msg_arg_desc = [f_str ''cCI'', f_str ''n'', f_str ''cO'', FD_field ''v'' FC_v]"

definition rsmp_msg_CommandRequest_desc :: "field_desc list" where
  "rsmp_msg_CommandRequest_desc = desc_head @ [FD_array ''arg'' args_zero rsmp_msg_arg_desc]"

definition rsmp_msg_rvs_desc :: "field_desc list" where
  "rsmp_msg_rvs_desc = [f_str ''cCI'', f_str ''n'', FD_field ''v'' FC_v, FD_field ''age'' FC_age]"

definition rsmp_msg_CommandResponse_desc :: "field_desc list" where
  "rsmp_msg_CommandResponse_desc = desc_head @ [FD_field ''cTS'' FC_ts, FD_array ''rvs'' rvs_zero rsmp_msg_rvs_desc]"

definition rsmp_msg_MessageAck_desc :: "field_desc list" where
  "rsmp_msg_MessageAck_desc = desc_top @ [FD_field ''oMId'' FC_uuid]"

definition rsmp_msg_MessageNotAck_desc :: "field_desc list" where
  "rsmp_msg_MessageNotAck_desc = desc_top @ [FD_field ''oMId'' FC_uuid, f_str ''rea'']"

definition request_sS_desc :: "field_desc list" where "request_sS_desc = [f_str ''sCI'', f_str ''n'']"

definition rsmp_msg_StatusRequest_desc :: "field_desc list" where
  "rsmp_msg_StatusRequest_desc = desc_head @ [FD_array ''sS'' sSs_zero request_sS_desc]"

definition response_sS_desc :: "field_desc list" where
  "response_sS_desc = [f_str ''sCI'', f_str ''n'', f_str ''s'', FD_field ''q'' FC_q]"

definition rsmp_msg_StatusResponse_desc :: "field_desc list" where
  "rsmp_msg_StatusResponse_desc = desc_head @ [FD_field ''sTs'' FC_ts, FD_array ''sS'' sSs_zero response_sS_desc]"

definition subscribe_sS_desc :: "field_desc list" where
  "subscribe_sS_desc = [f_str ''sCI'', f_str ''n'', f_str ''uRt'', FD_field ''sOc'' FC_bool]"

definition rsmp_msg_StatusSubscribe_desc :: "field_desc list" where
  "rsmp_msg_StatusSubscribe_desc = desc_head @ [FD_array ''sS'' sSs_zero subscribe_sS_desc]"

definition unsubscribe_sS_desc :: "field_desc list" where "unsubscribe_sS_desc = [f_str ''sCI'', f_str ''n'']"

definition rsmp_msg_StatusUnsubscribe_desc :: "field_desc list" where
  "rsmp_msg_StatusUnsubscribe_desc = desc_head @ [FD_array ''sS'' sSs_zero unsubscribe_sS_desc]"

definition update_sS_desc :: "field_desc list" where
  "update_sS_desc = [f_str ''sCI'', f_str ''n'', f_str ''s'', FD_field ''q'' FC_q]"

definition rsmp_msg_StatusUpdate_desc :: "field_desc list" where
  "rsmp_msg_StatusUpdate_desc = desc_head @ [FD_field ''sTs'' FC_ts, FD_array ''sS'' sSs_zero update_sS_desc]"

definition rsmp_msg_RSMP_desc :: "field_desc list" where "rsmp_msg_RSMP_desc = [f_str ''vers'']"
definition rsmp_msg_siteId_desc :: "field_desc list" where "rsmp_msg_siteId_desc = [f_str ''sId'']"

definition rsmp_msg_Version_desc :: "field_desc list" where
  "rsmp_msg_Version_desc =
    desc_top @ [FD_field ''mId'' FC_uuid, FD_array ''RSMP'' (vers_item None) rsmp_msg_RSMP_desc,
      FD_array ''siteId'' (sId_item None) rsmp_msg_siteId_desc, f_str ''SXL'']"

definition rsmp_msg_Watchdog_desc :: "field_desc list" where
  "rsmp_msg_Watchdog_desc = desc_top @ [FD_field ''mId'' FC_uuid, FD_field ''wTs'' FC_ts]"

text \<open>The table of messages.  The entries that are commented out are memory of zeros: their type reads
  as that of the alarm, which exists, and their pointers are null.\<close>
record msg_desc =
  md_type :: "msg_type option"
  md_fields :: "field_desc list option"
  md_new :: bool
  md_ack :: bool
  md_callback :: bool

definition active_desc :: "msg_type \<Rightarrow> bool \<Rightarrow> field_desc list \<Rightarrow> msg_desc" where
  "active_desc t ack ds =
    \<lparr> md_type = Some t, md_fields = Some ds, md_new = True, md_ack = ack, md_callback = True \<rparr>"

definition zero_desc :: msg_desc where
  "zero_desc = \<lparr> md_type = Some T_Alarm, md_fields = None, md_new = False, md_ack = False, md_callback = False \<rparr>"

definition rsmp_msg_desc :: "msg_type \<Rightarrow> msg_desc" where
  "rsmp_msg_desc t =
    (case t of
       T_Alarm \<Rightarrow> active_desc t True rsmp_msg_Alarm_desc
     | T_AggregatedStatus \<Rightarrow> active_desc t True rsmp_msg_AggregatedStatus_desc
     | T_AggregatedStatusRequest \<Rightarrow> active_desc t True rsmp_msg_AggregatedStatusRequest_desc
     | T_StatusRequest \<Rightarrow> active_desc t True rsmp_msg_StatusRequest_desc
     | T_StatusResponse \<Rightarrow> active_desc t True rsmp_msg_StatusResponse_desc
     | T_StatusSubscribe \<Rightarrow> active_desc t True rsmp_msg_StatusSubscribe_desc
     | T_StatusUpdate \<Rightarrow> active_desc t True rsmp_msg_StatusUpdate_desc
     | T_StatusUnsubscribe \<Rightarrow> active_desc t True rsmp_msg_StatusUnsubscribe_desc
     | T_CommandRequest \<Rightarrow> active_desc t True rsmp_msg_CommandRequest_desc
     | T_CommandRequestAckIncluded \<Rightarrow> zero_desc
     | T_CommandResponseAckIncluded \<Rightarrow> zero_desc
     | T_StatusResponseAckIncluded \<Rightarrow> zero_desc
     | T_StatusRequestAckIncluded \<Rightarrow> zero_desc
     | T_CommandResponse \<Rightarrow> active_desc t True rsmp_msg_CommandResponse_desc
     | T_MessageAck \<Rightarrow> active_desc t False rsmp_msg_MessageAck_desc
     | T_MessageNotAck \<Rightarrow> active_desc t False rsmp_msg_MessageNotAck_desc
     | T_Version \<Rightarrow> active_desc t True rsmp_msg_Version_desc
     | T_Watchdog \<Rightarrow> active_desc t True rsmp_msg_Watchdog_desc)"

definition rsmp_message_type_get :: "struct \<Rightarrow> msg_type run" where
  "rsmp_message_type_get msg = rbind (member_get msg ''type'') as_type"

definition rsmp_message_is_active :: "msg_type \<Rightarrow> bool" where
  "rsmp_message_is_active t \<longleftrightarrow> md_type (rsmp_msg_desc t) \<noteq> None"

definition rsmp_message_desc_get :: "msg_type \<Rightarrow> msg_desc option" where
  "rsmp_message_desc_get t = (if rsmp_message_is_active t then Some (rsmp_msg_desc t) else None)"

definition rsmp_message_desc_ack_get :: "msg_type \<Rightarrow> bool" where
  "rsmp_message_desc_ack_get t = (if rsmp_message_is_active t then md_ack (rsmp_msg_desc t) else False)"

section \<open>The context in a message\<close>

text \<open>An array of a message as an array of \<open>RsmpArray\<close>.\<close>
definition items_array :: "struct item_type \<Rightarrow> bool \<Rightarrow> struct list \<Rightarrow> struct rarray" where
  "items_array T declared its =
    \<lparr> ra_len = length its, ra_item_len = (if declared then t_size T else 0),
      ra_items = (if its = [] then None else Some its), ra_free = declared \<rparr>"

definition items_copy ::
  "struct item_type \<Rightarrow> (struct rarray \<Rightarrow> struct rarray \<Rightarrow> struct rarray run) \<Rightarrow> struct \<Rightarrow> string \<Rightarrow> struct rarray \<Rightarrow> struct run" where
  "items_copy T dup2 msg lib src =
    rbind (member_get msg lib) (\<lambda>m.
      case m of
        M_items d its \<Rightarrow> rbind (dup2 (items_array T d its) src) (\<lambda>a. Inr (member_set msg lib (M_items d (ra_list a))))
      | _ \<Rightarrow> Inl Wrong_type)"

definition str_copy :: "struct \<Rightarrow> string \<Rightarrow> cstr \<Rightarrow> struct run" where
  "str_copy msg lib v = rbind (member_get msg lib) (\<lambda>m. rbind (as_str m) (\<lambda>s. Inr (member_set msg lib (M_str v))))"

definition context_set_field :: "rsmp_context \<Rightarrow> struct \<Rightarrow> string \<Rightarrow> struct run" where
  "context_set_field item msg l =
    (if l = ''xNId'' then str_copy msg l (cx_xNId item)
     else if l = ''ntsOId'' then str_copy msg l (cx_ntsOId item)
     else if l = ''cId'' then str_copy msg l (cx_cId item)
     else if l = ''SXL'' then str_copy msg l (cx_SXL item)
     else if l = ''RSMP'' then items_copy RSMPs_type rsmp_array_RSMPs_dup2 msg l (cx_RSMP item)
     else if l = ''eSXLG'' then items_copy eSXLGs_type rsmp_array_eSXLGs_dup2 msg l (cx_eSXLG item)
     else if l = ''siteId'' then items_copy siteIds_type rsmp_array_siteIds_dup2 msg l (cx_siteId item)
     else Inr msg)"

fun context_set_fields :: "rsmp_context \<Rightarrow> struct \<Rightarrow> field_desc list \<Rightarrow> struct run" where
  "context_set_fields item msg [] = Inr msg"
| "context_set_fields item msg (f # fs) =
    rbind (context_set_field item msg (fd_lib f)) (\<lambda>msg1. context_set_fields item msg1 fs)"

definition rsmp_context_set :: "struct \<Rightarrow> rsmp_context \<Rightarrow> struct run" where
  "rsmp_context_set msg item =
    rbind (rsmp_message_type_get msg) (\<lambda>t.
      case rsmp_message_desc_get t of
        None \<Rightarrow> Inr msg
      | Some d \<Rightarrow> (case md_fields d of None \<Rightarrow> Inl Null_deref | Some fs \<Rightarrow> context_set_fields item msg fs))"

section \<open>Creation\<close>

text \<open>A message is given its type, an identifier and the context given, or that of the program.\<close>
definition with_context :: "rsmp_env \<Rightarrow> rsmp_context option \<Rightarrow> struct \<Rightarrow> (rsmp_env \<times> struct) run" where
  "with_context g ctx msg =
    (let (g1, c) = (case ctx of None \<Rightarrow> rsmp_context_global_get g | Some c \<Rightarrow> (g, c))
     in rbind (rsmp_context_set msg c) (\<lambda>msg1. Inr (g1, msg1)))"

definition set_type :: "msg_type \<Rightarrow> struct \<Rightarrow> struct" where "set_type t st = member_set st ''type'' (M_type t)"
definition set_mId :: "uuid \<Rightarrow> struct \<Rightarrow> struct" where "set_mId i st = member_set st ''mId'' (M_uuid i)"
definition declare_items :: "string \<Rightarrow> struct \<Rightarrow> struct" where
  "declare_items l st = member_set st l (M_items True [])"

definition rsmp_msg_AggregatedStatusRequest_new where
  "rsmp_msg_AggregatedStatusRequest_new g ctx i =
    with_context g ctx (set_mId i (set_type T_AggregatedStatusRequest rsmp_msg_AggregatedStatusRequest))"

definition rsmp_msg_AggregatedStatus_new where
  "rsmp_msg_AggregatedStatus_new g ctx i now =
    with_context g ctx (member_set (member_set (set_mId i (set_type T_AggregatedStatus rsmp_msg_AggregatedStatus))
      ''aSTS'' (M_ts now)) ''se'' (M_table True (replicate 8 (M_bool False))))"

definition rsmp_msg_Alarm_new where
  "rsmp_msg_Alarm_new g ctx i now =
    with_context g ctx (declare_items ''rvs'' (member_set (set_mId i (set_type T_Alarm rsmp_msg_Alarm)) ''aTs'' (M_ts now)))"

definition rsmp_msg_CommandRequest_new where
  "rsmp_msg_CommandRequest_new g ctx i =
    with_context g ctx (declare_items ''arg'' (set_mId i (set_type T_CommandRequest rsmp_msg_CommandRequest)))"

definition rsmp_msg_CommandResponse_new where
  "rsmp_msg_CommandResponse_new g ctx i now =
    with_context g ctx (declare_items ''rvs''
      (member_set (set_mId i (set_type T_CommandResponse rsmp_msg_CommandResponse)) ''cTS'' (M_ts now)))"

definition rsmp_msg_MessageAck_new :: struct where
  "rsmp_msg_MessageAck_new = set_type T_MessageAck rsmp_msg_MessageAck"

definition rsmp_msg_MessageNotAck_new :: struct where
  "rsmp_msg_MessageNotAck_new = set_type T_MessageNotAck rsmp_msg_MessageNotAck"

definition rsmp_msg_StatusRequest_new where
  "rsmp_msg_StatusRequest_new g ctx i =
    with_context g ctx (declare_items ''sS'' (set_mId i (set_type T_StatusRequest rsmp_msg_StatusRequest)))"

definition rsmp_msg_StatusResponse_new where
  "rsmp_msg_StatusResponse_new g ctx i now =
    with_context g ctx (declare_items ''sS''
      (member_set (set_mId i (set_type T_StatusResponse rsmp_msg_StatusResponse)) ''sTs'' (M_ts now)))"

definition rsmp_msg_StatusSubscribe_new where
  "rsmp_msg_StatusSubscribe_new g ctx i =
    with_context g ctx (declare_items ''sS'' (set_mId i (set_type T_StatusSubscribe rsmp_msg_StatusSubscribe)))"

definition rsmp_msg_StatusUnsubscribe_new where
  "rsmp_msg_StatusUnsubscribe_new g ctx i =
    with_context g ctx (declare_items ''sS'' (set_mId i (set_type T_StatusUnsubscribe rsmp_msg_StatusUnsubscribe)))"

definition rsmp_msg_StatusUpdate_new where
  "rsmp_msg_StatusUpdate_new g ctx i now =
    with_context g ctx (declare_items ''sS''
      (member_set (set_mId i (set_type T_StatusUpdate rsmp_msg_StatusUpdate)) ''sTs'' (M_ts now)))"

definition rsmp_msg_Version_new where
  "rsmp_msg_Version_new g ctx i =
    with_context g ctx (declare_items ''eSXLG'' (declare_items ''siteId'' (declare_items ''RSMP''
      (set_mId i (set_type T_Version rsmp_msg_Version)))))"

definition rsmp_msg_Watchdog_set :: "uuid \<Rightarrow> horodate \<Rightarrow> struct \<Rightarrow> struct" where
  "rsmp_msg_Watchdog_set i now st = member_set (set_mId i (set_type T_Watchdog st)) ''wTs'' (M_ts now)"

definition rsmp_msg_Watchdog_new where
  "rsmp_msg_Watchdog_new g ctx i now =
    with_context g ctx (rsmp_msg_Watchdog_set i now (set_type T_Watchdog rsmp_msg_Watchdog))"

text \<open>The function of the table; null for the entries that are commented out.\<close>
definition msg_desc_new ::
  "msg_type \<Rightarrow> rsmp_env \<Rightarrow> rsmp_context option \<Rightarrow> uuid \<Rightarrow> horodate \<Rightarrow> (rsmp_env \<times> struct) run" where
  "msg_desc_new t g ctx i now =
    (case t of
       T_Alarm \<Rightarrow> rsmp_msg_Alarm_new g ctx i now
     | T_AggregatedStatus \<Rightarrow> rsmp_msg_AggregatedStatus_new g ctx i now
     | T_AggregatedStatusRequest \<Rightarrow> rsmp_msg_AggregatedStatusRequest_new g ctx i
     | T_StatusRequest \<Rightarrow> rsmp_msg_StatusRequest_new g ctx i
     | T_StatusResponse \<Rightarrow> rsmp_msg_StatusResponse_new g ctx i now
     | T_StatusSubscribe \<Rightarrow> rsmp_msg_StatusSubscribe_new g ctx i
     | T_StatusUpdate \<Rightarrow> rsmp_msg_StatusUpdate_new g ctx i now
     | T_StatusUnsubscribe \<Rightarrow> rsmp_msg_StatusUnsubscribe_new g ctx i
     | T_CommandRequest \<Rightarrow> rsmp_msg_CommandRequest_new g ctx i
     | T_CommandResponse \<Rightarrow> rsmp_msg_CommandResponse_new g ctx i now
     | T_MessageAck \<Rightarrow> Inr (g, rsmp_msg_MessageAck_new)
     | T_MessageNotAck \<Rightarrow> Inr (g, rsmp_msg_MessageNotAck_new)
     | T_Version \<Rightarrow> rsmp_msg_Version_new g ctx i
     | T_Watchdog \<Rightarrow> rsmp_msg_Watchdog_new g ctx i now
     | _ \<Rightarrow> Inl Null_deref)"

text \<open>\<open>None\<close> is \<open>_rsmp_msg_no_\<close>.\<close>
definition rsmp_message_new ::
  "rsmp_env \<Rightarrow> rsmp_context option \<Rightarrow> msg_type option \<Rightarrow> uuid \<Rightarrow> horodate \<Rightarrow> (rsmp_env \<times> struct option) run" where
  "rsmp_message_new g ctx t i now =
    (case t of
       None \<Rightarrow> Inr (g, None)
     | Some t' \<Rightarrow> rbind (msg_desc_new t' g ctx i now) (\<lambda>(g1, st). Inr (g1, Some st)))"

text \<open>The memory is released by the function of the table.\<close>
definition rsmp_message_free :: "struct option \<Rightarrow> unit run" where
  "rsmp_message_free msg =
    (case msg of
       None \<Rightarrow> Inr ()
     | Some st \<Rightarrow> rbind (rsmp_message_type_get st) (\<lambda>t. if md_new (rsmp_msg_desc t) then Inr () else Inl Null_deref))"

section \<open>Identifiers and acknowledgements\<close>

text \<open>The types \<open>rsmp_message_mId_cpy\<close> and \<open>rsmp_message_mId2str\<close> know an identifier of.\<close>
definition has_mId :: "msg_type \<Rightarrow> bool" where
  "has_mId t \<longleftrightarrow> t \<in> {T_Alarm, T_AggregatedStatus, T_AggregatedStatusRequest, T_StatusRequest, T_StatusResponse,
    T_StatusSubscribe, T_StatusUpdate, T_StatusUnsubscribe, T_CommandRequest, T_CommandResponse, T_Version, T_Watchdog}"

definition rsmp_message_mId2str :: "uuids \<Rightarrow> struct \<Rightarrow> cstr run" where
  "rsmp_message_mId2str U msg =
    rbind (rsmp_message_type_get msg) (\<lambda>t.
      if has_mId t then rbind (member_get msg ''mId'') (\<lambda>m. rbind (as_uuid m) (\<lambda>i. Inr (Some (u_text U i))))
      else Inr None)"

definition rsmp_message_mId_cpy :: "struct \<Rightarrow> uuid run" where
  "rsmp_message_mId_cpy msg =
    rbind (rsmp_message_type_get msg) (\<lambda>t.
      if has_mId t then rbind (member_get msg ''mId'') as_uuid else Inr uuid_null)"

text \<open>The identifier of a message that asks for an acknowledgement; \<open>None\<close> for the others.\<close>
definition ack_mId :: "struct option \<Rightarrow> uuid option run" where
  "ack_mId msg =
    (case msg of
       None \<Rightarrow> Inl Assert_failed
     | Some st \<Rightarrow>
         rbind (rsmp_message_type_get st) (\<lambda>t.
           if rsmp_message_desc_ack_get t
           then (case md_fields (rsmp_msg_desc t) of
                   None \<Rightarrow> Inr None
                 | Some fs \<Rightarrow>
                     (case rsmp_message_desc_find_field_by_type fs ''mId'' of
                        None \<Rightarrow> Inr None
                      | Some f \<Rightarrow> rbind (member_get st (fd_lib f)) (\<lambda>m. rbind (as_uuid m) (\<lambda>i. Inr (Some i)))))
           else Inr None))"

definition rsmp_msg_MessageAck_to :: "struct option \<Rightarrow> struct option run" where
  "rsmp_msg_MessageAck_to msg =
    rbind (ack_mId msg) (\<lambda>r. Inr (map_option (\<lambda>i. member_set rsmp_msg_MessageAck_new ''oMId'' (M_uuid i)) r))"

text \<open>The reason is the format itself; what it is to be filled with is not looked at.\<close>
definition rsmp_msg_MessageNotAck_to :: "struct option \<Rightarrow> string \<Rightarrow> struct option run" where
  "rsmp_msg_MessageNotAck_to msg rea =
    rbind (ack_mId msg) (\<lambda>r. Inr (map_option (\<lambda>i.
      member_set (member_set rsmp_msg_MessageNotAck_new ''oMId'' (M_uuid i)) ''rea'' (M_str (Some rea))) r))"

text \<open>The response to a command starts with its arguments.\<close>
definition rvs_from_arg :: "struct \<Rightarrow> struct run" where
  "rvs_from_arg arg =
    rbind (member_get arg ''cCI'') (\<lambda>c. rbind (member_get arg ''n'') (\<lambda>n.
      Inr (member_set (member_set rvs_zero ''cCI'' c) ''n'' n)))"

fun rvs_from_args :: "struct list \<Rightarrow> struct list run" where
  "rvs_from_args [] = Inr []"
| "rvs_from_args (a # as) = rbind (rvs_from_arg a) (\<lambda>r. rbind (rvs_from_args as) (\<lambda>rs. Inr (r # rs)))"

definition rsmp_msg_CommandResponse_from_request ::
  "rsmp_env \<Rightarrow> struct option \<Rightarrow> uuid \<Rightarrow> horodate \<Rightarrow> (rsmp_env \<times> struct) run" where
  "rsmp_msg_CommandResponse_from_request g request i now =
    rbind (rsmp_msg_CommandResponse_new g None i now) (\<lambda>(g1, item).
      case request of
        None \<Rightarrow> Inr (g1, item)
      | Some rq \<Rightarrow>
          rbind (member_get rq ''ntsOId'') (\<lambda>a. rbind (member_get rq ''xNId'') (\<lambda>b. rbind (member_get rq ''cId'') (\<lambda>c.
          rbind (member_get rq ''arg'') (\<lambda>m.
            case m of
              M_items d args \<Rightarrow>
                rbind (rvs_from_args args) (\<lambda>rvs.
                  Inr (g1, member_set (member_set (member_set (member_set item ''ntsOId'' a) ''xNId'' b) ''cId'' c)
                    ''rvs'' (M_items True rvs)))
            | _ \<Rightarrow> Inl Wrong_type)))))"

section \<open>Payloads\<close>

definition msg_text :: "'j rsmp_lib \<Rightarrow> struct \<Rightarrow> field_desc list \<Rightarrow> ('j \<Rightarrow> 'j) \<Rightarrow> cstr run" where
  "msg_text L st fs change =
    rbind (json_add_fields L (j_new_object (r_json L)) st fs) (\<lambda>r. Inr (map_option (\<lambda>ob. j_print (r_json L) (change ob)) r))"

text \<open>The SXL groups are added to a text that contains the name of the version message.\<close>
definition rsmp_json_msg2payload :: "'j rsmp_lib \<Rightarrow> struct option \<Rightarrow> cstr run" where
  "rsmp_json_msg2payload L msg =
    (case msg of
       None \<Rightarrow> Inl Assert_failed
     | Some st \<Rightarrow>
         rbind (rsmp_message_type_get st) (\<lambda>t.
           if rsmp_message_is_active t
           then (case md_fields (rsmp_msg_desc t) of
                   None \<Rightarrow> Inr None
                 | Some fs \<Rightarrow>
                     rbind (msg_text L st fs (\<lambda>ob. ob)) (\<lambda>ret. Inr
                       (case ret of
                          None \<Rightarrow> None
                        | Some s \<Rightarrow>
                            if strstr (CHR 0x22 # ''Version'' @ [CHR 0x22]) s
                            then (case add_eSXLG_to_json (r_json L) s of None \<Rightarrow> Some s | Some u \<Rightarrow> Some u)
                            else Some s)))
           else Inr None))"

text \<open>With a value put under a key, in place of the one that is there; that one is deleted first, which
  only changes the order of the members.\<close>
definition rsmp_json_msg2payload_with_inserting_jobj :: "'j rsmp_lib \<Rightarrow> struct option \<Rightarrow> cstr \<Rightarrow> 'j option \<Rightarrow> cstr run" where
  "rsmp_json_msg2payload_with_inserting_jobj L msg key jobj =
    (case msg of
       None \<Rightarrow> Inl Assert_failed
     | Some st \<Rightarrow>
         rbind (rsmp_message_type_get st) (\<lambda>t.
           if rsmp_message_is_active t
           then (case md_fields (rsmp_msg_desc t) of
                   None \<Rightarrow> Inr None
                 | Some fs \<Rightarrow>
                     msg_text L st fs (\<lambda>ob.
                       case (key, jobj) of (Some k, Some v) \<Rightarrow> j_add (r_json L) ob k v | _ \<Rightarrow> ob))
           else Inr None))"

text \<open>When a field cannot be read the message is freed, but the pointer to it is returned.\<close>
datatype received = No_message | Message struct | Freed_message

definition rsmp_json_payload2msg ::
  "'j rsmp_lib \<Rightarrow> rsmp_env \<Rightarrow> rsmp_context option \<Rightarrow> cstr \<Rightarrow> uuid \<Rightarrow> horodate \<Rightarrow> (rsmp_env \<times> received) run" where
  "rsmp_json_payload2msg L g ctx payload i now =
    (case (payload, ctx) of
       (Some text, Some c) \<Rightarrow>
         (case j_parse (r_json L) text of
            None \<Rightarrow> Inr (g, No_message)
          | Some jobj \<Rightarrow>
              if \<not> rsmp_json_mType_check (r_json L) jobj then Inr (g, No_message)
              else (case rsmp_json_extract_type (r_json L) jobj of
                      None \<Rightarrow> Inr (g, No_message)
                    | Some t \<Rightarrow>
                        (case rsmp_message_desc_get t of
                           None \<Rightarrow> Inl Null_deref
                         | Some d \<Rightarrow>
                             rbind (msg_desc_new t g ctx i now) (\<lambda>(g1, msg).
                               case md_fields d of
                                 None \<Rightarrow> Inl Null_deref
                               | Some fs \<Rightarrow>
                                   rbind (json_extract_fields L jobj msg fs) (\<lambda>(msg1, ok).
                                     Inr (g1, if ok then Message msg1 else Freed_message))))))
     | _ \<Rightarrow> Inl Assert_failed)"

end
