(* ===== verification/RsmpTrip.thy ===== *)
theory RsmpTrip
  imports RsmpMessages
begin

text \<open>
  What holds of the messages of RSMP: a new message can be read into, and a message that is sent is
  received with the same content.
\<close>

section \<open>New messages\<close>

definition msg_active :: "msg_type \<Rightarrow> bool" where
  "msg_active t \<longleftrightarrow> md_new (rsmp_msg_desc t)"

definition message_fields :: "msg_type \<Rightarrow> field_desc list" where
  "message_fields t = (case md_fields (rsmp_msg_desc t) of None \<Rightarrow> [] | Some fs \<Rightarrow> fs)"

lemmas msg_zero_defs = msg_head_zero_def rsmp_msg_AggregatedStatusRequest_def rsmp_msg_AggregatedStatus_def
  rsmp_msg_Alarm_def rsmp_msg_CommandRequest_def rsmp_msg_CommandResponse_def rsmp_msg_MessageAck_def
  rsmp_msg_MessageNotAck_def rsmp_msg_StatusRequest_def rsmp_msg_StatusResponse_def rsmp_msg_StatusSubscribe_def
  rsmp_msg_StatusUnsubscribe_def rsmp_msg_StatusUpdate_def rsmp_msg_Version_def rsmp_msg_Watchdog_def

lemmas msg_desc_defs = rsmp_msg_AggregatedStatusRequest_desc_def rsmp_msg_AggregatedStatus_desc_def
  rsmp_msg_Alarm_desc_def rsmp_msg_CommandRequest_desc_def rsmp_msg_CommandResponse_desc_def
  rsmp_msg_MessageAck_desc_def rsmp_msg_MessageNotAck_desc_def rsmp_msg_StatusRequest_desc_def
  rsmp_msg_StatusResponse_desc_def rsmp_msg_StatusSubscribe_desc_def rsmp_msg_StatusUnsubscribe_desc_def
  rsmp_msg_StatusUpdate_desc_def rsmp_msg_Version_desc_def rsmp_msg_Watchdog_desc_def desc_head_def desc_top_def f_str_def

lemmas item_desc_defs = alarm_rvs_desc_def rsmp_msg_arg_desc_def rsmp_msg_rvs_desc_def request_sS_desc_def
  response_sS_desc_def subscribe_sS_desc_def unsubscribe_sS_desc_def update_sS_desc_def rsmp_msg_RSMP_desc_def
  rsmp_msg_siteId_desc_def rvs_zero_def args_zero_def sSs_zero_def vers_item_def sId_item_def

lemmas msg_new_defs = rsmp_msg_AggregatedStatusRequest_new_def rsmp_msg_AggregatedStatus_new_def rsmp_msg_Alarm_new_def
  rsmp_msg_CommandRequest_new_def rsmp_msg_CommandResponse_new_def rsmp_msg_MessageAck_new_def
  rsmp_msg_MessageNotAck_new_def rsmp_msg_StatusRequest_new_def rsmp_msg_StatusResponse_new_def
  rsmp_msg_StatusSubscribe_new_def rsmp_msg_StatusUnsubscribe_new_def rsmp_msg_StatusUpdate_new_def
  rsmp_msg_Version_new_def rsmp_msg_Watchdog_new_def rsmp_msg_Watchdog_set_def

lemma message_fields_simps [simp]:
  "message_fields T_Alarm = rsmp_msg_Alarm_desc" "message_fields T_AggregatedStatus = rsmp_msg_AggregatedStatus_desc"
  "message_fields T_AggregatedStatusRequest = rsmp_msg_AggregatedStatusRequest_desc"
  "message_fields T_StatusRequest = rsmp_msg_StatusRequest_desc" "message_fields T_StatusResponse = rsmp_msg_StatusResponse_desc"
  "message_fields T_StatusSubscribe = rsmp_msg_StatusSubscribe_desc" "message_fields T_StatusUpdate = rsmp_msg_StatusUpdate_desc"
  "message_fields T_StatusUnsubscribe = rsmp_msg_StatusUnsubscribe_desc"
  "message_fields T_CommandRequest = rsmp_msg_CommandRequest_desc"
  "message_fields T_CommandResponse = rsmp_msg_CommandResponse_desc" "message_fields T_MessageAck = rsmp_msg_MessageAck_desc"
  "message_fields T_MessageNotAck = rsmp_msg_MessageNotAck_desc" "message_fields T_Version = rsmp_msg_Version_desc"
  "message_fields T_Watchdog = rsmp_msg_Watchdog_desc"
  by (simp_all add: message_fields_def rsmp_msg_desc_def active_desc_def)

lemma msg_active_iff: "msg_active t \<longleftrightarrow> t \<notin> {T_CommandRequestAckIncluded, T_CommandResponseAckIncluded,
    T_StatusResponseAckIncluded, T_StatusRequestAckIncluded}"
  by (cases t) (simp_all add: msg_active_def rsmp_msg_desc_def active_desc_def zero_desc_def)

lemma is_active [simp]: "rsmp_message_is_active t"
  by (cases t) (simp_all add: rsmp_message_is_active_def rsmp_msg_desc_def active_desc_def zero_desc_def)

lemma active_fields: "msg_active t \<Longrightarrow> md_fields (rsmp_msg_desc t) = Some (message_fields t)"
  by (cases t) (simp_all add: msg_active_def message_fields_def rsmp_msg_desc_def active_desc_def zero_desc_def)

lemma desc_get: "rsmp_message_desc_get t = Some (rsmp_msg_desc t)"
  by (simp add: rsmp_message_desc_get_def)

text \<open>The context of a message: the one given, or that of the program.\<close>
definition used_context :: "rsmp_env \<Rightarrow> rsmp_context option \<Rightarrow> rsmp_context" where
  "used_context g ctx = (case ctx of None \<Rightarrow> the_context g | Some c \<Rightarrow> c)"

lemma with_context_eq:
  "\<exists>g1. with_context g ctx msg = rbind (rsmp_context_set msg (used_context g ctx)) (\<lambda>m. Inr (g1, m))"
proof (cases ctx)
  case None
  thus ?thesis by (intro exI [of _ "fst (rsmp_context_get_global g)"])
    (simp add: with_context_def used_context_def rsmp_context_global_get_def split_def Let_def)
next
  case (Some c)
  thus ?thesis by (intro exI [of _ g]) (simp add: with_context_def used_context_def)
qed

lemma empty_declared [simp]: "0 < t_size T \<Longrightarrow> ra_ok T (items_array T True [])"
  by (simp add: items_array_def ra_ok_def)

lemma items_copy_ok:
  assumes "context_ok c" "map_of msg l = Some (M_items True [])"
  shows "\<exists>its. items_copy RSMPs_type rsmp_array_RSMPs_dup2 msg l (cx_RSMP c) = Inr (member_set msg l (M_items True its))"
    "\<exists>its. items_copy siteIds_type rsmp_array_siteIds_dup2 msg l (cx_siteId c) = Inr (member_set msg l (M_items True its))"
proof -
  have d: "ra_ok RSMPs_type (items_array RSMPs_type True [])" "ra_ok siteIds_type (items_array siteIds_type True [])"
    by (simp_all add: RSMPs_type_def siteIds_type_def)
  have c: "ra_ok RSMPs_type (cx_RSMP c)" "ra_ok siteIds_type (cx_siteId c)"
    using assms(1) by (auto simp: context_ok_def array_fits_def)
  show "\<exists>its. items_copy RSMPs_type rsmp_array_RSMPs_dup2 msg l (cx_RSMP c) = Inr (member_set msg l (M_items True its))"
    using items_dup2_ok [OF c(1) d(1)] assms(2)
    by (auto simp: items_copy_def member_get_def rsmp_array_RSMPs_dup2_def)
  show "\<exists>its. items_copy siteIds_type rsmp_array_siteIds_dup2 msg l (cx_siteId c) = Inr (member_set msg l (M_items True its))"
    using items_dup2_ok [OF c(2) d(2)] assms(2)
    by (auto simp: items_copy_def member_get_def rsmp_array_siteIds_dup2_def)
qed

lemmas type_get_defs = rsmp_message_type_get_def member_get_def as_type_def

lemma head_context:
  assumes "fds = desc_head @ rest" "\<And>f. f \<in> set rest \<Longrightarrow> fd_lib f \<notin> {''xNId'', ''ntsOId'', ''cId'', ''SXL'', ''RSMP'', ''eSXLG'', ''siteId''}"
    and "map_of msg ''ntsOId'' = Some (M_str a)" "map_of msg ''xNId'' = Some (M_str b)" "map_of msg ''cId'' = Some (M_str d)"
  shows "context_set_fields c msg fds =
    Inr (member_set (member_set (member_set msg ''ntsOId'' (M_str (cx_ntsOId c))) ''xNId'' (M_str (cx_xNId c)))
      ''cId'' (M_str (cx_cId c)))"
proof -
  have m: "context_set_fields c st rest = Inr st" for st
    using assms(2) by (induction rest) (auto simp: context_set_field_def)
  have h: "context_set_fields c st (as @ bs) = rbind (context_set_fields c st as) (\<lambda>s. context_set_fields c s bs)" for st as bs
    by (induction as arbitrary: st) (auto simp: rbind_assoc)
  show ?thesis using assms(3-5) m
    by (simp add: assms(1) h desc_head_def desc_top_def f_str_def context_set_field_def str_copy_def member_get_def as_str_def)
qed

lemma context_set_eq:
  assumes "map_of msg ''type'' = Some (M_type t)" "msg_active t"
  shows "rsmp_context_set msg c = context_set_fields c msg (message_fields t)"
  using assms active_fields by (simp add: rsmp_context_set_def type_get_defs desc_get)

text \<open>A new message with the members of an addressed one.\<close>
lemma head_new:
  assumes "message_fields t = desc_head @ rest" "msg_active t" "map_of msg ''type'' = Some (M_type t)"
    and "\<And>f. f \<in> set rest \<Longrightarrow> fd_lib f \<notin> {''xNId'', ''ntsOId'', ''cId'', ''SXL'', ''RSMP'', ''eSXLG'', ''siteId''}"
    and "map_of msg ''ntsOId'' = Some (M_str a)" "map_of msg ''xNId'' = Some (M_str b)" "map_of msg ''cId'' = Some (M_str d)"
    and "desc_fits (message_fields t) msg"
  shows "\<exists>g1 st. with_context g ctx msg = Inr (g1, st) \<and> desc_fits (message_fields t) st"
proof -
  let ?c = "used_context g ctx"
  let ?st = "member_set (member_set (member_set msg ''ntsOId'' (M_str (cx_ntsOId ?c))) ''xNId'' (M_str (cx_xNId ?c)))
      ''cId'' (M_str (cx_cId ?c))"
  have "rsmp_context_set msg ?c = Inr ?st"
    by (simp only: context_set_eq [OF assms(3,2)] head_context [OF assms(1,4-7)])
  with with_context_eq [of g ctx msg] obtain g1 where "with_context g ctx msg = Inr (g1, ?st)" by auto
  moreover have "desc_fits rest ?st = desc_fits rest msg"
    using assms(4) by (intro desc_fits_cong) auto
  hence "desc_fits (message_fields t) ?st"
    using assms(5-8) by (simp add: assms(1) desc_head_def desc_top_def f_str_def field_fits_def kind_fits_def as_defs)
  ultimately show ?thesis by blast
qed

lemmas new_eval = msg_new_defs msg_zero_defs set_type_def set_mId_def declare_items_def member_set_def
lemmas fits_eval = msg_desc_defs item_desc_defs field_fits_def kind_fits_def as_defs

definition head_type :: "msg_type \<Rightarrow> bool" where
  "head_type t \<longleftrightarrow> msg_active t \<and> t \<notin> {T_MessageAck, T_MessageNotAck, T_Version, T_Watchdog}"

lemma head_fields:
  "head_type t \<Longrightarrow> message_fields t = desc_head @ drop 6 (message_fields t) \<and>
    (\<forall>f \<in> set (drop 6 (message_fields t)). fd_lib f \<notin> {''xNId'', ''ntsOId'', ''cId'', ''SXL'', ''RSMP'', ''eSXLG'', ''siteId''})"
  by (cases t) (simp_all add: head_type_def msg_active_iff msg_desc_defs)

lemma head_struct:
  "head_type t \<Longrightarrow> \<exists>msg. (\<forall>g ctx. msg_desc_new t g ctx i now = with_context g ctx msg) \<and>
    map_of msg ''type'' = Some (M_type t) \<and> map_of msg ''ntsOId'' = Some (M_str None) \<and>
    map_of msg ''xNId'' = Some (M_str None) \<and> map_of msg ''cId'' = Some (M_str None) \<and> desc_fits (message_fields t) msg"
  unfolding head_type_def msg_active_iff
  by (cases t; simp add: msg_desc_new_def msg_new_defs; rule exI; rule conjI; (intro allI, rule refl)?;
      simp add: new_eval fits_eval)

lemma new_fits_head:
  assumes "head_type t"
  shows "\<exists>g1 st. msg_desc_new t g ctx i now = Inr (g1, st) \<and> desc_fits (message_fields t) st"
proof -
  obtain msg where msg: "msg_desc_new t g ctx i now = with_context g ctx msg" "map_of msg ''type'' = Some (M_type t)"
    "map_of msg ''ntsOId'' = Some (M_str None)" "map_of msg ''xNId'' = Some (M_str None)"
    "map_of msg ''cId'' = Some (M_str None)" "desc_fits (message_fields t) msg"
    using head_struct [OF assms] by blast
  show ?thesis unfolding msg(1)
    by (rule head_new [OF _ _ msg(2) _ msg(3-6)]) (use head_fields [OF assms] assms in \<open>auto simp: head_type_def\<close>)
qed

lemma new_fits_other:
  assumes "t \<in> {T_MessageAck, T_MessageNotAck, T_Version, T_Watchdog}" "context_ok (used_context g ctx)"
  shows "\<exists>g1 st. msg_desc_new t g ctx i now = Inr (g1, st) \<and> desc_fits (message_fields t) st"
proof -
  let ?c = "used_context g ctx"
  consider "t = T_MessageAck" | "t = T_MessageNotAck" | "t = T_Version" | "t = T_Watchdog" using assms(1) by blast
  thus ?thesis
  proof cases
    case 1 thus ?thesis by (simp add: msg_desc_new_def new_eval fits_eval)
  next
    case 2 thus ?thesis by (simp add: msg_desc_new_def new_eval fits_eval)
  next
    case 3
    let ?m = "declare_items ''eSXLG'' (declare_items ''siteId'' (declare_items ''RSMP''
      (set_mId i (set_type T_Version rsmp_msg_Version))))"
    obtain xs where xs: "items_copy RSMPs_type rsmp_array_RSMPs_dup2 ?m ''RSMP'' (cx_RSMP ?c) =
        Inr (member_set ?m ''RSMP'' (M_items True xs))"
      using items_copy_ok(1) [OF assms(2), of ?m "''RSMP''"] by (auto simp: new_eval)
    let ?m1 = "member_set ?m ''RSMP'' (M_items True xs)"
    obtain ys where ys: "items_copy siteIds_type rsmp_array_siteIds_dup2 ?m1 ''siteId'' (cx_siteId ?c) =
        Inr (member_set ?m1 ''siteId'' (M_items True ys))"
      using items_copy_ok(2) [OF assms(2), of ?m1 "''siteId''"] by (auto simp: new_eval)
    let ?m2 = "member_set (member_set ?m1 ''siteId'' (M_items True ys)) ''SXL'' (M_str (cx_SXL ?c))"
    have t: "map_of ?m ''type'' = Some (M_type T_Version)" by (simp add: new_eval)
    have "map_of (member_set ?m1 ''siteId'' (M_items True ys)) ''SXL'' = Some (M_str None)" by (simp add: new_eval)
    hence "context_set_fields ?c ?m (message_fields T_Version) = Inr ?m2"
      using xs ys by (simp add: msg_desc_defs context_set_field_def str_copy_def member_get_def as_str_def)
    hence "rsmp_context_set ?m ?c = Inr ?m2" by (simp add: context_set_eq [OF t] msg_active_iff)
    moreover have "desc_fits (message_fields T_Version) ?m2" by (simp add: new_eval fits_eval)
    ultimately show ?thesis using 3 with_context_eq [of g ctx ?m]
      by (auto simp: msg_desc_new_def rsmp_msg_Version_new_def)
  next
    case 4
    let ?m = "rsmp_msg_Watchdog_set i now (set_type T_Watchdog rsmp_msg_Watchdog)"
    have t: "map_of ?m ''type'' = Some (M_type T_Watchdog)" by (simp add: new_eval)
    have "rsmp_context_set ?m ?c = Inr ?m"
      by (simp add: context_set_eq [OF t] msg_active_iff msg_desc_defs context_set_field_def)
    moreover have "desc_fits (message_fields T_Watchdog) ?m" by (simp add: new_eval fits_eval)
    ultimately show ?thesis using 4 with_context_eq [of g ctx ?m]
      by (auto simp: msg_desc_new_def rsmp_msg_Watchdog_new_def)
  qed
qed

lemma new_fits:
  assumes "msg_active t" "context_ok (used_context g ctx)"
  shows "\<exists>g1 st. msg_desc_new t g ctx i now = Inr (g1, st) \<and> desc_fits (message_fields t) st"
  using assms new_fits_head [of t] new_fits_other [of t] by (cases "head_type t") (auto simp: head_type_def)

section \<open>A message goes through a payload\<close>

lemma fields_top:
  assumes "msg_active t"
  shows "message_fields t = FD_field ''mType'' FC_mType # FD_field ''type'' FC_type # drop 2 (message_fields t)"
    "''SXLG'' \<notin> fd_lib ` set (message_fields t)"
  using assms by (cases t; simp add: msg_active_iff msg_desc_defs)+

text \<open>The header of a message that is written.\<close>
lemma header_written:
  assumes J: "rjson_sound (r_json L)" and st: "map_of st ''type'' = Some (M_type t)"
    and f: "ds = FD_field ''mType'' FC_mType # FD_field ''type'' FC_type # r"
    and ok: "desc_ok L ds st" and w: "json_add_fields L obj st ds = Inr (Some x)"
  shows "j_get (r_json L) x ''mType'' = Some (j_new_string_len (r_json L) (Some ''rSMsg''))"
    "j_get (r_json L) x ''type'' = Some (j_new_string_len (r_json L) (rsmp_type_to_string t))"
proof -
  let ?J = "r_json L"
  have r: "desc_ok L r st" "''mType'' \<notin> fd_lib ` set r" "''type'' \<notin> fd_lib ` set r"
    using ok by (simp_all add: f del: One_nat_def)
  have m: "map_of st ''mType'' = Some M_mType" using ok by (auto simp: f value_ok_def kind_fits_def split: option.splits)
  define o1 where "o1 = j_add ?J obj ''mType'' (j_new_string_len ?J (Some ''rSMsg''))"
  define o2 where "o2 = j_add ?J o1 ''type'' (j_new_string_len ?J (rsmp_type_to_string t))"
  have e: "json_add_field L obj st ''mType'' FC_mType = Inr (Some o1)" "json_add_field L o1 st ''type'' FC_type = Inr (Some o2)"
    using m st by (simp_all add: json_add_field_def member_get_def field_encode_def encode_defs as_type_def
        json_object_var_add_def json_object_from_var_def mType_value_def o1_def o2_def)
  have "json_add_fields L obj st ds = json_add_fields L o2 st r" by (simp add: f e)
  with w struct_trip [OF J r(1)] have "\<forall>k. k \<notin> fd_lib ` set r \<longrightarrow> j_get ?J x k = j_get ?J o2 k"
    unfolding writes_def by (metis option.inject sum.inject(2))
  thus "j_get ?J x ''mType'' = Some (j_new_string_len ?J (Some ''rSMsg''))"
    "j_get ?J x ''type'' = Some (j_new_string_len ?J (rsmp_type_to_string t))"
    using r(2,3) by (simp_all add: o1_def o2_def rjson_soundD(3) [OF J])
qed

text \<open>The payload of a message is the print of an object that has the members written, and perhaps the
  SXL groups besides.\<close>
lemma payload_written:
  assumes J: "rjson_sound (r_json L)" and t: "msg_active t" and st: "map_of st ''type'' = Some (M_type t)"
    and x: "json_add_fields L (j_new_object (r_json L)) st (message_fields t) = Inr (Some x)" "x = j_add (r_json L) ob k v"
  shows "\<exists>y. rsmp_json_msg2payload L (Some st) = Inr (Some (j_print (r_json L) y)) \<and>
    j_parse (r_json L) (j_print (r_json L) y) = Some y \<and> (\<forall>k. k \<noteq> ''SXLG'' \<longrightarrow> j_get (r_json L) y k = j_get (r_json L) x k)"
proof -
  let ?J = "r_json L"
  have p: "j_parse ?J (j_print ?J x) = Some x" using x(2) rjson_soundD(1) [OF J] by simp
  have m: "rsmp_json_msg2payload L (Some st) = Inr (if strstr (CHR 0x22 # ''Version'' @ [CHR 0x22]) (j_print ?J x)
      then (case add_eSXLG_to_json ?J (j_print ?J x) of None \<Rightarrow> Some (j_print ?J x) | Some u \<Rightarrow> Some u) else Some (j_print ?J x))"
    using st active_fields [OF t] x(1) by (simp add: rsmp_json_msg2payload_def type_get_defs msg_text_def)
  obtain arr where a: "add_eSXLG_to_json ?J (j_print ?J x) = Some (j_print ?J (j_add ?J x ''SXLG'' arr))"
    using p by (simp add: add_eSXLG_to_json_def Let_def)
  show ?thesis
  proof (cases "strstr (CHR 0x22 # ''Version'' @ [CHR 0x22]) (j_print ?J x)")
    case True
    thus ?thesis using m a rjson_soundD(1,3) [OF J] by (intro exI [of _ "j_add ?J x ''SXLG'' arr"]) simp
  next
    case False
    thus ?thesis using m p by (intro exI [of _ x]) simp
  qed
qed

text \<open>The receiver recognises the header and makes a message of the type.\<close>
lemma header_received:
  assumes J: "rjson_sound (r_json L)" and t: "msg_active t" and p: "j_parse (r_json L) text = Some y"
    and h: "j_get (r_json L) y ''mType'' = Some (j_new_string_len (r_json L) (Some ''rSMsg''))"
      "j_get (r_json L) y ''type'' = Some (j_new_string_len (r_json L) (rsmp_type_to_string t))"
    and n: "msg_desc_new t g (Some c) i now = Inr (g1, msg)"
  shows "rsmp_json_payload2msg L g (Some c) (Some text) i now =
    rbind (json_extract_fields L y msg (message_fields t)) (\<lambda>(m, ok). Inr (g1, if ok then Message m else Freed_message))"
proof -
  let ?J = "r_json L"
  have m: "rsmp_json_mType_check ?J y"
    using h(1) rjson_soundD(4,6) [OF J]
    by (simp add: rsmp_json_mType_check_def rsmp_json_key_value_check_def rsmp_json_object_get_def rsmp_mType_check_def
        mType_value_def c_text_def)
  obtain u where u: "rsmp_type_to_string t = Some u" "no_nul u" using type_find(2) by blast
  hence e: "rsmp_json_extract_type ?J y = Some t"
    using h(2) rjson_soundD(4,6) [OF J] type_find(1) [of t]
    by (simp add: rsmp_json_extract_type_def rsmp_json_key_value_check_def rsmp_json_object_get_def)
  show ?thesis using p m e n active_fields [OF t] by (simp add: rsmp_json_payload2msg_def desc_get)
qed

lemma message_outcome:
  assumes J: "rjson_sound (r_json L)" and t: "msg_active t" and st: "map_of st ''type'' = Some (M_type t)"
    and ok: "desc_ok L (message_fields t) st" and c: "context_ok c"
  shows "\<exists>payload. rsmp_json_msg2payload L (Some st) = Inr (Some payload) \<and>
    (if has_value (message_fields t) st
     then rsmp_json_payload2msg L g (Some c) (Some payload) i now = Inl Write_oob
     else \<exists>g1 st'. rsmp_json_payload2msg L g (Some c) (Some payload) i now = Inr (g1, Message st') \<and>
       same_desc (message_fields t) st st')"
proof -
  let ?J = "r_json L"
  obtain x where x: "json_add_fields L (j_new_object ?J) st (message_fields t) = Inr (Some x)"
    using struct_trip [OF J ok] unfolding writes_def by blast
  have "message_fields t \<noteq> []" using fields_top(1) [OF t] by auto
  with fields_added [OF J ok _ x] obtain ob k v where "x = j_add ?J ob k v" by blast
  from payload_written [OF J t st x this] obtain y where
    y: "rsmp_json_msg2payload L (Some st) = Inr (Some (j_print ?J y))" "j_parse ?J (j_print ?J y) = Some y"
      "\<forall>k. k \<noteq> ''SXLG'' \<longrightarrow> j_get ?J y k = j_get ?J x k" by blast
  have "\<forall>k \<in> fd_lib ` set (message_fields t). j_get ?J y k = j_get ?J x k"
    using y(3) fields_top(2) [OF t] by metis
  hence r: "reads L (message_fields t) st y"
    using struct_trip [OF J ok] x unfolding writes_def by (metis option.inject sum.inject(2))
  have "context_ok (used_context g (Some c))" using c by (simp add: used_context_def)
  then obtain g1 msg where n: "msg_desc_new t g (Some c) i now = Inr (g1, msg)" "desc_fits (message_fields t) msg"
    using new_fits [OF t] by blast
  have p: "rsmp_json_payload2msg L g (Some c) (Some (j_print ?J y)) i now =
      rbind (json_extract_fields L y msg (message_fields t)) (\<lambda>(m, ok). Inr (g1, if ok then Message m else Freed_message))"
    using header_received [OF J t y(2) _ _ n(1)] header_written [OF J st fields_top(1) [OF t] ok x] y(3) by simp
  have "outcome (has_value (message_fields t) st) (json_extract_fields L y msg (message_fields t)) (same_desc (message_fields t) st)"
    using r n(2) unfolding reads_def by (blast intro: outcome_mono)
  thus ?thesis by (cases rule: outcome_cases) (use p y(1) in auto)
qed

lemma message_trip:
  assumes "rjson_sound (r_json L)" "msg_active t" "map_of st ''type'' = Some (M_type t)"
    and "desc_ok L (message_fields t) st" "\<not> has_value (message_fields t) st" "context_ok c"
  shows "\<exists>payload g1 st'. rsmp_json_msg2payload L (Some st) = Inr (Some payload) \<and>
    rsmp_json_payload2msg L g (Some c) (Some payload) i now = Inr (g1, Message st') \<and>
    same_desc (message_fields t) st st'"
  using message_outcome [OF assms(1-4,6), of g i now] assms(5) by simp

section \<open>An instance of the libraries\<close>

definition text_type :: "string \<Rightarrow> json_type" where
  "text_type v =
    (case v of
       [] \<Rightarrow> JT_array
     | c # r \<Rightarrow> if c = CHR ''s'' then JT_string else if c = CHR ''b'' then JT_boolean
                else if c = CHR ''a'' then JT_array else JT_object)"

definition text_rjson :: "string rjson" where
  "text_rjson =
    \<lparr> j_parse = j_parse text_json, j_parse_ex = j_parse_ex text_json, j_print = j_print text_json,
      j_new_object = [], j_add = text_add, j_get = text_get, j_new_string = j_new_string text_json,
      j_is_string = j_is_string text_json, j_get_string = (\<lambda>v. Some (c_text (butlast (tl (tl v))))),
      j_new_boolean = j_new_boolean text_json, j_is_boolean = j_is_boolean text_json,
      j_get_boolean = j_get_boolean text_json, j_new_array = [], j_is_array = j_is_array text_json,
      j_array_add = text_array_add, j_array_length = (\<lambda>v. length (text_elems v)),
      j_array_get = (\<lambda>v i. text_elems v ! i), j_type = text_type,
      j_new_string_len = (\<lambda>t. CHR ''s'' # quoted (case t of None \<Rightarrow> [] | Some s \<Rightarrow> s)),
      j_new_int64 = (\<lambda>w. ''n''), j_new_uint64 = (\<lambda>w. ''n''), j_new_double = (\<lambda>b. ''n''), j_get_int64 = (\<lambda>v. 0),
      j_get_double = (\<lambda>v. 0), j_text = (\<lambda>v. butlast (tl (tl v))) \<rparr>"

lemma text_types: "text_type (text_array_add a v) = JT_array" "text_type [] = JT_array" "text_type (CHR ''s'' # s) = JT_string"
  "text_type (CHR ''b'' # s) = JT_boolean"
  by (simp_all add: text_type_def)

lemma text_rjson_sound: "rjson_sound text_rjson"
  unfolding rjson_sound_def text_rjson_def text_json_def json_api.simps rjson.simps
  by (auto simp: text_get_add text_elems_add text_get.simps [of "[]"] text_elems.simps [of "[]"] text_types
      quoted_def nth_append simp del: text_add.simps text_array_add.simps)

definition sample_uuids :: uuids where
  "sample_uuids = \<lparr> u_text = (\<lambda>i. CHR ''u'' # map (\<lambda>b. if b = 0 then CHR ''0'' else CHR ''1'') i),
    u_parse = (\<lambda>s. Some (map (\<lambda>c. if c = CHR ''0'' then 0 else 1) (tl s))) \<rparr>"

definition sample_lib :: "string rsmp_lib" where
  "sample_lib = \<lparr> r_json = text_rjson, r_times = times_unary, r_uuids = sample_uuids \<rparr>"

section \<open>Properties\<close>

text \<open>C4. A message of any of the types the program knows is serialised, and what the peer makes of the
  payload depends on one thing.  When no value (the array of characters \<open>v\<close> of an argument, of the
  answer to a command or of an alarm) has a character, the peer receives the same content: the
  payload parses, is recognised by its header, and every field, every item of its arrays and every
  element of its tables is read back, whatever the context of the peer puts into a new message.  The
  version message, whose text gets the SXL groups added, is no exception.  When a value has one, in
  whatever item, the peer writes outside the memory it allocated.\<close>
theorem rsmp_message_roundtrip:
  assumes J: "rjson_sound (r_json L)" and t: "msg_active t" and st: "map_of st ''type'' = Some (M_type t)"
    and ok: "desc_ok L (message_fields t) st" and c: "context_ok c"
  shows "\<exists>payload. rsmp_json_msg2payload L (Some st) = Inr (Some payload) \<and>
    (if has_value (message_fields t) st
     then rsmp_json_payload2msg L g (Some c) (Some payload) i now = Inl Write_oob
     else \<exists>g1 st'. rsmp_json_payload2msg L g (Some c) (Some payload) i now = Inr (g1, Message st') \<and>
       same_desc (message_fields t) st st')"
  by (rule message_outcome [OF assms])

definition sample_request :: struct where
  "sample_request =
    [(''type'', M_type T_StatusRequest), (''mId'', M_uuid [0, 1]), (''ntsOId'', M_str (Some ''O'')), (''xNId'', M_str (Some [])),
     (''cId'', M_str (Some ''C'')), (''sS'', M_items True [[(''sCI'', M_str (Some ''GEN/S1'')), (''n'', M_str (Some ''ProductName'')),
       (''s'', z_str), (''q'', z_enum), (''uRt'', z_str), (''sOc'', M_bool False)]]), (''mType'', M_mType)]"

lemma sample_request_ok: "desc_ok sample_lib (message_fields T_StatusRequest) sample_request"
  by (simp add: msg_desc_defs item_desc_defs sample_request_def value_ok_def kind_fits_def as_defs uuid_ok_def sample_lib_def
      sample_uuids_def no_nul_def)

lemma sample_request_plain: "\<not> has_value (message_fields T_StatusRequest) sample_request"
  by (simp add: msg_desc_defs item_desc_defs sample_request_def long_value_def)

theorem rsmp_message_roundtrip_witness:
  "\<exists>payload g1 st'. rsmp_json_msg2payload sample_lib (Some sample_request) = Inr (Some payload) \<and>
    rsmp_json_payload2msg sample_lib fresh_env (Some (the_context fresh_env)) (Some payload) [] (0, 0) = Inr (g1, Message st') \<and>
    map_of st' ''cId'' = Some (M_str (Some ''C''))"
proof -
  have "rjson_sound (r_json sample_lib)" "msg_active T_StatusRequest"
    "map_of sample_request ''type'' = Some (M_type T_StatusRequest)" "context_ok (the_context fresh_env)"
    using text_rjson_sound env_ok_context [OF fresh_env_ok(1)]
    by (simp_all add: sample_lib_def msg_active_iff sample_request_def)
  from rsmp_message_roundtrip [OF this(1-3) sample_request_ok this(4), of fresh_env "[]" "(0, 0)"] sample_request_plain
  obtain payload g1 st' where "rsmp_json_msg2payload sample_lib (Some sample_request) = Inr (Some payload)"
    "rsmp_json_payload2msg sample_lib fresh_env (Some (the_context fresh_env)) (Some payload) [] (0, 0) = Inr (g1, Message st')"
    "same_desc (message_fields T_StatusRequest) sample_request st'" by auto
  thus ?thesis by (auto simp: msg_desc_defs sample_request_def same_value_def split: option.splits member.splits)
qed

end
