(* ===== verification/RsmpFaults.thy ===== *)
theory RsmpFaults
  imports RsmpTrip
begin

text \<open>
  Acknowledgements, and what payloads do to the receiver when they are not messages, or carry what
  the messages cannot hold.
\<close>

section \<open>Acknowledgements\<close>

lemma ack_type: "rsmp_message_desc_ack_get t \<longleftrightarrow> msg_active t \<and> t \<notin> {T_MessageAck, T_MessageNotAck}"
  by (cases t) (simp_all add: rsmp_message_desc_ack_get_def msg_active_iff rsmp_msg_desc_def active_desc_def zero_desc_def)

lemma ack_mId_some:
  assumes "map_of st ''type'' = Some (M_type t)" "map_of st ''mId'' = Some (M_uuid j)"
  shows "ack_mId (Some st) = Inr (if rsmp_message_desc_ack_get t then Some j else None)"
proof (cases "rsmp_message_desc_ack_get t")
  case True
  hence t: "msg_active t" "t \<notin> {T_MessageAck, T_MessageNotAck}" by (simp_all add: ack_type)
  have "rsmp_message_desc_find_field_by_type (message_fields t) ''mId'' = Some (FD_field ''mId'' FC_uuid)"
    using t by (cases t) (simp_all add: msg_active_iff msg_desc_defs rsmp_message_desc_find_field_by_type_def)
  with True assms active_fields [OF t(1)] show ?thesis
    by (simp add: ack_mId_def type_get_defs as_uuid_def)
next
  case False
  thus ?thesis using assms by (simp add: ack_mId_def type_get_defs)
qed

lemma ack_ok:
  assumes "uuid_ok (r_uuids L) j" "no_nul rea"
  shows "desc_ok L (message_fields T_MessageAck) (member_set rsmp_msg_MessageAck_new ''oMId'' (M_uuid j))"
    "desc_ok L (message_fields T_MessageNotAck)
      (member_set (member_set rsmp_msg_MessageNotAck_new ''oMId'' (M_uuid j)) ''rea'' (M_str (Some rea)))"
  using assms by (simp_all add: msg_desc_defs new_eval value_ok_def kind_fits_def as_defs)

lemma ack_plain:
  "\<not> has_value (message_fields T_MessageAck) (member_set rsmp_msg_MessageAck_new ''oMId'' (M_uuid j))"
  "\<not> has_value (message_fields T_MessageNotAck)
    (member_set (member_set rsmp_msg_MessageNotAck_new ''oMId'' (M_uuid j)) ''rea'' (M_str (Some rea)))"
  by (simp_all add: msg_desc_defs new_eval long_value_def)

text \<open>The two answers, and what the peer receives of them.\<close>
lemma ack_trip:
  assumes J: "rjson_sound (r_json L)" and u: "uuid_ok (r_uuids L) j" and c: "context_ok c"
    and st: "map_of st ''type'' = Some (M_type t)" "map_of st ''mId'' = Some (M_uuid j)" "rsmp_message_desc_ack_get t"
  shows "\<exists>ack payload g1 r. rsmp_msg_MessageAck_to (Some st) = Inr (Some ack) \<and>
    map_of ack ''type'' = Some (M_type T_MessageAck) \<and>
    rsmp_json_msg2payload L (Some ack) = Inr (Some payload) \<and>
    rsmp_json_payload2msg L g (Some c) (Some payload) i now = Inr (g1, Message r) \<and>
    map_of r ''type'' = Some (M_type T_MessageAck) \<and> map_of r ''oMId'' = Some (M_uuid j)"
proof -
  let ?a = "member_set rsmp_msg_MessageAck_new ''oMId'' (M_uuid j)"
  have a: "rsmp_msg_MessageAck_to (Some st) = Inr (Some ?a)"
    using ack_mId_some [OF st(1,2)] st(3) by (simp add: rsmp_msg_MessageAck_to_def)
  have t: "map_of ?a ''type'' = Some (M_type T_MessageAck)" "map_of ?a ''oMId'' = Some (M_uuid j)"
    by (simp_all add: new_eval)
  have n: "no_nul []" by (simp add: no_nul_def)
  from message_trip [OF J _ t(1) ack_ok(1) [OF u n] ack_plain(1) c, of g i now] obtain p g1 r where
    p: "rsmp_json_msg2payload L (Some ?a) = Inr (Some p)"
      "rsmp_json_payload2msg L g (Some c) (Some p) i now = Inr (g1, Message r)" "same_desc (message_fields T_MessageAck) ?a r"
    by (auto simp: msg_active_iff)
  have "map_of r ''type'' = Some (M_type T_MessageAck) \<and> map_of r ''oMId'' = Some (M_uuid j)"
    using p(3) t by (auto simp: msg_desc_defs same_value_def split: option.splits member.splits)
  thus ?thesis using a t(1) p(1,2) by blast
qed

lemma nack_trip:
  assumes J: "rjson_sound (r_json L)" and u: "uuid_ok (r_uuids L) j" and n: "no_nul rea" and c: "context_ok c"
    and st: "map_of st ''type'' = Some (M_type t)" "map_of st ''mId'' = Some (M_uuid j)" "rsmp_message_desc_ack_get t"
  shows "\<exists>nack payload g1 r. rsmp_msg_MessageNotAck_to (Some st) rea = Inr (Some nack) \<and>
    map_of nack ''type'' = Some (M_type T_MessageNotAck) \<and>
    rsmp_json_msg2payload L (Some nack) = Inr (Some payload) \<and>
    rsmp_json_payload2msg L g (Some c) (Some payload) i now = Inr (g1, Message r) \<and>
    map_of r ''type'' = Some (M_type T_MessageNotAck) \<and> map_of r ''oMId'' = Some (M_uuid j) \<and>
    map_of r ''rea'' = Some (M_str (Some rea))"
proof -
  let ?n = "member_set (member_set rsmp_msg_MessageNotAck_new ''oMId'' (M_uuid j)) ''rea'' (M_str (Some rea))"
  have a: "rsmp_msg_MessageNotAck_to (Some st) rea = Inr (Some ?n)"
    using ack_mId_some [OF st(1,2)] st(3) by (simp add: rsmp_msg_MessageNotAck_to_def)
  have t: "map_of ?n ''type'' = Some (M_type T_MessageNotAck)" "map_of ?n ''oMId'' = Some (M_uuid j)"
    "map_of ?n ''rea'' = Some (M_str (Some rea))" by (simp_all add: new_eval)
  from message_trip [OF J _ t(1) ack_ok(2) [OF u n] ack_plain(2) c, of g i now] obtain p g1 r where
    p: "rsmp_json_msg2payload L (Some ?n) = Inr (Some p)"
      "rsmp_json_payload2msg L g (Some c) (Some p) i now = Inr (g1, Message r)" "same_desc (message_fields T_MessageNotAck) ?n r"
    by (auto simp: msg_active_iff)
  have "map_of r ''type'' = Some (M_type T_MessageNotAck) \<and> map_of r ''oMId'' = Some (M_uuid j) \<and>
      map_of r ''rea'' = Some (M_str (Some rea))"
    using p(3) t by (auto simp: msg_desc_defs same_value_def split: option.splits member.splits)
  thus ?thesis using a t(1) p(1,2) by blast
qed

text \<open>C30. A message of a type that asks for it, and only such a one, is answered with an
  acknowledgement, and the acknowledgement, positive or negative, arrives with the identifier of
  the message it answers, the negative one with the reason given.\<close>
theorem rsmp_ack_names_message:
  assumes J: "rjson_sound (r_json L)" and u: "uuid_ok (r_uuids L) j" and n: "no_nul rea" and c: "context_ok c"
    and st: "map_of st ''type'' = Some (M_type t)" "map_of st ''mId'' = Some (M_uuid j)"
  shows "if t \<in> {T_MessageAck, T_MessageNotAck} \<or> \<not> msg_active t
    then rsmp_msg_MessageAck_to (Some st) = Inr None \<and> rsmp_msg_MessageNotAck_to (Some st) rea = Inr None
    else (\<exists>ack payload g1 r. rsmp_msg_MessageAck_to (Some st) = Inr (Some ack) \<and>
        rsmp_json_msg2payload L (Some ack) = Inr (Some payload) \<and>
        rsmp_json_payload2msg L g (Some c) (Some payload) i now = Inr (g1, Message r) \<and>
        map_of r ''type'' = Some (M_type T_MessageAck) \<and> map_of r ''oMId'' = Some (M_uuid j)) \<and>
      (\<exists>nack payload g1 r. rsmp_msg_MessageNotAck_to (Some st) rea = Inr (Some nack) \<and>
        rsmp_json_msg2payload L (Some nack) = Inr (Some payload) \<and>
        rsmp_json_payload2msg L g (Some c) (Some payload) i now = Inr (g1, Message r) \<and>
        map_of r ''type'' = Some (M_type T_MessageNotAck) \<and> map_of r ''oMId'' = Some (M_uuid j) \<and>
        map_of r ''rea'' = Some (M_str (Some rea)))"
proof (cases "rsmp_message_desc_ack_get t")
  case False
  thus ?thesis using ack_mId_some [OF st]
    by (auto simp: ack_type rsmp_msg_MessageAck_to_def rsmp_msg_MessageNotAck_to_def)
next
  case True
  obtain ack payload g1 r where "rsmp_msg_MessageAck_to (Some st) = Inr (Some ack)"
    "rsmp_json_msg2payload L (Some ack) = Inr (Some payload)"
    "rsmp_json_payload2msg L g (Some c) (Some payload) i now = Inr (g1, Message r)"
    "map_of r ''type'' = Some (M_type T_MessageAck)" "map_of r ''oMId'' = Some (M_uuid j)"
    using ack_trip [OF J u c st True] by blast
  moreover obtain nack payload' g1' r' where "rsmp_msg_MessageNotAck_to (Some st) rea = Inr (Some nack)"
    "rsmp_json_msg2payload L (Some nack) = Inr (Some payload')"
    "rsmp_json_payload2msg L g (Some c) (Some payload') i now = Inr (g1', Message r')"
    "map_of r' ''type'' = Some (M_type T_MessageNotAck)" "map_of r' ''oMId'' = Some (M_uuid j)"
    "map_of r' ''rea'' = Some (M_str (Some rea))"
    using nack_trip [OF J u n c st True] by blast
  ultimately show ?thesis using True by (simp add: ack_type)
qed

theorem rsmp_ack_names_message_witness:
  "\<exists>ack. rsmp_msg_MessageAck_to (Some sample_request) = Inr (Some ack) \<and>
    (\<exists>payload g1 r. rsmp_json_msg2payload sample_lib (Some ack) = Inr (Some payload) \<and>
      rsmp_json_payload2msg sample_lib fresh_env (Some (the_context fresh_env)) (Some payload) [] (0, 0) = Inr (g1, Message r) \<and>
      map_of r ''oMId'' = Some (M_uuid [0, 1]))"
proof -
  have "rjson_sound (r_json sample_lib)" "uuid_ok (r_uuids sample_lib) [0, 1]" "no_nul ''busy''"
    "context_ok (the_context fresh_env)" "map_of sample_request ''type'' = Some (M_type T_StatusRequest)"
    "map_of sample_request ''mId'' = Some (M_uuid [0, 1])"
    using text_rjson_sound env_ok_context [OF fresh_env_ok(1)]
    by (simp_all add: sample_lib_def sample_uuids_def sample_request_def uuid_ok_def no_nul_def)
  from rsmp_ack_names_message [OF this, of fresh_env "[]" "(0, 0)"] show ?thesis
    by (simp add: msg_active_iff) blast
qed

section \<open>Payloads that are not messages\<close>

text \<open>An object with the header of a message.\<close>
definition has_header :: "'j rjson \<Rightarrow> msg_type \<Rightarrow> 'j \<Rightarrow> bool" where
  "has_header J t y \<longleftrightarrow>
    j_get J y ''mType'' = Some (j_new_string_len J (Some ''rSMsg'')) \<and>
    j_get J y ''type'' = Some (j_new_string_len J (rsmp_type_to_string t))"

lemma third_field:
  assumes "msg_active t"
  shows "\<exists>f r. message_fields t = FD_field ''mType'' FC_mType # FD_field ''type'' FC_type # f # r \<and>
    fd_lib f = (if t \<in> {T_MessageAck, T_MessageNotAck} then ''oMId'' else ''mId'')"
  using assms by (cases t) (simp_all add: msg_active_iff msg_desc_defs)

text \<open>Reading the header into a message of the type.\<close>
lemma header_read:
  assumes J: "rjson_sound (r_json L)" and h: "has_header (r_json L) t y"
    and d: "desc_fits (FD_field ''mType'' FC_mType # FD_field ''type'' FC_type # r) msg"
  shows "\<exists>msg1. json_extract_fields L y msg (FD_field ''mType'' FC_mType # FD_field ''type'' FC_type # r) =
    json_extract_fields L y msg1 r"
proof -
  let ?J = "r_json L"
  let ?fs = "[FD_field ''mType'' FC_mType, FD_field ''type'' FC_type]"
  let ?st = "[(''mType'', M_mType), (''type'', M_type t)]"
  have ok: "desc_ok L ?fs ?st" by (simp add: value_ok_def kind_fits_def as_defs)
  define o1 where "o1 = j_add ?J (j_new_object ?J) ''mType'' (j_new_string_len ?J (Some ''rSMsg''))"
  define o2 where "o2 = j_add ?J o1 ''type'' (j_new_string_len ?J (rsmp_type_to_string t))"
  have "json_add_fields L (j_new_object ?J) ?st ?fs = Inr (Some o2)"
    by (simp add: json_add_field_def member_get_def field_encode_def encode_defs as_type_def
        json_object_var_add_def json_object_from_var_def mType_value_def o1_def o2_def)
  moreover have "\<forall>k \<in> fd_lib ` set ?fs. j_get ?J y k = j_get ?J o2 k"
    using h rjson_soundD(3) [OF J] by (simp add: has_header_def o1_def o2_def)
  ultimately have "reads L ?fs ?st y"
    using struct_trip [OF J ok] unfolding writes_def by (metis option.inject sum.inject(2))
  moreover have "\<not> has_value ?fs ?st" by (simp add: long_value_def)
  moreover have "desc_fits ?fs msg" using d by simp
  ultimately obtain m where m: "json_extract_fields L y msg ?fs = Inr (m, True)" by (rule readsD)
  obtain a where a: "json_extract_fields L y msg [FD_field ''mType'' FC_mType] = Inr (a, True)"
    "json_extract_fields L y a [FD_field ''type'' FC_type] = Inr (m, True)"
    using m by (subst (asm) extract_fields_Cons) (auto split: if_splits prod.splits simp del: json_extract_fields.simps)
  have "json_extract_fields L y msg (FD_field ''mType'' FC_mType # FD_field ''type'' FC_type # r) =
      json_extract_fields L y m r"
    by (subst extract_fields_Cons, subst a(1), simp del: json_extract_fields.simps, subst extract_fields_Cons)
      (simp add: a(2) del: json_extract_fields.simps)
  thus ?thesis by blast
qed

text \<open>The header is read, the identifier is missed.\<close>
lemma payload_freed:
  assumes J: "rjson_sound (r_json L)" and c: "context_ok c" and p: "j_parse (r_json L) text = Some y"
    and h: "has_header (r_json L) t y" and t: "msg_active t"
    and k: "j_get (r_json L) y ''mId'' = None" "j_get (r_json L) y ''oMId'' = None"
  shows "\<exists>g1. rsmp_json_payload2msg L g (Some c) (Some text) i now = Inr (g1, Freed_message)"
proof -
  have "context_ok (used_context g (Some c))" using c by (simp add: used_context_def)
  then obtain g1 msg where n: "msg_desc_new t g (Some c) i now = Inr (g1, msg)" "desc_fits (message_fields t) msg"
    using new_fits [OF t] by blast
  obtain f r where f: "message_fields t = FD_field ''mType'' FC_mType # FD_field ''type'' FC_type # f # r"
    "fd_lib f = ''oMId'' \<or> fd_lib f = ''mId''" using third_field [OF t] by (auto split: if_splits)
  obtain msg1 where "json_extract_fields L y msg (message_fields t) = json_extract_fields L y msg1 (f # r)"
    using header_read [OF J h n(2) [unfolded f(1)]] unfolding f(1) by blast
  moreover have "json_extract_fields L y msg1 (f # r) = Inr (msg1, False)"
    using k f(2) by (auto simp: rsmp_json_object_get_def)
  ultimately show ?thesis
    using header_received [OF J t p _ _ n(1)] h by (auto simp: has_header_def)
qed

text \<open>What the receiver makes of a payload that is not a message: a text that does not parse or has no
  proper header is dropped, but an object with the header of a message and without the identifier
  is decoded into a message that is freed and handed on all the same, and an object whose type is
  one of those with an acknowledgement included makes the receiver call a null pointer.\<close>
lemma rsmp_payload_outcomes:
  assumes J: "rjson_sound (r_json L)" and c: "context_ok c"
  shows "(j_parse (r_json L) text = None \<longrightarrow>
      rsmp_json_payload2msg L g (Some c) (Some text) i now = Inr (g, No_message)) \<and>
    (\<forall>y. j_parse (r_json L) text = Some y \<longrightarrow>
      (j_get (r_json L) y ''mType'' = None \<or> j_get (r_json L) y ''type'' = None \<longrightarrow>
        rsmp_json_payload2msg L g (Some c) (Some text) i now = Inr (g, No_message)) \<and>
      (\<forall>t. has_header (r_json L) t y \<longrightarrow>
        (\<not> msg_active t \<longrightarrow> rsmp_json_payload2msg L g (Some c) (Some text) i now = Inl Null_deref) \<and>
        (msg_active t \<longrightarrow> j_get (r_json L) y ''mId'' = None \<longrightarrow> j_get (r_json L) y ''oMId'' = None \<longrightarrow>
          (\<exists>g1. rsmp_json_payload2msg L g (Some c) (Some text) i now = Inr (g1, Freed_message)))))"
proof (intro conjI allI impI)
  let ?J = "r_json L"
  show "j_parse ?J text = None \<Longrightarrow> rsmp_json_payload2msg L g (Some c) (Some text) i now = Inr (g, No_message)"
    by (simp add: rsmp_json_payload2msg_def)
  fix y assume p: "j_parse ?J text = Some y"
  show "j_get ?J y ''mType'' = None \<or> j_get ?J y ''type'' = None \<Longrightarrow>
      rsmp_json_payload2msg L g (Some c) (Some text) i now = Inr (g, No_message)"
    using p by (auto simp: rsmp_json_payload2msg_def rsmp_json_mType_check_def rsmp_json_extract_type_def
        rsmp_json_key_value_check_def rsmp_json_object_get_def)
  fix t assume h: "has_header ?J t y"
  { assume t: "\<not> msg_active t"
    obtain u where u: "rsmp_type_to_string t = Some u" "no_nul u" using type_find(2) by blast
    have "rsmp_json_mType_check ?J y"
      using h rjson_soundD(4,6) [OF J]
      by (simp add: has_header_def rsmp_json_mType_check_def rsmp_json_key_value_check_def
          rsmp_json_object_get_def rsmp_mType_check_def mType_value_def c_text_def)
    moreover have "rsmp_json_extract_type ?J y = Some t"
      using h u rjson_soundD(4,6) [OF J] type_find(1) [of t]
      by (simp add: has_header_def rsmp_json_extract_type_def rsmp_json_key_value_check_def rsmp_json_object_get_def)
    moreover have "msg_desc_new t g (Some c) i now = Inl Null_deref"
      using t by (cases t) (simp_all add: msg_active_iff msg_desc_new_def)
    ultimately show "rsmp_json_payload2msg L g (Some c) (Some text) i now = Inl Null_deref"
      using p by (simp add: rsmp_json_payload2msg_def desc_get) }
  show "msg_active t \<Longrightarrow> j_get ?J y ''mId'' = None \<Longrightarrow> j_get ?J y ''oMId'' = None \<Longrightarrow>
      \<exists>g1. rsmp_json_payload2msg L g (Some c) (Some text) i now = Inr (g1, Freed_message)"
    by (rule payload_freed [OF J c p h])
qed

definition header_only :: "msg_type \<Rightarrow> string" where
  "header_only t = j_add text_rjson (j_add text_rjson [] ''mType'' (j_new_string_len text_rjson (Some ''rSMsg'')))
     ''type'' (j_new_string_len text_rjson (rsmp_type_to_string t))"

lemma rsmp_payload_outcomes_witness:
  "rsmp_json_payload2msg sample_lib fresh_env (Some (the_context fresh_env))
      (Some (j_print text_rjson (header_only T_CommandRequestAckIncluded))) [] (0, 0) = Inl Null_deref \<and>
   (\<exists>g1. rsmp_json_payload2msg sample_lib fresh_env (Some (the_context fresh_env))
      (Some (j_print text_rjson (header_only T_Watchdog))) [] (0, 0) = Inr (g1, Freed_message))"
proof -
  have J: "rjson_sound (r_json sample_lib)" "context_ok (the_context fresh_env)" "r_json sample_lib = text_rjson"
    using text_rjson_sound env_ok_context [OF fresh_env_ok(1)] by (simp_all add: sample_lib_def)
  have g: "j_get text_rjson (header_only t) k = (if k = ''type'' then Some (j_new_string_len text_rjson (rsmp_type_to_string t))
      else if k = ''mType'' then Some (j_new_string_len text_rjson (Some ''rSMsg'')) else None)" for t k
    using rjson_soundD(2,3) [OF text_rjson_sound] by (simp add: header_only_def) (simp add: text_rjson_def)
  have p: "j_parse text_rjson (j_print text_rjson (header_only t)) = Some (header_only t)" for t
    using rjson_soundD(1) [OF text_rjson_sound] by (simp add: header_only_def)
  have h: "has_header text_rjson t (header_only t)" for t by (simp add: has_header_def g)
  note R = rsmp_payload_outcomes [OF J(1,2), unfolded J(3)]
  have a: "\<not> msg_active T_CommandRequestAckIncluded" "msg_active T_Watchdog" by (simp_all add: msg_active_iff)
  have k: "j_get text_rjson (header_only t) ''mId'' = None" "j_get text_rjson (header_only t) ''oMId'' = None" for t
    by (simp_all add: g)
  have "rsmp_json_payload2msg sample_lib fresh_env (Some (the_context fresh_env))
      (Some (j_print text_rjson (header_only T_CommandRequestAckIncluded))) [] (0, 0) = Inl Null_deref"
    using R [of "j_print text_rjson (header_only T_CommandRequestAckIncluded)" fresh_env "[]" "(0, 0)"] p h a(1) by blast
  moreover have "\<exists>g1. rsmp_json_payload2msg sample_lib fresh_env (Some (the_context fresh_env))
      (Some (j_print text_rjson (header_only T_Watchdog))) [] (0, 0) = Inr (g1, Freed_message)"
    using R [of "j_print text_rjson (header_only T_Watchdog)" fresh_env "[]" "(0, 0)"] p h a(2) k by blast
  ultimately show ?thesis by blast
qed

section \<open>Values of commands\<close>

definition arg_texts :: "field_desc list" where "arg_texts = [f_str ''cCI'', f_str ''n'', f_str ''cO'']"

lemma arg_desc: "rsmp_msg_arg_desc = arg_texts @ [FD_field ''v'' FC_v]"
  by (simp add: rsmp_msg_arg_desc_def arg_texts_def)

text \<open>A request with one argument, as the description of command requests wants it.\<close>
lemma request_ok:
  assumes st: "map_of st ''arg'' = Some (M_items d [it])"
    and ok: "desc_ok L desc_head st" "desc_ok L arg_texts it" and v: "map_of it ''v'' = Some (M_chars e s)"
  shows "desc_ok L (message_fields T_CommandRequest) st"
    "has_value (message_fields T_CommandRequest) st \<longleftrightarrow> has_value desc_head st \<or> has_value arg_texts it \<or> s \<noteq> []"
proof -
  have "desc_ok L rsmp_msg_arg_desc it"
    using ok(2) v by (simp add: arg_desc arg_texts_def f_str_def value_ok_def kind_fits_def as_chars_def)
  thus "desc_ok L (message_fields T_CommandRequest) st"
    using ok(1) st by (simp add: rsmp_msg_CommandRequest_desc_def desc_head_def desc_top_def f_str_def)
  show "has_value (message_fields T_CommandRequest) st \<longleftrightarrow> has_value desc_head st \<or> has_value arg_texts it \<or> s \<noteq> []"
    using st v by (auto simp: rsmp_msg_CommandRequest_desc_def desc_head_def desc_top_def f_str_def arg_desc arg_texts_def
        long_value_def)
qed


definition sample_command :: struct where
  "sample_command =
    [(''type'', M_type T_CommandRequest), (''mId'', M_uuid [0, 1]), (''ntsOId'', M_str (Some ''O'')), (''xNId'', M_str (Some [])),
     (''cId'', M_str (Some ''C'')), (''arg'', M_items True [[(''cCI'', M_str (Some ''M31'')), (''n'', M_str (Some ''text'')),
       (''cO'', M_str (Some ''set'')), (''v'', M_chars True ''on'')]]), (''mType'', M_mType)]"


end
