(* ===== verification/RsmpApp.thy ===== *)
theory RsmpApp
  imports RsmpFaults SessionSpec
begin

text \<open>
  The application on top of a secured session: the handlers of the messages (\<open>rsmp/messages\<close>,
  \<open>rsmp/sxl/sxl.c\<close>), the exchange of versions, the watchdog and the task that receives messages
  (\<open>main.c\<close>).  What the application does to the session goes through \<open>cyber_send\<close>,
  \<open>waitForMessage_external\<close> and \<open>cyber_stop\<close>.  The texts that the other tasks deliver while the
  application waits, the identifiers drawn and the dates are arguments.
\<close>

section \<open>State\<close>

text \<open>The commands registered are the keys of a search tree.\<close>
record app =
  ap_session :: session
  ap_rsmp :: rsmp_env
  ap_cmds :: "string list"

definition with_session :: "app \<Rightarrow> session \<Rightarrow> app" where "with_session a s = a\<lparr> ap_session := s \<rparr>"

section \<open>Commands\<close>

text \<open>The search gives the address of a node of the tree, which the code takes for the record itself.\<close>
definition rsmp_sxl_find_by_cCI :: "string list \<Rightarrow> cstr \<Rightarrow> bool run" where
  "rsmp_sxl_find_by_cCI tree cCI =
    (if tree = [] then Inr False
     else case cCI of None \<Rightarrow> Inl Null_deref | Some c \<Rightarrow> Inr (c \<in> set tree))"

definition rsmp_sxl_cmd_add :: "string list \<Rightarrow> string \<Rightarrow> (string list \<times> errcode) run" where
  "rsmp_sxl_cmd_add tree cCI =
    rbind (rsmp_sxl_find_by_cCI tree (Some cCI)) (\<lambda>found.
      if found then Inl Wrong_type else Inr (tree @ [cCI], E_no_error))"

definition rsmp_sxl_cmd_exe :: "string list \<Rightarrow> cstr \<Rightarrow> errcode run" where
  "rsmp_sxl_cmd_exe tree cCI =
    rbind (rsmp_sxl_find_by_cCI tree cCI) (\<lambda>found. if found then Inl Wrong_type else Inr E_no_error)"

definition rsmp_sxl_cmd_is_active :: "string list \<Rightarrow> cstr \<Rightarrow> errcode run" where
  "rsmp_sxl_cmd_is_active tree cCI =
    (if cCI = None then Inl Assert_failed
     else rbind (rsmp_sxl_find_by_cCI tree cCI) (\<lambda>found. if found then Inl Wrong_type else Inr S_unknown_cmd))"

fun sxl_adds :: "string list \<Rightarrow> string list \<Rightarrow> string list run" where
  "sxl_adds tree [] = Inr tree"
| "sxl_adds tree (c # cs) = rbind (rsmp_sxl_cmd_add tree c) (\<lambda>(tree1, ret). sxl_adds tree1 cs)"

definition register_disp_command_handlers :: "string list \<Rightarrow> string list run" where
  "register_disp_command_handlers tree = sxl_adds tree [''DISP/M31'', ''DISP/M32'', ''DISP/M40'', ''DISP/M41'']"

definition register_disp_status_handlers :: "string list \<Rightarrow> string list run" where
  "register_disp_status_handlers tree = sxl_adds tree [''DISP/S10'', ''DISP/S20'', ''DISP/S30'', ''DISP/S40'']"

definition register_disp_handlers :: "string list \<Rightarrow> string list run" where
  "register_disp_handlers tree = rbind (register_disp_command_handlers tree) register_disp_status_handlers"

definition rsmp_sxl_initialize :: "string list \<Rightarrow> string list run" where
  "rsmp_sxl_initialize tree = register_disp_handlers tree"

section \<open>Sending\<close>

definition rsmp_engine_send_msg :: "'j rsmp_lib \<Rightarrow> app \<Rightarrow> struct option \<Rightarrow> cstr \<Rightarrow> (app \<times> errcode) run" where
  "rsmp_engine_send_msg L a msg attrib =
    rbind (rsmp_json_msg2payload L msg) (\<lambda>payload.
      case payload of
        None \<Rightarrow> Inl Null_deref
      | Some p \<Rightarrow> rbind (cyber_send (ap_session a) p attrib) (\<lambda>(s1, ret). Inr (with_session a s1, ret)))"

section \<open>Handlers\<close>

definition rsmp_message_exe :: "'j rsmp_lib \<Rightarrow> app \<Rightarrow> cstr \<Rightarrow> struct \<Rightarrow> (app \<times> errcode) run" where
  "rsmp_message_exe L a attrib msg =
    rbind (rsmp_message_type_get msg) (\<lambda>t.
      case rsmp_message_desc_get t of
        None \<Rightarrow> Inl Null_deref
      | Some d \<Rightarrow>
          if md_ack d
          then rbind (rsmp_msg_MessageNotAck_to (Some msg) ''not expected'') (\<lambda>nack.
                 rbind (rsmp_engine_send_msg L a nack attrib) (\<lambda>(a1, ret). Inr (a1, E_generic)))
          else Inr (a, E_generic))"

text \<open>The first argument whose command is not active, with the code.\<close>
fun inactive_arg :: "string list \<Rightarrow> struct list \<Rightarrow> (errcode option) run" where
  "inactive_arg tree [] = Inr None"
| "inactive_arg tree (it # its) =
    rbind (member_get it ''cCI'') (\<lambda>m. rbind (as_str m) (\<lambda>c.
      rbind (rsmp_sxl_cmd_is_active tree c) (\<lambda>ret.
        if ret \<noteq> E_no_error then Inr (Some ret) else inactive_arg tree its)))"

fun exe_args :: "string list \<Rightarrow> struct list \<Rightarrow> unit run" where
  "exe_args tree [] = Inr ()"
| "exe_args tree (it # its) =
    rbind (member_get it ''cCI'') (\<lambda>m. rbind (as_str m) (\<lambda>c.
      rbind (rsmp_sxl_cmd_exe tree c) (\<lambda>ret. exe_args tree its)))"

definition rsmp_msg_CommandRequest_exe ::
  "'j rsmp_lib \<Rightarrow> app \<Rightarrow> cstr \<Rightarrow> struct \<Rightarrow> uuid \<Rightarrow> horodate \<Rightarrow> (app \<times> errcode) run" where
  "rsmp_msg_CommandRequest_exe L a attrib msg i now =
    rbind (rsmp_message_type_get msg) (\<lambda>t.
      if t \<noteq> T_CommandRequest then Inl Assert_failed
      else rbind (member_get msg ''arg'') (\<lambda>m.
        case m of
          M_items d args \<Rightarrow>
            if args = []
            then rbind (rsmp_msg_MessageNotAck_to (Some msg) ''no arg items...'') (\<lambda>nack.
                   rsmp_engine_send_msg L a nack attrib)
            else rbind (inactive_arg (ap_cmds a) args) (\<lambda>r.
              case r of
                Some err \<Rightarrow>
                  rbind (rsmp_msg_MessageNotAck_to (Some msg) ''cCI:%s not allowed/defined'') (\<lambda>nack.
                    rsmp_engine_send_msg L a nack attrib)
              | None \<Rightarrow>
                  rbind (rsmp_msg_MessageAck_to (Some msg)) (\<lambda>ack.
                  rbind (rsmp_engine_send_msg L a ack attrib) (\<lambda>(a1, ret1).
                  rbind (rsmp_msg_CommandResponse_from_request (ap_rsmp a1) (Some msg) i now) (\<lambda>(g1, response).
                  rbind (exe_args (ap_cmds a1) args) (\<lambda>u.
                    rsmp_engine_send_msg L (a1\<lparr> ap_rsmp := g1 \<rparr>) (Some response) attrib)))))
        | _ \<Rightarrow> Inl Wrong_type))"

text \<open>The answers to the statuses known; \<open>None\<close> when the name is not.\<close>
definition status_json :: "'j rjson \<Rightarrow> string \<Rightarrow> string \<Rightarrow> string \<Rightarrow> 'j" where
  "status_json J s sCI n =
    j_add J (j_add J (j_add J (j_add J (j_new_object J) ''s'' (j_new_string J s)) ''q'' (j_new_string J ''recent''))
      ''sCI'' (j_new_string J sCI)) ''n'' (j_new_string J n)"

definition fct_GEN_S1 :: "'j rjson \<Rightarrow> string \<Rightarrow> string \<Rightarrow> 'j option" where
  "fct_GEN_S1 J sCI n =
    (if n = ''Manufacturer'' then Some (status_json J ''SVMS'' sCI n)
     else if n = ''ProductName'' then Some (status_json J ''PIP'' sCI n)
     else if n = ''SoftwareVersion'' then Some (status_json J ''1.2.3'' sCI n)
     else if n = ''HardwareVersion'' then Some (status_json J ''4.6'' sCI n)
     else None)"

definition fct_GEN_S2 :: "'j rjson \<Rightarrow> string \<Rightarrow> string \<Rightarrow> 'j option" where
  "fct_GEN_S2 J sCI n =
    (if n = ''Name'' then Some (status_json J ''default.conf'' sCI n)
     else if n = ''Version'' then Some (status_json J ''version-dev'' sCI n)
     else if n = ''Timestamp'' then Some (status_json J ''2025-03-24T17:04:05.540Z'' sCI n)
     else if n = ''Location'' then Some (status_json J ''0,0'' sCI n)
     else None)"

definition callbacks :: "'j rjson \<Rightarrow> (string \<times> (string \<Rightarrow> string \<Rightarrow> 'j option)) list" where
  "callbacks J = [(''GEN/S1'', fct_GEN_S1 J), (''GEN/S2'', fct_GEN_S2 J)]"

definition item_text :: "struct \<Rightarrow> string \<Rightarrow> string run" where
  "item_text it k =
    rbind (member_get it k) (\<lambda>m. rbind (as_str m) (\<lambda>c. case c of None \<Rightarrow> Inl Null_deref | Some s \<Rightarrow> Inr s))"

text \<open>The inner loop for the item \<open>it\<close>: the name of the callback \<open>j\<close> is compared with that of the item
  \<open>j\<close> of the request.\<close>
fun callback_loop ::
  "(string \<times> (string \<Rightarrow> string \<Rightarrow> 'j option)) list \<Rightarrow> nat \<Rightarrow> struct list \<Rightarrow> struct \<Rightarrow> 'j option run" where
  "callback_loop [] j items it = Inr None"
| "callback_loop ((sig, fct) # cbs) j items it =
    rbind (bread items j) (\<lambda>itj. rbind (item_text itj ''sCI'') (\<lambda>sj.
      if sig = sj
      then rbind (item_text it ''sCI'') (\<lambda>c. rbind (item_text it ''n'') (\<lambda>n. Inr (fct c n)))
      else callback_loop cbs (j + 1) items it))"

fun status_loop :: "'j rjson \<Rightarrow> struct list \<Rightarrow> struct list \<Rightarrow> 'j \<Rightarrow> 'j run" where
  "status_loop J items [] arr = Inr arr"
| "status_loop J items (it # its) arr =
    rbind (callback_loop (callbacks J) 0 items it) (\<lambda>r.
      status_loop J items its (case r of None \<Rightarrow> arr | Some v \<Rightarrow> j_array_add J arr v))"

definition rsmp_msg_StatusRequest_exe ::
  "'j rsmp_lib \<Rightarrow> app \<Rightarrow> cstr \<Rightarrow> struct \<Rightarrow> uuid \<Rightarrow> horodate \<Rightarrow> (app \<times> errcode) run" where
  "rsmp_msg_StatusRequest_exe L a attrib msg i now =
    rbind (rsmp_message_type_get msg) (\<lambda>t.
      if t \<noteq> T_StatusRequest then Inl Assert_failed
      else rbind (member_get msg ''sS'') (\<lambda>m.
        case m of
          M_items d items \<Rightarrow>
            rbind (rsmp_message_new (ap_rsmp a) None (Some T_StatusResponse) i now) (\<lambda>(g1, response).
            rbind (status_loop (r_json L) items items (j_new_array (r_json L))) (\<lambda>arr.
            rbind (rsmp_json_msg2payload_with_inserting_jobj L response (Some ''sS'') (Some arr)) (\<lambda>payload.
              case payload of
                None \<Rightarrow> Inl Null_deref
              | Some p \<Rightarrow>
                  rbind (cyber_send (ap_session a) p attrib) (\<lambda>(s1, ret).
                    Inr (with_session (a\<lparr> ap_rsmp := g1 \<rparr>) s1, E_no_error)))))
        | _ \<Rightarrow> Inl Wrong_type))"

definition rsmp_msg_Watchdog_exe :: "'j rsmp_lib \<Rightarrow> app \<Rightarrow> cstr \<Rightarrow> struct \<Rightarrow> (app \<times> errcode) run" where
  "rsmp_msg_Watchdog_exe L a attrib msg =
    rbind (rsmp_message_type_get msg) (\<lambda>t.
      if t \<noteq> T_Watchdog then Inl Assert_failed
      else rbind (rsmp_msg_MessageAck_to (Some msg)) (\<lambda>ack.
        rbind (rsmp_engine_send_msg L a ack attrib) (\<lambda>(a1, ret). Inr (a1, E_no_error))))"

text \<open>The callback of the table.\<close>
definition msg_callback ::
  "msg_type \<Rightarrow> 'j rsmp_lib \<Rightarrow> app \<Rightarrow> cstr \<Rightarrow> struct \<Rightarrow> uuid \<Rightarrow> horodate \<Rightarrow> (app \<times> errcode) run" where
  "msg_callback t L a attrib msg i now =
    (if t = T_Watchdog then rsmp_msg_Watchdog_exe L a attrib msg
     else if t = T_CommandRequest then rsmp_msg_CommandRequest_exe L a attrib msg i now
     else if t = T_StatusRequest then rsmp_msg_StatusRequest_exe L a attrib msg i now
     else rsmp_message_exe L a attrib msg)"

section \<open>Exchanging messages\<close>

text \<open>One exchange: identifiers and dates of the messages made, and what the other tasks do to the
  session while the application waits.\<close>
record exchange =
  x_mId :: uuid
  x_now :: horodate
  x_id_rxed :: uuid
  x_other :: "session \<Rightarrow> session"

definition sendMessage_app :: "'j rsmp_lib \<Rightarrow> app \<Rightarrow> struct option \<Rightarrow> cstr \<Rightarrow> (app \<times> errcode) run" where
  "sendMessage_app L a msg login = rsmp_engine_send_msg L a msg login"

text \<open>The code of a failure, or what the payload was decoded to.\<close>
definition waitForMessage :: "'j rsmp_lib \<Rightarrow> app \<Rightarrow> exchange \<Rightarrow> (app \<times> (errcode + received)) run" where
  "waitForMessage L a x =
    (let (s1, p) = waitForMessage_external (x_other x (ap_session a)); a1 = with_session a s1
     in case p of
          None \<Rightarrow> Inr (a1, Inl C_generic)
        | Some payload \<Rightarrow>
            let (g1, c) = rsmp_context_global_get (ap_rsmp a1)
            in rbind (rsmp_json_payload2msg L g1 (Some c) (Some payload) (x_id_rxed x) (x_now x)) (\<lambda>(g2, r).
                 let a2 = a1\<lparr> ap_rsmp := g2 \<rparr>
                 in Inr (a2, case r of No_message \<Rightarrow> Inl C_generic | _ \<Rightarrow> Inr r)))"

text \<open>The message behind the pointer received.\<close>
definition received_msg :: "received \<Rightarrow> struct run" where
  "received_msg r =
    (case r of No_message \<Rightarrow> Inl Null_deref | Message m \<Rightarrow> Inr m | Freed_message \<Rightarrow> Inl Use_after_free)"

definition sendVersionAndWaitAck :: "'j rsmp_lib \<Rightarrow> app \<Rightarrow> exchange \<Rightarrow> (app \<times> errcode) run" where
  "sendVersionAndWaitAck L a x =
    rbind (rsmp_message_new (ap_rsmp a) None (Some T_Version) (x_mId x) (x_now x)) (\<lambda>(g1, msg).
    rbind (sendMessage_app L (a\<lparr> ap_rsmp := g1 \<rparr>) msg None) (\<lambda>(a1, ret).
    rbind (rsmp_message_free msg) (\<lambda>_.
    rbind (waitForMessage L a1 x) (\<lambda>(a2, r).
      case r of
        Inl err \<Rightarrow> Inr (a2, err)
      | Inr rx \<Rightarrow>
          rbind (received_msg rx) (\<lambda>m. rbind (rsmp_message_type_get m) (\<lambda>t.
          rbind (rsmp_message_free (Some m)) (\<lambda>_.
            Inr (a2, if t = T_MessageAck then E_no_error else C_generic))))))))"

definition waitVersionAndSendAck :: "'j rsmp_lib \<Rightarrow> app \<Rightarrow> exchange \<Rightarrow> (app \<times> errcode) run" where
  "waitVersionAndSendAck L a x =
    rbind (waitForMessage L a x) (\<lambda>(a1, r).
      case r of
        Inl err \<Rightarrow> Inr (a1, err)
      | Inr rx \<Rightarrow>
          rbind (received_msg rx) (\<lambda>m. rbind (rsmp_message_type_get m) (\<lambda>t.
            if t \<noteq> T_Version then rbind (rsmp_message_free (Some m)) (\<lambda>_. Inr (a1, C_generic))
            else rbind (rsmp_msg_MessageAck_to (Some m)) (\<lambda>ack. rbind (rsmp_message_free (Some m)) (\<lambda>_.
                 rbind (sendMessage_app L a1 ack None) (\<lambda>(a2, ret). rbind (rsmp_message_free ack) (\<lambda>_.
                   Inr (a2, ret))))))))"

text \<open>\<open>x\<close> and \<open>y\<close> are the two halves of the exchange, in their order.\<close>
definition echange_versions :: "'j rsmp_lib \<Rightarrow> app \<Rightarrow> exchange \<Rightarrow> exchange \<Rightarrow> (app \<times> errcode) run" where
  "echange_versions L a x y =
    (if cyber_isLeader (ap_session a)
     then rbind (waitVersionAndSendAck L a x) (\<lambda>(a1, ret).
            if ret \<noteq> E_no_error then Inr (a1, ret) else sendVersionAndWaitAck L a1 y)
     else rbind (sendVersionAndWaitAck L a x) (\<lambda>(a1, ret).
            if ret \<noteq> E_no_error then Inr (a1, ret) else waitVersionAndSendAck L a1 y))"

section \<open>Receiving\<close>

text \<open>The state of the task: when a watchdog was received and sent last.\<close>
record receiver =
  rc_app :: app
  rc_last_rxed :: horodate
  rc_last_sent :: horodate

definition watchdog_period_sec :: int where "watchdog_period_sec = 60"
definition tolerance_sec :: int where "tolerance_sec = 30"

text \<open>The first watchdog is due at once.\<close>
definition external_receive_start :: "app \<Rightarrow> horodate \<Rightarrow> receiver" where
  "external_receive_start a now =
    \<lparr> rc_app = a, rc_last_rxed = now, rc_last_sent = (fst now - watchdog_period_sec, snd now) \<rparr>"

text \<open>\<open>callback_cyber_ready\<close>: the task starts when the versions were exchanged.\<close>
definition callback_cyber_ready ::
  "'j rsmp_lib \<Rightarrow> app \<Rightarrow> exchange \<Rightarrow> exchange \<Rightarrow> horodate \<Rightarrow> (app \<times> receiver option) run" where
  "callback_cyber_ready L a x y now =
    rbind (echange_versions L a x y) (\<lambda>(a1, ret).
      Inr (a1, if ret \<noteq> E_no_error then None else Some (external_receive_start a1 now)))"

text \<open>One turn: the dates are those of its start, after the watchdog was sent, and after the wait.\<close>
record turn_args = exchange +
  x_stop :: bool
  x_sent_at :: horodate
  x_done_at :: horodate
  x_id_reply :: uuid

definition send_watchdog :: "'j rsmp_lib \<Rightarrow> turn_args \<Rightarrow> receiver \<Rightarrow> receiver run" where
  "send_watchdog L x p =
    (if \<not> x_stop x \<and> cyber_isRunning (ap_session (rc_app p)) \<and>
        watchdog_period_sec \<le> t_diff_sec (r_times L) (x_now x) (rc_last_sent p)
     then rbind (rsmp_message_new (ap_rsmp (rc_app p)) None (Some T_Watchdog) (x_mId x) (x_now x)) (\<lambda>(g1, msg).
          rbind (sendMessage_app L ((rc_app p)\<lparr> ap_rsmp := g1 \<rparr>) msg None) (\<lambda>(a1, ret).
          rbind (rsmp_message_free msg) (\<lambda>_. Inr (p\<lparr> rc_app := a1, rc_last_sent := x_sent_at x \<rparr>))))
     else Inr p)"

definition handle_message :: "'j rsmp_lib \<Rightarrow> turn_args \<Rightarrow> receiver \<Rightarrow> received \<Rightarrow> receiver run" where
  "handle_message L x p rx =
    rbind (received_msg rx) (\<lambda>m. rbind (rsmp_message_type_get m) (\<lambda>t.
      if t = T_Watchdog
      then rbind (rsmp_msg_MessageAck_to (Some m)) (\<lambda>ack. rbind (sendMessage_app L (rc_app p) ack None) (\<lambda>(a1, ret).
           rbind (rsmp_message_free (Some m)) (\<lambda>_. Inr (p\<lparr> rc_app := a1, rc_last_rxed := x_done_at x \<rparr>))))
      else case rsmp_message_desc_get t of
             None \<Rightarrow> Inl Null_deref
           | Some d \<Rightarrow>
               rbind (if md_callback d then msg_callback t L (rc_app p) None m (x_id_reply x) (x_done_at x)
                      else Inr (rc_app p, E_no_error)) (\<lambda>(a1, ret).
               rbind (rsmp_message_free (Some m)) (\<lambda>_. Inr (p\<lparr> rc_app := a1 \<rparr>)))))"

definition external_receive_turn :: "'j rsmp_lib \<Rightarrow> turn_args \<Rightarrow> receiver \<Rightarrow> receiver run" where
  "external_receive_turn L x p =
    rbind (send_watchdog L x p) (\<lambda>p1.
    rbind (waitForMessage L (rc_app p1) (exchange.truncate x)) (\<lambda>(a2, r).
      let p2 = p1\<lparr> rc_app := a2 \<rparr>
      in case r of
           Inr rx \<Rightarrow> handle_message L x p2 rx
         | Inl err \<Rightarrow>
             Inr (if watchdog_period_sec + tolerance_sec \<le> t_diff_sec (r_times L) (x_done_at x) (rc_last_rxed p2)
                  then p2\<lparr> rc_app := with_session a2 (cyber_stop (ap_session a2)) \<rparr> else p2)))"

text \<open>The task goes on until the program is told to stop; the list has the turns up to then.\<close>
fun external_receive :: "'j rsmp_lib \<Rightarrow> turn_args list \<Rightarrow> receiver \<Rightarrow> receiver run" where
  "external_receive L [] p = Inr p"
| "external_receive L (x # xs) p = rbind (external_receive_turn L x p) (external_receive L xs)"

section \<open>The application and the session\<close>

lemma member_case_items [run_cases]:
  "(case m of M_items d its \<Rightarrow> f d its | _ \<Rightarrow> Inl Wrong_type) = Inr r \<longleftrightarrow>
    (\<exists>d its. m = M_items d its \<and> f d its = Inr r)"
  by (cases m) auto

lemma if_fault_cases: "(if c then Inl e else x) = Inr r \<longleftrightarrow> \<not> c \<and> x = Inr r"
  by simp

text \<open>One answer is queued, or two.\<close>
lemma command_exe_sends:
  assumes "rsmp_msg_CommandRequest_exe L a attrib msg i now = Inr (a1, ret)"
  shows "(\<exists>n. rsmp_engine_send_msg L a n attrib = Inr (a1, ret)) \<or>
       (\<exists>n b r g k. rsmp_engine_send_msg L a n attrib = Inr (b, r) \<and>
         rsmp_engine_send_msg L (b\<lparr> ap_rsmp := g \<rparr>) k attrib = Inr (a1, ret))"
proof -
  obtain args where
    b: "(if args = [] then rbind (rsmp_msg_MessageNotAck_to (Some msg) ''no arg items...'') (\<lambda>nack. rsmp_engine_send_msg L a nack attrib)
      else rbind (inactive_arg (ap_cmds a) args) (\<lambda>r.
        case r of
          Some err \<Rightarrow> rbind (rsmp_msg_MessageNotAck_to (Some msg) ''cCI:%s not allowed/defined'') (\<lambda>nack. rsmp_engine_send_msg L a nack attrib)
        | None \<Rightarrow>
            rbind (rsmp_msg_MessageAck_to (Some msg)) (\<lambda>ack.
            rbind (rsmp_engine_send_msg L a ack attrib) (\<lambda>(a1, ret1).
            rbind (rsmp_msg_CommandResponse_from_request (ap_rsmp a1) (Some msg) i now) (\<lambda>(g1, response).
            rbind (exe_args (ap_cmds a1) args) (\<lambda>u. rsmp_engine_send_msg L (a1\<lparr> ap_rsmp := g1 \<rparr>) (Some response) attrib))))))
      = Inr (a1, ret)"
    using assms unfolding rsmp_msg_CommandRequest_exe_def rbind_Inr_iff if_fault_cases member_case_items by blast
  show ?thesis
  proof (cases "args = []")
    case True
    thus ?thesis using b by (simp only: refl if_True rbind_Inr_iff) blast
  next
    case False
    hence "(\<exists>n. rsmp_engine_send_msg L a n attrib = Inr (a1, ret)) \<or>
      (\<exists>ack. rbind (rsmp_engine_send_msg L a ack attrib) (\<lambda>(a1, ret1).
            rbind (rsmp_msg_CommandResponse_from_request (ap_rsmp a1) (Some msg) i now) (\<lambda>(g1, response).
            rbind (exe_args (ap_cmds a1) args) (\<lambda>u. rsmp_engine_send_msg L (a1\<lparr> ap_rsmp := g1 \<rparr>) (Some response) attrib))) = Inr (a1, ret))"
      using b by (simp only: False if_False rbind_case_option) (simp only: rbind_Inr_iff, blast)
    thus ?thesis unfolding split_def rbind_Inr_iff by (metis prod.collapse)
  qed
qed

lemma handle_other_cases:
  assumes "handle_message L x p rx = Inr p1" "received_msg rx = Inr m" "rsmp_message_type_get m = Inr t" "t \<noteq> T_Watchdog"
  shows "\<exists>b. p1 = p\<lparr> rc_app := b \<rparr> \<and>
    (b = rc_app p \<or> (\<exists>u. msg_callback t L (rc_app p) None m (x_id_reply x) (x_done_at x) = Inr (b, u)))"
proof -
  obtain d b u where "(if md_callback (d :: msg_desc) then msg_callback t L (rc_app p) None m (x_id_reply x) (x_done_at x)
      else Inr (rc_app p, E_no_error)) = Inr (b, u)" "p1 = p\<lparr> rc_app := b \<rparr>"
    using assms by (auto simp: handle_message_def rbind_case_prod split: option.splits)
  thus ?thesis by (auto split: if_splits)
qed

text \<open>What every send and every wait of the application keeps of a session, all its operations keep.\<close>
locale session_use =
  fixes keeps :: "session \<Rightarrow> bool"
  assumes cyber_send_keeps: "keeps s \<Longrightarrow> cyber_send s payload login = Inr (s1, ret) \<Longrightarrow> keeps s1"
    and external_keeps: "keeps s \<Longrightarrow> waitForMessage_external s = (s1, p) \<Longrightarrow> keeps s1"
begin

lemma engine_keeps:
  assumes "rsmp_engine_send_msg L a msg attrib = Inr (a1, ret)" "keeps (ap_session a)"
  shows "keeps (ap_session a1)"
  using assms
  by (auto simp: rsmp_engine_send_msg_def with_session_def run_cases split: option.splits intro: cyber_send_keeps)

lemma wait_keeps:
  assumes "waitForMessage L a x = Inr (a1, r)" "keeps (x_other x (ap_session a))"
  shows "keeps (ap_session a1)"
proof -
  obtain s1 p where w: "waitForMessage_external (x_other x (ap_session a)) = (s1, p)" by fastforce
  have "keeps s1" by (rule external_keeps [OF assms(2) w])
  moreover have "ap_session a1 = s1"
    using assms(1) w
    by (cases "rsmp_context_global_get (ap_rsmp a)") (auto simp: waitForMessage_def with_session_def Let_def run_cases split: option.splits prod.splits)
  ultimately show ?thesis by simp
qed

lemma message_exe_keeps:
  assumes "rsmp_message_exe L a attrib msg = Inr (a1, ret)" "keeps (ap_session a)"
  shows "keeps (ap_session a1)"
proof -
  have "a1 = a \<or> (\<exists>n r. rsmp_engine_send_msg L a n attrib = Inr (a1, r))"
    using assms(1) by (auto simp: rsmp_message_exe_def run_cases split: if_splits option.splits)
  thus ?thesis using engine_keeps [OF _ assms(2)] assms(2) by blast
qed

lemma watchdog_exe_keeps:
  assumes "rsmp_msg_Watchdog_exe L a attrib msg = Inr (a1, ret)" "keeps (ap_session a)"
  shows "keeps (ap_session a1)"
proof -
  have "\<exists>n r. rsmp_engine_send_msg L a n attrib = Inr (a1, r)"
    using assms(1) by (auto simp: rsmp_msg_Watchdog_exe_def run_cases split: if_splits)
  thus ?thesis using engine_keeps [OF _ assms(2)] by blast
qed

lemma command_exe_keeps:
  assumes "rsmp_msg_CommandRequest_exe L a attrib msg i now = Inr (a1, ret)" "keeps (ap_session a)"
  shows "keeps (ap_session a1)"
  using command_exe_sends [OF assms(1)]
proof (elim disjE exE conjE)
  fix n b r g k
  assume n: "rsmp_engine_send_msg L a n attrib = Inr (b, r)" and k: "rsmp_engine_send_msg L (b\<lparr> ap_rsmp := g \<rparr>) k attrib = Inr (a1, ret)"
  have "keeps (ap_session (b\<lparr> ap_rsmp := g \<rparr>))" using engine_keeps [OF n assms(2)] by simp
  from engine_keeps [OF k this] show ?thesis .
qed (use engine_keeps [OF _ assms(2)] in blast)

lemma status_exe_keeps:
  assumes "rsmp_msg_StatusRequest_exe L a attrib msg i now = Inr (a1, ret)" "keeps (ap_session a)"
  shows "keeps (ap_session a1)"
proof -
  obtain p x g where s: "cyber_send (ap_session a) p attrib = Inr x" "a1 = with_session (a\<lparr> ap_rsmp := g \<rparr>) (fst x)"
    using assms(1)
    unfolding rsmp_msg_StatusRequest_exe_def split_def rbind_Inr_iff if_fault_cases member_case_items case_option_result
    by (auto simp del: rbind_Inr_iff)
  obtain s1 r where x: "x = (s1, r)" by fastforce
  have "ap_session a1 = s1" using s(2) x by (simp add: with_session_def)
  thus ?thesis using cyber_send_keeps [OF assms(2)] s(1) x by blast
qed

lemma exe_keeps:
  assumes "msg_callback t L a attrib msg i now = Inr (a1, ret)" "keeps (ap_session a)"
  shows "keeps (ap_session a1)"
  using assms message_exe_keeps watchdog_exe_keeps command_exe_keeps status_exe_keeps
  by (metis msg_callback_def)

lemma watchdog_keeps:
  assumes "send_watchdog L x p = Inr p1" "keeps (ap_session (rc_app p))"
  shows "keeps (ap_session (rc_app p1))"
proof -
  have "p1 = p \<or> (\<exists>g msg b u. rsmp_engine_send_msg L ((rc_app p)\<lparr> ap_rsmp := g \<rparr>) msg None = Inr (b, u) \<and>
      p1 = p\<lparr> rc_app := b, rc_last_sent := x_sent_at x \<rparr>)"
    using assms(1) by (auto simp: send_watchdog_def sendMessage_app_def rbind_case_prod split: if_splits)
  moreover have "keeps (ap_session ((rc_app p)\<lparr> ap_rsmp := g \<rparr>))" for g using assms(2) by simp
  ultimately show ?thesis using engine_keeps assms(2) by fastforce
qed

lemma handle_keeps:
  assumes "handle_message L x p rx = Inr p1" "keeps (ap_session (rc_app p))"
  shows "keeps (ap_session (rc_app p1))"
proof -
  obtain m t where m: "received_msg rx = Inr m" "rsmp_message_type_get m = Inr t"
    using assms(1) by (auto simp: handle_message_def)
  show ?thesis
  proof (cases "t = T_Watchdog")
    case True
    then obtain ack b u where "rsmp_engine_send_msg L (rc_app p) ack None = Inr (b, u)" "p1 = p\<lparr> rc_app := b, rc_last_rxed := x_done_at x \<rparr>"
      using assms(1) m by (auto simp: handle_message_def sendMessage_app_def rbind_case_prod)
    thus ?thesis using engine_keeps [OF _ assms(2)] by simp
  next
    case False
    then obtain b where "p1 = p\<lparr> rc_app := b \<rparr>"
      "b = rc_app p \<or> (\<exists>u. msg_callback t L (rc_app p) None m (x_id_reply x) (x_done_at x) = Inr (b, u))"
      using handle_other_cases [OF assms(1) m] by blast
    from this(2) have "keeps (ap_session b)"
    proof
      assume "\<exists>u. msg_callback t L (rc_app p) None m (x_id_reply x) (x_done_at x) = Inr (b, u)"
      then obtain u where "msg_callback t L (rc_app p) None m (x_id_reply x) (x_done_at x) = Inr (b, u)" ..
      from exe_keeps [OF this assms(2)] show ?thesis .
    qed (use assms(2) in simp)
    thus ?thesis using \<open>p1 = p\<lparr> rc_app := b \<rparr>\<close> by simp
  qed
qed

end

interpretation reach: session_use "sess_reach E s0" for E s0
  by unfold_locales (auto intro: Reach_step App_send App_wait)

text \<open>Whether the session is stopped is not for the application's sends and waits to change.\<close>
interpretation stops: session_use "\<lambda>s. s_stop s = b" for b
proof (unfold_locales, goal_cases)
  case (1 s payload login s1 ret)
  thus ?case using cyber_send_effect [OF 1(2)] by auto
next
  case (2 s s1 p)
  thus ?case by (auto simp: waitForMessage_external_def split: list.splits)
qed

end
