(* ===== verification/RsmpTasks.thy ===== *)
theory RsmpTasks
  imports RsmpApp
begin

text \<open>
  Properties of the application: what its tasks do to the session, the watchdog, and what becomes of
  the requests of the peer.
\<close>

section \<open>Steps of the session\<close>

text \<open>What the other tasks do while the application waits are steps of the session.\<close>
definition steps_between :: "'j env \<Rightarrow> session \<Rightarrow> exchange \<Rightarrow> bool" where
  "steps_between E s0 x \<longleftrightarrow> (\<forall>s. sess_reach E s0 s \<longrightarrow> sess_reach E s0 (x_other x s))"

lemma wait_steps:
  assumes "waitForMessage L a x = Inr (a1, r)" "sess_reach E s0 (ap_session a)" "steps_between E s0 x"
  shows "sess_reach E s0 (ap_session a1)"
proof -
  have "sess_reach E s0 (x_other x (ap_session a))" using assms(2,3) by (simp add: steps_between_def)
  thus ?thesis by (rule reach.wait_keeps [OF assms(1)])
qed

lemma send_version_steps:
  assumes "sendVersionAndWaitAck L a x = Inr (a1, ret)" "sess_reach E s0 (ap_session a)" "steps_between E s0 x"
  shows "sess_reach E s0 (ap_session a1)"
proof -
  obtain g msg b u b1 r where s: "rsmp_engine_send_msg L (a\<lparr> ap_rsmp := g \<rparr>) msg None = Inr (b, u)"
    "waitForMessage L b x = Inr (b1, r)" "a1 = b1"
    using assms(1)
    by (auto simp: sendVersionAndWaitAck_def sendMessage_app_def rbind_case_prod case_sum_result)
  have "sess_reach E s0 (ap_session b)" using reach.engine_keeps [OF s(1)] assms(2) by simp
  thus ?thesis using wait_steps [OF s(2) _ assms(3)] s(3) by simp
qed

lemma wait_version_steps:
  assumes "waitVersionAndSendAck L a x = Inr (a1, ret)" "sess_reach E s0 (ap_session a)" "steps_between E s0 x"
  shows "sess_reach E s0 (ap_session a1)"
proof -
  obtain b r where w: "waitForMessage L a x = Inr (b, r)"
    and k: "a1 = b \<or> (\<exists>ack u. rsmp_engine_send_msg L b ack None = Inr (a1, u))"
    using assms(1)
    by (auto simp: waitVersionAndSendAck_def sendMessage_app_def rbind_case_prod case_sum_result split: if_splits)
  have "sess_reach E s0 (ap_session b)" by (rule wait_steps [OF w assms(2,3)])
  thus ?thesis using k reach.engine_keeps by blast
qed

lemma versions_steps:
  assumes "echange_versions L a x y = Inr (a1, ret)" "sess_reach E s0 (ap_session a)" "steps_between E s0 x" "steps_between E s0 y"
  shows "sess_reach E s0 (ap_session a1)"
  using assms send_version_steps wait_version_steps
  by (fastforce simp: echange_versions_def rbind_case_prod split: if_splits)

lemma watchdog_last: "send_watchdog L x p = Inr p1 \<Longrightarrow> rc_last_rxed p1 = rc_last_rxed p"
  by (auto simp: send_watchdog_def sendMessage_app_def rbind_case_prod split: if_splits)

lemma turn_steps:
  assumes "external_receive_turn L x p = Inr p1" "sess_reach E s0 (ap_session (rc_app p))"
    and "steps_between E s0 (exchange.truncate x)"
  shows "sess_reach E s0 (ap_session (rc_app p1))"
proof -
  obtain q a2 r where t: "send_watchdog L x p = Inr q" "waitForMessage L (rc_app q) (exchange.truncate x) = Inr (a2, r)"
    and k: "(\<exists>rx. handle_message L x (q\<lparr> rc_app := a2 \<rparr>) rx = Inr p1) \<or> p1 = q\<lparr> rc_app := a2 \<rparr> \<or>
      p1 = q\<lparr> rc_app := with_session a2 (cyber_stop (ap_session a2)) \<rparr>"
    using assms(1)
    by (auto simp: external_receive_turn_def Let_def rbind_case_prod case_sum_result split: if_splits)
  have "sess_reach E s0 (ap_session a2)" by (rule wait_steps [OF t(2) reach.watchdog_keeps [OF t(1) assms(2)] assms(3)])
  thus ?thesis using k reach.handle_keeps Reach_step [OF _ Stop] by (fastforce simp: with_session_def)
qed

lemma receive_steps:
  assumes "external_receive L xs p = Inr p1" "sess_reach E s0 (ap_session (rc_app p))"
    and "\<forall>x \<in> set xs. steps_between E s0 (exchange.truncate x)"
  shows "sess_reach E s0 (ap_session (rc_app p1))"
  using assms by (induction xs arbitrary: p) (auto intro: turn_steps)


section \<open>Commands\<close>

lemma registered: "rsmp_sxl_initialize [] =
    Inr [''DISP/M31'', ''DISP/M32'', ''DISP/M40'', ''DISP/M41'', ''DISP/S10'', ''DISP/S20'', ''DISP/S30'', ''DISP/S40'']"
  by (simp add: rsmp_sxl_initialize_def register_disp_handlers_def register_disp_command_handlers_def
      register_disp_status_handlers_def rsmp_sxl_cmd_add_def rsmp_sxl_find_by_cCI_def)

lemma command_exe_first:
  assumes "map_of msg ''type'' = Some (M_type T_CommandRequest)" "map_of msg ''arg'' = Some (M_items d (it # its))"
    and "map_of it ''cCI'' = Some (M_str (Some cmd))"
  shows "rsmp_msg_CommandRequest_exe L a attrib msg i now =
    (if cmd \<in> set (ap_cmds a) then Inl Wrong_type
     else rbind (rsmp_msg_MessageNotAck_to (Some msg) ''cCI:%s not allowed/defined'') (\<lambda>nack. rsmp_engine_send_msg L a nack attrib))"
  using assms
  by (cases "ap_cmds a") (auto simp: rsmp_msg_CommandRequest_exe_def type_get_defs as_str_def
      rsmp_sxl_cmd_is_active_def rsmp_sxl_find_by_cCI_def)

section \<open>Statuses\<close>

lemma item_text_eq: "map_of it k = Some (M_str (Some s)) \<Longrightarrow> item_text it k = Inr s"
  by (simp add: item_text_def member_get_def as_str_def)

definition add_status :: "'j rjson \<Rightarrow> (string \<Rightarrow> string \<Rightarrow> 'j option) \<Rightarrow> 'j \<Rightarrow> string \<times> string \<Rightarrow> 'j" where
  "add_status J f arr p = (case f (fst p) (snd p) of None \<Rightarrow> arr | Some v \<Rightarrow> j_array_add J arr v)"

definition item_of :: "string \<times> string \<Rightarrow> struct \<Rightarrow> bool" where
  "item_of p it \<longleftrightarrow> map_of it ''sCI'' = Some (M_str (Some (fst p))) \<and> map_of it ''n'' = Some (M_str (Some (snd p)))"

text \<open>The callback that answers is the one whose position has its name.\<close>
lemma callback_by_position:
  assumes "list_all2 item_of ps items" "item_of p it" "items \<noteq> []"
  shows "callback_loop (callbacks J) 0 items it =
    (if fst (hd ps) = ''GEN/S1'' then Inr (fct_GEN_S1 J (fst p) (snd p))
     else case tl ps of
            [] \<Rightarrow> Inl Read_oob
          | q # _ \<Rightarrow> Inr (if fst q = ''GEN/S2'' then fct_GEN_S2 J (fst p) (snd p) else None))"
proof -
  obtain p0 r where ps: "ps = p0 # r" using assms(1,3) by (cases ps) auto
  obtain i0 is0 where items: "items = i0 # is0" using assms(3) by (cases items) auto
  have t: "item_text i0 ''sCI'' = Inr (fst p0)" "item_text it ''sCI'' = Inr (fst p)" "item_text it ''n'' = Inr (snd p)"
    using assms(1,2) ps items by (auto simp: item_of_def item_text_eq)
  show ?thesis
  proof (cases r)
    case Nil
    hence "is0 = []" using assms(1) ps items by auto
    thus ?thesis using t ps items Nil by (simp add: callbacks_def bread_def)
  next
    case (Cons p1 r')
    then obtain i1 is1 where isq: "is0 = i1 # is1" "item_of p1 i1" using assms(1) ps items by (cases is0) auto
    hence "item_text i1 ''sCI'' = Inr (fst p1)" by (auto simp: item_of_def item_text_eq)
    thus ?thesis using t ps items Cons isq by (simp add: callbacks_def bread_def eq_commute [of "''GEN/S1''"] eq_commute [of "''GEN/S2''"])
  qed
qed

lemma status_by_position:
  assumes "list_all2 item_of ps items" "items \<noteq> []" "list_all2 item_of qs its"
  shows "status_loop J items its arr =
    (if fst (hd ps) = ''GEN/S1'' then Inr (foldl (add_status J (fct_GEN_S1 J)) arr qs)
     else if its = [] then Inr arr
     else case tl ps of
            [] \<Rightarrow> Inl Read_oob
          | q # _ \<Rightarrow> Inr (if fst q = ''GEN/S2'' then foldl (add_status J (fct_GEN_S2 J)) arr qs else arr))"
  using assms(3)
proof (induction qs its arbitrary: arr rule: list_all2_induct)
  case Nil
  thus ?case by simp
next
  case (Cons q qs it its)
  note c = callback_by_position [OF assms(1) Cons(1) assms(2), of J]
  show ?case
  proof (cases "fst (hd ps) = ''GEN/S1''")
    case True
    thus ?thesis using c Cons.IH by (simp add: add_status_def)
  next
    case False
    thus ?thesis using c Cons.IH Cons(2) by (cases "tl ps") (auto simp: add_status_def)
  qed
qed


section \<open>Payloads\<close>

text \<open>The empty text is no object with members.\<close>
definition no_empty :: "'j rsmp_lib \<Rightarrow> bool" where
  "no_empty L \<longleftrightarrow> (\<forall>v. j_parse (r_json L) [] = Some v \<longrightarrow> j_get (r_json L) v ''mType'' = None)"

lemma payload_not_empty:
  assumes "no_empty L" "rsmp_json_payload2msg L g (Some c) (Some payload) i now = Inr (g1, Message r)"
  shows "payload \<noteq> []"
  using assms
  by (auto simp: no_empty_def rsmp_json_payload2msg_def rsmp_json_mType_check_def rsmp_json_key_value_check_def
      rsmp_json_object_get_def split: option.splits if_splits)

text \<open>The session accepts a message for a login of the way out.\<close>
definition accepts :: "session \<Rightarrow> string \<Rightarrow> bool" where
  "accepts s l \<longleftrightarrow> s_ac_rxed s \<and> s_ac_sent s \<and> send_login s None = Some l"

definition queued :: "session \<Rightarrow> string \<Rightarrow> string \<Rightarrow> session" where
  "queued s payload l = s\<lparr> s_send_q := s_send_q s @ [\<lparr> o_buf = payload, o_encrypt = True, o_login = Some l \<rparr>] \<rparr>"

lemma send_queued:
  assumes "accepts (ap_session a) l" "rsmp_json_msg2payload L (Some m) = Inr (Some payload)" "payload \<noteq> []"
  shows "rsmp_engine_send_msg L a (Some m) None = Inr (with_session a (queued (ap_session a) payload l), E_no_error)"
  using assms by (simp add: rsmp_engine_send_msg_def cyber_send_def send_optional_encryption_def accepts_def queued_def)

section \<open>Properties\<close>

text \<open>C7. The application only acts on the session by its interface: the exchange of the versions and any
  number of turns of the receiving task take the session along its steps, whatever the peer sends and
  whatever the other tasks do in between, so that the invariant of the session holds all along.  The
  task starts only when the versions were exchanged.\<close>
theorem rsmp_application_steps:
  assumes "auth_dbs_ok d"
    and "cyber_start (e_json E) u started False sent (Inr input) (prepared tab d loc rem leader) = Inr (s1, E_no_error)"
    and "sess_reach E s1 (ap_session a)" "steps_between E s1 x" "steps_between E s1 y"
  shows "(\<forall>a1 r. callback_cyber_ready L a x y now = Inr (a1, r) \<longrightarrow>
      sess_reach E s1 (ap_session a1) \<and> sess_inv (ap_session a1) \<and>
      (\<forall>p. r = Some p \<longrightarrow> p = external_receive_start a1 now)) \<and>
    (\<forall>p xs p1. sess_reach E s1 (ap_session (rc_app p)) \<longrightarrow>
      (\<forall>z \<in> set xs. steps_between E s1 (exchange.truncate z)) \<longrightarrow> external_receive L xs p = Inr p1 \<longrightarrow>
      sess_reach E s1 (ap_session (rc_app p1)) \<and> sess_inv (ap_session (rc_app p1)))"
proof -
  have inv: "sess_inv s" if "sess_reach E s1 s" for s by (rule reach_inv [OF that start_inv [OF assms(1,2)]])
  have "sess_reach E s1 (ap_session a1) \<and> (\<forall>p. r = Some p \<longrightarrow> p = external_receive_start a1 now)"
    if c: "callback_cyber_ready L a x y now = Inr (a1, r)" for a1 r
  proof -
    obtain ret where v: "echange_versions L a x y = Inr (a1, ret)"
      "r = (if ret \<noteq> E_no_error then None else Some (external_receive_start a1 now))"
      using c by (auto simp: callback_cyber_ready_def rbind_case_prod)
    thus ?thesis using versions_steps [OF v(1) assms(3-5)] by auto
  qed
  thus ?thesis using inv receive_steps by blast
qed

definition turn_sample :: turn_args where
  "turn_sample = \<lparr> x_mId = [], x_now = (0, 0), x_id_rxed = [], x_other = (\<lambda>s. s), x_stop = True, x_sent_at = (0, 0),
    x_done_at = (100, 0), x_id_reply = [] \<rparr>"

lemma turn_sample_stops:
  assumes "s_external_q (ap_session (rc_app p)) = []" "fst (rc_last_rxed p) = 0"
  shows "external_receive_turn sample_lib turn_sample p =
    Inr (p\<lparr> rc_app := with_session (rc_app p) (cyber_stop (ap_session (rc_app p))) \<rparr>)"
  using assms
  by (simp add: external_receive_turn_def send_watchdog_def turn_sample_def waitForMessage_def exchange.truncate_def
      waitForMessage_external_def with_session_def watchdog_period_sec_def tolerance_sec_def sample_lib_def times_unary_def)

theorem rsmp_application_steps_witness:
  "\<exists>s p1. s_remote s = Some ''B'' \<and> external_receive sample_lib [turn_sample]
      (external_receive_start \<lparr> ap_session = s, ap_rsmp = fresh_env, ap_cmds = [] \<rparr> (0, 0)) = Inr p1 \<and>
    s_stop (ap_session (rc_app p1)) \<and> sess_inv (ap_session (rc_app p1))"
proof -
  obtain input s where s: "cyber_start (e_json env_sample) ''u'' E_no_error False E_no_error (Inr input)
     (prepared cipher_table0 base_A (Some ''A'') (Some ''B'') False) = Inr (s, E_no_error)" "s_remote s = Some ''B''"
    using start_sample [of base_A] by (auto simp: env_sample_def)
  have ok: "auth_dbs_ok base_A" by code_simp
  let ?a = "\<lparr> ap_session = s, ap_rsmp = fresh_env, ap_cmds = [] \<rparr>"
  let ?p = "external_receive_start ?a (0, 0)"
  have b: "steps_between env_sample s (exchange.truncate turn_sample)"
    by (simp add: steps_between_def turn_sample_def exchange.truncate_def)
  have q: "s_external_q s = []"
    using cyber_start_effect [OF s(1)] by (auto simp: prepared_def cyber_new_from_transport_def cyber_priv_new_def)
  have run: "external_receive sample_lib [turn_sample] ?p =
      Inr (?p\<lparr> rc_app := with_session ?a (cyber_stop s) \<rparr>)"
    using turn_sample_stops [of ?p] q by (simp add: external_receive_start_def)
  have "sess_reach env_sample s (ap_session ?a)" by (simp add: Reach_refl)
  note A = rsmp_application_steps [OF ok s(1) this b b, of sample_lib "(0, 0)", THEN conjunct2, rule_format, of ?p "[turn_sample]"]
  have "sess_inv (ap_session (rc_app (?p\<lparr> rc_app := with_session ?a (cyber_stop s) \<rparr>)))"
    using A [OF _ _ run] b by (simp add: external_receive_start_def Reach_refl)
  thus ?thesis using s(2) run by (auto simp: with_session_def cyber_stop_def trigger_def)
qed

text \<open>C13. The watchdog of the peer: a message \<open>Watchdog\<close> that arrives is answered, and the answer, put at the
  end of the queue for an encryption under a login of the way out, reaches the peer as a
  \<open>MessageAck\<close> that names it; the clock of the peer's silence starts anew.\<close>
theorem rsmp_watchdog_answered:
  assumes J: "rjson_sound (r_json L)" "no_empty L" and u: "uuid_ok (r_uuids L) j" and c: "context_ok c"
    and m: "map_of m ''type'' = Some (M_type T_Watchdog)" "map_of m ''mId'' = Some (M_uuid j)"
    and up: "accepts (ap_session (rc_app p)) l"
  shows "\<exists>p1 payload g1 r. handle_message L x p (Message m) = Inr p1 \<and> rc_last_rxed p1 = x_done_at x \<and>
    ap_session (rc_app p1) = queued (ap_session (rc_app p)) payload l \<and>
    rsmp_json_payload2msg L g (Some c) (Some payload) i now = Inr (g1, Message r) \<and>
    map_of r ''type'' = Some (M_type T_MessageAck) \<and> map_of r ''oMId'' = Some (M_uuid j)"
proof -
  have "rsmp_message_desc_ack_get T_Watchdog" by (simp add: ack_type msg_active_iff)
  from ack_trip [OF J(1) u c m this, of g i now] obtain ack payload g1 r where
    a: "rsmp_msg_MessageAck_to (Some m) = Inr (Some ack)" "rsmp_json_msg2payload L (Some ack) = Inr (Some payload)"
    and r: "rsmp_json_payload2msg L g (Some c) (Some payload) i now = Inr (g1, Message r)"
      "map_of r ''type'' = Some (M_type T_MessageAck)" "map_of r ''oMId'' = Some (M_uuid j)" by blast
  note s = send_queued [OF up a(2) payload_not_empty [OF J(2) r(1)]]
  have "rsmp_message_free (Some m) = Inr ()"
    using m(1) by (simp add: rsmp_message_free_def type_get_defs rsmp_msg_desc_def active_desc_def)
  hence "handle_message L x p (Message m) =
      Inr (p\<lparr> rc_app := with_session (rc_app p) (queued (ap_session (rc_app p)) payload l), rc_last_rxed := x_done_at x \<rparr>)"
    using m(1) a(1) s by (simp add: handle_message_def received_msg_def type_get_defs sendMessage_app_def)
  thus ?thesis using r by (auto simp: with_session_def)
qed

definition session_up :: session where
  "session_up = session_A\<lparr> s_ac_rxed := True, s_ac_sent := True \<rparr>"

lemma session_up_accepts: "accepts session_up ''l''"
  by code_simp

theorem rsmp_watchdog_answered_witness:
  "\<exists>p1 payload g1 r. handle_message sample_lib turn_sample
      (external_receive_start \<lparr> ap_session = session_up, ap_rsmp = fresh_env, ap_cmds = [] \<rparr> (0, 0))
      (Message [(''type'', M_type T_Watchdog), (''mId'', M_uuid [0, 1])]) = Inr p1 \<and>
    rsmp_json_payload2msg sample_lib fresh_env (Some (the_context fresh_env)) (Some payload) [] (0, 0) = Inr (g1, Message r) \<and>
    map_of r ''oMId'' = Some (M_uuid [0, 1])"
proof -
  let ?p = "external_receive_start \<lparr> ap_session = session_up, ap_rsmp = fresh_env, ap_cmds = [] \<rparr> (0, 0)"
  let ?m = "[(''type'', M_type T_Watchdog), (''mId'', M_uuid [0, 1])]"
  have "rjson_sound (r_json sample_lib)" "no_empty sample_lib" "uuid_ok (r_uuids sample_lib) [0, 1]"
    "context_ok (the_context fresh_env)" "map_of ?m ''type'' = Some (M_type T_Watchdog)" "map_of ?m ''mId'' = Some (M_uuid [0, 1])"
    using text_rjson_sound env_ok_context [OF fresh_env_ok(1)]
    by (simp_all add: sample_lib_def sample_uuids_def uuid_ok_def no_nul_def no_empty_def text_rjson_def text_json_def)
  moreover have "accepts (ap_session (rc_app ?p)) ''l''" using session_up_accepts by (simp add: external_receive_start_def)
  ultimately show ?thesis
    using rsmp_watchdog_answered [of sample_lib "[0, 1]" "the_context fresh_env" ?m ?p "''l''" turn_sample fresh_env "[]" "(0, 0)"]
    by blast
qed

text \<open>The wait of a turn ends without a message: none came, or what came could not be decoded.\<close>
definition nothing_received :: "'j rsmp_lib \<Rightarrow> turn_args \<Rightarrow> receiver \<Rightarrow> bool" where
  "nothing_received L x p \<longleftrightarrow>
    (\<exists>q a err. send_watchdog L x p = Inr q \<and> waitForMessage L (rc_app q) (exchange.truncate x) = Inr (a, Inl err))"

definition watchdog_received :: "'j rsmp_lib \<Rightarrow> turn_args \<Rightarrow> receiver \<Rightarrow> bool" where
  "watchdog_received L x p \<longleftrightarrow>
    (\<exists>q a m. send_watchdog L x p = Inr q \<and> waitForMessage L (rc_app q) (exchange.truncate x) = Inr (a, Inr (Message m)) \<and>
      rsmp_message_type_get m = Inr T_Watchdog)"

lemma handle_last:
  assumes "handle_message L x p rx = Inr p1"
  shows "\<exists>m. rx = Message m \<and>
    rc_last_rxed p1 = (if rsmp_message_type_get m = Inr T_Watchdog then x_done_at x else rc_last_rxed p)"
proof -
  obtain m t where m: "received_msg rx = Inr m" "rsmp_message_type_get m = Inr t"
    using assms by (auto simp: handle_message_def)
  have "rc_last_rxed p1 = (if t = T_Watchdog then x_done_at x else rc_last_rxed p)"
  proof (cases "t = T_Watchdog")
    case True
    thus ?thesis using assms m by (auto simp: handle_message_def sendMessage_app_def rbind_case_prod)
  next
    case False
    thus ?thesis using handle_other_cases [OF assms m] by auto
  qed
  moreover have "rx = Message m" using m(1) by (cases rx) (simp_all add: received_msg_def)
  ultimately show ?thesis using m(2) by auto
qed

text \<open>What a turn does to the session and to the clock of the peer's silence.\<close>
lemma turn_stops:
  assumes run: "external_receive_turn L x p = Inr p1" and other: "\<forall>s. s_stop (x_other x s) = s_stop s"
  shows "s_stop (ap_session (rc_app p1)) \<longleftrightarrow> s_stop (ap_session (rc_app p)) \<or>
      nothing_received L x p \<and> 90 \<le> t_diff_sec (r_times L) (x_done_at x) (rc_last_rxed p)"
    and "rc_last_rxed p1 = (if watchdog_received L x p then x_done_at x else rc_last_rxed p)"
proof -
  obtain q a r where q: "send_watchdog L x p = Inr q" "waitForMessage L (rc_app q) (exchange.truncate x) = Inr (a, r)"
    and k: "(case r of Inr rx \<Rightarrow> handle_message L x (q\<lparr> rc_app := a \<rparr>) rx
      | Inl err \<Rightarrow> Inr (if 90 \<le> t_diff_sec (r_times L) (x_done_at x) (rc_last_rxed q)
           then q\<lparr> rc_app := a, rc_app := with_session a (cyber_stop (ap_session a)) \<rparr> else q\<lparr> rc_app := a \<rparr>)) = Inr p1"
    using run by (auto simp del: receiver.update_convs simp: external_receive_turn_def Let_def rbind_case_prod watchdog_period_sec_def tolerance_sec_def)
  have last: "rc_last_rxed q = rc_last_rxed p" by (rule watchdog_last [OF q(1)])
  have sq: "s_stop (ap_session (rc_app q)) = s_stop (ap_session (rc_app p))" by (rule stops.watchdog_keeps [OF q(1) refl])
  have sa: "s_stop (ap_session a) = s_stop (ap_session (rc_app p))"
    using stops.wait_keeps [OF q(2), of "s_stop (ap_session (rc_app p))"] sq other by (simp add: exchange.truncate_def)
  have stop: "s_stop (cyber_stop s)" for s by (simp add: cyber_stop_def trigger_def)
  have "(s_stop (ap_session (rc_app p1)) \<longleftrightarrow> s_stop (ap_session (rc_app p)) \<or>
        nothing_received L x p \<and> 90 \<le> t_diff_sec (r_times L) (x_done_at x) (rc_last_rxed p)) \<and>
      rc_last_rxed p1 = (if watchdog_received L x p then x_done_at x else rc_last_rxed p)"
  proof (cases r)
    case (Inl err)
    hence "nothing_received L x p" "\<not> watchdog_received L x p"
      using q by (auto simp: nothing_received_def watchdog_received_def)
    thus ?thesis using k Inl last sa stop by (auto simp: with_session_def split: if_splits)
  next
    case (Inr rx)
    hence h: "handle_message L x (q\<lparr> rc_app := a \<rparr>) rx = Inr p1" using k by simp
    have "\<not> nothing_received L x p" using q Inr by (auto simp: nothing_received_def)
    moreover have "s_stop (ap_session (rc_app p1)) = s_stop (ap_session (rc_app p))"
      using stops.handle_keeps [OF h, of "s_stop (ap_session a)"] sa by simp
    moreover obtain m where m: "rx = Message m"
      "rc_last_rxed p1 = (if rsmp_message_type_get m = Inr T_Watchdog then x_done_at x else rc_last_rxed p)"
      using handle_last [OF h] last by auto
    moreover have "watchdog_received L x p \<longleftrightarrow> rsmp_message_type_get m = Inr T_Watchdog"
      using q Inr m(1) by (auto simp: watchdog_received_def)
    ultimately show ?thesis by simp
  qed
  thus "s_stop (ap_session (rc_app p1)) \<longleftrightarrow> s_stop (ap_session (rc_app p)) \<or>
      nothing_received L x p \<and> 90 \<le> t_diff_sec (r_times L) (x_done_at x) (rc_last_rxed p)"
    and "rc_last_rxed p1 = (if watchdog_received L x p then x_done_at x else rc_last_rxed p)" by blast+
qed

text \<open>The turn of a run that drops the peer.\<close>
definition drops_peer :: "'j rsmp_lib \<Rightarrow> turn_args list \<Rightarrow> receiver \<Rightarrow> bool" where
  "drops_peer L xs p \<longleftrightarrow>
    (\<exists>ys z zs p2. xs = ys @ z # zs \<and> external_receive L ys p = Inr p2 \<and> nothing_received L z p2 \<and>
      90 \<le> t_diff_sec (r_times L) (x_done_at z) (rc_last_rxed p2))"

lemma drops_peer_Cons:
  assumes "external_receive_turn L x p = Inr p2"
  shows "drops_peer L (x # xs) p \<longleftrightarrow>
    nothing_received L x p \<and> 90 \<le> t_diff_sec (r_times L) (x_done_at x) (rc_last_rxed p) \<or> drops_peer L xs p2"
    (is "?l \<longleftrightarrow> ?now \<or> ?r")
proof
  assume ?l
  then obtain ys z zs p3 where c: "x # xs = ys @ z # zs" "external_receive L ys p = Inr p3" "nothing_received L z p3"
    "90 \<le> t_diff_sec (r_times L) (x_done_at z) (rc_last_rxed p3)" unfolding drops_peer_def by blast
  show "?now \<or> ?r"
  proof (cases ys)
    case (Cons y ys')
    hence "external_receive L ys' p2 = Inr p3" "xs = ys' @ z # zs" using c(1,2) assms by simp_all
    thus ?thesis using c(3,4) unfolding drops_peer_def by blast
  qed (use c in simp)
next
  assume "?now \<or> ?r"
  thus ?l
  proof
    assume ?now
    thus ?l unfolding drops_peer_def by (intro exI [of _ "[]"] exI [of _ x] exI [of _ xs] exI [of _ p]) simp
  next
    assume ?r
    then obtain ys z zs p3 where c: "xs = ys @ z # zs" "external_receive L ys p2 = Inr p3" "nothing_received L z p3"
      "90 \<le> t_diff_sec (r_times L) (x_done_at z) (rc_last_rxed p3)" unfolding drops_peer_def by blast
    have "external_receive L (x # ys) p = Inr p3" using c(2) assms by simp
    thus ?l unfolding drops_peer_def using c(1,3,4)
      by (intro exI [of _ "x # ys"] exI [of _ z] exI [of _ zs] exI [of _ p3]) simp
  qed
qed

lemma run_drops:
  assumes "external_receive L xs p = Inr p1" "\<forall>z \<in> set xs. \<forall>s. s_stop (x_other z s) = s_stop s"
  shows "s_stop (ap_session (rc_app p1)) \<longleftrightarrow> s_stop (ap_session (rc_app p)) \<or> drops_peer L xs p"
  using assms
proof (induction xs arbitrary: p)
  case (Cons x xs)
  then obtain p2 where r: "external_receive_turn L x p = Inr p2" "external_receive L xs p2 = Inr p1" by auto
  have o: "\<forall>s. s_stop (x_other x s) = s_stop s" using Cons.prems(2) by simp
  show ?case using Cons.IH [OF r(2)] Cons.prems(2) turn_stops(1) [OF r(1) o] drops_peer_Cons [OF r(1)] by auto
qed (simp add: drops_peer_def)

text \<open>A peer that sends nothing at all.\<close>
lemma silent_drops:
  assumes "external_receive L xs p = Inr p1"
    and "\<forall>z \<in> set xs. \<forall>s. s_external_q (x_other z s) = [] \<and> s_stop (x_other z s) = s_stop s"
  shows "rc_last_rxed p1 = rc_last_rxed p \<and>
    (drops_peer L xs p \<longleftrightarrow> (\<exists>z \<in> set xs. 90 \<le> t_diff_sec (r_times L) (x_done_at z) (rc_last_rxed p)))"
  using assms
proof (induction xs arbitrary: p)
  case (Cons x xs)
  then obtain p2 where r: "external_receive_turn L x p = Inr p2" "external_receive L xs p2 = Inr p1" by auto
  obtain q where q: "send_watchdog L x p = Inr q" using r(1) by (auto simp: external_receive_turn_def)
  have "waitForMessage L (rc_app q) (exchange.truncate x) =
      Inr (with_session (rc_app q) (x_other x (ap_session (rc_app q))), Inl C_generic)"
    using Cons.prems(2) by (simp add: waitForMessage_def waitForMessage_external_def exchange.truncate_def)
  hence n: "nothing_received L x p" "\<not> watchdog_received L x p"
    using q by (auto simp: nothing_received_def watchdog_received_def)
  have o: "\<forall>s. s_stop (x_other x s) = s_stop s" using Cons.prems(2) by simp
  have "rc_last_rxed p2 = rc_last_rxed p" using turn_stops(2) [OF r(1) o] n(2) by simp
  thus ?case using Cons.IH [OF r(2)] Cons.prems(2) n(1) drops_peer_Cons [OF r(1)] by auto
qed (simp add: drops_peer_def)

text \<open>C22. When the peer is dropped for its silence.  As long as nothing else stops the session, the receiving
  task stops it in exactly the runs with a turn that gets no message (none came, or what came could not be
  decoded) and ends ninety seconds or more after the last watchdog; that clock is set by the watchdogs
  received and by nothing else.  A peer that sends nothing is dropped at the first turn that ends ninety
  seconds after its last watchdog; a turn that gets a message, of whatever type, never drops the peer,
  however old its last watchdog is.\<close>
theorem rsmp_silent_peer_dropped:
  assumes "external_receive L xs p = Inr p1" and "\<forall>z \<in> set xs. \<forall>s. s_stop (x_other z s) = s_stop s"
  shows "s_stop (ap_session (rc_app p1)) =
      (s_stop (ap_session (rc_app p)) \<or>
       (\<exists>ys z zs p2. xs = ys @ z # zs \<and> external_receive L ys p = Inr p2 \<and> nothing_received L z p2 \<and>
         90 \<le> t_diff_sec (r_times L) (x_done_at z) (rc_last_rxed p2))) \<and>
    (\<forall>ys z zs p2 p3. xs = ys @ z # zs \<longrightarrow> external_receive L ys p = Inr p2 \<longrightarrow>
      external_receive_turn L z p2 = Inr p3 \<longrightarrow>
      rc_last_rxed p3 = (if watchdog_received L z p2 then x_done_at z else rc_last_rxed p2)) \<and>
    ((\<forall>z \<in> set xs. \<forall>s. s_external_q (x_other z s) = []) \<longrightarrow>
      rc_last_rxed p1 = rc_last_rxed p \<and>
      s_stop (ap_session (rc_app p1)) =
        (s_stop (ap_session (rc_app p)) \<or>
         (\<exists>z \<in> set xs. 90 \<le> t_diff_sec (r_times L) (x_done_at z) (rc_last_rxed p))))"
proof (intro conjI)
  show "s_stop (ap_session (rc_app p1)) =
      (s_stop (ap_session (rc_app p)) \<or>
       (\<exists>ys z zs p2. xs = ys @ z # zs \<and> external_receive L ys p = Inr p2 \<and> nothing_received L z p2 \<and>
         90 \<le> t_diff_sec (r_times L) (x_done_at z) (rc_last_rxed p2)))"
    using run_drops [OF assms] unfolding drops_peer_def .
  show "\<forall>ys z zs p2 p3. xs = ys @ z # zs \<longrightarrow> external_receive L ys p = Inr p2 \<longrightarrow>
      external_receive_turn L z p2 = Inr p3 \<longrightarrow>
      rc_last_rxed p3 = (if watchdog_received L z p2 then x_done_at z else rc_last_rxed p2)"
  proof (intro allI impI)
    fix ys z zs p2 p3
    assume "xs = ys @ z # zs" and r: "external_receive_turn L z p2 = Inr p3"
    hence "\<forall>s. s_stop (x_other z s) = s_stop s" using assms(2) by simp
    from turn_stops(2) [OF r this] show "rc_last_rxed p3 = (if watchdog_received L z p2 then x_done_at z else rc_last_rxed p2)" .
  qed
  show "(\<forall>z \<in> set xs. \<forall>s. s_external_q (x_other z s) = []) \<longrightarrow>
      rc_last_rxed p1 = rc_last_rxed p \<and>
      s_stop (ap_session (rc_app p1)) =
        (s_stop (ap_session (rc_app p)) \<or>
         (\<exists>z \<in> set xs. 90 \<le> t_diff_sec (r_times L) (x_done_at z) (rc_last_rxed p)))"
    using silent_drops [OF assms(1)] run_drops [OF assms] assms(2) by simp
qed

theorem rsmp_silent_peer_dropped_witness:
  "\<exists>p1. external_receive sample_lib ([] @ [turn_sample\<lparr> x_other := (\<lambda>s. s\<lparr> s_external_q := [] \<rparr>) \<rparr>])
      (external_receive_start \<lparr> ap_session = session_up, ap_rsmp = fresh_env, ap_cmds = [] \<rparr> (0, 0)) = Inr p1 \<and>
    s_stop (ap_session (rc_app p1))"
proof -
  let ?x = "turn_sample\<lparr> x_other := (\<lambda>s. s\<lparr> s_external_q := [] \<rparr>) \<rparr>"
  let ?p = "external_receive_start \<lparr> ap_session = session_up, ap_rsmp = fresh_env, ap_cmds = [] \<rparr> (0, 0)"
  obtain p1 where run: "external_receive sample_lib ([] @ [?x]) ?p = Inr p1"
    by (simp add: external_receive_turn_def send_watchdog_def turn_sample_def waitForMessage_def exchange.truncate_def
        waitForMessage_external_def external_receive_start_def Let_def)
  have others: "\<forall>z \<in> set ([] @ [?x]). \<forall>s. s_stop (x_other z s) = s_stop s"
    "\<And>z s. z \<in> set ([] @ [?x]) \<Longrightarrow> s_external_q (x_other z s) = []" by simp_all
  have "s_stop (ap_session (rc_app p1))"
    using rsmp_silent_peer_dropped [OF run others(1), THEN conjunct2, THEN conjunct2, rule_format, OF others(2)]
    by (simp add: turn_sample_def external_receive_start_def sample_lib_def times_unary_def)
  thus ?thesis using run by blast
qed

text \<open>C17. An object with the header of a message and no identifier, from a peer that can encrypt, makes the
  task that receives it use a message that was freed, whatever the state.\<close>
theorem rsmp_header_crashes_receiver:
  assumes J: "rjson_sound (r_json L)" and c: "env_ok (ap_rsmp (rc_app q))"
    and q: "send_watchdog L x p = Inr q"
    and w: "s_external_q (x_other x (ap_session (rc_app q))) = (text, from) # rest"
    and y: "j_parse (r_json L) text = Some y" "has_header (r_json L) t y" "msg_active t"
      "j_get (r_json L) y ''mId'' = None" "j_get (r_json L) y ''oMId'' = None"
  shows "external_receive_turn L x p = Inl Use_after_free"
proof -
  let ?s = "x_other x (ap_session (rc_app q))"
  let ?a = "with_session (rc_app q) (?s\<lparr> s_external_q := rest \<rparr>)"
  obtain g c0 where g: "rsmp_context_global_get (ap_rsmp ?a) = (g, c0)" by fastforce
  have "c0 = the_context (ap_rsmp (rc_app q))"
    using g by (simp add: rsmp_context_global_get_def with_session_def)
  hence "context_ok c0" using env_ok_context [OF c] by simp
  from payload_freed [OF J this y, of g] obtain g1 where
    "rsmp_json_payload2msg L g (Some c0) (Some text) (x_id_rxed x) (x_now x) = Inr (g1, Freed_message)" by blast
  hence "waitForMessage L (rc_app q) (exchange.truncate x) = Inr (?a\<lparr> ap_rsmp := g1 \<rparr>, Inr Freed_message)"
    using w g by (simp add: waitForMessage_def waitForMessage_external_def exchange.truncate_def Let_def)
  thus ?thesis using q by (simp add: external_receive_turn_def handle_message_def received_msg_def)
qed


theorem rsmp_header_crashes_receiver_witness:
  "external_receive_turn sample_lib turn_sample
      (external_receive_start \<lparr> ap_session = session_up
        \<lparr> s_external_q := [(j_print text_rjson (header_only T_Watchdog), None)] \<rparr>, ap_rsmp = fresh_env, ap_cmds = [] \<rparr> (0, 0))
    = Inl Use_after_free"
proof -
  let ?p = "external_receive_start \<lparr> ap_session = session_up
        \<lparr> s_external_q := [(j_print text_rjson (header_only T_Watchdog), None)] \<rparr>, ap_rsmp = fresh_env, ap_cmds = [] \<rparr> (0, 0)"
  have g: "j_get text_rjson (header_only t) k = (if k = ''type'' then Some (j_new_string_len text_rjson (rsmp_type_to_string t))
      else if k = ''mType'' then Some (j_new_string_len text_rjson (Some ''rSMsg'')) else None)" for t k
    using rjson_soundD(2,3) [OF text_rjson_sound] by (simp add: header_only_def) (simp add: text_rjson_def)
  have "rjson_sound (r_json sample_lib)" "env_ok (ap_rsmp (rc_app ?p))" "send_watchdog sample_lib turn_sample ?p = Inr ?p"
    "s_external_q (x_other turn_sample (ap_session (rc_app ?p))) = [(j_print text_rjson (header_only T_Watchdog), None)]"
    using text_rjson_sound fresh_env_ok(1)
    by (simp_all add: sample_lib_def external_receive_start_def send_watchdog_def turn_sample_def)
  moreover have "j_parse (r_json sample_lib) (j_print text_rjson (header_only T_Watchdog)) = Some (header_only T_Watchdog)"
    using rjson_soundD(1) [OF text_rjson_sound] by (simp add: header_only_def sample_lib_def)
  moreover have "has_header (r_json sample_lib) T_Watchdog (header_only T_Watchdog)" "msg_active T_Watchdog"
    "j_get (r_json sample_lib) (header_only T_Watchdog) ''mId'' = None" "j_get (r_json sample_lib) (header_only T_Watchdog) ''oMId'' = None"
    by (simp_all add: has_header_def g sample_lib_def msg_active_iff)
  ultimately show ?thesis by (rule rsmp_header_crashes_receiver)
qed

text \<open>C19. No command of the peer is ever carried out.  A request is answered with a \<open>MessageNotAck\<close> that names it
  as long as no command is registered, as the program leaves it, and also for a command that is not
  registered; for one that is, the search for it gives the address of a node of the tree, taken for
  the record.\<close>
theorem rsmp_command_request_refused:
  assumes J: "rjson_sound (r_json L)" "no_empty L" and u: "uuid_ok (r_uuids L) j" and c: "context_ok c"
    and m: "map_of m ''type'' = Some (M_type T_CommandRequest)" "map_of m ''mId'' = Some (M_uuid j)"
      "map_of m ''arg'' = Some (M_items d (it # its))" "map_of it ''cCI'' = Some (M_str (Some cmd))"
    and up: "accepts (ap_session a) l"
  shows "if cmd \<in> set (ap_cmds a)
    then rsmp_msg_CommandRequest_exe L a None m i now = Inl Wrong_type
    else \<exists>payload g1 r. rsmp_msg_CommandRequest_exe L a None m i now =
        Inr (with_session a (queued (ap_session a) payload l), E_no_error) \<and>
      rsmp_json_payload2msg L g (Some c) (Some payload) i now = Inr (g1, Message r) \<and>
      map_of r ''type'' = Some (M_type T_MessageNotAck) \<and> map_of r ''oMId'' = Some (M_uuid j)"
proof (cases "cmd \<in> set (ap_cmds a)")
  case True
  thus ?thesis using command_exe_first [OF m(1,3,4), of L a None i now] by simp
next
  case False
  have "rsmp_message_desc_ack_get T_CommandRequest" by (simp add: ack_type msg_active_iff)
  moreover have "no_nul ''cCI:%s not allowed/defined''" by (simp add: no_nul_def)
  ultimately obtain nack payload g1 r where
    n: "rsmp_msg_MessageNotAck_to (Some m) ''cCI:%s not allowed/defined'' = Inr (Some nack)"
      "rsmp_json_msg2payload L (Some nack) = Inr (Some payload)"
    and r: "rsmp_json_payload2msg L g (Some c) (Some payload) i now = Inr (g1, Message r)"
      "map_of r ''type'' = Some (M_type T_MessageNotAck)" "map_of r ''oMId'' = Some (M_uuid j)"
    using nack_trip [OF J(1) u _ c m(1,2)] by blast
  have "rsmp_msg_CommandRequest_exe L a None m i now = Inr (with_session a (queued (ap_session a) payload l), E_no_error)"
    using command_exe_first [OF m(1,3,4), of L a None i now] False n(1)
      send_queued [OF up n(2) payload_not_empty [OF J(2) r(1)]] by simp
  thus ?thesis using r False by auto
qed

theorem rsmp_command_request_refused_witness:
  "\<exists>payload. rsmp_msg_CommandRequest_exe sample_lib \<lparr> ap_session = session_up, ap_rsmp = fresh_env, ap_cmds = [] \<rparr> None
      sample_command [] (0, 0) =
    Inr (with_session \<lparr> ap_session = session_up, ap_rsmp = fresh_env, ap_cmds = [] \<rparr> (queued session_up payload ''l''), E_no_error)"
proof -
  let ?a = "\<lparr> ap_session = session_up, ap_rsmp = fresh_env, ap_cmds = [] \<rparr>"
  let ?it = "[(''cCI'', M_str (Some ''M31'')), (''n'', M_str (Some ''text'')), (''cO'', M_str (Some ''set'')), (''v'', M_chars True ''on'')]"
  have "rjson_sound (r_json sample_lib)" "no_empty sample_lib" "uuid_ok (r_uuids sample_lib) [0, 1]"
    "context_ok (the_context fresh_env)" "map_of sample_command ''type'' = Some (M_type T_CommandRequest)"
    "map_of sample_command ''mId'' = Some (M_uuid [0, 1])" "map_of sample_command ''arg'' = Some (M_items True (?it # []))"
    "map_of ?it ''cCI'' = Some (M_str (Some ''M31''))" "accepts (ap_session ?a) ''l''"
    using text_rjson_sound env_ok_context [OF fresh_env_ok(1)] session_up_accepts
    by (simp_all add: sample_lib_def sample_uuids_def uuid_ok_def no_nul_def no_empty_def text_rjson_def text_json_def
        sample_command_def)
  from rsmp_command_request_refused [OF this, of "[]" "(0, 0)" fresh_env] show ?thesis by auto
qed

text \<open>C26. A request for statuses is answered by position and not by name: the names of the first two items of
  the request alone decide which statuses all of its items are answered with, and a request with a
  single item that is not \<open>GEN/S1\<close> reads beyond the array of items, which ends the handler.\<close>
theorem rsmp_status_by_position:
  assumes i: "list_all2 item_of ps items" "items \<noteq> []"
  shows "status_loop J items items arr =
      (if fst (hd ps) = ''GEN/S1'' then Inr (foldl (add_status J (fct_GEN_S1 J)) arr ps)
       else case tl ps of
              [] \<Rightarrow> Inl Read_oob
            | q # _ \<Rightarrow> Inr (if fst q = ''GEN/S2'' then foldl (add_status J (fct_GEN_S2 J)) arr ps else arr)) \<and>
    (r_json L = J \<longrightarrow> env_ok (ap_rsmp a) \<longrightarrow> map_of m ''type'' = Some (M_type T_StatusRequest) \<longrightarrow>
      map_of m ''sS'' = Some (M_items d items) \<longrightarrow> length items = 1 \<longrightarrow> fst (hd ps) \<noteq> ''GEN/S1'' \<longrightarrow>
      rsmp_msg_StatusRequest_exe L a attrib m k now = Inl Read_oob)"
proof -
  note s = status_by_position [OF i i(1), of J]
  have "rsmp_msg_StatusRequest_exe L a attrib m k now = Inl Read_oob"
    if h: "r_json L = J" "env_ok (ap_rsmp a)" "map_of m ''type'' = Some (M_type T_StatusRequest)"
      "map_of m ''sS'' = Some (M_items d items)" "length items = 1" "fst (hd ps) \<noteq> ''GEN/S1''"
  proof -
    have "context_ok (used_context (ap_rsmp a) None)" using env_ok_context [OF h(2)] by (simp add: used_context_def)
    then obtain g1 st where "msg_desc_new T_StatusResponse (ap_rsmp a) None k now = Inr (g1, st)"
      using new_fits [of T_StatusResponse "ap_rsmp a" None k now] by (auto simp: msg_active_iff)
    moreover have "tl ps = []" using h(5) list_all2_lengthD [OF i(1)] by (cases ps) auto
    ultimately show ?thesis using h s [of "j_new_array J"] i(2)
      by (simp add: rsmp_msg_StatusRequest_exe_def type_get_defs rsmp_message_new_def)
  qed
  thus ?thesis using s [of arr] i(2) by simp
qed

theorem rsmp_status_by_position_witness:
  "status_loop text_rjson [[(''sCI'', M_str (Some ''GEN/S2'')), (''n'', M_str (Some ''Name''))]]
     [[(''sCI'', M_str (Some ''GEN/S2'')), (''n'', M_str (Some ''Name''))]] [] = Inl Read_oob"
  using rsmp_status_by_position [of "[(''GEN/S2'', ''Name'')]"
      "[[(''sCI'', M_str (Some ''GEN/S2'')), (''n'', M_str (Some ''Name''))]]" text_rjson "[]"]
  by (simp add: item_of_def)

end
