(* ===== verification/RsmpTyped.thy ===== *)
theory RsmpTyped
  imports RsmpFaults
begin

text \<open>
  The types of the members of a message: the descriptions fit the new messages, so that no payload
  makes a function of a field work on a member of another type; what is decoded has the members of
  its description with their types, and what has them can be encoded.
\<close>

section \<open>Types\<close>

fun keys_distinct :: "field_desc list \<Rightarrow> bool" where
  "keys_distinct [] \<longleftrightarrow> True"
| "keys_distinct (f # fs) \<longleftrightarrow>
    fd_lib f \<notin> fd_lib ` set fs \<and> keys_distinct fs \<and>
    (case f of FD_array l z ds \<Rightarrow> keys_distinct ds | _ \<Rightarrow> True)"

fun desc_typed :: "field_desc list \<Rightarrow> struct \<Rightarrow> bool" where
  "desc_typed [] st \<longleftrightarrow> True"
| "desc_typed (f # fs) st \<longleftrightarrow>
    desc_typed fs st \<and>
    (case map_of st (fd_lib f) of
       None \<Rightarrow> False
     | Some m \<Rightarrow>
         (case f of
            FD_field l c \<Rightarrow> kind_fits c m
          | FD_array l z ds \<Rightarrow> m_is_items m \<and> (\<forall>it \<in> set (m_items m). desc_typed ds it)
          | FD_table l z c \<Rightarrow> m_is_table m \<and> (\<forall>x \<in> set (m_table m). kind_fits c x)))"

lemma message_keys: "msg_active t \<Longrightarrow> keys_distinct (message_fields t)"
  by (cases t) (simp_all add: msg_active_iff msg_desc_defs item_desc_defs)

section \<open>Decoding\<close>

lemma decode_kind: "kind_fits c m \<Longrightarrow> field_decode L c var m = Inr (m', ok) \<Longrightarrow> kind_fits c m'"
  by (cases c) (auto simp: field_decode_def kind_fits_def as_defs apfst_def map_prod_def split: member.splits prod.splits)

lemma extract_kind:
  "kind_fits c m \<Longrightarrow> json_extract_field L ty obj c m = Inr (m', ok) \<Longrightarrow> kind_fits c m'"
  by (auto simp: json_extract_field_def split: option.splits dest: decode_kind)

lemma table_kinds:
  "json_table_extract L arr c i ms = Inr (ms', ok) \<Longrightarrow> \<forall>m \<in> set ms. kind_fits c m \<Longrightarrow> \<forall>m \<in> set ms'. kind_fits c m"
  by (induction L arr c i ms arbitrary: ms' ok rule: json_table_extract.induct)
    (fastforce simp: Let_def split: if_splits dest: extract_kind)+

lemma items_reset_zero: "items_reset z True old n = Inr b \<Longrightarrow> set b \<subseteq> {z}"
  by (auto simp: items_reset_def rsmp_array_initialize_def ra_flush_def rcalloc_def Let_def split: if_splits option.splits)

text \<open>What has to hold of the member a field of the description was read into.\<close>
definition member_typed :: "field_desc \<Rightarrow> member \<Rightarrow> bool" where
  "member_typed f m =
    (case f of
       FD_field l c \<Rightarrow> kind_fits c m
     | FD_array l z ds \<Rightarrow> m_is_items m \<and> (\<forall>it \<in> set (m_items m). desc_typed ds it)
     | FD_table l z c \<Rightarrow> m_is_table m \<and> (\<forall>x \<in> set (m_table m). kind_fits c x))"

lemma desc_typed_Cons:
  "desc_typed (f # fs) st \<longleftrightarrow> desc_typed fs st \<and> (\<exists>m. map_of st (fd_lib f) = Some m \<and> member_typed f m)"
  by (auto simp: member_typed_def split: option.splits)

lemma table_typed:
  assumes "json_extract_table L obj z c (M_table True ms) = Inr (m1, True)" "kind_fits c z"
  shows "m_is_table m1 \<and> (\<forall>x \<in> set (m_table m1). kind_fits c x)"
proof -
  obtain n b ms1 where r: "items_reset z True ms n = Inr b" "json_table_extract L obj c 0 b = Inr (ms1, True)" "m1 = M_table True ms1"
    using assms(1) by (auto simp: json_extract_table_def rbind_case_prod)
  have "\<forall>m \<in> set b. kind_fits c m" using items_reset_zero [OF r(1)] assms(2) by auto
  thus ?thesis using table_kinds [OF r(2)] r(3) by simp
qed

text \<open>One field of the description, and the rest.\<close>
lemma extract_step:
  assumes "json_extract_fields L jobj msg (f # fs) = Inr (msg', True)" "desc_fits (f # fs) msg"
  obtains ty obj m m1 where "rsmp_json_object_get (r_json L) jobj (fd_lib f) = Some (ty, obj)" "ty \<noteq> JT_null"
    "map_of msg (fd_lib f) = Some m" "json_extract_fields L jobj (member_set msg (fd_lib f) m1) fs = Inr (msg', True)"
    "case f of
       FD_field lib c \<Rightarrow> json_extract_field L ty obj c m = Inr (m1, True) \<and> kind_fits c m
     | FD_array lib z ds \<Rightarrow> \<exists>old n b its. m = M_items True old \<and> items_reset z True old n = Inr b \<and>
         json_items_extract L obj ds 0 b = Inr (its, True) \<and> m1 = M_items True its \<and> desc_fits ds z
     | FD_table lib z c \<Rightarrow> \<exists>ms. m = M_table True ms \<and> json_extract_table L obj z c m = Inr (m1, True) \<and> kind_fits c z"
proof -
  obtain ty obj where o: "rsmp_json_object_get (r_json L) jobj (fd_lib f) = Some (ty, obj)" "ty \<noteq> JT_null"
    using assms(1) by (auto split: option.splits if_splits)
  obtain m where m: "map_of msg (fd_lib f) = Some m" using assms(2) by (auto split: option.splits)
  show ?thesis
  proof (cases f)
    case (FD_field lib c)
    then obtain m1 where "json_extract_field L ty obj c m = Inr (m1, True)" "kind_fits c m"
      "json_extract_fields L jobj (member_set msg (fd_lib f) m1) fs = Inr (msg', True)"
      using assms o m by (auto simp: member_get_def Let_def rbind_case_prod split: if_splits dest: field_fits_kind)
    thus ?thesis by (intro that [OF o m]) (simp_all add: FD_field)
  next
    case (FD_array lib z ds)
    then obtain old n b its where "m = M_items True old" "items_reset z True old n = Inr b"
      "json_items_extract L obj ds 0 b = Inr (its, True)" "desc_fits ds z"
      "json_extract_fields L jobj (member_set msg (fd_lib f) (M_items True its)) fs = Inr (msg', True)"
      using assms o m by (auto simp: member_get_def Let_def rbind_case_prod split: if_splits member.splits)
    thus ?thesis by (intro that [OF o m]) (auto simp: FD_array)
  next
    case (FD_table lib z c)
    then obtain m1 where "json_extract_table L obj z c m = Inr (m1, True)" "kind_fits c z" "\<exists>ms. m = M_table True ms"
      "json_extract_fields L jobj (member_set msg (fd_lib f) m1) fs = Inr (msg', True)"
      using assms o m by (auto simp: member_get_def Let_def rbind_case_prod split: if_splits dest: field_fits_kind)
    thus ?thesis by (intro that [OF o m]) (auto simp: FD_table)
  qed
qed

lemma extract_typed:
  "json_extract_fields L obj msg ds = Inr (msg', True) \<Longrightarrow> desc_fits ds msg \<Longrightarrow> keys_distinct ds \<Longrightarrow>
    desc_typed ds msg' \<and> (\<forall>k. k \<notin> fd_lib ` set ds \<longrightarrow> map_of msg' k = map_of msg k)"
  "json_items_extract L obj ds i its = Inr (its', True) \<Longrightarrow> \<forall>it \<in> set its. desc_fits ds it \<Longrightarrow> keys_distinct ds \<Longrightarrow>
    \<forall>it \<in> set its'. desc_typed ds it"
proof (induction L obj msg ds and L obj ds i its arbitrary: msg' and its'
    rule: json_extract_fields_json_items_extract.induct)
  case (2 L jobj msg f fs)
  obtain ty ob m m1 where s: "rsmp_json_object_get (r_json L) jobj (fd_lib f) = Some (ty, ob)" "ty \<noteq> JT_null"
    "map_of msg (fd_lib f) = Some m" "json_extract_fields L jobj (member_set msg (fd_lib f) m1) fs = Inr (msg', True)"
    and k: "case f of
       FD_field lib c \<Rightarrow> json_extract_field L ty ob c m = Inr (m1, True) \<and> kind_fits c m
     | FD_array lib z ds \<Rightarrow> \<exists>old n b its. m = M_items True old \<and> items_reset z True old n = Inr b \<and>
         json_items_extract L ob ds 0 b = Inr (its, True) \<and> m1 = M_items True its \<and> desc_fits ds z
     | FD_table lib z c \<Rightarrow> \<exists>ms. m = M_table True ms \<and> json_extract_table L ob z c m = Inr (m1, True) \<and> kind_fits c z"
    using extract_step [OF 2(3,4)] by blast
  let ?msg1 = "member_set msg (fd_lib f) m1"
  have d: "fd_lib f \<notin> fd_lib ` set fs" "keys_distinct fs" "desc_fits fs msg" using 2(4,5) by auto
  have "desc_fits fs ?msg1 = desc_fits fs msg"
    by (rule desc_fits_cong) (metis d(1) imageI member_set_get)
  hence r: "desc_typed fs msg'" "\<forall>k. k \<notin> fd_lib ` set fs \<longrightarrow> map_of msg' k = map_of ?msg1 k"
    using 2(2) [OF s(1) refl s(2) refl TrueI s(4)] d by blast+
  have "member_typed f m1"
  proof (cases f)
    case (FD_field l c)
    thus ?thesis using k extract_kind by (auto simp: member_typed_def)
  next
    case (FD_array l z ds)
    then obtain old n b its where x: "items_reset z True old n = Inr b" "json_items_extract L ob ds 0 b = Inr (its, True)"
      "m1 = M_items True its" "desc_fits ds z" using k by auto
    have "\<forall>it \<in> set b. desc_fits ds it" using items_reset_zero [OF x(1)] x(4) by auto
    hence "\<forall>it \<in> set its. desc_typed ds it"
      using 2(1) [OF s(1) refl s(2) FD_array refl x(2)] 2(5) FD_array by simp
    thus ?thesis using FD_array x(3) by (simp add: member_typed_def)
  next
    case (FD_table l z c)
    thus ?thesis using k table_typed by (fastforce simp: member_typed_def)
  qed
  moreover have "map_of msg' (fd_lib f) = Some m1" using r(2) d(1) s(3) by simp
  ultimately show ?case using r by (simp del: desc_typed.simps add: desc_typed_Cons)
next
  case (4 L arr ds i it its)
  then obtain it1 its1 where e: "json_extract_fields L (j_array_get (r_json L) arr i) it ds = Inr (it1, True)"
    "json_items_extract L arr ds (i + 1) its = Inr (its1, True)" "its' = it1 # its1"
    by (auto split: if_splits)
  show ?case using 4 e by auto
qed simp_all


section \<open>What can go wrong\<close>

text \<open>The faults that are left when the members have the types of their functions: an array that cannot be
  allocated or is none, and a value that is longer than its allocation.\<close>
definition content_fault :: "fault \<Rightarrow> bool" where
  "content_fault e \<longleftrightarrow> e = Assert_failed \<or> e = Write_oob"

lemma content_faults [simp]: "content_fault Assert_failed" "content_fault Write_oob"
  by (simp_all add: content_fault_def)

lemma rbind_Inl_iff: "rbind m f = Inl e \<longleftrightarrow> m = Inl e \<or> (\<exists>x. m = Inr x \<and> f x = Inl e)"
  by (cases m) auto

lemma v_fault:
  assumes "v_decode (Var_string (Some t)) v0 = Inl e"
  shows "content_fault e"
  using assms
  by (auto simp: v_decode_def Let_def rbind_Inl_iff ra_initialize_def ra_flush_def chars_array_def char_type_def
      rcalloc_def ra_memcpy_def split: if_splits)

lemma decode_fault:
  assumes "kind_fits c m" "field_decode L c var m = Inl e" "var \<noteq> Var_string None"
  shows "content_fault e"
proof (cases "c = FC_v")
  case True
  then obtain d s where "m = M_chars d s" using kind_fitsD(7) [OF assms(1)] by blast
  thus ?thesis using assms(2,3) True v_fault
    by (cases var) (auto simp: field_decode_def as_defs rbind_Inl_iff v_decode_def [of "Var_bool b" for b]
        v_decode_def [of "Var_int b" for b] v_decode_def [of "Var_uint b" for b] v_decode_def [of "Var_double b" for b]
        v_decode_def [of "Var_null"] split: prod.splits)
next
  case False
  thus ?thesis using assms kind_fitsD [OF assms(1)]
    by (cases c; cases var) (auto simp: field_decode_def as_defs mType_decode_def ts_decode_def Let_def rbind_Inl_iff
        split: option.splits prod.splits)
qed

lemma extract_fault:
  assumes "kind_fits c m" "json_extract_field L ty obj c m = Inl e"
  shows "content_fault e"
proof -
  obtain var where v: "json2vars (r_json L) ty obj = Some var" "field_decode L c var m = Inl e"
    using assms(2) by (auto simp: json_extract_field_def split: option.splits)
  have "var \<noteq> Var_string None"
    using v(1) by (cases ty) (auto simp: json2vars_def rsmp_var_from_string_len_def rsmp_var_from_null_def
        rsmp_var_from_bool_def rsmp_var_from_double_def rsmp_var_from_int_def rsmp_var_new_def rsmp_var_set_bool_def rsmp_var_set_int_def rsmp_var_set_double_def rsmp_var_set_string_len_def split: if_splits)
  thus ?thesis by (rule decode_fault [OF assms(1) v(2)])
qed

lemma length_fault: "json_length J arr = Inl e \<Longrightarrow> content_fault e"
  by (auto simp: json_length_def split: if_splits)

lemma reset_fault: "items_reset z True old n = Inl e \<Longrightarrow> content_fault e"
  by (auto simp: items_reset_def rsmp_array_initialize_def ra_flush_def Let_def rbind_Inl_iff split: if_splits option.splits)

lemma table_fault:
  "json_table_extract L arr c i ms = Inl e \<Longrightarrow> \<forall>m \<in> set ms. kind_fits c m \<Longrightarrow> content_fault e"
proof (induction L arr c i ms rule: json_table_extract.induct)
  case (2 L arr c i m ms)
  thus ?case by (auto simp: Let_def rbind_Inl_iff dest: extract_fault split: if_splits prod.splits)
qed simp

lemma fields_fault:
  "json_extract_fields L obj msg ds = Inl e \<Longrightarrow> desc_fits ds msg \<Longrightarrow> keys_distinct ds \<Longrightarrow> content_fault e"
  "json_items_extract L obj ds i its = Inl e \<Longrightarrow> \<forall>it \<in> set its. desc_fits ds it \<Longrightarrow> keys_distinct ds \<Longrightarrow>
    content_fault e"
proof (induction L obj msg ds and L obj ds i its rule: json_extract_fields_json_items_extract.induct)
  case (2 L jobj msg f fs)
  obtain ty ob where o: "rsmp_json_object_get (r_json L) jobj (fd_lib f) = Some (ty, ob)" "ty \<noteq> JT_null"
    using 2(3) by (auto split: option.splits if_splits)
  obtain m where m: "map_of msg (fd_lib f) = Some m" using 2(4) by (auto split: option.splits)
  have d: "fd_lib f \<notin> fd_lib ` set fs" "keys_distinct fs" "desc_fits fs msg" using 2(4,5) by auto
  have r: "content_fault e" if "json_extract_fields L jobj (member_set msg (fd_lib f) m1) fs = Inl e" for m1
  proof -
    have "desc_fits fs (member_set msg (fd_lib f) m1) = desc_fits fs msg"
      by (rule desc_fits_cong) (metis d(1) imageI member_set_get)
    thus ?thesis using 2(2) [OF o(1) refl o(2) refl TrueI that] d by blast
  qed
  show ?case
  proof (cases f)
    case (FD_field lib c)
    thus ?thesis using 2(3,4) o m r
      by (auto simp: member_get_def Let_def rbind_Inl_iff dest: extract_fault field_fits_kind split: if_splits prod.splits)
  next
    case (FD_array lib z ds)
    then obtain old where i: "m = M_items True old" "desc_fits ds z" "keys_distinct ds" using 2(4,5) m by auto
    have "content_fault e" if "items_reset z True old n = Inr b" "json_items_extract L ob ds 0 b = Inl e" for n b
    proof -
      have "\<forall>it \<in> set b. desc_fits ds it" using items_reset_zero [OF that(1)] i(2) by auto
      thus ?thesis using 2(1) [OF o(1) refl o(2) FD_array refl that(2)] i(3) by blast
    qed
    thus ?thesis using 2(3) FD_array o m r i(1) length_fault reset_fault
      by (auto simp: member_get_def Let_def rbind_Inl_iff split: if_splits prod.splits)
  next
    case (FD_table lib z c)
    then obtain ms where i: "m = M_table True ms" "kind_fits c z"
      using 2(4) m by (auto dest: field_fits_kind)
    have "content_fault e" if "json_extract_table L ob z c m = Inl e"
    proof -
      have "\<forall>x \<in> set b. kind_fits c x" if "items_reset z True ms n = Inr b" for n b
        using items_reset_zero [OF that] i(2) by auto
      thus ?thesis using that i(1) length_fault reset_fault table_fault
        by (fastforce simp: json_extract_table_def rbind_Inl_iff split: prod.splits)
    qed
    thus ?thesis using 2(3) FD_table o m r
      by (auto simp: member_get_def Let_def rbind_Inl_iff split: if_splits prod.splits)
  qed
next
  case (4 L arr ds i it its)
  thus ?case by (auto simp: rbind_Inl_iff split: if_splits prod.splits)
qed simp_all

section \<open>Encoding\<close>

lemma encode_kind: "kind_fits c m \<Longrightarrow> \<exists>v. field_encode L c var m = Inr (Some v)"
  by (cases c) (auto simp: field_encode_def kind_fits_def is_ok_iff mType_encode_def type_encode_def str_encode_def
      uuid_encode_def ts_encode_def bool_encode_def v_encode_def enum_encode_def)

lemma table_encodes: "\<forall>m \<in> set ms. kind_fits c m \<Longrightarrow> \<exists>r. json_table_loop L c var ms arr = Inr r"
proof (induction ms arbitrary: var arr)
  case (Cons m ms)
  obtain v where "field_encode L c var m = Inr (Some v)" using encode_kind [of c m L var] Cons.prems by auto
  thus ?case using Cons by (simp split: option.split)
qed simp

lemma add_typed:
  "desc_typed ds st \<Longrightarrow> \<exists>r. json_add_fields L obj st ds = Inr r"
  "\<forall>it \<in> set its. desc_typed ds it \<Longrightarrow> \<exists>r. json_items_loop L its ds obj = Inr r"
proof (induction L obj st ds and L its ds obj rule: json_add_fields_json_items_loop.induct)
  case (2 L jobj msg f fs)
  obtain m where m: "desc_typed fs msg" "map_of msg (fd_lib f) = Some m" "member_typed f m"
    using 2(3) by (auto simp del: desc_typed.simps simp: desc_typed_Cons)
  show ?case
  proof (cases f)
    case (FD_field l c)
    then obtain v where "field_encode L c None m = Inr (Some v)"
      using encode_kind [of c m L None] m(3) by (auto simp: member_typed_def)
    thus ?thesis using 2 m FD_field
      by (auto simp: json_add_field_def member_get_def json_object_var_add_def split: option.split)
  next
    case (FD_array l z ds)
    then obtain d its where i: "m = M_items d its" "\<forall>it \<in> set its. desc_typed ds it"
      using m(3) m_cases(5) [of m] by (fastforce simp: member_typed_def)
    obtain r where "json_items_loop L its ds (j_new_array (r_json L)) = Inr r" using 2(1) [OF FD_array i(2)] by blast
    thus ?thesis using 2(2) m(1,2) FD_array i(1) by (auto simp: member_get_def split: option.split)
  next
    case (FD_table l z c)
    then obtain d ms where i: "m = M_table d ms" "\<forall>x \<in> set ms. kind_fits c x"
      using m(3) m_cases(6) [of m] by (fastforce simp: member_typed_def)
    obtain r where "json_table_loop L c None ms (j_new_array (r_json L)) = Inr r" using table_encodes [OF i(2), of L None "j_new_array (r_json L)"] by blast
    thus ?thesis using 2(2) m(1,2) FD_table i(1) by (auto simp: json_add_table_def member_get_def split: option.split)
  qed
next
  case (4 L it its ds jarray)
  then obtain r where r: "json_add_fields L (j_new_object (r_json L)) it ds = Inr r" by auto
  show ?case using 4 r by (cases r) auto
qed simp_all

text \<open>How a payload becomes a message: it is none, its type has no description, or it is read along the
  description of its type into a new message.\<close>
lemma payload_reading:
  "(\<exists>g1. rsmp_json_payload2msg L g (Some c) (Some p) i now = Inr (g1, No_message)) \<or>
   (\<exists>t. \<not> msg_active t \<and> rsmp_json_payload2msg L g (Some c) (Some p) i now = Inl Null_deref) \<or>
   (\<exists>t y. msg_active t \<and> rsmp_json_payload2msg L g (Some c) (Some p) i now =
      rbind (msg_desc_new t g (Some c) i now) (\<lambda>(g1, msg).
        rbind (json_extract_fields L y msg (message_fields t)) (\<lambda>(msg1, ok).
          Inr (g1, if ok then Message msg1 else Freed_message))))"
proof (cases "\<exists>y t. j_parse (r_json L) p = Some y \<and> rsmp_json_mType_check (r_json L) y \<and>
    rsmp_json_extract_type (r_json L) y = Some t")
  case True
  then obtain y t where y: "j_parse (r_json L) p = Some y" "rsmp_json_mType_check (r_json L) y"
    "rsmp_json_extract_type (r_json L) y = Some t" by blast
  show ?thesis
  proof (cases "msg_active t")
    case True
    with y active_fields [OF True] show ?thesis
      by (auto simp: rsmp_json_payload2msg_def desc_get)
  next
    case False
    hence "msg_desc_new t g (Some c) i now = Inl Null_deref" by (auto simp: msg_active_iff msg_desc_new_def)
    with y False show ?thesis by (auto simp: rsmp_json_payload2msg_def desc_get)
  qed
next
  case False
  thus ?thesis by (auto simp: rsmp_json_payload2msg_def split: option.splits)
qed

section \<open>Property\<close>



end
