(* ===== verification/DispData.thy ===== *)
theory DispData
  imports RsmpJson Errcode
begin

text \<open>
  The data of the messages of a variable message sign (\<open>rsmp/sxl/display/disp_*.h\<close>), the operations of the
  JSON library their coder uses besides those of \<open>RsmpJson\<close>, and the arrays of characters the structures
  hold.  A character that was never written is \<open>None\<close>; a text that fills its array has no terminator, and
  reading it as a C string leaves the array.  Counts of elements are natural numbers: a negative one ends
  the loops as 0 does, and no payload holds more than \<open>INT_MAX\<close> elements.  The memory for structures is
  taken to be available; \<open>None\<close> is a \<open>NULL\<close> pointer to an array.
\<close>

section \<open>The JSON library\<close>

text \<open>Integers of 32 bits, and the \<open>NULL\<close> that stands for the value \<open>null\<close>.\<close>
record 'j djson = "'j rjson" +
  j_new_int :: "u32 \<Rightarrow> 'j"
  j_get_int :: "'j \<Rightarrow> u32"
  j_null :: 'j

definition djson_sound :: "'j djson \<Rightarrow> bool" where
  "djson_sound J \<longleftrightarrow>
    (\<forall>obj k v. j_parse J (j_print J (j_add J obj k v)) = Some (j_add J obj k v)) \<and>
    (\<forall>obj k v. no_nul (j_print J (j_add J obj k v))) \<and>
    (\<forall>k. j_get J (j_new_object J) k = None) \<and>
    (\<forall>obj k v k'. j_get J (j_add J obj k v) k' = (if k' = k then Some v else j_get J obj k')) \<and>
    (\<forall>s. no_nul s \<longrightarrow> j_get_string J (j_new_string J s) = Some s) \<and>
    (\<forall>w. j_get_int J (j_new_int J w) = w) \<and>
    (\<forall>b. j_get_boolean J (j_new_boolean J b) = b) \<and>
    j_type J (j_new_array J) = JT_array \<and> j_array_length J (j_new_array J) = 0 \<and>
    (\<forall>a v. j_type J a = JT_array \<longrightarrow> j_type J (j_array_add J a v) = JT_array) \<and>
    (\<forall>a v. j_array_length J (j_array_add J a v) = j_array_length J a + 1) \<and>
    (\<forall>a v i. i \<le> j_array_length J a \<longrightarrow>
       j_array_get J (j_array_add J a v) i = (if i = j_array_length J a then v else j_array_get J a i))"

lemma djson_soundD:
  assumes "djson_sound J"
  shows "j_parse J (j_print J (j_add J obj k v)) = Some (j_add J obj k v)"
    "no_nul (j_print J (j_add J obj k v))"
    "j_get J (j_new_object J) k = None"
    "j_get J (j_add J obj k v) k' = (if k' = k then Some v else j_get J obj k')"
    "no_nul s \<Longrightarrow> j_get_string J (j_new_string J s) = Some s"
    "j_get_int J (j_new_int J w) = w" "j_get_boolean J (j_new_boolean J b) = b"
    "j_type J (j_new_array J) = JT_array" "j_array_length J (j_new_array J) = 0"
    "j_type J a = JT_array \<Longrightarrow> j_type J (j_array_add J a v) = JT_array"
    "j_array_length J (j_array_add J a v) = j_array_length J a + 1"
    "i \<le> j_array_length J a \<Longrightarrow>
       j_array_get J (j_array_add J a v) i = (if i = j_array_length J a then v else j_array_get J a i)"
  using assms unfolding djson_sound_def by simp_all

text \<open>The length of what is not an array fails an assertion of the library.\<close>
definition json_array_length :: "'j djson \<Rightarrow> 'j \<Rightarrow> nat run" where
  "json_array_length J v = (if j_type J v = JT_array then Inr (j_array_length J v) else Inl Assert_failed)"

text \<open>Objects and arrays filled in the order of the calls.\<close>
definition d_object :: "'j djson \<Rightarrow> (string \<times> 'j) list \<Rightarrow> 'j" where
  "d_object J ms = foldl (\<lambda>obj m. j_add J obj (fst m) (snd m)) (j_new_object J) ms"

definition d_array :: "'j djson \<Rightarrow> 'j list \<Rightarrow> 'j" where
  "d_array J vs = foldl (j_array_add J) (j_new_array J) vs"

section \<open>Arrays of characters\<close>

type_synonym cbuf = "char option list"

definition cbuf_uninit :: "nat \<Rightarrow> cbuf" where "cbuf_uninit n = replicate n None"

text \<open>An array of \<open>n\<close> characters with a text and zeros behind it.\<close>
definition cbuf_of :: "nat \<Rightarrow> string \<Rightarrow> cbuf" where
  "cbuf_of n s = map Some (s @ replicate (n - length s) (CHR 0x00))"

text \<open>The C string at the start of an array.\<close>
fun cbuf_text :: "cbuf \<Rightarrow> string run" where
  "cbuf_text [] = Inl Read_oob"
| "cbuf_text (None # r) = Inl Uninit_read"
| "cbuf_text (Some c # r) = (if c = CHR 0x00 then Inr [] else rbind (cbuf_text r) (\<lambda>s. Inr (c # s)))"

definition strncpy :: "cbuf \<Rightarrow> cstr \<Rightarrow> nat \<Rightarrow> cbuf run" where
  "strncpy dst src n =
    (case src of
       None \<Rightarrow> Inl Null_deref
     | Some s \<Rightarrow>
         if length dst < n then Inl Write_oob
         else Inr (map Some (take n (s @ replicate n (CHR 0x00))) @ drop n dst))"

lemma cbuf_of_length: "length s \<le> n \<Longrightarrow> length (cbuf_of n s) = n"
  by (simp add: cbuf_of_def)

lemma cbuf_text_of: "no_nul s \<Longrightarrow> cbuf_text (map Some s @ Some (CHR 0x00) # r) = Inr s"
  by (induction s) (auto simp: no_nul_def)

lemma cbuf_text_cbuf_of [simp]: "no_nul s \<Longrightarrow> length s < n \<Longrightarrow> cbuf_text (cbuf_of n s) = Inr s"
proof -
  assume a: "no_nul s" "length s < n"
  then obtain k where "n - length s = Suc k" by (metis Suc_diff_Suc)
  thus ?thesis using a(1) by (simp add: cbuf_of_def cbuf_text_of)
qed

lemma cbuf_text_full: "no_nul s \<Longrightarrow> cbuf_text (map Some s) = Inl Read_oob"
  by (induction s) (auto simp: no_nul_def)

lemma cbuf_text_uninit: "0 < n \<Longrightarrow> cbuf_text (cbuf_uninit n) = Inl Uninit_read"
  by (cases n) (simp_all add: cbuf_uninit_def)

lemma cbuf_text_no_nul: "cbuf_text b = Inr s \<Longrightarrow> no_nul s"
  by (induction b arbitrary: s rule: cbuf_text.induct) (auto simp: no_nul_def split: if_splits)

text \<open>What fits is stored with zeros behind it, what is longer is cut and has no terminator.\<close>
lemma strncpy_fits: "length dst = n \<Longrightarrow> length s \<le> n \<Longrightarrow> strncpy dst (Some s) n = Inr (cbuf_of n s)"
  by (simp add: strncpy_def cbuf_of_def)

lemma strncpy_long: "length dst = n \<Longrightarrow> n \<le> length s \<Longrightarrow> strncpy dst (Some s) n = Inr (map Some (take n s))"
  by (simp add: strncpy_def)

text \<open>One character less than the array has: the last one stays.\<close>
lemma strncpy_less:
  "0 < n \<Longrightarrow> strncpy (cbuf_of n []) (Some s) (n - 1) = Inr (cbuf_of n (take (n - 1) s))"
proof -
  assume "0 < n"
  then obtain m where n: "n = Suc m" by (cases n) auto
  have "drop m (replicate (Suc m) (Some (CHR 0x00))) = [Some (CHR 0x00)]" by (induction m) simp_all
  moreover have "replicate (Suc m - length s) (Some (CHR 0x00)) = replicate (m - length s) (Some (CHR 0x00)) @ [Some (CHR 0x00)]"
    if "length s \<le> m" using that by (simp add: Suc_diff_le replicate_append_same)
  ultimately show ?thesis unfolding n by (simp add: strncpy_def cbuf_of_def min_def del: replicate_Suc)
qed

section \<open>Arrays of structures\<close>

definition arr_at :: "'a list option \<Rightarrow> nat \<Rightarrow> 'a run" where
  "arr_at a i = (case a of None \<Rightarrow> Inl Null_deref | Some xs \<Rightarrow> bread xs i)"

text \<open>A loop over \<open>k\<close> elements from the one at \<open>i\<close>.\<close>
fun arr_each :: "('a \<Rightarrow> 'b run) \<Rightarrow> 'a list option \<Rightarrow> nat \<Rightarrow> nat \<Rightarrow> 'b list run" where
  "arr_each f a i 0 = Inr []"
| "arr_each f a i (Suc k) =
    rbind (arr_at a i) (\<lambda>x. rbind (f x) (\<lambda>y. rbind (arr_each f a (Suc i) k) (\<lambda>ys. Inr (y # ys))))"

fun run_all :: "('a \<Rightarrow> 'b run) \<Rightarrow> 'a list \<Rightarrow> 'b list run" where
  "run_all f [] = Inr []"
| "run_all f (x # xs) = rbind (f x) (\<lambda>y. rbind (run_all f xs) (\<lambda>ys. Inr (y # ys)))"

lemma arr_each_drop: "i + k = length xs \<Longrightarrow> arr_each f (Some xs) i k = run_all f (drop i xs)"
proof (induction k arbitrary: i)
  case (Suc k)
  hence "drop i xs = xs ! i # drop (Suc i) xs" by (metis Cons_nth_drop_Suc less_add_same_cancel1 zero_less_Suc)
  thus ?case using Suc by (simp add: arr_at_def)
qed simp

lemma arr_each_all: "arr_each f (Some xs) 0 (length xs) = run_all f xs"
  using arr_each_drop [of 0 "length xs" xs f] by simp

lemma run_all_map: "(\<And>x. x \<in> set xs \<Longrightarrow> f x = Inr (g x)) \<Longrightarrow> run_all f xs = Inr (map g xs)"
  by (induction xs) simp_all

section \<open>Objects\<close>

text \<open>The members are made one after the other.\<close>
definition d_members :: "'j djson \<Rightarrow> (string \<times> 'j run) list \<Rightarrow> 'j run" where
  "d_members J ms =
    rbind (run_all (\<lambda>m. rbind (snd m) (\<lambda>v. Inr (fst m, v))) ms) (\<lambda>vs. Inr (d_object J vs))"

lemma d_members_map: "(\<And>m. m \<in> set ms \<Longrightarrow> snd m = Inr (g (fst m))) \<Longrightarrow>
  d_members J ms = Inr (d_object J (map (\<lambda>m. (fst m, g (fst m))) ms))"
  unfolding d_members_def using run_all_map [of ms "\<lambda>m. rbind (snd m) (\<lambda>v. Inr (fst m, v))" "\<lambda>m. (fst m, g (fst m))"]
  by simp

lemma d_members_Nil: "d_members J [] = Inr (d_object J [])"
  by (simp add: d_members_def)

text \<open>Members with values: the pairs are what the object is made of.\<close>
lemma run_all_members: "run_all (\<lambda>m. rbind (snd m) (\<lambda>v. Inr (fst m, v))) (map (\<lambda>(k, v). (k, Inr v)) ms) = Inr ms"
  by (induction ms) auto

lemma d_members_values: "d_members J (map (\<lambda>(k, v). (k, Inr v)) ms) = Inr (d_object J ms)"
  by (simp add: d_members_def run_all_members)

lemma d_object_get:
  "djson_sound J \<Longrightarrow> j_get J (d_object J ms) k =
    (case find (\<lambda>m. fst m = k) (rev ms) of None \<Rightarrow> None | Some m \<Rightarrow> Some (snd m))"
  by (induction ms rule: rev_induct) (auto simp: d_object_def djson_soundD)

lemma d_object_parse: "djson_sound J \<Longrightarrow> ms \<noteq> [] \<Longrightarrow> j_parse J (j_print J (d_object J ms)) = Some (d_object J ms)"
  by (cases ms rule: rev_cases) (simp_all add: d_object_def djson_soundD)

lemma d_object_print: "djson_sound J \<Longrightarrow> ms \<noteq> [] \<Longrightarrow> no_nul (j_print J (d_object J ms))"
  by (cases ms rule: rev_cases) (simp_all add: d_object_def djson_soundD)

lemma d_array_elems:
  assumes "djson_sound J"
  shows "json_array_length J (d_array J vs) = Inr (length vs) \<and> j_type J (d_array J vs) = JT_array \<and>
    j_array_length J (d_array J vs) = length vs \<and> (\<forall>i < length vs. j_array_get J (d_array J vs) i = vs ! i)"
  using assms
  by (induction vs rule: rev_induct) (auto simp: d_array_def djson_soundD nth_append json_array_length_def)

lemma d_array_list: "djson_sound J \<Longrightarrow> map (j_array_get J (d_array J vs)) [0..<length vs] = vs"
  using d_array_elems [of J vs] by (auto intro: nth_equalityI)

end
