(* ===== verification/DispJson.thy ===== *)
theory DispJson
  imports DispData
begin

text \<open>
  Model of \<open>rsmp/sxl/display/disp_json_generic.c\<close>: the structures of the messages \<open>DISP/M31\<close> to
  \<open>DISP/S40\<close>, the functions that write them to JSON and those that read them.  An encoder gives the
  object, \<open>None\<close> for \<open>NULL\<close>; a decoder gives the structure as it leaves it and whether it returns 0.
\<close>

section \<open>Structures of the commands\<close>

record content =
  ct_contentType :: cbuf
  ct_contextText :: cbuf
  ct_onDuration :: u32

record animation =
  an_zoneId :: cbuf
  an_animType :: cbuf
  an_contents :: "content list option"
  an_contentCount :: nat

record sequence_object =
  sq_templateId :: cbuf
  sq_end :: cbuf
  sq_animations :: "animation list option"
  sq_animationCount :: nat

record message_object =
  mo_msgId :: cbuf
  mo_repeatCount :: u32
  mo_sequences :: "sequence_object list option"
  mo_sequenceCount :: nat

record m31_request =
  m31_messages :: "message_object list option"
  m31_messageCount :: nat

record ret_status =
  rs_code :: cbuf
  rs_rea :: cbuf

record ret_message =
  rm_msgId :: cbuf
  rm_retStatus :: ret_status

text \<open>The responses to \<open>DISP/M31\<close> and \<open>DISP/M32\<close> have the same members.\<close>
record ret_response =
  rr_retMessages :: "ret_message list option"
  rr_retMessageCount :: nat

record m32_request =
  m32_msgIdList :: "cstr list option"
  m32_msgIdCount :: nat

record m40_request =
  q40_msgId :: cbuf
  q40_displayBehavior :: cbuf
  q40_maxWaitTime :: u32
  q40_displayDuration :: u32
  q40_displayPriority :: u32
  q40_dynamicData :: cbuf

record m40_response =
  r40_msgId :: cbuf
  r40_behaviorUsed :: cbuf
  r40_retStatus :: ret_status

record m41_request =
  q41_msgId :: cbuf
  q41_displayPriority :: u32

text \<open>\<open>None\<close>: the number was never written.\<close>
record m41_response =
  r41_msgId :: cbuf
  r41_displayPriority :: "u32 option"
  r41_retStatus :: ret_status

section \<open>Structures of the statuses\<close>

record group_object =
  gr_predefinedGroupId :: cbuf
  gr_supportedEnum :: "cbuf list"
  gr_enumCount :: nat

record s10_response =
  s10_displayType :: cbuf
  s10_templateType :: cbuf
  s10_minDisplayTime :: u32
  s10_maxObjectIdSize :: u32
  s10_maxSupportedTemplate :: u32
  s10_maxSupportedZone :: u32
  s10_maxSupportedSequence :: u32
  s10_maxSupportedAnimation :: u32
  s10_maxSupportedAvailableMsg :: u32
  s10_maxSupportedDisplayPool :: u32
  s10_maxScrollSpeed :: u32
  s10_width :: u32
  s10_height :: u32
  s10_textDisplayable :: u32
  s10_predefinedGroups :: "group_object list option"
  s10_predefinedGroupCount :: nat

record text_options =
  to_type :: cbuf
  to_textColor :: cbuf
  to_backgroundColor :: cbuf
  to_font :: cbuf
  to_horizontalAlign :: cbuf
  to_verticalAlign :: cbuf
  to_orientation :: cbuf

record graphic_options =
  go_negotiation :: cbuf
  go_w :: u32
  go_h :: u32

record predefined_options =
  po_predefinedGroupId :: cbuf
  po_w :: u32
  po_h :: u32

text \<open>The custom options have no content of their own: whether the pointer is set.\<close>
record zone_object =
  zo_zoneId :: cbuf
  zo_supportedColors :: "cbuf list"
  zo_colorCount :: u32
  zo_x :: u32
  zo_y :: u32
  zo_z :: u32
  zo_zoneType :: cbuf
  zo_textOptions :: "text_options option"
  zo_graphicOptions :: "graphic_options option"
  zo_predefinedOptions :: "predefined_options option"
  zo_customOptions :: bool

record template_object =
  tp_templateId :: cbuf
  tp_readonly :: bool
  tp_zones :: "zone_object list option"
  tp_zoneCount :: nat

record s20_response =
  s20_templates :: "template_object list option"
  s20_templateCount :: nat

record s30_response =
  s30_msgIdList :: "cstr list option"
  s30_msgIdCount :: nat

record pool_element =
  pe_msgId :: cbuf
  pe_maxWaitTime :: u32
  pe_maxWaitTimeRemain :: u32
  pe_displayDuration :: u32
  pe_displayDurationRemain :: u32
  pe_displayPriority :: u32
  pe_dynamicData :: cbuf

record s40_response =
  s40_displayPoolList :: "pool_element list option"
  s40_displayPoolCount :: nat

section \<open>Structures of zeroed memory\<close>

definition status_zero :: ret_status where "status_zero = \<lparr> rs_code = cbuf_of 32 [], rs_rea = cbuf_of 256 [] \<rparr>"

definition status_uninit :: ret_status where
  "status_uninit = \<lparr> rs_code = cbuf_uninit 32, rs_rea = cbuf_uninit 256 \<rparr>"

definition ret_message_zero :: ret_message where
  "ret_message_zero = \<lparr> rm_msgId = cbuf_of 64 [], rm_retStatus = status_zero \<rparr>"

definition s10_zero :: s10_response where
  "s10_zero =
    \<lparr> s10_displayType = cbuf_of 32 [], s10_templateType = cbuf_of 32 [], s10_minDisplayTime = 0, s10_maxObjectIdSize = 0,
      s10_maxSupportedTemplate = 0, s10_maxSupportedZone = 0, s10_maxSupportedSequence = 0,
      s10_maxSupportedAnimation = 0, s10_maxSupportedAvailableMsg = 0, s10_maxSupportedDisplayPool = 0,
      s10_maxScrollSpeed = 0, s10_width = 0, s10_height = 0, s10_textDisplayable = 0, s10_predefinedGroups = None,
      s10_predefinedGroupCount = 0 \<rparr>"

definition zone_zero :: zone_object where
  "zone_zero =
    \<lparr> zo_zoneId = cbuf_of 32 [], zo_supportedColors = replicate 5 (cbuf_of 16 []), zo_colorCount = 0, zo_x = 0, zo_y = 0,
      zo_z = 0, zo_zoneType = cbuf_of 32 [], zo_textOptions = None, zo_graphicOptions = None,
      zo_predefinedOptions = None, zo_customOptions = False \<rparr>"

definition template_zero :: template_object where
  "template_zero = \<lparr> tp_templateId = cbuf_of 64 [], tp_readonly = False, tp_zones = None, tp_zoneCount = 0 \<rparr>"

definition pool_zero :: pool_element where
  "pool_zero =
    \<lparr> pe_msgId = cbuf_of 64 [], pe_maxWaitTime = 0, pe_maxWaitTimeRemain = 0, pe_displayDuration = 0,
      pe_displayDurationRemain = 0, pe_displayPriority = 0, pe_dynamicData = cbuf_of 128 [] \<rparr>"

section \<open>Members\<close>

text \<open>\<open>json_object_new_string\<close> on an array of characters and on a pointer.\<close>
definition enc_buf :: "'j djson \<Rightarrow> cbuf \<Rightarrow> 'j run" where
  "enc_buf J b = rbind (cbuf_text b) (\<lambda>s. Inr (j_new_string J s))"

definition enc_str :: "'j djson \<Rightarrow> cstr \<Rightarrow> 'j run" where
  "enc_str J s = (case s of None \<Rightarrow> Inl Null_deref | Some t \<Rightarrow> Inr (j_new_string J t))"

definition enc_int :: "'j djson \<Rightarrow> u32 \<Rightarrow> 'j run" where
  "enc_int J i = Inr (j_new_int J i)"

text \<open>An array with the elements a loop makes.\<close>
definition enc_array :: "'j djson \<Rightarrow> ('a \<Rightarrow> 'j run) \<Rightarrow> 'a list option \<Rightarrow> nat \<Rightarrow> 'j run" where
  "enc_array J f a n = rbind (arr_each f a 0 n) (\<lambda>vs. Inr (d_array J vs))"

text \<open>A member that is found is copied to an array of characters, the first \<open>n\<close> of them.\<close>
definition dec_buf :: "'j djson \<Rightarrow> 'j \<Rightarrow> string \<Rightarrow> nat \<Rightarrow> cbuf \<Rightarrow> cbuf run" where
  "dec_buf J obj k n b =
    (case j_get J obj k of None \<Rightarrow> Inr b | Some v \<Rightarrow> strncpy b (j_get_string J v) n)"

definition dec_int :: "'j djson \<Rightarrow> 'j \<Rightarrow> string \<Rightarrow> u32 \<Rightarrow> u32" where
  "dec_int J obj k i = (case j_get J obj k of None \<Rightarrow> i | Some v \<Rightarrow> j_get_int J v)"

text \<open>The elements of an array, each read by the same steps.\<close>
definition dec_array :: "'j djson \<Rightarrow> ('j \<Rightarrow> 'a run) \<Rightarrow> 'j \<Rightarrow> nat \<Rightarrow> 'a list run" where
  "dec_array J f arr n = run_all (\<lambda>i. f (j_array_get J arr i)) [0..<n]"

text \<open>The guards all decoders begin with.\<close>
definition disp_decode ::
  "'j djson \<Rightarrow> ('j \<Rightarrow> 'r \<Rightarrow> ('r \<times> bool) run) \<Rightarrow> cstr \<Rightarrow> 'r option \<Rightarrow> ('r option \<times> bool) run" where
  "disp_decode J body json_str res =
    (case (json_str, res) of
       (Some s, Some r) \<Rightarrow>
         (case j_parse J s of
            None \<Rightarrow> Inr (res, False)
          | Some root \<Rightarrow> rbind (body root r) (\<lambda>(r1, ok). Inr (Some r1, ok)))
     | _ \<Rightarrow> Inr (res, False))"

section \<open>Encoding of the commands\<close>

definition encode_content :: "'j djson \<Rightarrow> content \<Rightarrow> 'j run" where
  "encode_content J c =
    d_members J
      [(''contentType'', enc_buf J (ct_contentType c)), (''contextText'', enc_buf J (ct_contextText c)),
       (''duration'', d_members J [(''onDuration'', enc_int J (ct_onDuration c))])]"

definition encode_animation :: "'j djson \<Rightarrow> animation \<Rightarrow> 'j run" where
  "encode_animation J a =
    d_members J
      [(''zoneId'', enc_buf J (an_zoneId a)), (''animType'', enc_buf J (an_animType a)),
       (''contents'', enc_array J (encode_content J) (an_contents a) (an_contentCount a))]"

definition encode_sequence :: "'j djson \<Rightarrow> sequence_object \<Rightarrow> 'j run" where
  "encode_sequence J s =
    d_members J
      [(''templateId'', enc_buf J (sq_templateId s)), (''end'', enc_buf J (sq_end s)),
       (''animations'', enc_array J (encode_animation J) (sq_animations s) (sq_animationCount s))]"

definition encode_message :: "'j djson \<Rightarrow> message_object \<Rightarrow> 'j run" where
  "encode_message J m =
    d_members J
      [(''msgId'', enc_buf J (mo_msgId m)), (''repeatCount'', enc_int J (mo_repeatCount m)),
       (''sequences'', enc_array J (encode_sequence J) (mo_sequences m) (mo_sequenceCount m))]"

definition encode_disp_m31_command_request :: "'j djson \<Rightarrow> m31_request option \<Rightarrow> 'j option run" where
  "encode_disp_m31_command_request J request =
    (case request of
       None \<Rightarrow> Inr None
     | Some r \<Rightarrow>
         rbind (d_members J
             [(''messages'', enc_array J (encode_message J) (m31_messages r) (m31_messageCount r))])
           (\<lambda>w. Inr (Some w)))"

definition encode_disp_m32_command_request :: "'j djson \<Rightarrow> m32_request option \<Rightarrow> 'j option run" where
  "encode_disp_m32_command_request J req =
    (case req of
       None \<Rightarrow> Inr None
     | Some r \<Rightarrow>
         if m32_msgIdCount r = 0 \<or> m32_msgIdList r = None then Inr None
         else rbind (d_members J [(''msgIdList'', enc_array J (enc_str J) (m32_msgIdList r) (m32_msgIdCount r))])
                (\<lambda>w. Inr (Some w)))"

text \<open>The dynamic data is added only when there is any.\<close>
definition encode_disp_m40_command_request :: "'j djson \<Rightarrow> m40_request option \<Rightarrow> 'j option run" where
  "encode_disp_m40_command_request J req =
    (case req of
       None \<Rightarrow> Inr None
     | Some r \<Rightarrow>
         rbind (d_members J
             [(''msgId'', enc_buf J (q40_msgId r)), (''displayBehavior'', enc_buf J (q40_displayBehavior r)),
              (''maxWaitTime'', enc_int J (q40_maxWaitTime r)),
              (''displayDuration'', enc_int J (q40_displayDuration r)),
              (''displayPriority'', enc_int J (q40_displayPriority r))])
           (\<lambda>obj. rbind (cbuf_text (q40_dynamicData r)) (\<lambda>dyn.
              if dyn \<noteq> [] then Inr (Some (j_add J obj ''dynamicData'' (j_new_string J dyn))) else Inr (Some obj))))"

definition encode_disp_m41_command_request :: "'j djson \<Rightarrow> m41_request option \<Rightarrow> 'j option run" where
  "encode_disp_m41_command_request J req =
    (case req of
       None \<Rightarrow> Inr None
     | Some r \<Rightarrow>
         rbind (d_members J
             [(''msgId'', enc_buf J (q41_msgId r)), (''displayPriority'', enc_int J (q41_displayPriority r))])
           (\<lambda>obj. Inr (Some obj)))"

section \<open>Decoding of the responses to commands\<close>

definition dec_status :: "'j djson \<Rightarrow> 'j \<Rightarrow> ret_status \<Rightarrow> ret_status run" where
  "dec_status J obj st =
    (case j_get J obj ''retStatus'' of
       None \<Rightarrow> Inr st
     | Some j \<Rightarrow>
         rbind (dec_buf J j ''code'' 32 (rs_code st)) (\<lambda>code.
         rbind (dec_buf J j ''rea'' 256 (rs_rea st)) (\<lambda>rea. Inr (st\<lparr> rs_code := code, rs_rea := rea \<rparr>))))"

definition dec_ret_message :: "'j djson \<Rightarrow> 'j \<Rightarrow> ret_message run" where
  "dec_ret_message J obj =
    rbind (dec_buf J obj ''msgId'' 64 (rm_msgId ret_message_zero)) (\<lambda>i.
    rbind (dec_status J obj (rm_retStatus ret_message_zero)) (\<lambda>st. Inr \<lparr> rm_msgId = i, rm_retStatus = st \<rparr>))"

definition decode_disp_m31_command_response ::
  "'j djson \<Rightarrow> cstr \<Rightarrow> ret_response option \<Rightarrow> (ret_response option \<times> bool) run" where
  "decode_disp_m31_command_response J =
    disp_decode J (\<lambda>root r.
      case j_get J root ''retMessages'' of
        None \<Rightarrow> Inr (r, False)
      | Some arr \<Rightarrow>
          rbind (json_array_length J arr) (\<lambda>n.
          rbind (dec_array J (dec_ret_message J) arr n) (\<lambda>ms.
            Inr (r\<lparr> rr_retMessages := Some ms, rr_retMessageCount := n \<rparr>, True))))"

definition decode_disp_m32_command_response ::
  "'j djson \<Rightarrow> cstr \<Rightarrow> ret_response option \<Rightarrow> (ret_response option \<times> bool) run" where
  "decode_disp_m32_command_response J =
    disp_decode J (\<lambda>root r.
      case j_get J root ''retMessages'' of
        None \<Rightarrow> Inr (r, False)
      | Some arr \<Rightarrow>
          rbind (json_array_length J arr) (\<lambda>n.
          rbind (dec_array J (dec_ret_message J) arr n) (\<lambda>ms.
            Inr (r\<lparr> rr_retMessages := Some ms, rr_retMessageCount := n \<rparr>, True))))"

text \<open>Only here a value \<open>null\<close> is read as the empty text.\<close>
definition decode_disp_m40_command_response ::
  "'j djson \<Rightarrow> cstr \<Rightarrow> m40_response option \<Rightarrow> (m40_response option \<times> bool) run" where
  "decode_disp_m40_command_response J =
    disp_decode J (\<lambda>root r.
      rbind (dec_buf J root ''msgId'' 64 (r40_msgId r)) (\<lambda>i.
      rbind (case j_get J root ''behaviorUsed'' of
               None \<Rightarrow> Inr (r40_behaviorUsed r)
             | Some v \<Rightarrow>
                 strncpy (r40_behaviorUsed r) (Some (case j_get_string J v of None \<Rightarrow> [] | Some s \<Rightarrow> s)) 16) (\<lambda>b.
      rbind (dec_status J root (r40_retStatus r)) (\<lambda>st.
        Inr (r\<lparr> r40_msgId := i, r40_behaviorUsed := b, r40_retStatus := st \<rparr>, True)))))"

definition decode_disp_m41_command_response ::
  "'j djson \<Rightarrow> cstr \<Rightarrow> m41_response option \<Rightarrow> (m41_response option \<times> bool) run" where
  "decode_disp_m41_command_response J =
    disp_decode J (\<lambda>root r.
      rbind (dec_buf J root ''msgId'' 64 (r41_msgId r)) (\<lambda>i.
        let p = (case j_get J root ''displayPriority'' of None \<Rightarrow> r41_displayPriority r | Some v \<Rightarrow> Some (j_get_int J v))
        in rbind (dec_status J root (r41_retStatus r)) (\<lambda>st.
             Inr (r\<lparr> r41_msgId := i, r41_displayPriority := p, r41_retStatus := st \<rparr>, True))))"

section \<open>Templates\<close>

definition encode_text_options :: "'j djson \<Rightarrow> text_options option \<Rightarrow> 'j run" where
  "encode_text_options J opts =
    (case opts of
       None \<Rightarrow> Inr (j_null J)
     | Some t \<Rightarrow>
         d_members J
           [(''type'', enc_buf J (to_type t)), (''textColor'', enc_buf J (to_textColor t)),
            (''backgroundColor'', enc_buf J (to_backgroundColor t)), (''font'', enc_buf J (to_font t)),
            (''horizontalAlign'', enc_buf J (to_horizontalAlign t)),
            (''verticalAlign'', enc_buf J (to_verticalAlign t)), (''orientation'', enc_buf J (to_orientation t))])"

definition encode_graphic_options :: "'j djson \<Rightarrow> graphic_options option \<Rightarrow> 'j run" where
  "encode_graphic_options J opts =
    (case opts of
       None \<Rightarrow> Inr (j_null J)
     | Some g \<Rightarrow>
         d_members J
           [(''sizeNegotiation'', enc_buf J (go_negotiation g)),
            (''size'', d_members J [(''w'', enc_int J (go_w g)), (''h'', enc_int J (go_h g))])])"

definition encode_predefined_options :: "'j djson \<Rightarrow> predefined_options option \<Rightarrow> 'j run" where
  "encode_predefined_options J opts =
    (case opts of
       None \<Rightarrow> Inr (j_null J)
     | Some p \<Rightarrow>
         d_members J
           [(''predefinedGroupId'', enc_buf J (po_predefinedGroupId p)),
            (''size'', d_members J [(''w'', enc_int J (po_w p)), (''h'', enc_int J (po_h p))])])"

text \<open>The loop over the colours is bounded by their count, not by the five the zone has room for.\<close>
definition encode_zone :: "'j djson \<Rightarrow> zone_object \<Rightarrow> 'j run" where
  "encode_zone J z =
    d_members J
      [(''zoneId'', enc_buf J (zo_zoneId z)),
       (''supportedColors'', enc_array J (enc_buf J) (Some (zo_supportedColors z)) (nat (sint (zo_colorCount z)))),
       (''position'', d_members J [(''x'', enc_int J (zo_x z)), (''y'', enc_int J (zo_y z)), (''z'', enc_int J (zo_z z))]),
       (''zoneType'', enc_buf J (zo_zoneType z)),
       (''textOptions'', encode_text_options J (zo_textOptions z)),
       (''graphicOptions'', encode_graphic_options J (zo_graphicOptions z)),
       (''predefinedOptions'', encode_predefined_options J (zo_predefinedOptions z)),
       (''customOptions'', Inr (if zo_customOptions z then j_new_object J else j_null J))]"

definition encode_template :: "'j djson \<Rightarrow> template_object \<Rightarrow> 'j run" where
  "encode_template J t =
    d_members J
      [(''templateId'', enc_buf J (tp_templateId t)), (''readonly'', Inr (j_new_boolean J (tp_readonly t))),
       (''zones'', enc_array J (encode_zone J) (tp_zones t) (tp_zoneCount t))]"

definition encode_disp_s20_status_response :: "'j djson \<Rightarrow> s20_response option \<Rightarrow> 'j option run" where
  "encode_disp_s20_status_response J res =
    (case res of
       None \<Rightarrow> Inr None
     | Some r \<Rightarrow>
         rbind (d_members J
             [(''templates'', enc_array J (encode_template J) (s20_templates r) (s20_templateCount r))])
           (\<lambda>root. Inr (Some root)))"

text \<open>Of a zone only three members are read, one of which the encoder does not write.\<close>
definition dec_zone :: "'j djson \<Rightarrow> 'j \<Rightarrow> zone_object run" where
  "dec_zone J obj =
    rbind (dec_buf J obj ''zoneId'' 31 (zo_zoneId zone_zero)) (\<lambda>i.
    rbind (dec_buf J obj ''zoneType'' 31 (zo_zoneType zone_zero)) (\<lambda>t.
      Inr (zone_zero\<lparr> zo_zoneId := i, zo_zoneType := t,
                      zo_colorCount := dec_int J obj ''colorCount'' (zo_colorCount zone_zero) \<rparr>)))"

definition dec_template :: "'j djson \<Rightarrow> 'j \<Rightarrow> template_object run" where
  "dec_template J obj =
    rbind (dec_buf J obj ''templateId'' 63 (tp_templateId template_zero)) (\<lambda>i.
      let t = template_zero\<lparr> tp_templateId := i,
                tp_readonly := (case j_get J obj ''readonly'' of None \<Rightarrow> False | Some v \<Rightarrow> j_get_boolean J v) \<rparr>
      in case j_get J obj ''zones'' of
           None \<Rightarrow> Inr t
         | Some arr \<Rightarrow>
             if j_type J arr \<noteq> JT_array then Inr t
             else rbind (json_array_length J arr) (\<lambda>n.
                  rbind (dec_array J (dec_zone J) arr n) (\<lambda>zs.
                    Inr (t\<lparr> tp_zones := Some zs, tp_zoneCount := n \<rparr>))))"

definition decode_disp_s20_status_response ::
  "'j djson \<Rightarrow> cstr \<Rightarrow> s20_response option \<Rightarrow> (s20_response option \<times> bool) run" where
  "decode_disp_s20_status_response J =
    disp_decode J (\<lambda>root r.
      case j_get J root ''templates'' of
        None \<Rightarrow> Inr (r, False)
      | Some arr \<Rightarrow>
          if j_type J arr \<noteq> JT_array then Inr (r, False)
          else rbind (json_array_length J arr) (\<lambda>n.
               rbind (dec_array J (dec_template J) arr n) (\<lambda>ts.
                 Inr (r\<lparr> s20_templates := Some ts, s20_templateCount := n \<rparr>, True))))"

section \<open>Capacities\<close>

definition encode_group :: "'j djson \<Rightarrow> group_object \<Rightarrow> 'j run" where
  "encode_group J g =
    d_members J
      [(''predefinedGroupId'', enc_buf J (gr_predefinedGroupId g)),
       (''supportedPredefined'', enc_array J (enc_buf J) (Some (gr_supportedEnum g)) (gr_enumCount g))]"

definition encode_disp_s10_status_response :: "'j djson \<Rightarrow> s10_response option \<Rightarrow> 'j option run" where
  "encode_disp_s10_status_response J res =
    (case res of
       None \<Rightarrow> Inr None
     | Some r \<Rightarrow>
         rbind (d_members J
             [(''displayType'', enc_buf J (s10_displayType r)), (''templateType'', enc_buf J (s10_templateType r)),
              (''minDisplayTime'', enc_int J (s10_minDisplayTime r)),
              (''maxObjectIdSize'', enc_int J (s10_maxObjectIdSize r)),
              (''maxSupportedTemplate'', enc_int J (s10_maxSupportedTemplate r)),
              (''maxSupportedZone'', enc_int J (s10_maxSupportedZone r)),
              (''maxSupportedSequence'', enc_int J (s10_maxSupportedSequence r)),
              (''maxSupportedAnimation'', enc_int J (s10_maxSupportedAnimation r)),
              (''maxSupportedAvailableMsg'', enc_int J (s10_maxSupportedAvailableMsg r)),
              (''maxSupportedDisplayPool'', enc_int J (s10_maxSupportedDisplayPool r)),
              (''maxScrollSpeed'', enc_int J (s10_maxScrollSpeed r)),
              (''size'', d_members J [(''width'', enc_int J (s10_width r)), (''height'', enc_int J (s10_height r))]),
              (''textDisplayable'', Inr (j_new_boolean J (s10_textDisplayable r \<noteq> 0))),
              (''predefinedGroups'',
                 if s10_predefinedGroupCount r > 0 \<and> s10_predefinedGroups r \<noteq> None
                 then enc_array J (encode_group J) (s10_predefinedGroups r) (s10_predefinedGroupCount r)
                 else Inr (j_null J))])
           (\<lambda>root. Inr (Some root)))"

text \<open>The structure is cleared first; a number that is missing is read from \<open>NULL\<close>, which gives 0.  The
  size, the display of texts and the groups are not read.\<close>
definition decode_disp_s10_status_response ::
  "'j djson \<Rightarrow> cstr \<Rightarrow> s10_response option \<Rightarrow> (s10_response option \<times> bool) run" where
  "decode_disp_s10_status_response J =
    disp_decode J (\<lambda>root r.
      rbind (dec_buf J root ''displayType'' 31 (s10_displayType s10_zero)) (\<lambda>d.
      rbind (dec_buf J root ''templateType'' 31 (s10_templateType s10_zero)) (\<lambda>t.
        Inr (s10_zero\<lparr> s10_displayType := d, s10_templateType := t,
               s10_minDisplayTime := dec_int J root ''minDisplayTime'' 0,
               s10_maxObjectIdSize := dec_int J root ''maxObjectIdSize'' 0,
               s10_maxSupportedTemplate := dec_int J root ''maxSupportedTemplate'' 0,
               s10_maxSupportedZone := dec_int J root ''maxSupportedZone'' 0,
               s10_maxSupportedSequence := dec_int J root ''maxSupportedSequence'' 0,
               s10_maxSupportedAnimation := dec_int J root ''maxSupportedAnimation'' 0,
               s10_maxSupportedAvailableMsg := dec_int J root ''maxSupportedAvailableMsg'' 0,
               s10_maxSupportedDisplayPool := dec_int J root ''maxSupportedDisplayPool'' 0,
               s10_maxScrollSpeed := dec_int J root ''maxScrollSpeed'' 0 \<rparr>, True))))"

section \<open>Messages available\<close>

definition encode_disp_s30_status_response :: "'j djson \<Rightarrow> s30_response option \<Rightarrow> 'j option run" where
  "encode_disp_s30_status_response J res =
    (case res of
       None \<Rightarrow> Inr None
     | Some r \<Rightarrow>
         rbind (d_members J [(''msgIdList'', enc_array J (enc_str J) (s30_msgIdList r) (s30_msgIdCount r))])
           (\<lambda>root. Inr (Some root)))"

text \<open>\<open>strdup\<close> of the text of an element.\<close>
definition dec_msg_id :: "'j djson \<Rightarrow> 'j \<Rightarrow> cstr run" where
  "dec_msg_id J v = (case j_get_string J v of None \<Rightarrow> Inl Null_deref | Some s \<Rightarrow> Inr (Some s))"

definition decode_disp_s30_status_response ::
  "'j djson \<Rightarrow> cstr \<Rightarrow> s30_response option \<Rightarrow> (s30_response option \<times> bool) run" where
  "decode_disp_s30_status_response J =
    disp_decode J (\<lambda>root r.
      case j_get J root ''msgIdList'' of
        None \<Rightarrow> Inr (r, False)
      | Some arr \<Rightarrow>
          rbind (json_array_length J arr) (\<lambda>n.
          rbind (dec_array J (dec_msg_id J) arr n) (\<lambda>ids.
            Inr (r\<lparr> s30_msgIdList := Some ids, s30_msgIdCount := n \<rparr>, True))))"

section \<open>Messages displayed\<close>

definition encode_pool :: "'j djson \<Rightarrow> pool_element \<Rightarrow> 'j run" where
  "encode_pool J e =
    d_members J
      [(''msgId'', enc_buf J (pe_msgId e)), (''maxWaitTime'', enc_int J (pe_maxWaitTime e)),
       (''maxWaitTimeRemain'', enc_int J (pe_maxWaitTimeRemain e)),
       (''displayDuration'', enc_int J (pe_displayDuration e)),
       (''displayDurationRemain'', enc_int J (pe_displayDurationRemain e)),
       (''displayPriority'', enc_int J (pe_displayPriority e)), (''dynamicData'', enc_buf J (pe_dynamicData e))]"

definition encode_disp_s40_status_response :: "'j djson \<Rightarrow> s40_response option \<Rightarrow> 'j option run" where
  "encode_disp_s40_status_response J res =
    (case res of
       None \<Rightarrow> Inr None
     | Some r \<Rightarrow>
         rbind (d_members J
             [(''displayPoolList'', enc_array J (encode_pool J) (s40_displayPoolList r) (s40_displayPoolCount r))])
           (\<lambda>root. Inr (Some root)))"

definition dec_pool :: "'j djson \<Rightarrow> 'j \<Rightarrow> pool_element run" where
  "dec_pool J obj =
    rbind (dec_buf J obj ''msgId'' 64 (pe_msgId pool_zero)) (\<lambda>i.
    rbind (dec_buf J obj ''dynamicData'' 128 (pe_dynamicData pool_zero)) (\<lambda>d.
      Inr \<lparr> pe_msgId = i, pe_maxWaitTime = dec_int J obj ''maxWaitTime'' 0,
            pe_maxWaitTimeRemain = dec_int J obj ''maxWaitTimeRemain'' 0,
            pe_displayDuration = dec_int J obj ''displayDuration'' 0,
            pe_displayDurationRemain = dec_int J obj ''displayDurationRemain'' 0,
            pe_displayPriority = dec_int J obj ''displayPriority'' 0, pe_dynamicData = d \<rparr>))"

definition decode_disp_s40_status_response ::
  "'j djson \<Rightarrow> cstr \<Rightarrow> s40_response option \<Rightarrow> (s40_response option \<times> bool) run" where
  "decode_disp_s40_status_response J =
    disp_decode J (\<lambda>root r.
      case j_get J root ''displayPoolList'' of
        None \<Rightarrow> Inr (r, False)
      | Some arr \<Rightarrow>
          rbind (json_array_length J arr) (\<lambda>n.
          rbind (dec_array J (dec_pool J) arr n) (\<lambda>es.
            Inr (r\<lparr> s40_displayPoolList := Some es, s40_displayPoolCount := n \<rparr>, True))))"

end
