(* ===== verification/DispTrip.thy ===== *)
theory DispTrip
  imports DispJson
begin

text \<open>
  What the decoders of \<open>disp_json_generic.c\<close> read from what its encoders wrote: the lists of messages
  (\<open>DISP/S30\<close>, \<open>DISP/S40\<close>) come back as they were, the capacities (\<open>DISP/S10\<close>) and the templates
  (\<open>DISP/S20\<close>) without the parts the decoders do not read, and a text that fills its array is not a text
  any more.
\<close>

section \<open>Texts in their arrays\<close>

text \<open>An array of \<open>n\<close> characters with a terminated text and zeros behind it.\<close>
definition cbuf_ok :: "nat \<Rightarrow> cbuf \<Rightarrow> bool" where
  "cbuf_ok n b \<longleftrightarrow> (case cbuf_text b of Inl e \<Rightarrow> False | Inr s \<Rightarrow> b = cbuf_of n s)"

lemma cbuf_okE:
  assumes "cbuf_ok n b"
  obtains s where "no_nul s" "length s < n" "b = cbuf_of n s" "cbuf_text b = Inr s"
proof -
  from assms obtain s where s: "cbuf_text b = Inr s" "b = cbuf_of n s"
    by (auto simp: cbuf_ok_def split: sum.splits)
  have nn: "no_nul s" by (rule cbuf_text_no_nul [OF s(1)])
  have "length s < n"
  proof (rule ccontr)
    assume "\<not> length s < n"
    hence "b = map Some s" using s(2) by (simp add: cbuf_of_def)
    thus False using s(1) cbuf_text_full [OF nn] by simp
  qed
  thus ?thesis using that nn s by blast
qed

lemma cbuf_ok_of [simp]: "no_nul s \<Longrightarrow> length s < n \<Longrightarrow> cbuf_ok n (cbuf_of n s)"
  by (simp add: cbuf_ok_def)

lemma dec_buf_string:
  assumes "djson_sound J" "j_get J obj k = Some (j_new_string J s)" "no_nul s" "length s < n"
  shows "dec_buf J obj k n (cbuf_of n []) = Inr (cbuf_of n s)"
    "0 < n \<Longrightarrow> dec_buf J obj k (n - 1) (cbuf_of n []) = Inr (cbuf_of n s)"
  using assms strncpy_fits [of "cbuf_of n []" n s] strncpy_less [of n s]
  by (simp_all add: dec_buf_def djson_soundD cbuf_of_length)

lemma dec_int_int: "djson_sound J \<Longrightarrow> j_get J obj k = Some (j_new_int J w) \<Longrightarrow> dec_int J obj k w0 = w"
  by (simp add: dec_int_def djson_soundD)

lemma dec_int_none: "j_get J obj k = None \<Longrightarrow> dec_int J obj k w0 = w0"
  by (simp add: dec_int_def)

section \<open>Arrays and objects\<close>

lemma run_all_index: "run_all f (map g is) = run_all (\<lambda>i. f (g i)) is"
  by (induction "is") simp_all

lemma dec_array_elems:
  "djson_sound J \<Longrightarrow> dec_array J f (d_array J vs) (length vs) = run_all f vs"
  unfolding dec_array_def using run_all_index [of f "j_array_get J (d_array J vs)" "[0..<length vs]"]
  by (simp add: d_array_list)

text \<open>Elements that are read back one by one are read back as an array.\<close>
lemma run_all_trip:
  assumes "\<forall>x \<in> set xs. \<exists>v. enc x = Inr v \<and> dec v = Inr (g x)"
  shows "\<exists>vs. run_all enc xs = Inr vs \<and> length vs = length xs \<and> run_all dec vs = Inr (map g xs)"
  using assms
proof (induction xs)
  case (Cons x xs)
  then obtain vs v where "run_all enc xs = Inr vs" "length vs = length xs" "run_all dec vs = Inr (map g xs)"
    "enc x = Inr v" "dec v = Inr (g x)" by auto
  thus ?case by (intro exI [of _ "v # vs"]) simp
qed simp

lemma array_trip:
  assumes J: "djson_sound J" and e: "\<forall>x \<in> set xs. \<exists>v. enc x = Inr v \<and> dec v = Inr (g x)"
  obtains arr where "enc_array J enc (Some xs) (length xs) = Inr arr" "j_type J arr = JT_array"
    "json_array_length J arr = Inr (length xs)" "dec_array J dec arr (length xs) = Inr (map g xs)"
proof -
  obtain vs where vs: "run_all enc xs = Inr vs" "length vs = length xs" "run_all dec vs = Inr (map g xs)"
    using run_all_trip [OF e] by blast
  show ?thesis
  proof (rule that [of "d_array J vs"])
    show "enc_array J enc (Some xs) (length xs) = Inr (d_array J vs)"
      by (simp add: enc_array_def arr_each_all vs(1))
    show "j_type J (d_array J vs) = JT_array" "json_array_length J (d_array J vs) = Inr (length xs)"
      using d_array_elems [OF J, of vs] vs(2) by simp_all
    show "dec_array J dec (d_array J vs) (length xs) = Inr (map g xs)"
      using dec_array_elems [OF J, of dec vs] vs(2,3) by simp
  qed
qed

lemma members_one: "m = Inr v \<Longrightarrow> d_members J [(k, m)] = Inr (d_object J [(k, v)])"
  by (simp add: d_members_def)

lemma object_one:
  "djson_sound J \<Longrightarrow> j_parse J (j_print J (d_object J [(k, v)])) = Some (d_object J [(k, v)]) \<and>
    j_get J (d_object J [(k, v)]) k = Some v"
  by (simp add: d_object_parse d_object_get)

section \<open>Messages displayed\<close>

definition pool_ok :: "pool_element \<Rightarrow> bool" where
  "pool_ok e \<longleftrightarrow> cbuf_ok 64 (pe_msgId e) \<and> cbuf_ok 128 (pe_dynamicData e)"

lemma pool_trip:
  assumes J: "djson_sound J" and e: "pool_ok e"
  shows "\<exists>v. encode_pool J e = Inr v \<and> dec_pool J v = Inr e"
proof -
  obtain s where s: "no_nul s" "length s < 64" "pe_msgId e = cbuf_of 64 s" "cbuf_text (pe_msgId e) = Inr s"
    using e cbuf_okE unfolding pool_ok_def by metis
  obtain d where d: "no_nul d" "length d < 128" "pe_dynamicData e = cbuf_of 128 d"
    "cbuf_text (pe_dynamicData e) = Inr d"
    using e cbuf_okE unfolding pool_ok_def by metis
  define v where "v = d_object J
    [(''msgId'', j_new_string J s), (''maxWaitTime'', j_new_int J (pe_maxWaitTime e)),
     (''maxWaitTimeRemain'', j_new_int J (pe_maxWaitTimeRemain e)),
     (''displayDuration'', j_new_int J (pe_displayDuration e)),
     (''displayDurationRemain'', j_new_int J (pe_displayDurationRemain e)),
     (''displayPriority'', j_new_int J (pe_displayPriority e)), (''dynamicData'', j_new_string J d)]"
  have "encode_pool J e = Inr v"
    by (simp add: encode_pool_def d_members_def enc_buf_def enc_int_def s(4) d(4) v_def)
  moreover have g: "j_get J v ''msgId'' = Some (j_new_string J s)" "j_get J v ''dynamicData'' = Some (j_new_string J d)"
    "j_get J v ''maxWaitTime'' = Some (j_new_int J (pe_maxWaitTime e))"
    "j_get J v ''maxWaitTimeRemain'' = Some (j_new_int J (pe_maxWaitTimeRemain e))"
    "j_get J v ''displayDuration'' = Some (j_new_int J (pe_displayDuration e))"
    "j_get J v ''displayDurationRemain'' = Some (j_new_int J (pe_displayDurationRemain e))"
    "j_get J v ''displayPriority'' = Some (j_new_int J (pe_displayPriority e))"
    by (simp_all add: v_def d_object_get [OF J])
  have "dec_pool J v = Inr e"
    unfolding dec_pool_def pool_zero_def
    using s d by (simp add: dec_buf_string [OF J g(1)] dec_buf_string [OF J g(2)] g(3-)
        dec_int_int [OF J])
  ultimately show ?thesis by blast
qed

lemma s40_trip:
  assumes J: "djson_sound J" and l: "s40_displayPoolList r = Some es" "s40_displayPoolCount r = length es"
    and ok: "list_all pool_ok es"
  shows "\<exists>j. encode_disp_s40_status_response J (Some r) = Inr (Some j) \<and>
    decode_disp_s40_status_response J (Some (j_print J j)) (Some r0) = Inr (Some r, True)"
proof -
  have e: "\<forall>x \<in> set es. \<exists>v. encode_pool J x = Inr v \<and> dec_pool J v = Inr ((\<lambda>x. x) x)"
    using pool_trip [OF J] ok by (simp add: list_all_iff)
  obtain arr where a: "enc_array J (encode_pool J) (Some es) (length es) = Inr arr" "j_type J arr = JT_array"
    "json_array_length J arr = Inr (length es)" "dec_array J (dec_pool J) arr (length es) = Inr (map (\<lambda>x. x) es)"
    by (rule array_trip [OF J e])
  let ?j = "d_object J [(''displayPoolList'', arr)]"
  have "encode_disp_s40_status_response J (Some r) = Inr (Some ?j)"
    by (simp add: encode_disp_s40_status_response_def l a(1) members_one)
  moreover have "decode_disp_s40_status_response J (Some (j_print J ?j)) (Some r0) = Inr (Some r, True)"
    using object_one [OF J, of "''displayPoolList''" arr] a l
    by (simp add: decode_disp_s40_status_response_def disp_decode_def)
  ultimately show ?thesis by blast
qed

section \<open>Messages available\<close>

definition id_ok :: "cstr \<Rightarrow> bool" where
  "id_ok s = (case s of None \<Rightarrow> False | Some t \<Rightarrow> no_nul t)"

lemma id_trip: "djson_sound J \<Longrightarrow> id_ok s \<Longrightarrow> \<exists>v. enc_str J s = Inr v \<and> dec_msg_id J v = Inr s"
  by (auto simp: id_ok_def enc_str_def dec_msg_id_def djson_soundD split: option.splits)

lemma s30_trip:
  assumes J: "djson_sound J" and l: "s30_msgIdList r = Some ids" "s30_msgIdCount r = length ids"
    and ok: "list_all id_ok ids"
  shows "\<exists>j. encode_disp_s30_status_response J (Some r) = Inr (Some j) \<and>
    decode_disp_s30_status_response J (Some (j_print J j)) (Some r0) = Inr (Some r, True)"
proof -
  have e: "\<forall>x \<in> set ids. \<exists>v. enc_str J x = Inr v \<and> dec_msg_id J v = Inr ((\<lambda>x. x) x)"
    using id_trip [OF J] ok by (simp add: list_all_iff)
  obtain arr where a: "enc_array J (enc_str J) (Some ids) (length ids) = Inr arr" "j_type J arr = JT_array"
    "json_array_length J arr = Inr (length ids)" "dec_array J (dec_msg_id J) arr (length ids) = Inr (map (\<lambda>x. x) ids)"
    by (rule array_trip [OF J e])
  let ?j = "d_object J [(''msgIdList'', arr)]"
  have "encode_disp_s30_status_response J (Some r) = Inr (Some ?j)"
    by (simp add: encode_disp_s30_status_response_def l a(1) members_one)
  moreover have "decode_disp_s30_status_response J (Some (j_print J ?j)) (Some r0) = Inr (Some r, True)"
    using object_one [OF J, of "''msgIdList''" arr] a l
    by (simp add: decode_disp_s30_status_response_def disp_decode_def)
  ultimately show ?thesis by blast
qed

section \<open>Capacities\<close>

lemma arr_each_take: "i + k \<le> length xs \<Longrightarrow> arr_each f (Some xs) i k = run_all f (take k (drop i xs))"
proof (induction k arbitrary: i)
  case (Suc k)
  hence "drop i xs = xs ! i # drop (Suc i) xs" by (simp add: Cons_nth_drop_Suc)
  thus ?case using Suc by (simp add: arr_at_def)
qed simp

lemma enc_array_some:
  assumes "n \<le> length xs" "\<forall>x \<in> set (take n xs). \<exists>v. enc x = Inr v"
  shows "\<exists>arr. enc_array J enc (Some xs) n = Inr arr"
proof -
  have "\<exists>vs. run_all enc (take n xs) = Inr vs"
    using run_all_trip [of "take n xs" enc "\<lambda>v. Inr ()" "\<lambda>x. ()"] assms(2) by auto
  thus ?thesis using arr_each_take [of 0 n xs enc] assms(1) by (auto simp: enc_array_def)
qed

lemma enc_buf_some: "cbuf_ok n b \<Longrightarrow> \<exists>v. enc_buf J b = Inr v"
  by (erule cbuf_okE) (simp add: enc_buf_def)

definition group_ok :: "group_object \<Rightarrow> bool" where
  "group_ok g \<longleftrightarrow>
    cbuf_ok 64 (gr_predefinedGroupId g) \<and> gr_enumCount g \<le> length (gr_supportedEnum g) \<and>
    list_all (cbuf_ok 32) (take (gr_enumCount g) (gr_supportedEnum g))"

lemma encode_group_some: "group_ok g \<Longrightarrow> \<exists>v. encode_group J g = Inr v"
proof -
  assume g: "group_ok g"
  obtain v where v: "enc_buf J (gr_predefinedGroupId g) = Inr v"
    using enc_buf_some [of 64 "gr_predefinedGroupId g" J] g by (auto simp: group_ok_def)
  have le: "gr_enumCount g \<le> length (gr_supportedEnum g)" using g by (simp add: group_ok_def)
  have "\<forall>x \<in> set (take (gr_enumCount g) (gr_supportedEnum g)). \<exists>v. enc_buf J x = Inr v"
    using g enc_buf_some [of 32] by (auto simp: group_ok_def list_all_iff)
  from enc_array_some [OF le this]
  obtain arr where "enc_array J (enc_buf J) (Some (gr_supportedEnum g)) (gr_enumCount g) = Inr arr" by blast
  thus ?thesis by (simp add: encode_group_def d_members_def v)
qed

definition s10_ok :: "s10_response \<Rightarrow> bool" where
  "s10_ok r \<longleftrightarrow>
    cbuf_ok 32 (s10_displayType r) \<and> cbuf_ok 32 (s10_templateType r) \<and>
    (case s10_predefinedGroups r of
       None \<Rightarrow> True
     | Some gs \<Rightarrow> s10_predefinedGroupCount r \<le> length gs \<and> list_all group_ok (take (s10_predefinedGroupCount r) gs))"

text \<open>What the decoder reads of the capacities.\<close>
definition s10_read :: "s10_response \<Rightarrow> s10_response" where
  "s10_read r = r\<lparr> s10_width := 0, s10_height := 0, s10_textDisplayable := 0, s10_predefinedGroups := None,
                   s10_predefinedGroupCount := 0 \<rparr>"

lemma s10_read_fields:
  "s10_zero\<lparr> s10_displayType := s10_displayType r, s10_templateType := s10_templateType r,
     s10_minDisplayTime := s10_minDisplayTime r, s10_maxObjectIdSize := s10_maxObjectIdSize r,
     s10_maxSupportedTemplate := s10_maxSupportedTemplate r, s10_maxSupportedZone := s10_maxSupportedZone r,
     s10_maxSupportedSequence := s10_maxSupportedSequence r, s10_maxSupportedAnimation := s10_maxSupportedAnimation r,
     s10_maxSupportedAvailableMsg := s10_maxSupportedAvailableMsg r,
     s10_maxSupportedDisplayPool := s10_maxSupportedDisplayPool r, s10_maxScrollSpeed := s10_maxScrollSpeed r \<rparr> =
   s10_read r"
  by (cases r) (simp add: s10_read_def s10_zero_def)

lemma s10_groups_some:
  assumes "s10_ok r"
  shows "\<exists>v. (if s10_predefinedGroupCount r > 0 \<and> s10_predefinedGroups r \<noteq> None
              then enc_array J (encode_group J) (s10_predefinedGroups r) (s10_predefinedGroupCount r)
              else Inr (j_null J)) = Inr v"
proof (cases "s10_predefinedGroups r")
  case (Some gs)
  hence le: "s10_predefinedGroupCount r \<le> length gs" using assms by (simp add: s10_ok_def)
  have "\<forall>x \<in> set (take (s10_predefinedGroupCount r) gs). \<exists>v. encode_group J x = Inr v"
    using assms Some encode_group_some by (auto simp: s10_ok_def list_all_iff)
  from enc_array_some [OF le this] show ?thesis by (simp add: Some)
qed simp

text \<open>The object the encoder makes, with the texts and the groups.\<close>
definition s10_members :: "'j djson \<Rightarrow> s10_response \<Rightarrow> string \<Rightarrow> string \<Rightarrow> 'j \<Rightarrow> (string \<times> 'j) list" where
  "s10_members J r d t g =
     [(''displayType'', j_new_string J d), (''templateType'', j_new_string J t),
      (''minDisplayTime'', j_new_int J (s10_minDisplayTime r)), (''maxObjectIdSize'', j_new_int J (s10_maxObjectIdSize r)),
      (''maxSupportedTemplate'', j_new_int J (s10_maxSupportedTemplate r)),
      (''maxSupportedZone'', j_new_int J (s10_maxSupportedZone r)),
      (''maxSupportedSequence'', j_new_int J (s10_maxSupportedSequence r)),
      (''maxSupportedAnimation'', j_new_int J (s10_maxSupportedAnimation r)),
      (''maxSupportedAvailableMsg'', j_new_int J (s10_maxSupportedAvailableMsg r)),
      (''maxSupportedDisplayPool'', j_new_int J (s10_maxSupportedDisplayPool r)),
      (''maxScrollSpeed'', j_new_int J (s10_maxScrollSpeed r)),
      (''size'', d_object J [(''width'', j_new_int J (s10_width r)), (''height'', j_new_int J (s10_height r))]),
      (''textDisplayable'', j_new_boolean J (s10_textDisplayable r \<noteq> 0)), (''predefinedGroups'', g)]"

lemma s10_members_get:
  assumes "djson_sound J" and j: "j = d_object J (s10_members J r d t g)"
  shows "j_get J j ''displayType'' = Some (j_new_string J d)" "j_get J j ''templateType'' = Some (j_new_string J t)"
    "j_get J j ''minDisplayTime'' = Some (j_new_int J (s10_minDisplayTime r))"
    "j_get J j ''maxObjectIdSize'' = Some (j_new_int J (s10_maxObjectIdSize r))"
    "j_get J j ''maxSupportedTemplate'' = Some (j_new_int J (s10_maxSupportedTemplate r))"
    "j_get J j ''maxSupportedZone'' = Some (j_new_int J (s10_maxSupportedZone r))"
    "j_get J j ''maxSupportedSequence'' = Some (j_new_int J (s10_maxSupportedSequence r))"
    "j_get J j ''maxSupportedAnimation'' = Some (j_new_int J (s10_maxSupportedAnimation r))"
    "j_get J j ''maxSupportedAvailableMsg'' = Some (j_new_int J (s10_maxSupportedAvailableMsg r))"
    "j_get J j ''maxSupportedDisplayPool'' = Some (j_new_int J (s10_maxSupportedDisplayPool r))"
    "j_get J j ''maxScrollSpeed'' = Some (j_new_int J (s10_maxScrollSpeed r))"
    "j_parse J (j_print J j) = Some j"
  by (simp_all add: j s10_members_def d_object_get [OF assms(1)] d_object_parse [OF assms(1)])

lemma s10_encoded:
  assumes "cbuf_text (s10_displayType r) = Inr d" "cbuf_text (s10_templateType r) = Inr t"
    "(if s10_predefinedGroupCount r > 0 \<and> s10_predefinedGroups r \<noteq> None
      then enc_array J (encode_group J) (s10_predefinedGroups r) (s10_predefinedGroupCount r)
      else Inr (j_null J)) = Inr g"
  shows "encode_disp_s10_status_response J (Some r) = Inr (Some (d_object J (s10_members J r d t g)))"
  unfolding encode_disp_s10_status_response_def option.case assms(3) d_members_def enc_buf_def assms(1,2) enc_int_def
    rbind.simps run_all.simps snd_conv fst_conv s10_members_def
  by (rule refl)

lemma s10_trip:
  assumes J: "djson_sound J" and ok: "s10_ok r"
  shows "\<exists>j. encode_disp_s10_status_response J (Some r) = Inr (Some j) \<and>
    decode_disp_s10_status_response J (Some (j_print J j)) (Some r0) = Inr (Some (s10_read r), True)"
proof -
  have oks: "cbuf_ok 32 (s10_displayType r)" "cbuf_ok 32 (s10_templateType r)" using ok by (simp_all add: s10_ok_def)
  obtain d where d: "no_nul d" "length d < 32" "s10_displayType r = cbuf_of 32 d" "cbuf_text (s10_displayType r) = Inr d"
    by (rule cbuf_okE [OF oks(1)])
  obtain t where t: "no_nul t" "length t < 32" "s10_templateType r = cbuf_of 32 t" "cbuf_text (s10_templateType r) = Inr t"
    by (rule cbuf_okE [OF oks(2)])
  obtain g where g: "(if s10_predefinedGroupCount r > 0 \<and> s10_predefinedGroups r \<noteq> None
              then enc_array J (encode_group J) (s10_predefinedGroups r) (s10_predefinedGroupCount r)
              else Inr (j_null J)) = Inr g"
    using s10_groups_some [OF ok, of J] ..
  define j where "j = d_object J (s10_members J r d t g)"
  note n = s10_members_get [OF J j_def]
  have b: "dec_buf J j ''displayType'' 31 (s10_displayType s10_zero) = Inr (cbuf_of 32 d)"
    "dec_buf J j ''templateType'' 31 (s10_templateType s10_zero) = Inr (cbuf_of 32 t)"
    using dec_buf_string(2) [OF J n(1), of 32] dec_buf_string(2) [OF J n(2), of 32] d t by (simp_all add: s10_zero_def)
  have "decode_disp_s10_status_response J (Some (j_print J j)) (Some r0) = Inr (Some (s10_read r), True)"
    unfolding decode_disp_s10_status_response_def disp_decode_def option.case n(12) prod.case b rbind.simps
      n(3-11) [THEN dec_int_int [OF J]]
    by (simp only: s10_read_fields d(3) [symmetric] t(3) [symmetric])
  with s10_encoded [OF d(4) t(4) g, folded j_def] show ?thesis by (intro exI conjI)
qed

section \<open>Templates\<close>

definition text_options_ok :: "text_options \<Rightarrow> bool" where
  "text_options_ok t \<longleftrightarrow>
    list_all (cbuf_ok 32) [to_type t, to_textColor t, to_backgroundColor t, to_font t, to_horizontalAlign t,
      to_verticalAlign t, to_orientation t]"

definition zone_ok :: "zone_object \<Rightarrow> bool" where
  "zone_ok z \<longleftrightarrow>
    cbuf_ok 32 (zo_zoneId z) \<and> cbuf_ok 32 (zo_zoneType z) \<and>
    nat (sint (zo_colorCount z)) \<le> length (zo_supportedColors z) \<and>
    list_all (cbuf_ok 16) (take (nat (sint (zo_colorCount z))) (zo_supportedColors z)) \<and>
    pred_option text_options_ok (zo_textOptions z) \<and>
    pred_option (\<lambda>g. cbuf_ok 32 (go_negotiation g)) (zo_graphicOptions z) \<and>
    pred_option (\<lambda>p. cbuf_ok 32 (po_predefinedGroupId p)) (zo_predefinedOptions z)"

definition template_ok :: "template_object \<Rightarrow> bool" where
  "template_ok t \<longleftrightarrow>
    cbuf_ok 64 (tp_templateId t) \<and>
    (case tp_zones t of None \<Rightarrow> False | Some zs \<Rightarrow> tp_zoneCount t = length zs \<and> list_all zone_ok zs)"

text \<open>What the decoder reads of a zone and of a template.\<close>
definition zone_read :: "zone_object \<Rightarrow> zone_object" where
  "zone_read z = zone_zero\<lparr> zo_zoneId := zo_zoneId z, zo_zoneType := zo_zoneType z \<rparr>"

definition template_read :: "template_object \<Rightarrow> template_object" where
  "template_read t = t\<lparr> tp_zones := map_option (map zone_read) (tp_zones t) \<rparr>"

lemma text_options_some: "pred_option text_options_ok t \<Longrightarrow> \<exists>v. encode_text_options J t = Inr v"
proof (cases t)
  case (Some a)
  assume "pred_option text_options_ok t"
  hence *: "cbuf_ok 32 (to_type a)" "cbuf_ok 32 (to_textColor a)" "cbuf_ok 32 (to_backgroundColor a)"
    "cbuf_ok 32 (to_font a)" "cbuf_ok 32 (to_horizontalAlign a)" "cbuf_ok 32 (to_verticalAlign a)"
    "cbuf_ok 32 (to_orientation a)" using Some by (simp_all add: text_options_ok_def)
  from * [THEN enc_buf_some, of J] show ?thesis
    by (elim exE) (simp add: encode_text_options_def Some d_members_def)
qed (simp add: encode_text_options_def)

lemma graphic_options_some:
  "pred_option (\<lambda>g. cbuf_ok 32 (go_negotiation g)) t \<Longrightarrow> \<exists>v. encode_graphic_options J t = Inr v"
  using enc_buf_some by (cases t) (fastforce simp: encode_graphic_options_def d_members_def enc_int_def)+

lemma predefined_options_some:
  "pred_option (\<lambda>p. cbuf_ok 32 (po_predefinedGroupId p)) t \<Longrightarrow> \<exists>v. encode_predefined_options J t = Inr v"
  using enc_buf_some by (cases t) (fastforce simp: encode_predefined_options_def d_members_def enc_int_def)+

lemma zone_trip:
  assumes J: "djson_sound J" and z: "zone_ok z"
  shows "\<exists>v. encode_zone J z = Inr v \<and> dec_zone J v = Inr (zone_read z)"
proof -
  let ?n = "nat (sint (zo_colorCount z))"
  have oks: "cbuf_ok 32 (zo_zoneId z)" "cbuf_ok 32 (zo_zoneType z)" "?n \<le> length (zo_supportedColors z)"
    using z by (simp_all add: zone_ok_def)
  obtain s where s: "no_nul s" "length s < 32" "zo_zoneId z = cbuf_of 32 s" "cbuf_text (zo_zoneId z) = Inr s"
    by (rule cbuf_okE [OF oks(1)])
  obtain t where t: "no_nul t" "length t < 32" "zo_zoneType z = cbuf_of 32 t" "cbuf_text (zo_zoneType z) = Inr t"
    by (rule cbuf_okE [OF oks(2)])
  have "\<forall>x \<in> set (take ?n (zo_supportedColors z)). \<exists>v. enc_buf J x = Inr v"
    using z enc_buf_some [of 16] by (auto simp: zone_ok_def list_all_iff)
  from enc_array_some [OF oks(3) this]
  obtain c where c: "enc_array J (enc_buf J) (Some (zo_supportedColors z)) ?n = Inr c" by blast
  obtain o1 o2 o3 where opt: "encode_text_options J (zo_textOptions z) = Inr o1"
    "encode_graphic_options J (zo_graphicOptions z) = Inr o2"
    "encode_predefined_options J (zo_predefinedOptions z) = Inr o3"
    using z text_options_some graphic_options_some predefined_options_some unfolding zone_ok_def by metis
  define v where "v = d_object J
      [(''zoneId'', j_new_string J s), (''supportedColors'', c),
       (''position'', d_object J [(''x'', j_new_int J (zo_x z)), (''y'', j_new_int J (zo_y z)), (''z'', j_new_int J (zo_z z))]),
       (''zoneType'', j_new_string J t), (''textOptions'', o1), (''graphicOptions'', o2), (''predefinedOptions'', o3),
       (''customOptions'', if zo_customOptions z then j_new_object J else j_null J)]"
  have "encode_zone J z = Inr v"
    unfolding encode_zone_def d_members_def c opt
    by (simp add: enc_buf_def enc_int_def s(4) t(4) v_def)
  moreover have g: "j_get J v ''zoneId'' = Some (j_new_string J s)" "j_get J v ''zoneType'' = Some (j_new_string J t)"
    "j_get J v ''colorCount'' = None"
    by (simp_all add: v_def d_object_get [OF J])
  have "dec_buf J v ''zoneId'' 31 (zo_zoneId zone_zero) = Inr (cbuf_of 32 s)"
    "dec_buf J v ''zoneType'' 31 (zo_zoneType zone_zero) = Inr (cbuf_of 32 t)"
    using dec_buf_string(2) [OF J g(1), of 32] dec_buf_string(2) [OF J g(2), of 32] s t by (simp_all add: zone_zero_def)
  hence "dec_zone J v = Inr (zone_read z)"
    by (simp add: dec_zone_def dec_int_none [OF g(3)] zone_read_def s(3) t(3))
  ultimately show ?thesis by blast
qed

lemma template_trip:
  assumes J: "djson_sound J" and t: "template_ok t"
  shows "\<exists>v. encode_template J t = Inr v \<and> dec_template J v = Inr (template_read t)"
proof -
  have "cbuf_ok 64 (tp_templateId t)" using t by (simp add: template_ok_def)
  then obtain s where s: "no_nul s" "length s < 64" "tp_templateId t = cbuf_of 64 s" "cbuf_text (tp_templateId t) = Inr s"
    by (rule cbuf_okE)
  obtain zs where zs: "tp_zones t = Some zs" "tp_zoneCount t = length zs" "list_all zone_ok zs"
    using t by (auto simp: template_ok_def split: option.splits)
  have e: "\<forall>z \<in> set zs. \<exists>v. encode_zone J z = Inr v \<and> dec_zone J v = Inr (zone_read z)"
    using zone_trip [OF J] zs(3) by (simp add: list_all_iff)
  obtain arr where a: "enc_array J (encode_zone J) (Some zs) (length zs) = Inr arr" "j_type J arr = JT_array"
    "json_array_length J arr = Inr (length zs)" "dec_array J (dec_zone J) arr (length zs) = Inr (map zone_read zs)"
    by (rule array_trip [OF J e])
  define v where "v = d_object J
      [(''templateId'', j_new_string J s), (''readonly'', j_new_boolean J (tp_readonly t)), (''zones'', arr)]"
  have "encode_template J t = Inr v"
    unfolding encode_template_def d_members_def zs(1,2) a(1) by (simp add: enc_buf_def s(4) v_def)
  moreover have g: "j_get J v ''templateId'' = Some (j_new_string J s)"
    "j_get J v ''readonly'' = Some (j_new_boolean J (tp_readonly t))" "j_get J v ''zones'' = Some arr"
    by (simp_all add: v_def d_object_get [OF J])
  have "dec_buf J v ''templateId'' 63 (tp_templateId template_zero) = Inr (cbuf_of 64 s)"
    using dec_buf_string(2) [OF J g(1), of 64] s by (simp add: template_zero_def)
  hence "dec_template J v = Inr (template_read t)"
    unfolding dec_template_def g option.case Let_def a rbind.simps
    by (simp add: template_zero_def template_read_def zs(1,2) s(3) djson_soundD(7) [OF J])
  ultimately show ?thesis by blast
qed

lemma s20_trip:
  assumes J: "djson_sound J" and l: "s20_templates r = Some ts" "s20_templateCount r = length ts"
    and ok: "list_all template_ok ts"
  shows "\<exists>j. encode_disp_s20_status_response J (Some r) = Inr (Some j) \<and>
    decode_disp_s20_status_response J (Some (j_print J j)) (Some r0) =
      Inr (Some \<lparr> s20_templates = Some (map template_read ts), s20_templateCount = length ts \<rparr>, True)"
proof -
  have e: "\<forall>x \<in> set ts. \<exists>v. encode_template J x = Inr v \<and> dec_template J v = Inr (template_read x)"
    using template_trip [OF J] ok by (simp add: list_all_iff)
  obtain arr where a: "enc_array J (encode_template J) (Some ts) (length ts) = Inr arr" "j_type J arr = JT_array"
    "json_array_length J arr = Inr (length ts)" "dec_array J (dec_template J) arr (length ts) = Inr (map template_read ts)"
    by (rule array_trip [OF J e])
  let ?j = "d_object J [(''templates'', arr)]"
  have "encode_disp_s20_status_response J (Some r) = Inr (Some ?j)"
    by (simp add: encode_disp_s20_status_response_def l a(1) members_one)
  moreover have "decode_disp_s20_status_response J (Some (j_print J ?j)) (Some r0) =
      Inr (Some \<lparr> s20_templates = Some (map template_read ts), s20_templateCount = length ts \<rparr>, True)"
    using object_one [OF J, of "''templates''" arr] a l
    by (simp add: decode_disp_s20_status_response_def disp_decode_def)
  ultimately show ?thesis by blast
qed

end
