(* ===== verification/DispHandlers.thy ===== *)
theory DispHandlers
  imports DispTrip
begin

text \<open>
  Model of the handlers of the display messages (\<open>rsmp/sxl/display/disp_*_handler.c\<close> and the functions of
  \<open>disp_m31.c\<close> to \<open>disp_s40.c\<close>) and of \<open>rsmp/vars/arraystr.c\<close>.  A handler gets the argument of a command
  and leaves its value and its age in the response; what it prints must be a text that can be read.  The
  structures decoded into are variables of the handler without values.  The handlers ignore their
  contexts, which are left out.
\<close>

section \<open>Arguments and responses\<close>

record args_t =
  ar_cCI :: cstr
  ar_n :: cstr
  ar_cO :: cstr
  ar_v :: "char rarray"

record rvs_t =
  rv_cCI :: cstr
  rv_n :: cstr
  rv_v :: "char rarray"
  rv_age :: nat

text \<open>The constant behind the ages a message can carry.\<close>
definition rsmp_age_no :: nat where "rsmp_age_no = length rsmp_age_lib"

text \<open>The items of an array of characters taken as a C string.\<close>
definition items_text :: "char rarray \<Rightarrow> cstr run" where
  "items_text v =
    (case ra_items v of
       None \<Rightarrow> Inr None
     | Some b \<Rightarrow> if CHR 0x00 \<in> set b then Inr (Some (c_text b)) else Inl Read_oob)"

definition rsmp_array_char_from_str_len :: "char rarray option \<Rightarrow> cstr \<Rightarrow> nat \<Rightarrow> char rarray run" where
  "rsmp_array_char_from_str_len a str n =
    (case str of
       None \<Rightarrow> Inl Assert_failed
     | Some s \<Rightarrow>
         rbind (case a of None \<Rightarrow> ra_new n | Some b \<Rightarrow> ra_initialize char_type b n) (\<lambda>b.
           if s = [] \<or> n = 0 then Inr b
           else rbind (ra_memcpy (ra_items b) 0 (Some (s @ [CHR 0x00])) 0 n) (\<lambda>its. Inr (b\<lparr> ra_items := Some its \<rparr>))))"

text \<open>The array as a text: a new one of the length of the array, padded with blanks in front when it holds
  a NUL, or copied to a buffer up to the NUL of the array.\<close>
definition rsmp_array_char_to_str :: "char rarray \<Rightarrow> cstr \<Rightarrow> nat \<Rightarrow> string run" where
  "rsmp_array_char_to_str a str n =
    (case str of
       None \<Rightarrow>
         (case ra_items a of
            None \<Rightarrow> if ra_len a = 0 then Inr [] else Inl Null_deref
          | Some b \<Rightarrow>
              if length b < ra_len a \<and> CHR 0x00 \<notin> set b then Inl Read_oob
              else let t = c_text (take (ra_len a) b) in Inr (replicate (ra_len a - length t) (CHR '' '') @ t))
     | Some buf \<Rightarrow>
         rbind (items_text a) (\<lambda>t.
           case t of
             None \<Rightarrow> Inl Null_deref
           | Some s \<Rightarrow> if n = 0 then Inr buf else Inr (take (n - 1) s)))"

text \<open>The function gives the address of the array, which is never \<open>NULL\<close>.\<close>
definition rsmp_array_char_set :: "char rarray \<Rightarrow> nat \<Rightarrow> char \<Rightarrow> char rarray option run" where
  "rsmp_array_char_set a i c = rbind (ra_set char_type a i c) (\<lambda>b. Inr (Some b))"

section \<open>Functions of the structures\<close>

text \<open>\<open>isalnum\<close> in the C locale.\<close>
definition is_alnum :: "char \<Rightarrow> bool" where
  "is_alnum c \<longleftrightarrow>
    CHR ''0'' \<le> c \<and> c \<le> CHR ''9'' \<or> CHR ''A'' \<le> c \<and> c \<le> CHR ''Z'' \<or> CHR ''a'' \<le> c \<and> c \<le> CHR ''z''"

definition is_valid_msg_id :: "cstr \<Rightarrow> bool" where
  "is_valid_msg_id msgId =
    (case msgId of
       None \<Rightarrow> False
     | Some s \<Rightarrow> s \<noteq> [] \<and> list_all (\<lambda>c. is_alnum c \<or> c = CHR ''-'' \<or> c = CHR ''.'') s)"

text \<open>The release of a request follows the counts and reads every structure it passes.\<close>
definition free_animation :: "animation \<Rightarrow> unit run" where "free_animation a = Inr ()"

definition free_sequence :: "sequence_object \<Rightarrow> unit run" where
  "free_sequence s = rbind (arr_each free_animation (sq_animations s) 0 (sq_animationCount s)) (\<lambda>u. Inr ())"

definition free_message :: "message_object \<Rightarrow> unit run" where
  "free_message m = rbind (arr_each free_sequence (mo_sequences m) 0 (mo_sequenceCount m)) (\<lambda>u. Inr ())"

definition free_disp_m31_command_request :: "m31_request option \<Rightarrow> m31_request option run" where
  "free_disp_m31_command_request req =
    (case req of
       None \<Rightarrow> Inr None
     | Some r \<Rightarrow>
         if m31_messages r = None then Inr (Some r)
         else rbind (arr_each free_message (m31_messages r) 0 (m31_messageCount r)) (\<lambda>u.
                Inr (Some (r\<lparr> m31_messages := None, m31_messageCount := 0 \<rparr>))))"

definition free_disp_m32_command_request :: "m32_request option \<Rightarrow> m32_request option run" where
  "free_disp_m32_command_request req =
    (case req of
       None \<Rightarrow> Inr None
     | Some r \<Rightarrow>
         if m32_msgIdList r = None then Inr (Some r)
         else rbind (arr_each (\<lambda>s. Inr ()) (m32_msgIdList r) 0 (m32_msgIdCount r)) (\<lambda>u.
                Inr (Some (r\<lparr> m32_msgIdList := None, m32_msgIdCount := 0 \<rparr>))))"

definition free_disp_m40_command_request :: "'a \<Rightarrow> 'a" where "free_disp_m40_command_request req = req"

definition free_disp_m40_command_response :: "'a \<Rightarrow> 'a" where "free_disp_m40_command_response res = res"

text \<open>The identifier of the message is what the request and the response begin with.\<close>
definition free_disp_m41_command_request :: "m41_response option \<Rightarrow> m41_response option" where
  "free_disp_m41_command_request req = map_option (\<lambda>r. r\<lparr> r41_msgId := cbuf_of 64 [] \<rparr>) req"

definition free_disp_s30_status_response :: "s30_response option \<Rightarrow> s30_response option run" where
  "free_disp_s30_status_response res =
    (case res of
       None \<Rightarrow> Inr None
     | Some r \<Rightarrow>
         rbind (arr_each (\<lambda>s. Inr ()) (s30_msgIdList r) 0 (s30_msgIdCount r)) (\<lambda>u.
           Inr (Some (r\<lparr> s30_msgIdList := None, s30_msgIdCount := 0 \<rparr>))))"

definition free_disp_s40_status_response :: "s40_response option \<Rightarrow> s40_response option" where
  "free_disp_s40_status_response res =
    map_option (\<lambda>r. r\<lparr> s40_displayPoolList := None, s40_displayPoolCount := 0 \<rparr>) res"

section \<open>Handlers of the commands\<close>

text \<open>The guards and the decoding all handlers begin with.  When the decoding fails they print the text
  and return \<open>bad\<close>.\<close>
definition disp_handle ::
  "(cstr \<Rightarrow> 'r option \<Rightarrow> ('r option \<times> bool) run) \<Rightarrow> 'r \<Rightarrow> errcode \<Rightarrow>
   args_t option \<Rightarrow> rvs_t \<Rightarrow> ('r \<Rightarrow> (rvs_t \<times> errcode) run) \<Rightarrow> (rvs_t \<times> errcode) run" where
  "disp_handle decode uninit bad request response k =
    (case request of
       None \<Rightarrow> Inr (response, bad)
     | Some q \<Rightarrow>
         if ra_len (ar_v q) = 0 then Inr (response, bad)
         else rbind (items_text (ar_v q)) (\<lambda>json_str.
              rbind (decode json_str (Some uninit)) (\<lambda>(parsed, ok).
                case parsed of
                  None \<Rightarrow> Inr (response, bad)
                | Some p \<Rightarrow> if \<not> ok then Inr (response, bad) else k p)))"

definition ack_array :: "rvs_t \<Rightarrow> char rarray run" where
  "ack_array response = rsmp_array_char_from_str_len (Some (rv_v response)) (Some ''ACK'') 3"

text \<open>A response with content is not a request: its release would take the messages for structures of
  another type.\<close>
definition free_m31_response :: "ret_response \<Rightarrow> unit run" where
  "free_m31_response p = (if rr_retMessages p = None \<or> rr_retMessageCount p = 0 then Inr () else Inl Wrong_type)"

definition ret_uninit :: ret_response where "ret_uninit = \<lparr> rr_retMessages = None, rr_retMessageCount = 0 \<rparr>"

text \<open>The test for the success of \<open>rsmp_array_char_set\<close> takes the address it returns for a failure.\<close>
definition handle_disp_m31 :: "'j djson \<Rightarrow> args_t option \<Rightarrow> rvs_t \<Rightarrow> (rvs_t \<times> errcode) run" where
  "handle_disp_m31 J request response =
    disp_handle (decode_disp_m31_command_response J) ret_uninit E_generic request response (\<lambda>p.
      rbind (arr_at (rr_retMessages p) 0) (\<lambda>m.
      rbind (cbuf_text (rm_msgId m)) (\<lambda>i.
        if i = [] then Inr (response, E_generic)
        else rbind (cbuf_text (rs_rea (rm_retStatus m))) (\<lambda>rea.
             rbind (ack_array response) (\<lambda>v.
             rbind (rsmp_array_char_set v 0 (CHR ''A'')) (\<lambda>set.
               case set of
                 Some b \<Rightarrow> Inr (response\<lparr> rv_v := b \<rparr>, E_generic)
               | None \<Rightarrow>
                   if ra_len v = 0 then Inr (response\<lparr> rv_v := v \<rparr>, E_no_error)
                   else rbind (free_m31_response p) (\<lambda>u.
                          Inr (response\<lparr> rv_v := v, rv_age := rsmp_age_no \<rparr>, E_no_error))))))))"

text \<open>The messages as the memory they fill.\<close>
definition ret_bytes :: "ret_message \<Rightarrow> cbuf" where
  "ret_bytes m = rm_msgId m @ rs_code (rm_retStatus m) @ rs_rea (rm_retStatus m)"

text \<open>The loop over the identifiers takes every eight bytes of that memory for a pointer: one of zeros is
  \<open>NULL\<close> and ends the handler with an error, any other is none to a text.\<close>
fun m32_ids :: "cbuf \<Rightarrow> nat \<Rightarrow> nat \<Rightarrow> bool run" where
  "m32_ids mem i 0 = Inr True"
| "m32_ids mem i (Suc k) =
    (let p = take 8 (drop (8 * i) mem)
     in if length p < 8 then Inl Read_oob
        else if None \<in> set p then Inl Uninit_read
        else if p = replicate 8 (Some (CHR 0x00)) then Inr False
        else Inl Wrong_type)"

definition handle_disp_m32 :: "'j djson \<Rightarrow> args_t option \<Rightarrow> rvs_t \<Rightarrow> (rvs_t \<times> errcode) run" where
  "handle_disp_m32 J request response =
    disp_handle (decode_disp_m32_command_response J) ret_uninit E_generic request response (\<lambda>p.
      if rr_retMessageCount p = 0 \<or> rr_retMessages p = None then Inr (response, E_generic)
      else rbind (m32_ids (concat (map ret_bytes (the (rr_retMessages p)))) 0 (rr_retMessageCount p)) (\<lambda>ok.
             if \<not> ok then Inr (response, E_generic)
             else rbind (ack_array response) (\<lambda>v.
                  rbind (rsmp_array_char_set v 0 (CHR ''A'')) (\<lambda>set.
                    case set of
                      Some b \<Rightarrow> Inr (response\<lparr> rv_v := b \<rparr>, E_no_error)
                    | None \<Rightarrow> Inl Wrong_type))))"

definition m40_uninit :: m40_response where
  "m40_uninit = \<lparr> r40_msgId = cbuf_uninit 64, r40_behaviorUsed = cbuf_uninit 16, r40_retStatus = status_uninit \<rparr>"

definition handle_disp_m40 :: "'j djson \<Rightarrow> args_t option \<Rightarrow> rvs_t \<Rightarrow> (rvs_t \<times> errcode) run" where
  "handle_disp_m40 J request response =
    disp_handle (decode_disp_m40_command_response J) m40_uninit E_generic request response (\<lambda>p.
      rbind (cbuf_text (r40_msgId p)) (\<lambda>i.
        if i = [] then Inr (response, E_generic)
        else rbind (cbuf_text (rs_rea (r40_retStatus p))) (\<lambda>rea.
             rbind (ack_array response) (\<lambda>v.
               if ra_len v = 0 then Inr (response\<lparr> rv_v := v \<rparr>, E_generic)
               else Inr (response\<lparr> rv_v := v, rv_age := rsmp_age_no \<rparr>, E_no_error)))))"

definition m41_uninit :: m41_response where
  "m41_uninit = \<lparr> r41_msgId = cbuf_uninit 64, r41_displayPriority = None, r41_retStatus = status_uninit \<rparr>"

definition handle_disp_m41 :: "'j djson \<Rightarrow> args_t option \<Rightarrow> rvs_t \<Rightarrow> (rvs_t \<times> errcode) run" where
  "handle_disp_m41 J request response =
    disp_handle (decode_disp_m41_command_response J) m41_uninit E_generic request response (\<lambda>p.
      rbind (cbuf_text (r41_msgId p)) (\<lambda>i.
        if i = [] then Inr (response, E_generic)
        else rbind (cbuf_text (rs_rea (r41_retStatus p))) (\<lambda>rea.
             rbind (ack_array response) (\<lambda>v.
             rbind (rsmp_array_char_set v 0 (CHR ''A'')) (\<lambda>set.
               case set of
                 Some b \<Rightarrow> Inr (response\<lparr> rv_v := b \<rparr>, E_generic)
               | None \<Rightarrow>
                   if ra_len v = 0 then Inr (response\<lparr> rv_v := v \<rparr>, E_no_error)
                   else Inr (response\<lparr> rv_v := v, rv_age := rsmp_age_no \<rparr>, E_no_error))))))"

section \<open>Handlers of the statuses\<close>

text \<open>The texts are read because they are printed.\<close>
definition handle_disp_s10 :: "'j djson \<Rightarrow> args_t option \<Rightarrow> rvs_t \<Rightarrow> (rvs_t \<times> errcode) run" where
  "handle_disp_s10 J request response =
    disp_handle (decode_disp_s10_status_response J) s10_zero E_generic request response (\<lambda>p.
      rbind (cbuf_text (s10_displayType p)) (\<lambda>d.
        if d = [] then Inr (response, E_generic)
        else rbind (cbuf_text (s10_templateType p)) (\<lambda>t.
               Inr (response\<lparr> rv_age := rsmp_age_no \<rparr>, E_no_error))))"

definition handle_disp_s20 :: "'j djson \<Rightarrow> args_t option \<Rightarrow> rvs_t \<Rightarrow> (rvs_t \<times> errcode) run" where
  "handle_disp_s20 J request response =
    disp_handle (decode_disp_s20_status_response J) \<lparr> s20_templates = None, s20_templateCount = 0 \<rparr> E_generic
      request response (\<lambda>p.
        if s20_templateCount p = 0 then Inr (response, E_generic)
        else rbind (arr_each (\<lambda>t. cbuf_text (tp_templateId t)) (s20_templates p) 0 (s20_templateCount p)) (\<lambda>texts.
               Inr (response\<lparr> rv_age := rsmp_age_no \<rparr>, E_no_error)))"

text \<open>The array of the response is asked of a function that makes a new one, whose argument is a length.\<close>
definition handle_disp_s30 :: "'j djson \<Rightarrow> args_t option \<Rightarrow> rvs_t \<Rightarrow> (rvs_t \<times> errcode) run" where
  "handle_disp_s30 J request response =
    disp_handle (decode_disp_s30_status_response J) \<lparr> s30_msgIdList = None, s30_msgIdCount = 0 \<rparr> E_no_error
      request response (\<lambda>p.
        if s30_msgIdCount p = 0 \<or> s30_msgIdList p = None
        then rbind (free_disp_s30_status_response (Some p)) (\<lambda>f. Inr (response, E_no_error))
        else rbind (arr_each (\<lambda>s. Inr s) (s30_msgIdList p) 0 (s30_msgIdCount p)) (\<lambda>texts.
             rbind (ra_new 0 :: char rarray run) (\<lambda>unused.
             rbind (ack_array response) (\<lambda>v.
             rbind (free_disp_s30_status_response (Some p)) (\<lambda>f.
               Inr (response\<lparr> rv_v := v, rv_age := rsmp_age_no \<rparr>, E_no_error))))))"

definition handle_disp_s40 :: "'j djson \<Rightarrow> args_t option \<Rightarrow> rvs_t \<Rightarrow> (rvs_t \<times> errcode) run" where
  "handle_disp_s40 J request response =
    disp_handle (decode_disp_s40_status_response J) \<lparr> s40_displayPoolList = None, s40_displayPoolCount = 0 \<rparr> E_generic
      request response (\<lambda>p.
        if s40_displayPoolCount p = 0 then Inr (response, E_generic)
        else rbind (arr_each (\<lambda>e. cbuf_text (pe_msgId e)) (s40_displayPoolList p) 0 (s40_displayPoolCount p)) (\<lambda>texts.
               Inr (response\<lparr> rv_age := rsmp_age_no \<rparr>, E_no_error)))"

text \<open>The handlers with the names they are registered under.\<close>
definition disp_handlers ::
  "'j djson \<Rightarrow> (string \<times> (args_t option \<Rightarrow> rvs_t \<Rightarrow> (rvs_t \<times> errcode) run)) list" where
  "disp_handlers J =
    [(''DISP/M31'', handle_disp_m31 J), (''DISP/M32'', handle_disp_m32 J), (''DISP/M40'', handle_disp_m40 J),
     (''DISP/M41'', handle_disp_m41 J), (''DISP/S10'', handle_disp_s10 J), (''DISP/S20'', handle_disp_s20 J),
     (''DISP/S30'', handle_disp_s30 J), (''DISP/S40'', handle_disp_s40 J)]"

end
