(* ===== verification/DispProps.thy ===== *)
theory DispProps
  imports DispHandlers
begin

text \<open>
  What the handlers of the display messages do with what they are sent: with the value of a command as
  it is received, with the requests the encoders write, and with the responses they were made for.  At
  the end of the library part a concrete JSON library satisfies \<open>djson_sound\<close>.
\<close>

section \<open>A payload with its terminator\<close>

text \<open>The value of a command that holds a text and the NUL behind it.\<close>
definition terminated :: "args_t \<Rightarrow> string \<Rightarrow> bool" where
  "terminated q t \<longleftrightarrow> ra_len (ar_v q) = length t + 1 \<and> ra_items (ar_v q) = Some (t @ [CHR 0x00])"

lemma c_text_terminated: "no_nul t \<Longrightarrow> c_text (t @ CHR 0x00 # r) = t"
  by (induction t) (auto simp: c_text_def no_nul_def)

lemma handle_terminated:
  assumes "terminated q t" "no_nul t"
  shows "disp_handle decode uninit bad (Some q) response k =
    rbind (decode (Some t) (Some uninit)) (\<lambda>(parsed, ok).
      case parsed of None \<Rightarrow> Inr (response, bad) | Some p \<Rightarrow> if \<not> ok then Inr (response, bad) else k p)"
  using assms by (simp add: disp_handle_def terminated_def items_text_def c_text_terminated)

lemma handle_unterminated:
  assumes "ra_len (ar_v q) \<noteq> 0" "ra_items (ar_v q) = Some s" "no_nul s"
  shows "disp_handle decode uninit bad (Some q) response k = Inl Read_oob"
  using assms by (simp add: disp_handle_def items_text_def no_nul_def)

lemmas disp_handler_defs = handle_disp_m31_def handle_disp_m32_def handle_disp_m40_def handle_disp_m41_def
  handle_disp_s10_def handle_disp_s20_def handle_disp_s30_def handle_disp_s40_def

section \<open>The acknowledgement\<close>

definition v_declared :: "rvs_t \<Rightarrow> bool" where
  "v_declared r \<longleftrightarrow> ra_item_len (rv_v r) = 1 \<and> \<not> ra_free (rv_v r)"

definition ack_v :: "rvs_t \<Rightarrow> char rarray" where
  "ack_v r = (rv_v r)\<lparr> ra_len := 3, ra_items := Some ''ACK'' \<rparr>"

lemma ack_array_ok: "v_declared r \<Longrightarrow> ack_array r = Inr (ack_v r)"
  by (simp add: v_declared_def ack_array_def rsmp_array_char_from_str_len_def ra_initialize_def ra_flush_def rcalloc_def
      char_type_def ra_memcpy_def ack_v_def)

lemma ack_set: "rsmp_array_char_set (ack_v r) 0 (CHR ''A'') = Inr (Some (ack_v r))"
  by (simp add: rsmp_array_char_set_def ra_set_def ra_put_def ack_v_def)

lemma set_some: "rsmp_array_char_set v i c = Inr s \<Longrightarrow> s \<noteq> None"
  by (auto simp: rsmp_array_char_set_def)

section \<open>What the handlers can return\<close>

lemma handle_result:
  assumes "disp_handle decode uninit bad request response k = Inr (r, e)"
  shows "r = response \<and> e = bad \<or> (\<exists>p. k p = Inr (r, e))"
  using assms
  by (auto simp: disp_handle_def rbind_case_prod split: option.splits if_splits)

lemma m31_result: "handle_disp_m31 J request response = Inr (r, e) \<Longrightarrow> e = E_generic \<and> rv_age r = rv_age response"
  unfolding handle_disp_m31_def
  by (drule handle_result) (auto split: if_splits option.splits dest: set_some)

lemma m41_result: "handle_disp_m41 J request response = Inr (r, e) \<Longrightarrow> e = E_generic \<and> rv_age r = rv_age response"
  unfolding handle_disp_m41_def
  by (drule handle_result) (auto split: if_splits option.splits dest: set_some)

lemma m32_ids_no: "m32_ids mem i (Suc k) = Inr ok \<Longrightarrow> \<not> ok"
  by (auto simp: Let_def split: if_splits)

lemma m32_result: "handle_disp_m32 J request response = Inr (r, e) \<Longrightarrow> e = E_generic \<and> r = response"
  unfolding handle_disp_m32_def
proof (drule handle_result, elim disjE exE)
  fix p
  assume k: "(if rr_retMessageCount p = 0 \<or> rr_retMessages p = None then Inr (response, E_generic)
      else rbind (m32_ids (concat (map ret_bytes (the (rr_retMessages p)))) 0 (rr_retMessageCount p)) (\<lambda>ok.
             if \<not> ok then Inr (response, E_generic)
             else rbind (ack_array response) (\<lambda>v.
                  rbind (rsmp_array_char_set v 0 (CHR ''A'')) (\<lambda>set.
                    case set of
                      Some b \<Rightarrow> Inr (response\<lparr> rv_v := b \<rparr>, E_no_error)
                    | None \<Rightarrow> Inl Wrong_type)))) = Inr (r, e)"
  show ?thesis
  proof (cases "rr_retMessageCount p = 0 \<or> rr_retMessages p = None")
    case False
    then obtain n where n: "rr_retMessageCount p = Suc n" by (cases "rr_retMessageCount p") auto
    show ?thesis using k False m32_ids_no n by (auto split: if_splits simp del: m32_ids.simps)
  qed (use k in simp)
qed simp

lemma s30_result: "handle_disp_s30 J request response = Inr (r, e) \<Longrightarrow> e = E_no_error \<and> r = response"
  unfolding handle_disp_s30_def by (drule handle_result) (auto simp: ra_new_def split: if_splits)

section \<open>Requests\<close>

lemma members_one_inv: "d_members J [(k, m)] = Inr w \<Longrightarrow> \<exists>v. m = Inr v \<and> w = d_object J [(k, v)]"
  by (auto simp: d_members_def)

lemma m31_request_refused:
  assumes J: "djson_sound J" and e: "encode_disp_m31_command_request J (Some r) = Inr (Some j)"
    and q: "terminated q (j_print J j)"
  shows "handle_disp_m31 J (Some q) response = Inr (response, E_generic)"
proof -
  obtain v where j: "j = d_object J [(''messages'', v)]"
    using e by (auto simp: encode_disp_m31_command_request_def dest: members_one_inv)
  have "no_nul (j_print J j)" "j_parse J (j_print J j) = Some j" "j_get J j ''retMessages'' = None"
    by (simp_all add: j d_object_print [OF J] d_object_parse [OF J] d_object_get [OF J])
  thus ?thesis
    by (simp add: handle_disp_m31_def handle_terminated [OF q] decode_disp_m31_command_response_def disp_decode_def)
qed

lemma m32_request_refused:
  assumes J: "djson_sound J" and e: "encode_disp_m32_command_request J (Some r) = Inr (Some j)"
    and q: "terminated q (j_print J j)"
  shows "handle_disp_m32 J (Some q) response = Inr (response, E_generic)"
proof -
  obtain v where j: "j = d_object J [(''msgIdList'', v)]"
    using e by (auto simp: encode_disp_m32_command_request_def split: if_splits dest: members_one_inv)
  have "no_nul (j_print J j)" "j_parse J (j_print J j) = Some j" "j_get J j ''retMessages'' = None"
    by (simp_all add: j d_object_print [OF J] d_object_parse [OF J] d_object_get [OF J])
  thus ?thesis
    by (simp add: handle_disp_m32_def handle_terminated [OF q] decode_disp_m32_command_response_def disp_decode_def)
qed

lemma dec_buf_uninit:
  assumes "djson_sound J" "j_get J obj k = Some (j_new_string J s)" "no_nul s" "length s < n"
  shows "dec_buf J obj k n (cbuf_uninit n) = Inr (cbuf_of n s)"
  using assms by (simp add: dec_buf_def djson_soundD strncpy_fits cbuf_uninit_def)

lemma dec_status_none: "j_get J obj ''retStatus'' = None \<Longrightarrow> dec_status J obj st = Inr st"
  by (simp add: dec_status_def)

lemma m41_request_uninit:
  assumes J: "djson_sound J" and e: "encode_disp_m41_command_request J (Some r) = Inr (Some j)"
    and q: "terminated q (j_print J j)" and i: "cbuf_ok 64 (q41_msgId r)" "cbuf_text (q41_msgId r) \<noteq> Inr []"
  shows "handle_disp_m41 J (Some q) response = Inl Uninit_read"
proof -
  obtain s where s: "no_nul s" "length s < 64" "cbuf_text (q41_msgId r) = Inr s" by (rule cbuf_okE [OF i(1)])
  have j: "j = d_object J [(''msgId'', j_new_string J s), (''displayPriority'', j_new_int J (q41_displayPriority r))]"
    using e by (simp add: encode_disp_m41_command_request_def d_members_def enc_buf_def enc_int_def s(3))
  have n: "no_nul (j_print J j)" "j_parse J (j_print J j) = Some j" "j_get J j ''retStatus'' = None"
    and g: "j_get J j ''msgId'' = Some (j_new_string J s)"
    by (simp_all add: j d_object_print [OF J] d_object_parse [OF J] d_object_get [OF J])
  have b: "dec_buf J j ''msgId'' 64 (r41_msgId m41_uninit) = Inr (cbuf_of 64 s)"
    using dec_buf_uninit [OF J g s(1,2)] by (simp add: m41_uninit_def)
  have f: "r41_retStatus m41_uninit = status_uninit" "rs_rea status_uninit = cbuf_uninit 256"
    by (simp_all add: m41_uninit_def status_uninit_def)
  show ?thesis using s i(2)
    by (simp add: handle_disp_m41_def handle_terminated [OF q n(1)] decode_disp_m41_command_response_def disp_decode_def
        n b dec_status_none Let_def f cbuf_text_uninit)
qed

lemma m40_request_uninit:
  assumes J: "djson_sound J" and e: "encode_disp_m40_command_request J (Some r) = Inr (Some j)"
    and q: "terminated q (j_print J j)" and i: "cbuf_ok 64 (q40_msgId r)" "cbuf_text (q40_msgId r) \<noteq> Inr []"
  shows "handle_disp_m40 J (Some q) response = Inl Uninit_read"
proof -
  obtain s where s: "no_nul s" "length s < 64" "cbuf_text (q40_msgId r) = Inr s" by (rule cbuf_okE [OF i(1)])
  obtain b d where t: "cbuf_text (q40_displayBehavior r) = Inr b" "cbuf_text (q40_dynamicData r) = Inr d"
    using e by (auto simp: encode_disp_m40_command_request_def d_members_def enc_buf_def)
  let ?ms = "[(''msgId'', j_new_string J s), (''displayBehavior'', j_new_string J b),
      (''maxWaitTime'', j_new_int J (q40_maxWaitTime r)), (''displayDuration'', j_new_int J (q40_displayDuration r)),
      (''displayPriority'', j_new_int J (q40_displayPriority r))]"
  have "j = (if d \<noteq> [] then j_add J (d_object J ?ms) ''dynamicData'' (j_new_string J d) else d_object J ?ms)"
    using e t by (simp add: encode_disp_m40_command_request_def d_members_def enc_buf_def enc_int_def s(3) split: if_splits)
  hence j: "j = d_object J (?ms @ (if d = [] then [] else [(''dynamicData'', j_new_string J d)]))"
    by (simp add: d_object_def)
  have n: "no_nul (j_print J j)" "j_parse J (j_print J j) = Some j" "j_get J j ''retStatus'' = None"
      "j_get J j ''behaviorUsed'' = None"
    and g: "j_get J j ''msgId'' = Some (j_new_string J s)"
    by (simp_all add: j d_object_print [OF J] d_object_parse [OF J] d_object_get [OF J])
  have u: "dec_buf J j ''msgId'' 64 (r40_msgId m40_uninit) = Inr (cbuf_of 64 s)"
    using dec_buf_uninit [OF J g s(1,2)] by (simp add: m40_uninit_def)
  have f: "r40_retStatus m40_uninit = status_uninit" "rs_rea status_uninit = cbuf_uninit 256"
    by (simp_all add: m40_uninit_def status_uninit_def)
  show ?thesis using s i(2)
    by (simp add: handle_disp_m40_def handle_terminated [OF q n(1)] decode_disp_m40_command_response_def disp_decode_def
        n u dec_status_none f cbuf_text_uninit)
qed

section \<open>Responses\<close>

lemma texts_read: "list_all (\<lambda>x. is_ok (f x)) xs \<Longrightarrow> \<exists>ys. arr_each f (Some xs) 0 (length xs) = Inr ys"
  using run_all_trip [of xs f "\<lambda>v. Inr ()" "\<lambda>x. ()"] by (auto simp: arr_each_all list_all_iff is_ok_iff)

lemma cbuf_ok_read: "cbuf_ok n b \<Longrightarrow> is_ok (cbuf_text b)"
  by (erule cbuf_okE) simp

lemma s40_accepted:
  assumes J: "djson_sound J" and l: "s40_displayPoolList r = Some es" "s40_displayPoolCount r = length es" "es \<noteq> []"
    and ok: "list_all pool_ok es"
  shows "\<exists>j. encode_disp_s40_status_response J (Some r) = Inr (Some j) \<and>
    (\<forall>q. terminated q (j_print J j) \<longrightarrow>
      handle_disp_s40 J (Some q) response = Inr (response\<lparr> rv_age := rsmp_age_no \<rparr>, E_no_error))"
proof -
  obtain j where j: "encode_disp_s40_status_response J (Some r) = Inr (Some j)"
    "decode_disp_s40_status_response J (Some (j_print J j)) (Some \<lparr> s40_displayPoolList = None, s40_displayPoolCount = 0 \<rparr>) = Inr (Some r, True)"
    using s40_trip [OF J l(1,2) ok, of "\<lparr> s40_displayPoolList = None, s40_displayPoolCount = 0 \<rparr>"] by (elim exE conjE)
  have "no_nul (j_print J j)"
    using j(1) by (auto simp: encode_disp_s40_status_response_def d_object_print [OF J] dest!: members_one_inv)
  moreover obtain ys where "arr_each (\<lambda>e. cbuf_text (pe_msgId e)) (Some es) 0 (length es) = Inr ys"
    using texts_read [of "\<lambda>e. cbuf_text (pe_msgId e)" es] ok cbuf_ok_read by (auto simp: pool_ok_def list_all_iff)
  ultimately show ?thesis using j l by (simp add: handle_disp_s40_def handle_terminated)
qed

lemma s20_accepted:
  assumes J: "djson_sound J" and l: "s20_templates r = Some ts" "s20_templateCount r = length ts" "ts \<noteq> []"
    and ok: "list_all template_ok ts"
  shows "\<exists>j. encode_disp_s20_status_response J (Some r) = Inr (Some j) \<and>
    (\<forall>q. terminated q (j_print J j) \<longrightarrow>
      handle_disp_s20 J (Some q) response = Inr (response\<lparr> rv_age := rsmp_age_no \<rparr>, E_no_error))"
proof -
  obtain j where j: "encode_disp_s20_status_response J (Some r) = Inr (Some j)"
    "decode_disp_s20_status_response J (Some (j_print J j)) (Some \<lparr> s20_templates = None, s20_templateCount = 0 \<rparr>) =
      Inr (Some \<lparr> s20_templates = Some (map template_read ts), s20_templateCount = length ts \<rparr>, True)"
    using s20_trip [OF J l(1,2) ok, of "\<lparr> s20_templates = None, s20_templateCount = 0 \<rparr>"] by (elim exE conjE)
  have "no_nul (j_print J j)"
    using j(1) by (auto simp: encode_disp_s20_status_response_def d_object_print [OF J] dest!: members_one_inv)
  moreover obtain ys where "arr_each (\<lambda>t. cbuf_text (tp_templateId t)) (Some (map template_read ts)) 0
      (length (map template_read ts)) = Inr ys"
    using texts_read [of "\<lambda>t. cbuf_text (tp_templateId t)" "map template_read ts"] ok cbuf_ok_read
    by (auto simp: template_ok_def template_read_def list_all_iff)
  ultimately show ?thesis using j l by (simp add: handle_disp_s20_def handle_terminated)
qed

lemma s10_accepted:
  assumes J: "djson_sound J" and ok: "s10_ok r" "cbuf_text (s10_displayType r) \<noteq> Inr []"
  shows "\<exists>j. encode_disp_s10_status_response J (Some r) = Inr (Some j) \<and>
    (\<forall>q. terminated q (j_print J j) \<longrightarrow>
      handle_disp_s10 J (Some q) response = Inr (response\<lparr> rv_age := rsmp_age_no \<rparr>, E_no_error))"
proof -
  obtain j where j: "encode_disp_s10_status_response J (Some r) = Inr (Some j)"
    "decode_disp_s10_status_response J (Some (j_print J j)) (Some s10_zero) = Inr (Some (s10_read r), True)"
    using s10_trip [OF J ok(1), of "s10_zero"] by (elim exE conjE)
  have "cbuf_ok 32 (s10_displayType r)" "cbuf_ok 32 (s10_templateType r)" using ok(1) by (simp_all add: s10_ok_def)
  then obtain d t where t: "cbuf_text (s10_displayType r) = Inr d" "cbuf_text (s10_templateType r) = Inr t"
    by (metis cbuf_okE)
  obtain g where g: "(if s10_predefinedGroupCount r > 0 \<and> s10_predefinedGroups r \<noteq> None
              then enc_array J (encode_group J) (s10_predefinedGroups r) (s10_predefinedGroupCount r)
              else Inr (j_null J)) = Inr g"
    using s10_groups_some [OF ok(1), of J] ..
  have "j = d_object J (s10_members J r d t g)" using s10_encoded [OF t g] j(1) by simp
  hence "no_nul (j_print J j)" by (simp add: d_object_print [OF J] s10_members_def)
  moreover have "cbuf_text (s10_displayType (s10_read r)) = Inr d" "cbuf_text (s10_templateType (s10_read r)) = Inr t"
    by (simp_all add: s10_read_def t)
  ultimately show ?thesis using j t(1) ok(2) by (simp add: handle_disp_s10_def handle_terminated)
qed

lemma s30_uninit:
  assumes J: "djson_sound J" and l: "s30_msgIdList r = Some ids" "s30_msgIdCount r = length ids"
    and ok: "list_all id_ok ids" "ids \<noteq> []"
    and e: "encode_disp_s30_status_response J (Some r) = Inr (Some j)" and q: "terminated q (j_print J j)"
  shows "handle_disp_s30 J (Some q) response = Inl Uninit_read"
proof -
  have "no_nul (j_print J j)"
    using e by (auto simp: encode_disp_s30_status_response_def d_object_print [OF J] dest!: members_one_inv)
  moreover have "decode_disp_s30_status_response J (Some (j_print J j)) (Some \<lparr> s30_msgIdList = None, s30_msgIdCount = 0 \<rparr>) =
      Inr (Some r, True)"
    using s30_trip [OF J l ok(1), of "\<lparr> s30_msgIdList = None, s30_msgIdCount = 0 \<rparr>"] e by auto
  moreover have "run_all (\<lambda>s. Inr s) ids = Inr ids" using run_all_map [of ids "\<lambda>s. Inr s" "\<lambda>s. s"] by simp
  ultimately show ?thesis using l ok(2) by (simp add: handle_disp_s30_def handle_terminated [OF q] ra_new_def arr_each_all)
qed

section \<open>An instance of the library\<close>

text \<open>The texts of \<open>Json\<close>, with integers as their bits and a text of its own for \<open>null\<close>.\<close>
definition text_of_int :: "u32 \<Rightarrow> string" where
  "text_of_int w = map (\<lambda>k. if bit w k then CHR ''1'' else CHR ''0'') [0..<32]"

definition int_of_text :: "string \<Rightarrow> u32" where
  "int_of_text t = horner_sum of_bool 2 (map (\<lambda>c. c = CHR ''1'') t)"

lemma int_text: "int_of_text (text_of_int w) = w"
proof -
  have "map (\<lambda>c. c = CHR ''1'') (text_of_int w) = map (bit w) [0..<32]" by (simp add: text_of_int_def)
  hence "int_of_text (text_of_int w) = take_bit 32 w" by (simp add: int_of_text_def horner_sum_bit_eq_take_bit)
  thus ?thesis by (simp add: take_bit_word_eq_self)
qed

definition disp_type :: "string \<Rightarrow> json_type" where
  "disp_type v =
    (case v of
       [] \<Rightarrow> JT_array
     | c # r \<Rightarrow> if c = CHR ''a'' then JT_array else if c = CHR ''s'' then JT_string else if c = CHR ''b'' then JT_boolean
                else if c = CHR ''n'' then JT_int else if c = CHR ''z'' then JT_null else JT_object)"

text \<open>Values are printed as numbers of eight binary digits, so that no text holds a NUL.\<close>
definition print_char :: "char \<Rightarrow> string" where
  "print_char c = map (\<lambda>k. if bit (of_char c :: nat) k then CHR ''1'' else CHR ''0'') [0..<8]"

definition print_text :: "string \<Rightarrow> string" where "print_text s = concat (map print_char s)"

fun parse_text :: "string \<Rightarrow> string" where
  "parse_text (a # b # c # d # e # f # g # h # r) =
    char_of (horner_sum of_bool 2 (map (\<lambda>x. x = CHR ''1'') [a, b, c, d, e, f, g, h]) :: nat) # parse_text r"
| "parse_text r = []"

lemma parse_print: "parse_text (print_text s) = s"
proof (induction s)
  case (Cons x s)
  have "[0..<8] = [0, 1, 2, 3, 4, 5, 6, 7 :: nat]" by (simp add: upt_conv_Cons)
  moreover have "map (\<lambda>c. c = CHR ''1'') (print_char x) = map (bit (of_char x :: nat)) [0..<8]"
    by (simp add: print_char_def)
  moreover have "horner_sum of_bool 2 (map (bit (of_char x :: nat)) [0..<8]) = take_bit 8 (of_char x :: nat)"
    by (rule horner_sum_bit_eq_take_bit)
  moreover have "take_bit 8 (of_char x :: nat) = of_char x" by (simp add: take_bit_nat_eq_self)
  ultimately show ?case using Cons by (simp add: print_text_def print_char_def)
qed (simp add: print_text_def)

lemma print_no_nul: "no_nul (print_text s)"
  by (induction s) (auto simp: print_text_def no_nul_def print_char_def)

definition text_djson :: "string djson" where
  "text_djson =
    \<lparr> j_parse = (\<lambda>s. case s of [] \<Rightarrow> None | c # r \<Rightarrow> Some (parse_text r)),
      j_parse_ex = (\<lambda>s. case s of [] \<Rightarrow> None | c # r \<Rightarrow> Some (parse_text r)), j_print = (\<lambda>v. CHR ''!'' # print_text v),
      j_new_object = [], j_add = text_add, j_get = text_get, j_new_string = (\<lambda>s. CHR ''s'' # s),
      j_is_string = (\<lambda>v. disp_type v = JT_string),
      j_get_string = (\<lambda>v. if disp_type v = JT_null then None else Some (c_text (drop 1 v))),
      j_new_boolean = (\<lambda>b. if b then ''bt'' else ''bf''), j_is_boolean = (\<lambda>v. disp_type v = JT_boolean),
      j_get_boolean = (\<lambda>v. v = ''bt''), j_new_array = [], j_is_array = (\<lambda>v. disp_type v = JT_array),
      j_array_add = text_array_add, j_array_length = (\<lambda>v. length (text_elems v)),
      j_array_get = (\<lambda>v i. text_elems v ! i), j_type = disp_type,
      j_new_string_len = (\<lambda>t. CHR ''s'' # (case t of None \<Rightarrow> [] | Some s \<Rightarrow> s)),
      j_new_int64 = (\<lambda>w. ''n''), j_new_uint64 = (\<lambda>w. ''n''), j_new_double = (\<lambda>b. ''n''), j_get_int64 = (\<lambda>v. 0),
      j_get_double = (\<lambda>v. 0), j_text = drop 1, j_new_int = (\<lambda>w. CHR ''n'' # text_of_int w),
      j_get_int = (\<lambda>v. if disp_type v = JT_int then int_of_text (drop 1 v) else 0), j_null = ''z'' \<rparr>"

lemma text_djson_sound: "djson_sound text_djson"
proof -
  have nn: "no_nul (CHR ''!'' # print_text s)" for s using print_no_nul [of s] by (simp add: no_nul_def)
  show ?thesis
    unfolding djson_sound_def text_djson_def json_api.simps rjson.simps djson.simps
    by (auto simp: parse_print nn text_get_add text_elems_add text_get.simps [of "[]"] text_elems.simps [of "[]"]
        nth_append disp_type_def int_text simp del: text_add.simps text_array_add.simps)
      (simp_all add: disp_type_def)
qed

section \<open>A response with one message\<close>

text \<open>The object of a message in a response, as the peer writes it.\<close>
definition response_object :: "'j djson \<Rightarrow> string \<Rightarrow> string \<Rightarrow> string \<Rightarrow> 'j" where
  "response_object J i code rea =
    d_object J
      [(''msgId'', j_new_string J i),
       (''retStatus'', d_object J [(''code'', j_new_string J code), (''rea'', j_new_string J rea)])]"

definition response_texts :: "string \<Rightarrow> string \<Rightarrow> string \<Rightarrow> bool" where
  "response_texts i code rea \<longleftrightarrow>
    no_nul i \<and> length i < 64 \<and> i \<noteq> [] \<and> no_nul code \<and> length code < 32 \<and> no_nul rea \<and> length rea < 256"

lemma response_get:
  assumes "djson_sound J"
  shows "j_get J (response_object J i code rea) ''msgId'' = Some (j_new_string J i)"
    "j_get J (response_object J i code rea) ''behaviorUsed'' = None"
    "j_get J (response_object J i code rea) ''displayPriority'' = None"
    "\<exists>st. j_get J (response_object J i code rea) ''retStatus'' = Some st \<and>
      j_get J st ''code'' = Some (j_new_string J code) \<and> j_get J st ''rea'' = Some (j_new_string J rea)"
    "j_parse J (j_print J (response_object J i code rea)) = Some (response_object J i code rea)"
    "no_nul (j_print J (response_object J i code rea))"
  by (simp_all add: response_object_def d_object_get [OF assms] d_object_parse [OF assms] d_object_print [OF assms])

lemma response_status:
  assumes "djson_sound J" "response_texts i code rea"
  shows "dec_status J (response_object J i code rea) status_uninit =
      Inr \<lparr> rs_code = cbuf_of 32 code, rs_rea = cbuf_of 256 rea \<rparr>"
    "dec_status J (response_object J i code rea) status_zero =
      Inr \<lparr> rs_code = cbuf_of 32 code, rs_rea = cbuf_of 256 rea \<rparr>"
proof -
  obtain st where st: "j_get J (response_object J i code rea) ''retStatus'' = Some st"
    "j_get J st ''code'' = Some (j_new_string J code)" "j_get J st ''rea'' = Some (j_new_string J rea)"
    using response_get(4) [OF assms(1)] by blast
  have t: "no_nul code" "length code < 32" "no_nul rea" "length rea < 256"
    using assms(2) by (simp_all add: response_texts_def)
  show "dec_status J (response_object J i code rea) status_uninit =
      Inr \<lparr> rs_code = cbuf_of 32 code, rs_rea = cbuf_of 256 rea \<rparr>"
    "dec_status J (response_object J i code rea) status_zero =
      Inr \<lparr> rs_code = cbuf_of 32 code, rs_rea = cbuf_of 256 rea \<rparr>"
    using dec_buf_uninit [OF assms(1) st(2) t(1,2)] dec_buf_uninit [OF assms(1) st(3) t(3,4)]
      dec_buf_string(1) [OF assms(1) st(2) t(1,2)] dec_buf_string(1) [OF assms(1) st(3) t(3,4)]
    by (simp_all add: dec_status_def st(1) status_uninit_def status_zero_def)
qed

lemma response_m40:
  assumes J: "djson_sound J" and t: "response_texts i code rea" and v: "v_declared response"
    and q: "terminated q (j_print J (response_object J i code rea))"
  shows "handle_disp_m40 J (Some q) response = Inr (response\<lparr> rv_v := ack_v response, rv_age := rsmp_age_no \<rparr>, E_no_error)"
proof -
  let ?r = "response_object J i code rea"
  have b: "dec_buf J ?r ''msgId'' 64 (r40_msgId m40_uninit) = Inr (cbuf_of 64 i)"
    using dec_buf_uninit [OF J response_get(1) [OF J], of i 64] t by (simp add: m40_uninit_def response_texts_def)
  have f: "r40_retStatus m40_uninit = status_uninit" "ra_len (ack_v response) = 3"
    by (simp_all add: m40_uninit_def ack_v_def)
  show ?thesis using t
    by (simp add: handle_disp_m40_def handle_terminated [OF q response_get(6) [OF J]] decode_disp_m40_command_response_def
        disp_decode_def response_get(5,2) [OF J] b f response_status [OF J t] ack_array_ok [OF v] response_texts_def)
qed

lemma response_m41:
  assumes J: "djson_sound J" and t: "response_texts i code rea" and v: "v_declared response"
    and q: "terminated q (j_print J (response_object J i code rea))"
  shows "handle_disp_m41 J (Some q) response = Inr (response\<lparr> rv_v := ack_v response \<rparr>, E_generic)"
proof -
  let ?r = "response_object J i code rea"
  have b: "dec_buf J ?r ''msgId'' 64 (r41_msgId m41_uninit) = Inr (cbuf_of 64 i)"
    using dec_buf_uninit [OF J response_get(1) [OF J], of i 64] t by (simp add: m41_uninit_def response_texts_def)
  have f: "r41_retStatus m41_uninit = status_uninit" by (simp add: m41_uninit_def)
  show ?thesis using t
    by (simp add: handle_disp_m41_def handle_terminated [OF q response_get(6) [OF J]] decode_disp_m41_command_response_def
        disp_decode_def response_get(5,3) [OF J] b f response_status [OF J t] ack_array_ok [OF v] ack_set
        response_texts_def Let_def)
qed

definition response_list :: "'j djson \<Rightarrow> string \<Rightarrow> string \<Rightarrow> string \<Rightarrow> 'j" where
  "response_list J i code rea = d_object J [(''retMessages'', d_array J [response_object J i code rea])]"

lemma response_list_decoded:
  assumes J: "djson_sound J" and t: "response_texts i code rea"
  defines "m \<equiv> \<lparr> rm_msgId = cbuf_of 64 i, rm_retStatus = \<lparr> rs_code = cbuf_of 32 code, rs_rea = cbuf_of 256 rea \<rparr> \<rparr>"
  shows "decode_disp_m31_command_response J (Some (j_print J (response_list J i code rea))) (Some ret_uninit) =
      Inr (Some \<lparr> rr_retMessages = Some [m], rr_retMessageCount = 1 \<rparr>, True)"
    "decode_disp_m32_command_response J (Some (j_print J (response_list J i code rea))) (Some ret_uninit) =
      Inr (Some \<lparr> rr_retMessages = Some [m], rr_retMessageCount = 1 \<rparr>, True)"
    "no_nul (j_print J (response_list J i code rea))"
proof -
  let ?l = "[response_object J i code rea]"
  have "dec_buf J (response_object J i code rea) ''msgId'' 64 (rm_msgId ret_message_zero) = Inr (cbuf_of 64 i)"
    using dec_buf_string(1) [OF J response_get(1) [OF J], of i 64] t by (simp add: ret_message_zero_def response_texts_def)
  moreover have "rm_retStatus ret_message_zero = status_zero" by (simp add: ret_message_zero_def)
  ultimately have "dec_ret_message J (response_object J i code rea) = Inr m"
    by (simp add: dec_ret_message_def response_status [OF J t] m_def)
  hence a: "json_array_length J (d_array J ?l) = Inr 1" "dec_array J (dec_ret_message J) (d_array J ?l) 1 = Inr [m]"
    using d_array_elems [OF J, of ?l] dec_array_elems [OF J, of "dec_ret_message J" ?l] by simp_all
  note o = object_one [OF J, of "''retMessages''" "d_array J ?l"]
  show "decode_disp_m31_command_response J (Some (j_print J (response_list J i code rea))) (Some ret_uninit) =
      Inr (Some \<lparr> rr_retMessages = Some [m], rr_retMessageCount = 1 \<rparr>, True)"
    "decode_disp_m32_command_response J (Some (j_print J (response_list J i code rea))) (Some ret_uninit) =
      Inr (Some \<lparr> rr_retMessages = Some [m], rr_retMessageCount = 1 \<rparr>, True)"
    by (simp_all add: response_list_def decode_disp_m31_command_response_def decode_disp_m32_command_response_def
        disp_decode_def o a ret_uninit_def del: One_nat_def)
  show "no_nul (j_print J (response_list J i code rea))" by (simp add: response_list_def d_object_print [OF J])
qed

lemma response_m31:
  assumes J: "djson_sound J" and t: "response_texts i code rea" and v: "v_declared response"
    and q: "terminated q (j_print J (response_list J i code rea))"
  shows "handle_disp_m31 J (Some q) response = Inr (response\<lparr> rv_v := ack_v response \<rparr>, E_generic)"
  using t unfolding handle_disp_m31_def handle_terminated [OF q response_list_decoded(3) [OF J t]]
    response_list_decoded(1) [OF J t]
  by (simp add: arr_at_def ack_array_ok [OF v] ack_set response_texts_def)

lemma response_m32:
  assumes J: "djson_sound J" and t: "response_texts i code rea"
    and q: "terminated q (j_print J (response_list J i code rea))"
  shows "handle_disp_m32 J (Some q) response = Inl Wrong_type"
proof -
  define m where "m = \<lparr> rm_msgId = cbuf_of 64 i, rm_retStatus = \<lparr> rs_code = cbuf_of 32 code, rs_rea = cbuf_of 256 rea \<rparr> \<rparr>"
  obtain c r where i: "i = c # r" "c \<noteq> CHR 0x00" "length r < 63"
    using t by (cases i) (auto simp: response_texts_def no_nul_def)
  have s: "ret_bytes m = cbuf_of 64 i @ cbuf_of 32 code @ cbuf_of 256 rea" by (simp add: m_def ret_bytes_def)
  have "length (take 8 (ret_bytes m)) = 8" using i by (simp add: s cbuf_of_def)
  moreover have "None \<notin> set (take 8 (ret_bytes m))"
    by (auto simp: s cbuf_of_def dest!: in_set_takeD)
  moreover have "take 8 (ret_bytes m) \<noteq> replicate 8 (Some (CHR 0x00))"
  proof
    assume "take 8 (ret_bytes m) = replicate 8 (Some (CHR 0x00))"
    hence "take 8 (ret_bytes m) ! 0 = Some (CHR 0x00)" by simp
    thus False using i by (simp add: s cbuf_of_def)
  qed
  ultimately have "m32_ids (ret_bytes m) 0 (Suc 0) = Inl Wrong_type" by (simp add: Let_def)
  thus ?thesis
    unfolding handle_disp_m32_def handle_terminated [OF q response_list_decoded(3) [OF J t]]
      response_list_decoded(2) [OF J t] m_def by simp
qed

section \<open>Values as they are received\<close>

lemma v_decode_text: "v_decode (Var_string (Some t)) v0 = Inr (d, s) \<Longrightarrow> s = t"
  by (cases "fst v0")
    (auto simp: v_decode_def Let_def ra_initialize_def ra_flush_def chars_array_def rcalloc_def char_type_def ra_memcpy_def
      split: if_splits)

end
