(* ===== verification/Display.thy ===== *)
theory Display
  imports DispProps
begin

text \<open>
  The properties of the display messages: what the handlers do with values as they are received, with
  the requests of the protocol and with responses, and what the statuses lose on their way.
\<close>

lemma disp_handlers_cases:
  assumes "(k, h) \<in> set (disp_handlers J)"
  obtains "k = ''DISP/M31''" "h = handle_disp_m31 J" | "k = ''DISP/M32''" "h = handle_disp_m32 J"
    | "k = ''DISP/M40''" "h = handle_disp_m40 J" | "k = ''DISP/M41''" "h = handle_disp_m41 J"
    | "k = ''DISP/S10''" "h = handle_disp_s10 J" | "k = ''DISP/S20''" "h = handle_disp_s20 J"
    | "k = ''DISP/S30''" "h = handle_disp_s30 J" | "k = ''DISP/S40''" "h = handle_disp_s40 J"
proof -
  from assms have "k = ''DISP/M31'' \<and> h = handle_disp_m31 J \<or> k = ''DISP/M32'' \<and> h = handle_disp_m32 J \<or>
      k = ''DISP/M40'' \<and> h = handle_disp_m40 J \<or> k = ''DISP/M41'' \<and> h = handle_disp_m41 J \<or>
      k = ''DISP/S10'' \<and> h = handle_disp_s10 J \<or> k = ''DISP/S20'' \<and> h = handle_disp_s20 J \<or>
      k = ''DISP/S30'' \<and> h = handle_disp_s30 J \<or> k = ''DISP/S40'' \<and> h = handle_disp_s40 J"
    by (simp add: disp_handlers_def)
  thus ?thesis by (elim disjE conjE) (rule that, assumption, assumption)+
qed

text \<open>C28. The value of a command is stored without a terminator, and every display handler takes it for a
  C string: whatever non-empty text without NUL was received, all eight handlers read beyond the
  memory of the value.\<close>
theorem disp_payload_unterminated:
  assumes v: "v_decode (Var_string (Some t)) v0 = Inr (d, s)" and t: "t \<noteq> []" "no_nul t"
    and q: "ar_v q = chars_array d s" and h: "(k, h) \<in> set (disp_handlers J)"
  shows "h (Some q) response = Inl Read_oob"
proof -
  have "s = t" by (rule v_decode_text [OF v])
  hence *: "ra_len (ar_v q) \<noteq> 0" "ra_items (ar_v q) = Some t" using q t(1) by (simp_all add: chars_array_def)
  from h show ?thesis
    by (cases rule: disp_handlers_cases) (simp_all add: disp_handler_defs handle_unterminated [OF * t(2)])
qed

definition sample_rvs :: rvs_t where
  "sample_rvs = \<lparr> rv_cCI = Some ''DISP/M40'', rv_n = Some ''n'',
     rv_v = \<lparr> ra_len = 0, ra_item_len = 1, ra_items = None, ra_free = False \<rparr>, rv_age = 0 \<rparr>"

definition args_of :: "string \<Rightarrow> args_t" where
  "args_of t = \<lparr> ar_cCI = Some ''DISP/M40'', ar_n = Some ''n'', ar_cO = Some ''setV'', ar_v = chars_array True t \<rparr>"

lemma args_terminated: "terminated (args_of (t @ [CHR 0x00])) t"
  by (simp add: terminated_def args_of_def chars_array_def)

lemma disp_payload_unterminated_witness:
  "handle_disp_m40 text_djson (Some (args_of ''{}'')) sample_rvs = Inl Read_oob"
proof -
  have "v_decode (Var_string (Some ''{}'')) (True, []) = Inr (True, ''{}'')"
    by (simp add: v_decode_def ra_initialize_def ra_flush_def chars_array_def rcalloc_def char_type_def ra_memcpy_def)
  thus ?thesis
    by (rule disp_payload_unterminated [where k = "''DISP/M40''" and J = text_djson]) (simp_all add: no_nul_def args_of_def disp_handlers_def)
qed

text \<open>C29. No handler carries out the request its command is made with.  Given, terminated, what the encoders
  of requests write, the handlers of \<open>DISP/M31\<close> and \<open>DISP/M32\<close> refuse it and leave the response as it
  was; those of \<open>DISP/M40\<close> and \<open>DISP/M41\<close> decode a response instead and print a status that was never
  written.\<close>
theorem disp_requests_refused:
  assumes J: "djson_sound J"
    and m31: "encode_disp_m31_command_request J (Some r31) = Inr (Some j31)" "terminated q31 (j_print J j31)"
    and m32: "encode_disp_m32_command_request J (Some r32) = Inr (Some j32)" "terminated q32 (j_print J j32)"
    and m40: "encode_disp_m40_command_request J (Some r40) = Inr (Some j40)" "terminated q40 (j_print J j40)"
      "cbuf_ok 64 (q40_msgId r40)" "cbuf_text (q40_msgId r40) \<noteq> Inr []"
    and m41: "encode_disp_m41_command_request J (Some r41) = Inr (Some j41)" "terminated q41 (j_print J j41)"
      "cbuf_ok 64 (q41_msgId r41)" "cbuf_text (q41_msgId r41) \<noteq> Inr []"
  shows "handle_disp_m31 J (Some q31) response = Inr (response, E_generic) \<and>
    handle_disp_m32 J (Some q32) response = Inr (response, E_generic) \<and>
    handle_disp_m40 J (Some q40) response = Inl Uninit_read \<and>
    handle_disp_m41 J (Some q41) response = Inl Uninit_read"
  using m31_request_refused [OF J m31] m32_request_refused [OF J m32] m40_request_uninit [OF J m40]
    m41_request_uninit [OF J m41] by blast

definition m31_sample :: m31_request where
  "m31_sample = \<lparr> m31_messages = Some [\<lparr> mo_msgId = cbuf_of 64 ''MSG1'', mo_repeatCount = 2, mo_sequences = None,
     mo_sequenceCount = 0 \<rparr>], m31_messageCount = 1 \<rparr>"
definition m32_sample :: m32_request where
  "m32_sample = \<lparr> m32_msgIdList = Some [Some ''MSG1''], m32_msgIdCount = 1 \<rparr>"
definition m40_sample :: m40_request where
  "m40_sample = \<lparr> q40_msgId = cbuf_of 64 ''MSG1'', q40_displayBehavior = cbuf_of 16 ''DROP'', q40_maxWaitTime = 100,
     q40_displayDuration = 500, q40_displayPriority = 1, q40_dynamicData = cbuf_of 256 [] \<rparr>"
definition m41_sample :: m41_request where
  "m41_sample = \<lparr> q41_msgId = cbuf_of 64 ''MSG1'', q41_displayPriority = 1 \<rparr>"

lemma samples_encoded:
  "\<exists>j. encode_disp_m31_command_request J (Some m31_sample) = Inr (Some j)"
  "\<exists>j. encode_disp_m32_command_request J (Some m32_sample) = Inr (Some j)"
  "\<exists>j. encode_disp_m40_command_request J (Some m40_sample) = Inr (Some j)"
  "\<exists>j. encode_disp_m41_command_request J (Some m41_sample) = Inr (Some j)"
  by (simp_all add: encode_disp_m31_command_request_def encode_disp_m32_command_request_def
      encode_disp_m40_command_request_def encode_disp_m41_command_request_def m31_sample_def m32_sample_def m40_sample_def
      m41_sample_def d_members_def enc_array_def arr_at_def encode_message_def enc_buf_def enc_int_def enc_str_def no_nul_def)

lemma disp_requests_refused_witness:
  "\<exists>j31 j32 j40 j41.
    encode_disp_m40_command_request text_djson (Some m40_sample) = Inr (Some j40) \<and>
    handle_disp_m31 text_djson (Some (args_of (j_print text_djson j31 @ [CHR 0x00]))) sample_rvs = Inr (sample_rvs, E_generic) \<and>
    handle_disp_m32 text_djson (Some (args_of (j_print text_djson j32 @ [CHR 0x00]))) sample_rvs = Inr (sample_rvs, E_generic) \<and>
    handle_disp_m40 text_djson (Some (args_of (j_print text_djson j40 @ [CHR 0x00]))) sample_rvs = Inl Uninit_read \<and>
    handle_disp_m41 text_djson (Some (args_of (j_print text_djson j41 @ [CHR 0x00]))) sample_rvs = Inl Uninit_read"
proof -
  obtain j31 j32 j40 j41 where
    e: "encode_disp_m31_command_request text_djson (Some m31_sample) = Inr (Some j31)"
    "encode_disp_m32_command_request text_djson (Some m32_sample) = Inr (Some j32)"
    "encode_disp_m40_command_request text_djson (Some m40_sample) = Inr (Some j40)"
    "encode_disp_m41_command_request text_djson (Some m41_sample) = Inr (Some j41)"
    using samples_encoded by metis
  have i: "cbuf_ok 64 (q40_msgId m40_sample)" "cbuf_text (q40_msgId m40_sample) \<noteq> Inr []"
    "cbuf_ok 64 (q41_msgId m41_sample)" "cbuf_text (q41_msgId m41_sample) \<noteq> Inr []"
    by (simp_all add: m40_sample_def m41_sample_def no_nul_def)
  show ?thesis
    using disp_requests_refused [OF text_djson_sound e(1) args_terminated e(2) args_terminated e(3) args_terminated i(1,2)
      e(4) args_terminated i(3,4), of sample_rvs] e(3) by blast
qed

text \<open>C27. Of the responses the handlers are made for, with one message whose texts fit, only \<open>DISP/M40\<close> is
  acknowledged with success.  \<open>DISP/M31\<close> and \<open>DISP/M41\<close> put \<open>ACK\<close> into the answer and report an error,
  because the address a setter returns is compared with 0; \<open>DISP/M32\<close> takes the characters of the
  identifier for a pointer.\<close>
theorem disp_response_outcome:
  assumes J: "djson_sound J" and t: "response_texts i code rea" and v: "v_declared response"
    and q: "terminated q (j_print J (response_object J i code rea))"
    and ql: "terminated ql (j_print J (response_list J i code rea))"
  shows "handle_disp_m40 J (Some q) response =
      Inr (response\<lparr> rv_v := ack_v response, rv_age := rsmp_age_no \<rparr>, E_no_error) \<and>
    handle_disp_m41 J (Some q) response = Inr (response\<lparr> rv_v := ack_v response \<rparr>, E_generic) \<and>
    handle_disp_m31 J (Some ql) response = Inr (response\<lparr> rv_v := ack_v response \<rparr>, E_generic) \<and>
    handle_disp_m32 J (Some ql) response = Inl Wrong_type"
  using response_m40 [OF J t v q] response_m41 [OF J t v q] response_m31 [OF J t v ql] response_m32 [OF J t ql] by blast

lemma disp_response_outcome_witness:
  "handle_disp_m31 text_djson
     (Some (args_of (j_print text_djson (response_list text_djson ''MSG1'' ''0'' ''ok'') @ [CHR 0x00]))) sample_rvs =
   Inr (sample_rvs\<lparr> rv_v := ack_v sample_rvs \<rparr>, E_generic)"
proof -
  have "response_texts ''MSG1'' ''0'' ''ok''" "v_declared sample_rvs"
    by (simp_all add: response_texts_def no_nul_def v_declared_def sample_rvs_def)
  from disp_response_outcome [OF text_djson_sound this args_terminated args_terminated] show ?thesis by blast
qed

text \<open>Three of the handlers of commands never report success, whatever they are sent, nor set the age of the
  response; the handler of \<open>DISP/S30\<close> returns only when it refuses the message, with the response as it
  was, and reports that as success.\<close>
lemma disp_never_succeeds:
  assumes h: "(k, h) \<in> set (disp_handlers J)" and k: "k \<in> {''DISP/M31'', ''DISP/M32'', ''DISP/M41'', ''DISP/S30''}"
    and r: "h request response = Inr (r, e)"
  shows "e = (if k = ''DISP/S30'' then E_no_error else E_generic) \<and> rv_age r = rv_age response \<and>
    (k \<in> {''DISP/M32'', ''DISP/S30''} \<longrightarrow> r = response)"
  using h
proof (cases rule: disp_handlers_cases)
  case 1
  with r m31_result [of J request response r e] show ?thesis by simp
next
  case 2
  with r m32_result [of J request response r e] show ?thesis by simp
next
  case 4
  with r m41_result [of J request response r e] show ?thesis by simp
next
  case 7
  with r s30_result [of J request response r e] show ?thesis by simp
qed (use k in simp_all)

lemma disp_never_succeeds_witness: "handle_disp_s30 text_djson None sample_rvs = Inr (sample_rvs, E_no_error)"
proof -
  have h: "(''DISP/S30'', handle_disp_s30 text_djson) \<in> set (disp_handlers text_djson)" by (simp add: disp_handlers_def)
  have r: "handle_disp_s30 text_djson None sample_rvs = Inr (sample_rvs, E_no_error)"
    by (simp add: handle_disp_s30_def disp_handle_def)
  from disp_never_succeeds [OF h _ r] r show ?thesis by simp
qed

text \<open>C31. The list of the messages of a sign and the pool of those displayed are read back from what was
  written as they were, when every text has its terminator in its array.  The handler of the pool
  accepts it; the handler of the list leaves the defined behaviour: it asks for a new array through a
  pointer without a value.\<close>
theorem disp_lists_roundtrip:
  assumes J: "djson_sound J"
    and s40: "s40_displayPoolList r40 = Some es" "s40_displayPoolCount r40 = length es" "list_all pool_ok es"
    and s30: "s30_msgIdList r30 = Some ids" "s30_msgIdCount r30 = length ids" "list_all id_ok ids"
    and ne: "es \<noteq> []" "ids \<noteq> []"
  shows "\<exists>j40 j30. encode_disp_s40_status_response J (Some r40) = Inr (Some j40) \<and>
    encode_disp_s30_status_response J (Some r30) = Inr (Some j30) \<and>
    decode_disp_s40_status_response J (Some (j_print J j40)) (Some r0) = Inr (Some r40, True) \<and>
    decode_disp_s30_status_response J (Some (j_print J j30)) (Some r1) = Inr (Some r30, True) \<and>
    (\<forall>q. terminated q (j_print J j40) \<longrightarrow>
      handle_disp_s40 J (Some q) response = Inr (response\<lparr> rv_age := rsmp_age_no \<rparr>, E_no_error)) \<and>
    (\<forall>q. terminated q (j_print J j30) \<longrightarrow> handle_disp_s30 J (Some q) response = Inl Uninit_read)"
proof -
  obtain j40 where a: "encode_disp_s40_status_response J (Some r40) = Inr (Some j40)"
    "decode_disp_s40_status_response J (Some (j_print J j40)) (Some r0) = Inr (Some r40, True)"
    using s40_trip [OF J s40, of r0] by blast
  have b: "handle_disp_s40 J (Some q) response = Inr (response\<lparr> rv_age := rsmp_age_no \<rparr>, E_no_error)"
    if "terminated q (j_print J j40)" for q
    using s40_accepted [OF J s40(1,2) ne(1) s40(3), of response] a(1) that by auto
  obtain j30 where c: "encode_disp_s30_status_response J (Some r30) = Inr (Some j30)"
    "decode_disp_s30_status_response J (Some (j_print J j30)) (Some r1) = Inr (Some r30, True)"
    using s30_trip [OF J s30, of r1] by blast
  have d: "handle_disp_s30 J (Some q) response = Inl Uninit_read" if "terminated q (j_print J j30)" for q
    using s30_uninit [OF J s30 ne(2) c(1) that] .
  show ?thesis using a b c d by blast
qed

definition s40_sample :: s40_response where
  "s40_sample = \<lparr> s40_displayPoolList = Some [pool_zero\<lparr> pe_msgId := cbuf_of 64 ''MSG1'', pe_displayPriority := 7 \<rparr>],
     s40_displayPoolCount = 1 \<rparr>"
definition s30_sample :: s30_response where
  "s30_sample = \<lparr> s30_msgIdList = Some [Some ''MSG1'', Some ''MSG2''], s30_msgIdCount = 2 \<rparr>"

lemma disp_lists_roundtrip_witness:
  "\<exists>j. decode_disp_s40_status_response text_djson (Some (j_print text_djson j)) (Some s40_sample) =
    Inr (Some s40_sample, True)"
proof -
  have e: "list_all pool_ok [pool_zero\<lparr> pe_msgId := cbuf_of 64 ''MSG1'', pe_displayPriority := 7 \<rparr>]"
    by (simp add: pool_ok_def pool_zero_def no_nul_def)
  have i: "list_all id_ok [Some ''MSG1'', Some ''MSG2'']" by (simp add: id_ok_def no_nul_def)
  have l: "s40_displayPoolList s40_sample = Some [pool_zero\<lparr> pe_msgId := cbuf_of 64 ''MSG1'', pe_displayPriority := 7 \<rparr>]"
    "s40_displayPoolCount s40_sample = length [pool_zero\<lparr> pe_msgId := cbuf_of 64 ''MSG1'', pe_displayPriority := 7 \<rparr>]"
    "s30_msgIdList s30_sample = Some [Some ''MSG1'', Some ''MSG2'']"
    "s30_msgIdCount s30_sample = length [Some ''MSG1'', Some ''MSG2'']"
    by (simp_all add: s40_sample_def s30_sample_def)
  from disp_lists_roundtrip [OF text_djson_sound l(1,2) e l(3,4) i, of s40_sample s30_sample sample_rvs]
  show ?thesis by blast
qed

text \<open>The capacities and the templates of a sign are accepted as they were written, but read in part: the
  size, the display of texts and the groups come back as zeros, and of the zones only the identifier
  and the type.  The age the handlers give to the answer has no text.\<close>
lemma disp_capacities_read_in_part:
  assumes J: "djson_sound J" and s10: "s10_ok r10" "cbuf_text (s10_displayType r10) \<noteq> Inr []"
    and s20: "s20_templates r20 = Some ts" "s20_templateCount r20 = length ts" "list_all template_ok ts" "ts \<noteq> []"
  shows "\<exists>j10 j20. encode_disp_s10_status_response J (Some r10) = Inr (Some j10) \<and>
    encode_disp_s20_status_response J (Some r20) = Inr (Some j20) \<and>
    decode_disp_s10_status_response J (Some (j_print J j10)) (Some r0) = Inr (Some (s10_read r10), True) \<and>
    decode_disp_s20_status_response J (Some (j_print J j20)) (Some r1) =
      Inr (Some \<lparr> s20_templates = Some (map template_read ts), s20_templateCount = length ts \<rparr>, True) \<and>
    (\<forall>q. terminated q (j_print J j10) \<longrightarrow>
      handle_disp_s10 J (Some q) response = Inr (response\<lparr> rv_age := rsmp_age_no \<rparr>, E_no_error)) \<and>
    (\<forall>q. terminated q (j_print J j20) \<longrightarrow>
      handle_disp_s20 J (Some q) response = Inr (response\<lparr> rv_age := rsmp_age_no \<rparr>, E_no_error)) \<and>
    enum_encode rsmp_age_lib rsmp_var_new rsmp_age_no = rsmp_var_auto_string rsmp_var_new None"
proof -
  obtain j10 where a: "encode_disp_s10_status_response J (Some r10) = Inr (Some j10)"
    "decode_disp_s10_status_response J (Some (j_print J j10)) (Some r0) = Inr (Some (s10_read r10), True)"
    using s10_trip [OF J s10(1), of r0] by blast
  have b: "handle_disp_s10 J (Some q) response = Inr (response\<lparr> rv_age := rsmp_age_no \<rparr>, E_no_error)"
    if "terminated q (j_print J j10)" for q
    using s10_accepted [OF J s10, of response] a(1) that by auto
  obtain j20 where c: "encode_disp_s20_status_response J (Some r20) = Inr (Some j20)"
    "decode_disp_s20_status_response J (Some (j_print J j20)) (Some r1) =
      Inr (Some \<lparr> s20_templates = Some (map template_read ts), s20_templateCount = length ts \<rparr>, True)"
    using s20_trip [OF J s20(1,2,3), of r1] by blast
  have d: "handle_disp_s20 J (Some q) response = Inr (response\<lparr> rv_age := rsmp_age_no \<rparr>, E_no_error)"
    if "terminated q (j_print J j20)" for q
    using s20_accepted [OF J s20(1,2,4,3), of response] c(1) that by auto
  have "enum_encode rsmp_age_lib rsmp_var_new rsmp_age_no = rsmp_var_auto_string rsmp_var_new None"
    by (simp add: enum_encode_def lib_get_def rsmp_age_no_def)
  thus ?thesis using a b c d by blast
qed

definition s10_sample :: s10_response where
  "s10_sample = s10_zero\<lparr> s10_displayType := cbuf_of 32 ''LED'', s10_width := 64, s10_maxScrollSpeed := 3 \<rparr>"
definition template_sample :: template_object where
  "template_sample = \<lparr> tp_templateId = cbuf_of 64 ''T1'', tp_readonly = True,
     tp_zones = Some [zone_zero\<lparr> zo_zoneId := cbuf_of 32 ''Z1'', zo_colorCount := 1 \<rparr>], tp_zoneCount = 1 \<rparr>"

lemma disp_capacities_read_in_part_witness:
  "\<exists>j. encode_disp_s10_status_response text_djson (Some s10_sample) = Inr (Some j) \<and>
    decode_disp_s10_status_response text_djson (Some (j_print text_djson j)) (Some s10_zero) =
      Inr (Some (s10_read s10_sample), True)"
proof -
  have a: "s10_ok s10_sample" "cbuf_text (s10_displayType s10_sample) \<noteq> Inr []"
    by (simp_all add: s10_ok_def s10_sample_def s10_zero_def no_nul_def)
  have t: "list_all template_ok [template_sample]"
    by (simp add: template_ok_def template_sample_def zone_ok_def zone_zero_def no_nul_def)
  show ?thesis
    using disp_capacities_read_in_part [OF text_djson_sound a _ _ t,
        of "\<lparr> s20_templates = Some [template_sample], s20_templateCount = 1 \<rparr>" s10_zero
           "\<lparr> s20_templates = None, s20_templateCount = 0 \<rparr>" sample_rvs]
    by auto
qed

end
