(* ===== verification/Threads.thy ===== *)
theory Threads
  imports Prelude Simulation
begin

text \<open>
  Model of \<open>misc/thread.c\<close>: a task is a context its owner makes, starts, stops and frees, and a thread that
  runs the routine of the context.  Owner and thread take their steps in any order.  The only thing they
  share is the flag \<open>is_started\<close>, which the thread sets when it begins and clears when its routine has
  returned; a thread that is cancelled clears nothing.
\<close>

section \<open>State\<close>

datatype thread_phase =
    No_thread      \<comment> \<open>\<open>pthread_create\<close> was not called or failed\<close>
  | Created        \<comment> \<open>made by the owner, its first instruction still to come\<close>
  | Running
  | Ended          \<comment> \<open>returned or cancelled, to be joined\<close>
  | Joined

text \<open>The phases in their order: a thread goes through them and never back.\<close>
primrec phase_rank :: "thread_phase \<Rightarrow> nat" where
  "phase_rank No_thread = 0"
| "phase_rank Created = 1"
| "phase_rank Running = 2"
| "phase_rank Ended = 3"
| "phase_rank Joined = 4"

lemma phase_rank_inject: "phase_rank a = phase_rank b \<longleftrightarrow> a = b"
  by (cases a; cases b) simp_all

instantiation thread_phase :: linorder
begin

definition less_eq_thread_phase :: "thread_phase \<Rightarrow> thread_phase \<Rightarrow> bool" where
  "less_eq_thread_phase a b \<longleftrightarrow> phase_rank a \<le> phase_rank b"

definition less_thread_phase :: "thread_phase \<Rightarrow> thread_phase \<Rightarrow> bool" where
  "less_thread_phase a b \<longleftrightarrow> phase_rank a < phase_rank b"

instance
  by standard (auto simp: less_eq_thread_phase_def less_thread_phase_def phase_rank_inject)

end

text \<open>What the owner waits for: the end of the thread, in a stop or in the release of the context.\<close>
datatype waiting = Free_to_go | In_stop | In_free

record task =
  tk_allocated :: bool
  tk_started :: bool
  tk_phase :: thread_phase
  tk_owner :: waiting
  tk_fault :: "fault option"
  tk_early :: bool    \<comment> \<open>the context was freed before the thread began, a note of the model\<close>

definition pthread_new :: task where
  "pthread_new = \<lparr> tk_allocated = True, tk_started = False, tk_phase = No_thread, tk_owner = Free_to_go, tk_fault = None,
     tk_early = False \<rparr>"

section \<open>Steps of the owner\<close>

text \<open>One thread is started on a context; \<open>ok\<close> is the result of \<open>pthread_create\<close>, and the flag is not set
  here.\<close>
definition pthread_start :: "task \<Rightarrow> bool \<Rightarrow> task" where
  "pthread_start t ok = (if ok then t\<lparr> tk_phase := Created \<rparr> else t)"

text \<open>Nothing is done to a task whose flag is not set; to cancel a thread that was joined is not defined.\<close>
definition pthread_stop_begin :: "task \<Rightarrow> bool \<Rightarrow> task" where
  "pthread_stop_begin t by_cancel =
    (if \<not> tk_started t then t
     else if by_cancel
     then (if tk_phase t = Running then t\<lparr> tk_phase := Ended \<rparr>
           else if tk_phase t = Joined then t\<lparr> tk_fault := Some Use_after_free \<rparr> else t)
     else t\<lparr> tk_owner := In_stop \<rparr>)"

definition pthread_free_begin :: "task \<Rightarrow> task" where
  "pthread_free_begin t =
    (if tk_started t then t\<lparr> tk_owner := In_free \<rparr>
     else t\<lparr> tk_allocated := False, tk_early := (tk_phase t = Created) \<rparr>)"

text \<open>\<open>pthread_join\<close> returns once the thread has ended; to join it again is not defined.\<close>
definition pthread_join_end :: "task \<Rightarrow> task" where
  "pthread_join_end t =
    (if tk_phase t = Joined then t\<lparr> tk_fault := Some Use_after_free \<rparr>
     else if tk_owner t = In_free then t\<lparr> tk_phase := Joined, tk_owner := Free_to_go, tk_allocated := False \<rparr>
     else t\<lparr> tk_phase := Joined, tk_owner := Free_to_go \<rparr>)"

section \<open>Steps of the thread\<close>

definition pthread_starter_begin :: "task \<Rightarrow> task" where
  "pthread_starter_begin t =
    (if tk_allocated t then t\<lparr> tk_phase := Running, tk_started := True \<rparr> else t\<lparr> tk_fault := Some Use_after_free \<rparr>)"

definition pthread_starter_end :: "task \<Rightarrow> task" where
  "pthread_starter_end t =
    (if tk_allocated t then t\<lparr> tk_phase := Ended, tk_started := False \<rparr> else t\<lparr> tk_fault := Some Use_after_free \<rparr>)"

section \<open>Runs\<close>

text \<open>A fault ends a run.  The owner calls nothing on a context it has freed, and starts one thread.\<close>
inductive task_step :: "task \<Rightarrow> task \<Rightarrow> bool" where
  Start: "tk_fault t = None \<Longrightarrow> tk_owner t = Free_to_go \<Longrightarrow> tk_allocated t \<Longrightarrow> tk_phase t = No_thread \<Longrightarrow>
    task_step t (pthread_start t ok)"
| Stop: "tk_fault t = None \<Longrightarrow> tk_owner t = Free_to_go \<Longrightarrow> tk_allocated t \<Longrightarrow> task_step t (pthread_stop_begin t by_cancel)"
| Free: "tk_fault t = None \<Longrightarrow> tk_owner t = Free_to_go \<Longrightarrow> tk_allocated t \<Longrightarrow> task_step t (pthread_free_begin t)"
| Join: "tk_fault t = None \<Longrightarrow> tk_owner t \<noteq> Free_to_go \<Longrightarrow> tk_phase t \<in> {Ended, Joined} \<Longrightarrow>
    task_step t (pthread_join_end t)"
| Begin: "tk_fault t = None \<Longrightarrow> tk_phase t = Created \<Longrightarrow> task_step t (pthread_starter_begin t)"
| End: "tk_fault t = None \<Longrightarrow> tk_phase t = Running \<Longrightarrow> task_step t (pthread_starter_end t)"

inductive_cases task_stepE: "task_step t t'"

lemmas task_defs = pthread_start_def pthread_stop_begin_def pthread_free_begin_def pthread_join_end_def
  pthread_starter_begin_def pthread_starter_end_def

section \<open>Invariant\<close>

text \<open>As long as nothing went wrong: the flag is set while the thread runs and, after a cancel, for ever; a
  freed context has no thread that will use it, unless it was freed before its thread began.\<close>
definition task_inv :: "task \<Rightarrow> bool" where
  "task_inv t \<longleftrightarrow>
    (tk_phase t = Running \<longrightarrow> tk_started t \<and> tk_allocated t) \<and>
    (tk_phase t \<in> {No_thread, Created} \<longrightarrow> \<not> tk_started t \<and> tk_owner t = Free_to_go) \<and>
    (tk_phase t = Created \<and> \<not> tk_allocated t \<longrightarrow> tk_early t) \<and>
    (\<not> tk_allocated t \<longrightarrow> tk_owner t = Free_to_go) \<and>
    (tk_owner t \<noteq> Free_to_go \<and> tk_phase t = Joined \<longrightarrow> tk_started t) \<and>
    (tk_fault t \<noteq> None \<longrightarrow> tk_early t \<or> tk_phase t = Joined \<and> tk_started t)"

lemma task_inv_new: "task_inv pthread_new"
  by (simp add: task_inv_def pthread_new_def)

lemma task_inv_step: "task_step t t' \<Longrightarrow> task_inv t \<Longrightarrow> task_inv t'"
  by (erule task_stepE) (auto simp: task_inv_def task_defs)

interpretation task: step_invariant task_step task_inv
  by unfold_locales (rule task_inv_step)

text \<open>A step moves the phase of the thread forward.\<close>
lemma task_phase_mono: "task_step t t' \<Longrightarrow> task_inv t \<Longrightarrow> tk_phase t \<le> tk_phase t'"
  by (erule task_stepE) (auto simp: task_defs task_inv_def less_eq_thread_phase_def)

text \<open>An owner that waits can go on, or the thread can.\<close>
lemma task_progress:
  assumes "task_inv t" "tk_fault t = None" "tk_owner t \<noteq> Free_to_go"
  shows "\<exists>t'. task_step t t'"
proof (cases "tk_phase t = Running")
  case True
  thus ?thesis using End [OF assms(2)] by blast
next
  case False
  hence "tk_phase t \<in> {Ended, Joined}" using assms(1,3) by (cases "tk_phase t") (auto simp: task_inv_def)
  thus ?thesis using Join [OF assms(2,3)] by blast
qed

section \<open>Two runs\<close>

lemmas star_step = rtranclp.rtrancl_into_rtrancl [of task_step pthread_new]

lemma task_freed_early: "\<exists>t. task_step\<^sup>*\<^sup>* pthread_new t \<and> tk_fault t \<noteq> None \<and> tk_early t"
proof -
  let ?a = "pthread_start pthread_new True"
  let ?b = "pthread_free_begin ?a"
  let ?c = "pthread_starter_begin ?b"
  have 1: "task_step pthread_new ?a" by (rule Start) (simp_all add: pthread_new_def)
  have 2: "task_step ?a ?b" by (rule Free) (simp_all add: pthread_new_def task_defs)
  have 3: "task_step ?b ?c" by (rule Begin) (simp_all add: pthread_new_def task_defs)
  have "task_step\<^sup>*\<^sup>* pthread_new ?c" by (rule star_step [OF star_step [OF star_step [OF rtranclp.rtrancl_refl 1] 2] 3])
  moreover have "tk_fault ?c \<noteq> None" "tk_early ?c" by (simp_all add: task_defs pthread_new_def)
  ultimately show ?thesis by (intro exI [of _ ?c] conjI)
qed

lemma task_joined_twice: "\<exists>t. task_step\<^sup>*\<^sup>* pthread_new t \<and> tk_fault t \<noteq> None \<and> \<not> tk_early t"
proof -
  let ?a = "pthread_start pthread_new True"
  let ?b = "pthread_starter_begin ?a"
  let ?c = "pthread_stop_begin ?b True"
  let ?d = "pthread_stop_begin ?c False"
  let ?e = "pthread_join_end ?d"
  let ?f = "pthread_free_begin ?e"
  let ?g = "pthread_join_end ?f"
  have 1: "task_step pthread_new ?a" by (rule Start) (simp_all add: pthread_new_def)
  have 2: "task_step ?a ?b" by (rule Begin) (simp_all add: pthread_new_def task_defs)
  have 3: "task_step ?b ?c" by (rule Stop) (simp_all add: pthread_new_def task_defs)
  have 4: "task_step ?c ?d" by (rule Stop) (simp_all add: pthread_new_def task_defs)
  have 5: "task_step ?d ?e" by (rule Join) (simp_all add: pthread_new_def task_defs)
  have 6: "task_step ?e ?f" by (rule Free) (simp_all add: pthread_new_def task_defs)
  have 7: "task_step ?f ?g" by (rule Join) (simp_all add: pthread_new_def task_defs)
  have "task_step\<^sup>*\<^sup>* pthread_new ?g"
    by (rule star_step [OF star_step [OF star_step [OF star_step [OF star_step [OF star_step [OF star_step
      [OF rtranclp.rtrancl_refl 1] 2] 3] 4] 5] 6] 7])
  moreover have "tk_fault ?g \<noteq> None" "\<not> tk_early ?g" by (simp_all add: task_defs pthread_new_def)
  ultimately show ?thesis by (intro exI [of _ ?g] conjI)
qed

section \<open>Properties\<close>

text \<open>C40. The life of a task.  Its thread goes through its phases and never back, every run without a fault
  can go on while the owner waits, and a fault has one of two causes only: the context was freed
  between the creation of the thread and its first instruction, or a thread that was cancelled, whose
  flag stays set, was joined and then joined or cancelled again.  Both happen: the release does not wait
  for a thread that has not begun, and a cancelled task is joined by its stop and again by its release.\<close>
theorem task_faults:
  "(\<forall>t. task_step\<^sup>*\<^sup>* pthread_new t \<longrightarrow>
     (tk_fault t = None \<and> tk_owner t \<noteq> Free_to_go \<longrightarrow> (\<exists>t'. task_step t t')) \<and>
     (tk_fault t \<noteq> None \<longrightarrow> tk_early t \<or> tk_phase t = Joined \<and> tk_started t) \<and>
     (\<forall>t'. task_step t t' \<longrightarrow> tk_phase t \<le> tk_phase t')) \<and>
   (\<exists>t. task_step\<^sup>*\<^sup>* pthread_new t \<and> tk_fault t \<noteq> None \<and> tk_early t) \<and>
   (\<exists>t. task_step\<^sup>*\<^sup>* pthread_new t \<and> tk_fault t \<noteq> None \<and> \<not> tk_early t)"
proof (intro conjI allI impI)
  fix t
  assume r: "task_step\<^sup>*\<^sup>* pthread_new t"
  have i: "task_inv t" by (rule task.inv_reach [OF r task_inv_new])
  show "\<exists>t'. task_step t t'" if "tk_fault t = None \<and> tk_owner t \<noteq> Free_to_go"
    by (rule task_progress [OF i conjunct1 [OF that] conjunct2 [OF that]])
  show "tk_early t \<or> tk_phase t = Joined \<and> tk_started t" if "tk_fault t \<noteq> None"
    using i that by (simp add: task_inv_def)
  show "tk_phase t \<le> tk_phase t'" if "task_step t t'" for t' by (rule task_phase_mono [OF that i])
next
  show "\<exists>t. task_step\<^sup>*\<^sup>* pthread_new t \<and> tk_fault t \<noteq> None \<and> tk_early t" by (rule task_freed_early)
  show "\<exists>t. task_step\<^sup>*\<^sup>* pthread_new t \<and> tk_fault t \<noteq> None \<and> \<not> tk_early t" by (rule task_joined_twice)
qed

lemma task_faults_witness:
  "\<exists>t. task_step\<^sup>*\<^sup>* pthread_new t \<and> tk_fault t \<noteq> None \<and> \<not> tk_early t \<and> tk_phase t = Joined \<and> tk_started t"
  using task_faults by blast

end
