(* ===== verification/RsmpUtil.thy ===== *)
theory RsmpUtil
  imports RsmpContext RsmpMessages Coder
begin

text \<open>
  Model of what the messages and the context use for texts (\<open>rsmp/utils/strings.c\<close>, the functions
  \<open>_to_string\<close>, \<open>_free_item\<close> and \<open>_check\<close> of \<open>rsmp/fields/RSMP.c\<close>, \<open>siteId.c\<close> and \<open>eSXLG.c\<close>), and of the operations
  that nothing calls: the setting of a message \<open>Version\<close> and the context of a watchdog of
  \<open>rsmp/messages/watchdog.c\<close>.
\<close>

section \<open>Texts\<close>

text \<open>The text the pointer holds afterwards.\<close>
definition rsmp_util_string_set :: "cstr \<Rightarrow> cstr \<Rightarrow> cstr \<Rightarrow> cstr" where
  "rsmp_util_string_set target value defvalue =
    (if defvalue \<noteq> None \<and> value = None then (if target = None then defvalue else target) else value)"

text \<open>The buffer, its length and whether the copy failed; a buffer that is given has room for \<open>len\<close> characters.\<close>
definition rsmp_str_cpy_dup :: "cstr \<Rightarrow> cstr \<Rightarrow> nat \<Rightarrow> (cstr \<times> nat) \<times> bool" where
  "rsmp_str_cpy_dup value str len =
    (case value of
       None \<Rightarrow> ((str, 0), True)
     | Some v \<Rightarrow> if str \<noteq> None \<and> len < length v + 1 then ((str, len), True) else ((Some v, length v), False))"

definition string_concat :: "cstr \<Rightarrow> cstr \<Rightarrow> cstr" where
  "string_concat dest src =
    (case src of None \<Rightarrow> dest | Some s \<Rightarrow> (case dest of None \<Rightarrow> Some s | Some d \<Rightarrow> Some (d @ s)))"

section \<open>Items of the context as texts\<close>

definition item_str :: "struct \<Rightarrow> string \<Rightarrow> cstr" where
  "item_str st k = (case map_of st k of Some (M_str v) \<Rightarrow> v | _ \<Rightarrow> None)"

definition item_sg :: "struct \<Rightarrow> nat" where
  "item_sg st = (case map_of st ''sg'' of Some (M_enum g) \<Rightarrow> g | _ \<Rightarrow> 0)"

definition rsmp_sg_to_string :: "nat \<Rightarrow> cstr" where
  "rsmp_sg_to_string sg = (if sg < length rsmp_sg_lib then Some (rsmp_sg_lib ! sg) else None)"

text \<open>The loop over the items: the parts of one are joined to the text, then the separator if there is another.\<close>
fun join_items :: "('a \<Rightarrow> cstr list) \<Rightarrow> cstr \<Rightarrow> 'a list \<Rightarrow> cstr \<Rightarrow> cstr" where
  "join_items parts sep [] out = out"
| "join_items parts sep [x] out = foldl string_concat out (parts x)"
| "join_items parts sep (x # y # xs) out =
    join_items parts sep (y # xs) (string_concat (foldl string_concat out (parts x)) sep)"

definition sep_or :: "cstr \<Rightarrow> cstr" where
  "sep_or sep = (case sep of None \<Rightarrow> Some '', '' | Some s \<Rightarrow> Some s)"

definition rsmp_array_RSMPs_to_string :: "struct rarray \<Rightarrow> cstr \<Rightarrow> cstr \<Rightarrow> cstr" where
  "rsmp_array_RSMPs_to_string a sep out = join_items (\<lambda>x. [item_str x ''vers'']) (sep_or sep) (ra_list a) out"

definition rsmp_array_siteIds_to_string :: "struct rarray \<Rightarrow> cstr \<Rightarrow> cstr \<Rightarrow> cstr" where
  "rsmp_array_siteIds_to_string a sep out = join_items (\<lambda>x. [item_str x ''sId'']) (sep_or sep) (ra_list a) out"

definition rsmp_array_eSXLGs_to_string :: "struct rarray \<Rightarrow> cstr \<Rightarrow> cstr \<Rightarrow> cstr" where
  "rsmp_array_eSXLGs_to_string a sep out =
    join_items (\<lambda>x. [rsmp_sg_to_string (item_sg x), sep_or sep, item_str x ''vers'']) (sep_or sep) (ra_list a) out"

section \<open>Release and comparison of items\<close>

definition rsmp_array_RSMPs_free_item :: "struct \<Rightarrow> struct" where
  "rsmp_array_RSMPs_free_item st = member_set st ''vers'' (M_str None)"

definition rsmp_array_siteIds_free_item :: "struct \<Rightarrow> struct" where
  "rsmp_array_siteIds_free_item st = member_set st ''sId'' (M_str None)"

definition rsmp_array_eSXLGs_free_item :: "struct \<Rightarrow> struct" where
  "rsmp_array_eSXLGs_free_item st =
    member_set (member_set st ''vers'' (M_str None)) ''sg'' (M_enum (length rsmp_sg_lib))"

text \<open>The comparison of the extensions of two sites.  Every item looked at is the first one, and the greatest
  version found so far, a null pointer at the start, is compared before it is set.\<close>
fun local_loop :: "nat \<Rightarrow> nat \<Rightarrow> struct list \<Rightarrow> unit run" where
  "local_loop sg 0 ls = Inr ()"
| "local_loop sg (Suc k) ls = (if item_sg (ls ! 0) = sg then Inl Null_deref else local_loop sg k ls)"

fun remote_loop :: "nat \<Rightarrow> nat \<Rightarrow> struct list \<Rightarrow> struct list \<Rightarrow> unit run" where
  "remote_loop sg 0 ls rs = Inr ()"
| "remote_loop sg (Suc k) ls rs =
    (if item_sg (rs ! 0) = sg then Inl Null_deref
     else rbind (local_loop sg (length ls) ls) (\<lambda>x. remote_loop sg k ls rs))"

fun sg_loop :: "nat list \<Rightarrow> struct list \<Rightarrow> struct list \<Rightarrow> unit run" where
  "sg_loop [] ls rs = Inr ()"
| "sg_loop (sg # sgs) ls rs = rbind (remote_loop sg (length rs) ls rs) (\<lambda>x. sg_loop sgs ls rs)"

definition rsmp_array_eSXLGs_check :: "struct list option \<Rightarrow> struct list option \<Rightarrow> cstr run" where
  "rsmp_array_eSXLGs_check loc remote =
    (case (loc, remote) of
       (Some ls, Some rs) \<Rightarrow>
         if ls = [] \<or> rs = [] then Inr None
         else rbind (sg_loop [0..<length rsmp_sg_lib] ls rs) (\<lambda>x. Inr None)
     | _ \<Rightarrow> Inr None)"

section \<open>Operations nothing calls\<close>

definition rsmp_msg_Version_set :: "uuid \<Rightarrow> struct option \<Rightarrow> struct option \<times> bool" where
  "rsmp_msg_Version_set i version =
    (case version of None \<Rightarrow> (None, False) | Some st \<Rightarrow> (Some (set_mId i (set_type T_Version st)), True))"

datatype rsmp_wd_sent_state = Wd_wait_for_send | Wd_wait_for_ack

record rsmp_wd_ex =
  wd_last_ts :: horodate
  wd_last_wd :: "uuid option"
  wd_count :: nat
  wd_timeout :: int
  wd_state :: rsmp_wd_sent_state

record rsmp_Watchdog =
  wd_receive_at :: horodate
  wd_sent :: rsmp_wd_ex
  wd_period :: int

definition rsmp_watchdog_context_new :: rsmp_Watchdog where
  "rsmp_watchdog_context_new =
    \<lparr> wd_receive_at = (- 1, 0),
      wd_sent = \<lparr> wd_last_ts = (- 1, 0), wd_last_wd = None, wd_count = 0, wd_timeout = 5 * 1000,
                 wd_state = Wd_wait_for_send \<rparr>,
      wd_period = 60 * 1000 \<rparr>"

definition rsmp_Watchdog_timeout_get :: "times \<Rightarrow> horodate \<Rightarrow> rsmp_Watchdog \<Rightarrow> int" where
  "rsmp_Watchdog_timeout_get T now wd =
    (let d = t_diff_ms T now (wd_last_ts (wd_sent wd))
     in case wd_state (wd_sent wd) of
          Wd_wait_for_send \<Rightarrow> to_int32 (wd_period wd - d)
        | Wd_wait_for_ack \<Rightarrow> to_int32 (wd_timeout (wd_sent wd) - d))"

text \<open>The context afterwards and whether a watchdog was sent.\<close>
definition rsmp_Watchdog_check :: "times \<Rightarrow> horodate \<Rightarrow> rsmp_Watchdog \<Rightarrow> rsmp_Watchdog \<times> bool" where
  "rsmp_Watchdog_check T now wd =
    (case wd_state (wd_sent wd) of
       Wd_wait_for_send \<Rightarrow>
         (wd, fst (wd_last_ts (wd_sent wd)) < 0 \<or> t_diff_ms T now (wd_last_ts (wd_sent wd)) \<ge> wd_period wd)
     | Wd_wait_for_ack \<Rightarrow> (wd, False))"

section \<open>Lemmas\<close>

lemma string_concat_none [simp]: "string_concat dest None = dest"
  by (simp add: string_concat_def)

lemma string_concat_some [simp]: "string_concat (Some a) (Some b) = Some (a @ b)" "string_concat None (Some b) = Some b"
  by (simp_all add: string_concat_def)

text \<open>The texts with the separator between them.\<close>
fun intercalate :: "string \<Rightarrow> string list \<Rightarrow> string" where
  "intercalate sep [] = []"
| "intercalate sep [x] = x"
| "intercalate sep (x # y # xs) = x @ sep @ intercalate sep (y # xs)"

lemma join_items_some:
  "ts \<noteq> [] \<Longrightarrow> join_items (\<lambda>t. [Some t]) (Some sep) ts (Some out) = Some (out @ intercalate sep ts)"
  by (induction sep ts arbitrary: out rule: intercalate.induct) simp_all

lemma join_items_texts:
  "ts \<noteq> [] \<Longrightarrow> join_items (\<lambda>t. [Some t]) (Some sep) ts None = Some (intercalate sep ts)"
  by (cases ts rule: remdups_adj.cases) (simp_all add: join_items_some)

lemma join_items_map: "join_items parts sep (map f xs) out = join_items (\<lambda>x. parts (f x)) sep xs out"
  by (induction xs arbitrary: out rule: induct_list012) simp_all

text \<open>The versions of a context are written with a comma between them.\<close>
lemma RSMPs_text:
  assumes "ra_list a = map (\<lambda>v. vers_item (Some v)) vs" "vs \<noteq> []"
  shows "rsmp_array_RSMPs_to_string a None None = Some (intercalate '', '' vs)"
  using assms(2) by (simp add: rsmp_array_RSMPs_to_string_def sep_or_def assms(1) join_items_map item_str_def
      vers_item_def join_items_texts)

lemma local_loop_result:
  "local_loop sg k ls = (if 0 < k \<and> item_sg (ls ! 0) = sg then Inl Null_deref else Inr ())"
  by (induction k) auto

lemma remote_loop_result:
  "ls \<noteq> [] \<Longrightarrow> remote_loop sg k ls rs =
    (if 0 < k \<and> (item_sg (rs ! 0) = sg \<or> item_sg (ls ! 0) = sg) then Inl Null_deref else Inr ())"
  by (induction k) (auto simp: local_loop_result)

lemma sg_loop_result:
  "ls \<noteq> [] \<Longrightarrow> rs \<noteq> [] \<Longrightarrow> sg_loop sgs ls rs =
    (if item_sg (rs ! 0) \<in> set sgs \<or> item_sg (ls ! 0) \<in> set sgs then Inl Null_deref else Inr ())"
  by (induction sgs) (auto simp: remote_loop_result)

text \<open>The comparison of extensions never finds a version: it compares a null pointer as soon as a first item
  has a known group, and gives nothing otherwise.\<close>
lemma eSXLGs_check_result:
  "rsmp_array_eSXLGs_check (Some ls) (Some rs) =
    (if ls \<noteq> [] \<and> rs \<noteq> [] \<and> (item_sg (rs ! 0) < 4 \<or> item_sg (ls ! 0) < 4) then Inl Null_deref else Inr None)"
proof -
  have "length rsmp_sg_lib = 4" by (simp add: rsmp_sg_lib_def)
  thus ?thesis
    by (simp add: rsmp_array_eSXLGs_check_def sg_loop_result del: sg_loop.simps upt_conv_Cons upt_Suc)
qed

text \<open>The context of a watchdog never notes what was sent: a new one asks for a watchdog at every check.\<close>
lemma watchdog_check_forgets:
  "rsmp_Watchdog_check T now rsmp_watchdog_context_new = (rsmp_watchdog_context_new, True)"
  by (simp add: rsmp_Watchdog_check_def rsmp_watchdog_context_new_def)

end
