(* ===== verification/Startup.thy ===== *)
theory Startup
  imports AuthFile Transport RsmpUtil SessionProps
begin

text \<open>
  Model of the function \<open>main\<close> of \<open>main.c\<close> up to the sessions it runs: the options of the command line, the
  description of the site, the base of logins, and the preparation and start of the session of a
  follower or of the sessions a leader makes for its connections (\<open>callback_incoming_connection\<close> of
  \<open>cyber/cyber.c\<close>, \<open>handle_connection\<close> of \<open>transport/transport.c\<close>).  The build is that without
  \<open>TEST_ENABLED\<close>.  What \<open>getopt_long\<close> gives is the list of its answers; the options of the fhs library,
  the stream library, the cutting of texts and the calendar are functions of the machine.
\<close>

section \<open>Printing\<close>

text \<open>\<open>%s\<close> of a text that may be \<open>NULL\<close>, and \<open>%d\<close>.\<close>
definition print_s :: "cstr \<Rightarrow> string" where
  "print_s s = (case s of None \<Rightarrow> ''(null)'' | Some t \<Rightarrow> t)"

definition print_d :: "int \<Rightarrow> string" where
  "print_d n = (if n < 0 then CHR ''-'' # dec_string (nat (- n)) else dec_string (nat n))"

section \<open>The machine\<close>

record 'f machine =
  mc_fhs_options :: "(string \<times> bool \<times> int) list"   \<comment> \<open>\<open>fhs_opt_declare\<close>\<close>
  mc_fhs :: "int \<Rightarrow> cstr \<Rightarrow> bool"                     \<comment> \<open>\<open>fhs_opt_cli\<close>\<close>
  mc_version :: string
  mc_cut :: "string \<Rightarrow> string list"                  \<comment> \<open>the parts of an option \<open>--rsmp\<close>\<close>
  mc_flux_new :: "string \<Rightarrow> int \<Rightarrow> 'f option"
  mc_flux_open :: "'f \<Rightarrow> int"
  mc_flux_ok :: "'f \<Rightarrow> bool"
  mc_pos :: "nat \<Rightarrow> nat"
  mc_rand :: rand
  mc_date :: "string \<Rightarrow> horodate"
  mc_columns :: "string \<Rightarrow> string list"
  mc_auth_db :: cstr                                 \<comment> \<open>the file \<open>auth.db\<close>\<close>

section \<open>Options\<close>

record start_opts =
  so_rsmp :: cstr
  so_flux :: cstr
  so_local :: cstr
  so_remote :: cstr
  so_server :: bool
  so_port :: int
  so_daemon :: bool
  so_ciphers :: cipher_table
  so_window :: int

definition start_opts0 :: start_opts where
  "start_opts0 =
    \<lparr> so_rsmp = None, so_flux = None, so_local = None, so_remote = None, so_server = False, so_port = 12111,
      so_daemon = False, so_ciphers = cipher_table0, so_window = coder_time_windows0 \<rparr>"

text \<open>An answer of \<open>getopt_long\<close>: a flag it stored itself, or the code of an option with its argument.\<close>
datatype cli = Daemon_flag bool | Opt int cstr

text \<open>The options are read to their end, or the program ends with a success or not and what it printed.\<close>
datatype opt_end = Runs start_opts | Exits bool string

abbreviation opt_is :: "int \<Rightarrow> char \<Rightarrow> bool" where "opt_is n c \<equiv> n = of_char c"

text \<open>Name, whether an argument is required, and the value given for the option.\<close>
definition long_options :: "'f machine \<Rightarrow> (string \<times> bool \<times> int) list" where
  "long_options M =
    [(''help'', False, of_char CHR ''h''), (''daemon'', False, 1), (''background'', False, 1),
     (''verbose'', False, of_char CHR ''V''), (''no-daemon'', False, 0), (''foreground'', False, 0),
     (''version'', False, of_char CHR ''v''), (''rsmp'', True, of_char CHR ''r''),
     (''rsmp-flux'', True, of_char CHR ''f''), (''rsmp-peer'', True, of_char CHR ''p''),
     (''rsmp-sid-local'', True, of_char CHR ''l''), (''rsmp-role-is-Server (leader)'', False, of_char CHR ''S''),
     (''rsmp-server-port'', True, of_char CHR ''P''), (''cipher-twindow'', True, of_char CHR ''W''),
     (''cipher-list'', False, of_char CHR ''L''), (''cipher-disable'', True, of_char CHR ''D'')] @ mc_fhs_options M"

definition isalnum_code :: "int \<Rightarrow> bool" where
  "isalnum_code n \<longleftrightarrow> 48 \<le> n \<and> n \<le> 57 \<or> 65 \<le> n \<and> n \<le> 90 \<or> 97 \<le> n \<and> n \<le> 122"

definition usage_line :: "string \<times> bool \<times> int \<Rightarrow> string" where
  "usage_line opt =
    (case opt of (name, required, val) \<Rightarrow>
      ''--'' @ name @ (if required then '' <arg>'' else []) @
      (if isalnum_code val then '', -'' @ [char_of (nat val)] @ (if required then '' <arg>'' else []) else []) @
      [CHR 0x0A])"

definition usage :: "string \<Rightarrow> (string \<times> bool \<times> int) list \<Rightarrow> string" where
  "usage argv0 opts =
    ''usage '' @ rev (takeWhile (\<lambda>c. c \<noteq> CHR ''/'') (rev argv0)) @ '':'' @ [CHR 0x0A] @ concat (map usage_line opts)"

text \<open>\<open>atoi\<close>: the \<open>long\<close> that was read, the extreme ones for what does not fit, cut to 32 bits.\<close>
definition atoi :: "cstr \<Rightarrow> int run" where
  "atoi s =
    (case s of
       None \<Rightarrow> Inl Null_deref
     | Some t \<Rightarrow> Inr (case strtol10 t of
                       None \<Rightarrow> 0
                     | Some (v, rest) \<Rightarrow> to_int32 (max (- (2 ^ 63)) (min (2 ^ 63 - 1) v))))"

definition decode_option :: "'f machine \<Rightarrow> string \<Rightarrow> start_opts \<Rightarrow> int \<Rightarrow> cstr \<Rightarrow> opt_end run" where
  "decode_option M argv0 o1 opt arg =
    (if opt_is opt CHR ''r'' then
       Inr (Runs (o1\<lparr> so_rsmp :=
         (if so_rsmp o1 \<noteq> None then string_concat (string_concat (so_rsmp o1) (Some '','')) arg
          else string_concat (so_rsmp o1) arg) \<rparr>))
     else if opt_is opt CHR ''f'' then Inr (Runs (o1\<lparr> so_flux := Some (print_s arg) \<rparr>))
     else if opt_is opt CHR ''p'' then Inr (Runs (o1\<lparr> so_remote := Some (print_s arg) \<rparr>))
     else if opt_is opt CHR ''l'' then Inr (Runs (o1\<lparr> so_local := Some (print_s arg) \<rparr>))
     else if opt_is opt CHR ''L'' then Inr (Exits True (fst (cipher_list (so_ciphers o1))))
     else if opt_is opt CHR ''W'' then
       rbind (atoi arg) (\<lambda>n. let o2 = o1\<lparr> so_window := n \<rparr> in Inr (Exits True []))
     else if opt_is opt CHR ''D'' then
       (let (tab, ok) = cipher_let_enabled_by_str (so_ciphers o1) arg False
        in if ok then Inr (Runs (o1\<lparr> so_ciphers := tab \<rparr>))
           else Inr (Exits False (''cipher '' @ print_s arg @ '' unknown!'')))
     else if opt_is opt CHR ''S'' then Inr (Runs (o1\<lparr> so_server := True \<rparr>))
     else if opt_is opt CHR ''P'' then rbind (atoi arg) (\<lambda>n. Inr (Runs (o1\<lparr> so_port := n \<rparr>)))
     else if opt_is opt CHR ''v'' then Inr (Exits True (mc_version M @ [CHR 0x0A]))
     else if opt_is opt CHR ''V'' then Inr (Runs o1)
     else if opt_is opt CHR ''h'' then Inr (Exits True (usage argv0 (long_options M)))
     else Inr (Exits False (usage argv0 (long_options M))))"

fun decode_options :: "'f machine \<Rightarrow> string \<Rightarrow> start_opts \<Rightarrow> cli list \<Rightarrow> opt_end run" where
  "decode_options M argv0 o1 [] = Inr (Runs o1)"
| "decode_options M argv0 o1 (Daemon_flag b # as) = decode_options M argv0 (o1\<lparr> so_daemon := b \<rparr>) as"
| "decode_options M argv0 o1 (Opt opt arg # as) =
    (if mc_fhs M opt arg then decode_options M argv0 o1 as
     else rbind (decode_option M argv0 o1 opt arg) (\<lambda>e.
       case e of Exits ok out \<Rightarrow> Inr (Exits ok out) | Runs o2 \<Rightarrow> decode_options M argv0 o2 as))"

section \<open>The description of the site and the base\<close>

text \<open>The error of an option of the description is not looked at.\<close>
definition start_context :: "'f machine \<Rightarrow> start_opts \<Rightarrow> rsmp_env \<Rightarrow> rsmp_env run" where
  "start_context M o1 g =
    rbind (case so_rsmp o1 of
             None \<Rightarrow> Inr g
           | Some s \<Rightarrow> rbind (rsmp_context_from_str g None (mc_cut M s)) (\<lambda>((g1, item), ret). Inr g1))
      rsmp_context_log"

definition auth_db_from_file :: "'f machine \<Rightarrow> horodate \<Rightarrow> (dbs \<times> int) run" where
  "auth_db_from_file M now =
    auth_unserialize_from_file (mc_pos M) (mc_rand M) (mc_date M) (mc_columns M) now (mc_auth_db M) []"

definition start_flux :: "start_opts \<Rightarrow> string" where
  "start_flux o1 = (case so_flux o1 of Some f \<Rightarrow> f | None \<Rightarrow> ''127.0.0.1:'' @ print_d (so_port o1))"

section \<open>Sessions\<close>

text \<open>\<open>strdup\<close> of the text of an option that was not given.\<close>
definition set_local :: "session \<Rightarrow> cstr \<Rightarrow> session run" where
  "set_local s sId = (case sId of None \<Rightarrow> Inl Null_deref | Some v \<Rightarrow> Inr (fst (cyber_setSiteId_local s v)))"

definition set_remote :: "session \<Rightarrow> cstr \<Rightarrow> session run" where
  "set_remote s sId = (case sId of None \<Rightarrow> Inl Null_deref | Some v \<Rightarrow> Inr (fst (cyber_setSiteId_remote s v)))"

text \<open>The start of a session on a transport, which is stopped again when the exchange fails.\<close>
definition start_on ::
  "'f machine \<Rightarrow> 'j json_api \<Rightarrow> string \<Rightarrow> errcode \<Rightarrow> errcode + string \<Rightarrow> 'f transport \<Rightarrow> session \<Rightarrow>
   ((session \<times> errcode) \<times> 'f transport) run" where
  "start_on M J uuid sent received t s =
    (if s_local s = None then Inr ((s, A_failing_input), t)
     else let (t1, started) = transport_start (mc_flux_new M) (mc_flux_open M) (mc_flux_ok M) t
     in rbind (cyber_start J uuid started (t_is_listener t1) sent received s) (\<lambda>(s1, ret).
        rbind (if started = E_no_error \<and> ret \<noteq> E_no_error then transport_stop t1 else Inr t1) (\<lambda>t2.
          Inr ((s1, ret), t2))))"

definition start_follower ::
  "'f machine \<Rightarrow> 'j json_api \<Rightarrow> string \<Rightarrow> errcode \<Rightarrow> errcode + string \<Rightarrow> start_opts \<Rightarrow> dbs \<Rightarrow>
   ((session \<times> errcode) \<times> 'f transport) run" where
  "start_follower M J uuid sent received o1 d =
    (let s = cyber_new_from_transport (so_ciphers o1) d
     in rbind (set_local s (so_local o1)) (\<lambda>s1.
        rbind (set_remote s1 (so_remote o1)) (\<lambda>s2.
          start_on M J uuid sent received (transport_new (Some (start_flux o1))) s2)))"

definition start_leader ::
  "'f machine \<Rightarrow> 'j json_api \<Rightarrow> start_opts \<Rightarrow> dbs \<Rightarrow> ((session \<times> errcode) \<times> 'f transport) run" where
  "start_leader M J o1 d =
    rbind (set_local (cyber_new_from_transport (so_ciphers o1) d) (so_local o1)) (\<lambda>s1.
      start_on M J [] E_no_error (Inl E_no_error) (transport_enable_server (transport_new (Some (start_flux o1))))
        (cyber_enableRoleLeader s1))"

text \<open>A connection of the leader: the tables of ciphers and logins are those of its time.\<close>
definition callback_incoming_connection ::
  "'f machine \<Rightarrow> 'j json_api \<Rightarrow> string \<Rightarrow> errcode \<Rightarrow> errcode + string \<Rightarrow> cipher_table \<Rightarrow> dbs \<Rightarrow> session \<Rightarrow>
   'f transport \<Rightarrow> ((session \<times> errcode) \<times> 'f transport) run" where
  "callback_incoming_connection M J uuid sent received tab d server t =
    rbind (set_local (cyber_new_from_transport tab d) (cyber_getSiteId_local server)) (\<lambda>s1.
      start_on M J uuid sent received t (cyber_enableRoleLeader s1))"

section \<open>Events\<close>

datatype callback = Cyber_ready | Cyber_lost | Incoming_connection

text \<open>The one subscriber is the session the program prepared itself.\<close>
definition follower_events :: "(callback, unit) event_table" where
  "follower_events = subscribe_all event_callbacks
    [(EVENT_ALLCLEAR_EXCHANGED, Cyber_ready, ()), (EVENT_CYBER_LOST, Cyber_lost, ())]"

definition leader_events :: "(callback, unit) event_table" where
  "leader_events = subscribe_all event_callbacks
    [(EVENT_ALLCLEAR_EXCHANGED, Cyber_ready, ()), (EVENT_CYBER_LOST, Cyber_lost, ()),
     (EVENT_INCOMING_CONNECTION, Incoming_connection, ())]"

text \<open>The thread of a connection wraps its socket in a stream and tells the subscribers; the socket is
  closed when they are done.\<close>
definition handle_connection ::
  "(callback, unit) event_table \<Rightarrow> 'f option \<Rightarrow> (callback \<times> unit \<times> 'f transport) list" where
  "handle_connection tbl flux =
    (case flux of
       None \<Rightarrow> []
     | Some f \<Rightarrow> trigger_event tbl EVENT_INCOMING_CONNECTION (transport_new_from_flux (Some f)))"

section \<open>The main task of a follower\<close>

datatype main_phase = Wait_available | Wait_stop | Main_ended

record 'f follower =
  fo_phase :: main_phase
  fo_stop :: bool
  fo_session :: session
  fo_transport :: "'f transport"

definition follower_main :: "(session \<times> errcode) \<times> 'f transport \<Rightarrow> 'f follower" where
  "follower_main r =
    \<lparr> fo_phase = Wait_available, fo_stop = (snd (fst r) \<noteq> E_no_error), fo_session = fst (fst r), fo_transport = snd r \<rparr>"

text \<open>\<open>_stop\<close>, with the transport it stops.\<close>
definition stop_on :: "session \<Rightarrow> 'f transport \<Rightarrow> (session \<times> 'f transport) run" where
  "stop_on s t = (if s_stop s then Inr (s, t) else rbind (transport_stop t) (\<lambda>t1. Inr (cyber_stop s, t1)))"

text \<open>One turn of the loops of the main task: it waits for the session to be available, then for the
  signal, and stops the session.\<close>
definition main_turn :: "'f follower \<Rightarrow> 'f follower run" where
  "main_turn p =
    (case fo_phase p of
       Wait_available \<Rightarrow>
         if \<not> fo_stop p \<and> \<not> cyber_isAvailable (fo_session p) then Inr p else Inr (p\<lparr> fo_phase := Wait_stop \<rparr>)
     | Wait_stop \<Rightarrow>
         if \<not> fo_stop p then Inr p
         else rbind (stop_on (fo_session p) (fo_transport p)) (\<lambda>(s, t).
           Inr (p\<lparr> fo_phase := Main_ended, fo_session := s, fo_transport := t \<rparr>))
     | Main_ended \<Rightarrow> Inr p)"

section \<open>The end of the program\<close>

text \<open>A session is stopped before it is freed; what the memory of the freed session was is not looked at.\<close>
definition cyber_free :: "session \<Rightarrow> 'f transport \<Rightarrow> unit run" where
  "cyber_free s t = rbind (stop_on s t) (\<lambda>x. Inr ())"

text \<open>At the exit every session of the list that is left is freed.\<close>
fun cyber_atexit :: "(session \<times> 'f transport) list \<Rightarrow> unit run" where
  "cyber_atexit [] = Inr ()"
| "cyber_atexit ((s, t) # l) = rbind (cyber_free s t) (\<lambda>x. cyber_atexit l)"

end
