(* ===== verification/SharedBase.thy ===== *)
theory SharedBase
  imports SessionEffects
begin

text \<open>
  Sessions that share one base of logins.  The threads of all the connections of a leader
  (\<open>callback_incoming_connection\<close> of \<open>cyber/cyber.c\<close>, \<open>handle_connection\<close> of
  \<open>transport/transport.c\<close>) work on the one base of \<open>auth/auth-db.c\<close>, so that a step of one session can
  change what the others find there.
\<close>

section \<open>Sharing\<close>

text \<open>Every session works on the base as the last step of any of them left it: \<open>rebase\<close> puts it into the
  state of a session.  What \<open>inv\<close> says of a session on the common base is kept by its own steps and by
  those of the sessions that are apart from it.\<close>
locale shared_base =
  fixes step :: "'s \<Rightarrow> 's \<Rightarrow> bool"
    and base :: "'s \<Rightarrow> 'd"
    and rebase :: "'d \<Rightarrow> 's \<Rightarrow> 's"
    and inv :: "'s \<Rightarrow> bool"
    and apart :: "'s \<Rightarrow> 's \<Rightarrow> bool"
  assumes rebase_base: "rebase (base s) s = s"
    and base_rebase: "base (rebase d s) = d"
    and apart_rebase: "apart (rebase d s) t = apart s t"
    and inv_own: "inv s \<Longrightarrow> step s s' \<Longrightarrow> inv s'"
    and inv_others: "inv s \<Longrightarrow> step s s' \<Longrightarrow> apart s t \<Longrightarrow> inv (rebase (base s) t) \<Longrightarrow> inv (rebase (base s') t)"
begin

lemma inv_shared:
  assumes "i < length ss" "step (rebase d (ss ! i)) s'" "\<And>t. t \<in> set ss \<Longrightarrow> inv (rebase d t)"
    and "\<And>j. j < length ss \<Longrightarrow> j \<noteq> i \<Longrightarrow> apart (ss ! i) (ss ! j)" "t \<in> set (ss[i := s'])"
  shows "inv (rebase (base s') t)"
proof -
  have i: "inv (rebase d (ss ! i))" using assms(1,3) by simp
  obtain j where j: "j < length ss" "t = (ss[i := s']) ! j" using assms(5) by (auto simp: in_set_conv_nth)
  show ?thesis
  proof (cases "j = i")
    case True
    thus ?thesis using j inv_own [OF i assms(2)] by (simp add: rebase_base)
  next
    case False
    hence "apart (rebase d (ss ! i)) (ss ! j)" "inv (rebase (base (rebase d (ss ! i))) (ss ! j))"
      using assms(3,4) j(1) by (simp_all add: apart_rebase base_rebase)
    from inv_others [OF i assms(2) this] show ?thesis using False j by simp
  qed
qed

end

text \<open>What every session keeps whoever else uses the base.\<close>
lemma own_inv_base: "own_inv s \<Longrightarrow> auth_dbs_ok (s_dbs s)"
  by (simp add: own_inv_def)

lemma own_inv_rebase: "own_inv (t\<lparr> s_dbs := d \<rparr>) \<Longrightarrow> auth_dbs_ok d' \<Longrightarrow> own_inv (t\<lparr> s_dbs := d' \<rparr>)"
  by (simp add: own_inv_def events_ok_def cong: option.case_cong)

interpretation any_site: shared_base "sess_step E" s_dbs "\<lambda>d s. s\<lparr> s_dbs := d \<rparr>" own_inv "\<lambda>s t. True" for E
proof unfold_locales
  fix s s' t :: session
  assume "own_inv s" "sess_step E s s'" "own_inv (t\<lparr> s_dbs := s_dbs s \<rparr>)"
  thus "own_inv (t\<lparr> s_dbs := s_dbs s' \<rparr>)" using own_inv_rebase own_inv_base own_step by blast
qed (simp_all add: own_step)

text \<open>A session whose site has no other keeps the whole invariant: the steps of the others leave its
  logins alone.\<close>
lemma challenge_ok_others:
  assumes "challenge_ok d q ch" "auth_dbs_ok d" "site_step r d d'" "q \<noteq> r"
  shows "challenge_ok d' q ch"
proof (cases "ch_running ch \<or> ch_toSend ch")
  case True
  then obtain l a where a: "ch_auth ch = Some (''to'', q, l)" "auth_at d (''to'', q, l) = Some a"
    "ch_running ch \<longrightarrow> a_active a \<and> a_new_pwd_pending a"
    using assms(1) by (auto simp: challenge_ok_def split: option.splits)
  have "rel_option same_but_secrets (auth_at d (''to'', q, l)) (auth_at d' (''to'', q, l))"
    using assms(2-4) by (simp add: site_step_def)
  then obtain a' where a': "auth_at d' (''to'', q, l) = Some a'" "same_but_secrets a a'"
    using a(2) by (cases "auth_at d' (''to'', q, l)") auto
  show ?thesis using assms(1) a a' same_but_secrets_fields [OF a'(2)] by (auto simp: challenge_ok_def)
qed (use assms(1) in \<open>auto simp: challenge_ok_def\<close>)

lemma sess_inv_others:
  assumes "sess_inv (t\<lparr> s_dbs := d \<rparr>)" "site_step r d d'" "s_remote t \<noteq> Some r"
  shows "sess_inv (t\<lparr> s_dbs := d' \<rparr>)"
proof -
  have ok: "auth_dbs_ok d" using assms(1) by (simp add: sess_inv_def)
  hence "auth_dbs_ok d'" using assms(2) by (simp add: site_step_def)
  thus ?thesis using assms(1,3) challenge_ok_others [OF _ ok assms(2)]
    by (auto simp: sess_inv_def events_ok_def split: option.splits)
qed

interpretation one_site: shared_base "sess_step E" s_dbs "\<lambda>d s. s\<lparr> s_dbs := d \<rparr>" "\<lambda>s. own_inv s \<and> sess_inv s"
  "\<lambda>s t. s_remote s \<noteq> s_remote t" for E
proof unfold_locales
  fix s s' t :: session
  assume inv: "own_inv s \<and> sess_inv s" and step: "sess_step E s s'" and apart: "s_remote s \<noteq> s_remote t"
    and t: "own_inv (t\<lparr> s_dbs := s_dbs s \<rparr>) \<and> sess_inv (t\<lparr> s_dbs := s_dbs s \<rparr>)"
  obtain r where r: "s_remote s = Some r" using inv by (auto elim: sess_inv_parts)
  have s': "own_inv s'" "site_step r (s_dbs s) (s_dbs s')"
    using sess_step_own [OF step] inv r by (simp_all add: own_next_def)
  have "own_inv (t\<lparr> s_dbs := s_dbs s' \<rparr>)" using t own_inv_rebase own_inv_base [OF s'(1)] by blast
  moreover have "sess_inv (t\<lparr> s_dbs := s_dbs s' \<rparr>)" using sess_inv_others [OF _ s'(2)] t apart r by auto
  ultimately show "own_inv (t\<lparr> s_dbs := s_dbs s' \<rparr>) \<and> sess_inv (t\<lparr> s_dbs := s_dbs s' \<rparr>)" by simp
qed (use own_step sess_step_inv in auto)

section \<open>Two sessions of one site\<close>

text \<open>When the new password of a login was taken over by another session of the site, the answer to the
  challenge of this one is refused after its timer was stopped: the challenge goes on running, and
  nothing waits for it any more.\<close>
lemma answer_too_late:
  assumes "s_challenge s = Some ch" "ch_running ch" "ch_mIdRequest ch = Some oMId" "ch_auth ch = Some k"
    and "auth_at (s_dbs s) k = Some a" "a_active a" "auth_to_is a" "\<not> a_new_pwd_pending a"
  shows "handle_response E t s True oMId =
    Inr (s\<lparr> s_challenge := Some (ch\<lparr> ch_timer := False, ch_response := Resp_success \<rparr>),
      s_dbs := put_auth (s_dbs s) a \<rparr>, Some C_generic)"
  using assms
  by (simp add: handle_response_def switch_password_def auth_switch_to_new_pwd_def put_session_auth_def Let_def)

text \<open>From then on its turns do nothing.\<close>
lemma running_for_ever:
  assumes "s_challenge s = Some ch" "ch_running ch" "\<not> ch_toSend ch"
  shows "initiateChallenge E t s = Inr (s, Some E_no_error)"
  using assms by (simp add: initiateChallenge_def choose_login_def challenge_idle_def Let_def)

section \<open>The start\<close>

lemma start_own:
  assumes "auth_dbs_ok d"
    and "cyber_start J u started False sent (Inr input) (prepared tab d loc rem leader) = Inr (s, E_no_error)"
  shows "own_inv s \<and> s_dbs s = d"
proof -
  obtain r c w where s: "s = (prepared tab d loc rem leader)\<lparr> s_transport_up := True, s_wire := w,
      s_remote := Some r, s_cipher := Some c, s_tasks := True \<rparr>" and loc: "loc \<noteq> None"
    using cyber_start_effect [OF assms(2)] by (auto simp: prepared_def)
  show ?thesis unfolding s using assms(1) loc
    by (simp add: own_inv_def events_ok_def prepared_def cyber_new_from_transport_def cyber_priv_new_def own_challenge_def
        challenge_ctxt_new_def)
qed

text \<open>What is accepted for the other site comes after \<open>AllClear\<close> was announced, under one of its logins.\<close>
lemma accepted_own:
  assumes "own_inv s" "cyber_send s payload login = Inr (s2, E_no_error)"
  shows "EVENT_ALLCLEAR_EXCHANGED \<in> set (s_events s) \<and>
    (\<exists>r l. s_remote s = Some r \<and> auth_at (s_dbs s) (''to'', r, l) \<noteq> None \<and>
      s2 = s\<lparr> s_send_q := s_send_q s @ [\<lparr> o_buf = payload, o_encrypt = True, o_login = Some l \<rparr>] \<rparr>)"
proof -
  obtain r where r: "s_remote s = Some r" "auth_dbs_ok (s_dbs s)"
    using assms(1) by (auto simp: own_inv_def split: option.splits)
  obtain l where l: "send_login s login = Some l" "s_ac_rxed s" "s_ac_sent s"
    "s2 = s\<lparr> s_send_q := s_send_q s @ [\<lparr> o_buf = payload, o_encrypt = True, o_login = Some l \<rparr>] \<rparr>"
    using cyber_send_effect [OF assms(2)] by auto
  have "login \<noteq> None \<Longrightarrow> isAuthToAvailableForLogin (s_dbs s) login (s_remote s)"
    using assms(2) by (auto simp: cyber_send_def split: if_splits)
  from send_login_known [OF r(2,1) this l(1)] show ?thesis
    using r(1) l assms(1) by (auto simp: own_inv_def events_ok_def)
qed

end
