(* ===== verification/Program.thy ===== *)
theory Program
  imports Startup SharedBase
begin

text \<open>
  Properties of the program from its command line to the sessions it runs: what the options can set, what
  a started session starts from, and the ends of a start that goes wrong.
\<close>

section \<open>Options\<close>

text \<open>A cipher is named by an option that the fhs library does not take.\<close>
definition disabled_by :: "'f machine \<Rightarrow> cli list \<Rightarrow> string \<Rightarrow> bool" where
  "disabled_by M as s \<longleftrightarrow>
    \<not> mc_fhs M (of_char CHR ''D'') (Some s) \<and> Opt (of_char CHR ''D'') (Some s) \<in> set as"

definition without :: "(string \<Rightarrow> bool) \<Rightarrow> cipher_table \<Rightarrow> cipher_table" where
  "without off tab = map (\<lambda>c. c\<lparr> c_enabled := c_enabled c \<and> \<not> off (c_lib c) \<rparr>) tab"

lemma without_libs [simp]: "map c_lib (without off tab) = map c_lib tab"
  by (simp add: without_def)

lemma without_without: "without off (without off2 tab) = without (\<lambda>s. off s \<or> off2 s) tab"
  by (auto simp: without_def intro!: arg_cong [where f = "\<lambda>b. c_enabled_update (\<lambda>_. b) c" for c])

lemma without_none [simp]: "without (\<lambda>_. False) tab = tab"
  by (simp add: without_def)

lemma set_enabled_without:
  "distinct (map c_lib tab) \<Longrightarrow> set_enabled s False tab = without (\<lambda>x. x = s) tab"
proof (induction tab)
  case (Cons c cs)
  show ?case
  proof (cases "c_lib c = s")
    case True
    have "d\<lparr> c_enabled := c_enabled d \<and> c_lib d \<noteq> s \<rparr> = d" if "d \<in> set cs" for d
    proof -
      have "c_lib d \<in> c_lib ` set cs" using that by simp
      hence "c_lib d \<noteq> s" using Cons.prems True by auto
      thus ?thesis by (cases d) simp
    qed
    hence "without (\<lambda>x. x = s) cs = cs" by (simp add: without_def map_idI)
    thus ?thesis using True by (simp add: without_def)
  qed (use Cons in \<open>simp add: without_def\<close>)
qed (simp add: without_def)

lemma decode_option_runs:
  assumes "decode_option M argv0 o1 opt arg = Inr (Runs o2)" "distinct (map c_lib (so_ciphers o1))"
  shows "so_window o2 = so_window o1 \<and>
    so_ciphers o2 = without (\<lambda>s. opt_is opt CHR ''D'' \<and> arg = Some s) (so_ciphers o1)"
proof (cases "opt_is opt CHR ''D''")
  case True
  obtain s c where "arg = Some s" "find (\<lambda>c. c_lib c = s) (so_ciphers o1) = Some c"
    "o2 = o1\<lparr> so_ciphers := set_enabled (c_lib c) False (so_ciphers o1) \<rparr>"
    using assms(1) True
    by (auto simp: decode_option_def cipher_let_enabled_by_str_def cipher_get_by_str_def split: option.splits)
  moreover have "c_lib c = s" using calculation(2) by (auto simp: find_Some_iff)
  ultimately show ?thesis using assms(2) True by (simp add: set_enabled_without eq_commute)
next
  case False
  thus ?thesis using assms(1) by (auto simp: decode_option_def Let_def split: if_splits)
qed

lemma decode_options_runs:
  assumes "decode_options M argv0 o1 as = Inr (Runs o2)" "distinct (map c_lib (so_ciphers o1))"
  shows "so_window o2 = so_window o1 \<and> so_ciphers o2 = without (disabled_by M as) (so_ciphers o1)"
  using assms
proof (induction M argv0 o1 as rule: decode_options.induct)
  case (1 M argv0 o1)
  thus ?case by (simp add: disabled_by_def)
next
  case (2 M argv0 o1 b as)
  thus ?case by (simp add: disabled_by_def)
next
  case (3 M argv0 o1 opt arg as)
  show ?case
  proof (cases "mc_fhs M opt arg")
    case True
    hence "disabled_by M (Opt opt arg # as) = disabled_by M as" by (auto simp: disabled_by_def)
    thus ?thesis using 3 True by simp
  next
    case False
    obtain o3 where o3: "decode_option M argv0 o1 opt arg = Inr (Runs o3)"
      "decode_options M argv0 o3 as = Inr (Runs o2)"
      using "3.prems"(1) False by (cases "projr (decode_option M argv0 o1 opt arg)") auto
    have s: "so_window o3 = so_window o1"
      "so_ciphers o3 = without (\<lambda>s. opt_is opt CHR ''D'' \<and> arg = Some s) (so_ciphers o1)"
      using decode_option_runs [OF o3(1) "3.prems"(2)] by simp_all
    have "disabled_by M (Opt opt arg # as) =
      (\<lambda>s. disabled_by M as s \<or> opt_is opt CHR ''D'' \<and> arg = Some s)"
      using False by (auto simp: disabled_by_def fun_eq_iff)
    thus ?thesis using "3.IH"(2) [OF False o3(2)] "3.prems"(2) s by (simp add: without_without)
  qed
qed

lemma no_window: "window \<le> 0 \<Longrightarrow> ptxt_is_valid T window now p \<noteq> A_outdated"
  by (auto simp: ptxt_is_valid_def split: option.splits)

section \<open>The base\<close>

lemma line_entry_id:
  assumes "line_entry r argv p ts a = Inr b"
  shows "auth_id b = auth_id a"
  using assms by (auto simp: line_entry_def line_pending_def auth_id_def split: if_splits option.splits)

lemma load_line_ok:
  assumes "load_line pos r parse now d argv = Inr (d1, b)" "auth_dbs_ok d"
  shows "auth_dbs_ok d1"
proof -
  let ?key = "auth_key_set (Some (argv ! 1)) (Some (argv ! 2)) (Some (argv ! 3))"
  show ?thesis
  proof (cases "d1 = d")
    case False
    then obtain d2 item p where s: "auth_search_by_key pos now d ?key = Inr (d2, item)"
      "case item of None \<Rightarrow> d1 = d2
       | Some a \<Rightarrow> \<exists>a1. line_entry r argv p (line_timestamp parse (argv ! 6)) a = Inr a1 \<and>
           d1 = upd_auth (argv ! 1) (argv ! 3) (argv ! 2) (\<lambda>_. a1) d2"
      using assms(1) by (fastforce simp: load_line_def Let_def run_cases split: if_splits)
    have k: "key_full ?key" using s False by (cases "key_full ?key") (auto simp: auth_search_by_key_def)
    obtain a where a: "item = Some a" "auth_dbs_ok d2"
      "a = (case auth_at d (argv ! 1, argv ! 3, argv ! 2) of Some b \<Rightarrow> b | None \<Rightarrow> auth_blank now ?key)"
      using auth_search_by_key_result [OF k, of pos now d] s(1) assms(2)
      by (auto simp: Let_def auth_key_set_def)
    have id: "auth_id a = (argv ! 1, argv ! 3, argv ! 2)"
      using a(3) auth_blank_ids [OF k, of now] auth_at_ok [OF assms(2)]
      by (auto simp: auth_key_set_def auth_id_def split: option.splits)
    obtain a1 where a1: "line_entry r argv p (line_timestamp parse (argv ! 6)) a = Inr a1"
      "d1 = upd_auth (argv ! 1) (argv ! 3) (argv ! 2) (\<lambda>_. a1) d2" using s(2) a(1) by auto
    show ?thesis unfolding a1(2)
      by (rule upd_auth_ok [OF _ a(2)]) (use line_entry_id [OF a1(1)] id in simp)
  qed (use assms(2) in simp)
qed

lemma load_lines_ok:
  "load_lines pos r parse dp now ls d n = Inr (d1, m) \<Longrightarrow> auth_dbs_ok d \<Longrightarrow> auth_dbs_ok d1"
proof (induction ls arbitrary: d n)
  case (Cons l ls)
  obtain d2 b where "load_line pos r parse now d (dp l) = Inr (d2, b)"
    "load_lines pos r parse dp now ls d2 (if b then n + 1 else n) = Inr (d1, m)"
    using Cons.prems(1) by auto
  thus ?case using Cons.IH load_line_ok Cons.prems(2) by blast
qed simp

lemma auth_db_from_file_ok:
  assumes "auth_db_from_file M now = Inr (d, n)"
  shows "auth_dbs_ok d"
proof -
  have "auth_dbs_ok []" by (simp add: auth_dbs_ok_def kuniq_def)
  thus ?thesis using assms load_lines_ok
    by (auto simp: auth_db_from_file_def auth_unserialize_from_file_def split: option.splits list.splits if_splits)
qed

section \<open>Sessions\<close>

lemma start_follower_prepared:
  assumes "so_local o1 = Some l" "so_remote o1 = Some r"
  shows "start_follower M J uuid sent received o1 d =
    start_on M J uuid sent received (transport_new (Some (start_flux o1))) (prepared (so_ciphers o1) d (Some l) (Some r) False)"
  using assms
  by (simp add: start_follower_def set_local_def set_remote_def cyber_setSiteId_local_def cyber_setSiteId_remote_def
      prepared_def cyber_new_from_transport_def cyber_priv_new_def Let_def)

lemma start_incoming_prepared:
  assumes "s_local server = Some l"
  shows "callback_incoming_connection M J uuid sent received tab d server t =
    start_on M J uuid sent received t (prepared tab d (Some l) None True)"
  using assms
  by (simp add: callback_incoming_connection_def set_local_def cyber_setSiteId_local_def cyber_getSiteId_local_def
      cyber_enableRoleLeader_def prepared_def cyber_new_from_transport_def cyber_priv_new_def)

lemma not_listener [simp]:
  "t_is_listener (transport_new c) = False" "t_is_listener (transport_new_from_flux f) = False"
  by (simp_all add: transport_new_def transport_new_from_flux_def Let_def split: option.split)

lemma transport_start_listener [simp]:
  "t_is_listener (fst (transport_start new opn ok t)) = t_is_listener t"
  by (auto simp: transport_start_def Let_def split: option.split)

lemma start_on_started:
  assumes "start_on M J uuid sent received t s = Inr ((s1, E_no_error), t1)" "\<not> t_is_listener t"
  shows "\<exists>started. cyber_start J uuid started False sent received s = Inr (s1, E_no_error)"
proof -
  obtain t2 started where t2: "transport_start (mc_flux_new M) (mc_flux_open M) (mc_flux_ok M) t = (t2, started)"
    by (cases "transport_start (mc_flux_new M) (mc_flux_open M) (mc_flux_ok M) t") auto
  have "t_is_listener t2 = False"
    using transport_start_listener [of "mc_flux_new M" "mc_flux_open M" "mc_flux_ok M" t] assms(2) t2 by simp
  thus ?thesis using assms(1) t2 by (auto simp: start_on_def Let_def split: if_splits)
qed

lemma one_name:
  "(case xs of [] \<Rightarrow> a | x # l \<Rightarrow> (case l of [] \<Rightarrow> f x | y # zs \<Rightarrow> b)) = Inr r \<longleftrightarrow>
    xs = [] \<and> a = Inr r \<or> (\<exists>x. xs = [x] \<and> f x = Inr r) \<or> (\<exists>x y zs. xs = x # y # zs \<and> b = Inr r)"
  by (cases xs; cases "tl xs") auto

lemma start_keeps_remote:
  assumes "cyber_start J u started False sent (Inr input) s = Inr (s', E_no_error)" "s_remote s = Some r" "\<not> s_leader s"
  shows "s_remote s' = Some r"
  using assms
  by (auto simp: cyber_start_def cyber_exchange_follower_def check_remote_def run_cases one_name Let_def split: if_splits)

text \<open>A running program: the session of a listener that makes those of its connections, the one base all
  sessions share, and the sessions, each on the base as the last step of any of them left it.\<close>
record running =
  ru_server :: "session option"
  ru_base :: dbs
  ru_sessions :: "session list"

text \<open>The base is loaded and the session of the follower started, or that of the listener of the leader;
  a connection of the leader starts a session on the base of its time; and at any time any session
  takes a step on the base, which the others find changed.\<close>
inductive program_runs :: "'f machine \<Rightarrow> 'j env \<Rightarrow> start_opts \<Rightarrow> running \<Rightarrow> bool"
  for M :: "'f machine" and E :: "'j env" and o1 :: start_opts where
  Follower: "\<not> so_server o1 \<Longrightarrow> auth_db_from_file M now = Inr (d, n) \<Longrightarrow>
    start_follower M (e_json E) uuid sent (Inr input) o1 d = Inr ((s, E_no_error), t) \<Longrightarrow>
    program_runs M E o1 \<lparr> ru_server = None, ru_base = s_dbs s, ru_sessions = [s] \<rparr>"
| Leader: "so_server o1 \<Longrightarrow> auth_db_from_file M now = Inr (d, n) \<Longrightarrow>
    start_leader M (e_json E) o1 d = Inr ((server, E_no_error), ts) \<Longrightarrow>
    program_runs M E o1 \<lparr> ru_server = Some server, ru_base = s_dbs server, ru_sessions = [] \<rparr>"
| Connection: "program_runs M E o1 g \<Longrightarrow> ru_server g = Some server \<Longrightarrow>
    (Incoming_connection, (), tc) \<in> set (handle_connection leader_events flux) \<Longrightarrow>
    callback_incoming_connection M (e_json E) uuid sent (Inr input) (so_ciphers o1) (ru_base g) server tc =
      Inr ((s, E_no_error), t) \<Longrightarrow>
    program_runs M E o1 (g\<lparr> ru_sessions := ru_sessions g @ [s] \<rparr>)"
| Step: "program_runs M E o1 g \<Longrightarrow> i < length (ru_sessions g) \<Longrightarrow>
    sess_step E ((ru_sessions g ! i)\<lparr> s_dbs := ru_base g \<rparr>) s' \<Longrightarrow>
    program_runs M E o1 (g\<lparr> ru_base := s_dbs s', ru_sessions := (ru_sessions g)[i := s'] \<rparr>)"

text \<open>What holds of it: the base is a map; every session, on the base, has what is its own, the site of the
  option \<open>-l\<close> and for a follower that of the option \<open>-p\<close>; and the whole invariant when no two
  sessions are with the same site.\<close>
definition on_base :: "running \<Rightarrow> session \<Rightarrow> session" where
  "on_base g s = s\<lparr> s_dbs := ru_base g \<rparr>"

definition sites_ok :: "start_opts \<Rightarrow> session \<Rightarrow> bool" where
  "sites_ok o1 s \<longleftrightarrow> s_local s = so_local o1 \<and> (\<not> so_server o1 \<longrightarrow> s_remote s = so_remote o1)"

definition program_ok :: "start_opts \<Rightarrow> running \<Rightarrow> bool" where
  "program_ok o1 g \<longleftrightarrow>
    auth_dbs_ok (ru_base g) \<and>
    (case ru_server g of None \<Rightarrow> \<not> so_server o1 | Some server \<Rightarrow> so_server o1 \<and> s_local server = so_local o1) \<and>
    (\<forall>s \<in> set (ru_sessions g). own_inv (on_base g s) \<and> sites_ok o1 s) \<and>
    (distinct (map s_remote (ru_sessions g)) \<longrightarrow> (\<forall>s \<in> set (ru_sessions g). sess_inv (on_base g s)))"

lemma started_local:
  assumes "cyber_start J u started False sent (Inr input) s = Inr (s', E_no_error)"
  shows "s_local s' = s_local s"
  using cyber_start_effect [OF assms] by auto

lemma on_own_base: "ru_base g = s_dbs s \<Longrightarrow> on_base g s = s"
  by (simp add: on_base_def)

lemma follower_ok:
  assumes "auth_dbs_ok d" "\<not> so_server o1"
    and "start_follower M J uuid sent (Inr input) o1 d = Inr ((s, E_no_error), t)"
  shows "program_ok o1 \<lparr> ru_server = None, ru_base = s_dbs s, ru_sessions = [s] \<rparr>"
proof -
  obtain l r where lr: "so_local o1 = Some l" "so_remote o1 = Some r"
    using assms(3) by (auto simp: start_follower_def set_local_def set_remote_def Let_def split: option.splits)
  obtain started where st: "cyber_start J uuid started False sent (Inr input)
      (prepared (so_ciphers o1) d (Some l) (Some r) False) = Inr (s, E_no_error)"
    using start_on_started assms(3) unfolding start_follower_prepared [OF lr] by fastforce
  let ?g = "\<lparr> ru_server = None, ru_base = s_dbs s, ru_sessions = [s] \<rparr>"
  have "on_base ?g s = s" by (rule on_own_base) simp
  moreover have "sites_ok o1 s"
    using started_local [OF st] start_keeps_remote [OF st] lr by (simp add: sites_ok_def prepared_def)
  ultimately show ?thesis using start_inv [OF assms(1) st] start_own [OF assms(1) st] assms(1,2)
    by (simp add: program_ok_def)
qed

lemma leader_server:
  assumes "start_leader M J o1 d = Inr ((server, E_no_error), ts)"
  shows "s_local server = so_local o1 \<and> so_local o1 \<noteq> None \<and> s_dbs server = d"
  using assms
  by (auto simp: start_leader_def set_local_def start_on_def cyber_start_def cyber_setSiteId_local_def transport_start_def
      transport_enable_server_def cyber_enableRoleLeader_def cyber_new_from_transport_def cyber_priv_new_def Let_def
      split: option.splits if_splits)

lemma incoming_transport:
  "x \<in> set (handle_connection leader_events flux) \<longleftrightarrow>
    (\<exists>f. flux = Some f \<and> x = (Incoming_connection, (), transport_new_from_flux (Some f)))"
  unfolding handle_connection_def leader_events_def trigger_event_def subscribe_all_slots
  by (simp add: subs_of_def MAX_CALLBACKS_def eq_commute split: option.split)

text \<open>The session of a connection starts on the common base.\<close>
lemma connection_started:
  assumes "auth_dbs_ok d" "s_local server = Some l" "\<not> t_is_listener tc"
    and "callback_incoming_connection M J uuid sent (Inr input) tab d server tc = Inr ((s, E_no_error), t)"
  shows "own_inv s \<and> sess_inv s \<and> s_dbs s = d \<and> s_local s = Some l"
proof -
  obtain started where st: "cyber_start J uuid started False sent (Inr input)
      (prepared tab d (Some l) None True) = Inr (s, E_no_error)"
    using start_on_started [OF _ assms(3)] assms(4) unfolding start_incoming_prepared [OF assms(2)] by blast
  show ?thesis using start_inv [OF assms(1) st] start_own [OF assms(1) st] started_local [OF st]
    by (simp add: prepared_def)
qed

lemma connection_ok:
  assumes g: "program_ok o1 g" and server: "ru_server g = Some server" and t: "\<not> t_is_listener tc" and l: "so_local o1 = Some l"
    and run: "callback_incoming_connection M J uuid sent (Inr input) tab (ru_base g) server tc = Inr ((s, E_no_error), t)"
  shows "program_ok o1 (g\<lparr> ru_sessions := ru_sessions g @ [s] \<rparr>)"
proof -
  have b: "auth_dbs_ok (ru_base g)" "s_local server = Some l" "so_server o1" using g server l by (simp_all add: program_ok_def)
  note s = connection_started [OF b(1,2) t run]
  let ?g = "g\<lparr> ru_sessions := ru_sessions g @ [s] \<rparr>"
  have base: "on_base ?g t = on_base g t" for t by (simp add: on_base_def)
  have "on_base g s = s" by (rule on_own_base) (simp add: s)
  moreover have "sites_ok o1 s" using s l b(3) by (simp add: sites_ok_def)
  moreover have "distinct (map s_remote (ru_sessions g))" if "distinct (map s_remote (ru_sessions ?g))" using that by simp
  ultimately show ?thesis using g s unfolding program_ok_def base by auto
qed

lemma step_ok:
  assumes g: "program_ok o1 g" and i: "i < length (ru_sessions g)"
    and step: "sess_step E ((ru_sessions g ! i)\<lparr> s_dbs := ru_base g \<rparr>) s'"
  shows "program_ok o1 (g\<lparr> ru_base := s_dbs s', ru_sessions := (ru_sessions g)[i := s'] \<rparr>)"
proof -
  let ?s = "(ru_sessions g ! i)\<lparr> s_dbs := ru_base g \<rparr>" and ?ss = "(ru_sessions g)[i := s']"
  have own: "own_inv (t\<lparr> s_dbs := ru_base g \<rparr>)" "sites_ok o1 t" if "t \<in> set (ru_sessions g)" for t
    using g that by (auto simp: program_ok_def on_base_def)
  have s: "own_inv ?s" "sites_ok o1 (ru_sessions g ! i)" using own i by simp_all
  have s': "own_inv s'" "s_remote s' = s_remote (ru_sessions g ! i)" "s_local s' = s_local (ru_sessions g ! i)"
    using sess_step_own [OF step] s(1) by (simp_all add: own_next_def)
  have o: "own_inv (t\<lparr> s_dbs := s_dbs s' \<rparr>)" if "t \<in> set ?ss" for t
    by (rule any_site.inv_shared [OF i step own(1) _ that]) simp_all
  have "sites_ok o1 t" if "t \<in> set ?ss" for t
  proof -
    have "sites_ok o1 s'" using s(2) s'(2,3) by (simp add: sites_ok_def)
    thus ?thesis using own(2) that set_update_subset_insert [of "ru_sessions g" i s'] by blast
  qed
  moreover have "sess_inv (t\<lparr> s_dbs := s_dbs s' \<rparr>)"
    if d: "distinct (map s_remote ?ss)" and t: "t \<in> set ?ss" for t
  proof -
    have "map s_remote ?ss = map s_remote (ru_sessions g)" using s'(2) i by (simp add: map_update list_update_same_conv)
    hence d: "distinct (map s_remote (ru_sessions g))" using d by simp
    have "own_inv (x\<lparr> s_dbs := ru_base g \<rparr>) \<and> sess_inv (x\<lparr> s_dbs := ru_base g \<rparr>)" if "x \<in> set (ru_sessions g)" for x
      using g d that by (auto simp: program_ok_def on_base_def)
    moreover have "s_remote (ru_sessions g ! i) \<noteq> s_remote (ru_sessions g ! j)" if "j < length (ru_sessions g)" "j \<noteq> i" for j
      using d i that by (metis distinct_conv_nth length_map nth_map)
    ultimately show ?thesis using one_site.inv_shared [OF i step _ _ t] by blast
  qed
  ultimately show ?thesis using o g own_inv_base [OF s'(1)] by (auto simp: program_ok_def on_base_def)
qed

lemma program_runs_ok: "program_runs M E o1 g \<Longrightarrow> program_ok o1 g"
proof (induction rule: program_runs.induct)
  case (Follower now d n uuid sent input s t)
  show ?case by (rule follower_ok [OF auth_db_from_file_ok [OF Follower(2)] Follower(1,3)])
next
  case (Leader now d n server ts)
  thus ?case using auth_db_from_file_ok [OF Leader(2)] leader_server [OF Leader(3)] by (simp add: program_ok_def)
next
  case (Connection g server tc flux uuid sent input s t)
  have t: "\<not> t_is_listener tc" using Connection.hyps(3) by (auto simp: incoming_transport)
  obtain l where "so_local o1 = Some l"
    using Connection.hyps(2,4) Connection.IH
    by (auto simp: program_ok_def callback_incoming_connection_def cyber_getSiteId_local_def set_local_def split: option.splits)
  thus ?case by (rule connection_ok [OF Connection.IH Connection.hyps(2) t _ Connection.hyps(4)])
next
  case (Step g i s')
  show ?case by (rule step_ok [OF Step.IH Step.hyps(2,3)])
qed

section \<open>A start that fails\<close>

lemma no_flux_no_start:
  assumes "t_port t = 0 \<or> (\<forall>h p. mc_flux_new M h p = None)" "t_flux t = None" "\<not> t_is_listener t"
  shows "transport_start (mc_flux_new M) (mc_flux_open M) (mc_flux_ok M) t = (t, T_generic)"
  using assms by (auto simp: transport_start_def Let_def split: option.split)

lemma new_has_no_flux [simp]: "t_flux (transport_new c) = None"
  by (simp add: transport_new_def transport_new_from_flux_def Let_def split: option.split)

lemma unstarted_follower:
  assumes "so_local o1 = Some l" "so_remote o1 = Some r"
    and "t_port (transport_new (Some (start_flux o1)) :: 'f transport) = 0 \<or> (\<forall>h p. mc_flux_new M h p = (None :: 'f option))"
  shows "start_follower M J uuid sent received o1 d =
    Inr ((prepared (so_ciphers o1) d (Some l) (Some r) False, T_generic), transport_new (Some (start_flux o1)))"
  using no_flux_no_start [OF assms(3)]
  by (simp add: start_follower_prepared [OF assms(1,2)] start_on_def cyber_start_def prepared_def)

lemma unstarted_crashes:
  assumes "ret \<noteq> E_no_error" "\<not> s_stop s" "t_flux t = None"
  shows "rbind (main_turn (follower_main ((s, ret), t))) main_turn = Inl Null_deref"
  using assms by (simp add: main_turn_def follower_main_def stop_on_def transport_stop_def)

text \<open>A follower that has lost its session before it was available waits for it, and one that has lost it
  later waits for the signal: it does not start another.\<close>
lemma lost_follower_waits:
  assumes "s_stop (fo_session p)" "\<not> fo_stop p"
  shows "main_turn p = Inr p"
  using assms by (cases "fo_phase p") (simp_all add: main_turn_def cyber_isAvailable_def)

lemma cyber_atexit_cases:
  "cyber_atexit l = (if \<exists>(s, t) \<in> set l. \<not> s_stop s \<and> t_flux t = None then Inl Null_deref else Inr ())"
  by (induction l rule: cyber_atexit.induct)
    (auto simp: cyber_free_def stop_on_def transport_stop_def split: option.split)

lemma leader_has_no_flux:
  assumes "start_leader M J o1 d = Inr ((server, ret), t)"
  shows "\<not> s_stop server \<and> t_flux t = None"
  using assms
  by (auto simp: start_leader_def set_local_def start_on_def cyber_start_def cyber_setSiteId_local_def transport_start_def
      transport_enable_server_def cyber_enableRoleLeader_def cyber_new_from_transport_def cyber_priv_new_def Let_def
      split: option.splits if_splits)

section \<open>Properties\<close>

text \<open>C16. What the command line can set.  Whatever options are given, the program that runs has exactly the
  ciphers that no option \<open>-D\<close> named enabled, and no window of time: the option that sets the window ends the
  program, so that no message is ever refused as outdated, however old its date.\<close>
theorem program_options:
  assumes "decode_options M argv0 start_opts0 as = Inr (Runs o1)"
  shows "so_ciphers o1 = map (\<lambda>c. c\<lparr> c_enabled := \<not> disabled_by M as (c_lib c) \<rparr>) cipher_table0 \<and>
    so_window o1 = coder_time_windows0 \<and> ptxt_is_valid T (so_window o1) now p \<noteq> A_outdated"
proof -
  have "distinct (map c_lib (so_ciphers start_opts0))" by code_simp
  note d = decode_options_runs [OF assms this]
  have "c_enabled c" if "c \<in> set cipher_table0" for c
    using that by (auto simp: cipher_table0_def cipher_aes128_ctr_def cipher_aes256_ctr_def cipher_aes256_gcm_def)
  hence "so_ciphers o1 = map (\<lambda>c. c\<lparr> c_enabled := \<not> disabled_by M as (c_lib c) \<rparr>) cipher_table0"
    using d by (simp add: without_def start_opts0_def)
  thus ?thesis using d no_window by (simp add: start_opts0_def coder_time_windows0_def)
qed

definition machine_sample :: "string machine" where
  "machine_sample =
    \<lparr> mc_fhs_options = [], mc_fhs = (\<lambda>_ _. False), mc_version = ''1'', mc_cut = (\<lambda>s. [s]),
      mc_flux_new = (\<lambda>h p. Some h), mc_flux_open = (\<lambda>_. 1), mc_flux_ok = (\<lambda>_. True), mc_pos = (\<lambda>n. n),
      mc_rand = \<lparr> draw = 0, rnd = (\<lambda>n. replicate n 0) \<rparr>, mc_date = (\<lambda>_. (0, 0)), mc_columns = split_semicolons, mc_auth_db = None \<rparr>"

definition opts_sample :: start_opts where
  "opts_sample = start_opts0\<lparr> so_local := Some ''A'', so_remote := Some ''B'' \<rparr>"

theorem program_options_witness:
  "\<exists>o1. decode_options machine_sample ''rsmp'' start_opts0
      [Opt (of_char CHR ''D'') (Some ''AES128CTR''), Opt (of_char CHR ''l'') (Some ''A'')] = Inr (Runs o1) \<and>
    map c_enabled (so_ciphers o1) = [False, True, True] \<and> so_window o1 = - 1"
proof -
  let ?as = "[Opt (of_char CHR ''D'') (Some ''AES128CTR''), Opt (of_char CHR ''l'') (Some ''A'')]"
  obtain o1 where o1: "decode_options machine_sample ''rsmp'' start_opts0 ?as = Inr (Runs o1)"
    by (simp add: decode_option_def machine_sample_def print_s_def cipher_let_enabled_by_str_def
        cipher_get_by_str_def start_opts0_def cipher_table0_def cipher_aes128_ctr_def)
  have "\<And>s. disabled_by machine_sample ?as s \<longleftrightarrow> s = ''AES128CTR''"
    by (simp add: disabled_by_def machine_sample_def)
  thus ?thesis using program_options [OF o1] o1
    by (simp add: cipher_table0_def cipher_aes128_ctr_def cipher_aes256_ctr_def cipher_aes256_gcm_def coder_time_windows0_def)
qed

text \<open>C8. The sessions of the program, which share one base.  Whatever the options, the file of the base, the
  connections and what the other sites send, and in whatever order the sessions of the connections
  take their steps on the base, every session finds a base that is a map, is complete, is that of the
  site of the option \<open>-l\<close> and for a follower with the site of the option \<open>-p\<close>, challenges only logins
  of its own other site, has announced \<open>AllClear\<close> exactly when it went both ways and its loss once; what
  it accepts for sending comes after \<open>AllClear\<close> was announced and goes under a TO login of the other
  site that is in the base.  And when no two of them are with the same site, every session satisfies the
  whole invariant of a started session on the common base, whatever the others do to it.\<close>
theorem program_sessions:
  assumes "program_runs M E o1 g" "s0 \<in> set (ru_sessions g)" "s = s0\<lparr> s_dbs := ru_base g \<rparr>"
  shows "own_inv s \<and> s_local s = so_local o1 \<and> (\<not> so_server o1 \<longrightarrow> s_remote s = so_remote o1) \<and>
    (distinct (map s_remote (ru_sessions g)) \<longrightarrow> sess_inv s) \<and>
    (\<forall>payload login s2. cyber_send s payload login = Inr (s2, E_no_error) \<longrightarrow>
      EVENT_ALLCLEAR_EXCHANGED \<in> set (s_events s) \<and>
      (\<exists>r l. s_remote s = Some r \<and> auth_at (s_dbs s) (''to'', r, l) \<noteq> None \<and>
        s2 = s\<lparr> s_send_q := s_send_q s @ [\<lparr> o_buf = payload, o_encrypt = True, o_login = Some l \<rparr>] \<rparr>))"
proof -
  have s: "own_inv s" "sites_ok o1 s0" "distinct (map s_remote (ru_sessions g)) \<longrightarrow> sess_inv s"
    using program_runs_ok [OF assms(1)] assms(2,3) by (auto simp: program_ok_def on_base_def)
  show ?thesis using s accepted_own [OF s(1)] assms(3) by (auto simp: sites_ok_def)
qed

lemma sample_texts: "print_d 12111 = ''12111''" "print_d 443 = ''443''"
  by (simp_all add: print_d_def dec_string.simps, code_simp+)

lemma sample_port:
  "t_host (transport_new (Some (''127.0.0.1:'' @ print_d 12111)) :: string transport) = Some ''127.0.0.1''"
  "t_port (transport_new (Some (''127.0.0.1:'' @ print_d 12111)) :: string transport) = 12111"
  "t_port (transport_new (Some (''127.0.0.1:'' @ print_d 443)) :: string transport) = 0"
  unfolding sample_texts by code_simp+

lemma opts_sample_parts:
  "so_local opts_sample = Some ''A''" "so_remote opts_sample = Some ''B''" "\<not> so_server opts_sample"
  "so_ciphers opts_sample = cipher_table0" "start_flux opts_sample = ''127.0.0.1:'' @ print_d 12111"
  "start_flux (opts_sample\<lparr> so_port := 443 \<rparr>) = ''127.0.0.1:'' @ print_d 443"
  by (simp_all add: opts_sample_def start_opts0_def start_flux_def)

lemma sample_session:
  "\<exists>s. program_runs machine_sample env_sample opts_sample \<lparr> ru_server = None, ru_base = s_dbs s, ru_sessions = [s] \<rparr> \<and>
    s_remote s = Some ''B''"
proof -
  let ?s0 = "prepared cipher_table0 [] (Some ''A'') (Some ''B'') False"
  let ?t = "transport_new (Some (start_flux opts_sample)) :: string transport"
  let ?t1 = "?t\<lparr> t_flux := Some ''127.0.0.1'' \<rparr>"
  obtain input s where s: "cyber_start text_json ''u'' E_no_error False E_no_error (Inr input) ?s0 = Inr (s, E_no_error)"
    "s_remote s = Some ''B''"
    using start_sample [of "[]"] by blast
  have start: "transport_start (mc_flux_new machine_sample) (mc_flux_open machine_sample) (mc_flux_ok machine_sample) ?t =
      (?t1, E_no_error)"
    unfolding opts_sample_parts transport_start_def by (simp add: sample_port machine_sample_def del: append.simps)
  have j: "e_json env_sample = text_json" by (simp add: env_sample_def)
  have loc: "s_local ?s0 \<noteq> None" by (simp add: prepared_def)
  have "start_follower machine_sample (e_json env_sample) ''u'' E_no_error (Inr input) opts_sample [] =
      start_on machine_sample text_json ''u'' E_no_error (Inr input) ?t ?s0"
    unfolding j start_follower_prepared [OF opts_sample_parts(1,2)] opts_sample_parts(4) ..
  also have "\<dots> = Inr ((s, E_no_error), ?t1)"
    unfolding start_on_def start using loc s(1) by simp
  finally have f: "start_follower machine_sample (e_json env_sample) ''u'' E_no_error (Inr input) opts_sample [] =
      Inr ((s, E_no_error), ?t1)" .
  have "auth_db_from_file machine_sample (0, 0) = Inr ([], - 1)"
    by (simp add: auth_db_from_file_def machine_sample_def auth_unserialize_from_file_def)
  from Follower [OF opts_sample_parts(3) this f] s(2) show ?thesis by blast
qed

theorem program_sessions_witness:
  "\<exists>s. s_remote s = Some ''B'' \<and> s_local s = Some ''A'' \<and> own_inv s \<and> sess_inv s"
proof -
  obtain s where s: "program_runs machine_sample env_sample opts_sample
      \<lparr> ru_server = None, ru_base = s_dbs s, ru_sessions = [s] \<rparr>" "s_remote s = Some ''B''"
    using sample_session by blast
  from program_sessions [OF s(1), of s s] s(2) show ?thesis by (auto simp: opts_sample_def)
qed

text \<open>C18. How the program goes wrong at its start and at its end.  Without the option \<open>-l\<close> or \<open>-p\<close> a follower
  duplicates a text that is not there; with an address that has no port between 1000 and 65535, or when
  no stream can be made, the start is refused and the program then stops a stream it never had; an
  option \<open>--rsmp\<close> that gives a version, which the description of the site has, is compared with the null
  entry behind the table of fields; and a leader stops at its exit the stream its listener never had.\<close>
theorem program_crashes:
  "(so_local o1 = None \<or> so_remote o1 = None \<longrightarrow>
      start_follower M J uuid sent received o1 d = Inl Null_deref) \<and>
   (so_local o1 = Some l \<and> so_remote o1 = Some r \<and>
      (t_port (transport_new (Some (start_flux o1)) :: 'f transport) = 0 \<or> (\<forall>h p. mc_flux_new M h p = (None :: 'f option))) \<longrightarrow>
      (\<exists>s t. start_follower M J uuid sent received o1 d = Inr ((s, T_generic), t) \<and>
        rbind (main_turn (follower_main ((s, T_generic), t))) main_turn = Inl Null_deref)) \<and>
   (so_rsmp o1 = Some x \<and> mc_cut M x = (''vers:'' @ v) # args \<longrightarrow> start_context M o1 fresh_env = Inl Null_deref) \<and>
   (start_leader M J o1 d = Inr ((server, ret), ts) \<and> (server, ts) \<in> set sessions \<longrightarrow>
      cyber_atexit sessions = Inl Null_deref)"
proof (intro conjI impI)
  assume "so_local o1 = None \<or> so_remote o1 = None"
  thus "start_follower M J uuid sent received o1 d = Inl Null_deref"
    by (cases "so_local o1") (auto simp: start_follower_def set_local_def set_remote_def Let_def)
next
  assume a: "so_local o1 = Some l \<and> so_remote o1 = Some r \<and>
      (t_port (transport_new (Some (start_flux o1)) :: 'f transport) = 0 \<or> (\<forall>h p. mc_flux_new M h p = (None :: 'f option)))"
  let ?s = "prepared (so_ciphers o1) d (Some l) (Some r) False"
  let ?t = "transport_new (Some (start_flux o1)) :: 'f transport"
  have "start_follower M J uuid sent received o1 d = Inr ((?s, T_generic), ?t)"
    using a by (intro unstarted_follower) simp_all
  moreover have "rbind (main_turn (follower_main ((?s, T_generic), ?t))) main_turn = Inl Null_deref"
    by (rule unstarted_crashes) (simp_all add: prepared_def cyber_new_from_transport_def cyber_priv_new_def)
  ultimately show "\<exists>s t. start_follower M J uuid sent received o1 d = Inr ((s, T_generic), t) \<and>
        rbind (main_turn (follower_main ((s, T_generic), t))) main_turn = Inl Null_deref"
    by (intro exI conjI)
next
  assume "so_rsmp o1 = Some x \<and> mc_cut M x = (''vers:'' @ v) # args"
  thus "start_context M o1 fresh_env = Inl Null_deref"
    by (simp add: start_context_def rsmp_context_from_str_def context_option_def Let_def from_lib known_labels_def rsmp_fields_tab_def)
next
  assume "start_leader M J o1 d = Inr ((server, ret), ts) \<and> (server, ts) \<in> set sessions"
  thus "cyber_atexit sessions = Inl Null_deref" using leader_has_no_flux by (fastforce simp: cyber_atexit_cases)
qed

theorem program_crashes_witness:
  "\<exists>s t. start_follower machine_sample text_json ''u'' E_no_error (Inl E_no_error) (opts_sample\<lparr> so_port := 443 \<rparr>) [] =
      Inr ((s, T_generic), t) \<and>
    rbind (main_turn (follower_main ((s, T_generic), t))) main_turn = Inl Null_deref"
proof -
  let ?o = "opts_sample\<lparr> so_port := 443 \<rparr>"
  have o: "so_local ?o = Some ''A''" "so_remote ?o = Some ''B''" by (simp_all add: opts_sample_def)
  have p: "t_port (transport_new (Some (start_flux ?o)) :: string transport) = 0"
    unfolding opts_sample_parts by (rule sample_port(3))
  show ?thesis
    by (rule program_crashes [THEN conjunct2, THEN conjunct1, THEN mp, of ?o "''A''" "''B''"]) (intro conjI o disjI1 p)
qed

end
