(* ===== verification/Log.thy ===== *)
theory Log
  imports AuthFile
begin

text \<open>
  Model of \<open>log/log.c\<close>: the level of the log as a word of 16 bits, and the text of a line of the log when its
  level is set.  The date, the names of the thread and of the section and the text of the formatted
  arguments are arguments; the length is that of
  the data; the lock, the descriptor and the number of octets written are left out.
\<close>

section \<open>Levels\<close>

type_synonym log_level = "16 word"

definition LOG_LEVEL_DUMP :: log_level where "LOG_LEVEL_DUMP = 0x01"
definition LOG_LEVEL_INFO :: log_level where "LOG_LEVEL_INFO = 0x02"
definition LOG_LEVEL_ERROR :: log_level where "LOG_LEVEL_ERROR = 0x04"
definition LOG_LEVEL_WARNING :: log_level where "LOG_LEVEL_WARNING = 0x08"
definition LOG_LEVEL_DEBUG :: log_level where "LOG_LEVEL_DEBUG = 0x10"
definition LOG_LEVEL_ALL :: log_level where "LOG_LEVEL_ALL = - 1"

definition LOG_LEVEL_DEFAULT :: log_level where
  "LOG_LEVEL_DEFAULT = LOG_LEVEL_INFO OR LOG_LEVEL_ERROR OR LOG_LEVEL_WARNING"

definition log_level_is_set :: "log_level \<Rightarrow> log_level \<Rightarrow> bool" where
  "log_level_is_set cur l \<longleftrightarrow> l AND cur \<noteq> 0"

definition log_level_set :: "log_level \<Rightarrow> log_level \<Rightarrow> log_level" where
  "log_level_set cur l = cur OR l"

definition log_level_clear :: "log_level \<Rightarrow> log_level \<Rightarrow> log_level" where
  "log_level_clear cur l = cur AND NOT l"

text \<open>One character for each bit that has a name.\<close>
definition log_set_str :: "log_level \<Rightarrow> string" where
  "log_set_str cur = map (\<lambda>(i, c). if bit cur i then c else CHR ''.'') (enumerate 0 ''UIEWD'')"

section \<open>Lines\<close>

definition hex_digit :: "nat \<Rightarrow> char" where
  "hex_digit n = ''0123456789abcdef'' ! n"

definition isprint :: "char \<Rightarrow> bool" where
  "isprint c \<longleftrightarrow> CHR '' '' \<le> c \<and> c \<le> CHR ''~''"

definition log_data_char :: "char \<Rightarrow> string" where
  "log_data_char c =
    (if isprint c then [c]
     else [CHR 0x5C, CHR ''x'', hex_digit (of_char c div 16), hex_digit (of_char c mod 16)])"

text \<open>A line with the data it is about; it ends with a new line only when there are data.\<close>
definition log_dump ::
  "log_level \<Rightarrow> log_level \<Rightarrow> string \<Rightarrow> nat \<times> string \<Rightarrow> string \<Rightarrow> cstr \<Rightarrow> string" where
  "log_dump cur level header err text buf =
    (if \<not> log_level_is_set cur level then []
     else header @ ''size:'' @ dec_string (case buf of None \<Rightarrow> 0 | Some b \<Rightarrow> length b) @ '' '' @
       (if fst err \<noteq> 0 then ''error: ('' @ dec_string (fst err) @ '') '' @ snd err @ '' '' else []) @ text @
       (case buf of
          Some (c # b) \<Rightarrow> '' data: <'' @ concat (map log_data_char (c # b)) @ ''>'' @ [CHR 0x0A]
        | _ \<Rightarrow> []))"

definition log_varg :: "log_level \<Rightarrow> log_level \<Rightarrow> string \<Rightarrow> nat \<times> string \<Rightarrow> string \<Rightarrow> string" where
  "log_varg cur level header err text =
    (if \<not> log_level_is_set cur level then []
     else header @ text @ (if fst err \<noteq> 0 then '' : ('' @ dec_string (fst err) @ '') '' @ snd err else []) @ [CHR 0x0A])"

section \<open>Lemmas\<close>

text \<open>Setting a level makes it set, clearing it makes none of it set, and both leave the other bits.\<close>
lemma log_level_set_is_set: "l \<noteq> 0 \<Longrightarrow> log_level_is_set (log_level_set cur l) l"
proof -
  assume "l \<noteq> 0"
  moreover have "l AND (cur OR l) = l" by (auto intro!: bit_eqI simp: bit_simps)
  ultimately show ?thesis by (simp add: log_level_is_set_def log_level_set_def)
qed

lemma log_level_clear_is_clear: "\<not> log_level_is_set (log_level_clear cur l) l"
proof -
  have "l AND (cur AND NOT l) = 0" by (auto intro!: bit_eqI simp: bit_simps)
  thus ?thesis by (simp add: log_level_is_set_def log_level_clear_def)
qed

lemma log_level_others:
  "l AND k = 0 \<Longrightarrow> log_level_is_set (log_level_set cur l) k = log_level_is_set cur k"
  "l AND k = 0 \<Longrightarrow> log_level_is_set (log_level_clear cur l) k = log_level_is_set cur k"
proof -
  assume d: "l AND k = 0"
  have b: "\<not> (bit l i \<and> bit k i)" for i using arg_cong [OF d, of "\<lambda>w. bit w i"] by (simp add: bit_simps)
  have "k AND (cur OR l) = k AND cur" "k AND (cur AND NOT l) = k AND cur"
    using b by (auto intro!: bit_eqI simp: bit_simps)
  thus "log_level_is_set (log_level_set cur l) k = log_level_is_set cur k"
    "log_level_is_set (log_level_clear cur l) k = log_level_is_set cur k"
    by (simp_all add: log_level_is_set_def log_level_set_def log_level_clear_def)
qed

text \<open>At the start the lines of information, those with the data of messages among them, errors and warnings
  are written, those for tests and raw data are not.\<close>
lemma default_levels:
  "log_level_is_set LOG_LEVEL_DEFAULT LOG_LEVEL_INFO" "log_level_is_set LOG_LEVEL_DEFAULT LOG_LEVEL_ERROR"
  "log_level_is_set LOG_LEVEL_DEFAULT LOG_LEVEL_WARNING" "\<not> log_level_is_set LOG_LEVEL_DEFAULT LOG_LEVEL_DEBUG"
  "\<not> log_level_is_set LOG_LEVEL_DEFAULT LOG_LEVEL_DUMP" "log_set_str LOG_LEVEL_DEFAULT = ''.IEW.''"
  by (simp_all add: log_level_is_set_def LOG_LEVEL_DEFAULT_def LOG_LEVEL_DEBUG_def LOG_LEVEL_INFO_def
      LOG_LEVEL_ERROR_def LOG_LEVEL_WARNING_def LOG_LEVEL_DUMP_def log_set_str_def)

end
