(* ===== verification/Spec2Isabelle.thy ===== *)
theory Spec2Isabelle
  imports Base64 Bcd Errcode MsgQueue Ciphers AuthReload AuthOps Events Transport ChallengeTrip RsmpTasks RsmpTyped Display Threads Program Log
begin

text \<open>
  Verification of the RSMP gateway: a program in C (under \<open>src/src\<close>) that connects a site of road equipment
  to another one, as follower (it calls) or leader (it is called), secures the connection, and carries the
  messages of the protocol RSMP over it.

  \<^bold>\<open>The program.\<close>  From the bottom up:
  the stream of a connection carries frames (\<open>transport\<close>); a frame holds a JSON text.  A session (\<open>cyber\<close>)
  first agrees with its peer on a cipher (\<open>cipher\<close>, \<open>crypt\<close>), then exchanges messages of type \<open>Encrypted\<close>
  (\<open>coder\<close>) whose elements are encrypted under the password of a login of the base of authentications
  (\<open>auth\<close>).  Three tasks of the session share its state and its queues (\<open>sync\<close>): one receives and decrypts,
  one answers the messages of the session itself, one encrypts and sends.  Passwords are renewed by a
  challenge; once every login was seen to, both sides send \<open>AllClear\<close>, an event (\<open>event\<close>) starts the
  application, which exchanges versions and then serves messages (\<open>rsmp\<close>, \<open>main.c\<close>): watchdogs, requests for
  statuses, requests for commands, among them those of a variable message sign (\<open>rsmp/sxl/display\<close>).

  \<^bold>\<open>Theories and sources.\<close>
  \<^item> \<open>Prelude\<close>: octets, C buffers, C strings, the faults of the C machine; the contract \<open>codec\<close>.
  \<^item> \<open>Base64\<close>, \<open>Bcd\<close>, \<open>Ciphers\<close>: \<open>crypt/base64.c\<close>, \<open>crypt/bcd.c\<close>, \<open>crypt/crypt.c\<close> with \<open>cipher/cipher.c\<close>.
  \<^item> \<open>Errcode\<close>, \<open>Events\<close>, \<open>Log\<close>: \<open>errcode/errcode.c\<close>, \<open>event/event.c\<close>, \<open>log/log.c\<close>.
  \<^item> \<open>LdcList\<close>, \<open>MsgQueue\<close>, \<open>Threads\<close>: \<open>sync/ldc-mutex.c\<close>, \<open>sync/queue.c\<close>, \<open>misc/thread.c\<close>.
  \<^item> \<open>KeyedList\<close>, \<open>AuthPwd\<close>, \<open>AuthDb\<close>, \<open>AuthFile\<close>, \<open>AuthReload\<close>, \<open>AuthOps\<close>: passwords and secrets (\<open>auth/auth-pwd.c\<close>,
    \<open>auth/auth-secret.c\<close>), the base, its file and the walks over it (\<open>auth/auth-basic.c\<close>, \<open>auth/auth-db*.c\<close>),
    the change of a password (\<open>auth/auth.c\<close>).
  \<^item> \<open>Transport\<close>: \<open>transport/transport.c\<close>.
  \<^item> \<open>Json\<close>, \<open>CoderMsg\<close>, \<open>Coder\<close>: the JSON library as an argument, the messages of the session and their
    encryption (\<open>coder/coder.c\<close>).
  \<^item> \<open>Challenge\<close>, \<open>Session\<close>, \<open>SessionSteps\<close>: \<open>cyber/challenge_ctxt.c\<close> and \<open>cyber/cyber.c\<close>; the state of a
    session is the record \<open>session\<close> (the fields of \<open>cyber_t\<close> and \<open>cyber_priv_t\<close>, queues as lists), its tasks and
    the calls of the application are the steps of the relation \<open>sess_step\<close>.
  \<^item> \<open>RsmpArray\<close>, \<open>RsmpFields\<close>, \<open>RsmpJson\<close>, \<open>RsmpContext\<close>, \<open>RsmpMessages\<close>, \<open>RsmpUtil\<close>: \<open>rsmp/vars\<close>, \<open>rsmp/fields\<close>,
    \<open>rsmp/coder\<close>, \<open>rsmp/env\<close>, \<open>rsmp/messages\<close>, \<open>rsmp/utils\<close>.  A structure is the list of its members with
    their names, and the tables of descriptions of the source are tables of the model.
  \<^item> \<open>DispData\<close>, \<open>DispJson\<close>, \<open>DispHandlers\<close>: \<open>rsmp/sxl/display\<close>.
  \<^item> \<open>RsmpApp\<close>: the handlers of the messages, \<open>rsmp/sxl/sxl.c\<close>, and the tasks of \<open>main.c\<close>.
  \<^item> \<open>Startup\<close>: the function \<open>main\<close>, from the options of the command line to the sessions and the exit.
  \<^item> \<open>SessionEffects\<close>, \<open>SharedBase\<close>: what each operation of a session does to what is its own and to the base,
    and the sessions of the connections of a leader, which share that base.

  \<^bold>\<open>How the code is modelled.\<close>  An operation is one definition with all its branches; what the C code does to
  memory it does not own, a failed assertion, a null pointer or a value never written is a \<open>fault\<close>, so that the
  absence or presence of faults is a theorem.  An error code is a value of \<open>errcode\<close>.  A pointer to an entry
  of the base is the triple of its data base, site and login.  Integers are words or integers
  reduced to their width where the code can overflow (sizes of arrays, lengths of pads, the difference of
  dates, the counter of a list).

  \<^bold>\<open>What is an argument.\<close>  Libraries whose source is not here are functions the definitions take: \<open>json-c\<close>
  (\<open>json_api\<close>, \<open>rjson\<close>, \<open>djson\<close>), OpenSSL (\<open>evp\<close>), the calendar (\<open>times\<close>), \<open>libuuid\<close> (\<open>uuids\<close>), the stream, the
  list and the parameter libraries, \<open>getopt_long\<close>.  What is relied on is named: \<open>json_sound\<close>, \<open>rjson_sound\<close> and
  \<open>djson_sound\<close> (what was added is found again, also after printing and parsing), \<open>evp_sound\<close> (decryption
  inverts encryption under the same key, vector and tag), \<open>evp_total\<close> (the primitives do not fail), \<open>times_sound\<close>,
  \<open>uuid_ok\<close> and \<open>ts_ok\<close> (a printed date or identifier is read back; of \<open>mktime\<close> with a local time this is not so
  in the hour a change of time leaves out), \<open>cuts_columns\<close>, \<open>no_empty\<close>, \<open>inserts_one\<close> and \<open>inserts_last\<close> (an
  insertion into a list adds one node; without a comparison it adds it at the end).  Concrete
  executable instances (\<open>text_json\<close>, \<open>evp_plain\<close>, \<open>times_unary\<close>, \<open>text_djson\<close> and others) satisfy them, and
  the witnesses of the properties use them.  Outcomes of the system and random values are arguments, too,
  so a property holds for all of them.

  \<^bold>\<open>Contracts.\<close>  The locale \<open>codec\<close> (decoding inverts encoding) holds of base64, of hexadecimal texts and of the
  tables of enumerations; \<open>message_store\<close> of the message queue whatever the list library does, and \<open>fifo\<close>
  when it inserts at the end; \<open>keyed_store\<close> and \<open>updatable_store\<close> of the base; \<open>growing\<close> of the arrays;
  \<open>step_invariant\<close> and \<open>simulation\<close> of the steps of a session and of a task; \<open>session_use\<close> of the calls of the
  application on a session; \<open>shared_base\<close> of sessions on one base.  Each is interpreted on the definitions of
  the code, and the properties use the facts of the interpretation.

  \<^bold>\<open>What is shown.\<close>
  \<^item> Codecs: base64, hexadecimal texts, AES frames, the file of the base, frames of the transport, messages of the
    session, and encrypted messages come back as they were written; so do RSMP messages of all types whose values are
    without a character, and the receiver of one that has a value with a character writes outside its memory.
  \<^item> The base is a map under all its operations (\<open>auth_base_is_a_map\<close>), a queue with its semaphore and its
    pool delivers every message once, and with insertion at the end in the order of the pushes
    (\<open>queue_fifo\<close>), arrays are lists (\<open>rsmp_array_lists\<close>).
  \<^item> The session (\<open>SessionInv\<close>, \<open>SessionSafety\<close>, \<open>SessionProps\<close>, \<open>Agreement\<close>, \<open>SessionSpec\<close>, \<open>SessionBlocked\<close>): its
    invariant under every interleaving of its steps, its refinement of an abstract machine of the
    challenge, one step of the machine for each step of the session, what both sides agree on, that data are accepted only after \<open>AllClear\<close> and under a TO login of the
    peer, that a loss is final, and the login that blocks a session.
  \<^item> The challenge from end to end (\<open>Challenge\<close>, \<open>ChallengeTrip\<close>): it is always made, and the peer takes the
    password its maker switches to.
  \<^item> The application (\<open>RsmpTrip\<close>, \<open>RsmpTyped\<close>, \<open>RsmpFaults\<close>, \<open>RsmpTasks\<close>): its tasks act on a session by its steps
    only, no payload makes a field work on memory of another type, watchdogs are answered
    and a peer without watchdogs is dropped in a turn that gets no message; and the payloads that crash the receiver.
  \<^item> The display messages (\<open>DispTrip\<close>, \<open>DispProps\<close>, \<open>Display\<close>): what is read back, and what the handlers do with
    what they are sent.
  \<^item> The program (\<open>Program\<close>): the sessions it runs, from its command line and the file of the base on, share
    the base and take their steps in any order; what each of them keeps, and the whole invariant when no
    two are with one site; what the options set; and the starts and exits that crash.

  \<^bold>\<open>Bounds.\<close>  Recursion is structural or on a decreasing measure, so the functions are total; the one loop of the
  code that may not end, the comparison of two arrays, is a \<open>partial_function\<close>, and \<open>rsmp_array_cmp_returns\<close> says
  when it ends.  There is no fuel.

  \<^bold>\<open>Not modelled.\<close>  Locks: an operation that holds its lock from its first to its last access is one step.  In
  the session the steps of its three tasks are atomic, in a session and between the sessions of a leader: a
  task that waits between the test of \<open>stop\<close> and its work does not test it again in the source, which the
  model does not show.  In \<open>disp_response_outcome\<close> the objects have the members \<open>msgId\<close> and \<open>retStatus\<close>, and
  not \<open>behaviorUsed\<close> and \<open>displayPriority\<close>, which the handlers read when they are there.  Failing allocations of a normal size, delays, the text of the log, the saving of the base after a
  change of password, releases of memory that change nothing else.  The build is the one without \<open>TEST_ENABLED\<close>
  (no fake cipher, no disabled challenge, no tests).  Files that are not compiled or empty
  (\<open>*-ack-included.c\<close>, \<open>ackMessage.c\<close>, \<open>ackType.c\<close>, \<open>rsmp/utils/misc.c\<close>, \<open>disp_s31.c\<close>), the part of \<open>auth-secret.c\<close> under
  \<open>YCO\<close>, \<open>auth-random.c\<close> (a read of \<open>/dev/random\<close>) and the tests are left out.
\<close>

end
